(* ===== verification/Prelude.thy ===== *)
theory Prelude
  imports Main "HOL-Library.Word" "HOL-Library.Product_Lexorder" "HOL-Library.List_Lexorder" "HOL-Library.Char_ord"
begin

text \<open>
  What every component shares: names for the scalar types of the code, the saturating and
  checked integer operations of Rust, SQL statements as operations on tables (lists of rows),
  and the result-and-state monad in which the handlers are written.
\<close>

named_theorems table_simps \<open>rewriting of table operations\<close>
named_theorems exec_simps \<open>symbolic execution of handlers\<close>

section \<open>Scalar types\<close>

text \<open>
  A UUID is a number: the code compares and orders identifiers (version 7 identifiers grow with
  time) and never looks inside one. A \<open>timestamptz\<close> is a number of microseconds. A text is a
  list of characters.
\<close>

type_synonym uuid = nat
type_synonym instant = int
type_synonym bytes = "8 word list"

datatype json =
  JNull
| JBool bool
| JNum int
| JStr string
| JArr "json list"
| JObj "(string \<times> json) list"

fun json_is_object :: "json \<Rightarrow> bool" where
  "json_is_object (JObj _) = True"
| "json_is_object _ = False"

fun json_get :: "json \<Rightarrow> string \<Rightarrow> json option" where
  "json_get (JObj fields) key = map_of fields key"
| "json_get _ _ = None"

fun json_str :: "json \<Rightarrow> string option" where
  "json_str (JStr s) = Some s"
| "json_str _ = None"

section \<open>Machine integers\<close>

text \<open>Rust's \<open>saturating_add\<close>, \<open>saturating_mul\<close> and \<open>div_ceil\<close> on unsigned integers.\<close>

definition sat_add :: "'w::len word \<Rightarrow> 'w word \<Rightarrow> 'w word" where
  "sat_add a b = (if unat a + unat b < 2 ^ LENGTH('w) then a + b else - 1)"

definition sat_mul :: "'w::len word \<Rightarrow> 'w word \<Rightarrow> 'w word" where
  "sat_mul a b = (if unat a * unat b < 2 ^ LENGTH('w) then a * b else - 1)"

definition word_div_ceil :: "'w::len word \<Rightarrow> 'w word \<Rightarrow> 'w word" where
  "word_div_ceil a b = (if a mod b > 0 then a div b + 1 else a div b)"

definition nat_div_ceil :: "nat \<Rightarrow> nat \<Rightarrow> nat" where
  "nat_div_ceil a b = (if a mod b > 0 then a div b + 1 else a div b)"

lemma unat_max_word: "unat (- 1 :: 'w::len word) = 2 ^ LENGTH('w) - 1"
  by (simp add: unsigned_minus_1_eq_mask mask_eq_exp_minus_1)

lemma unat_sat_add:
  "unat (sat_add a b) = min (unat a + unat b) (2 ^ LENGTH('w) - 1)" for a b :: "'w::len word"
proof (cases "unat a + unat b < 2 ^ LENGTH('w)")
  case True
  then show ?thesis by (simp add: sat_add_def unat_word_ariths)
next
  case False
  then show ?thesis by (simp add: sat_add_def unat_max_word)
qed

lemma unat_sat_mul:
  "unat (sat_mul a b) = min (unat a * unat b) (2 ^ LENGTH('w) - 1)" for a b :: "'w::len word"
proof (cases "unat a * unat b < 2 ^ LENGTH('w)")
  case True
  then show ?thesis by (simp add: sat_mul_def unat_word_ariths)
next
  case False
  then show ?thesis by (simp add: sat_mul_def unat_max_word)
qed

lemma nat_div_ceil_bounds:
  assumes "0 < b"
  shows "a \<le> nat_div_ceil a b * b" and "nat_div_ceil a b * b < a + b"
proof -
  have eq: "a = b * (a div b) + a mod b" by simp
  have lt: "a mod b < b" using assms by simp
  have up: "nat_div_ceil a b * b = b * (a div b) + (if a mod b > 0 then b else 0)"
    by (simp add: nat_div_ceil_def algebra_simps)
  show "a \<le> nat_div_ceil a b * b"
    unfolding up using eq lt by (split if_split, intro conjI impI; linarith)
  show "nat_div_ceil a b * b < a + b"
    unfolding up using eq lt assms by (split if_split, intro conjI impI; linarith)
qed

lemma unat_word_div_ceil:
  fixes a b :: "'w::len word"
  assumes "1 < unat b"
  shows "unat (word_div_ceil a b) = nat_div_ceil (unat a) (unat b)"
proof -
  have gt: "(a mod b > 0) = (unat a mod unat b > 0)"
    by (simp add: word_less_nat_alt unat_mod_distrib)
  show ?thesis
  proof (cases "unat a mod unat b > 0")
    case True
    then have "0 < unat a" by (cases "unat a") auto
    then have "unat a div unat b < unat a" using assms by simp
    moreover have "unat a < 2 ^ LENGTH('w)" by (rule unsigned_less)
    ultimately have f: "Suc (unat a div unat b) < 2 ^ LENGTH('w)" by linarith
    have "unat (a div b + 1) = Suc (unat a div unat b)"
      using f by (simp add: unat_word_ariths unat_div_distrib)
    then show ?thesis using True gt
      by (simp add: word_div_ceil_def nat_div_ceil_def)
  next
    case False
    then show ?thesis using gt
      by (simp add: word_div_ceil_def nat_div_ceil_def unat_div_distrib)
  qed
qed

section \<open>Tables\<close>

text \<open>
  A table is the list of its rows. The statements the code sends are built from the following
  operations; \<open>count_where\<close> is the number of rows a statement reports as affected.
\<close>

definition exists_where :: "('r \<Rightarrow> bool) \<Rightarrow> 'r list \<Rightarrow> bool" where
  "exists_where p t = list_ex p t"

definition select_where :: "('r \<Rightarrow> bool) \<Rightarrow> 'r list \<Rightarrow> 'r list" where
  "select_where p t = filter p t"

definition count_where :: "('r \<Rightarrow> bool) \<Rightarrow> 'r list \<Rightarrow> nat" where
  "count_where p t = length (filter p t)"

definition delete_where :: "('r \<Rightarrow> bool) \<Rightarrow> 'r list \<Rightarrow> 'r list" where
  "delete_where p t = filter (\<lambda>r. \<not> p r) t"

definition update_where :: "('r \<Rightarrow> bool) \<Rightarrow> ('r \<Rightarrow> 'r) \<Rightarrow> 'r list \<Rightarrow> 'r list" where
  "update_where p f t = map (\<lambda>r. if p r then f r else r) t"

definition find_where :: "('r \<Rightarrow> bool) \<Rightarrow> 'r list \<Rightarrow> 'r option" where
  "find_where p t = find p t"

text \<open>\<open>insert ... on conflict do nothing\<close>: a row in conflict with a stored one is dropped.\<close>

definition insert_nothing :: "('r \<Rightarrow> bool) \<Rightarrow> 'r \<Rightarrow> 'r list \<Rightarrow> 'r list" where
  "insert_nothing conflict r t = (if exists_where conflict t then t else t @ [r])"

text \<open>
  \<open>insert ... on conflict (key) do update set ... where guard\<close>: a stored row of the same key is
  replaced by \<open>upd\<close> of it when the guard holds of it, otherwise the row is appended.
\<close>

definition upsert :: "('r \<Rightarrow> bool) \<Rightarrow> ('r \<Rightarrow> bool) \<Rightarrow> ('r \<Rightarrow> 'r) \<Rightarrow> 'r \<Rightarrow> 'r list \<Rightarrow> 'r list" where
  "upsert same_key guard upd r t =
     (if exists_where same_key t then update_where (\<lambda>x. same_key x \<and> guard x) upd t else t @ [r])"

definition upsert_affected :: "('r \<Rightarrow> bool) \<Rightarrow> ('r \<Rightarrow> bool) \<Rightarrow> 'r list \<Rightarrow> nat" where
  "upsert_affected same_key guard t =
     (if exists_where same_key t then count_where (\<lambda>x. same_key x \<and> guard x) t else 1)"

lemma exists_where_iff [table_simps]: "exists_where p t \<longleftrightarrow> (\<exists>r \<in> set t. p r)"
  by (auto simp: exists_where_def list_ex_iff)

lemma set_delete_where [table_simps]: "set (delete_where p t) = {r \<in> set t. \<not> p r}"
  by (auto simp: delete_where_def)

lemma set_select_where [table_simps]: "set (select_where p t) = {r \<in> set t. p r}"
  by (auto simp: select_where_def)

lemma set_update_where [table_simps]:
  "set (update_where p f t) = (\<lambda>r. if p r then f r else r) ` set t"
  by (auto simp: update_where_def)

lemma count_where_0 [table_simps]: "count_where p t = 0 \<longleftrightarrow> (\<forall>r \<in> set t. \<not> p r)"
  by (auto simp: count_where_def filter_empty_conv)

lemma count_where_delete:
  "count_where p (delete_where q t) = count_where (\<lambda>r. p r \<and> \<not> q r) t"
  by (simp add: count_where_def delete_where_def conj_commute)

lemma length_delete_where: "length (delete_where p t) + count_where p t = length t"
  unfolding delete_where_def count_where_def
  by (metis add.commute sum_length_filter_compl)

lemma delete_where_idem [table_simps]: "delete_where p (delete_where p t) = delete_where p t"
  by (simp add: delete_where_def)

lemma delete_where_none: "\<forall>r \<in> set t. \<not> p r \<Longrightarrow> delete_where p t = t"
  by (simp add: delete_where_def)

lemma delete_where_commute:
  "delete_where p (delete_where q t) = delete_where q (delete_where p t)"
  by (simp add: delete_where_def conj_commute)

lemma update_where_none: "\<forall>r \<in> set t. \<not> p r \<Longrightarrow> update_where p f t = t"
  unfolding update_where_def by (rule map_idI) auto

lemma map_update_where:
  "(\<And>r. p r \<Longrightarrow> g (f r) = g r) \<Longrightarrow> map g (update_where p f t) = map g t"
  unfolding update_where_def by auto

lemma select_update_disjoint:
  assumes "\<And>r. q r \<Longrightarrow> \<not> p r" and "\<And>r. p r \<Longrightarrow> \<not> q (f r)"
  shows "select_where q (update_where p f t) = select_where q t"
  using assms unfolding select_where_def update_where_def
  by (induction t) auto

lemma select_update_where:
  assumes "\<And>r. p r \<Longrightarrow> q (f r) = q r"
  shows "select_where q (update_where p f t) = update_where p f (select_where q t)"
  using assms unfolding select_where_def update_where_def by (induction t) auto

lemma find_where_Some_iff: "find_where p t = None \<longleftrightarrow> (\<forall>r \<in> set t. \<not> p r)"
  unfolding find_where_def by (auto simp: find_None_iff)

lemma find_where_SomeD: "find_where p t = Some r \<Longrightarrow> r \<in> set t \<and> p r"
  unfolding find_where_def by (auto simp: find_Some_iff)

lemma find_where_append:
  "find_where p (t @ u) = (case find_where p t of None \<Rightarrow> find_where p u | Some r \<Rightarrow> Some r)"
  unfolding find_where_def by (induction t) auto

lemma find_update_where:
  assumes "\<And>r. p r \<Longrightarrow> q (f r) = q r"
  shows "find_where q (update_where p f t) =
    map_option (\<lambda>r. if p r then f r else r) (find_where q t)"
  using assms unfolding find_where_def update_where_def by (induction t) auto

text \<open>A key that no two rows share, and the row it finds.\<close>

definition key_unique :: "('r \<Rightarrow> 'k) \<Rightarrow> 'r list \<Rightarrow> bool" where
  "key_unique key t = distinct (map key t)"

lemma key_unique_delete: "key_unique key t \<Longrightarrow> key_unique key (delete_where p t)"
  unfolding key_unique_def delete_where_def by (simp add: distinct_map_filter)

lemma key_unique_insert:
  "key_unique key t \<Longrightarrow> key_unique key (insert_nothing (\<lambda>x. key x = key r) r t)"
  unfolding key_unique_def insert_nothing_def exists_where_iff by auto

lemma key_unique_update:
  "(\<And>r. p r \<Longrightarrow> key (f r) = key r) \<Longrightarrow> key_unique key t \<Longrightarrow> key_unique key (update_where p f t)"
  unfolding key_unique_def by (subst map_update_where) auto

lemma key_unique_find:
  assumes "key_unique key t" and "r \<in> set t"
  shows "find_where (\<lambda>x. key x = key r) t = Some r"
  using assms unfolding key_unique_def find_where_def by (induction t) auto

section \<open>Handlers: results and a world\<close>

text \<open>
  A handler takes a world and gives a result and a new world: \<open>Inl\<close> an error, \<open>Inr\<close> a value, as
  \<open>Result\<close> does in the code. \<open>exec_bind\<close> is the \<open>?\<close> operator: an error ends the handler where it
  occurs and keeps what was already committed.
\<close>

type_synonym ('w, 'e, 'a) exec = "'w \<Rightarrow> ('e + 'a) \<times> 'w"

definition exec_return :: "'a \<Rightarrow> ('w, 'e, 'a) exec" where
  "exec_return x = (\<lambda>w. (Inr x, w))"

definition exec_fail :: "'e \<Rightarrow> ('w, 'e, 'a) exec" where
  "exec_fail e = (\<lambda>w. (Inl e, w))"

definition exec_bind :: "('w, 'e, 'a) exec \<Rightarrow> ('a \<Rightarrow> ('w, 'e, 'b) exec) \<Rightarrow> ('w, 'e, 'b) exec" where
  "exec_bind m f = (\<lambda>w. case m w of (Inl e, w') \<Rightarrow> (Inl e, w') | (Inr x, w') \<Rightarrow> f x w')"

definition exec_guard :: "bool \<Rightarrow> 'e \<Rightarrow> ('w, 'e, unit) exec" where
  "exec_guard b e = (if b then exec_return () else exec_fail e)"

definition exec_map_err :: "('e \<Rightarrow> 'f) \<Rightarrow> ('w, 'e, 'a) exec \<Rightarrow> ('w, 'f, 'a) exec" where
  "exec_map_err h m = (\<lambda>w. case m w of (Inl e, w') \<Rightarrow> (Inl (h e), w') | (Inr x, w') \<Rightarrow> (Inr x, w'))"

definition exec_result :: "'e + 'a \<Rightarrow> ('w, 'e, 'a) exec" where
  "exec_result r = (\<lambda>w. (r, w))"

fun exec_each :: "('x \<Rightarrow> ('w, 'e, unit) exec) \<Rightarrow> 'x list \<Rightarrow> ('w, 'e, unit) exec" where
  "exec_each f [] = exec_return ()"
| "exec_each f (x # xs) = exec_bind (f x) (\<lambda>_. exec_each f xs)"

lemma exec_return_apply [exec_simps]: "exec_return x w = (Inr x, w)"
  by (simp add: exec_return_def)

lemma exec_fail_apply [exec_simps]: "exec_fail e w = (Inl e, w)"
  by (simp add: exec_fail_def)

lemma exec_guard_apply [exec_simps]: "exec_guard b e w = (if b then (Inr (), w) else (Inl e, w))"
  by (simp add: exec_guard_def exec_return_def exec_fail_def)

lemma exec_result_apply [exec_simps]: "exec_result r w = (r, w)"
  by (simp add: exec_result_def)

lemma exec_bind_Inr [exec_simps]: "m w = (Inr x, w') \<Longrightarrow> exec_bind m f w = f x w'"
  by (simp add: exec_bind_def)

lemma exec_bind_Inl [exec_simps]: "m w = (Inl e, w') \<Longrightarrow> exec_bind m f w = (Inl e, w')"
  by (simp add: exec_bind_def)

lemma exec_bind_InrE:
  assumes "exec_bind m f w = (Inr y, w'')"
  obtains x w' where "m w = (Inr x, w')" and "f x w' = (Inr y, w'')"
  using assms unfolding exec_bind_def by (auto split: prod.splits sum.splits)

lemma exec_bind_InlE:
  assumes "exec_bind m f w = (Inl e, w'')"
  obtains "m w = (Inl e, w'')" | x w' where "m w = (Inr x, w')" and "f x w' = (Inl e, w'')"
  using assms unfolding exec_bind_def by (auto split: prod.splits sum.splits)

lemma exec_map_err_Inr: "exec_map_err h m w = (Inr x, w') \<longleftrightarrow> m w = (Inr x, w')"
  unfolding exec_map_err_def by (auto split: prod.splits sum.splits)

text \<open>
  \<open>keeps ok m\<close>: whatever the handler returns, and wherever it stops, the invariant still holds.
\<close>

definition keeps :: "('w \<Rightarrow> bool) \<Rightarrow> ('w, 'e, 'a) exec \<Rightarrow> bool" where
  "keeps ok m \<longleftrightarrow> (\<forall>w. ok w \<longrightarrow> ok (snd (m w)))"

named_theorems keeps_rules \<open>preservation of an invariant by the parts of a handler\<close>

lemma keepsI: "(\<And>w. ok w \<Longrightarrow> ok (snd (m w))) \<Longrightarrow> keeps ok m"
  by (simp add: keeps_def)

lemma keepsD: "keeps ok m \<Longrightarrow> ok w \<Longrightarrow> m w = (r, w') \<Longrightarrow> ok w'"
  unfolding keeps_def by (metis snd_conv)

lemma keeps_return [keeps_rules]: "keeps ok (exec_return x)"
  by (simp add: keeps_def exec_return_def)

lemma keeps_fail [keeps_rules]: "keeps ok (exec_fail e)"
  by (simp add: keeps_def exec_fail_def)

lemma keeps_result [keeps_rules]: "keeps ok (exec_result r)"
  by (simp add: keeps_def exec_result_def)

lemma keeps_guard [keeps_rules]: "keeps ok (exec_guard b e)"
  by (simp add: keeps_def exec_guard_apply)

lemma keeps_bind [keeps_rules]:
  assumes "keeps ok m" and "\<And>x. keeps ok (f x)"
  shows "keeps ok (exec_bind m f)"
proof (rule keepsI)
  fix w assume w: "ok w"
  obtain r w' where m: "m w = (r, w')" by fastforce
  then have "ok w'" using assms(1) w by (blast intro: keepsD)
  then show "ok (snd (exec_bind m f w))"
    using m assms(2) by (cases r) (auto simp: exec_bind_def keeps_def)
qed

lemma keeps_map_err [keeps_rules]: "keeps ok m \<Longrightarrow> keeps ok (exec_map_err h m)"
  unfolding keeps_def exec_map_err_def by (auto split: prod.splits sum.splits)

lemma keeps_if [keeps_rules]: "keeps ok m \<Longrightarrow> keeps ok n \<Longrightarrow> keeps ok (if b then m else n)"
  by simp

lemma keeps_each [keeps_rules]: "(\<And>x. keeps ok (f x)) \<Longrightarrow> keeps ok (exec_each f xs)"
  by (induction xs) (auto intro: keeps_rules)

end
