(* ===== verification/Vocabulary.thy ===== *)
theory Vocabulary
  imports Prelude
begin

text \<open>
  The closed vocabularies of the code: provider failures (\<open>provider.rs\<close>), blob and persistence
  failures (\<open>blob_store.rs\<close>, \<open>database.rs\<close>), the states of an analysis run and of its attempts
  (\<open>runs.rs\<close>), with their database spellings and with the classification of a failure as one
  that a later delivery may or may not survive.
\<close>

section \<open>Provider failures\<close>

datatype provider_error =
  Transient | Permanent | BudgetExhausted | OperatorAction | Exhausted | Internal

fun provider_error_is_permanent :: "provider_error \<Rightarrow> bool" where
  "provider_error_is_permanent e = (e \<notin> {Transient, BudgetExhausted, OperatorAction})"

fun provider_error_needs_operator :: "provider_error \<Rightarrow> bool" where
  "provider_error_needs_operator e = (e = OperatorAction)"

datatype failure_class =
  ClassTimeout | ClassNetwork | ClassRateLimited | ClassServerError | ClassAuthError
| ClassPaymentRequired | ClassModelUnavailable | ClassRequestInvalid | ClassSizeLimit
| ClassBudgetExhausted | ClassUnclassified

fun failure_class_as_str :: "failure_class \<Rightarrow> string" where
  "failure_class_as_str ClassTimeout = ''timeout''"
| "failure_class_as_str ClassNetwork = ''network''"
| "failure_class_as_str ClassRateLimited = ''rate_limited''"
| "failure_class_as_str ClassServerError = ''server_error''"
| "failure_class_as_str ClassAuthError = ''auth_error''"
| "failure_class_as_str ClassPaymentRequired = ''payment_required''"
| "failure_class_as_str ClassModelUnavailable = ''model_unavailable''"
| "failure_class_as_str ClassRequestInvalid = ''request_invalid''"
| "failure_class_as_str ClassSizeLimit = ''size_limit''"
| "failure_class_as_str ClassBudgetExhausted = ''budget_exhausted''"
| "failure_class_as_str ClassUnclassified = ''unclassified''"

record provider_failure =
  pf_error :: provider_error
  pf_class :: failure_class
  pf_http_status :: "16 word option"

definition unclassified :: "provider_error \<Rightarrow> provider_failure" where
  "unclassified e = \<lparr>pf_error = e, pf_class = ClassUnclassified, pf_http_status = None\<rparr>"

definition is_transient :: "provider_failure \<Rightarrow> bool" where
  "is_transient f = (pf_error f = Transient)"

definition is_recoverable :: "provider_failure \<Rightarrow> bool" where
  "is_recoverable f = (\<not> provider_error_is_permanent (pf_error f))"

definition provider_failure_from :: "provider_error \<Rightarrow> provider_failure" where
  "provider_failure_from e =
     (if e = BudgetExhausted
      then \<lparr>pf_error = e, pf_class = ClassBudgetExhausted, pf_http_status = None\<rparr>
      else unclassified e)"

record provider_usage =
  input_tokens :: "64 word"
  output_tokens :: "64 word"

record provider_response =
  resp_bytes :: bytes
  resp_request_id :: "string option"
  resp_usage :: provider_usage

record provider_identity =
  id_provider :: string
  id_model :: string

record generation_request =
  prompt_version :: string
  system_policy :: string
  task_instruction :: string
  output_schema :: json
  source_content :: string

section \<open>Storage failures\<close>

datatype blob_error = Unavailable | TooLarge | Io | InvalidReference

fun blob_error_is_permanent :: "blob_error \<Rightarrow> bool" where
  "blob_error_is_permanent e = (e \<in> {TooLarge, InvalidReference})"

datatype persistence_error =
  Connect | SchemaFailed | Query | InvalidSource | InvalidAnalysisIdentity
| AttemptBudgetExhausted | ValueOverflow | Encode | BlobFailed blob_error

fun persistence_error_is_permanent :: "persistence_error \<Rightarrow> bool" where
  "persistence_error_is_permanent (BlobFailed e) = blob_error_is_permanent e"
| "persistence_error_is_permanent e =
     (e \<in> {InvalidSource, InvalidAnalysisIdentity, AttemptBudgetExhausted, ValueOverflow, Encode})"

section \<open>Runs and attempts\<close>

datatype run_state =
  Queued | ContextPrepared | ModelRequested | ResponseReceived | SchemaValidated
| Repaired | Persisted | Indexed | Completed | Failed

fun run_state_as_str :: "run_state \<Rightarrow> string" where
  "run_state_as_str Queued = ''queued''"
| "run_state_as_str ContextPrepared = ''context_prepared''"
| "run_state_as_str ModelRequested = ''model_requested''"
| "run_state_as_str ResponseReceived = ''response_received''"
| "run_state_as_str SchemaValidated = ''schema_validated''"
| "run_state_as_str Repaired = ''repaired''"
| "run_state_as_str Persisted = ''persisted''"
| "run_state_as_str Indexed = ''indexed''"
| "run_state_as_str Completed = ''completed''"
| "run_state_as_str Failed = ''failed''"

datatype attempt_reason = ReasonInitial | ReasonRetry | ReasonRepair

fun attempt_reason_as_str :: "attempt_reason \<Rightarrow> string" where
  "attempt_reason_as_str ReasonInitial = ''initial''"
| "attempt_reason_as_str ReasonRetry = ''retry''"
| "attempt_reason_as_str ReasonRepair = ''repair''"

datatype attempt_outcome =
  AttemptRequested | AttemptTransientFailure | AttemptPermanentFailure
| AttemptResponseReceived | AttemptInvalid | AttemptAccepted | AttemptInterrupted

fun attempt_outcome_as_str :: "attempt_outcome \<Rightarrow> string" where
  "attempt_outcome_as_str AttemptRequested = ''requested''"
| "attempt_outcome_as_str AttemptTransientFailure = ''transient_failure''"
| "attempt_outcome_as_str AttemptPermanentFailure = ''permanent_failure''"
| "attempt_outcome_as_str AttemptResponseReceived = ''response_received''"
| "attempt_outcome_as_str AttemptInvalid = ''invalid''"
| "attempt_outcome_as_str AttemptAccepted = ''accepted''"
| "attempt_outcome_as_str AttemptInterrupted = ''interrupted''"

text \<open>
  The columns hold the spellings; a check constraint of \<open>schema.sql\<close> admits exactly them. The
  model keeps the value itself in the row, which is the same column because no two values share a
  spelling.
\<close>

lemma run_state_as_str_inject [simp]: "run_state_as_str a = run_state_as_str b \<longleftrightarrow> a = b"
  by (cases a; cases b) simp_all

lemma attempt_outcome_as_str_inject [simp]:
  "attempt_outcome_as_str a = attempt_outcome_as_str b \<longleftrightarrow> a = b"
  by (cases a; cases b) simp_all

lemma attempt_reason_as_str_inject [simp]:
  "attempt_reason_as_str a = attempt_reason_as_str b \<longleftrightarrow> a = b"
  by (cases a; cases b) simp_all

lemma failure_class_as_str_inject [simp]:
  "failure_class_as_str a = failure_class_as_str b \<longleftrightarrow> a = b"
  by (cases a; cases b) simp_all

section \<open>Channel recaps\<close>

datatype recap_state =
  RecapReceived | RecapManifestRetry | RecapManifestVerified | RecapContextPrepared
| RecapModelRequested | RecapResponseReceived | RecapSchemaValidated | RecapRepaired
| RecapPersisted | RecapCompleted | RecapFailed

fun recap_state_as_str :: "recap_state \<Rightarrow> string" where
  "recap_state_as_str RecapReceived = ''received''"
| "recap_state_as_str RecapManifestRetry = ''manifest_retry''"
| "recap_state_as_str RecapManifestVerified = ''manifest_verified''"
| "recap_state_as_str RecapContextPrepared = ''context_prepared''"
| "recap_state_as_str RecapModelRequested = ''model_requested''"
| "recap_state_as_str RecapResponseReceived = ''response_received''"
| "recap_state_as_str RecapSchemaValidated = ''schema_validated''"
| "recap_state_as_str RecapRepaired = ''repaired''"
| "recap_state_as_str RecapPersisted = ''persisted''"
| "recap_state_as_str RecapCompleted = ''completed''"
| "recap_state_as_str RecapFailed = ''failed''"

lemma recap_state_as_str_inject [simp]:
  "recap_state_as_str a = recap_state_as_str b \<longleftrightarrow> a = b"
  by (cases a; cases b) simp_all

section \<open>User content\<close>

datatype read_state = Unread | Read

fun read_state_as_str :: "read_state \<Rightarrow> string" where
  "read_state_as_str Unread = ''unread''"
| "read_state_as_str Read = ''read''"

datatype request_state = RequestPending | RequestCompleted | RequestFailed

end
