(* ===== verification/Schema.thy ===== *)
theory Schema
  imports Vocabulary
begin

text \<open>
  The tables Knowledge owns (\<open>schema.sql\<close>) and the world a handler runs in. A row holds the
  columns the code reads or writes; bookkeeping columns that only a human reads are left out.
\<close>

section \<open>Identifiers\<close>

text \<open>
  The canonical text of an identifier (\<open>Uuid::to_string\<close>): 32 lowercase hexadecimal digits in
  groups of 8, 4, 4, 4 and 12.
\<close>

definition hex_char :: "nat \<Rightarrow> char" where
  "hex_char d = (if d < 10 then char_of (48 + d) else char_of (87 + d))"

fun hex_digits :: "nat \<Rightarrow> nat \<Rightarrow> string" where
  "hex_digits 0 n = []"
| "hex_digits (Suc k) n = hex_digits k (n div 16) @ [hex_char (n mod 16)]"

definition uuid_text :: "uuid \<Rightarrow> string" where
  "uuid_text n =
     (let h = hex_digits 32 n in
      take 8 h @ ''-'' @ take 4 (drop 8 h) @ ''-'' @ take 4 (drop 12 h) @ ''-'' @
      take 4 (drop 16 h) @ ''-'' @ drop 20 h)"

lemma hex_char_inject: "a < 16 \<Longrightarrow> b < 16 \<Longrightarrow> hex_char a = hex_char b \<Longrightarrow> a = b"
  unfolding hex_char_def
  by (auto split: if_splits dest!: arg_cong [where f = "of_char :: char \<Rightarrow> nat"])

lemma hex_char_not_hyphen: "d < 16 \<Longrightarrow> hex_char d \<noteq> CHR ''-''"
  unfolding hex_char_def
  by (auto split: if_splits dest!: arg_cong [where f = "of_char :: char \<Rightarrow> nat"])

lemma hex_digits_inject:
  "a < 16 ^ k \<Longrightarrow> b < 16 ^ k \<Longrightarrow> hex_digits k a = hex_digits k b \<Longrightarrow> a = b"
proof (induction k arbitrary: a b)
  case 0
  then show ?case by simp
next
  case (Suc k)
  from Suc.prems(3) have eq: "hex_digits k (a div 16) = hex_digits k (b div 16)"
    and c: "hex_char (a mod 16) = hex_char (b mod 16)" by auto
  from Suc.prems have "a div 16 < 16 ^ k" "b div 16 < 16 ^ k"
    by (simp_all add: less_mult_imp_div_less mult.commute)
  then have "a div 16 = b div 16" using Suc.IH eq by blast
  moreover have "a mod 16 = b mod 16" using hex_char_inject c by simp
  ultimately show ?case by (metis div_mult_mod_eq)
qed

lemma hyphen_not_in_hex_digits: "CHR ''-'' \<notin> set (hex_digits k n)"
proof (induction k arbitrary: n)
  case (Suc k)
  have "hex_char (n mod 16) \<noteq> CHR ''-''" by (rule hex_char_not_hyphen) simp
  then show ?case using Suc by (auto simp del: One_nat_def)
qed simp

lemma length_hex_digits [simp]: "length (hex_digits k n) = k"
  by (induction k arbitrary: n) auto

lemma uuid_text_strip: "filter (\<lambda>c. c \<noteq> CHR ''-'') (uuid_text n) = hex_digits 32 n"
proof -
  let ?h = "hex_digits 32 n"
  have keep: "filter (\<lambda>c. c \<noteq> CHR ''-'') xs = xs" if "set xs \<subseteq> set ?h" for xs
    using that hyphen_not_in_hex_digits [of 32 n] by (intro filter_True) auto
  have sub: "set (take i (drop j ?h)) \<subseteq> set ?h" "set (take i ?h) \<subseteq> set ?h" "set (drop j ?h) \<subseteq> set ?h" for i j
    by (meson in_set_dropD in_set_takeD subsetI)+
  have step: "take 4 (drop n ?h) @ drop (n + 4) ?h = drop n ?h" for n
    by (metis append_take_drop_id drop_drop add.commute)
  have "take 8 ?h @ take 4 (drop 8 ?h) @ take 4 (drop 12 ?h) @ take 4 (drop 16 ?h) @ drop 20 ?h = ?h"
    using step [of 8] step [of 12] step [of 16] append_take_drop_id [of 8 ?h] by simp
  then show ?thesis
    by (simp add: uuid_text_def Let_def keep sub)
qed

lemma uuid_text_inject:
  assumes "a < 2 ^ 128" and "b < 2 ^ 128" and "uuid_text a = uuid_text b"
  shows "a = b"
proof -
  have "(2::nat) ^ 128 = 16 ^ 32" by simp
  moreover have "hex_digits 32 a = hex_digits 32 b"
    using assms(3) uuid_text_strip by metis
  ultimately show ?thesis using assms(1,2) hex_digits_inject [of a 32 b] by simp
qed

section \<open>Rows\<close>

text \<open>One record per table of \<open>schema.sql\<close>; a reference to a stored blob comes first.\<close>

record blob_ref =
  br_owner :: string
  br_digest :: string
  br_media :: string
  br_length :: nat

record source_ref_row =
  sr_id :: uuid
  sr_tenant :: string
  sr_owner :: string
  sr_archive :: string
  sr_document :: string
  sr_digest :: string
  sr_blob :: blob_ref
  sr_created :: instant

record run_row =
  ar_id :: uuid
  ar_source :: uuid
  ar_contract :: string
  ar_prompt :: string
  ar_context :: string
  ar_policy :: string
  ar_state :: run_state
  ar_created :: instant
  ar_updated :: instant

record attempt_row =
  at_run :: uuid
  at_ordinal :: nat
  at_reason :: attempt_reason
  at_provider :: string
  at_policy :: string
  at_model :: string
  at_request :: "string option"
  at_raw :: "blob_ref option"
  at_input :: "nat option"
  at_output :: "nat option"
  at_outcome :: attempt_outcome
  at_code :: "string option"
  at_duration :: "nat option"
  at_status :: "nat option"
  at_class :: "failure_class option"

record output_row =
  ao_id :: uuid
  ao_run :: uuid
  ao_result :: json
  ao_raw :: blob_ref
  ao_accepted :: bool
  ao_created :: instant

record usage_row =
  pu_id :: uuid
  pu_provider :: string
  pu_model :: string
  pu_input :: nat
  pu_output :: nat
  pu_cost :: nat
  pu_recorded :: instant

record deletion_counts =
  dc_tags :: nat
  dc_taggings :: nat
  dc_collections :: nat
  dc_collection_items :: nat
  dc_user_states :: nat
  dc_highlights :: nat
  dc_feedback :: nat
  dc_source_refs :: nat
  dc_runs :: nat
  dc_attempts :: nat
  dc_outputs :: nat
  dc_search_documents :: nat
  dc_projection_inputs :: nat
  dc_chunks :: nat
  dc_failures :: nat
  dc_inbox :: nat
  dc_heads :: nat
  dc_object_inbox :: nat
  dc_requests :: nat
  dc_archive_tombstones :: nat
  dc_social_tombstones :: nat
  dc_notes_files :: nat
  dc_notes_disconnections :: nat
  dc_recap_rows :: nat
  dc_outbox :: nat

record deletion_row =
  dr_id :: uuid
  dr_tenant :: string
  dr_scope :: string
  dr_owner :: "string option"
  dr_archive :: "string option"
  dr_document :: "string option"
  dr_counts :: deletion_counts
  dr_blobs_removed :: nat

record request_row =
  rq_id :: uuid
  rq_tenant :: string
  rq_repository :: uuid
  rq_numeric :: nat
  rq_revision :: json
  rq_attributes :: json
  rq_contract :: string
  rq_key :: string
  rq_cause :: uuid
  rq_correlation :: string
  rq_state :: request_state
  rq_result :: "string option"
  rq_failure :: "string option"
  rq_retryable :: "bool option"
  rq_terminal :: "instant option"
  rq_created :: instant

record inbox_row =
  in_event :: uuid
  in_subject :: string
  in_family :: string
  in_tenant :: string
  in_archive :: "string option"
  in_source :: string
  in_digest :: string
  in_observed :: instant
  in_snapshot :: json

record recap_inbox_row =
  ci_command :: uuid
  ci_owner :: string
  ci_operation :: uuid
  ci_digest_run :: uuid
  ci_manifest_ref :: string
  ci_manifest_digest :: string
  ci_start :: instant
  ci_end :: instant
  ci_sources :: nat
  ci_channels :: nat
  ci_contract :: string
  ci_language :: string
  ci_payload :: json

record recap_run_row =
  rn_id :: uuid
  rn_command :: uuid
  rn_owner :: string
  rn_digest_run :: uuid
  rn_manifest_digest :: string
  rn_contract :: string
  rn_prompt :: string
  rn_context :: string
  rn_language :: string
  rn_state :: recap_state
  rn_manifest_attempts :: nat
  rn_retry_not_before :: "instant option"
  rn_attempts :: nat
  rn_failure :: "string option"

record recap_manifest_row =
  rm_run :: uuid
  rm_owner :: string
  rm_digest_run :: uuid
  rm_ref :: string
  rm_digest :: string
  rm_start :: instant
  rm_end :: instant
  rm_sources :: nat
  rm_channels :: nat
  rm_manifest :: json

record recap_attempt_row =
  ra_run :: uuid
  ra_ordinal :: nat
  ra_reason :: attempt_reason
  ra_provider :: string
  ra_model :: string
  ra_request :: "string option"
  ra_raw :: "blob_ref option"
  ra_raw_digest :: "string option"
  ra_input :: "nat option"
  ra_output :: "nat option"
  ra_outcome :: attempt_outcome
  ra_code :: "string option"
  ra_class :: "string option"
  ra_duration :: nat

record recap_result_row =
  rs_id :: uuid
  rs_run :: uuid
  rs_result :: json
  rs_digest :: string
  rs_coverage :: json

record recap_outbox_row =
  ro_id :: uuid
  ro_run :: uuid
  ro_subject :: string
  ro_payload :: json
  ro_created :: instant
  ro_published :: "instant option"

record tombstone_row =
  tb_event :: uuid
  tb_tenant :: string
  tb_archive :: string
  tb_kind :: string
  tb_subject :: "string option"
  tb_observed :: instant

record object_row =
  ob_event :: uuid
  ob_subject :: string
  ob_tenant :: string
  ob_archive :: string
  ob_kind :: string
  ob_id :: string
  ob_observed :: instant
  ob_payload :: json

record head_row =
  hd_family :: string
  hd_tenant :: string
  hd_source :: string
  hd_digest :: string
  hd_observed :: instant
  hd_event :: uuid

record notes_file_row =
  nf_tenant :: string
  nf_file :: uuid
  nf_connection :: uuid
  nf_sequence :: nat
  nf_deleted :: bool

record notes_disconnection_row =
  nd_tenant :: string
  nd_connection :: uuid

record tag_row =
  tg_id :: uuid
  tg_tenant :: string
  tg_normalized :: string
  tg_display :: string

record tagging_row =
  tt_tag :: uuid
  tt_output :: uuid
  tt_tenant :: string

record collection_row =
  cl_id :: uuid
  cl_tenant :: string
  cl_name :: string

record item_row =
  it_collection :: uuid
  it_position :: nat
  it_tenant :: string
  it_output :: "uuid option"
  it_source :: "uuid option"

record user_state_row =
  us_tenant :: string
  us_output :: uuid
  us_read :: read_state
  us_favorite :: bool

record highlight_row =
  hl_id :: uuid
  hl_tenant :: string
  hl_output :: uuid
  hl_source :: uuid
  hl_block :: uuid
  hl_start :: nat
  hl_end :: nat
  hl_style :: string

record feedback_row =
  fb_id :: uuid
  fb_tenant :: string
  fb_output :: uuid
  fb_category :: string
  fb_detail :: "string option"

record projection_row =
  pi_source :: uuid
  pi_output :: uuid
  pi_tenant :: string
  pi_owner :: string
  pi_document :: uuid
  pi_title :: string
  pi_lead :: string
  pi_body :: string
  pi_updated :: instant

record search_row =
  sd_id :: uuid
  sd_source :: uuid
  sd_output :: uuid
  sd_tenant :: string
  sd_owner :: string
  sd_document :: uuid
  sd_title :: string
  sd_lead :: string
  sd_body :: string
  sd_updated :: instant

record chunk_row =
  ec_id :: uuid
  ec_source :: uuid
  ec_output :: uuid
  ec_tenant :: string
  ec_owner :: string
  ec_document :: uuid
  ec_ordinal :: nat
  ec_text :: string
  ec_digest :: string
  ec_chunking :: string
  ec_provider :: string
  ec_model :: string
  ec_dimensions :: nat
  ec_prompt :: string
  ec_vector :: "32 word list"

record failure_row =
  ef_id :: uuid
  ef_source :: uuid
  ef_output :: uuid
  ef_tenant :: string
  ef_chunking :: string
  ef_provider :: string
  ef_model :: string
  ef_prompt :: string
  ef_class :: failure_class
  ef_attempt :: nat
  ef_detail :: "string option"

record event_row =
  ev_id :: uuid
  ev_subject :: string
  ev_tenant :: string
  ev_aggregate :: string
  ev_correlation :: string
  ev_causation :: "string option"
  ev_payload :: json
  ev_key :: string
  ev_created :: instant
  ev_published :: "instant option"

record social_tombstone_row =
  so_event :: uuid
  so_tenant :: string
  so_source :: string
  so_reason :: string
  so_removed :: instant

record erasure_row =
  eq_digest :: string
  eq_deletion :: uuid
  eq_enqueued :: instant

section \<open>The database\<close>

record db =
  source_refs :: "source_ref_row list"
  analysis_runs :: "run_row list"
  analysis_attempts :: "attempt_row list"
  analysis_outputs :: "output_row list"
  provider_usage_rows :: "usage_row list"
  deletion_records :: "deletion_row list"
  repository_requests :: "request_row list"
  source_analysis_inbox :: "inbox_row list"
  recap_inbox :: "recap_inbox_row list"
  recap_runs :: "recap_run_row list"
  recap_manifests :: "recap_manifest_row list"
  recap_attempts :: "recap_attempt_row list"
  recap_results :: "recap_result_row list"
  recap_outbox :: "recap_outbox_row list"
  ai_archive_tombstones :: "tombstone_row list"
  object_inbox :: "object_row list"
  source_analysis_heads :: "head_row list"
  notes_files :: "notes_file_row list"
  notes_disconnections :: "notes_disconnection_row list"
  tags :: "tag_row list"
  analysis_taggings :: "tagging_row list"
  collections :: "collection_row list"
  collection_items :: "item_row list"
  user_states :: "user_state_row list"
  highlights :: "highlight_row list"
  analysis_feedback :: "feedback_row list"
  projection_inputs :: "projection_row list"
  search_documents :: "search_row list"
  embedding_chunks :: "chunk_row list"
  embedding_failures :: "failure_row list"
  event_outbox :: "event_row list"
  social_tombstones :: "social_tombstone_row list"
  erasure_queue :: "erasure_row list"

definition empty_db :: db where
  "empty_db = \<lparr>source_refs = [],
     analysis_runs = [],
     analysis_attempts = [],
     analysis_outputs = [],
     provider_usage_rows = [],
     deletion_records = [],
     repository_requests = [],
     source_analysis_inbox = [],
     recap_inbox = [],
     recap_runs = [],
     recap_manifests = [],
     recap_attempts = [],
     recap_results = [],
     recap_outbox = [],
     ai_archive_tombstones = [],
     object_inbox = [],
     source_analysis_heads = [],
     notes_files = [],
     notes_disconnections = [],
     tags = [],
     analysis_taggings = [],
     collections = [],
     collection_items = [],
     user_states = [],
     highlights = [],
     analysis_feedback = [],
     projection_inputs = [],
     search_documents = [],
     embedding_chunks = [],
     embedding_failures = [],
     event_outbox = [],
     social_tombstones = [],
     erasure_queue = []\<rparr>"

section \<open>The world\<close>

text \<open>
  What a handler reads and writes: the committed tables, the blob root (digest to bytes), the
  clock, the source of fresh identifiers (\<open>Uuid::now_v7\<close>: each is greater than the ones before),
  the runs other executors hold, and the number of provider calls made.

  \<open>faults\<close> decides how each statement, \<open>begin\<close>, \<open>commit\<close> or file operation ends: it works, it is
  refused without effect, or it takes effect and its acknowledgement is lost. An exhausted list
  means that everything else works. Every property that holds for all worlds therefore holds for
  every pattern of database outages and for a kill at any point (everything after it refused).
\<close>

datatype fault = Works | Refused | AckLost

record world =
  tables :: db
  disk :: "string \<Rightarrow> bytes option"
  now :: instant
  fresh :: uuid
  held :: "uuid list"
  provider_calls :: nat
  faults :: "fault list"

definition next_fault :: "world \<Rightarrow> fault" where
  "next_fault w = (case faults w of [] \<Rightarrow> Works | f # _ \<Rightarrow> f)"

definition tick :: "world \<Rightarrow> world" where
  "tick w = w\<lparr>faults := tl (faults w)\<rparr>"

definition no_faults :: "world \<Rightarrow> bool" where
  "no_faults w = (faults w = [])"

text \<open>A statement with effect \<open>f\<close>; \<open>e\<close> is the error of a failed query.\<close>

definition sql :: "'e \<Rightarrow> (db \<Rightarrow> 'e + ('a \<times> db)) \<Rightarrow> (world, 'e, 'a) exec" where
  "sql e f = (\<lambda>w.
     if next_fault w = Refused then (Inl e, tick w)
     else case f (tables w) of
       Inl e' \<Rightarrow> (Inl e', tick w)
     | Inr (x, t) \<Rightarrow> ((if next_fault w = AckLost then Inl e else Inr x), (tick w)\<lparr>tables := t\<rparr>))"

definition query :: "'e \<Rightarrow> (db \<Rightarrow> 'a) \<Rightarrow> (world, 'e, 'a) exec" where
  "query e f = sql e (\<lambda>t. Inr (f t, t))"

definition execute :: "'e \<Rightarrow> (db \<Rightarrow> db) \<Rightarrow> (world, 'e, unit) exec" where
  "execute e f = sql e (\<lambda>t. Inr ((), f t))"

text \<open>\<open>rows_affected\<close>: a statement that reports a number beside its effect.\<close>

definition affect :: "'e \<Rightarrow> (db \<Rightarrow> nat) \<Rightarrow> (db \<Rightarrow> db) \<Rightarrow> (world, 'e, nat) exec" where
  "affect e n f = sql e (\<lambda>t. Inr (n t, f t))"

text \<open>
  A transaction: an error in the body or a refused commit leaves the tables as they were (files
  are not part of it).
\<close>

definition transact :: "'e \<Rightarrow> (world, 'e, 'a) exec \<Rightarrow> (world, 'e, 'a) exec" where
  "transact e m = (\<lambda>w.
     if next_fault w \<noteq> Works then (Inl e, tick w)
     else case m (tick w) of
       (Inl e', w') \<Rightarrow> (Inl e', w'\<lparr>tables := tables w\<rparr>)
     | (Inr x, w') \<Rightarrow>
         (if next_fault w' = Refused then (Inl e, (tick w')\<lparr>tables := tables w\<rparr>)
          else if next_fault w' = AckLost then (Inl e, tick w')
          else (Inr x, tick w')))"

text \<open>\<open>Uuid::now_v7()\<close> and \<open>now()\<close>.\<close>

definition new_uuid :: "(world, 'e, uuid) exec" where
  "new_uuid = (\<lambda>w. (Inr (fresh w), w\<lparr>fresh := fresh w + 1\<rparr>))"

definition get_now :: "(world, 'e, instant) exec" where
  "get_now = (\<lambda>w. (Inr (now w), w))"

end
