(* ===== verification/Effects.thy ===== *)
theory Effects
  imports Schema
begin

text \<open>
  Rules about statements and transactions: what one can do to a world, how they run when nothing
  fails, and which invariants they keep whatever fails.
\<close>

section \<open>What a statement can do to the world\<close>

lemma tick_simps [simp]:
  "tables (tick w) = tables w" "disk (tick w) = disk w" "now (tick w) = now w"
  "fresh (tick w) = fresh w" "held (tick w) = held w" "provider_calls (tick w) = provider_calls w"
  by (simp_all add: tick_def)

lemma tick_tables_update [simp]: "tick (w\<lparr>tables := t\<rparr>) = (tick w)\<lparr>tables := t\<rparr>"
  by (simp add: tick_def)

lemma no_faults_works [simp]: "no_faults w \<Longrightarrow> next_fault w = Works"
  by (simp add: no_faults_def next_fault_def)

lemma no_faults_tick [simp]: "no_faults w \<Longrightarrow> tick w = w"
  by (simp add: no_faults_def tick_def)

lemma no_faults_update [simp]:
  "no_faults (w\<lparr>tables := t\<rparr>) = no_faults w" "no_faults (w\<lparr>disk := d\<rparr>) = no_faults w"
  "no_faults (w\<lparr>fresh := n\<rparr>) = no_faults w" "no_faults (w\<lparr>provider_calls := c\<rparr>) = no_faults w"
  "no_faults (w\<lparr>held := h\<rparr>) = no_faults w"
  by (simp_all add: no_faults_def)

lemma sql_result:
  "sql e f w = (r, w') \<Longrightarrow>
     (w' = tick w \<and> (\<exists>e'. r = Inl e')) \<or>
     (\<exists>x t. f (tables w) = Inr (x, t) \<and> w' = (tick w)\<lparr>tables := t\<rparr> \<and> (r = Inr x \<or> r = Inl e))"
  unfolding sql_def by (auto split: if_splits sum.splits prod.splits)

lemma sql_works [exec_simps]:
  "no_faults w \<Longrightarrow> sql e f w =
     (case f (tables w) of Inl e' \<Rightarrow> (Inl e', w) | Inr (x, t) \<Rightarrow> (Inr x, w\<lparr>tables := t\<rparr>))"
  by (simp add: sql_def split: sum.splits)

lemma query_works [exec_simps]: "no_faults w \<Longrightarrow> query e f w = (Inr (f (tables w)), w)"
  by (simp add: query_def sql_works)

lemma execute_works [exec_simps]:
  "no_faults w \<Longrightarrow> execute e f w = (Inr (), w\<lparr>tables := f (tables w)\<rparr>)"
  by (simp add: execute_def sql_works)

lemma affect_works [exec_simps]:
  "no_faults w \<Longrightarrow> affect e n f w = (Inr (n (tables w)), w\<lparr>tables := f (tables w)\<rparr>)"
  by (simp add: affect_def sql_works)

lemma transact_works:
  "no_faults w \<Longrightarrow> m w = (Inr x, w') \<Longrightarrow> no_faults w' \<Longrightarrow> transact e m w = (Inr x, w')"
  by (simp add: transact_def)

lemma transact_fails:
  "no_faults w \<Longrightarrow> m w = (Inl e', w') \<Longrightarrow> transact e m w = (Inl e', w'\<lparr>tables := tables w\<rparr>)"
  by (simp add: transact_def)

lemma query_cases:
  assumes "query e f w = (r, w')"
  shows "w' = tick w \<and> (r = Inr (f (tables w)) \<or> r = Inl e)"
  using assms unfolding query_def sql_def by (auto split: if_splits)

text \<open>An invariant that looks at tables and files only.\<close>

definition on_state :: "(db \<Rightarrow> (string \<Rightarrow> bytes option) \<Rightarrow> bool) \<Rightarrow> world \<Rightarrow> bool" where
  "on_state P w = P (tables w) (disk w)"

lemma keeps_query [keeps_rules]: "keeps (on_state P) (query e f)"
  by (rule keepsI) (auto simp: on_state_def query_def sql_def)

lemma keeps_sql:
  assumes "\<And>t d x t'. P t d \<Longrightarrow> f t = Inr (x, t') \<Longrightarrow> P t' d"
  shows "keeps (on_state P) (sql e f)"
proof (rule keepsI)
  fix w assume w: "on_state P w"
  obtain r w' where run: "sql e f w = (r, w')" by fastforce
  have step: "f (tables w) = Inr (x, t) \<Longrightarrow> P t (disk w)" for x t
    using assms w by (simp add: on_state_def)
  from sql_result [OF run] show "on_state P (snd (sql e f w))"
    by (elim disjE exE conjE) (use w run step in \<open>simp_all add: on_state_def\<close>)
qed

lemma keeps_execute [keeps_rules]:
  "(\<And>t d. P t d \<Longrightarrow> P (f t) d) \<Longrightarrow> keeps (on_state P) (execute e f)"
  unfolding execute_def by (rule keeps_sql) auto

lemma keeps_affect [keeps_rules]:
  "(\<And>t d. P t d \<Longrightarrow> P (f t) d) \<Longrightarrow> keeps (on_state P) (affect e n f)"
  unfolding affect_def by (rule keeps_sql) auto

lemma keeps_new_uuid [keeps_rules]: "keeps (on_state P) new_uuid"
  by (rule keepsI) (simp add: on_state_def new_uuid_def)

lemma keeps_get_now [keeps_rules]: "keeps (on_state P) get_now"
  by (rule keepsI) (simp add: on_state_def get_now_def)

lemma keeps_transact:
  assumes "keeps (on_state P) m"
    and "\<And>w r w'. on_state P w \<Longrightarrow> m w = (r, w') \<Longrightarrow> P (tables w) (disk w')"
  shows "keeps (on_state P) (transact e m)"
proof (rule keepsI)
  fix w assume w: "on_state P w"
  obtain r w' where m: "m (tick w) = (r, w')" by fastforce
  have t: "on_state P (tick w)" using w by (simp add: on_state_def)
  have "on_state P w'" using keepsD [OF assms(1) t m] .
  moreover have "P (tables w) (disk w')" using assms(2) [OF t m] by simp
  ultimately show "on_state P (snd (transact e m w))"
    using w m by (auto simp: transact_def on_state_def split: sum.splits)
qed

text \<open>A part of the world that a handler leaves alone.\<close>

definition unchanged :: "(world \<Rightarrow> 'g) \<Rightarrow> (world, 'e, 'a) exec \<Rightarrow> bool" where
  "unchanged g m = (\<forall>w. g (snd (m w)) = g w)"

definition database_free :: "(world \<Rightarrow> 'g) \<Rightarrow> bool" where
  "database_free g = (\<forall>w t n. g (w\<lparr>tables := t\<rparr>) = g w \<and> g (tick w) = g w \<and> g (w\<lparr>fresh := n\<rparr>) = g w)"

abbreviation no_files :: "(world, 'e, 'a) exec \<Rightarrow> bool" where
  "no_files m \<equiv> unchanged disk m"

abbreviation no_calls :: "(world, 'e, 'a) exec \<Rightarrow> bool" where
  "no_calls m \<equiv> unchanged provider_calls m"

lemma database_free_parts [simp]:
  "database_free disk" "database_free provider_calls" "database_free held" "database_free now"
  by (simp_all add: database_free_def)

named_theorems unchanged_rules \<open>handlers that leave a part of the world alone\<close>

lemma unchangedD: "unchanged g m \<Longrightarrow> m w = (r, w') \<Longrightarrow> g w' = g w"
  unfolding unchanged_def by (metis snd_conv)

lemma unchanged_sql [unchanged_rules]: "database_free g \<Longrightarrow> unchanged g (sql e f)"
  by (auto simp: unchanged_def database_free_def sql_def split: sum.splits prod.splits)

lemma unchanged_statement [unchanged_rules]:
  "database_free g \<Longrightarrow> unchanged g (query e f)" "database_free g \<Longrightarrow> unchanged g (execute e f')"
  "database_free g \<Longrightarrow> unchanged g (affect e n f')"
  unfolding query_def execute_def affect_def by (rule unchanged_sql, assumption)+

lemma unchanged_basic [unchanged_rules]:
  "database_free g \<Longrightarrow> unchanged g new_uuid"
  "unchanged g get_now" "unchanged g (exec_return x)" "unchanged g (exec_fail e')"
  "unchanged g (exec_result r)" "unchanged g (exec_guard b e')"
  by (auto simp: new_uuid_def get_now_def exec_return_def exec_fail_def
      exec_result_def exec_guard_def unchanged_def database_free_def)

lemma unchanged_bind [unchanged_rules]:
  assumes "unchanged g m" and "\<And>x. unchanged g (f x)"
  shows "unchanged g (exec_bind m f)"
  unfolding unchanged_def
proof
  fix w
  obtain r w' where m: "m w = (r, w')" by fastforce
  moreover have "g w' = g w" using assms(1) m by (rule unchangedD)
  ultimately show "g (snd (exec_bind m f w)) = g w"
    using assms(2) by (cases r) (simp_all add: exec_bind_def unchanged_def)
qed

lemma unchanged_if [unchanged_rules]: "unchanged g m \<Longrightarrow> unchanged g n \<Longrightarrow> unchanged g (if b then m else n)"
  by simp

lemma unchanged_option [unchanged_rules]:
  "unchanged g m \<Longrightarrow> (\<And>x. unchanged g (f x)) \<Longrightarrow> unchanged g (case o' of None \<Rightarrow> m | Some x \<Rightarrow> f x)"
  by (cases o') auto

lemma unchanged_each [unchanged_rules]: "(\<And>x. unchanged g (f x)) \<Longrightarrow> unchanged g (exec_each f xs)"
  by (induction xs) (auto intro: unchanged_rules)

lemma unchanged_map_err [unchanged_rules]: "unchanged g m \<Longrightarrow> unchanged g (exec_map_err h m)"
  unfolding unchanged_def exec_map_err_def by (auto split: prod.splits sum.splits) (metis snd_conv)+

lemma unchanged_transact [unchanged_rules]:
  assumes "database_free g" and "unchanged g m"
  shows "unchanged g (transact e m)"
  unfolding unchanged_def
proof
  fix w
  obtain r w' where m: "m (tick w) = (r, w')" by fastforce
  have "g w' = g w" using unchangedD [OF assms(2) m] assms(1) by (simp add: database_free_def)
  then show "g (snd (transact e m w)) = g w"
    using assms(1) m by (auto simp: transact_def database_free_def split: sum.splits)
qed

lemma keeps_transact_no_files [keeps_rules]:
  assumes "no_files m" and "keeps (on_state P) m"
  shows "keeps (on_state P) (transact e m)"
  using assms(2)
proof (rule keeps_transact)
  fix w r w' assume "on_state P w" "m w = (r, w')"
  then show "P (tables w) (disk w')"
    using unchangedD [OF assms(1)] by (metis on_state_def)
qed

lemma transact_result:
  assumes "transact e m w = (r, w')" and "unchanged g m" and "database_free g"
  shows "g w' = g w \<and>
    ((\<exists>e'. r = Inl e' \<and> tables w' = tables w) \<or>
     (\<exists>x w1. m (tick w) = (Inr x, w1) \<and> tables w' = tables w1 \<and> (r = Inr x \<or> r = Inl e)))"
proof -
  have "g w' = g w" using unchangedD [OF unchanged_transact [OF assms(3,2)] assms(1)] .
  then show ?thesis using assms(1)
    by (auto simp: transact_def split: if_splits sum.splits prod.splits)
qed

lemma sql_Inr: "sql e f w = (Inr x, w') \<Longrightarrow> \<exists>t. f (tables w) = Inr (x, t) \<and> tables w' = t \<and> fresh w' = fresh w \<and> now w' = now w"
  using sql_result [of e f w "Inr x" w'] by auto

lemma affect_Inr: "affect e n f w = (Inr x, w') \<Longrightarrow>
    x = n (tables w) \<and> tables w' = f (tables w) \<and> fresh w' = fresh w \<and> now w' = now w"
  by (auto simp: affect_def dest!: sql_Inr)

section \<open>Triples\<close>

text \<open>
  \<open>hoare P m Q E\<close>: started where \<open>P\<close> holds, the handler ends where \<open>Q\<close> holds of its value, or where
  \<open>E\<close> holds of its error.
\<close>

definition hoare ::
  "('w \<Rightarrow> bool) \<Rightarrow> ('w, 'e, 'a) exec \<Rightarrow> ('a \<Rightarrow> 'w \<Rightarrow> bool) \<Rightarrow> ('e \<Rightarrow> 'w \<Rightarrow> bool) \<Rightarrow> bool" where
  "hoare P m Q E = (\<forall>w. P w \<longrightarrow>
     (case m w of (Inl e, w') \<Rightarrow> E e w' | (Inr x, w') \<Rightarrow> Q x w'))"

lemma hoareI:
  assumes "\<And>w x w'. P w \<Longrightarrow> m w = (Inr x, w') \<Longrightarrow> Q x w'"
    and "\<And>w e w'. P w \<Longrightarrow> m w = (Inl e, w') \<Longrightarrow> E e w'"
  shows "hoare P m Q E"
  unfolding hoare_def using assms by (auto split: prod.splits sum.splits)

lemma hoareD:
  assumes "hoare P m Q E" and "P w"
  shows "m w = (Inr x, w') \<Longrightarrow> Q x w'" and "m w = (Inl e, w') \<Longrightarrow> E e w'"
  using assms unfolding hoare_def by fastforce+

lemma hoare_bind:
  assumes "hoare P m R E" and "\<And>x. hoare (R x) (f x) Q E"
  shows "hoare P (exec_bind m f) Q E"
proof (rule hoareI)
  fix w y w'' assume w: "P w" and "exec_bind m f w = (Inr y, w'')"
  then obtain x w' where "m w = (Inr x, w')" "f x w' = (Inr y, w'')" by (blast elim: exec_bind_InrE)
  then show "Q y w''" using hoareD(1) [OF assms(1) w] hoareD(1) [OF assms(2)] by blast
next
  fix w e w'' assume w: "P w" and "exec_bind m f w = (Inl e, w'')"
  then show "E e w''"
  proof (elim exec_bind_InlE)
    fix x w' assume "m w = (Inr x, w')" "f x w' = (Inl e, w'')"
    then show ?thesis using hoareD(1) [OF assms(1) w] hoareD(2) [OF assms(2)] by blast
  qed (use hoareD(2) [OF assms(1) w] in blast)
qed

lemma hoare_conseq:
  assumes "hoare P' m Q' E'" and "\<And>w. P w \<Longrightarrow> P' w"
    and "\<And>x w. Q' x w \<Longrightarrow> Q x w" and "\<And>e w. E' e w \<Longrightarrow> E e w"
  shows "hoare P m Q E"
  by (rule hoareI) (use assms hoareD [OF assms(1)] in blast)+

lemma hoare_return: "(\<And>w. P w \<Longrightarrow> Q x w) \<Longrightarrow> hoare P (exec_return x) Q E"
  by (rule hoareI) (simp_all add: exec_return_def)

lemma hoare_fail: "(\<And>w. P w \<Longrightarrow> E e w) \<Longrightarrow> hoare P (exec_fail e) Q E"
  by (rule hoareI) (simp_all add: exec_fail_def)

lemma hoare_guard:
  "(\<And>w. P w \<Longrightarrow> b \<Longrightarrow> Q () w) \<Longrightarrow> (\<And>w. P w \<Longrightarrow> \<not> b \<Longrightarrow> E e w) \<Longrightarrow> hoare P (exec_guard b e) Q E"
  by (rule hoareI) (auto simp: exec_guard_apply split: if_splits)

lemma hoare_result:
  "(\<And>w x. P w \<Longrightarrow> r = Inr x \<Longrightarrow> Q x w) \<Longrightarrow> (\<And>w e. P w \<Longrightarrow> r = Inl e \<Longrightarrow> E e w) \<Longrightarrow>
     hoare P (exec_result r) Q E"
  by (rule hoareI) (auto simp: exec_result_def)

lemma hoare_if:
  "(b \<Longrightarrow> hoare P m Q E) \<Longrightarrow> (\<not> b \<Longrightarrow> hoare P n Q E) \<Longrightarrow> hoare P (if b then m else n) Q E"
  by simp

lemma hoare_map_err:
  assumes "hoare P m Q (\<lambda>e. E (h e))"
  shows "hoare P (exec_map_err h m) Q E"
  by (rule hoareI)
    (use hoareD [OF assms] in \<open>auto simp: exec_map_err_def split: prod.splits sum.splits\<close>)

lemma hoare_keeps: "(\<And>w. ok w = ok' w) \<Longrightarrow> hoare ok m (\<lambda>_. ok) (\<lambda>_. ok) \<Longrightarrow> keeps ok' m"
  unfolding keeps_def hoare_def by (metis (mono_tags, lifting) old.prod.case old.sum.exhaust old.sum.simps(5,6) prod.collapse)

section \<open>The empty world\<close>

text \<open>A world before anything was stored, in which nothing fails.\<close>

definition empty_world :: world where
  "empty_world = \<lparr>tables = empty_db, disk = (\<lambda>_. None), now = 0, fresh = 1, held = [], provider_calls = 0, faults = []\<rparr>"

lemma empty_world_simps [simp]:
  "tables empty_world = empty_db" "no_faults empty_world" "now empty_world = 0" "fresh empty_world = 1"
  by (simp_all add: empty_world_def no_faults_def)

section \<open>What a result tells\<close>

lemma query_Inr: "query e f w = (Inr x, w') \<Longrightarrow> x = f (tables w) \<and> tables w' = tables w"
  by (drule query_cases) auto

lemma exec_return_Inr: "exec_return x w = (Inr y, w') \<longleftrightarrow> y = x \<and> w' = w"
  by (auto simp: exec_return_def)

lemma sql_Inl: "sql e f w = (Inl e', w') \<Longrightarrow> e' = e \<or> f (tables w) = Inl e'"
  by (auto simp: sql_def split: if_splits sum.splits)

lemma query_Inl: "query e f w = (Inl e', w') \<Longrightarrow> e' = e"
  by (drule query_cases) simp

lemma exec_return_Inl: "exec_return x w \<noteq> (Inl e, w')"
  by (simp add: exec_return_def)

lemma transact_tables:
  assumes "transact e m w = (r, w')"
  shows "(tables w' = tables w \<and> (\<exists>e'. r = Inl e')) \<or>
    (\<exists>x w1. m (tick w) = (Inr x, w1) \<and> tables w' = tables w1 \<and> (r = Inr x \<or> r = Inl e))"
  using assms by (auto simp: transact_def split: if_splits sum.splits prod.splits)

lemma transact_keeps:
  assumes "transact e m w = (r, w')" and "P (tables w)"
    and "\<And>x v v'. P (tables v) \<Longrightarrow> m v = (Inr x, v') \<Longrightarrow> P (tables v')"
  shows "P (tables w')"
  using transact_tables [OF assms(1)] assms(2) assms(3) [of "tick w"] by auto

text \<open>Evaluating a handler on a world without faults, one statement at a time.\<close>

lemma exec_bind_first: "m = m' \<Longrightarrow> exec_bind m f = exec_bind m' f"
  by simp

lemma bind_works:
  "no_faults w \<Longrightarrow> exec_bind (query e f) g w = g (f (tables w)) w"
  "no_faults w \<Longrightarrow> exec_bind (sql e h) g w =
     (case h (tables w) of Inl e' \<Rightarrow> (Inl e', w) | Inr (x, t) \<Rightarrow> g x (w\<lparr>tables := t\<rparr>))"
  by (simp_all add: exec_bind_def query_works sql_works split: sum.split)

end
