(* ===== verification/Blob_Store.thy ===== *)
theory Blob_Store
  imports Effects
begin

text \<open>
  The content-addressed blob root and the lock protocol for registering and erasing references
  (\<open>blob_store.rs\<close>, \<open>blob_registry.rs\<close>, \<open>deletion_blobs.rs\<close>). A digest lock is taken inside the
  transaction that uses it and released when it ends, so the handlers here run one at a time per
  digest. SHA-256 and the filesystem are parameters: a function \<open>bs_sha\<close> and the faults of the world.
\<close>

section \<open>The store\<close>

record blob_store =
  bs_max_bytes :: nat
  bs_sha :: "bytes \<Rightarrow> string"

definition knowledge_owner :: string where
  "knowledge_owner = ''ratatoskr-knowledge''"

definition json_media :: string where
  "json_media = ''application/json''"

definition is_hex_digit :: "char \<Rightarrow> bool" where
  "is_hex_digit c = (let n = of_char c :: nat in (48 \<le> n \<and> n \<le> 57) \<or> (97 \<le> n \<and> n \<le> 102))"

definition is_digest_hex :: "string \<Rightarrow> bool" where
  "is_digest_hex s = (length s = 64 \<and> list_all is_hex_digit s)"

text \<open>A file operation works, or fails with \<open>Io\<close> before or after its effect.\<close>

definition file_read :: "((string \<Rightarrow> bytes option) \<Rightarrow> 'a) \<Rightarrow> (world, blob_error, 'a) exec" where
  "file_read f = (\<lambda>w. if next_fault w = Works then (Inr (f (disk w)), tick w) else (Inl Io, tick w))"

definition file_write :: "string \<Rightarrow> bytes option \<Rightarrow> (world, blob_error, unit) exec" where
  "file_write digest content = (\<lambda>w.
     if next_fault w = Refused then (Inl Io, tick w)
     else ((if next_fault w = AckLost then Inl Io else Inr ()),
           (tick w)\<lparr>disk := (disk w)(digest := content)\<rparr>))"

definition blob_path_exists :: "string \<Rightarrow> (world, blob_error, bool) exec" where
  "blob_path_exists digest = file_read (\<lambda>d. d digest \<noteq> None)"

definition blob_reference :: "blob_store \<Rightarrow> bytes \<Rightarrow> blob_ref" where
  "blob_reference store content =
     \<lparr>br_owner = knowledge_owner, br_digest = bs_sha store content, br_media = json_media,
      br_length = length content\<rparr>"

text \<open>
  \<open>store_raw\<close>. The temporary file is written and renamed over the final name: the name appears with
  the whole content or not at all, so writing it is one operation.
\<close>

definition store_raw :: "blob_store \<Rightarrow> bytes \<Rightarrow> (world, blob_error, blob_ref) exec" where
  "store_raw store content =
     (if length content > bs_max_bytes store then exec_fail TooLarge
      else exec_bind (blob_path_exists (bs_sha store content)) (\<lambda>present.
        exec_bind (if present then exec_return ()
                   else file_write (bs_sha store content) (Some content)) (\<lambda>_.
        exec_return (blob_reference store content))))"

definition blob_exists :: "string \<Rightarrow> (world, blob_error, bool) exec" where
  "blob_exists digest =
     (if \<not> is_digest_hex digest then exec_fail InvalidReference else blob_path_exists digest)"

definition blob_read :: "blob_store \<Rightarrow> blob_ref \<Rightarrow> (world, blob_error, bytes) exec" where
  "blob_read store ref =
     (if br_owner ref \<noteq> knowledge_owner \<or> br_media ref \<noteq> json_media \<or> br_length ref > bs_max_bytes store
      then exec_fail InvalidReference
      else exec_bind (file_read (\<lambda>d. d (br_digest ref))) (\<lambda>content.
        case content of
          None \<Rightarrow> exec_fail Io
        | Some content \<Rightarrow>
            if length content \<noteq> br_length ref \<or> bs_sha store content \<noteq> br_digest ref
            then exec_fail InvalidReference
            else exec_return content))"

definition blob_remove :: "string \<Rightarrow> (world, blob_error, bool) exec" where
  "blob_remove digest =
     (if \<not> is_digest_hex digest then exec_fail InvalidReference
      else (\<lambda>w. if disk w digest = None then blob_path_exists digest w
                else exec_bind (file_write digest None) (\<lambda>_. exec_return True) w))"

section \<open>Registering a reference\<close>

text \<open>\<open>lock_and_verify\<close>: the digest lock, then the blob must be present or be stored again.\<close>

definition lock_and_verify ::
  "blob_store \<Rightarrow> blob_ref \<Rightarrow> bytes option \<Rightarrow> (world, persistence_error, unit) exec" where
  "lock_and_verify store ref held_bytes =
     exec_bind (query Query (\<lambda>_. ())) (\<lambda>_.
     exec_bind (exec_map_err BlobFailed (blob_exists (br_digest ref))) (\<lambda>present.
     if present then exec_return ()
     else case held_bytes of
       None \<Rightarrow> exec_fail (BlobFailed Unavailable)
     | Some content \<Rightarrow>
         exec_bind (exec_map_err BlobFailed (store_raw store content)) (\<lambda>stored.
         if br_digest stored = br_digest ref then exec_return ()
         else exec_fail (BlobFailed InvalidReference))))"

section \<open>References and the erasure queue\<close>

datatype deletion_error = DeletionQuery | DeletionBlob blob_error | DeletionOverflow | VerificationFailed

fun deletion_error_is_permanent :: "deletion_error \<Rightarrow> bool" where
  "deletion_error_is_permanent e = (e = DeletionOverflow)"

definition attempt_digests :: "db \<Rightarrow> string list" where
  "attempt_digests t = map br_digest (List.map_filter at_raw (analysis_attempts t))"

definition output_digests :: "db \<Rightarrow> string list" where
  "output_digests t = map (br_digest \<circ> ao_raw) (analysis_outputs t)"

definition recap_digests :: "db \<Rightarrow> string list" where
  "recap_digests t = map br_digest (List.map_filter ra_raw (recap_attempts t))"

definition owned_source_digests :: "db \<Rightarrow> string list" where
  "owned_source_digests t =
     map (br_digest \<circ> sr_blob) (filter (\<lambda>s. br_owner (sr_blob s) = knowledge_owner) (source_refs t))"

definition all_references :: "db \<Rightarrow> string list" where
  "all_references t = attempt_digests t @ output_digests t @ recap_digests t @ owned_source_digests t"

definition referenced_owned_digests :: "db \<Rightarrow> string list \<Rightarrow> string list" where
  "referenced_owned_digests t digests = filter (\<lambda>d. d \<in> set digests) (all_references t)"

definition drain_body :: "string \<Rightarrow> (world, deletion_error, (string \<times> uuid) option) exec" where
  "drain_body digest =
     exec_bind (query DeletionQuery (\<lambda>_. ())) (\<lambda>_.
     exec_bind (query DeletionQuery (\<lambda>t. find_where (\<lambda>q. eq_digest q = digest) (erasure_queue t))) (\<lambda>locked.
     case locked of
       None \<Rightarrow> exec_return None
     | Some row \<Rightarrow>
       exec_bind (query DeletionQuery
         (\<lambda>t. digest \<in> set (referenced_owned_digests t [digest]))) (\<lambda>still_referenced.
       exec_bind (if still_referenced then exec_return False
                  else exec_map_err DeletionBlob (blob_remove digest)) (\<lambda>collected.
       exec_bind (execute DeletionQuery (\<lambda>t. t\<lparr>erasure_queue :=
         delete_where (\<lambda>q. eq_digest q = digest) (erasure_queue t)\<rparr>)) (\<lambda>_.
       exec_return (if collected then Some (digest, eq_deletion row) else None))))))"

definition drain_one :: "string \<Rightarrow> (world, deletion_error, (string \<times> uuid) option) exec" where
  "drain_one digest = transact DeletionQuery (drain_body digest)"

fun drain_loop ::
  "string list \<Rightarrow> (string \<times> uuid) list \<Rightarrow> (world, deletion_error, (string \<times> uuid) list) exec" where
  "drain_loop [] removed = exec_return removed"
| "drain_loop (digest # queued) removed =
     exec_bind (drain_one digest) (\<lambda>collected.
     drain_loop queued (case collected of None \<Rightarrow> removed | Some r \<Rightarrow> removed @ [r]))"

definition queued_digests :: "db \<Rightarrow> string list" where
  "queued_digests t = map eq_digest (sort_key (\<lambda>q. (eq_enqueued q, eq_digest q)) (erasure_queue t))"

definition drain_queue :: "(world, deletion_error, (string \<times> uuid) list) exec" where
  "drain_queue =
     exec_bind (query DeletionQuery queued_digests) (\<lambda>queued. drain_loop queued [])"

definition collect_pending_blobs :: "(world, deletion_error, string list) exec" where
  "collect_pending_blobs = exec_bind drain_queue (\<lambda>removed. exec_return (map fst removed))"

section \<open>No committed row references a missing blob\<close>

definition no_dangling :: "db \<Rightarrow> (string \<Rightarrow> bytes option) \<Rightarrow> bool" where
  "no_dangling t d = (\<forall>digest \<in> set (all_references t). d digest \<noteq> None)"

lemma no_calls_files [unchanged_rules]:
  "no_calls (file_read f)" "no_calls (file_write digest c)"
  by (auto simp: unchanged_def file_read_def file_write_def)

lemma no_calls_store [unchanged_rules]:
  "no_calls (store_raw store content)" "no_calls (blob_exists digest)" "no_calls (blob_read store ref)"
  "no_calls (lock_and_verify store ref bytes)"
  unfolding store_raw_def blob_exists_def blob_read_def lock_and_verify_def blob_path_exists_def
  by (intro unchanged_rules database_free_parts)+

lemma file_read_cases:
  "file_read f w = (r, w') \<Longrightarrow> w' = tick w \<and> (r = Inr (f (disk w)) \<or> r = Inl Io)"
  by (auto simp: file_read_def split: if_splits)

lemma file_write_cases:
  "file_write digest c w = (r, w') \<Longrightarrow>
     tables w' = tables w \<and> (disk w' = disk w \<and> r = Inl Io \<or> disk w' = (disk w)(digest := c))"
  by (auto simp: file_write_def split: if_splits)

text \<open>Files are only added, tables do not change.\<close>

definition grows :: "world \<Rightarrow> world \<Rightarrow> bool" where
  "grows w w' = (tables w' = tables w \<and> (\<forall>d. disk w d \<noteq> None \<longrightarrow> disk w' d = disk w d))"

lemma grows_trans: "grows w w' \<Longrightarrow> grows w' w'' \<Longrightarrow> grows w w''"
  by (simp add: grows_def)

lemma store_raw_result:
  assumes "store_raw store content w = (r, w')"
  shows "grows w w' \<and> (\<forall>ref. r = Inr ref \<longrightarrow>
    ref = blob_reference store content \<and> disk w' (bs_sha store content) \<noteq> None)"
  using assms
  by (auto simp: store_raw_def exec_fail_def exec_bind_def exec_return_def blob_path_exists_def grows_def
      split: if_splits sum.splits prod.splits dest!: file_read_cases file_write_cases)

lemma lock_and_verify_result:
  assumes "lock_and_verify store ref held_bytes w = (r, w')"
  shows "grows w w'" and "r = Inr () \<Longrightarrow> disk w' (br_digest ref) \<noteq> None"
proof -
  have "grows w w' \<and> (r = Inr () \<longrightarrow> disk w' (br_digest ref) \<noteq> None)"
    using assms unfolding lock_and_verify_def blob_exists_def blob_path_exists_def
    by (auto simp: exec_bind_def exec_fail_def exec_return_def exec_map_err_def grows_def blob_reference_def
        split: if_splits sum.splits prod.splits option.splits
        dest!: query_cases file_read_cases store_raw_result)
  then show "grows w w'" and "r = Inr () \<Longrightarrow> disk w' (br_digest ref) \<noteq> None" by auto
qed

text \<open>When the blob is sure to be there, and then what the registrar does if nothing fails.\<close>

definition blob_available :: "blob_store \<Rightarrow> (string \<Rightarrow> bytes option) \<Rightarrow> blob_ref \<Rightarrow> bytes option \<Rightarrow> bool" where
  "blob_available store files ref held_bytes =
     (is_digest_hex (br_digest ref) \<and>
      (files (br_digest ref) \<noteq> None \<or>
       (case held_bytes of None \<Rightarrow> False
        | Some content \<Rightarrow> length content \<le> bs_max_bytes store \<and> bs_sha store content = br_digest ref)))"

lemma store_raw_works:
  assumes "no_faults w" and "length content \<le> bs_max_bytes store"
  shows "store_raw store content w = (Inr (blob_reference store content),
    if disk w (bs_sha store content) = None
    then w\<lparr>disk := (disk w)(bs_sha store content := Some content)\<rparr> else w)"
  using assms
  by (auto simp: store_raw_def blob_path_exists_def file_read_def file_write_def exec_bind_def exec_return_def)

lemma lock_and_verify_works:
  assumes "no_faults w" and "blob_available store (disk w) ref held_bytes"
  shows "\<exists>w'. lock_and_verify store ref held_bytes w = (Inr (), w') \<and> no_faults w'"
  using assms
  by (auto simp: lock_and_verify_def exec_bind_def query_works blob_exists_def blob_path_exists_def
      file_read_def exec_return_def exec_map_err_def blob_available_def store_raw_works
      blob_reference_def split: option.splits)

text \<open>
  The registrar's rule: a transaction that first makes the digest present and then only touches
  tables, adding no other reference, keeps the invariant whatever fails.
\<close>

lemma no_dangling_grows: "no_dangling (tables w) (disk w) \<Longrightarrow> grows w w' \<Longrightarrow> no_dangling (tables w') (disk w')"
  by (auto simp: no_dangling_def grows_def)

lemma keeps_lock_and_verify [keeps_rules]: "keeps (on_state no_dangling) (lock_and_verify store ref held_bytes)"
  by (rule keepsI) (metis no_dangling_grows lock_and_verify_result(1) on_state_def prod.collapse)

lemma keeps_registration:
  assumes "no_files m" and "keeps (on_state (\<lambda>t d. no_dangling t d \<and> d (br_digest ref) \<noteq> None)) m"
  shows "keeps (on_state no_dangling)
    (transact e (exec_bind (lock_and_verify store ref held_bytes) (\<lambda>_. m)))"
proof -
  have rest: "no_dangling (tables w'') (disk w'') \<and> disk w'' = disk w'"
    if "m w' = (r, w'')" "no_dangling (tables w') (disk w')" "disk w' (br_digest ref) \<noteq> None" for w' r w''
    using that keepsD [OF assms(2), of w'] unchangedD [OF assms(1)] by (auto simp: on_state_def)
  show ?thesis
  proof (rule keeps_transact)
    show "keeps (on_state no_dangling) (exec_bind (lock_and_verify store ref held_bytes) (\<lambda>_. m))"
    proof (rule keepsI)
      fix w assume w: "on_state no_dangling w"
      obtain r w' where l: "lock_and_verify store ref held_bytes w = (r, w')" by fastforce
      obtain r' w'' where m: "m w' = (r', w'')" by fastforce
      note g = lock_and_verify_result [OF l]
      show "on_state no_dangling (snd (exec_bind (lock_and_verify store ref held_bytes) (\<lambda>_. m) w))"
        using w g rest [OF m] no_dangling_grows [of w w'] l m
        by (cases r) (auto simp: exec_bind_def on_state_def)
    qed
  next
    fix w r w''
    assume w: "on_state no_dangling w"
      and run: "exec_bind (lock_and_verify store ref held_bytes) (\<lambda>_. m) w = (r, w'')"
    obtain r1 w' where l: "lock_and_verify store ref held_bytes w = (r1, w')" by fastforce
    have "disk w'' = disk w'"
      using run l unchangedD [OF assms(1)] by (cases r1) (auto simp: exec_bind_def)
    then show "no_dangling (tables w) (disk w'')"
      using w lock_and_verify_result(1) [OF l] by (auto simp: no_dangling_def grows_def on_state_def)
  qed
qed

lemma keeps_store_raw [keeps_rules]: "keeps (on_state no_dangling) (store_raw store content)"
  by (rule keepsI) (metis no_dangling_grows store_raw_result on_state_def prod.collapse)

section \<open>Draining the queue\<close>

lemma referenced_iff: "digest \<in> set (referenced_owned_digests t [digest]) \<longleftrightarrow> digest \<in> set (all_references t)"
  by (auto simp: referenced_owned_digests_def)

lemma all_references_queue [simp]: "all_references (t\<lparr>erasure_queue := q\<rparr>) = all_references t"
  by (simp add: all_references_def attempt_digests_def output_digests_def recap_digests_def
      owned_source_digests_def)

lemma blob_remove_cases:
  "blob_remove digest w = (r, w') \<Longrightarrow>
     tables w' = tables w \<and> (disk w' = disk w \<or> disk w' = (disk w)(digest := None))"
  by (auto simp: blob_remove_def exec_fail_def exec_bind_def exec_return_def blob_path_exists_def
      split: if_splits sum.splits prod.splits dest!: file_read_cases file_write_cases)

lemma execute_result:
  "execute e f w = (r, w') \<Longrightarrow>
     disk w' = disk w \<and> (tables w' = tables w \<or> tables w' = f (tables w))"
  unfolding execute_def by (drule sql_result) auto

lemma drain_body_result:
  assumes "drain_body digest w = (r, w')"
  shows "all_references (tables w') = all_references (tables w) \<and>
    (disk w' = disk w \<or> digest \<notin> set (all_references (tables w)) \<and> disk w' = (disk w)(digest := None))"
  using assms unfolding drain_body_def referenced_iff
  by (auto simp: exec_bind_def exec_fail_def exec_return_def exec_map_err_def
      split: if_splits sum.splits prod.splits option.splits
      dest!: query_cases blob_remove_cases execute_result)

lemma drain_one_keeps_no_dangling: "keeps (on_state no_dangling) (drain_one digest)"
proof -
  have kept: "no_dangling (tables w') (disk w') \<and> no_dangling (tables w) (disk w')"
    if "on_state no_dangling w" "drain_body digest w = (r, w')" for w r w'
    using that drain_body_result [OF that(2)] by (auto simp: no_dangling_def on_state_def)
  show ?thesis unfolding drain_one_def
  proof (rule keeps_transact)
    show "keeps (on_state no_dangling) (drain_body digest)"
    proof (rule keepsI)
      fix w assume w: "on_state no_dangling w"
      obtain r w' where run: "drain_body digest w = (r, w')" by fastforce
      show "on_state no_dangling (snd (drain_body digest w))"
        using kept [OF w run] run by (simp add: on_state_def)
    qed
  qed (use kept in blast)
qed

lemma drain_loop_keeps_no_dangling: "keeps (on_state no_dangling) (drain_loop queued removed)"
proof (induction queued arbitrary: removed)
  case (Cons d ds)
  then show ?case using drain_one_keeps_no_dangling by (auto intro: keeps_bind)
qed (simp add: keeps_return)

lemma drain_queue_keeps_no_dangling [keeps_rules]: "keeps (on_state no_dangling) drain_queue"
  unfolding drain_queue_def by (intro keeps_bind keeps_query drain_loop_keeps_no_dangling)

text \<open>What a drain does when nothing fails.\<close>

definition unqueue :: "string \<Rightarrow> db \<Rightarrow> db" where
  "unqueue digest t = t\<lparr>erasure_queue := delete_where (\<lambda>q. eq_digest q = digest) (erasure_queue t)\<rparr>"

lemma blob_remove_works:
  "no_faults w \<Longrightarrow> is_digest_hex digest \<Longrightarrow>
     blob_remove digest w = (Inr (disk w digest \<noteq> None), w\<lparr>disk := (disk w)(digest := None)\<rparr>)"
  by (auto simp: blob_remove_def blob_path_exists_def file_read_def file_write_def exec_bind_def
      exec_return_def fun_upd_idem)

lemma drain_one_works:
  assumes "no_faults w" and "is_digest_hex digest"
    and "find_where (\<lambda>q. eq_digest q = digest) (erasure_queue (tables w)) = Some row"
  shows "drain_one digest w =
    (let kept = digest \<in> set (all_references (tables w)) in
     (Inr (if kept \<or> disk w digest = None then None else Some (digest, eq_deletion row)),
      w\<lparr>tables := unqueue digest (tables w),
        disk := if kept then disk w else (disk w)(digest := None)\<rparr>))"
  using assms
  by (auto simp: drain_one_def drain_body_def transact_def exec_bind_def exec_map_err_def exec_return_def
      exec_simps blob_remove_works referenced_iff unqueue_def Let_def)

lemma drain_loop_works:
  assumes "no_faults w" and "set queued \<subseteq> eq_digest ` set (erasure_queue (tables w))"
    and "distinct queued" and "\<forall>d \<in> set queued. is_digest_hex d"
  shows "\<exists>collected. drain_loop queued removed w = (Inr (removed @ collected),
     w\<lparr>tables := (tables w)\<lparr>erasure_queue := delete_where (\<lambda>q. eq_digest q \<in> set queued) (erasure_queue (tables w))\<rparr>,
       disk := \<lambda>d. if d \<in> set queued \<and> d \<notin> set (all_references (tables w)) then None else disk w d\<rparr>) \<and>
     map fst collected = filter (\<lambda>d. d \<notin> set (all_references (tables w)) \<and> disk w d \<noteq> None) queued"
  using assms
proof (induction queued arbitrary: w removed)
  case Nil
  then show ?case by (intro exI [of _ "[]"]) (simp add: exec_return_def delete_where_def)
next
  case (Cons digest queued)
  have "find_where (\<lambda>q. eq_digest q = digest) (erasure_queue (tables w)) \<noteq> None"
    using Cons.prems(2) by (auto simp: find_where_Some_iff simp del: not_None_eq)
  then obtain row where find: "find_where (\<lambda>q. eq_digest q = digest) (erasure_queue (tables w)) = Some row" by auto
  let ?kept = "digest \<in> set (all_references (tables w))"
  let ?w = "w\<lparr>tables := unqueue digest (tables w),
        disk := if ?kept then disk w else (disk w)(digest := None)\<rparr>"
  let ?one = "if ?kept \<or> disk w digest = None then None else Some (digest, eq_deletion row)"
  have step: "drain_one digest w = (Inr ?one, ?w)"
    using drain_one_works [OF Cons.prems(1) _ find] Cons.prems(4) by (simp add: Let_def)
  have refs: "all_references (tables ?w) = all_references (tables w)" by (simp add: unqueue_def)
  have wf: "no_faults ?w" "set queued \<subseteq> eq_digest ` set (erasure_queue (tables ?w))"
    using Cons.prems(1,2,3) by (auto simp: unqueue_def table_simps image_iff subset_iff) metis
  have dq: "distinct queued" "\<forall>d \<in> set queued. is_digest_hex d" using Cons.prems(3,4) by auto
  obtain collected where
    run: "drain_loop queued (case ?one of None \<Rightarrow> removed | Some r \<Rightarrow> removed @ [r]) ?w =
      (Inr ((case ?one of None \<Rightarrow> removed | Some r \<Rightarrow> removed @ [r]) @ collected),
       ?w\<lparr>tables := (tables ?w)\<lparr>erasure_queue := delete_where (\<lambda>q. eq_digest q \<in> set queued) (erasure_queue (tables ?w))\<rparr>,
         disk := \<lambda>d. if d \<in> set queued \<and> d \<notin> set (all_references (tables ?w)) then None else disk ?w d\<rparr>)"
    and names: "map fst collected = filter (\<lambda>d. d \<notin> set (all_references (tables ?w)) \<and> disk ?w d \<noteq> None) queued"
    using Cons.IH [OF wf dq] by blast
  have bind: "drain_loop (digest # queued) removed w =
      drain_loop queued (case ?one of None \<Rightarrow> removed | Some r \<Rightarrow> removed @ [r]) ?w"
    using step by (simp add: exec_bind_def)
  have kept: "(\<lambda>d. if d \<in> set queued \<and> d \<notin> set (all_references (tables w)) then None else disk ?w d) =
      (\<lambda>d. if d \<in> set (digest # queued) \<and> d \<notin> set (all_references (tables w)) then None else disk w d)"
    by auto
  have other: "filter (\<lambda>d. d \<notin> set (all_references (tables w)) \<and> disk ?w d \<noteq> None) queued =
      filter (\<lambda>d. d \<notin> set (all_references (tables w)) \<and> disk w d \<noteq> None) queued"
    using Cons.prems(3) by (intro filter_cong) auto
  have queue: "delete_where (\<lambda>q. eq_digest q \<in> set queued) (erasure_queue (unqueue digest (tables w))) =
      delete_where (\<lambda>q. eq_digest q \<in> set (digest # queued)) (erasure_queue (tables w))"
    by (simp add: unqueue_def delete_where_def)
  show ?case
    using names queue unfolding bind run refs kept other
    by (intro exI [of _ "(case ?one of None \<Rightarrow> [] | Some r \<Rightarrow> [r]) @ collected"])
      (auto simp: unqueue_def)
qed

lemma set_queued_digests [simp]: "set (queued_digests t) = eq_digest ` set (erasure_queue t)"
  by (simp add: queued_digests_def)

lemma distinct_queued_digests: "key_unique eq_digest (erasure_queue t) \<Longrightarrow> distinct (queued_digests t)"
  by (simp add: queued_digests_def key_unique_def distinct_map inj_on_def)

text \<open>
  C18: what the collector removes. When nothing fails, a drain empties the queue and removes from the
  blob root exactly the queued digests that no row references any more; every other blob, and every
  other table, is as before, and the result names the removed digests in queue order.
\<close>

theorem drain_queue_collects:
  assumes "no_faults w" and "key_unique eq_digest (erasure_queue (tables w))"
    and "list_all (is_digest_hex \<circ> eq_digest) (erasure_queue (tables w))"
  shows "let queued = queued_digests (tables w); refs = set (all_references (tables w)) in
    collect_pending_blobs w =
      (Inr (filter (\<lambda>d. d \<notin> refs \<and> disk w d \<noteq> None) queued),
       w\<lparr>tables := (tables w)\<lparr>erasure_queue := []\<rparr>,
         disk := \<lambda>d. if d \<in> set queued \<and> d \<notin> refs then None else disk w d\<rparr>)"
proof -
  have hex: "\<forall>d \<in> set (queued_digests (tables w)). is_digest_hex d"
    using assms(3) by (auto simp: list_all_iff)
  have empty: "delete_where (\<lambda>q. eq_digest q \<in> set (queued_digests (tables w))) (erasure_queue (tables w)) = []"
    by (simp add: delete_where_def filter_empty_conv)
  show ?thesis
    using drain_loop_works [OF assms(1) _ distinct_queued_digests [OF assms(2)] hex, of "[]"] assms(1)
    unfolding empty
    by (auto simp: collect_pending_blobs_def drain_queue_def exec_bind_def exec_simps exec_return_def Let_def)
qed

theorem drain_queue_collects_witness:
  "fst (collect_pending_blobs
     (empty_world\<lparr>tables := empty_db\<lparr>erasure_queue :=
        [\<lparr>eq_digest = replicate 64 (CHR ''a''), eq_deletion = 7, eq_enqueued = 0\<rparr>]\<rparr>, disk := (\<lambda>_. Some [1])\<rparr>)) =
   Inr [replicate 64 (CHR ''a'')]"
proof -
  let ?w = "empty_world\<lparr>tables := empty_db\<lparr>erasure_queue :=
        [\<lparr>eq_digest = replicate 64 (CHR ''a''), eq_deletion = 7, eq_enqueued = 0\<rparr>]\<rparr>, disk := (\<lambda>_. Some [1])\<rparr>"
  have hyps: "no_faults ?w" "key_unique eq_digest (erasure_queue (tables ?w))"
    "list_all (is_digest_hex \<circ> eq_digest) (erasure_queue (tables ?w))"
    by (simp_all add: key_unique_def is_digest_hex_def is_hex_digit_def list_all_iff)
  have none: "set (all_references (tables ?w)) = {}"
    by (simp add: all_references_def attempt_digests_def output_digests_def recap_digests_def
        owned_source_digests_def empty_db_def map_filter_def)
  show ?thesis
    using drain_queue_collects [OF hyps] unfolding none by (simp add: Let_def queued_digests_def)
qed

section \<open>Reading what was stored\<close>

text \<open>
  C23: a stored response can be read back. When nothing fails and the digest of the content is free
  or already holds that content, storing it and reading the returned reference gives the same bytes.
\<close>

theorem store_raw_read_roundtrip:
  assumes "no_faults w" and "length content \<le> bs_max_bytes store"
    and "disk w (bs_sha store content) \<in> {None, Some content}"
  shows "exec_bind (store_raw store content) (blob_read store) w =
    (Inr content, w\<lparr>disk := (disk w)(bs_sha store content := Some content)\<rparr>)"
proof -
  let ?d = "bs_sha store content" and ?w = "w\<lparr>disk := (disk w)(bs_sha store content := Some content)\<rparr>"
  have "store_raw store content w = (Inr (blob_reference store content), ?w)"
    using assms
    by (auto simp: store_raw_def blob_path_exists_def file_read_def file_write_def exec_bind_def
        exec_return_def fun_upd_idem)
  moreover have "blob_read store (blob_reference store content) ?w = (Inr content, ?w)"
    using assms(1,2)
    by (simp add: blob_read_def blob_reference_def file_read_def exec_bind_def exec_return_def)
  ultimately show ?thesis by (simp add: exec_bind_def)
qed

theorem store_raw_read_roundtrip_witness:
  "fst (exec_bind (store_raw \<lparr>bs_max_bytes = 4, bs_sha = \<lambda>b. replicate (length b) (CHR ''0'')\<rparr> [1, 2])
      (blob_read \<lparr>bs_max_bytes = 4, bs_sha = \<lambda>b. replicate (length b) (CHR ''0'')\<rparr>)
     \<lparr>tables = empty_db, disk = (\<lambda>_. None), now = 0, fresh = 1, held = [], provider_calls = 0,
      faults = []\<rparr>) = Inr [1, 2]"
  by (subst store_raw_read_roundtrip) (simp_all add: no_faults_def)

end
