(* ===== verification/Chunking.thy ===== *)
theory Chunking
  imports Prelude
begin

text \<open>
  The chunking policy \<open>article-chunks.v1\<close> (\<open>src/crates/knowledge/src/chunking.rs\<close>): validated
  bounds, line endings, paragraphs, the hard split of an oversized paragraph, greedy packing into
  windows, and the overlap carried from one window to the next. The length of a text is its number
  of characters (\<open>chars().count()\<close>), the only length the policy measures. The digest is a
  parameter \<open>sha\<close>: SHA-256 is a package.
\<close>

section \<open>The policy\<close>

datatype chunk_policy_error =
  ZeroTargetChars | ZeroOverlapChars | OverlapAtLeastTarget nat nat

record chunk_policy =
  target_chars :: nat
  overlap_chars :: nat

definition chunk_policy_new :: "nat \<Rightarrow> nat \<Rightarrow> chunk_policy_error + chunk_policy" where
  "chunk_policy_new target overlap =
     (if target = 0 then Inl ZeroTargetChars
      else if overlap = 0 then Inl ZeroOverlapChars
      else if overlap \<ge> target then Inl (OverlapAtLeastTarget target overlap)
      else Inr \<lparr>target_chars = target, overlap_chars = overlap\<rparr>)"

record chunk =
  ch_ordinal :: nat
  ch_text :: string
  ch_digest_hex :: string

definition paragraph_separator :: string where
  "paragraph_separator = [CHR 0x0A, CHR 0x0A]"

section \<open>Paragraphs\<close>

fun normalize_line_endings :: "string \<Rightarrow> string" where
  "normalize_line_endings [] = []"
| "normalize_line_endings [c] = [c]"
| "normalize_line_endings (c # d # s) =
     (if c = CHR 0x0D \<and> d = CHR 0x0A then CHR 0x0A # normalize_line_endings s
      else c # normalize_line_endings (d # s))"

text \<open>\<open>str::split\<close> on the separator: matches are found from the left and do not overlap.\<close>

fun split_blank_lines :: "string \<Rightarrow> string list" where
  "split_blank_lines [] = [[]]"
| "split_blank_lines [c] = [[c]]"
| "split_blank_lines (c # d # s) =
     (if c = CHR 0x0A \<and> d = CHR 0x0A then [] # split_blank_lines s
      else case split_blank_lines (d # s) of
             [] \<Rightarrow> [[c]]
           | p # ps \<Rightarrow> (c # p) # ps)"

text \<open>\<open>char::is_whitespace\<close> on the characters of a HOL string, and \<open>str::trim\<close>.\<close>

definition is_whitespace :: "char \<Rightarrow> bool" where
  "is_whitespace c = (let n = of_char c :: nat in
     (9 \<le> n \<and> n \<le> 13) \<or> n = 32 \<or> n = 133 \<or> n = 160)"

definition trim :: "string \<Rightarrow> string" where
  "trim s = rev (dropWhile is_whitespace (rev (dropWhile is_whitespace s)))"

definition paragraphs_of :: "string \<Rightarrow> string list" where
  "paragraphs_of s = filter (\<lambda>p. p \<noteq> []) (map trim (split_blank_lines s))"

section \<open>Windows\<close>

function split_oversized :: "string \<Rightarrow> nat \<Rightarrow> string list" where
  "split_oversized s n =
     (if s = [] \<or> n = 0 then [] else take n s # split_oversized (drop n s) n)"
  by pat_completeness auto
termination by (relation "measure (length \<circ> fst)") auto

declare split_oversized.simps [simp del]

fun pieces_of :: "string list \<Rightarrow> nat \<Rightarrow> string list" where
  "pieces_of [] n = []"
| "pieces_of (p # ps) n =
     (if length p > n then split_oversized p n @ pieces_of ps n else p # pieces_of ps n)"

text \<open>The loop of \<open>pack_windows\<close>: finished windows, the current one and its length.\<close>

fun pack_loop :: "nat \<Rightarrow> string list \<Rightarrow> string list \<Rightarrow> string \<Rightarrow> nat \<Rightarrow> string list" where
  "pack_loop n [] windows current current_len =
     (if current \<noteq> [] then windows @ [current] else windows)"
| "pack_loop n (piece # pieces) windows current current_len =
     (let piece_len = length piece;
          full = current_len > 0 \<and> current_len + length paragraph_separator + piece_len > n;
          windows = (if full then windows @ [current] else windows);
          current = (if full then [] else current);
          current_len = (if full then 0 else current_len);
          current = (if current_len > 0 then current @ paragraph_separator else current);
          current_len = (if current_len > 0 then current_len + length paragraph_separator
                         else current_len)
      in pack_loop n pieces windows (current @ piece) (current_len + piece_len))"

definition pack_windows :: "string list \<Rightarrow> nat \<Rightarrow> string list" where
  "pack_windows paragraphs n = pack_loop n (pieces_of paragraphs n) [] [] 0"

definition tail_chars :: "string \<Rightarrow> nat \<Rightarrow> string" where
  "tail_chars s count = (let total = length s in
     if total \<le> count then s else drop (total - count) s)"

section \<open>Chunks\<close>

definition chunk_windows :: "string \<Rightarrow> string \<Rightarrow> chunk_policy \<Rightarrow> string list" where
  "chunk_windows lead body policy =
     (let normalized_body = normalize_line_endings body;
          source = (if normalized_body = [] then normalize_line_endings lead else normalized_body);
          paragraphs = paragraphs_of source
      in if paragraphs = [] then [[]] else pack_windows paragraphs (target_chars policy))"

fun chunk_loop ::
  "(string \<Rightarrow> string) \<Rightarrow> string \<Rightarrow> nat \<Rightarrow> nat \<Rightarrow> string option \<Rightarrow> string list \<Rightarrow> chunk list" where
  "chunk_loop sha title overlap ordinal previous_raw [] = []"
| "chunk_loop sha title overlap ordinal previous_raw (window # windows) =
     (let carried = (case previous_raw of None \<Rightarrow> []
                     | Some previous \<Rightarrow> tail_chars previous overlap);
          stored = title @ paragraph_separator @ carried @ window
      in \<lparr>ch_ordinal = ordinal, ch_text = stored, ch_digest_hex = sha stored\<rparr>
         # chunk_loop sha title overlap (ordinal + 1) (Some window) windows)"

definition chunk_article ::
  "(string \<Rightarrow> string) \<Rightarrow> string \<Rightarrow> string \<Rightarrow> string \<Rightarrow> chunk_policy \<Rightarrow> chunk list" where
  "chunk_article sha title lead body policy =
     chunk_loop sha title (overlap_chars policy) 0 None (chunk_windows lead body policy)"

section \<open>The hard split\<close>

lemma split_oversized_Nil [simp]: "split_oversized [] n = []"
  by (simp add: split_oversized.simps)

lemma split_oversized_step:
  "s \<noteq> [] \<Longrightarrow> 0 < n \<Longrightarrow> split_oversized s n = take n s # split_oversized (drop n s) n"
  by (subst split_oversized.simps) simp

lemma concat_split_oversized: "0 < n \<Longrightarrow> concat (split_oversized s n) = s"
proof (induction s n rule: split_oversized.induct)
  case (1 s n)
  then show ?case by (cases "s = []") (simp_all add: split_oversized_step)
qed

lemma split_oversized_sizes:
  "p \<in> set (split_oversized s n) \<Longrightarrow> p \<noteq> [] \<and> length p \<le> n"
proof (induction s n rule: split_oversized.induct)
  case (1 s n)
  then have "s \<noteq> [] \<and> 0 < n" by (subst (asm) split_oversized.simps) (auto split: if_splits)
  with 1 show ?case by (auto simp: split_oversized_step)
qed

lemma concat_pieces_of: "0 < n \<Longrightarrow> concat (pieces_of ps n) = concat ps"
  by (induction ps) (simp_all add: concat_split_oversized)

lemma pieces_of_sizes:
  "[] \<notin> set ps \<Longrightarrow> p \<in> set (pieces_of ps n) \<Longrightarrow> p \<noteq> [] \<and> length p \<le> n"
  by (induction ps) (auto dest: split_oversized_sizes split: if_splits)

lemma pieces_of_Nil_iff: "0 < n \<Longrightarrow> [] \<notin> set ps \<Longrightarrow> pieces_of ps n = [] \<longleftrightarrow> ps = []"
  by (cases ps) (auto simp: split_oversized_step)

section \<open>Greedy packing\<close>

text \<open>
  The reference: \<open>groups\<close> divides the pieces into consecutive groups, each group is one window
  whose pieces are joined by a blank line, each window fits, and a group is only closed when the
  next piece would not have fitted.
\<close>

fun join_pieces :: "string list \<Rightarrow> string" where
  "join_pieces [] = []"
| "join_pieces [p] = p"
| "join_pieces (p # q # ps) = p @ paragraph_separator @ join_pieces (q # ps)"

fun greedy_groups :: "nat \<Rightarrow> string list list \<Rightarrow> bool" where
  "greedy_groups n [] = True"
| "greedy_groups n [g] = (g \<noteq> [] \<and> length (join_pieces g) \<le> n)"
| "greedy_groups n (g # h # gs) =
     (g \<noteq> [] \<and> length (join_pieces g) \<le> n \<and>
      h \<noteq> [] \<and> n < length (join_pieces (g @ [hd h])) \<and> greedy_groups n (h # gs))"

lemma join_pieces_snoc:
  "g \<noteq> [] \<Longrightarrow> join_pieces (g @ [p]) = join_pieces g @ paragraph_separator @ p"
  by (induction g rule: join_pieces.induct) auto

lemma greedy_groups_snoc_piece:
  assumes "greedy_groups n (gs @ [g])" and "length (join_pieces (g @ [p])) \<le> n"
  shows "greedy_groups n (gs @ [g @ [p]])"
  using assms by (induction n gs rule: greedy_groups.induct) (auto simp: hd_append)

lemma greedy_groups_snoc_group:
  assumes "greedy_groups n (gs @ [g])" and "n < length (join_pieces (g @ [p]))" and "length p \<le> n"
  shows "greedy_groups n (gs @ [g, [p]])"
  using assms by (induction n gs rule: greedy_groups.induct) auto

lemma join_pieces_nonempty: "g \<noteq> [] \<Longrightarrow> [] \<notin> set g \<Longrightarrow> join_pieces g \<noteq> []"
  by (cases g rule: join_pieces.cases) auto

lemma pack_loop_groups:
  assumes "\<forall>p \<in> set pieces. p \<noteq> [] \<and> length p \<le> n"
    and "greedy_groups n (gs @ [g])" and "[] \<notin> set g"
  shows "\<exists>hs. pack_loop n pieces (map join_pieces gs) (join_pieces g) (length (join_pieces g)) =
      map join_pieces hs \<and> concat hs = concat gs @ g @ pieces \<and> greedy_groups n hs"
  using assms
proof (induction pieces arbitrary: gs g)
  case Nil
  have "g \<noteq> []" using Nil.prems(2) by (induction n gs rule: greedy_groups.induct) auto
  then have "join_pieces g \<noteq> []" using Nil.prems(3) by (simp add: join_pieces_nonempty)
  then show ?case using Nil.prems(2) by (intro exI [of _ "gs @ [g]"]) simp
next
  case (Cons p pieces)
  let ?cur = "join_pieces g"
  have g: "g \<noteq> []" using Cons.prems(2) by (induction n gs rule: greedy_groups.induct) auto
  then have ne: "?cur \<noteq> []" using Cons.prems(3) by (simp add: join_pieces_nonempty)
  have p: "p \<noteq> []" "length p \<le> n" using Cons.prems(1) by auto
  have snoc: "join_pieces (g @ [p]) = ?cur @ paragraph_separator @ p"
    using g by (rule join_pieces_snoc)
  show ?case
  proof (cases "length ?cur + length paragraph_separator + length p > n")
    case True
    then have "greedy_groups n ((gs @ [g]) @ [[p]])"
      using greedy_groups_snoc_group [OF Cons.prems(2) _ p(2)] snoc by simp
    from Cons.IH [OF _ this] Cons.prems(1) p(1) show ?thesis
      using True ne by (fastforce simp: Let_def)
  next
    case False
    then have "greedy_groups n (gs @ [g @ [p]])"
      using greedy_groups_snoc_piece [OF Cons.prems(2)] snoc by simp
    from Cons.IH [OF _ this] Cons.prems(1,3) p(1) show ?thesis
      using False ne snoc by (fastforce simp: Let_def add.assoc)
  qed
qed

lemma pack_windows_groups:
  assumes "0 < n" and "[] \<notin> set ps"
  shows "\<exists>hs. pack_windows ps n = map join_pieces hs \<and> concat hs = pieces_of ps n \<and>
    greedy_groups n hs"
proof (cases "pieces_of ps n")
  case Nil
  then show ?thesis by (intro exI [of _ "[]"]) (simp add: pack_windows_def)
next
  case (Cons p pieces)
  have sizes: "\<forall>q \<in> set (p # pieces). q \<noteq> [] \<and> length q \<le> n"
    using pieces_of_sizes [OF assms(2)] Cons by metis
  have "pack_windows ps n = pack_loop n pieces [] p (length p)"
    by (simp add: pack_windows_def Cons Let_def)
  moreover have "\<exists>hs. pack_loop n pieces (map join_pieces []) (join_pieces [p])
      (length (join_pieces [p])) = map join_pieces hs \<and>
      concat hs = concat [] @ [p] @ pieces \<and> greedy_groups n hs"
    using sizes by (intro pack_loop_groups) auto
  ultimately show ?thesis using Cons by auto
qed

lemma greedy_groups_fit: "greedy_groups n hs \<Longrightarrow> h \<in> set hs \<Longrightarrow> h \<noteq> [] \<and> length (join_pieces h) \<le> n"
  by (induction n hs rule: greedy_groups.induct) auto

lemma paragraphs_of_nonempty: "[] \<notin> set (paragraphs_of s)"
  by (simp add: paragraphs_of_def)

lemma chunk_policy_new_bounds:
  "chunk_policy_new t v = Inr policy \<Longrightarrow>
     0 < v \<and> v < t \<and> target_chars policy = t \<and> overlap_chars policy = v"
  by (auto simp: chunk_policy_new_def split: if_splits)

text \<open>
  C25: an accepted policy packs the paragraphs greedily and loses nothing. The windows are the
  joined groups of a division of the pieces into consecutive groups, the pieces hold exactly the
  characters of the paragraphs in order, every window fits the target and none could have taken
  the first piece of its successor.
\<close>

theorem pack_windows_greedy_lossless:
  assumes "chunk_policy_new t v = Inr policy" and "[] \<notin> set paragraphs"
  shows "\<exists>groups. pack_windows paragraphs (target_chars policy) = map join_pieces groups \<and>
    concat (concat groups) = concat paragraphs \<and> greedy_groups (target_chars policy) groups"
proof -
  have t: "0 < target_chars policy" using chunk_policy_new_bounds [OF assms(1)] by simp
  show ?thesis using pack_windows_groups [OF t assms(2)] concat_pieces_of [OF t, of paragraphs] by metis
qed

theorem pack_windows_greedy_lossless_witness:
  "\<exists>groups. pack_windows [''abcdefg'', ''h'', ''i''] 4 = map join_pieces groups \<and>
    concat (concat groups) = ''abcdefghi'' \<and> greedy_groups 4 groups"
proof -
  have "chunk_policy_new 4 1 = Inr \<lparr>target_chars = 4, overlap_chars = 1\<rparr>"
    by (simp add: chunk_policy_new_def)
  from pack_windows_greedy_lossless [OF this, of "[''abcdefg'', ''h'', ''i'']"]
  show ?thesis by simp
qed

lemma chunk_windows_fit:
  assumes "0 < target_chars policy" and "w \<in> set (chunk_windows lead body policy)"
  shows "length w \<le> target_chars policy"
proof -
  have fit: "length x \<le> target_chars policy"
    if "[] \<notin> set ps" "x \<in> set (pack_windows ps (target_chars policy))" for ps x
    using that pack_windows_groups [OF assms(1), of ps] greedy_groups_fit by fastforce
  show ?thesis
    using assms(2) fit [OF paragraphs_of_nonempty]
    by (auto simp: chunk_windows_def Let_def split: if_splits)
qed

lemma pack_windows_nonempty:
  assumes "0 < n" and "[] \<notin> set ps" and "ps \<noteq> []"
  shows "pack_windows ps n \<noteq> []"
  using pack_windows_groups [OF assms(1,2)] pieces_of_Nil_iff [OF assms(1,2)] assms(3) by auto

lemma chunk_windows_nonempty: "0 < target_chars policy \<Longrightarrow> chunk_windows lead body policy \<noteq> []"
  by (simp add: chunk_windows_def Let_def pack_windows_nonempty paragraphs_of_nonempty)

section \<open>The stored chunks\<close>

lemma length_chunk_loop [simp]:
  "length (chunk_loop sha title overlap k previous windows) = length windows"
  by (induction windows arbitrary: k previous) (auto simp: Let_def)

lemma chunk_loop_nth:
  assumes "i < length windows"
  shows "chunk_loop sha title overlap k previous windows ! i =
    (let carried = (if i = 0 then (case previous of None \<Rightarrow> [] | Some p \<Rightarrow> tail_chars p overlap)
                    else tail_chars (windows ! (i - 1)) overlap);
         stored = title @ paragraph_separator @ carried @ windows ! i
     in \<lparr>ch_ordinal = k + i, ch_text = stored, ch_digest_hex = sha stored\<rparr>)"
  using assms
proof (induction windows arbitrary: k previous i)
  case (Cons w ws)
  show ?case
  proof (cases i)
    case (Suc j)
    then show ?thesis
      using Cons.IH [of j "k + 1" "Some w"] Cons.prems by (cases j) (auto simp: Let_def)
  qed (simp add: Let_def)
qed simp

lemma tail_chars_length: "length (tail_chars s n) = min n (length s)"
  by (simp add: tail_chars_def Let_def)

text \<open>
  C24: what an accepted policy stores: at least one chunk, dense ordinals from zero, each text the
  title, a blank line, the last characters of the previous window (never of the previous stored
  text, so the overlap does not accumulate) and its own window, at most overlap plus target
  characters long after the title.
\<close>

theorem chunk_article_layout:
  assumes "chunk_policy_new t v = Inr policy"
  shows "let windows = chunk_windows lead body policy;
             chunks = chunk_article sha title lead body policy in
    windows \<noteq> [] \<and> map ch_ordinal chunks = [0..<length windows] \<and>
    (\<forall>i < length windows.
       ch_text (chunks ! i) = title @ paragraph_separator @
         (if i = 0 then [] else tail_chars (windows ! (i - 1)) v) @ windows ! i \<and>
       ch_digest_hex (chunks ! i) = sha (ch_text (chunks ! i)) \<and>
       length (ch_text (chunks ! i)) \<le> length title + 2 + v + t)"
proof -
  have b: "0 < target_chars policy" "target_chars policy = t" "overlap_chars policy = v"
    using chunk_policy_new_bounds [OF assms] by auto
  let ?ws = "chunk_windows lead body policy" and ?cs = "chunk_article sha title lead body policy"
  have at: "?cs ! i = (let stored = title @ paragraph_separator @
        (if i = 0 then [] else tail_chars (?ws ! (i - 1)) v) @ ?ws ! i
      in \<lparr>ch_ordinal = i, ch_text = stored, ch_digest_hex = sha stored\<rparr>)" if "i < length ?ws" for i
    using chunk_loop_nth [OF that, of sha title v 0 None] b(3) by (auto simp: chunk_article_def Let_def)
  have len: "length ?cs = length ?ws" by (simp add: chunk_article_def)
  have "map ch_ordinal ?cs = [0..<length ?ws]"
    by (rule nth_equalityI) (auto simp: len at Let_def)
  moreover have "length (?ws ! i) \<le> t" if "i < length ?ws" for i
    using chunk_windows_fit [OF b(1)] b(2) that nth_mem by metis
  moreover have "length (?ws ! 0) \<le> v + t" if "0 < length ?ws"
    using calculation(2) that trans_le_add2 by blast
  ultimately show ?thesis
    using chunk_windows_nonempty [OF b(1)]
    by (auto simp: at Let_def tail_chars_length paragraph_separator_def intro: add_mono)
qed

theorem chunk_article_layout_witness:
  "chunk_windows ''lead'' [] \<lparr>target_chars = 3, overlap_chars = 2\<rparr> \<noteq> []"
proof -
  have "chunk_policy_new 3 2 = Inr \<lparr>target_chars = 3, overlap_chars = 2\<rparr>"
    by (simp add: chunk_policy_new_def)
  from chunk_article_layout [OF this, of "''lead''" "[]" "\<lambda>s. s" "''t''"] show ?thesis
    by (simp add: Let_def)
qed

end
