(* ===== verification/Context.thy ===== *)
theory Context
  imports Vocabulary Chunking
begin

text \<open>
  The bounded context a provider sees (\<open>context.rs\<close>), the validation of its answer
  (\<open>article.rs\<close>), the offline provider (\<open>deterministic_provider.rs\<close>) and the searchable text of a
  document (\<open>search.rs\<close>, \<open>search/text_bound.rs\<close>). Document IR comes from a contracts package: the
  model has the two block kinds the code looks at and one constructor for all others. The JSON
  encoding of a string (\<open>serde_json\<close>) is a parameter \<open>enc\<close>, its decoding a parameter \<open>dec\<close>.
\<close>

section \<open>Documents\<close>

datatype document_block =
  Heading nat string
| Paragraph string
| OtherBlock

record document =
  doc_id :: uuid
  doc_digest_hex :: string
  doc_title :: "string option"
  doc_language :: "string option"
  doc_blocks :: "document_block list"

section \<open>Context preparation\<close>

record prepared_context =
  pc_source :: string
  pc_included :: "nat list"
  pc_omitted :: "nat list"
  pc_budget :: nat
  pc_truncated :: bool

datatype context_error = BudgetTooSmall | TooManyBlocks | ContextEncode

definition decimal_digit :: "nat \<Rightarrow> char" where
  "decimal_digit d = char_of (48 + d)"

fun decimal :: "nat \<Rightarrow> string" where
  "decimal n = (if n < 10 then [decimal_digit n] else decimal (n div 10) @ [decimal_digit (n mod 10)])"

declare decimal.simps [simp del]

definition newline :: char where
  "newline = CHR 0x0A"

definition render_block :: "(string \<Rightarrow> string) \<Rightarrow> nat \<Rightarrow> document_block \<Rightarrow> string option" where
  "render_block enc index block =
     (case block of
        Heading level t \<Rightarrow>
          Some (''block '' @ decimal index @ '' heading '' @ decimal level @ '': '' @ enc t @ [newline])
      | Paragraph t \<Rightarrow> Some (''block '' @ decimal index @ '' paragraph: '' @ enc t @ [newline])
      | OtherBlock \<Rightarrow> None)"

text \<open>\<open>serde_json::to_string\<close> of an optional string.\<close>

definition encode_optional :: "(string \<Rightarrow> string) \<Rightarrow> string option \<Rightarrow> string" where
  "encode_optional enc s = (case s of None \<Rightarrow> ''null'' | Some t \<Rightarrow> enc t)"

definition context_header :: "(string \<Rightarrow> string) \<Rightarrow> document \<Rightarrow> string" where
  "context_header enc d =
     ''title: '' @ encode_optional enc (doc_title d) @ [newline] @
     ''language: '' @ encode_optional enc (doc_language d) @ [newline]"

text \<open>The loop over the blocks: position, source, included, omitted, truncated.\<close>

fun context_loop ::
  "(string \<Rightarrow> string) \<Rightarrow> nat \<Rightarrow> nat \<Rightarrow> document_block list \<Rightarrow> string \<Rightarrow> nat list \<Rightarrow> nat list \<Rightarrow> bool \<Rightarrow>
   context_error + (string \<times> nat list \<times> nat list \<times> bool)" where
  "context_loop enc budget position [] source included omitted truncated =
     Inr (source, included, omitted, truncated)"
| "context_loop enc budget position (block # blocks) source included omitted truncated =
     (if position \<ge> 2 ^ 32 then Inl TooManyBlocks
      else case render_block enc position block of
        None \<Rightarrow> context_loop enc budget (position + 1) blocks source included (omitted @ [position]) True
      | Some rendered \<Rightarrow>
          (let fits = length source + length rendered \<le> budget in
           if truncated \<or> \<not> fits
           then context_loop enc budget (position + 1) blocks source included (omitted @ [position]) True
           else context_loop enc budget (position + 1) blocks (source @ rendered)
                  (included @ [position]) omitted truncated))"

definition prepare_context ::
  "(string \<Rightarrow> string) \<Rightarrow> document \<Rightarrow> nat \<Rightarrow> context_error + prepared_context" where
  "prepare_context enc d budget =
     (let source = context_header enc d in
      if length source > budget then Inl BudgetTooSmall
      else case context_loop enc budget 0 (doc_blocks d) source [] [] False of
        Inl e \<Rightarrow> Inl e
      | Inr (source, included, omitted, truncated) \<Rightarrow>
          Inr \<lparr>pc_source = source, pc_included = included, pc_omitted = omitted,
               pc_budget = budget, pc_truncated = truncated\<rparr>)"

section \<open>The answer\<close>

record key_point =
  kp_text :: string
  kp_indexes :: "nat list"

record article_analysis =
  aa_summary :: string
  aa_key_points :: "key_point list"

datatype article_validation_error = SchemaDefinition | Structural | Decode | Citation

text \<open>
  The generated schema, read from the attributes of \<open>ArticleAnalysis\<close> and \<open>KeyPoint\<close>: the required
  properties and no others, the length bounds, non-negative integer indexes. The width of an index
  (\<open>u32\<close>) is only enforced by the typed decoding after it.
\<close>

fun nonneg_integer :: "json \<Rightarrow> bool" where
  "nonneg_integer (JNum n) = (0 \<le> n)"
| "nonneg_integer _ = False"

fun string_between :: "nat \<Rightarrow> nat \<Rightarrow> json \<Rightarrow> bool" where
  "string_between lo hi (JStr s) = (lo \<le> length s \<and> length s \<le> hi)"
| "string_between lo hi _ = False"

fun array_between :: "nat \<Rightarrow> nat \<Rightarrow> (json \<Rightarrow> bool) \<Rightarrow> json \<Rightarrow> bool" where
  "array_between lo hi item (JArr xs) = (lo \<le> length xs \<and> length xs \<le> hi \<and> list_all item xs)"
| "array_between lo hi item _ = False"

definition exact_object :: "(string \<times> (json \<Rightarrow> bool)) list \<Rightarrow> json \<Rightarrow> bool" where
  "exact_object spec j =
     (case j of
        JObj members \<Rightarrow>
          list_all (\<lambda>(k, ok). case map_of members k of None \<Rightarrow> False | Some v \<Rightarrow> ok v) spec \<and>
          list_all (\<lambda>(k, _). k \<in> set (map fst spec)) members
      | _ \<Rightarrow> False)"

definition key_point_schema :: "json \<Rightarrow> bool" where
  "key_point_schema = exact_object
     [(''text'', string_between 1 500), (''source_block_indexes'', array_between 1 8 nonneg_integer)]"

definition article_schema :: "json \<Rightarrow> bool" where
  "article_schema = exact_object
     [(''summary'', string_between 1 2000), (''key_points'', array_between 1 10 key_point_schema)]"

fun decode_index :: "json \<Rightarrow> nat option" where
  "decode_index (JNum n) = (if 0 \<le> n \<and> n < 2 ^ 32 then Some (nat n) else None)"
| "decode_index _ = None"

fun decode_all :: "('a \<Rightarrow> 'b option) \<Rightarrow> 'a list \<Rightarrow> 'b list option" where
  "decode_all f [] = Some []"
| "decode_all f (x # xs) =
     (case f x of None \<Rightarrow> None
      | Some y \<Rightarrow> (case decode_all f xs of None \<Rightarrow> None | Some ys \<Rightarrow> Some (y # ys)))"

fun json_array :: "json \<Rightarrow> json list option" where
  "json_array (JArr xs) = Some xs"
| "json_array _ = None"

definition decode_key_point :: "json \<Rightarrow> key_point option" where
  "decode_key_point j =
     (case (Option.bind (json_get j ''text'') json_str,
            Option.bind (Option.bind (json_get j ''source_block_indexes'') json_array)
              (decode_all decode_index)) of
        (Some t, Some is) \<Rightarrow> Some \<lparr>kp_text = t, kp_indexes = is\<rparr>
      | _ \<Rightarrow> None)"

definition decode_article :: "json \<Rightarrow> article_analysis option" where
  "decode_article j =
     (case (Option.bind (json_get j ''summary'') json_str,
            Option.bind (Option.bind (json_get j ''key_points'') json_array)
              (decode_all decode_key_point)) of
        (Some s, Some ks) \<Rightarrow> Some \<lparr>aa_summary = s, aa_key_points = ks\<rparr>
      | _ \<Rightarrow> None)"

definition validate_article_json :: "json \<Rightarrow> article_validation_error + article_analysis" where
  "validate_article_json j =
     (if \<not> article_schema j then Inl Structural
      else case decode_article j of None \<Rightarrow> Inl Decode | Some a \<Rightarrow> Inr a)"

fun citations_loop :: "nat list \<Rightarrow> nat list \<Rightarrow> nat list \<Rightarrow> article_validation_error + unit" where
  "citations_loop included seen [] = Inr ()"
| "citations_loop included seen (index # indexes) =
     (if index \<in> set seen \<or> index \<notin> set included then Inl Citation
      else citations_loop included (seen @ [index]) indexes)"

fun validate_points :: "nat list \<Rightarrow> key_point list \<Rightarrow> article_validation_error + unit" where
  "validate_points included [] = Inr ()"
| "validate_points included (point # points) =
     (case citations_loop included [] (kp_indexes point) of
        Inl e \<Rightarrow> Inl e
      | Inr _ \<Rightarrow> validate_points included points)"

definition validate_article_citations ::
  "article_analysis \<Rightarrow> prepared_context \<Rightarrow> article_validation_error + unit" where
  "validate_article_citations article context =
     validate_points (pc_included context) (aa_key_points article)"

section \<open>Searchable text\<close>

record search_text =
  st_title :: string
  st_lead :: string
  st_body :: string

text \<open>The loop of \<open>extract_search_text\<close>: title, lead, body parts and whether a heading was seen.\<close>

fun extract_loop ::
  "document_block list \<Rightarrow> string \<Rightarrow> string option \<Rightarrow> string list \<Rightarrow> bool \<Rightarrow> search_text" where
  "extract_loop [] title lead parts seen =
     \<lparr>st_title = title, st_lead = (case lead of None \<Rightarrow> [] | Some l \<Rightarrow> l),
      st_body = join_pieces parts\<rparr>"
| "extract_loop (block # blocks) title lead parts seen =
     (case block of
        Heading _ t \<Rightarrow>
          (if seen then extract_loop blocks title lead (parts @ [t]) seen
           else extract_loop blocks (if title = [] then t else title) lead parts True)
      | Paragraph t \<Rightarrow>
          (if lead = None then extract_loop blocks title (Some t) parts seen
           else extract_loop blocks title lead (parts @ [t]) seen)
      | OtherBlock \<Rightarrow> extract_loop blocks title lead parts seen)"

definition extract_search_text :: "document \<Rightarrow> search_text" where
  "extract_search_text d =
     extract_loop (doc_blocks d) (case doc_title d of None \<Rightarrow> [] | Some t \<Rightarrow> t) None [] False"

definition search_text_max_bytes :: nat where
  "search_text_max_bytes = 300000"

text \<open>Bytes of a character in UTF-8 (a HOL character is below U+0100).\<close>

definition utf8_len :: "char \<Rightarrow> nat" where
  "utf8_len c = (if (of_char c :: nat) < 128 then 1 else 2)"

definition byte_length :: "string \<Rightarrow> nat" where
  "byte_length s = sum_list (map utf8_len s)"

text \<open>
  The longest prefix of at most \<open>limit\<close> bytes that ends at a character boundary, and the budget
  left after it.
\<close>

fun cut_at_boundary :: "string \<Rightarrow> nat \<Rightarrow> string \<times> nat" where
  "cut_at_boundary [] limit = ([], limit)"
| "cut_at_boundary (c # s) limit =
     (if utf8_len c \<le> limit
      then (case cut_at_boundary s (limit - utf8_len c) of (prefix, rest) \<Rightarrow> (c # prefix, rest))
      else ([], limit))"

definition bounded_text :: "search_text \<Rightarrow> search_text" where
  "bounded_text t =
     (let (title, remaining) = cut_at_boundary (st_title t) search_text_max_bytes;
          (lead, remaining) = cut_at_boundary (st_lead t) remaining;
          (body, _) = cut_at_boundary (st_body t) remaining
      in \<lparr>st_title = title, st_lead = lead, st_body = body\<rparr>)"

section \<open>The offline provider\<close>

text \<open>\<open>str::lines\<close>: a final newline ends the last line, a carriage return before one is dropped.\<close>

definition strip_cr :: "string \<Rightarrow> string" where
  "strip_cr l = (if l \<noteq> [] \<and> last l = CHR 0x0D then butlast l else l)"

function raw_lines :: "string \<Rightarrow> string list" where
  "raw_lines s =
     (if s = [] then []
      else takeWhile (\<lambda>c. c \<noteq> newline) s # raw_lines (drop 1 (dropWhile (\<lambda>c. c \<noteq> newline) s)))"
  by pat_completeness auto
termination
proof (relation "measure length", goal_cases)
  case (2 s)
  then have "length (dropWhile (\<lambda>c. c \<noteq> newline) s) \<le> length s" "0 < length s"
    by (simp_all add: length_dropWhile_le)
  then have "length (dropWhile (\<lambda>c. c \<noteq> newline) s) - 1 < length s" by linarith
  then show ?case by simp
qed simp

declare raw_lines.simps [simp del]

definition text_lines :: "string \<Rightarrow> string list" where
  "text_lines s = map strip_cr (raw_lines s)"

definition strip_prefix :: "string \<Rightarrow> string \<Rightarrow> string option" where
  "strip_prefix p s = (if take (length p) s = p then Some (drop (length p) s) else None)"

definition split_once_space :: "string \<Rightarrow> (string \<times> string) option" where
  "split_once_space s =
     (if CHR '' '' \<in> set s
      then Some (takeWhile (\<lambda>c. c \<noteq> CHR '' '') s, drop 1 (dropWhile (\<lambda>c. c \<noteq> CHR '' '') s))
      else None)"

text \<open>\<open>u32::from_str\<close>: an optional plus sign, then decimal digits, no overflow.\<close>

definition is_digit :: "char \<Rightarrow> bool" where
  "is_digit c = (let n = of_char c :: nat in 48 \<le> n \<and> n \<le> 57)"

definition digits_value :: "string \<Rightarrow> nat" where
  "digits_value s = foldl (\<lambda>v c. 10 * v + (of_char c - 48)) 0 s"

definition parse_u32 :: "string \<Rightarrow> nat option" where
  "parse_u32 s =
     (let ds = (if s \<noteq> [] \<and> hd s = CHR ''+'' then tl s else s) in
      if ds \<noteq> [] \<and> list_all is_digit ds \<and> digits_value ds < 2 ^ 32 then Some (digits_value ds)
      else None)"

definition paragraph_line :: "(string \<Rightarrow> string option) \<Rightarrow> string \<Rightarrow> (nat \<times> string) option" where
  "paragraph_line dec line =
     Option.bind (strip_prefix ''block '' line) (\<lambda>rest.
     Option.bind (split_once_space rest) (\<lambda>(index, rest).
     Option.bind (strip_prefix ''paragraph: '' rest) (\<lambda>quoted.
     Option.bind (dec quoted) (\<lambda>t.
     Option.bind (parse_u32 index) (\<lambda>index.
     if trim t \<noteq> [] then Some (index, t) else None)))))"

fun find_map :: "('a \<Rightarrow> 'b option) \<Rightarrow> 'a list \<Rightarrow> 'b option" where
  "find_map f [] = None"
| "find_map f (x # xs) = (case f x of None \<Rightarrow> find_map f xs | Some y \<Rightarrow> Some y)"

definition first_paragraph :: "(string \<Rightarrow> string option) \<Rightarrow> string \<Rightarrow> (nat \<times> string) option" where
  "first_paragraph dec source = find_map (paragraph_line dec) (text_lines source)"

definition article_prompt_version :: string where
  "article_prompt_version = ''article_prompt_v1''"

definition extracted_article :: "nat \<Rightarrow> string \<Rightarrow> json" where
  "extracted_article index t =
     JObj [(''summary'', JStr (take 2000 t)),
           (''key_points'', JArr [JObj [(''text'', JStr (take 500 t)),
                                        (''source_block_indexes'', JArr [JNum (int index)])]])]"

definition extract_answer ::
  "(json \<Rightarrow> bytes) \<Rightarrow> (string \<Rightarrow> string option) \<Rightarrow> generation_request \<Rightarrow> provider_failure + provider_response" where
  "extract_answer encode dec request =
     (if prompt_version request \<noteq> article_prompt_version then Inl (unclassified Permanent)
      else case first_paragraph dec (source_content request) of
        None \<Rightarrow> Inl (unclassified Permanent)
      | Some (index, t) \<Rightarrow>
          Inr \<lparr>resp_bytes = encode (extracted_article index t),
               resp_request_id = Some ''extractive-fixture'',
               resp_usage = \<lparr>input_tokens = of_nat (length (source_content request) div 4),
                             output_tokens = 16\<rparr>\<rparr>)"

text \<open>The fixed parts of a request: the prompt files and the generated schema.\<close>

record prompt_texts =
  pt_system :: string
  pt_task :: string
  pt_schema :: json

definition build_generation_request :: "prompt_texts \<Rightarrow> prepared_context \<Rightarrow> generation_request" where
  "build_generation_request texts context =
     \<lparr>prompt_version = article_prompt_version, system_policy = pt_system texts,
      task_instruction = pt_task texts, output_schema = pt_schema texts,
      source_content = pc_source context\<rparr>"

section \<open>The shape of a prepared context\<close>

lemma context_loop_prefix:
  assumes "context_loop enc budget position blocks source included omitted truncated =
      Inr (source', included', omitted', truncated')"
    and "length source \<le> budget"
    and "included = [0..<k]" and "omitted = [k..<position]" and "k \<le> position"
    and "truncated \<longleftrightarrow> k < position"
  shows "\<exists>m. k \<le> m \<and> m \<le> position + length blocks \<and> (k < position \<longrightarrow> m = k) \<and>
    included' = [0..<m] \<and> omitted' = [m..<position + length blocks] \<and>
    (truncated' \<longleftrightarrow> m < position + length blocks) \<and> length source' \<le> budget \<and>
    (m = k \<or> k = position) \<and>
    (\<forall>i < m - k. render_block enc (position + i) (blocks ! i) \<noteq> None) \<and>
    source' = source @ concat (map (\<lambda>i. the (render_block enc (position + i) (blocks ! i))) [0..<m - k]) \<and>
    (k = position \<and> m < position + length blocks \<longrightarrow>
       (case render_block enc m (blocks ! (m - k)) of None \<Rightarrow> True
        | Some r \<Rightarrow> budget < length source' + length r))"
  using assms
proof (induction blocks arbitrary: position source included omitted truncated k)
  case Nil
  then show ?case by (intro exI [of _ k]) auto
next
  case (Cons b bs)
  have pos: "position < 2 ^ 32" using Cons.prems(1) by (auto split: if_splits)
  have om: "[k..<position] @ [position] = [k..<Suc position]" using Cons.prems(5) by simp
  consider (stop) "render_block enc position b = None \<or> truncated \<or>
      (\<exists>r. render_block enc position b = Some r \<and> budget < length source + length r)"
    | (take_block) r where "render_block enc position b = Some r" "\<not> truncated"
        "length source + length r \<le> budget"
    by (cases "render_block enc position b") (simp, metis not_le)
  then show ?case
  proof cases
    case stop
    then have run: "context_loop enc budget (Suc position) bs source included (omitted @ [position]) True =
        Inr (source', included', omitted', truncated')"
      using Cons.prems(1) pos by (auto split: option.splits if_splits simp: Let_def not_le)
    have om': "omitted @ [position] = [k..<Suc position]" using om Cons.prems(4) by simp
    have lt: "k \<le> Suc position" "True \<longleftrightarrow> k < Suc position" using Cons.prems(5) by auto
    then obtain m where m: "m = k" and r: "included' = [0..<m]" "omitted' = [m..<Suc position + length bs]"
      "truncated' \<longleftrightarrow> m < Suc position + length bs" "length source' \<le> budget" "source' = source"
      using Cons.IH [OF run Cons.prems(2,3) om' lt] lt by (elim exE conjE) simp
    show ?thesis
      using m r stop Cons.prems(5,6)
      by (intro exI [of _ k]) (auto split: option.splits)
  next
    case take_block
    then have k: "k = position" using Cons.prems(5,6) by simp
    have run: "context_loop enc budget (Suc position) bs (source @ r) (included @ [position]) omitted truncated =
        Inr (source', included', omitted', truncated')"
      using Cons.prems(1) pos take_block by (auto simp: Let_def)
    have inc: "included @ [position] = [0..<Suc k]" using Cons.prems(3) k by simp
    have len: "length (source @ r) \<le> budget" using take_block by simp
    have om': "omitted = [Suc k..<Suc position]" using Cons.prems(4) k by simp
    have lt: "Suc k \<le> Suc position" "truncated \<longleftrightarrow> Suc k < Suc position"
      using take_block k by auto
    obtain m where m: "Suc k \<le> m" "m \<le> Suc position + length bs"
      and res: "included' = [0..<m]" "omitted' = [m..<Suc position + length bs]"
        "truncated' \<longleftrightarrow> m < Suc position + length bs" "length source' \<le> budget"
      and ren: "\<forall>i < m - Suc k. render_block enc (Suc position + i) (bs ! i) \<noteq> None"
      and src: "source' = (source @ r) @
         concat (map (\<lambda>i. the (render_block enc (Suc position + i) (bs ! i))) [0..<m - Suc k])"
      and stop: "m < Suc position + length bs \<longrightarrow>
       (case render_block enc m (bs ! (m - Suc k)) of None \<Rightarrow> True
        | Some r \<Rightarrow> budget < length source' + length r)"
      using Cons.IH [OF run len inc om' lt] k by (elim exE conjE) (simp del: upt_Suc)
    obtain j where j: "m - k = Suc j" "m - Suc k = j" using m by (cases "m - k") auto
    have up: "[0..<Suc j] = 0 # map Suc [0..<j]" by (simp add: upt_conv_Cons map_Suc_upt del: upt_Suc)
    have "source' = source @ concat (map (\<lambda>i. the (render_block enc (position + i) ((b # bs) ! i))) [0..<m - k])"
      unfolding j(1) up using src take_block j(2) by (simp add: comp_def)
    moreover have "\<forall>i < m - k. render_block enc (position + i) ((b # bs) ! i) \<noteq> None"
      using ren take_block j by (auto simp: less_Suc_eq_0_disj)
    ultimately show ?thesis
      using m res stop k j by (intro exI [of _ m]) auto
  qed
qed

text \<open>The rendered blocks of a document, in order.\<close>

definition rendered_blocks :: "(string \<Rightarrow> string) \<Rightarrow> document \<Rightarrow> nat \<Rightarrow> string list" where
  "rendered_blocks enc d m = map (\<lambda>i. the (render_block enc i (doc_blocks d ! i))) [0..<m]"

lemma prepare_context_shape:
  assumes "prepare_context enc d budget = Inr pc"
  obtains m where "m \<le> length (doc_blocks d)" "pc_included pc = [0..<m]"
    "pc_omitted pc = [m..<length (doc_blocks d)]" "pc_truncated pc \<longleftrightarrow> m < length (doc_blocks d)"
    "\<forall>i < m. render_block enc i (doc_blocks d ! i) \<noteq> None"
    "pc_source pc = context_header enc d @ concat (rendered_blocks enc d m)"
    "length (pc_source pc) \<le> budget" "pc_budget pc = budget"
    "m < length (doc_blocks d) \<longrightarrow>
       (case render_block enc m (doc_blocks d ! m) of None \<Rightarrow> True
        | Some r \<Rightarrow> budget < length (pc_source pc) + length r)"
proof -
  from assms obtain source included omitted truncated where
    run: "context_loop enc budget 0 (doc_blocks d) (context_header enc d) [] [] False =
        Inr (source, included, omitted, truncated)"
    and pc: "pc = \<lparr>pc_source = source, pc_included = included, pc_omitted = omitted,
               pc_budget = budget, pc_truncated = truncated\<rparr>"
    and len: "length (context_header enc d) \<le> budget"
    by (auto simp: prepare_context_def Let_def split: if_splits sum.splits)
  obtain m where m: "m \<le> length (doc_blocks d)" "included = [0..<m]" "omitted = [m..<length (doc_blocks d)]"
    "truncated \<longleftrightarrow> m < length (doc_blocks d)" "length source \<le> budget"
    "\<forall>i < m. render_block enc i (doc_blocks d ! i) \<noteq> None"
    "source = context_header enc d @ concat (rendered_blocks enc d m)"
    "m < length (doc_blocks d) \<longrightarrow>
       (case render_block enc m (doc_blocks d ! m) of None \<Rightarrow> True
        | Some r \<Rightarrow> budget < length source + length r)"
    using context_loop_prefix [OF run len, where k = 0] by (auto simp: rendered_blocks_def)
  show thesis
    by (rule that [of m]) (use m in \<open>simp_all only: pc prepared_context.select_convs\<close>)
qed

text \<open>
  C26: a prepared context is the longest prefix of the document that fits. The included blocks are
  a prefix and the omitted ones the rest, nothing is lost or repeated, the source is the header
  followed by the included blocks, it respects the character budget, and the first omitted block
  is one that cannot be rendered or that would have overrun the budget.
\<close>

theorem prepare_context_longest_prefix:
  assumes "prepare_context enc d budget = Inr pc"
  shows "\<exists>m \<le> length (doc_blocks d).
    pc_included pc = [0..<m] \<and> pc_omitted pc = [m..<length (doc_blocks d)] \<and>
    pc_truncated pc = (m < length (doc_blocks d)) \<and>
    pc_source pc = context_header enc d @ concat (rendered_blocks enc d m) \<and>
    length (pc_source pc) \<le> budget \<and>
    (m < length (doc_blocks d) \<longrightarrow>
       (case render_block enc m (doc_blocks d ! m) of None \<Rightarrow> True
        | Some r \<Rightarrow> budget < length (pc_source pc) + length r))"
  by (rule prepare_context_shape [OF assms]) blast

section \<open>Lines of the source\<close>

lemma raw_lines_Nil [simp]: "raw_lines [] = []"
  by (simp add: raw_lines.simps)

lemma raw_lines_cons: "newline \<notin> set l \<Longrightarrow> raw_lines (l @ newline # rest) = l # raw_lines rest"
proof -
  assume n: "newline \<notin> set l"
  have "takeWhile (\<lambda>c. c \<noteq> newline) (l @ newline # rest) = l"
    using n by (subst takeWhile_append2) auto
  moreover have "dropWhile (\<lambda>c. c \<noteq> newline) (l @ newline # rest) = newline # rest"
    using n by (subst dropWhile_append2) auto
  ultimately show ?thesis by (subst raw_lines.simps) simp
qed

lemma raw_lines_concat:
  "\<forall>l \<in> set ls. newline \<notin> set l \<Longrightarrow> raw_lines (concat (map (\<lambda>l. l @ [newline]) ls)) = ls"
  by (induction ls) (simp_all add: raw_lines_cons)

lemma decimal_digit_is_digit: "d < 10 \<Longrightarrow> is_digit (decimal_digit d)"
  by (simp add: is_digit_def decimal_digit_def)

lemma decimal_digits: "list_all is_digit (decimal n)"
proof (induction n rule: less_induct)
  case (less n)
  then show ?case by (subst decimal.simps) (simp add: decimal_digit_is_digit)
qed

lemma decimal_nonempty: "decimal n \<noteq> []"
  by (subst decimal.simps) simp

lemma digits_value_snoc: "digits_value (s @ [c]) = 10 * digits_value s + (of_char c - 48)"
  by (simp add: digits_value_def)

lemma digits_value_decimal: "digits_value (decimal n) = n"
proof (induction n rule: less_induct)
  case (less n)
  show ?case
  proof (cases "n < 10")
    case True
    then show ?thesis by (subst decimal.simps) (simp add: digits_value_def decimal_digit_def)
  next
    case False
    then show ?thesis using less [of "n div 10"]
      by (subst decimal.simps) (simp add: digits_value_snoc decimal_digit_def)
  qed
qed

lemma digit_not: "is_digit c \<Longrightarrow> c \<noteq> CHR '' '' \<and> c \<noteq> newline \<and> c \<noteq> CHR ''+'' \<and> c \<noteq> CHR 0x0D"
  by (auto simp: is_digit_def newline_def)

lemma decimal_not: "c \<in> set (decimal n) \<Longrightarrow> c \<noteq> CHR '' '' \<and> c \<noteq> newline \<and> c \<noteq> CHR ''+'' \<and> c \<noteq> CHR 0x0D"
  using decimal_digits digit_not by (metis list_all_iff)

lemma parse_u32_decimal: "n < 2 ^ 32 \<Longrightarrow> parse_u32 (decimal n) = Some n"
  using decimal_nonempty [of n] decimal_not [of "hd (decimal n)" n] decimal_digits [of n]
  by (auto simp: parse_u32_def Let_def digits_value_decimal)

definition block_line :: "(string \<Rightarrow> string) \<Rightarrow> nat \<Rightarrow> document_block \<Rightarrow> string" where
  "block_line enc i block =
     (case block of
        Heading level t \<Rightarrow> ''block '' @ decimal i @ '' heading '' @ decimal level @ '': '' @ enc t
      | Paragraph t \<Rightarrow> ''block '' @ decimal i @ '' paragraph: '' @ enc t
      | OtherBlock \<Rightarrow> [])"

text \<open>What the lines rely on: an encoded JSON string holds no raw control character.\<close>

definition one_line :: "(string \<Rightarrow> string) \<Rightarrow> bool" where
  "one_line enc = (\<forall>s. newline \<notin> set (enc s) \<and> CHR 0x0D \<notin> set (enc s))"

lemma render_block_line:
  "render_block enc i b \<noteq> None \<Longrightarrow> the (render_block enc i b) = block_line enc i b @ [newline]"
  by (auto simp: render_block_def block_line_def split: document_block.splits)

lemma block_line_one_line:
  assumes "one_line enc"
  shows "newline \<notin> set (block_line enc i b) \<and> CHR 0x0D \<notin> set (block_line enc i b)"
  using assms decimal_not
  by (fastforce simp: block_line_def one_line_def newline_def split: document_block.splits)

lemma encode_optional_one_line:
  "one_line enc \<Longrightarrow> newline \<notin> set (encode_optional enc s) \<and> CHR 0x0D \<notin> set (encode_optional enc s)"
  by (auto simp: encode_optional_def one_line_def newline_def split: option.splits)

lemma source_raw_lines:
  assumes "one_line enc" and "\<forall>i < m. render_block enc i (doc_blocks d ! i) \<noteq> None"
  shows "text_lines (context_header enc d @ concat (rendered_blocks enc d m)) =
    (''title: '' @ encode_optional enc (doc_title d)) #
    (''language: '' @ encode_optional enc (doc_language d)) #
    map (\<lambda>i. block_line enc i (doc_blocks d ! i)) [0..<m]"
proof -
  let ?ls = "(''title: '' @ encode_optional enc (doc_title d)) #
    (''language: '' @ encode_optional enc (doc_language d)) #
    map (\<lambda>i. block_line enc i (doc_blocks d ! i)) [0..<m]"
  have clean: "newline \<notin> set l \<and> CHR 0x0D \<notin> set l" if "l \<in> set ?ls" for l
    using that encode_optional_one_line [OF assms(1)] block_line_one_line [OF assms(1)]
    by (auto simp: newline_def)
  have "rendered_blocks enc d m = map (\<lambda>i. block_line enc i (doc_blocks d ! i) @ [newline]) [0..<m]"
    using assms(2) by (auto simp: rendered_blocks_def render_block_line)
  then have "context_header enc d @ concat (rendered_blocks enc d m) = concat (map (\<lambda>l. l @ [newline]) ?ls)"
    by (simp add: context_header_def comp_def)
  then have "raw_lines (context_header enc d @ concat (rendered_blocks enc d m)) = ?ls"
    using raw_lines_concat [of ?ls] clean by simp
  moreover have "strip_cr l = l" if "l \<in> set ?ls" for l
    using clean [OF that] last_in_set by (fastforce simp: strip_cr_def)
  ultimately show ?thesis unfolding text_lines_def by (simp only: map_idI)
qed

text \<open>
  Source text cannot forge structure. Whatever the document says, the lines of the prepared
  source are the two header lines followed by exactly one line per included block, each carrying
  the index of its own block; no title, heading or paragraph can start a line of its own.
\<close>

theorem prepared_source_lines:
  assumes "prepare_context enc d budget = Inr pc" and "one_line enc"
  shows "text_lines (pc_source pc) =
    (''title: '' @ encode_optional enc (doc_title d)) #
    (''language: '' @ encode_optional enc (doc_language d)) #
    map (\<lambda>i. block_line enc i (doc_blocks d ! i)) (pc_included pc)"
  by (rule prepare_context_shape [OF assms(1)]) (simp add: source_raw_lines [OF assms(2)])

text \<open>An encoder with the documented behaviour, for the witnesses.\<close>

fun escape :: "string \<Rightarrow> string" where
  "escape [] = []"
| "escape (c # s) =
     (if c = CHR 0x0A then CHR 0x5C # CHR ''n'' # escape s
      else if c = CHR 0x0D then CHR 0x5C # CHR ''r'' # escape s
      else if c = CHR 0x5C then CHR 0x5C # CHR 0x5C # escape s
      else c # escape s)"

fun unescape :: "string \<Rightarrow> string" where
  "unescape [] = []"
| "unescape [c] = [c]"
| "unescape (c # d # s) =
     (if c = CHR 0x5C
      then (if d = CHR ''n'' then CHR 0x0A else if d = CHR ''r'' then CHR 0x0D else d) # unescape s
      else c # unescape (d # s))"

lemma unescape_escape: "unescape (escape s) = s"
proof (induction s)
  case (Cons c s)
  have plain: "unescape (x # t) = x # unescape t" if "x \<noteq> CHR 0x5C" for x t
    using that by (cases t) auto
  show ?case using Cons by (auto simp: plain)
qed simp

lemma one_line_escape: "one_line escape"
proof -
  have "newline \<notin> set (escape s) \<and> CHR 0x0D \<notin> set (escape s)" for s
    by (induction s) (auto simp: newline_def)
  then show ?thesis by (simp add: one_line_def)
qed

definition sample_document :: document where
  "sample_document = \<lparr>doc_id = 1, doc_digest_hex = ''d'', doc_title = None, doc_language = None,
     doc_blocks = [Heading 1 ''h'', Paragraph (''x'' @ [newline] @ ''block 9 paragraph: y''), OtherBlock]\<rparr>"

definition sample_source :: string where
  "sample_source = context_header escape sample_document @ concat (rendered_blocks escape sample_document 2)"

definition sample_context :: prepared_context where
  "sample_context = \<lparr>pc_source = sample_source, pc_included = [0, 1], pc_omitted = [2], pc_budget = 200,
     pc_truncated = True\<rparr>"

lemma prepare_sample: "prepare_context escape sample_document 200 = Inr sample_context"
  by (simp add: prepare_context_def sample_document_def context_header_def encode_optional_def
      newline_def render_block_def decimal.simps decimal_digit_def sample_context_def sample_source_def
      rendered_blocks_def upt_rec Let_def)

theorem prepare_context_longest_prefix_witness:
  "\<exists>m \<le> 3. pc_included sample_context = [0..<m] \<and> pc_omitted sample_context = [m..<3]"
proof -
  have len: "length (doc_blocks sample_document) = 3" by (simp add: sample_document_def)
  show ?thesis using prepare_context_longest_prefix [OF prepare_sample] unfolding len by blast
qed

theorem prepared_source_lines_witness:
  "length (text_lines (pc_source sample_context)) = 4"
  using prepared_source_lines [OF prepare_sample one_line_escape] by (simp add: sample_context_def)

section \<open>Citations\<close>

lemma citations_loop_ok:
  "citations_loop included seen xs = Inr () \<longleftrightarrow>
     distinct xs \<and> set xs \<subseteq> set included \<and> set xs \<inter> set seen = {}"
  by (induction xs arbitrary: seen) auto

lemma validate_points_ok:
  "validate_points included ps = Inr () \<longleftrightarrow>
     (\<forall>p \<in> set ps. distinct (kp_indexes p) \<and> set (kp_indexes p) \<subseteq> set included)"
proof (induction ps)
  case (Cons p ps)
  then show ?case using citations_loop_ok [of included "[]" "kp_indexes p"]
    by (cases "citations_loop included [] (kp_indexes p)") auto
qed simp

text \<open>
  Citations are accepted exactly when every key point cites distinct blocks that were in the
  provider's context.
\<close>

theorem validate_article_citations_iff:
  "validate_article_citations article context = Inr () \<longleftrightarrow>
     list_all (\<lambda>p. distinct (kp_indexes p) \<and> set (kp_indexes p) \<subseteq> set (pc_included context))
       (aa_key_points article)"
  by (simp add: validate_article_citations_def validate_points_ok list_all_iff)

section \<open>The offline provider answers validly\<close>

lemma strip_prefix_append: "strip_prefix p (p @ s) = Some s"
  by (simp add: strip_prefix_def)

lemma split_once_space_append:
  "CHR '' '' \<notin> set k \<Longrightarrow> split_once_space (k @ CHR '' '' # s) = Some (k, s)"
proof -
  assume k: "CHR '' '' \<notin> set k"
  have "takeWhile (\<lambda>c. c \<noteq> CHR '' '') (k @ CHR '' '' # s) = k"
    using k by (subst takeWhile_append2) auto
  moreover have "dropWhile (\<lambda>c. c \<noteq> CHR '' '') (k @ CHR '' '' # s) = CHR '' '' # s"
    using k by (subst dropWhile_append2) auto
  ultimately show ?thesis by (simp add: split_once_space_def)
qed

definition own_paragraph :: "document_block \<Rightarrow> nat \<Rightarrow> (nat \<times> string) option" where
  "own_paragraph block i =
     (case block of Paragraph t \<Rightarrow> (if trim t \<noteq> [] then Some (i, t) else None) | _ \<Rightarrow> None)"

lemma own_paragraph_SomeD:
  "own_paragraph block i = Some (j, t) \<Longrightarrow> j = i \<and> block = Paragraph t \<and> trim t \<noteq> []"
  by (cases block) (auto simp: own_paragraph_def split: if_splits)

lemma paragraph_line_block:
  assumes "i < 2 ^ 32" and "\<And>t. dec (enc t) = Some t" and "block \<noteq> OtherBlock"
  shows "paragraph_line dec (block_line enc i block) = own_paragraph block i"
proof -
  have index: "CHR '' '' \<notin> set (decimal i)" using decimal_not by blast
  have split: "Option.bind (strip_prefix ''block '' (''block '' @ decimal i @ CHR '' '' # rest)) split_once_space =
      Some (decimal i, rest)" for rest
    using strip_prefix_append [of "''block ''"] split_once_space_append [OF index] by simp
  show ?thesis
  proof (cases block)
    case (Heading level t)
    have "strip_prefix ''paragraph: '' (''heading '' @ r) = None" for r by (simp add: strip_prefix_def)
    then show ?thesis
      using Heading split [of "''heading '' @ decimal level @ '': '' @ enc t"]
      by (simp add: paragraph_line_def block_line_def own_paragraph_def
          split_once_space_append [OF index] strip_prefix_def)
  next
    case (Paragraph t)
    have "strip_prefix ''paragraph: '' (''paragraph: '' @ enc t) = Some (enc t)"
      by (rule strip_prefix_append)
    then show ?thesis
      using Paragraph split [of "''paragraph: '' @ enc t"] assms(2) [of t] parse_u32_decimal [OF assms(1)]
      by (simp add: paragraph_line_def block_line_def own_paragraph_def
          split_once_space_append [OF index] strip_prefix_def)
  qed (use assms(3) in simp)
qed

lemma find_map_cong:
  "map f xs = map g ys \<Longrightarrow> find_map f xs = find_map g ys"
proof (induction xs arbitrary: ys)
  case (Cons x xs)
  then show ?case by (cases ys) (auto split: option.splits)
qed simp

lemma find_map_SomeD: "find_map f xs = Some y \<Longrightarrow> \<exists>x \<in> set xs. f x = Some y"
  by (induction xs) (auto split: option.splits)

lemma context_loop_positions:
  "context_loop enc budget position blocks source included omitted truncated = Inr r \<Longrightarrow>
     blocks \<noteq> [] \<Longrightarrow> position + length blocks \<le> 2 ^ 32"
proof (induction blocks arbitrary: position source included omitted truncated)
  case (Cons b bs)
  have pos: "position < 2 ^ 32" using Cons.prems(1) by (auto split: if_splits)
  have "\<exists>s i om t. context_loop enc budget (position + 1) bs s i om t = Inr r"
    using Cons.prems(1) pos by (auto simp: Let_def split: option.splits if_splits)
  then obtain s i om t where run: "context_loop enc budget (position + 1) bs s i om t = Inr r" by blast
  show ?case
  proof (cases "bs = []")
    case False
    then show ?thesis using Cons.IH [OF run] by simp
  qed (use pos in simp)
qed simp

lemma prepare_context_positions:
  "prepare_context enc d budget = Inr pc \<Longrightarrow> length (doc_blocks d) \<le> 2 ^ 32"
  using context_loop_positions [of enc budget 0 "doc_blocks d"]
  by (cases "doc_blocks d = []") (fastforce simp: prepare_context_def Let_def split: if_splits sum.splits)+

lemma first_paragraph_of_context:
  assumes "prepare_context enc d budget = Inr pc" and "one_line enc" and "\<And>t. dec (enc t) = Some t"
  shows "first_paragraph dec (pc_source pc) =
    find_map (\<lambda>i. own_paragraph (doc_blocks d ! i) i) (pc_included pc)"
proof (rule prepare_context_shape [OF assms(1)])
  fix m
  assume m: "m \<le> length (doc_blocks d)" "pc_included pc = [0..<m]"
    and ren: "\<forall>i < m. render_block enc i (doc_blocks d ! i) \<noteq> None"
    and src: "pc_source pc = context_header enc d @ concat (rendered_blocks enc d m)"
  have no: "paragraph_line dec (''title: '' @ r) = None" "paragraph_line dec (''language: '' @ r) = None" for r
    by (simp_all add: paragraph_line_def strip_prefix_def)
  have "first_paragraph dec (pc_source pc) =
      find_map (paragraph_line dec) (map (\<lambda>i. block_line enc i (doc_blocks d ! i)) [0..<m])"
    using source_raw_lines [OF assms(2) ren] no by (simp add: first_paragraph_def src)
  also have "\<dots> = find_map (\<lambda>i. own_paragraph (doc_blocks d ! i) i) [0..<m]"
  proof (rule find_map_cong, simp, intro ballI)
    fix i assume "i \<in> {0..<m}"
    then have "i < 2 ^ 32" "doc_blocks d ! i \<noteq> OtherBlock"
      using m prepare_context_positions [OF assms(1)] ren by (auto simp: render_block_def)
    then show "paragraph_line dec (block_line enc i (doc_blocks d ! i)) = own_paragraph (doc_blocks d ! i) i"
      using paragraph_line_block assms(3) by blast
  qed
  finally show ?thesis using m by simp
qed

lemma dropWhile_all_iff: "dropWhile P s = [] \<longleftrightarrow> (\<forall>c \<in> set s. P c)"
  by (induction s) auto

lemma trim_nonempty: "trim t \<noteq> [] \<Longrightarrow> t \<noteq> []"
  by (auto simp: trim_def)

lemma validate_extracted:
  assumes "trim t \<noteq> []" and "index < 2 ^ 32"
  shows "validate_article_json (extracted_article index t) =
    Inr \<lparr>aa_summary = take 2000 t, aa_key_points = [\<lparr>kp_text = take 500 t, kp_indexes = [index]\<rparr>]\<rparr>"
proof -
  have "1 \<le> length t" using trim_nonempty [OF assms(1)] by (cases t) auto
  then have "article_schema (extracted_article index t)"
    by (simp add: article_schema_def exact_object_def extracted_article_def key_point_schema_def)
  then show ?thesis using assms(2)
    by (simp add: validate_article_json_def decode_article_def decode_key_point_def extracted_article_def)
qed

lemma extract_answer_paragraph:
  assumes "prepare_context enc d budget = Inr pc" and "one_line enc" and "\<And>t. dec (enc t) = Some t"
    and found: "find_map (\<lambda>i. own_paragraph (doc_blocks d ! i) i) (pc_included pc) = Some (i, t)"
  shows "i \<in> set (pc_included pc) \<and> doc_blocks d ! i = Paragraph t \<and>
    (\<exists>r article. extract_answer encode dec (build_generation_request texts pc) = Inr r \<and>
       resp_bytes r = encode (extracted_article i t) \<and>
       validate_article_json (extracted_article i t) = Inr article \<and>
       validate_article_citations article pc = Inr ())"
proof -
  from find_map_SomeD [OF found]
  have it: "i \<in> set (pc_included pc)" "doc_blocks d ! i = Paragraph t" "trim t \<noteq> []"
    by (auto dest: own_paragraph_SomeD)
  have "i < 2 ^ 32"
    using it(1) prepare_context_positions [OF assms(1)] by (auto intro: prepare_context_shape [OF assms(1)])
  from validate_extracted [OF it(3) this] show ?thesis
    using found it first_paragraph_of_context [OF assms(1-3)]
    by (simp add: extract_answer_def build_generation_request_def validate_article_citations_def)
qed

lemma extract_answer_usage:
  "extract_answer encode dec request = Inr r \<Longrightarrow>
     resp_usage r = \<lparr>input_tokens = of_nat (length (source_content request) div 4), output_tokens = 16\<rparr>"
  by (auto simp: extract_answer_def split: if_splits option.splits)

text \<open>
  The offline provider never invents. Asked about a prepared article context it answers with
  the first included non-blank paragraph, and that answer passes both validations against the same
  context; when there is no such paragraph, or the prompt is another family's, it fails permanently.
\<close>

theorem extract_answers_validly:
  assumes "prepare_context enc d budget = Inr pc" and "one_line enc" and "\<And>t. dec (enc t) = Some t"
  shows "case find_map (\<lambda>i. own_paragraph (doc_blocks d ! i) i) (pc_included pc) of
      None \<Rightarrow> extract_answer encode dec (build_generation_request texts pc) = Inl (unclassified Permanent)
    | Some (i, t) \<Rightarrow>
        i \<in> set (pc_included pc) \<and> doc_blocks d ! i = Paragraph t \<and>
        (\<exists>r article. extract_answer encode dec (build_generation_request texts pc) = Inr r \<and>
           resp_bytes r = encode (extracted_article i t) \<and>
           validate_article_json (extracted_article i t) = Inr article \<and>
           validate_article_citations article pc = Inr ())"
proof (cases "find_map (\<lambda>i. own_paragraph (doc_blocks d ! i) i) (pc_included pc)")
  case None
  then show ?thesis
    using first_paragraph_of_context [OF assms]
    by (simp add: extract_answer_def build_generation_request_def)
next
  case (Some r)
  then obtain i t where r: "r = (i, t)" by (cases r)
  show ?thesis using extract_answer_paragraph [OF assms, of i t] Some r by simp
qed

theorem extract_answers_validly_witness:
  "\<exists>r. extract_answer (\<lambda>_. []) (\<lambda>s. Some (unescape s))
     (build_generation_request \<lparr>pt_system = [], pt_task = [], pt_schema = JNull\<rparr> sample_context) = Inr r"
proof -
  have find: "find_map (\<lambda>i. own_paragraph (doc_blocks sample_document ! i) i) (pc_included sample_context) =
      Some (1, ''x'' @ [newline] @ ''block 9 paragraph: y'')"
    by (simp add: sample_document_def sample_context_def own_paragraph_def trim_def is_whitespace_def)
  show ?thesis
    using extract_answers_validly [OF prepare_sample one_line_escape, of "\<lambda>s. Some (unescape s)" "\<lambda>_. []"
        "\<lparr>pt_system = [], pt_task = [], pt_schema = JNull\<rparr>"]
    unfolding find by (auto simp: unescape_escape)
qed

section \<open>The bound on indexed text\<close>

lemma cut_at_boundary_spec:
  "cut_at_boundary s limit = (p, rest) \<Longrightarrow>
     \<exists>q. s = p @ q \<and> byte_length p + rest = limit \<and> (q \<noteq> [] \<longrightarrow> rest < utf8_len (hd q))"
proof (induction s arbitrary: limit p)
  case (Cons c s)
  show ?case
  proof (cases "utf8_len c \<le> limit")
    case True
    then obtain p' where rec: "cut_at_boundary s (limit - utf8_len c) = (p', rest)" and p: "p = c # p'"
      using Cons.prems by (auto split: prod.splits)
    from Cons.IH [OF rec] show ?thesis using True p by (auto simp: byte_length_def)
  next
    case False
    then show ?thesis using Cons.prems by (auto simp: byte_length_def)
  qed
qed (auto simp: byte_length_def)

lemma utf8_len_bounds: "1 \<le> utf8_len c" "utf8_len c \<le> 2"
  by (simp_all add: utf8_len_def)

text \<open>
  The indexed text never exceeds its bound, and cuts in order: the stored title, lead and body
  are prefixes of the extracted ones, the three together hold at most 300000 bytes, and a later
  field is only cut short when fewer bytes than one more character were left for it.
\<close>

theorem bounded_text_within_bound:
  "let b = bounded_text t;
       used = byte_length (st_title b) + byte_length (st_lead b) + byte_length (st_body b) in
     used \<le> search_text_max_bytes \<and>
     (\<exists>q1 q2 q3. st_title t = st_title b @ q1 \<and> st_lead t = st_lead b @ q2 \<and> st_body t = st_body b @ q3 \<and>
        (q1 = [] \<or> search_text_max_bytes < byte_length (st_title b) + utf8_len (hd q1)) \<and>
        (q2 = [] \<or> search_text_max_bytes < byte_length (st_title b) + byte_length (st_lead b) + utf8_len (hd q2)) \<and>
        (q3 = [] \<or> search_text_max_bytes < used + utf8_len (hd q3)))"
proof -
  obtain p1 r1 where c1: "cut_at_boundary (st_title t) search_text_max_bytes = (p1, r1)" by fastforce
  obtain p2 r2 where c2: "cut_at_boundary (st_lead t) r1 = (p2, r2)" by fastforce
  obtain p3 r3 where c3: "cut_at_boundary (st_body t) r2 = (p3, r3)" by fastforce
  have b: "bounded_text t = \<lparr>st_title = p1, st_lead = p2, st_body = p3\<rparr>"
    by (simp add: bounded_text_def c1 c2 c3)
  from cut_at_boundary_spec [OF c1] cut_at_boundary_spec [OF c2] cut_at_boundary_spec [OF c3]
  show ?thesis unfolding b Let_def by auto
qed

section \<open>The extracted text\<close>

text \<open>The reference: the headings and the paragraphs of a document, in order.\<close>

fun heading_texts :: "document_block list \<Rightarrow> string list" where
  "heading_texts [] = []"
| "heading_texts (Heading _ t # bs) = t # heading_texts bs"
| "heading_texts (_ # bs) = heading_texts bs"

fun paragraph_texts :: "document_block list \<Rightarrow> string list" where
  "paragraph_texts [] = []"
| "paragraph_texts (Paragraph t # bs) = t # paragraph_texts bs"
| "paragraph_texts (_ # bs) = paragraph_texts bs"

fun body_texts :: "bool \<Rightarrow> bool \<Rightarrow> document_block list \<Rightarrow> string list" where
  "body_texts seen_heading seen_paragraph [] = []"
| "body_texts seen_heading seen_paragraph (Heading _ t # bs) =
     (if seen_heading then [t] else []) @ body_texts True seen_paragraph bs"
| "body_texts seen_heading seen_paragraph (Paragraph t # bs) =
     (if seen_paragraph then [t] else []) @ body_texts seen_heading True bs"
| "body_texts seen_heading seen_paragraph (OtherBlock # bs) = body_texts seen_heading seen_paragraph bs"

lemma extract_loop_reference:
  "extract_loop bs title lead parts seen =
     \<lparr>st_title = (if \<not> seen \<and> title = [] \<and> heading_texts bs \<noteq> [] then hd (heading_texts bs) else title),
      st_lead = (case lead of Some l \<Rightarrow> l
                 | None \<Rightarrow> (if paragraph_texts bs = [] then [] else hd (paragraph_texts bs))),
      st_body = join_pieces (parts @ body_texts seen (lead \<noteq> None) bs)\<rparr>"
  by (induction bs title lead parts seen rule: extract_loop.induct)
    (auto split: document_block.splits option.splits)

text \<open>
  The searchable text against its reference: the title is the document's or else its first
  heading, the lead its first paragraph, and the body every later heading and paragraph in document
  order, so the first heading is never counted twice.
\<close>

theorem extract_search_text_reference:
  "extract_search_text d =
     (let title = (case doc_title d of None \<Rightarrow> [] | Some t \<Rightarrow> t);
          hs = heading_texts (doc_blocks d); ps = paragraph_texts (doc_blocks d) in
      \<lparr>st_title = (if title = [] \<and> hs \<noteq> [] then hd hs else title),
       st_lead = (if ps = [] then [] else hd ps),
       st_body = join_pieces (body_texts False False (doc_blocks d))\<rparr>)"
  by (simp add: extract_search_text_def extract_loop_reference Let_def)

end
