(* ===== verification/Runs.thy ===== *)
theory Runs
  imports Blob_Store Context
begin

text \<open>
  Source revisions, analysis runs and provider attempts (\<open>runs.rs\<close>, \<open>run_lock.rs\<close>): identities that
  are created once, the legal transitions of a run, the append-only attempt history with its budget
  of spent calls, and the lock that keeps one executor on a run.
\<close>

section \<open>Validation\<close>

definition is_lower :: "char \<Rightarrow> bool" where
  "is_lower c = (let n = of_char c :: nat in 97 \<le> n \<and> n \<le> 122)"

definition validate_version :: "string \<Rightarrow> persistence_error + unit" where
  "validate_version value =
     (if value \<noteq> [] \<and> is_lower (hd value) \<and>
         list_all (\<lambda>c. is_lower c \<or> is_digit c \<or> c = CHR ''_'' \<or> c = CHR ''-'') (tl value) \<and>
         length value \<le> 64
      then Inr () else Inl InvalidAnalysisIdentity)"

definition validate_model :: "string \<Rightarrow> persistence_error + unit" where
  "validate_model value =
     (if value \<noteq> [] \<and> length value \<le> 128 \<and>
         list_all (\<lambda>c. 33 \<le> (of_char c :: nat) \<and> (of_char c :: nat) \<le> 126) value
      then Inr () else Inl InvalidAnalysisIdentity)"

text \<open>\<open>i64::try_from\<close> of a token count.\<close>

definition i64_of :: "64 word \<Rightarrow> persistence_error + nat" where
  "i64_of n = (if unat n < 2 ^ 63 then Inr (unat n) else Inl ValueOverflow)"

section \<open>Transitions\<close>

fun legal_transition :: "run_state \<Rightarrow> run_state \<Rightarrow> bool" where
  "legal_transition Queued next = (next \<in> {ContextPrepared, Failed})"
| "legal_transition ContextPrepared next = (next \<in> {ModelRequested, Failed})"
| "legal_transition Repaired next = (next \<in> {ModelRequested, Failed})"
| "legal_transition ModelRequested next = (next \<in> {ResponseReceived, Failed})"
| "legal_transition ResponseReceived next = (next \<in> {SchemaValidated, Repaired, Failed})"
| "legal_transition SchemaValidated next = (next \<in> {Persisted, Failed})"
| "legal_transition Persisted next = (next \<in> {Indexed, Completed})"
| "legal_transition _ next = False"

definition set_run_state :: "(run_row \<Rightarrow> bool) \<Rightarrow> run_state \<Rightarrow> db \<Rightarrow> db" where
  "set_run_state p next t =
     t\<lparr>analysis_runs := update_where p (\<lambda>r. r\<lparr>ar_state := next\<rparr>) (analysis_runs t)\<rparr>"

definition run_in :: "uuid \<Rightarrow> run_state \<Rightarrow> run_row \<Rightarrow> bool" where
  "run_in run expected = (\<lambda>r. ar_id r = run \<and> ar_state r = expected)"

definition transition_run ::
  "uuid \<Rightarrow> run_state \<Rightarrow> run_state \<Rightarrow> (world, persistence_error, bool) exec" where
  "transition_run run expected next =
     (if \<not> legal_transition expected next then exec_return False
      else exec_bind (affect Query (\<lambda>t. count_where (run_in run expected) (analysis_runs t))
             (set_run_state (run_in run expected) next))
        (\<lambda>affected. exec_return (affected = 1)))"

definition reopen_failed_run :: "uuid \<Rightarrow> (world, persistence_error, bool) exec" where
  "reopen_failed_run run =
     exec_bind (affect Query (\<lambda>t. count_where (run_in run Failed) (analysis_runs t))
       (set_run_state (run_in run Failed) Queued))
     (\<lambda>affected. exec_return (affected = 1))"

section \<open>Attempts\<close>

definition attempt_at :: "uuid \<Rightarrow> nat \<Rightarrow> attempt_row \<Rightarrow> bool" where
  "attempt_at run ordinal = (\<lambda>a. at_run a = run \<and> at_ordinal a = ordinal)"

definition update_attempts :: "(attempt_row \<Rightarrow> bool) \<Rightarrow> (attempt_row \<Rightarrow> attempt_row) \<Rightarrow> db \<Rightarrow> db" where
  "update_attempts p f t = t\<lparr>analysis_attempts := update_where p f (analysis_attempts t)\<rparr>"

definition update_one_attempt ::
  "uuid \<Rightarrow> nat \<Rightarrow> (attempt_row \<Rightarrow> attempt_row) \<Rightarrow> (world, persistence_error, unit) exec" where
  "update_one_attempt run ordinal f =
     exec_bind (affect Query (\<lambda>t. count_where (attempt_at run ordinal) (analysis_attempts t))
       (update_attempts (attempt_at run ordinal) f))
     (\<lambda>affected. exec_guard (affected = 1) InvalidAnalysisIdentity)"

definition update_attempt_failure ::
  "uuid \<Rightarrow> nat \<Rightarrow> attempt_outcome \<Rightarrow> failure_class option \<Rightarrow> nat option \<Rightarrow> nat \<Rightarrow>
   (world, persistence_error, unit) exec" where
  "update_attempt_failure run ordinal outcome error_class http_status duration =
     (if outcome \<notin> {AttemptTransientFailure, AttemptPermanentFailure}
      then exec_fail InvalidAnalysisIdentity
      else update_one_attempt run ordinal (\<lambda>a. a\<lparr>at_outcome := outcome, at_class := error_class,
             at_status := http_status, at_duration := Some duration\<rparr>))"

record attempt_update =
  au_raw :: blob_ref
  au_held :: bytes
  au_request :: "string option"
  au_input :: "64 word"
  au_output :: "64 word"
  au_outcome :: attempt_outcome
  au_code :: "string option"
  au_duration :: nat

definition apply_update :: "attempt_update \<Rightarrow> nat \<Rightarrow> nat \<Rightarrow> attempt_row \<Rightarrow> attempt_row" where
  "apply_update u input output a = a\<lparr>at_request := au_request u, at_raw := Some (au_raw u),
     at_input := Some input, at_output := Some output, at_outcome := au_outcome u,
     at_code := au_code u, at_duration := Some (au_duration u)\<rparr>"

definition update_attempt ::
  "blob_store \<Rightarrow> uuid \<Rightarrow> nat \<Rightarrow> attempt_update \<Rightarrow> (world, persistence_error, unit) exec" where
  "update_attempt store run ordinal u =
     exec_bind (exec_result (i64_of (au_input u))) (\<lambda>input.
     exec_bind (exec_result (i64_of (au_output u))) (\<lambda>output.
     transact Query
      (exec_bind (lock_and_verify store (au_raw u) (Some (au_held u))) (\<lambda>_.
       update_one_attempt run ordinal (apply_update u input output)))))"

definition set_attempt_outcome ::
  "uuid \<Rightarrow> nat \<Rightarrow> attempt_outcome \<Rightarrow> string option \<Rightarrow> (world, persistence_error, unit) exec" where
  "set_attempt_outcome run ordinal outcome code =
     update_one_attempt run ordinal (\<lambda>a. a\<lparr>at_outcome := outcome, at_code := code\<rparr>)"

definition mark_requested_attempts_interrupted :: "uuid \<Rightarrow> (world, persistence_error, unit) exec" where
  "mark_requested_attempts_interrupted run =
     execute Query (update_attempts (\<lambda>a. at_run a = run \<and> at_outcome a = AttemptRequested)
       (\<lambda>a. a\<lparr>at_outcome := AttemptInterrupted\<rparr>))"

definition max_run_attempts :: nat where
  "max_run_attempts = 10"

record attempt_input =
  ai_reason :: attempt_reason
  ai_provider :: string
  ai_model :: string
  ai_policy :: string
  ai_request :: "string option"
  ai_outcome :: attempt_outcome

definition attempts_of :: "db \<Rightarrow> uuid \<Rightarrow> attempt_row list" where
  "attempts_of t run = select_where (\<lambda>a. at_run a = run) (analysis_attempts t)"

definition max_ordinal :: "attempt_row list \<Rightarrow> nat" where
  "max_ordinal as = foldr (\<lambda>a m. max (at_ordinal a) m) as 0"

definition spent_calls :: "attempt_row list \<Rightarrow> nat" where
  "spent_calls as = count_where (\<lambda>a. at_outcome a \<noteq> AttemptTransientFailure) as"

definition new_attempt :: "uuid \<Rightarrow> nat \<Rightarrow> attempt_input \<Rightarrow> attempt_row" where
  "new_attempt run ordinal input =
     \<lparr>at_run = run, at_ordinal = ordinal, at_reason = ai_reason input, at_provider = ai_provider input,
      at_policy = ai_policy input, at_model = ai_model input, at_request = ai_request input,
      at_raw = None, at_input = None, at_output = None, at_outcome = ai_outcome input, at_code = None,
      at_duration = None, at_status = None, at_class = None\<rparr>"

definition insert_attempt :: "attempt_row \<Rightarrow> db \<Rightarrow> db" where
  "insert_attempt a t = t\<lparr>analysis_attempts := analysis_attempts t @ [a]\<rparr>"

definition insert_next_attempt :: "uuid \<Rightarrow> attempt_input \<Rightarrow> nat \<times> nat \<Rightarrow> (world, persistence_error, nat) exec" where
  "insert_next_attempt run input counts =
     exec_bind (exec_guard (fst counts + 1 < 2 ^ 15) AttemptBudgetExhausted) (\<lambda>_.
     exec_bind (exec_guard (snd counts < max_run_attempts) AttemptBudgetExhausted) (\<lambda>_.
     exec_bind (execute Query (insert_attempt (new_attempt run (fst counts + 1) input))) (\<lambda>_.
     exec_return (fst counts + 1))))"

definition record_attempt_body :: "uuid \<Rightarrow> attempt_input \<Rightarrow> (world, persistence_error, nat) exec" where
  "record_attempt_body run input =
     exec_bind (query Query (\<lambda>t. exists_where (\<lambda>r. ar_id r = run) (analysis_runs t))) (\<lambda>present.
     exec_bind (exec_guard present InvalidAnalysisIdentity) (\<lambda>_.
     exec_bind (query Query (\<lambda>t. (max_ordinal (attempts_of t run), spent_calls (attempts_of t run))))
       (insert_next_attempt run input)))"

definition record_attempt :: "uuid \<Rightarrow> attempt_input \<Rightarrow> (world, persistence_error, nat) exec" where
  "record_attempt run input =
     exec_bind (exec_result (validate_version (ai_provider input))) (\<lambda>_.
     exec_bind (exec_result (validate_model (ai_model input))) (\<lambda>_.
     exec_bind (exec_result (validate_version (ai_policy input))) (\<lambda>_.
     exec_bind (exec_guard (case ai_request input of None \<Rightarrow> True | Some r \<Rightarrow> r \<noteq> [] \<and> length r \<le> 128)
       InvalidAnalysisIdentity) (\<lambda>_.
     transact Query (record_attempt_body run input)))))"

section \<open>Identities\<close>

record analysis_identity =
  an_source :: uuid
  an_contract :: string
  an_prompt :: string
  an_context :: string
  an_policy :: string

definition same_identity :: "analysis_identity \<Rightarrow> run_row \<Rightarrow> bool" where
  "same_identity i r = (ar_source r = an_source i \<and> ar_contract r = an_contract i \<and>
     ar_prompt r = an_prompt i \<and> ar_context r = an_context i \<and> ar_policy r = an_policy i)"

definition insert_run :: "uuid \<Rightarrow> instant \<Rightarrow> analysis_identity \<Rightarrow> db \<Rightarrow> persistence_error + (uuid \<times> db)" where
  "insert_run ident at i t =
     (case find_where (same_identity i) (analysis_runs t) of
        Some r \<Rightarrow> Inr (ar_id r, t)
      | None \<Rightarrow>
          if exists_where (\<lambda>s. sr_id s = an_source i) (source_refs t)
          then Inr (ident, t\<lparr>analysis_runs := analysis_runs t @
            [\<lparr>ar_id = ident, ar_source = an_source i, ar_contract = an_contract i, ar_prompt = an_prompt i,
              ar_context = an_context i, ar_policy = an_policy i, ar_state = Queued, ar_created = at,
              ar_updated = at\<rparr>]\<rparr>)
          else Inl Query)"

definition create_run :: "analysis_identity \<Rightarrow> (world, persistence_error, uuid) exec" where
  "create_run i =
     exec_bind (exec_each (\<lambda>v. exec_result (validate_version v))
       [an_contract i, an_prompt i, an_context i, an_policy i]) (\<lambda>_.
     exec_bind new_uuid (\<lambda>ident.
     exec_bind get_now (\<lambda>at.
     sql Query (insert_run ident at i))))"

record source_reference =
  sf_tenant :: string
  sf_owner :: string
  sf_archive :: string
  sf_document :: string
  sf_digest :: string
  sf_blob :: blob_ref

definition extractor_owner :: string where
  "extractor_owner = ''ratatoskr-extractor''"

text \<open>The two unique constraints: the identity key, and (tenant, digest) for the extractor.\<close>

definition source_conflict :: "source_reference \<Rightarrow> source_ref_row \<Rightarrow> bool" where
  "source_conflict s r =
     ((sr_tenant r = sf_tenant s \<and> sr_owner r = sf_owner s \<and> sr_archive r = sf_archive s \<and>
       sr_document r = sf_document s \<and> sr_digest r = sf_digest s) \<or>
      (sf_owner s = extractor_owner \<and> sr_owner r = extractor_owner \<and>
       sr_tenant r = sf_tenant s \<and> sr_digest r = sf_digest s))"

definition source_row :: "uuid \<Rightarrow> instant \<Rightarrow> source_reference \<Rightarrow> source_ref_row" where
  "source_row ident at s =
     \<lparr>sr_id = ident, sr_tenant = sf_tenant s, sr_owner = sf_owner s, sr_archive = sf_archive s,
      sr_document = sf_document s, sr_digest = sf_digest s, sr_blob = sf_blob s, sr_created = at\<rparr>"

definition source_insert :: "uuid \<Rightarrow> instant \<Rightarrow> source_reference \<Rightarrow> db \<Rightarrow> persistence_error + (uuid option \<times> db)" where
  "source_insert ident at s t =
     (if exists_where (source_conflict s) (source_refs t) then Inr (None, t)
      else Inr (Some ident, t\<lparr>source_refs := source_refs t @ [source_row ident at s]\<rparr>))"

text \<open>
  The row that is already there: rows that match, oldest first. The table is in order of insertion,
  and so of \<open>created_at, source_ref_id\<close>.
\<close>

definition existing_source :: "source_reference \<Rightarrow> db \<Rightarrow> uuid option" where
  "existing_source s t = map_option sr_id (find_where
     (\<lambda>r. sr_tenant r = sf_tenant s \<and> sr_owner r = sf_owner s \<and> sr_digest r = sf_digest s \<and>
          (sr_owner r = extractor_owner \<or>
           (sr_archive r = sf_archive s \<and> sr_document r = sf_document s))) (source_refs t))"

definition insert_source_body :: "source_reference \<Rightarrow> (world, persistence_error, uuid) exec" where
  "insert_source_body s =
     exec_bind new_uuid (\<lambda>ident.
     exec_bind get_now (\<lambda>at.
     exec_bind (sql Query (source_insert ident at s)) (\<lambda>inserted.
     case inserted of
       Some stored \<Rightarrow> exec_return stored
     | None \<Rightarrow>
         exec_bind (query Query (existing_source s)) (\<lambda>stored.
         case stored of None \<Rightarrow> exec_fail Query | Some ident \<Rightarrow> exec_return ident))))"

definition insert_source ::
  "(string \<Rightarrow> bool) \<Rightarrow> source_reference \<Rightarrow> (blob_store \<times> bytes) option \<Rightarrow>
   (world, persistence_error, uuid) exec" where
  "insert_source owner_parses s held_bytes =
     (if \<not> owner_parses (sf_owner s) \<or> sf_owner s \<noteq> br_owner (sf_blob s) then exec_fail InvalidSource
      else case held_bytes of
        None \<Rightarrow> transact Query (insert_source_body s)
      | Some (store, content) \<Rightarrow>
          transact Query
           (exec_bind (lock_and_verify store (sf_blob s) (Some content)) (\<lambda>_. insert_source_body s)))"

definition register_source ::
  "(string \<Rightarrow> bool) \<Rightarrow> source_reference \<Rightarrow> (world, persistence_error, uuid) exec" where
  "register_source owner_parses s = insert_source owner_parses s None"

definition register_snapshot_source ::
  "(string \<Rightarrow> bool) \<Rightarrow> source_reference \<Rightarrow> blob_store \<Rightarrow> bytes \<Rightarrow> (world, persistence_error, uuid) exec" where
  "register_snapshot_source owner_parses s store content = insert_source owner_parses s (Some (store, content))"

end
