(* ===== verification/Run_View.thy ===== *)
theory Run_View
  imports Runs
begin

text \<open>
  What the durable state says about one run: its state, its attempts and its accepted output, beside
  the number of provider calls and the blob root. Each
  operation of \<open>runs.rs\<close> changes this view in one way, which is stated here as a triple that holds for
  every pattern of faults, so the driver is verified over views instead of tables.
\<close>

section \<open>The view\<close>

definition state_of :: "db \<Rightarrow> uuid \<Rightarrow> run_state option" where
  "state_of t run = map_option ar_state (find_where (\<lambda>r. ar_id r = run) (analysis_runs t))"

definition accepted_of :: "db \<Rightarrow> uuid \<Rightarrow> json option" where
  "accepted_of t run =
     map_option ao_result (find_where (\<lambda>o'. ao_run o' = run \<and> ao_accepted o') (analysis_outputs t))"

text \<open>The primary key of the runs, and their foreign key to the source revisions.\<close>

definition runs_wf :: "db \<Rightarrow> bool" where
  "runs_wf t = (key_unique ar_id (analysis_runs t) \<and>
     ar_source ` set (analysis_runs t) \<subseteq> sr_id ` set (source_refs t))"

text \<open>Provider calls made so far, and the blob root.\<close>

datatype env = Env (env_calls: nat) (env_files: "string \<Rightarrow> bytes option")

type_synonym view_assertion =
  "run_state option \<Rightarrow> attempt_row list \<Rightarrow> json option \<Rightarrow> env \<Rightarrow> bool"

text \<open>
  \<open>calm\<close> says that the handler was started in a world without faults: then none can occur, and a
  failed query is not a possible error. With \<open>calm = False\<close> the same triples speak of every pattern
  of faults.
\<close>

definition holds :: "bool \<Rightarrow> uuid \<Rightarrow> view_assertion \<Rightarrow> world \<Rightarrow> bool" where
  "holds calm run P w = ((calm \<longrightarrow> no_faults w) \<and> runs_wf (tables w) \<and>
     P (state_of (tables w) run) (attempts_of (tables w) run) (accepted_of (tables w) run)
     (Env (provider_calls w) (disk w)))"

lemma holds_mono: "(\<And>s as out c. P s as out c \<Longrightarrow> Q s as out c) \<Longrightarrow> holds calm run P w \<Longrightarrow> holds calm run Q w"
  by (simp add: holds_def)

section \<open>How statements change it\<close>

lemma state_of_set_run_state [simp]:
  "state_of (set_run_state (run_in r e) next t) run =
     (if run = r \<and> state_of t r = Some e then Some next else state_of t run)"
proof -
  have "find_where (\<lambda>x. ar_id x = run) (update_where (run_in r e) (\<lambda>x. x\<lparr>ar_state := next\<rparr>) (analysis_runs t)) =
      map_option (\<lambda>x. if run_in r e x then x\<lparr>ar_state := next\<rparr> else x)
        (find_where (\<lambda>x. ar_id x = run) (analysis_runs t))"
    by (rule find_update_where) simp
  then show ?thesis
    by (cases "find_where (\<lambda>x. ar_id x = run) (analysis_runs t)")
      (auto simp: state_of_def set_run_state_def run_in_def dest: find_where_SomeD)
qed

lemma set_run_state_frame [simp]:
  "attempts_of (set_run_state p next t) run = attempts_of t run"
  "accepted_of (set_run_state p next t) run = accepted_of t run"
  by (simp_all add: attempts_of_def accepted_of_def set_run_state_def)

lemma set_run_state_wf [simp]:
  "runs_wf (set_run_state p next t) = runs_wf t"
proof -
  have "\<And>g. map ar_id (update_where p (\<lambda>r. r\<lparr>ar_state := next\<rparr>) xs) = map ar_id xs"
    "map ar_source (update_where p (\<lambda>r. r\<lparr>ar_state := next\<rparr>) xs) = map ar_source xs" for xs
    by (simp_all add: map_update_where)
  then show ?thesis
    by (simp add: runs_wf_def set_run_state_def key_unique_def flip: set_map)
qed

lemma count_run_in:
  assumes "runs_wf t"
  shows "count_where (run_in r e) (analysis_runs t) = (if state_of t r = Some e then 1 else 0)"
proof -
  have "length (filter (run_in r e) xs) = (if map_option ar_state (find_where (\<lambda>x. ar_id x = r) xs) = Some e then 1 else 0)"
    if "distinct (map ar_id xs)" for xs
    using that
  proof (induction xs)
    case (Cons x xs)
    show ?case
    proof (cases "ar_id x = r")
      case True
      then have "filter (run_in r e) xs = []"
        using Cons.prems by (auto simp: filter_empty_conv run_in_def) (metis imageI)
      then show ?thesis using True by (simp add: find_where_def run_in_def)
    next
      case False
      then show ?thesis using Cons by (simp add: find_where_def run_in_def)
    qed
  qed (simp add: find_where_def)
  then show ?thesis using assms by (simp add: count_where_def state_of_def key_unique_def runs_wf_def)
qed

lemma update_attempts_frame [simp]:
  "runs_wf (update_attempts p f t) = runs_wf t"
  "state_of (update_attempts p f t) run = state_of t run"
  "accepted_of (update_attempts p f t) run = accepted_of t run"
  by (simp_all add: update_attempts_def state_of_def accepted_of_def runs_wf_def)

lemma attempts_of_update_attempts:
  assumes "\<And>a. at_run (f a) = at_run a"
  shows "attempts_of (update_attempts p f t) run = update_where p f (attempts_of t run)"
  using assms by (simp add: attempts_of_def update_attempts_def select_update_where)

lemma attempts_of_run: "a \<in> set (attempts_of t run) \<Longrightarrow> at_run a = run"
  by (simp add: attempts_of_def table_simps)

lemma insert_attempt_frame [simp]:
  "runs_wf (insert_attempt a t) = runs_wf t"
  "state_of (insert_attempt a t) run = state_of t run"
  "accepted_of (insert_attempt a t) run = accepted_of t run"
  "attempts_of (insert_attempt a t) run = attempts_of t run @ (if at_run a = run then [a] else [])"
  by (simp_all add: insert_attempt_def state_of_def accepted_of_def attempts_of_def select_where_def
      runs_wf_def)

section \<open>Triples over views\<close>

lemma holds_tick: "holds calm run P w \<Longrightarrow> holds calm run P (tick w)"
  by (auto simp: holds_def)

lemma holds_works: "holds calm run P w \<Longrightarrow> calm \<Longrightarrow> next_fault w = Works \<and> tick w = w"
  by (simp add: holds_def)

lemma hoare_sql:
  assumes fault: "\<And>s as out c. \<not> calm \<Longrightarrow> P s as out c \<Longrightarrow> E e s as out c"
    and refused: "\<And>t c e'. runs_wf t \<Longrightarrow>
      P (state_of t run) (attempts_of t run) (accepted_of t run) c \<Longrightarrow> f t = Inl e' \<Longrightarrow>
      E e' (state_of t run) (attempts_of t run) (accepted_of t run) c"
    and effect: "\<And>t c x t'. runs_wf t \<Longrightarrow>
      P (state_of t run) (attempts_of t run) (accepted_of t run) c \<Longrightarrow> f t = Inr (x, t') \<Longrightarrow>
      runs_wf t' \<and>
      Q x (state_of t' run) (attempts_of t' run) (accepted_of t' run) c \<and>
      (\<not> calm \<longrightarrow> E e (state_of t' run) (attempts_of t' run) (accepted_of t' run) c)"
  shows "hoare (holds calm run P) (sql e f) (\<lambda>x. holds calm run (Q x)) (\<lambda>e. holds calm run (E e))"
proof -
  have "case sql e f w of (Inl e, w') \<Rightarrow> holds calm run (E e) w' | (Inr x, w') \<Rightarrow> holds calm run (Q x) w'"
    if w: "holds calm run P w" for w
  proof (cases "next_fault w = Refused")
    case True
    then have "\<not> calm" using holds_works [OF w] by auto
    then show ?thesis using True w fault by (auto simp: sql_def holds_def)
  next
    case False
    show ?thesis
    proof (cases "f (tables w)")
      case (Inl e')
      then show ?thesis using False w refused [of "tables w" "Env (provider_calls w) (disk w)" e']
        by (auto simp: sql_def holds_def)
    next
      case (Inr r)
      obtain x t where r: "r = (x, t)" by (cases r)
      show ?thesis using False Inr r w holds_works [OF w]
          effect [of "tables w" "Env (provider_calls w) (disk w)" x t]
        by (cases calm) (auto simp: sql_def holds_def)
    qed
  qed
  then show ?thesis unfolding hoare_def by blast
qed

lemma hoare_query:
  assumes "\<And>s as out c. \<not> calm \<Longrightarrow> P s as out c \<Longrightarrow> E e s as out c"
    and "\<And>t c. runs_wf t \<Longrightarrow>
      P (state_of t run) (attempts_of t run) (accepted_of t run) c \<Longrightarrow>
      Q (f t) (state_of t run) (attempts_of t run) (accepted_of t run) c"
  shows "hoare (holds calm run P) (query e f) (\<lambda>x. holds calm run (Q x)) (\<lambda>e. holds calm run (E e))"
  unfolding query_def by (rule hoare_sql) (use assms in auto)

text \<open>
  A transaction: an error of its body is reported over the view it started from, a commit whose
  acknowledgement is lost over the view it wrote.
\<close>

definition same_view ::
  "run_state option \<Rightarrow> attempt_row list \<Rightarrow> json option \<Rightarrow> env \<Rightarrow> view_assertion" where
  "same_view s0 as0 out0 c0 = (\<lambda>s as out c. s = s0 \<and> as = as0 \<and> out = out0 \<and> c = c0)"

lemma hoare_transact:
  assumes body: "\<And>s0 as0 out0 c0. P s0 as0 out0 c0 \<Longrightarrow>
      hoare (holds calm run (same_view s0 as0 out0 c0)) m
        (\<lambda>x. holds calm run (\<lambda>s as out c. Q x s as out c \<and>
          (\<not> calm \<longrightarrow> E e s0 as0 out0 c \<and> E e s as out c)))
        (\<lambda>e'. holds calm run (\<lambda>_ _ _ c. E e' s0 as0 out0 c))"
    and fault: "\<And>s as out c. \<not> calm \<Longrightarrow> P s as out c \<Longrightarrow> E e s as out c"
  shows "hoare (holds calm run P) (transact e m) (\<lambda>x. holds calm run (Q x)) (\<lambda>e. holds calm run (E e))"
proof -
  have "case transact e m w of (Inl e, w') \<Rightarrow> holds calm run (E e) w' | (Inr x, w') \<Rightarrow> holds calm run (Q x) w'"
    if w: "holds calm run P w" for w
  proof (cases "next_fault w = Works")
    case False
    then have "\<not> calm" using holds_works [OF w] by auto
    then show ?thesis using False w fault by (auto simp: transact_def holds_def)
  next
    case True
    obtain r w' where m: "m (tick w) = (r, w')" by fastforce
    have p: "P (state_of (tables w) run) (attempts_of (tables w) run) (accepted_of (tables w) run)
        (Env (provider_calls w) (disk w))" using w by (simp add: holds_def)
    have t: "holds calm run (same_view (state_of (tables w) run) (attempts_of (tables w) run)
        (accepted_of (tables w) run) (Env (provider_calls w) (disk w))) (tick w)"
      using w by (auto simp: holds_def same_view_def)
    show ?thesis
    proof (cases r)
      case (Inl e')
      then show ?thesis using True m w hoareD(2) [OF body [OF p] t, of e' w']
        by (auto simp: transact_def holds_def)
    next
      case (Inr x)
      note q = hoareD(1) [OF body [OF p] t, of x w']
      have ok: "holds calm run (Q x) (tick w')" using q m Inr by (auto simp: holds_def)
      have old: "holds calm run (E e) ((tick w')\<lparr>tables := tables w\<rparr>)" if "\<not> calm"
        using w q m Inr that by (auto simp: holds_def)
      have new: "holds calm run (E e) (tick w')" if "\<not> calm"
        using q m Inr that by (auto simp: holds_def)
      have "calm \<Longrightarrow> next_fault w' = Works" using q m Inr by (auto simp: holds_def)
      then show ?thesis
        using True m Inr ok old new by (cases calm) (auto simp: transact_def)
    qed
  qed
  then show ?thesis unfolding hoare_def by blast
qed

section \<open>The operations of runs.rs\<close>

lemma hoare_affect_runs:
  assumes "\<And>s as out c. \<not> calm \<Longrightarrow> P s as out c \<Longrightarrow> E Query s as out c"
    and "\<And>as out c. P (Some a) as out c \<Longrightarrow>
      Q True (Some b) as out c \<and> (\<not> calm \<longrightarrow> E Query (Some b) as out c)"
    and "\<And>s as out c. P s as out c \<Longrightarrow> s \<noteq> Some a \<Longrightarrow> Q False s as out c"
  shows "hoare (holds calm run P)
    (exec_bind (affect Query (\<lambda>t. count_where (run_in run a) (analysis_runs t)) (set_run_state (run_in run a) b))
      (\<lambda>affected. exec_return (affected = 1)))
    (\<lambda>x. holds calm run (Q x)) (\<lambda>e. holds calm run (E e))"
proof (rule hoare_bind)
  show "hoare (holds calm run P)
      (affect Query (\<lambda>t. count_where (run_in run a) (analysis_runs t)) (set_run_state (run_in run a) b))
      (\<lambda>n. holds calm run (Q (n = 1))) (\<lambda>e. holds calm run (E e))"
    unfolding affect_def
  proof (rule hoare_sql)
    fix t c n t'
    assume "runs_wf t"
      and "P (state_of t run) (attempts_of t run) (accepted_of t run) c"
      and "Inr (count_where (run_in run a) (analysis_runs t), set_run_state (run_in run a) b t) =
        (Inr (n, t') :: persistence_error + _)"
    then show "runs_wf t' \<and>
        Q (n = 1) (state_of t' run) (attempts_of t' run) (accepted_of t' run) c \<and>
        (\<not> calm \<longrightarrow> E Query (state_of t' run) (attempts_of t' run) (accepted_of t' run) c)"
      using assms by (cases "state_of t run = Some a") (auto simp: count_run_in)
  qed (use assms(1) in auto)
qed (rule hoare_return, simp)

lemma hoare_transition_run:
  assumes "legal_transition a b"
    and "\<And>s as out c. \<not> calm \<Longrightarrow> P s as out c \<Longrightarrow> E Query s as out c"
    and "\<And>as out c. P (Some a) as out c \<Longrightarrow>
      Q True (Some b) as out c \<and> (\<not> calm \<longrightarrow> E Query (Some b) as out c)"
    and "\<And>s as out c. P s as out c \<Longrightarrow> s \<noteq> Some a \<Longrightarrow> Q False s as out c"
  shows "hoare (holds calm run P) (transition_run run a b) (\<lambda>x. holds calm run (Q x)) (\<lambda>e. holds calm run (E e))"
  using hoare_affect_runs [of calm P E a Q b run] assms by (simp add: transition_run_def)

lemma hoare_reopen_failed_run:
  assumes "\<And>s as out c. \<not> calm \<Longrightarrow> P s as out c \<Longrightarrow> E Query s as out c"
    and "\<And>as out c. P (Some Failed) as out c \<Longrightarrow>
      Q True (Some Queued) as out c \<and> (\<not> calm \<longrightarrow> E Query (Some Queued) as out c)"
    and "\<And>s as out c. P s as out c \<Longrightarrow> s \<noteq> Some Failed \<Longrightarrow> Q False s as out c"
  shows "hoare (holds calm run P) (reopen_failed_run run) (\<lambda>x. holds calm run (Q x)) (\<lambda>e. holds calm run (E e))"
  unfolding reopen_failed_run_def by (rule hoare_affect_runs) (use assms in auto)

definition changed_attempts :: "nat \<Rightarrow> (attempt_row \<Rightarrow> attempt_row) \<Rightarrow> attempt_row list \<Rightarrow> attempt_row list" where
  "changed_attempts ordinal f as = update_where (\<lambda>a. at_ordinal a = ordinal) f as"

lemma attempts_of_changed:
  assumes "\<And>a. at_run (f a) = at_run a"
  shows "attempts_of (update_attempts (attempt_at run ordinal) f t) run = changed_attempts ordinal f (attempts_of t run)"
proof -
  have "attempts_of (update_attempts (attempt_at run ordinal) f t) run =
      update_where (attempt_at run ordinal) f (attempts_of t run)"
    by (rule attempts_of_update_attempts) (rule assms)
  also have "\<dots> = changed_attempts ordinal f (attempts_of t run)"
    unfolding changed_attempts_def update_where_def
    by (rule map_cong) (auto simp: attempt_at_def dest: attempts_of_run)
  finally show ?thesis .
qed

lemma count_attempt_at:
  "count_where (attempt_at run ordinal) (analysis_attempts t) =
     count_where (\<lambda>a. at_ordinal a = ordinal) (attempts_of t run)"
  unfolding count_where_def attempt_at_def attempts_of_def select_where_def
  by (simp add: conj_commute)

lemma hoare_update_one_attempt:
  assumes f: "\<And>a. at_run (f a) = at_run a"
    and fault: "\<And>s as out c. \<not> calm \<Longrightarrow> P s as out c \<Longrightarrow> E Query s as out c"
    and found: "\<And>s as out c. P s as out c \<Longrightarrow> count_where (\<lambda>a. at_ordinal a = ordinal) as = 1 \<Longrightarrow>
      Q s (changed_attempts ordinal f as) out c"
    and lost: "\<And>s as out c. \<not> calm \<Longrightarrow> P s as out c \<Longrightarrow> E Query s (changed_attempts ordinal f as) out c"
    and absent: "\<And>s as out c. P s as out c \<Longrightarrow> count_where (\<lambda>a. at_ordinal a = ordinal) as \<noteq> 1 \<Longrightarrow>
      E InvalidAnalysisIdentity s (changed_attempts ordinal f as) out c"
  shows "hoare (holds calm run P) (update_one_attempt run ordinal f) (\<lambda>_. holds calm run Q)
    (\<lambda>e. holds calm run (E e))"
  unfolding update_one_attempt_def
proof (rule hoare_bind)
  show "hoare (holds calm run P)
      (affect Query (\<lambda>t. count_where (attempt_at run ordinal) (analysis_attempts t))
         (update_attempts (attempt_at run ordinal) f))
      (\<lambda>n. holds calm run (\<lambda>s as out c. if n = 1 then Q s as out c else E InvalidAnalysisIdentity s as out c))
      (\<lambda>e. holds calm run (E e))"
    unfolding affect_def
  proof (rule hoare_sql)
    fix t c n t'
    assume "runs_wf t"
      and P: "P (state_of t run) (attempts_of t run) (accepted_of t run) c"
      and "Inr (count_where (attempt_at run ordinal) (analysis_attempts t),
          update_attempts (attempt_at run ordinal) f t) = (Inr (n, t') :: persistence_error + _)"
    then show "runs_wf t' \<and>
        (if n = 1 then Q (state_of t' run) (attempts_of t' run) (accepted_of t' run) c
         else E InvalidAnalysisIdentity (state_of t' run) (attempts_of t' run) (accepted_of t' run) c) \<and>
        (\<not> calm \<longrightarrow> E Query (state_of t' run) (attempts_of t' run) (accepted_of t' run) c)"
      using found [OF P] absent [OF P] lost [OF _ P]
      by (auto simp: count_attempt_at attempts_of_changed [of f, OF f])
  qed (use fault in auto)
qed (rule hoare_guard; auto simp: holds_def)

lemma hoare_mark_interrupted:
  assumes "\<And>s as out c. \<not> calm \<Longrightarrow> P s as out c \<Longrightarrow> E Query s as out c"
    and "\<And>s as out c as'. P s as out c \<Longrightarrow>
      as' = update_where (\<lambda>a. at_outcome a = AttemptRequested) (\<lambda>a. a\<lparr>at_outcome := AttemptInterrupted\<rparr>) as \<Longrightarrow>
      Q s as' out c \<and> (\<not> calm \<longrightarrow> E Query s as' out c)"
  shows "hoare (holds calm run P) (mark_requested_attempts_interrupted run) (\<lambda>_. holds calm run Q)
    (\<lambda>e. holds calm run (E e))"
proof -
  have eq: "attempts_of (update_attempts (\<lambda>a. at_run a = run \<and> at_outcome a = AttemptRequested)
        (\<lambda>a. a\<lparr>at_outcome := AttemptInterrupted\<rparr>) t) run =
      update_where (\<lambda>a. at_outcome a = AttemptRequested) (\<lambda>a. a\<lparr>at_outcome := AttemptInterrupted\<rparr>)
        (attempts_of t run)" for t
    by (subst attempts_of_update_attempts)
      (auto simp: update_where_def attempts_of_def select_where_def)
  show ?thesis
    unfolding mark_requested_attempts_interrupted_def execute_def
    by (rule hoare_sql) (use assms eq in auto)
qed

section \<open>Operations that also touch blobs\<close>

definition env_le :: "env \<Rightarrow> env \<Rightarrow> bool" where
  "env_le c c' = (env_calls c' = env_calls c \<and>
     (\<forall>d. env_files c d \<noteq> None \<longrightarrow> env_files c' d = env_files c d))"

lemma env_le_refl [simp]: "env_le c c"
  by (simp add: env_le_def)

lemma hoare_grows:
  assumes "no_calls m"
    and "\<And>w r w'. m w = (r, w') \<Longrightarrow> grows w w'"
    and "\<And>w. calm \<Longrightarrow> holds calm run P w \<Longrightarrow> \<exists>x w'. m w = (Inr x, w') \<and> no_faults w'"
    and "\<And>w x w' s as out c c'. m w = (Inr x, w') \<Longrightarrow> P s as out c \<Longrightarrow> env_le c c' \<Longrightarrow>
      env_files c = disk w \<Longrightarrow> env_files c' = disk w' \<Longrightarrow> Q x s as out c'"
    and "\<And>s as out c c' e. \<not> calm \<Longrightarrow> P s as out c \<Longrightarrow> env_le c c' \<Longrightarrow> E e s as out c'"
  shows "hoare (holds calm run P) m (\<lambda>x. holds calm run (Q x)) (\<lambda>e. holds calm run (E e))"
proof (rule hoareI)
  fix w x w' assume w: "holds calm run P w" and m: "m w = (Inr x, w')"
  have "calm \<longrightarrow> no_faults w'" using assms(3) w m by fastforce
  moreover have "grows w w'" "provider_calls w' = provider_calls w"
    using assms(1,2) m by (auto dest: unchangedD)
  ultimately show "holds calm run (Q x) w'"
    using w assms(4) [OF m, of _ _ _ "Env (provider_calls w) (disk w)" "Env (provider_calls w) (disk w')"]
    by (auto simp: holds_def grows_def env_le_def)
next
  fix w e w' assume w: "holds calm run P w" and m: "m w = (Inl e, w')"
  have nc: "\<not> calm" using assms(3) w m by fastforce
  moreover have "grows w w'" "provider_calls w' = provider_calls w"
    using assms(1,2) m by (auto dest: unchangedD)
  ultimately show "holds calm run (E e) w'"
    using w assms(5) [OF nc, of _ _ _ "Env (provider_calls w) (disk w)" "Env (provider_calls w) (disk w')"]
    by (auto simp: holds_def grows_def env_le_def)
qed

lemma hoare_lock_and_verify:
  assumes "\<And>s as out c. calm \<Longrightarrow> P s as out c \<Longrightarrow> blob_available store (env_files c) ref held_bytes"
    and "\<And>s as out c c'. P s as out c \<Longrightarrow> env_le c c' \<Longrightarrow> env_files c' (br_digest ref) \<noteq> None \<Longrightarrow> Q s as out c'"
    and "\<And>s as out c c' e. \<not> calm \<Longrightarrow> P s as out c \<Longrightarrow> env_le c c' \<Longrightarrow> E e s as out c'"
  shows "hoare (holds calm run P) (lock_and_verify store ref held_bytes) (\<lambda>_. holds calm run Q)
    (\<lambda>e. holds calm run (E e))"
proof (rule hoare_grows)
  fix w assume "calm" "holds calm run P w"
  then show "\<exists>x w'. lock_and_verify store ref held_bytes w = (Inr x, w') \<and> no_faults w'"
    using lock_and_verify_works assms(1) by (fastforce simp: holds_def)
qed (use assms(2,3) lock_and_verify_result in \<open>auto intro: unchanged_rules\<close>)

lemma hoare_store_raw:
  assumes "length content \<le> bs_max_bytes store"
    and "\<And>s as out c c'. P s as out c \<Longrightarrow> env_le c c' \<Longrightarrow>
      env_files c' (bs_sha store content) \<noteq> None \<Longrightarrow>
      (env_files c (bs_sha store content) = None \<longrightarrow> env_files c' (bs_sha store content) = Some content) \<Longrightarrow>
      Q (blob_reference store content) s as out c'"
    and "\<And>s as out c c' e. \<not> calm \<Longrightarrow> P s as out c \<Longrightarrow> env_le c c' \<Longrightarrow> E e s as out c'"
  shows "hoare (holds calm run P) (store_raw store content) (\<lambda>x. holds calm run (Q x))
    (\<lambda>e. holds calm run (E e))"
proof (rule hoare_grows)
  fix w assume "calm" "holds calm run P w"
  then show "\<exists>x w'. store_raw store content w = (Inr x, w') \<and> no_faults w'"
    using store_raw_works [OF _ assms(1), of w] by (auto simp: holds_def)
next
  fix w x w' s as out c c'
  assume run: "store_raw store content w = (Inr x, w')" and "P s as out c" "env_le c c'"
    and f: "env_files c = disk w" "env_files c' = disk w'"
  moreover have "x = blob_reference store content \<and> disk w' (bs_sha store content) \<noteq> None"
    using store_raw_result [OF run] by simp
  moreover have "disk w (bs_sha store content) = None \<longrightarrow> disk w' (bs_sha store content) = Some content"
    using run
    by (auto simp: store_raw_def exec_fail_def exec_bind_def exec_return_def blob_path_exists_def
        file_write_def split: if_splits sum.splits prod.splits dest!: file_read_cases)
  ultimately show "Q x s as out c'" using assms(2) by auto
qed (use assms(3) store_raw_result in \<open>auto intro: unchanged_rules\<close>)

lemma hoare_update_attempt:
  assumes "\<And>s as out c. P s as out c \<Longrightarrow> unat (au_input u) \<ge> 2 ^ 63 \<or> unat (au_output u) \<ge> 2 ^ 63 \<Longrightarrow>
      E ValueOverflow s as out c"
    and "\<And>s as out c. calm \<Longrightarrow> P s as out c \<Longrightarrow>
      blob_available store (env_files c) (au_raw u) (Some (au_held u))"
    and "\<And>s as out c c'. P s as out c \<Longrightarrow> env_le c c' \<Longrightarrow> env_files c' (br_digest (au_raw u)) \<noteq> None \<Longrightarrow>
      count_where (\<lambda>a. at_ordinal a = ordinal) as = 1 \<Longrightarrow>
      Q s (changed_attempts ordinal (apply_update u (unat (au_input u)) (unat (au_output u))) as) out c'"
    and "\<And>s as out c c' e. \<not> calm \<Longrightarrow> P s as out c \<Longrightarrow> env_le c c' \<Longrightarrow>
      E e s as out c' \<and>
      (count_where (\<lambda>a. at_ordinal a = ordinal) as = 1 \<longrightarrow>
       E e s (changed_attempts ordinal (apply_update u (unat (au_input u)) (unat (au_output u))) as) out c')"
    and "\<And>s as out c c'. P s as out c \<Longrightarrow> env_le c c' \<Longrightarrow> count_where (\<lambda>a. at_ordinal a = ordinal) as \<noteq> 1 \<Longrightarrow>
      E InvalidAnalysisIdentity s as out c'"
  shows "hoare (holds calm run P) (update_attempt store run ordinal u) (\<lambda>_. holds calm run Q)
    (\<lambda>e. holds calm run (E e))"
proof -
  let ?f = "apply_update u (unat (au_input u)) (unat (au_output u))"
  have tx: "hoare (holds calm run P)
      (transact Query (exec_bind (lock_and_verify store (au_raw u) (Some (au_held u)))
        (\<lambda>_. update_one_attempt run ordinal ?f)))
      (\<lambda>_. holds calm run Q) (\<lambda>e. holds calm run (E e))"
  proof (rule hoare_transact, rule hoare_bind)
    fix s0 as0 out0 c0 assume P: "P s0 as0 out0 c0"
    let ?R = "\<lambda>s as out c. s = s0 \<and> as = as0 \<and> out = out0 \<and> env_le c0 c \<and>
      env_files c (br_digest (au_raw u)) \<noteq> None"
    show "hoare (holds calm run (same_view s0 as0 out0 c0))
        (lock_and_verify store (au_raw u) (Some (au_held u))) (\<lambda>_. holds calm run ?R)
        (\<lambda>e'. holds calm run (\<lambda>_ _ _ c. E e' s0 as0 out0 c))"
      by (rule hoare_lock_and_verify) (use P assms(2,4) in \<open>auto simp: same_view_def\<close>)
    show "hoare (holds calm run ?R) (update_one_attempt run ordinal ?f)
        (\<lambda>x. holds calm run (\<lambda>s as out c. Q s as out c \<and>
          (\<not> calm \<longrightarrow> E Query s0 as0 out0 c \<and> E Query s as out c)))
        (\<lambda>e'. holds calm run (\<lambda>_ _ _ c. E e' s0 as0 out0 c))" for x :: unit
      by (rule hoare_update_one_attempt) (use P assms(3-5) in \<open>auto simp: apply_update_def\<close>)
  qed (use assms(4) in auto)
  show ?thesis unfolding update_attempt_def
  proof (rule hoare_bind [OF hoare_result [where Q = "\<lambda>i. holds calm run (\<lambda>s as out c.
        P s as out c \<and> i = unat (au_input u))"]])
    fix i
    show "hoare (holds calm run (\<lambda>s as out c. P s as out c \<and> i = unat (au_input u)))
      (exec_bind (exec_result (i64_of (au_output u))) (\<lambda>output. transact Query
        (exec_bind (lock_and_verify store (au_raw u) (Some (au_held u)))
          (\<lambda>_. update_one_attempt run ordinal (apply_update u i output)))))
      (\<lambda>_. holds calm run Q) (\<lambda>e. holds calm run (E e))"
    proof (cases "i = unat (au_input u) \<and> unat (au_output u) < 2 ^ 63")
      case True
      then show ?thesis
        using tx by (auto simp: i64_of_def hoare_def holds_def exec_bind_def exec_result_def)
    next
      case False
      then show ?thesis
        using assms(1) by (auto simp: i64_of_def hoare_def holds_def exec_bind_def exec_result_def)
    qed
  qed (use assms(1) in \<open>auto simp: i64_of_def holds_def split: if_splits\<close>)
qed

definition attempt_input_ok :: "attempt_input \<Rightarrow> bool" where
  "attempt_input_ok input =
     (validate_version (ai_provider input) = Inr () \<and> validate_model (ai_model input) = Inr () \<and>
      validate_version (ai_policy input) = Inr () \<and>
      (case ai_request input of None \<Rightarrow> True | Some r \<Rightarrow> r \<noteq> [] \<and> length r \<le> 128))"

lemma exists_run_iff: "exists_where (\<lambda>r. ar_id r = run) (analysis_runs t) \<longleftrightarrow> state_of t run \<noteq> None"
  by (auto simp: state_of_def exists_where_iff find_where_Some_iff)

lemma hoare_insert_next_attempt:
  assumes "\<And>s as out c. P s as out c \<Longrightarrow> 2 ^ 15 \<le> fst counts + 1 \<or> max_run_attempts \<le> snd counts \<Longrightarrow>
      E AttemptBudgetExhausted s as out c"
    and "\<And>s as out c. \<not> calm \<Longrightarrow> P s as out c \<Longrightarrow> E Query s as out c"
    and "\<And>s as out c. P s as out c \<Longrightarrow> snd counts < max_run_attempts \<Longrightarrow>
      Q (fst counts + 1) s (as @ [new_attempt run (fst counts + 1) input]) out c \<and>
      (\<not> calm \<longrightarrow> E Query s (as @ [new_attempt run (fst counts + 1) input]) out c)"
  shows "hoare (holds calm run P) (insert_next_attempt run input counts)
    (\<lambda>x. holds calm run (Q x)) (\<lambda>e. holds calm run (E e))"
proof (cases "fst counts + 1 < 2 ^ 15 \<and> snd counts < max_run_attempts")
  case True
  have "hoare (holds calm run P) (execute Query (insert_attempt (new_attempt run (fst counts + 1) input)))
      (\<lambda>_. holds calm run (Q (fst counts + 1))) (\<lambda>e. holds calm run (E e))"
    unfolding execute_def by (rule hoare_sql) (use assms True in \<open>auto simp: new_attempt_def\<close>)
  then have "hoare (holds calm run P) (exec_bind (execute Query (insert_attempt (new_attempt run (fst counts + 1) input)))
      (\<lambda>_. exec_return (fst counts + 1))) (\<lambda>x. holds calm run (Q x)) (\<lambda>e. holds calm run (E e))"
    by (rule hoare_bind) (rule hoare_return, simp)
  then show ?thesis
    using True by (simp add: insert_next_attempt_def hoare_def exec_bind_def exec_guard_apply)
next
  case False
  then show ?thesis using assms(1)
    by (auto simp: insert_next_attempt_def hoare_def exec_bind_def exec_guard_apply holds_def)
qed

lemma hoare_record_attempt_body:
  assumes P: "P s0 as0 out0 c0"
    and fault: "\<And>s as out c. \<not> calm \<Longrightarrow> P s as out c \<Longrightarrow> E Query s as out c"
    and missing: "\<And>as out c. P None as out c \<Longrightarrow> E InvalidAnalysisIdentity None as out c"
    and budget: "\<And>s as out c. P s as out c \<Longrightarrow>
      2 ^ 15 \<le> max_ordinal as + 1 \<or> max_run_attempts \<le> spent_calls as \<Longrightarrow> E AttemptBudgetExhausted s as out c"
    and insert: "\<And>s as out c. P s as out c \<Longrightarrow> s \<noteq> None \<Longrightarrow> spent_calls as < max_run_attempts \<Longrightarrow>
      Q (max_ordinal as + 1) s (as @ [new_attempt run (max_ordinal as + 1) input]) out c \<and>
      (\<not> calm \<longrightarrow> E Query s (as @ [new_attempt run (max_ordinal as + 1) input]) out c)"
  shows "hoare (holds calm run (same_view s0 as0 out0 c0)) (record_attempt_body run input)
    (\<lambda>x. holds calm run (\<lambda>s as out c. Q x s as out c \<and> (\<not> calm \<longrightarrow> E Query s0 as0 out0 c \<and> E Query s as out c)))
    (\<lambda>e'. holds calm run (\<lambda>_ _ _ c. E e' s0 as0 out0 c))"
proof -
  let ?P = "same_view s0 as0 out0 c0"
  let ?counts = "(max_ordinal as0, spent_calls as0)"
  let ?S = "\<lambda>r. holds calm run (\<lambda>s as out c. ?P s as out c \<and> s0 \<noteq> None \<and> r = ?counts)"
  have faultP: "\<not> calm \<Longrightarrow> E Query s0 as0 out0 c0" using fault P by blast
  show ?thesis unfolding record_attempt_body_def
  proof (rule hoare_bind, rule hoare_query
      [where Q = "\<lambda>present s as out c. ?P s as out c \<and> present = (s0 \<noteq> None)"])
    fix present
    show "hoare (holds calm run (\<lambda>s as out c. ?P s as out c \<and> present = (s0 \<noteq> None)))
       (exec_bind (exec_guard present InvalidAnalysisIdentity) (\<lambda>_.
        exec_bind (query Query (\<lambda>t. (max_ordinal (attempts_of t run), spent_calls (attempts_of t run))))
          (insert_next_attempt run input)))
       (\<lambda>x. holds calm run (\<lambda>s as out c. Q x s as out c \<and> (\<not> calm \<longrightarrow> E Query s0 as0 out0 c \<and> E Query s as out c)))
       (\<lambda>e'. holds calm run (\<lambda>_ _ _ c. E e' s0 as0 out0 c))"
    proof (rule hoare_bind, rule hoare_guard [where Q = "\<lambda>_. holds calm run (\<lambda>s as out c. ?P s as out c \<and> s0 \<noteq> None)"],
        goal_cases)
      case 3
      show ?case
      proof (rule hoare_bind, rule hoare_query
          [where Q = "\<lambda>r s as out c. ?P s as out c \<and> s0 \<noteq> None \<and> r = ?counts"], goal_cases)
        case (3 r)
        show ?case
          by (rule hoare_insert_next_attempt)
            (use P faultP budget [OF P] insert [OF P] in \<open>auto simp: same_view_def\<close>)
      qed (use faultP in \<open>auto simp: same_view_def\<close>)
    qed (use missing P in \<open>auto simp: holds_def same_view_def\<close>)
  qed (use faultP in \<open>auto simp: same_view_def exists_run_iff\<close>)
qed

lemma record_attempt_eq:
  "record_attempt run input =
     (if attempt_input_ok input then transact Query (record_attempt_body run input)
      else exec_fail InvalidAnalysisIdentity)"
proof -
  have err: "validate_version v \<noteq> Inr () \<Longrightarrow> validate_version v = Inl InvalidAnalysisIdentity"
    "validate_model v \<noteq> Inr () \<Longrightarrow> validate_model v = Inl InvalidAnalysisIdentity" for v
    by (auto simp: validate_version_def validate_model_def split: if_splits)
  show ?thesis
    using err(1) [of "ai_provider input"] err(1) [of "ai_policy input"] err(2) [of "ai_model input"]
    by (auto simp: record_attempt_def attempt_input_ok_def exec_bind_def exec_result_def fun_eq_iff
        exec_guard_apply exec_fail_def split: sum.splits option.splits)
qed

lemma hoare_record_attempt:
  assumes invalid: "\<And>s as out c. P s as out c \<Longrightarrow> \<not> attempt_input_ok input \<Longrightarrow> E InvalidAnalysisIdentity s as out c"
    and fault: "\<And>s as out c. \<not> calm \<Longrightarrow> P s as out c \<Longrightarrow> E Query s as out c"
    and "\<And>as out c. P None as out c \<Longrightarrow> E InvalidAnalysisIdentity None as out c"
    and "\<And>s as out c. P s as out c \<Longrightarrow>
      2 ^ 15 \<le> max_ordinal as + 1 \<or> max_run_attempts \<le> spent_calls as \<Longrightarrow> E AttemptBudgetExhausted s as out c"
    and "\<And>s as out c. P s as out c \<Longrightarrow> s \<noteq> None \<Longrightarrow> spent_calls as < max_run_attempts \<Longrightarrow>
      Q (max_ordinal as + 1) s (as @ [new_attempt run (max_ordinal as + 1) input]) out c \<and>
      (\<not> calm \<longrightarrow> E Query s (as @ [new_attempt run (max_ordinal as + 1) input]) out c)"
  shows "hoare (holds calm run P) (record_attempt run input) (\<lambda>x. holds calm run (Q x))
    (\<lambda>e. holds calm run (E e))"
proof (cases "attempt_input_ok input")
  case True
  have "hoare (holds calm run P) (transact Query (record_attempt_body run input))
      (\<lambda>x. holds calm run (Q x)) (\<lambda>e. holds calm run (E e))"
    by (rule hoare_transact, rule hoare_record_attempt_body [where P = P]) (use assms in blast)+
  then show ?thesis using True by (simp add: record_attempt_eq)
next
  case False
  then show ?thesis using invalid
    by (auto simp: record_attempt_eq holds_def intro!: hoare_fail)
qed

end
