(* ===== verification/Run_Driver.thy ===== *)
theory Run_Driver
  imports Run_View
begin

text \<open>
  The durable provider-attempt loop (\<open>run_driver.rs\<close>). A drive reads what the database says about
  the run and continues from there: it returns the stored output, reopens a failed run whose last
  call failed transiently, validates a stored response, or makes at most two provider calls. The
  provider, the validation of its bytes and the persistence of an accepted output are arguments, as
  they are of the code's \<open>drive\<close>.
\<close>

section \<open>Failures and arguments\<close>

datatype drive_failure =
  DrivePersistence persistence_error
| DriveBlob blob_error
| DriveProvider provider_error
| DriveInvalid
| DriveTimeout
| DriveConflict

text \<open>The answer of \<open>tokio::time::timeout(provider.generate_json(..))\<close>.\<close>

datatype provider_reply =
  TimedOut | FailedCall provider_failure | Responded provider_response

text \<open>
  A driver: the blob store, the identity and the calls of the provider (with the milliseconds each
  took) and the model policy.
\<close>

record driver =
  dv_store :: blob_store
  dv_identity :: provider_identity
  dv_generate :: "generation_request \<Rightarrow> world \<Rightarrow> (nat \<times> provider_reply) \<times> world"
  dv_policy :: string

type_synonym validator = "bytes \<Rightarrow> string + json"
type_synonym persister = "json \<Rightarrow> blob_ref \<Rightarrow> (world, drive_failure, unit) exec"

definition exec_catch :: "('w, 'e, 'a) exec \<Rightarrow> ('e \<Rightarrow> ('w, 'f, 'a) exec) \<Rightarrow> ('w, 'f, 'a) exec" where
  "exec_catch m h = (\<lambda>w. case m w of (Inl e, w') \<Rightarrow> h e w' | (Inr x, w') \<Rightarrow> (Inr x, w'))"

definition durably :: "(world, persistence_error, 'a) exec \<Rightarrow> (world, drive_failure, 'a) exec" where
  "durably m = exec_map_err DrivePersistence m"

section \<open>The run lock\<close>

definition run_lock_acquire :: "uuid \<Rightarrow> (world, persistence_error, bool) exec" where
  "run_lock_acquire run = (\<lambda>w.
     if next_fault w \<noteq> Works then (Inl Query, tick w)
     else if run \<in> set (held w) then (Inr False, tick w)
     else (Inr True, (tick w)\<lparr>held := run # held w\<rparr>))"

definition run_lock_release :: "uuid \<Rightarrow> world \<Rightarrow> world" where
  "run_lock_release run w = (tick w)\<lparr>held := remove1 run (held w)\<rparr>"

section \<open>The snapshot\<close>

record snapshot =
  sn_state :: run_state
  sn_spent :: nat
  sn_abandoned :: nat
  sn_newest :: "attempt_row option"

definition abandoned_calls :: "attempt_row list \<Rightarrow> nat" where
  "abandoned_calls as = count_where (\<lambda>a. at_outcome a \<in> {AttemptRequested, AttemptInterrupted}) as"

definition newest_attempt :: "attempt_row list \<Rightarrow> attempt_row option" where
  "newest_attempt as = find_where (\<lambda>a. at_ordinal a = max_ordinal as) as"

definition view_snapshot :: "run_state \<Rightarrow> attempt_row list \<Rightarrow> snapshot" where
  "view_snapshot s as = \<lparr>sn_state = s, sn_spent = spent_calls as, sn_abandoned = abandoned_calls as,
     sn_newest = newest_attempt as\<rparr>"

definition snapshot :: "uuid \<Rightarrow> (world, drive_failure, snapshot) exec" where
  "snapshot run =
     exec_bind (durably (query Query (\<lambda>t.
       map_option (\<lambda>s. view_snapshot s (attempts_of t run)) (state_of t run)))) (\<lambda>row.
     case row of None \<Rightarrow> exec_fail (DrivePersistence InvalidAnalysisIdentity) | Some s \<Rightarrow> exec_return s)"

definition accepted_output :: "uuid \<Rightarrow> (world, drive_failure, json) exec" where
  "accepted_output run =
     exec_bind (durably (query Query (\<lambda>t. accepted_of t run))) (\<lambda>result.
     case result of None \<Rightarrow> exec_fail (DrivePersistence InvalidAnalysisIdentity) | Some v \<Rightarrow> exec_return v)"

section \<open>Transitions\<close>

definition transition :: "uuid \<Rightarrow> run_state \<Rightarrow> run_state \<Rightarrow> (world, drive_failure, unit) exec" where
  "transition run expected next =
     exec_bind (durably (transition_run run expected next)) (\<lambda>moved. exec_guard moved DriveConflict)"

definition fail_requested :: "uuid \<Rightarrow> (world, drive_failure, unit) exec" where
  "fail_requested run = transition run ModelRequested Failed"

definition begin_repair :: "uuid \<Rightarrow> (world, drive_failure, unit) exec" where
  "begin_repair run =
     exec_bind (transition run ResponseReceived Repaired) (\<lambda>_. transition run Repaired ModelRequested)"

definition enter_model_requested :: "uuid \<Rightarrow> run_state \<Rightarrow> (world, drive_failure, unit) exec" where
  "enter_model_requested run state =
     exec_bind (if state = Queued then transition run Queued ContextPrepared else exec_return ()) (\<lambda>_.
     if state = Queued \<or> state = ContextPrepared then transition run ContextPrepared ModelRequested
     else if state = Repaired then transition run Repaired ModelRequested
     else exec_return ())"

definition push_repair :: "generation_request \<Rightarrow> string \<Rightarrow> generation_request" where
  "push_repair request code = request\<lparr>task_instruction := task_instruction request @
     [newline] @ ''Repair validation code: '' @ code @ ''.''\<rparr>"

definition calls_per_drive :: nat where
  "calls_per_drive = 2"

definition max_abandoned_calls :: nat where
  "max_abandoned_calls = 2"

text \<open>\<open>reopen\<close>: only a run whose newest call failed transiently, within the budget of spent calls.\<close>

definition reopen :: "uuid \<Rightarrow> snapshot \<Rightarrow> (world, drive_failure, unit) exec" where
  "reopen run s =
     (case map_option at_outcome (sn_newest s) of
        Some AttemptTransientFailure \<Rightarrow>
          if sn_spent s < max_run_attempts
          then exec_bind (durably (reopen_failed_run run)) (\<lambda>moved. exec_guard moved DriveConflict)
          else exec_fail (DrivePersistence AttemptBudgetExhausted)
      | Some AttemptPermanentFailure \<Rightarrow> exec_fail (DriveProvider Permanent)
      | Some AttemptInvalid \<Rightarrow> exec_fail DriveInvalid
      | Some AttemptResponseReceived \<Rightarrow> exec_fail DriveInvalid
      | Some AttemptAccepted \<Rightarrow> exec_fail DriveInvalid
      | _ \<Rightarrow> exec_fail (DrivePersistence AttemptBudgetExhausted))"

text \<open>Decides the reason of the next call of a run that rests at \<open>model_requested\<close>.\<close>

definition settle_in_flight ::
  "uuid \<Rightarrow> snapshot \<Rightarrow> generation_request \<Rightarrow> (world, drive_failure, attempt_reason \<times> generation_request) exec" where
  "settle_in_flight run s request =
     (case sn_newest s of
        None \<Rightarrow> exec_return (ReasonInitial, request)
      | Some newest \<Rightarrow>
          (case at_outcome newest of
             AttemptTransientFailure \<Rightarrow> exec_return (ReasonRetry, request)
           | AttemptInvalid \<Rightarrow>
               exec_return (ReasonRepair, push_repair request
                 (case at_code newest of None \<Rightarrow> ''schema'' | Some code \<Rightarrow> code))
           | AttemptPermanentFailure \<Rightarrow>
               exec_bind (fail_requested run) (\<lambda>_. exec_fail (DriveProvider Permanent))
           | AttemptResponseReceived \<Rightarrow> exec_fail DriveConflict
           | AttemptAccepted \<Rightarrow> exec_fail DriveConflict
           | _ \<Rightarrow>
               exec_bind (durably (mark_requested_attempts_interrupted run)) (\<lambda>_.
               if sn_abandoned s \<ge> max_abandoned_calls
               then exec_bind (fail_requested run) (\<lambda>_. exec_fail (DrivePersistence AttemptBudgetExhausted))
               else exec_return (ReasonRetry, request))))"

section \<open>Stored responses\<close>

datatype stored = StoredAccepted json blob_ref | StoredRepair generation_request

definition recover_stored ::
  "driver \<Rightarrow> validator \<Rightarrow> uuid \<Rightarrow> snapshot \<Rightarrow> generation_request \<Rightarrow> (world, drive_failure, stored) exec" where
  "recover_stored dv validate run s request =
     (case sn_newest s of
        None \<Rightarrow> exec_fail DriveConflict
      | Some newest \<Rightarrow>
          (case at_raw newest of
             None \<Rightarrow> exec_fail DriveConflict
           | Some raw \<Rightarrow>
               exec_bind (exec_map_err DriveBlob (blob_read (dv_store dv) raw)) (\<lambda>content.
               let validated = (sn_state s = SchemaValidated) in
               case validate content of
                 Inr value \<Rightarrow>
                   exec_bind (if validated then exec_return ()
                     else exec_bind (durably (set_attempt_outcome run (at_ordinal newest) AttemptAccepted None))
                       (\<lambda>_. transition run ResponseReceived SchemaValidated))
                   (\<lambda>_. exec_return (StoredAccepted value raw))
               | Inl code \<Rightarrow>
                   if validated
                   then exec_bind (transition run SchemaValidated Failed) (\<lambda>_. exec_fail DriveInvalid)
                   else
                     exec_bind (durably (set_attempt_outcome run (at_ordinal newest) AttemptInvalid (Some code)))
                       (\<lambda>_.
                     if at_reason newest = ReasonRepair
                     then exec_bind (transition run ResponseReceived Failed) (\<lambda>_. exec_fail DriveInvalid)
                     else exec_bind (begin_repair run)
                       (\<lambda>_. exec_return (StoredRepair (push_repair request code)))))))"

section \<open>One call\<close>

datatype flow = FlowDone json | FlowRetry | FlowRepair string
datatype called = CalledResponse provider_response | CalledRetry

record call =
  cl_run :: uuid
  cl_ordinal :: nat
  cl_duration :: nat
  cl_reason :: attempt_reason
  cl_last :: bool

definition attempt_input_of :: "driver \<Rightarrow> attempt_reason \<Rightarrow> attempt_input" where
  "attempt_input_of dv reason =
     \<lparr>ai_reason = reason, ai_provider = id_provider (dv_identity dv), ai_model = id_model (dv_identity dv),
      ai_policy = dv_policy dv, ai_request = None, ai_outcome = AttemptRequested\<rparr>"

definition start_attempt :: "driver \<Rightarrow> uuid \<Rightarrow> attempt_reason \<Rightarrow> (world, drive_failure, nat) exec" where
  "start_attempt dv run reason =
     exec_catch (record_attempt run (attempt_input_of dv reason)) (\<lambda>e.
       if e = AttemptBudgetExhausted
       then exec_bind (fail_requested run) (\<lambda>_. exec_fail (DrivePersistence AttemptBudgetExhausted))
       else exec_fail (DrivePersistence e))"

definition generate :: "driver \<Rightarrow> generation_request \<Rightarrow> (world, drive_failure, nat \<times> provider_reply) exec" where
  "generate dv request = (\<lambda>w. case dv_generate dv request w of (r, w') \<Rightarrow> (Inr r, w'))"

text \<open>\<open>i16::try_from\<close> of an HTTP status.\<close>

definition status_i16 :: "16 word option \<Rightarrow> nat option" where
  "status_i16 status = (case status of None \<Rightarrow> None
     | Some n \<Rightarrow> if unat n < 2 ^ 15 then Some (unat n) else None)"

definition settle_call :: "call \<Rightarrow> provider_reply \<Rightarrow> (world, drive_failure, called) exec" where
  "settle_call call reply =
     (case reply of
        Responded response \<Rightarrow> exec_return (CalledResponse response)
      | _ \<Rightarrow>
        (let (outcome, retry_now, class, status, failure) =
           (case reply of
              FailedCall f \<Rightarrow>
                (if is_recoverable f then AttemptTransientFailure else AttemptPermanentFailure,
                 is_transient f, pf_class f, status_i16 (pf_http_status f), DriveProvider (pf_error f))
            | _ \<Rightarrow> (AttemptTransientFailure, True, ClassTimeout, None, DriveTimeout))
         in
         exec_bind (durably (update_attempt_failure (cl_run call) (cl_ordinal call) outcome (Some class)
           status (cl_duration call))) (\<lambda>_.
         if retry_now \<and> \<not> cl_last call then exec_return CalledRetry
         else exec_bind (fail_requested (cl_run call)) (\<lambda>_. exec_fail failure))))"

definition response_update ::
  "call \<Rightarrow> blob_ref \<Rightarrow> provider_response \<Rightarrow> attempt_outcome \<Rightarrow> string option \<Rightarrow> attempt_update" where
  "response_update call raw response outcome code =
     \<lparr>au_raw = raw, au_held = resp_bytes response, au_request = resp_request_id response,
      au_input = input_tokens (resp_usage response), au_output = output_tokens (resp_usage response),
      au_outcome = outcome, au_code = code, au_duration = cl_duration call\<rparr>"

definition record_response ::
  "driver \<Rightarrow> call \<Rightarrow> blob_ref \<Rightarrow> provider_response \<Rightarrow> attempt_outcome \<Rightarrow> string option \<Rightarrow>
   (world, drive_failure, unit) exec" where
  "record_response dv call raw response outcome code =
     durably (update_attempt (dv_store dv) (cl_run call) (cl_ordinal call)
       (response_update call raw response outcome code))"

definition store_response ::
  "driver \<Rightarrow> call \<Rightarrow> provider_response \<Rightarrow> (world, drive_failure, blob_ref) exec" where
  "store_response dv call response =
     exec_catch (store_raw (dv_store dv) (resp_bytes response)) (\<lambda>e.
       if e = TooLarge
       then
         exec_bind (durably (update_attempt_failure (cl_run call) (cl_ordinal call) AttemptPermanentFailure
           (Some ClassSizeLimit) None (cl_duration call))) (\<lambda>_.
         exec_bind (fail_requested (cl_run call)) (\<lambda>_. exec_fail (DriveBlob TooLarge)))
       else exec_fail (DriveBlob e))"

definition accept_response ::
  "driver \<Rightarrow> validator \<Rightarrow> persister \<Rightarrow> call \<Rightarrow> provider_response \<Rightarrow> (world, drive_failure, flow) exec" where
  "accept_response dv validate persist call response =
     exec_bind (store_response dv call response) (\<lambda>raw.
     exec_bind (record_response dv call raw response AttemptResponseReceived None) (\<lambda>_.
     exec_bind (transition (cl_run call) ModelRequested ResponseReceived) (\<lambda>_.
     case validate (resp_bytes response) of
       Inr value \<Rightarrow>
         exec_bind (record_response dv call raw response AttemptAccepted None) (\<lambda>_.
         exec_bind (transition (cl_run call) ResponseReceived SchemaValidated) (\<lambda>_.
         exec_bind (persist value raw) (\<lambda>_. exec_return (FlowDone value))))
     | Inl code \<Rightarrow>
         exec_bind (record_response dv call raw response AttemptInvalid (Some code)) (\<lambda>_.
         if cl_last call \<or> cl_reason call = ReasonRepair
         then exec_bind (transition (cl_run call) ResponseReceived Failed) (\<lambda>_. exec_fail DriveInvalid)
         else exec_bind (begin_repair (cl_run call)) (\<lambda>_. exec_return (FlowRepair code))))))"

definition attempt ::
  "driver \<Rightarrow> validator \<Rightarrow> persister \<Rightarrow> uuid \<Rightarrow> generation_request \<Rightarrow> attempt_reason \<Rightarrow> bool \<Rightarrow>
   (world, drive_failure, flow) exec" where
  "attempt dv validate persist run request reason is_last =
     exec_bind (start_attempt dv run reason) (\<lambda>ordinal.
     exec_bind (generate dv request) (\<lambda>(duration, reply).
     let call = \<lparr>cl_run = run, cl_ordinal = ordinal, cl_duration = min duration (2 ^ 31 - 1),
                 cl_reason = reason, cl_last = is_last\<rparr> in
     exec_bind (settle_call call reply) (\<lambda>called.
     case called of
       CalledRetry \<Rightarrow> exec_return FlowRetry
     | CalledResponse response \<Rightarrow> accept_response dv validate persist call response)))"

section \<open>A drive\<close>

text \<open>The loop \<open>for call in 0..CALLS_PER_DRIVE\<close>, by the number of calls left.\<close>

fun drive_calls ::
  "driver \<Rightarrow> validator \<Rightarrow> persister \<Rightarrow> uuid \<Rightarrow> nat \<Rightarrow> generation_request \<Rightarrow> attempt_reason \<Rightarrow>
   (world, drive_failure, json) exec" where
  "drive_calls dv validate persist run 0 request reason = exec_fail DriveInvalid"
| "drive_calls dv validate persist run (Suc left) request reason =
     exec_bind (attempt dv validate persist run request reason (left = 0)) (\<lambda>flow.
     case flow of
       FlowDone value \<Rightarrow> exec_return value
     | FlowRetry \<Rightarrow> drive_calls dv validate persist run left request ReasonRetry
     | FlowRepair code \<Rightarrow> drive_calls dv validate persist run left (push_repair request code) ReasonRepair)"

text \<open>A failed run is reopened, and a response stored just before a stop is caught up with.\<close>

definition settle_state :: "uuid \<Rightarrow> snapshot \<Rightarrow> (world, drive_failure, snapshot) exec" where
  "settle_state run s =
     exec_bind (if sn_state s = Failed then exec_bind (reopen run s) (\<lambda>_. snapshot run) else exec_return s)
       (\<lambda>s.
     if sn_state s = ModelRequested \<and>
        map_option at_outcome (sn_newest s) = Some AttemptResponseReceived
     then exec_bind (transition run ModelRequested ResponseReceived) (\<lambda>_. snapshot run)
     else exec_return s)"

definition continue_run ::
  "driver \<Rightarrow> validator \<Rightarrow> persister \<Rightarrow> uuid \<Rightarrow> generation_request \<Rightarrow> snapshot \<Rightarrow>
   (world, drive_failure, json) exec" where
  "continue_run dv validate persist run request s =
     (if sn_state s = ResponseReceived \<or> sn_state s = SchemaValidated
      then
        exec_bind (recover_stored dv validate run s request) (\<lambda>stored.
        case stored of
          StoredAccepted value raw \<Rightarrow> exec_bind (persist value raw) (\<lambda>_. exec_return value)
        | StoredRepair request \<Rightarrow>
            drive_calls dv validate persist run calls_per_drive request ReasonRepair)
      else if sn_state s \<in> {Queued, ContextPrepared, Repaired, ModelRequested}
      then
        exec_bind (enter_model_requested run (sn_state s)) (\<lambda>_.
        exec_bind (settle_in_flight run s request) (\<lambda>(reason, request).
        drive_calls dv validate persist run calls_per_drive request reason))
      else exec_fail DriveConflict)"

definition drive_locked ::
  "driver \<Rightarrow> validator \<Rightarrow> persister \<Rightarrow> uuid \<Rightarrow> generation_request \<Rightarrow> (world, drive_failure, json) exec" where
  "drive_locked dv validate persist run request =
     exec_bind (snapshot run) (\<lambda>s.
     if sn_state s \<in> {Persisted, Indexed, Completed} then accepted_output run
     else exec_bind (settle_state run s) (continue_run dv validate persist run request))"

definition drive ::
  "driver \<Rightarrow> validator \<Rightarrow> persister \<Rightarrow> uuid \<Rightarrow> generation_request \<Rightarrow> (world, drive_failure, json) exec" where
  "drive dv validate persist run request = (\<lambda>w.
     case durably (run_lock_acquire run) w of
       (Inl e, w') \<Rightarrow> (Inl e, w')
     | (Inr acquired, w') \<Rightarrow>
         if \<not> acquired then (Inl DriveConflict, w')
         else (case drive_locked dv validate persist run request w' of
                 (outcome, w'') \<Rightarrow> (outcome, run_lock_release run w'')))"

end
