(* ===== verification/Driver_Correct.thy ===== *)
theory Driver_Correct
  imports Run_Driver
begin

text \<open>
  What a drive guarantees. \<open>run_ok\<close> relates the state of a run to its attempts and its accepted
  output; every drive keeps it under every pattern of faults, and returns only with the run at an
  accepted output.
\<close>

section \<open>The invariant of one run\<close>

text \<open>
  The attempt history: ordinals are dense from one, at most ten calls are spent, a call that got an
  answer keeps it, and only the newest call may be unsettled or answered well.
\<close>

definition history_ok :: "attempt_row list \<Rightarrow> bool" where
  "history_ok as =
     ((\<forall>i < length as. at_ordinal (as ! i) = Suc i) \<and> spent_calls as \<le> max_run_attempts \<and>
      (\<forall>a \<in> set as. at_outcome a \<in> {AttemptResponseReceived, AttemptInvalid, AttemptAccepted} \<longrightarrow>
         at_raw a \<noteq> None) \<and>
      (\<forall>a \<in> set (butlast as). at_outcome a \<notin> {AttemptRequested, AttemptResponseReceived, AttemptAccepted}))"

definition newest_outcome :: "attempt_row list \<Rightarrow> attempt_outcome option" where
  "newest_outcome as = (if as = [] then None else Some (at_outcome (last as)))"

fun newest_fits :: "run_state \<Rightarrow> attempt_outcome option \<Rightarrow> bool" where
  "newest_fits Queued n = (n \<in> {None, Some AttemptTransientFailure})"
| "newest_fits ContextPrepared n = (n \<in> {None, Some AttemptTransientFailure})"
| "newest_fits Repaired n = (n = Some AttemptInvalid)"
| "newest_fits ModelRequested n = (n \<noteq> Some AttemptAccepted)"
| "newest_fits ResponseReceived n =
     (n \<in> {Some AttemptResponseReceived, Some AttemptInvalid, Some AttemptAccepted})"
| "newest_fits Failed n = (n \<noteq> Some AttemptRequested)"
| "newest_fits _ n = (n = Some AttemptAccepted)"

definition run_done :: "run_state \<Rightarrow> bool" where
  "run_done s = (s \<in> {Persisted, Indexed, Completed})"

definition run_ok :: "run_state \<Rightarrow> attempt_row list \<Rightarrow> json option \<Rightarrow> bool" where
  "run_ok s as out = (history_ok as \<and> newest_fits s (newest_outcome as) \<and> (out \<noteq> None \<longleftrightarrow> run_done s))"

section \<open>Attempt histories\<close>

lemma max_ordinal_append: "max_ordinal (as @ bs) = max (max_ordinal as) (max_ordinal bs)"
  by (induction as) (auto simp: max_ordinal_def)

lemma max_ordinal_dense: "\<forall>i < length as. at_ordinal (as ! i) = Suc i \<Longrightarrow> max_ordinal as = length as"
proof (induction as rule: rev_induct)
  case (snoc a as)
  then have "\<forall>i < length as. at_ordinal (as ! i) = Suc i"
    by (metis length_append_singleton less_SucI nth_append)
  moreover have "at_ordinal a = Suc (length as)" using snoc.prems by auto
  ultimately show ?case using snoc.IH by (simp add: max_ordinal_append) (simp add: max_ordinal_def)
qed (simp add: max_ordinal_def)

lemma history_max: "history_ok as \<Longrightarrow> max_ordinal as = length as"
  by (simp add: history_ok_def max_ordinal_dense)

lemma history_last: "history_ok as \<Longrightarrow> as \<noteq> [] \<Longrightarrow> at_ordinal (last as) = length as"
  by (simp add: history_ok_def last_conv_nth)

lemma history_butlast: "history_ok as \<Longrightarrow> a \<in> set (butlast as) \<Longrightarrow> at_ordinal a \<noteq> length as"
  by (auto simp: history_ok_def in_set_conv_nth nth_butlast)

lemma find_where_snoc:
  "\<forall>a \<in> set as. \<not> p a \<Longrightarrow> p b \<Longrightarrow> find_where p (as @ [b]) = Some b"
  by (induction as) (auto simp: find_where_def)

lemma history_newest: "history_ok as \<Longrightarrow> newest_attempt as = (if as = [] then None else Some (last as))"
proof (cases "as = []")
  case False
  assume h: "history_ok as"
  have "find_where (\<lambda>a. at_ordinal a = length as) (butlast as @ [last as]) = Some (last as)"
    using history_butlast [OF h] history_last [OF h False] by (intro find_where_snoc) auto
  then show ?thesis using False history_max [OF h] by (simp add: newest_attempt_def)
qed (simp add: newest_attempt_def find_where_def)

lemma history_count: "history_ok as \<Longrightarrow> as \<noteq> [] \<Longrightarrow> count_where (\<lambda>a. at_ordinal a = length as) as = 1"
proof -
  assume h: "history_ok as" and ne: "as \<noteq> []"
  have "filter (\<lambda>a. at_ordinal a = length as) (butlast as) = []"
    using history_butlast [OF h] by (auto simp: filter_empty_conv)
  then have "filter (\<lambda>a. at_ordinal a = length as) (butlast as @ [last as]) = [last as]"
    using history_last [OF h ne] by simp
  then show ?thesis using ne by (simp add: count_where_def)
qed

definition change_last :: "('a \<Rightarrow> 'a) \<Rightarrow> 'a list \<Rightarrow> 'a list" where
  "change_last f as = butlast as @ [f (last as)]"

lemma history_changed:
  "history_ok as \<Longrightarrow> as \<noteq> [] \<Longrightarrow> changed_attempts (length as) f as = change_last f as"
proof -
  assume h: "history_ok as" and ne: "as \<noteq> []"
  have "map (\<lambda>a. if at_ordinal a = length as then f a else a) (butlast as) = butlast as"
    using history_butlast [OF h] by (intro map_idI) auto
  then have "map (\<lambda>a. if at_ordinal a = length as then f a else a) (butlast as @ [last as]) =
      butlast as @ [f (last as)]"
    using history_last [OF h ne] by simp
  then show ?thesis using ne by (simp add: changed_attempts_def update_where_def change_last_def)
qed

lemma change_last_simps [simp]:
  "change_last f as \<noteq> []" "last (change_last f as) = f (last as)" "butlast (change_last f as) = butlast as"
  "as \<noteq> [] \<Longrightarrow> length (change_last f as) = length as"
  by (simp_all add: change_last_def)

lemma newest_outcome_change_last [simp]:
  "newest_outcome (change_last f as) = Some (at_outcome (f (last as)))"
  by (simp add: newest_outcome_def)

lemma newest_outcome_append [simp]: "newest_outcome (as @ [a]) = Some (at_outcome a)"
  by (simp add: newest_outcome_def)

lemma spent_split: "as \<noteq> [] \<Longrightarrow> spent_calls as =
    spent_calls (butlast as) + (if at_outcome (last as) = AttemptTransientFailure then 0 else 1)"
proof -
  assume "as \<noteq> []"
  then have "spent_calls as = spent_calls (butlast as @ [last as])" by simp
  then show ?thesis by (simp add: spent_calls_def count_where_def)
qed

text \<open>Settling the newest call, which was counted when it was recorded.\<close>

lemma history_change_last:
  assumes h: "history_ok as" and ne: "as \<noteq> []"
    and "at_ordinal (f (last as)) = at_ordinal (last as)"
    and "at_outcome (last as) \<noteq> AttemptTransientFailure"
    and "at_outcome (f (last as)) \<in> {AttemptResponseReceived, AttemptInvalid, AttemptAccepted} \<Longrightarrow>
      at_raw (f (last as)) \<noteq> None"
  shows "history_ok (change_last f as)"
proof -
  have "at_ordinal (change_last f as ! i) = Suc i" if i: "i < length as" for i
  proof (cases "i = length as - 1")
    case True
    then show ?thesis using assms(3) history_last [OF h ne] ne by (simp add: change_last_def nth_append)
  next
    case False
    then have "change_last f as ! i = as ! i" using i ne by (simp add: change_last_def nth_append nth_butlast)
    then show ?thesis using h i by (simp add: history_ok_def)
  qed
  moreover have "spent_calls (change_last f as) \<le> spent_calls as"
    using spent_split [OF ne] spent_split [of "change_last f as"] assms(4) by simp
  moreover have "at_raw a \<noteq> None" if "a \<in> set (change_last f as)"
    "at_outcome a \<in> {AttemptResponseReceived, AttemptInvalid, AttemptAccepted}" for a
    using that h assms(5) in_set_butlastD [of a as] by (auto simp: change_last_def history_ok_def)
  ultimately show ?thesis using h ne by (auto simp: history_ok_def)
qed

text \<open>Recording the next call.\<close>

lemma history_append:
  assumes h: "history_ok as" and "spent_calls as < max_run_attempts"
    and "newest_outcome as \<notin> {Some AttemptRequested, Some AttemptResponseReceived, Some AttemptAccepted}"
    and "at_ordinal a = Suc (length as)" and "at_outcome a = AttemptRequested"
  shows "history_ok (as @ [a])"
proof -
  have "at_outcome b \<notin> {AttemptRequested, AttemptResponseReceived, AttemptAccepted}" if "b \<in> set as" for b
  proof (cases "b \<in> set (butlast as)")
    case False
    then have "b = last as" "as \<noteq> []" using that by (metis append_butlast_last_id in_set_conv_decomp
          in_set_conv_decomp_first set_ConsD Un_iff empty_iff list.set(1) set_append)+
    then show ?thesis using assms(3) by (simp add: newest_outcome_def)
  qed (use h in \<open>auto simp: history_ok_def\<close>)
  moreover have "spent_calls (as @ [a]) = Suc (spent_calls as)"
    using assms(5) by (simp add: spent_calls_def count_where_def)
  ultimately show ?thesis using assms by (auto simp: history_ok_def nth_append less_Suc_eq)
qed

text \<open>Marking the unsettled calls: only the newest can be one.\<close>

lemma history_interrupt:
  assumes h: "history_ok as"
  shows "update_where (\<lambda>a. at_outcome a = AttemptRequested) (\<lambda>a. a\<lparr>at_outcome := AttemptInterrupted\<rparr>) as =
    (if newest_outcome as = Some AttemptRequested then change_last (\<lambda>a. a\<lparr>at_outcome := AttemptInterrupted\<rparr>) as
     else as)"
proof (cases "as = []")
  case False
  have "map (\<lambda>a. if at_outcome a = AttemptRequested then a\<lparr>at_outcome := AttemptInterrupted\<rparr> else a) (butlast as) =
      butlast as"
    using h by (intro map_idI) (auto simp: history_ok_def)
  then have "map (\<lambda>a. if at_outcome a = AttemptRequested then a\<lparr>at_outcome := AttemptInterrupted\<rparr> else a)
      (butlast as @ [last as]) = butlast as @
        [if at_outcome (last as) = AttemptRequested then (last as)\<lparr>at_outcome := AttemptInterrupted\<rparr> else last as]"
    by simp
  then show ?thesis using False by (auto simp: update_where_def newest_outcome_def change_last_def)
qed (simp add: update_where_def newest_outcome_def)

section \<open>Assertions of the driver\<close>

text \<open>A run in state \<open>a\<close> with its invariant, at most \<open>k\<close> provider calls made, and \<open>F\<close> besides.\<close>

definition at_state ::
  "run_state \<Rightarrow> nat \<Rightarrow> (attempt_row list \<Rightarrow> json option \<Rightarrow> env \<Rightarrow> bool) \<Rightarrow> view_assertion" where
  "at_state a k F = (\<lambda>s as out c. s = Some a \<and> run_ok a as out \<and> env_calls c \<le> k \<and> F as out c)"

text \<open>After an error: the invariant holds, and the error had a cause.\<close>

definition fails :: "bool \<Rightarrow> nat \<Rightarrow> view_assertion" where
  "fails calm k = (\<lambda>s as out c. \<not> calm \<and> (\<exists>a. s = Some a \<and> run_ok a as out) \<and> env_calls c \<le> k)"

abbreviation triple ::
  "bool \<Rightarrow> uuid \<Rightarrow> nat \<Rightarrow> view_assertion \<Rightarrow> (world, 'e, 'a) exec \<Rightarrow> ('a \<Rightarrow> view_assertion) \<Rightarrow> bool" where
  "triple calm run k P m Q \<equiv>
     hoare (holds calm run P) m (\<lambda>x. holds calm run (Q x)) (\<lambda>_. holds calm run (fails calm k))"

lemma triple_durably: "triple calm run k P m Q \<Longrightarrow> triple calm run k P (durably m) Q"
  unfolding durably_def by (rule hoare_map_err)

lemma triple_bind:
  assumes "triple calm run k P m R" and "\<And>x. triple calm run k (R x) (f x) Q"
  shows "triple calm run k P (exec_bind m f) Q"
  by (rule hoare_bind) (use assms in auto)

lemma triple_seq:
  assumes "triple calm run k P' m (\<lambda>_. R)" and "\<And>s as out c. P s as out c \<Longrightarrow> P' s as out c"
    and "triple calm run k R f Q"
  shows "triple calm run k P (exec_bind m (\<lambda>_. f)) Q"
  by (rule triple_bind [where R = "\<lambda>_. R"])
    (use assms(1,3) in \<open>auto intro: hoare_conseq [OF assms(1)] simp: holds_def assms(2)\<close>)

lemma triple_return: "(\<And>s as out c. P s as out c \<Longrightarrow> Q x s as out c) \<Longrightarrow> triple calm run k P (exec_return x) Q"
  by (rule hoare_return) (simp add: holds_def)

lemma triple_fail: "(\<And>s as out c. P s as out c \<Longrightarrow> fails calm k s as out c) \<Longrightarrow> triple calm run k P (exec_fail e) Q"
  by (rule hoare_fail) (simp add: holds_def)

lemma triple_weaken:
  assumes "triple calm run k P m Q'" and "\<And>x s as out c. Q' x s as out c \<Longrightarrow> Q x s as out c"
  shows "triple calm run k P m Q"
  by (rule hoare_conseq [OF assms(1)]) (use assms(2) in \<open>auto simp: holds_def\<close>)

lemma triple_strengthen:
  assumes "triple calm run k P' m Q" and "\<And>s as out c. P s as out c \<Longrightarrow> P' s as out c"
  shows "triple calm run k P m Q"
  by (rule hoare_conseq [OF assms(1)]) (use assms(2) in \<open>auto simp: holds_def\<close>)

lemma triple_transition:
  assumes "legal_transition a b"
    and "\<And>as out c. F as out c \<Longrightarrow> run_ok a as out \<Longrightarrow> run_ok b as out"
  shows "triple calm run k (at_state a k F) (transition run a b) (\<lambda>_. at_state b k F)"
  unfolding transition_def
proof (rule triple_bind)
  show "triple calm run k (at_state a k F) (durably (transition_run run a b))
      (\<lambda>moved s as out c. moved \<and> at_state b k F s as out c)"
    by (intro triple_durably hoare_transition_run [OF assms(1)])
      (use assms(2) in \<open>auto simp: at_state_def fails_def\<close>)
  show "triple calm run k (\<lambda>s as out c. moved \<and> at_state b k F s as out c)
      (exec_guard moved DriveConflict) (\<lambda>_. at_state b k F)" for moved
    by (rule hoare_guard) (auto simp: holds_def)
qed

lemma triple_then_fail:
  assumes "triple False run k P m (\<lambda>_. at_state a k F)" and "\<not> calm"
  shows "triple calm run k P (exec_bind m (\<lambda>_. exec_fail e)) Q"
proof -
  have "triple False run k P (exec_bind m (\<lambda>_. exec_fail e)) Q"
    by (rule triple_bind [OF assms(1)], rule triple_fail) (auto simp: at_state_def fails_def)
  then show ?thesis using assms(2) by simp
qed

lemma triple_unreachable:
  assumes "\<And>s as out c. \<not> P s as out c"
  shows "triple calm run k P m Q"
  by (rule hoareI) (use assms in \<open>auto simp: holds_def\<close>)

lemma triple_fail_requested:
  assumes "\<not> calm" and "\<And>as out c. F as out c \<Longrightarrow> newest_outcome as \<noteq> Some AttemptRequested"
  shows "triple calm run k (at_state ModelRequested k F)
    (exec_bind (fail_requested run) (\<lambda>_. exec_fail e)) Q"
proof (rule triple_then_fail [OF _ assms(1)])
  show "triple False run k (at_state ModelRequested k F) (fail_requested run) (\<lambda>_. at_state Failed k F)"
    unfolding fail_requested_def
    by (rule triple_transition) (use assms(2) in \<open>auto simp: run_ok_def run_done_def\<close>)
qed

lemma triple_query:
  assumes "\<And>t c. P (state_of t run) (attempts_of t run) (accepted_of t run) c \<Longrightarrow>
      Q (f t) (state_of t run) (attempts_of t run) (accepted_of t run) c"
    and "\<And>s as out c. \<not> calm \<Longrightarrow> P s as out c \<Longrightarrow> fails calm k s as out c"
  shows "triple calm run k P (durably (query Query f)) Q"
  by (intro triple_durably hoare_query) (use assms in auto)

lemma triple_snapshot:
  "triple calm run k (at_state a k F) (snapshot run)
    (\<lambda>s s' as out c. at_state a k F s' as out c \<and> s = view_snapshot a as)"
  unfolding snapshot_def
proof (rule triple_bind, rule triple_query [where Q = "\<lambda>row s as out c. at_state a k F s as out c \<and>
      row = Some (view_snapshot a as)"])
  show "triple calm run k (\<lambda>s as out c. at_state a k F s as out c \<and> row = Some (view_snapshot a as))
      (case row of None \<Rightarrow> exec_fail (DrivePersistence InvalidAnalysisIdentity) | Some s \<Rightarrow> exec_return s)
      (\<lambda>s s' as out c. at_state a k F s' as out c \<and> s = view_snapshot a as)" for row
    by (cases row) (auto intro: triple_unreachable triple_return)
qed (auto simp: at_state_def fails_def)

lemma triple_accepted_output:
  "triple calm run k (at_state a k (\<lambda>as out c. out = Some v)) (accepted_output run)
    (\<lambda>x. at_state a k (\<lambda>as out c. out = Some v \<and> x = v))"
  unfolding accepted_output_def
proof (rule triple_bind, rule triple_query [where Q = "\<lambda>row s as out c.
      at_state a k (\<lambda>as out c. out = Some v) s as out c \<and> row = Some v"])
  show "triple calm run k (\<lambda>s as out c. at_state a k (\<lambda>as out c. out = Some v) s as out c \<and> row = Some v)
      (case row of None \<Rightarrow> exec_fail (DrivePersistence InvalidAnalysisIdentity) | Some v \<Rightarrow> exec_return v)
      (\<lambda>x. at_state a k (\<lambda>as out c. out = Some v \<and> x = v))" for row
    by (cases row) (auto intro: triple_unreachable triple_return simp: at_state_def)
qed (auto simp: at_state_def fails_def)

section \<open>Preparing the next call\<close>

definition callable :: "bool \<Rightarrow> attempt_row list \<Rightarrow> bool" where
  "callable calm as =
     (newest_outcome as \<notin> {Some AttemptRequested, Some AttemptResponseReceived, Some AttemptAccepted} \<and>
      (calm \<longrightarrow> spent_calls as < max_run_attempts \<and> length as + 1 < 2 ^ 15))"

definition resumable :: "bool \<Rightarrow> attempt_row list \<Rightarrow> bool" where
  "resumable calm as =
     (newest_outcome as \<noteq> Some AttemptResponseReceived \<and>
      (calm \<longrightarrow> spent_calls as < max_run_attempts \<and> length as + 1 < 2 ^ 15 \<and>
        newest_outcome as \<noteq> Some AttemptPermanentFailure \<and>
        (newest_outcome as \<in> {Some AttemptRequested, Some AttemptInterrupted} \<longrightarrow>
          abandoned_calls as < max_abandoned_calls)))"

definition pending :: "nat \<Rightarrow> attempt_row list \<Rightarrow> bool" where
  "pending n as = (as \<noteq> [] \<and> n = length as \<and> newest_outcome as = Some AttemptRequested)"

lemma spent_change_last:
  "as \<noteq> [] \<Longrightarrow> at_outcome (last as) \<noteq> AttemptTransientFailure \<Longrightarrow>
     spent_calls (change_last f as) \<le> spent_calls as"
  using spent_split [of as] spent_split [of "change_last f as"] by simp

lemma exec_bind_return_left: "exec_bind (exec_return x) f = f x"
  by (simp add: exec_bind_def exec_return_def)

lemma triple_enter_model_requested:
  assumes "a \<in> {Queued, ContextPrepared, Repaired, ModelRequested}"
  shows "triple calm run k (at_state a k F) (enter_model_requested run a) (\<lambda>_. at_state ModelRequested k F)"
proof -
  have move: "triple calm run k (at_state b k F) (transition run b c) (\<lambda>_. at_state c k F)"
    if "(b, c) \<in> {(Queued, ContextPrepared), (ContextPrepared, ModelRequested), (Repaired, ModelRequested)}" for b c
    by (rule triple_transition) (use that in \<open>auto simp: run_ok_def run_done_def\<close>)
  show ?thesis
    using assms move unfolding enter_model_requested_def
    by (elim insertE emptyE) (auto simp: exec_bind_return_left intro!: triple_bind triple_return)
qed

lemma triple_mark_interrupted:
  "triple calm run k
    (at_state ModelRequested k (\<lambda>as out c. newest_outcome as \<in> {Some AttemptRequested, Some AttemptInterrupted} \<and>
       (calm \<longrightarrow> spent_calls as < max_run_attempts \<and> length as + 1 < 2 ^ 15)))
    (durably (mark_requested_attempts_interrupted run))
    (\<lambda>_. at_state ModelRequested k (\<lambda>as out c. callable calm as))"
proof (intro triple_durably hoare_mark_interrupted)
  fix s as out c as'
  assume p: "at_state ModelRequested k (\<lambda>as out c. newest_outcome as \<in> {Some AttemptRequested, Some AttemptInterrupted} \<and>
       (calm \<longrightarrow> spent_calls as < max_run_attempts \<and> length as + 1 < 2 ^ 15)) s as out c"
    and as': "as' = update_where (\<lambda>a. at_outcome a = AttemptRequested) (\<lambda>a. a\<lparr>at_outcome := AttemptInterrupted\<rparr>) as"
  have h: "history_ok as" and ne: "as \<noteq> []"
    using p by (auto simp: at_state_def run_ok_def newest_outcome_def)
  show "at_state ModelRequested k (\<lambda>as out c. callable calm as) s as' out c \<and> (\<not> calm \<longrightarrow> fails calm k s as' out c)"
  proof (cases "newest_outcome as = Some AttemptRequested")
    case True
    then have new: "as' = change_last (\<lambda>a. a\<lparr>at_outcome := AttemptInterrupted\<rparr>) as"
      using as' history_interrupt [OF h] by simp
    have "at_outcome (last as) \<noteq> AttemptTransientFailure" using True by (simp add: newest_outcome_def split: if_splits)
    then have "history_ok as'" "spent_calls as' \<le> spent_calls as"
      unfolding new using h ne by (auto intro!: history_change_last spent_change_last)
    then show ?thesis using p ne
      by (auto simp: new at_state_def run_ok_def fails_def callable_def)
  next
    case False
    then have "as' = as" using as' history_interrupt [OF h] by simp
    then show ?thesis using p False by (auto simp: at_state_def fails_def callable_def)
  qed
qed (auto simp: at_state_def fails_def)

lemma triple_settle_in_flight:
  "triple calm run k
    (at_state ModelRequested k (\<lambda>as out c. resumable calm as \<and> s = view_snapshot a as))
    (settle_in_flight run s request)
    (\<lambda>_. at_state ModelRequested k (\<lambda>as out c. callable calm as))"
proof -
  let ?P = "at_state ModelRequested k (\<lambda>as out c. resumable calm as \<and> s = view_snapshot a as)"
  let ?Q = "at_state ModelRequested k (\<lambda>as out c. callable calm as)"
  have newest: "(sn_newest s = None \<longleftrightarrow> as = []) \<and> newest_outcome as = map_option at_outcome (sn_newest s) \<and>
      sn_abandoned s = abandoned_calls as" if "?P st as out c" for st as out c
    using that history_newest [of as] by (auto simp: at_state_def run_ok_def view_snapshot_def newest_outcome_def)
  show ?thesis
  proof (cases "sn_newest s")
    case None
    then show ?thesis using newest
      by (auto simp: settle_in_flight_def resumable_def callable_def at_state_def newest_outcome_def
          intro!: triple_return)
  next
    case (Some n)
    have out: "newest_outcome as = Some (at_outcome n)" if "?P st as out c" for st as out c
      using newest [OF that] Some by simp
    have ret: "triple calm run k ?P (exec_return x) (\<lambda>_. ?Q)"
      if "at_outcome n \<in> {AttemptTransientFailure, AttemptInvalid}" for x :: "attempt_reason \<times> generation_request"
    proof (rule triple_return)
      fix st as out' c assume p: "?P st as out' c"
      show "?Q st as out' c" using p out [OF p] that by (auto simp: at_state_def callable_def resumable_def)
    qed
    have unsettled: "triple calm run k ?P
        (exec_bind (durably (mark_requested_attempts_interrupted run)) (\<lambda>_.
           if sn_abandoned s \<ge> max_abandoned_calls
           then exec_bind (fail_requested run) (\<lambda>_. exec_fail (DrivePersistence AttemptBudgetExhausted))
           else exec_return (ReasonRetry, request))) (\<lambda>_. ?Q)"
      if o: "at_outcome n \<in> {AttemptRequested, AttemptInterrupted}"
    proof (cases "calm \<and> sn_abandoned s \<ge> max_abandoned_calls")
      case True
      show ?thesis
      proof (rule triple_unreachable)
        fix st as out' c
        show "\<not> ?P st as out' c"
        proof
          assume p: "?P st as out' c"
          show False using p newest [OF p] out [OF p] True o by (auto simp: at_state_def resumable_def)
        qed
      qed
    next
      case False
      show ?thesis
      proof (rule triple_bind [OF triple_strengthen [OF triple_mark_interrupted]])
        show "triple calm run k ?Q
            (if sn_abandoned s \<ge> max_abandoned_calls
             then exec_bind (fail_requested run) (\<lambda>_. exec_fail (DrivePersistence AttemptBudgetExhausted))
             else exec_return (ReasonRetry, request)) (\<lambda>_. ?Q)"
          using False by (auto intro!: triple_fail_requested triple_return simp: callable_def)
      next
        fix st as out' c assume p: "?P st as out' c"
        show "at_state ModelRequested k (\<lambda>as out c. newest_outcome as \<in> {Some AttemptRequested, Some AttemptInterrupted} \<and>
            (calm \<longrightarrow> spent_calls as < max_run_attempts \<and> length as + 1 < 2 ^ 15)) st as out' c"
          using p out [OF p] o by (auto simp: at_state_def resumable_def)
      qed
    qed
    have perm: "triple calm run k ?P (exec_bind (fail_requested run) (\<lambda>_. exec_fail (DriveProvider Permanent))) (\<lambda>_. ?Q)"
      if o: "at_outcome n = AttemptPermanentFailure"
    proof (cases calm)
      case True
      then show ?thesis
        using out o by (intro triple_unreachable notI) (metis (no_types, lifting) at_state_def resumable_def)
    next
      case False
      have "triple calm run k (at_state ModelRequested k (\<lambda>as out c. newest_outcome as = Some AttemptPermanentFailure))
          (exec_bind (fail_requested run) (\<lambda>_. exec_fail (DriveProvider Permanent))) (\<lambda>_. ?Q)"
        using False by (intro triple_fail_requested) auto
      then show ?thesis
      proof (rule triple_strengthen)
        fix st as out' c assume p: "?P st as out' c"
        show "at_state ModelRequested k (\<lambda>as out c. newest_outcome as = Some AttemptPermanentFailure) st as out' c"
          using p out [OF p] o by (simp add: at_state_def)
      qed
    qed
    have never: "triple calm run k ?P m (\<lambda>_. ?Q)"
      if "at_outcome n \<in> {AttemptResponseReceived, AttemptAccepted}"
      for m :: "(world, drive_failure, attempt_reason \<times> generation_request) exec"
    proof (rule triple_unreachable)
      fix st as out' c
      show "\<not> ?P st as out' c"
      proof
        assume p: "?P st as out' c"
        show False using p out [OF p] that by (auto simp: at_state_def resumable_def run_ok_def)
      qed
    qed
    show ?thesis
      using Some ret unsettled perm never
      by (cases "at_outcome n") (simp_all add: settle_in_flight_def)
  qed
qed

section \<open>One call\<close>

lemma triple_start_attempt:
  assumes "calm \<Longrightarrow> attempt_input_ok (attempt_input_of dv reason)"
  shows "triple calm run k (at_state ModelRequested k (\<lambda>as out c. callable calm as)) (start_attempt dv run reason)
    (\<lambda>n. at_state ModelRequested k (\<lambda>as out c. pending n as))"
proof -
  let ?P = "at_state ModelRequested k (\<lambda>as out c. callable calm as)"
  let ?Q = "\<lambda>n. at_state ModelRequested k (\<lambda>as out c. pending n as)"
  let ?E = "\<lambda>e s as out c. \<not> calm \<and>
     (if e = AttemptBudgetExhausted then ?P s as out c else fails calm k s as out c)"
  have rec: "hoare (holds calm run ?P) (record_attempt run (attempt_input_of dv reason))
      (\<lambda>n. holds calm run (?Q n)) (\<lambda>e. holds calm run (?E e))"
  proof (rule hoare_record_attempt)
    fix s as out c assume p: "?P s as out c" and s: "s \<noteq> None" and spent: "spent_calls as < max_run_attempts"
    let ?a = "new_attempt run (max_ordinal as + 1) (attempt_input_of dv reason)"
    have h: "history_ok as" and out: "out = None"
      using p by (auto simp: at_state_def run_ok_def run_done_def)
    have "history_ok (as @ [?a])"
      using p spent history_max [OF h]
      by (intro history_append) (auto simp: at_state_def run_ok_def callable_def new_attempt_def attempt_input_of_def)
    then show "?Q (max_ordinal as + 1) s (as @ [?a]) out c \<and> (\<not> calm \<longrightarrow> ?E Query s (as @ [?a]) out c)"
      using p out history_max [OF h]
      by (auto simp: at_state_def run_ok_def run_done_def pending_def fails_def new_attempt_def attempt_input_of_def)
  next
    fix s as out c
    assume p: "?P s as out c" and b: "2 ^ 15 \<le> max_ordinal as + 1 \<or> max_run_attempts \<le> spent_calls as"
    have "history_ok as" using p by (auto simp: at_state_def run_ok_def)
    then show "?E AttemptBudgetExhausted s as out c"
      using p b history_max [of as] by (auto simp: at_state_def callable_def)
  qed (use assms in \<open>auto simp: at_state_def fails_def\<close>)
  have handler: "triple calm run k (\<lambda>s as out c. ?E e s as out c)
      (if e = AttemptBudgetExhausted
       then exec_bind (fail_requested run) (\<lambda>_. exec_fail (DrivePersistence AttemptBudgetExhausted))
       else exec_fail (DrivePersistence e)) ?Q" for e
  proof (cases "e = AttemptBudgetExhausted \<and> \<not> calm")
    case True
    have "triple calm run k ?P (exec_bind (fail_requested run) (\<lambda>_. exec_fail (DrivePersistence AttemptBudgetExhausted))) ?Q"
      using True by (intro triple_fail_requested) (auto simp: callable_def)
    then show ?thesis using True by simp
  next
    case False
    show ?thesis
    proof (cases "e = AttemptBudgetExhausted")
      case True
      then show ?thesis using False by (intro triple_unreachable) auto
    next
      case False
      then show ?thesis by (auto intro: triple_fail)
    qed
  qed
  show ?thesis
    unfolding start_attempt_def exec_catch_def
    using rec handler unfolding hoare_def by (fastforce split: prod.splits sum.splits)
qed

text \<open>Updates of the newest attempt while it is pending.\<close>

lemma triple_update_newest:
  assumes f: "\<And>a. at_run (f a) = at_run a" "\<And>a. at_ordinal (f a) = at_ordinal a"
    and P: "\<And>s as out c. P s as out c \<Longrightarrow> at_state a k (\<lambda>as out c. as \<noteq> [] \<and> n = length as) s as out c"
    and new: "\<And>s as out c. P s as out c \<Longrightarrow> Q s (change_last f as) out c"
    and ok: "\<And>s as out c. \<not> calm \<Longrightarrow> Q s as out c \<Longrightarrow> fails calm k s as out c"
  shows "triple calm run k P (durably (update_one_attempt run n f)) (\<lambda>_. Q)"
proof (intro triple_durably hoare_update_one_attempt f(1))
  fix s as out c assume p: "P s as out c"
  have h: "history_ok as" "as \<noteq> []" "n = length as" using P [OF p] by (auto simp: at_state_def run_ok_def)
  have eq: "changed_attempts n f as = change_last f as" using history_changed [OF h(1,2)] h(3) by simp
  show "Q s (changed_attempts n f as) out c" using new [OF p] eq by simp
  show "\<not> calm \<Longrightarrow> fails calm k s (changed_attempts n f as) out c" using new [OF p] ok eq by simp
  show "count_where (\<lambda>a. at_ordinal a = n) as \<noteq> 1 \<Longrightarrow> fails calm k s (changed_attempts n f as) out c"
    using history_count [OF h(1,2)] h(3) by simp
  show "\<not> calm \<Longrightarrow> fails calm k s as out c" using P [OF p] by (auto simp: at_state_def fails_def)
qed

lemma triple_update_attempt_failure:
  assumes "\<not> calm" and "outcome \<in> {AttemptTransientFailure, AttemptPermanentFailure}"
  shows "triple calm run k (at_state ModelRequested k (\<lambda>as out c. pending n as))
    (durably (update_attempt_failure run n outcome cls status duration))
    (\<lambda>_. at_state ModelRequested k (\<lambda>as out c. newest_outcome as = Some outcome))"
proof -
  let ?f = "\<lambda>a. a\<lparr>at_outcome := outcome, at_class := cls, at_status := status, at_duration := Some duration\<rparr>"
  have "triple calm run k (at_state ModelRequested k (\<lambda>as out c. pending n as))
      (durably (update_one_attempt run n ?f))
      (\<lambda>_. at_state ModelRequested k (\<lambda>as out c. newest_outcome as = Some outcome))"
  proof (rule triple_update_newest)
    fix s as out c assume p: "at_state ModelRequested k (\<lambda>as out c. pending n as) s as out c"
    then have "history_ok (change_last ?f as)"
      using assms(2) by (intro history_change_last) (auto simp: at_state_def run_ok_def pending_def newest_outcome_def)
    then show "at_state ModelRequested k (\<lambda>as out c. newest_outcome as = Some outcome) s (change_last ?f as) out c"
      using p assms(2) by (auto simp: at_state_def run_ok_def)
  qed (use assms in \<open>auto simp: at_state_def pending_def fails_def\<close>)
  then show ?thesis using assms(2) by (simp add: update_attempt_failure_def)
qed

definition reply_answers :: "provider_reply \<Rightarrow> bool" where
  "reply_answers reply = (case reply of Responded _ \<Rightarrow> True | _ \<Rightarrow> False)"

lemma triple_settle_call:
  assumes "calm \<longrightarrow> reply_answers reply" and call: "cl_run call = run" "cl_ordinal call = n"
  shows "triple calm run k (at_state ModelRequested k (\<lambda>as out c. pending n as)) (settle_call call reply)
    (\<lambda>called s as out c. case called of
       CalledResponse r \<Rightarrow> reply = Responded r \<and> at_state ModelRequested k (\<lambda>as out c. pending n as) s as out c
     | CalledRetry \<Rightarrow> \<not> calm \<and> \<not> cl_last call \<and> at_state ModelRequested k (\<lambda>as out c. callable calm as) s as out c)"
  (is "triple calm run k ?P _ ?Q")
proof -
  have failed: "triple calm run k ?P
      (exec_bind (durably (update_attempt_failure (cl_run call) (cl_ordinal call) outcome (Some cls) status
         (cl_duration call))) (\<lambda>_.
       if retry_now \<and> \<not> cl_last call then exec_return CalledRetry
       else exec_bind (fail_requested (cl_run call)) (\<lambda>_. exec_fail failure))) ?Q"
    if "\<not> calm" and o: "outcome \<in> {AttemptTransientFailure, AttemptPermanentFailure}"
    for outcome cls status retry_now failure
  proof (rule triple_bind)
    show "triple calm run k ?P (durably (update_attempt_failure (cl_run call) (cl_ordinal call) outcome (Some cls)
          status (cl_duration call)))
        (\<lambda>_. at_state ModelRequested k (\<lambda>as out c. newest_outcome as = Some outcome))"
      using triple_update_attempt_failure [OF that] call by simp
    show "triple calm run k (at_state ModelRequested k (\<lambda>as out c. newest_outcome as = Some outcome))
        (if retry_now \<and> \<not> cl_last call then exec_return CalledRetry
         else exec_bind (fail_requested (cl_run call)) (\<lambda>_. exec_fail failure)) ?Q"
    proof (cases "retry_now \<and> \<not> cl_last call")
      case True
      then show ?thesis using that by (auto intro!: triple_return simp: at_state_def callable_def)
    next
      case False
      have "triple calm run k (at_state ModelRequested k (\<lambda>as out c. newest_outcome as = Some outcome))
          (exec_bind (fail_requested run) (\<lambda>_. exec_fail failure)) ?Q"
        using that by (intro triple_fail_requested) auto
      then show ?thesis using False call by auto
    qed
  qed
  show ?thesis
  proof (cases reply)
    case (Responded r)
    then show ?thesis by (auto simp: settle_call_def intro!: triple_return)
  next
    case TimedOut
    then show ?thesis
      using failed [of AttemptTransientFailure ClassTimeout None True DriveTimeout] assms(1)
      by (simp add: settle_call_def reply_answers_def)
  next
    case (FailedCall f)
    then show ?thesis
      using failed [of "if is_recoverable f then AttemptTransientFailure else AttemptPermanentFailure"
          "pf_class f" "status_i16 (pf_http_status f)" "is_transient f" "DriveProvider (pf_error f)"] assms(1)
      by (simp add: settle_call_def reply_answers_def)
  qed
qed

section \<open>One response\<close>

definition blob_present :: "blob_ref \<Rightarrow> env \<Rightarrow> bool" where
  "blob_present raw c = (env_files c (br_digest raw) \<noteq> None)"

lemma blob_present_le: "blob_present raw c \<Longrightarrow> env_le c c' \<Longrightarrow> blob_present raw c'"
  by (auto simp: blob_present_def env_le_def)

text \<open>The newest attempt has outcome \<open>outcome\<close> and holds the response \<open>raw\<close>, whose bytes are stored.\<close>

definition answered :: "nat \<Rightarrow> blob_ref \<Rightarrow> attempt_outcome \<Rightarrow> attempt_row list \<Rightarrow> env \<Rightarrow> bool" where
  "answered n raw outcome as c =
     (as \<noteq> [] \<and> n = length as \<and> newest_outcome as = Some outcome \<and> at_raw (last as) = Some raw \<and>
      blob_present raw c)"

lemma triple_store_response:
  assumes call: "cl_run call = run" "cl_ordinal call = n"
    and fits: "calm \<longrightarrow> length (resp_bytes response) \<le> bs_max_bytes (dv_store dv)"
  shows "triple calm run k (at_state ModelRequested k (\<lambda>as out c. pending n as)) (store_response dv call response)
    (\<lambda>raw s as out c. raw = blob_reference (dv_store dv) (resp_bytes response) \<and> blob_present raw c \<and>
      at_state ModelRequested k (\<lambda>as out c. pending n as) s as out c)"
    (is "triple calm run k ?P _ ?Q")
proof (cases "length (resp_bytes response) \<le> bs_max_bytes (dv_store dv)")
  case True
  have "triple calm run k ?P (store_raw (dv_store dv) (resp_bytes response)) ?Q"
    by (rule hoare_store_raw [OF True])
      (auto simp: at_state_def fails_def blob_present_def blob_reference_def env_le_def)
  moreover have "e \<noteq> TooLarge" if "store_raw (dv_store dv) (resp_bytes response) w = (Inl e, w')" for e w w'
    using that True
    by (auto simp: store_raw_def blob_path_exists_def exec_bind_def exec_return_def file_read_def file_write_def
        split: if_splits sum.splits prod.splits)
  ultimately show ?thesis
    unfolding store_response_def exec_catch_def hoare_def
    by (fastforce simp: exec_fail_def split: prod.splits sum.splits)
next
  case False
  then have eq: "store_response dv call response =
      exec_bind (durably (update_attempt_failure run n AttemptPermanentFailure (Some ClassSizeLimit) None
        (cl_duration call))) (\<lambda>_. exec_bind (fail_requested run) (\<lambda>_. exec_fail (DriveBlob TooLarge)))"
    using call by (simp add: store_response_def store_raw_def exec_catch_def exec_fail_def fun_eq_iff)
  show ?thesis unfolding eq
    by (rule triple_bind, rule triple_update_attempt_failure [where outcome = AttemptPermanentFailure])
      (use fits False in \<open>auto intro!: triple_fail_requested\<close>)
qed

lemma triple_record_response:
  assumes call: "cl_run call = run" "cl_ordinal call = n"
    and raw: "raw = blob_reference (dv_store dv) (resp_bytes response)"
    and fits: "newest_fits a (Some outcome)" "outcome \<in> {AttemptResponseReceived, AttemptInvalid, AttemptAccepted}"
      "\<not> run_done a"
    and good: "calm \<longrightarrow> is_digest_hex (bs_sha (dv_store dv) (resp_bytes response)) \<and>
      unat (input_tokens (resp_usage response)) < 2 ^ 63 \<and> unat (output_tokens (resp_usage response)) < 2 ^ 63"
  shows "triple calm run k
    (at_state a k (\<lambda>as out c. as \<noteq> [] \<and> n = length as \<and> blob_present raw c \<and>
       newest_outcome as \<in> {Some AttemptRequested, Some AttemptResponseReceived}))
    (record_response dv call raw response outcome code)
    (\<lambda>_. at_state a k (\<lambda>as out c. answered n raw outcome as c))"
proof -
  let ?u = "response_update call raw response outcome code"
  let ?f = "apply_update ?u (unat (au_input ?u)) (unat (au_output ?u))"
  let ?P = "at_state a k (\<lambda>as out c. as \<noteq> [] \<and> n = length as \<and> blob_present raw c \<and>
       newest_outcome as \<in> {Some AttemptRequested, Some AttemptResponseReceived})"
  have new: "at_state a k (\<lambda>as out c. answered n raw outcome as c) s (changed_attempts n ?f as) out c'"
    if p: "?P s as out c" and le: "env_le c c'" for s as out c c'
  proof -
    have h: "history_ok as" "as \<noteq> []" "n = length as" using p by (auto simp: at_state_def run_ok_def)
    have "history_ok (change_last ?f as)"
      using p fits(2) by (intro history_change_last)
        (auto simp: at_state_def run_ok_def newest_outcome_def apply_update_def response_update_def)
    then show ?thesis
      using p le fits h history_changed [OF h(1,2), of ?f] blob_present_le [of raw c c']
      by (auto simp: at_state_def run_ok_def answered_def apply_update_def response_update_def env_le_def)
  qed
  have same: "fails calm k s as out c'" if "?P s as out c" "env_le c c'" "\<not> calm" for s as out c c'
    using that by (auto simp: at_state_def fails_def env_le_def)
  show ?thesis unfolding record_response_def call
  proof (intro triple_durably hoare_update_attempt)
    fix s as out c c' assume p: "?P s as out c" and le: "env_le c c'"
    show "count_where (\<lambda>a. at_ordinal a = n) as \<noteq> 1 \<Longrightarrow> fails calm k s as out c'"
      using p history_count [of as] by (auto simp: at_state_def run_ok_def)
    show "at_state a k (\<lambda>as out c. answered n raw outcome as c) s (changed_attempts n ?f as) out c'"
      by (rule new [OF p le])
    show "fails calm k s as out c' \<and> (count_where (\<lambda>a. at_ordinal a = n) as = 1 \<longrightarrow>
        fails calm k s (changed_attempts n ?f as) out c')" if "\<not> calm"
      using same [OF p le that] new [OF p le] that by (auto simp: at_state_def fails_def)
  next
    fix s as out c assume p: "?P s as out c"
    show "2 ^ 63 \<le> unat (au_input ?u) \<or> 2 ^ 63 \<le> unat (au_output ?u) \<Longrightarrow> fails calm k s as out c"
      using same [OF p env_le_refl] good by (auto simp: response_update_def)
    show "calm \<Longrightarrow> blob_available (dv_store dv) (env_files c) (au_raw ?u) (Some (au_held ?u))"
      using p good raw by (auto simp: response_update_def blob_available_def blob_reference_def at_state_def
          blob_present_def)
  qed
qed

lemma triple_begin_repair:
  "triple calm run k (at_state ResponseReceived k (\<lambda>as out c. newest_outcome as = Some AttemptInvalid \<and> F as out c))
    (begin_repair run)
    (\<lambda>_. at_state ModelRequested k (\<lambda>as out c. newest_outcome as = Some AttemptInvalid \<and> F as out c))"
  unfolding begin_repair_def
proof (rule triple_bind)
  show "triple calm run k (at_state ResponseReceived k (\<lambda>as out c. newest_outcome as = Some AttemptInvalid \<and> F as out c))
      (transition run ResponseReceived Repaired)
      (\<lambda>_. at_state Repaired k (\<lambda>as out c. newest_outcome as = Some AttemptInvalid \<and> F as out c))"
    by (rule triple_transition) (auto simp: run_ok_def run_done_def)
  show "triple calm run k (at_state Repaired k (\<lambda>as out c. newest_outcome as = Some AttemptInvalid \<and> F as out c))
      (transition run Repaired ModelRequested)
      (\<lambda>_. at_state ModelRequested k (\<lambda>as out c. newest_outcome as = Some AttemptInvalid \<and> F as out c))"
    by (rule triple_transition) (auto simp: run_ok_def run_done_def)
qed

lemma triple_fail_from:
  assumes "\<not> calm" and "legal_transition a Failed" and "\<not> run_done a"
    and "\<And>as out c. F as out c \<Longrightarrow> newest_outcome as \<noteq> Some AttemptRequested"
  shows "triple calm run k (at_state a k F) (exec_bind (transition run a Failed) (\<lambda>_. exec_fail e)) Q"
proof (rule triple_then_fail [OF _ assms(1)])
  show "triple False run k (at_state a k F) (transition run a Failed) (\<lambda>_. at_state Failed k F)"
    by (rule triple_transition [OF assms(2)]) (use assms(3,4) in \<open>auto simp: run_ok_def run_done_def\<close>)
qed

lemma at_state_mono:
  "at_state a k F s as out c \<Longrightarrow> k \<le> k' \<Longrightarrow> (F as out c \<Longrightarrow> G as out c) \<Longrightarrow> at_state a k' G s as out c"
  by (simp add: at_state_def)

lemma triple_raise:
  assumes "triple calm run k P m Q" and "k \<le> k'"
  shows "triple calm run k' P m Q"
  by (rule hoare_conseq [OF assms(1)]) (use assms(2) in \<open>auto simp: holds_def fails_def\<close>)

section \<open>A stored response\<close>

text \<open>The newest attempt's response is on disk, intact, and the validator accepts it.\<close>

definition stored_good :: "driver \<Rightarrow> validator \<Rightarrow> attempt_row list \<Rightarrow> env \<Rightarrow> bool" where
  "stored_good dv validate as c =
     (as \<noteq> [] \<and> (case at_raw (last as) of None \<Rightarrow> False
      | Some raw \<Rightarrow> (case env_files c (br_digest raw) of None \<Rightarrow> False
         | Some content \<Rightarrow> br_owner raw = knowledge_owner \<and> br_media raw = json_media \<and>
             br_length raw = length content \<and> length content \<le> bs_max_bytes (dv_store dv) \<and>
             bs_sha (dv_store dv) content = br_digest raw \<and> is_digest_hex (br_digest raw) \<and>
             (\<exists>v. validate content = Inr v))))"

lemma blob_read_result:
  "blob_read store raw w = (r, w') \<Longrightarrow>
     w' = w \<and> (\<exists>e. r = Inl e) \<or>
     w' = tick w \<and> ((\<exists>e. r = Inl e) \<or> (\<exists>content. r = Inr content \<and> disk w (br_digest raw) = Some content))"
  by (auto simp: blob_read_def exec_fail_def exec_bind_def exec_return_def
      split: if_splits sum.splits prod.splits option.splits dest!: file_read_cases)

lemma blob_read_works:
  assumes "no_faults w" and "stored_good dv validate as (Env n (disk w))" and "at_raw (last as) = Some raw"
  shows "\<exists>content v. disk w (br_digest raw) = Some content \<and> validate content = Inr v \<and>
    blob_read (dv_store dv) raw w = (Inr content, w)"
proof -
  obtain content v where d: "disk w (br_digest raw) = Some content" and v: "validate content = Inr v"
    and ok: "br_owner raw = knowledge_owner" "br_media raw = json_media" "br_length raw = length content"
      "length content \<le> bs_max_bytes (dv_store dv)" "bs_sha (dv_store dv) content = br_digest raw"
    using assms(2,3) by (auto simp: stored_good_def split: option.splits)
  show ?thesis
    using d v ok assms(1) by (simp add: blob_read_def file_read_def exec_bind_def exec_return_def)
qed

lemma env_le_same_files: "env_le c c' \<Longrightarrow> env_files c' = env_files c \<Longrightarrow> c' = c"
  by (simp add: env_le_def env.expand)

lemma triple_blob_read:
  assumes "\<And>s as out c. P s as out c \<Longrightarrow> \<not> calm \<Longrightarrow> fails calm k s as out c"
    and "\<And>s as out c. P s as out c \<Longrightarrow> calm \<Longrightarrow> stored_good dv validate as c \<and> at_raw (last as) = Some raw"
  shows "triple calm run k P (exec_map_err DriveBlob (blob_read (dv_store dv) raw))
    (\<lambda>content s as out c. P s as out c \<and> env_files c (br_digest raw) = Some content)"
proof (rule hoare_map_err, rule hoare_grows)
  show "no_calls (blob_read (dv_store dv) raw)" by (rule unchanged_rules)
  show "grows w w'" if "blob_read (dv_store dv) raw w = (r, w')" for w r w'
    using blob_read_result [OF that] by (auto simp: grows_def)
  fix w assume calm and w: "holds calm run P w"
  then have "P (state_of (tables w) run) (attempts_of (tables w) run) (accepted_of (tables w) run)
      (Env (provider_calls w) (disk w))" by (simp add: holds_def)
  note assms(2) [OF this \<open>calm\<close>]
  then show "\<exists>x w'. blob_read (dv_store dv) raw w = (Inr x, w') \<and> no_faults w'"
    using blob_read_works [of w] w \<open>calm\<close> unfolding holds_def by blast
next
  fix w x w' s as out c c'
  assume run: "blob_read (dv_store dv) raw w = (Inr x, w')" and p: "P s as out c" and le: "env_le c c'"
    and f: "env_files c = disk w" "env_files c' = disk w'"
  have d: "disk w' = disk w" "disk w (br_digest raw) = Some x"
    using blob_read_result [OF run] by auto
  then have "c' = c" using env_le_same_files [OF le] f by simp
  then show "P s as out c' \<and> env_files c' (br_digest raw) = Some x" using p f d by simp
next
  fix s as out c c' and e :: blob_error
  assume nc: "\<not> calm" and p: "P s as out c" and le: "env_le c c'"
  show "fails calm k s as out c'" using assms(1) [OF p nc] le by (auto simp: fails_def env_le_def)
qed

text \<open>What is known when a stored response \<open>raw\<close> of the newest attempt has been read as \<open>content\<close>.\<close>

definition stored_pre ::
  "driver \<Rightarrow> validator \<Rightarrow> bool \<Rightarrow> run_state \<Rightarrow> snapshot \<Rightarrow> attempt_row list \<Rightarrow> env \<Rightarrow> bool" where
  "stored_pre dv validate b a s as c = (s = view_snapshot a as \<and> (b \<longrightarrow> stored_good dv validate as c))"

lemma stored_pre_newest:
  assumes "at_state a k (\<lambda>as out c. stored_pre dv validate b a s as c) st as out c"
    and "a \<in> {ResponseReceived, SchemaValidated}"
  shows "\<exists>raw. sn_newest s = Some (last as) \<and> sn_state s = a \<and> as \<noteq> [] \<and> at_raw (last as) = Some raw \<and>
    at_ordinal (last as) = length as"
proof -
  have h: "history_ok as" and f: "newest_fits a (newest_outcome as)" and s: "s = view_snapshot a as"
    using assms(1) by (auto simp: at_state_def run_ok_def stored_pre_def)
  have ne: "as \<noteq> []" using f assms(2) by (auto simp: newest_outcome_def)
  have "at_outcome (last as) \<in> {AttemptResponseReceived, AttemptInvalid, AttemptAccepted}"
    using f assms(2) ne by (auto simp: newest_outcome_def)
  then have "at_raw (last as) \<noteq> None" using h ne by (auto simp: history_ok_def)
  then show ?thesis using s ne history_newest [OF h] history_last [OF h ne] by (auto simp: view_snapshot_def)
qed

lemma stored_good_content:
  "stored_good dv validate as c \<Longrightarrow> at_raw (last as) = Some raw \<Longrightarrow> env_files c (br_digest raw) = Some content \<Longrightarrow>
     (\<exists>v. validate content = Inr v) \<and> is_digest_hex (br_digest raw)"
  by (auto simp: stored_good_def)

text \<open>Rewriting the outcome of an answered newest attempt.\<close>

lemma triple_set_newest_outcome:
  assumes "outcome \<in> {AttemptInvalid, AttemptAccepted}"
    and P: "\<And>s as out c. P s as out c \<Longrightarrow> s = Some ResponseReceived \<and> run_ok ResponseReceived as out \<and>
      env_calls c \<le> k \<and> as \<noteq> [] \<and> at_raw (last as) = Some raw \<and> blob_present raw c \<and> n = length as"
  shows "triple calm run k P (durably (set_attempt_outcome run n outcome code))
    (\<lambda>_. at_state ResponseReceived k (\<lambda>as out c. answered n raw outcome as c))"
  unfolding set_attempt_outcome_def
proof (rule triple_update_newest)
  let ?f = "\<lambda>a. a\<lparr>at_outcome := outcome, at_code := code\<rparr>"
  fix s as out c assume p: "P s as out c"
  have q: "s = Some ResponseReceived" "run_ok ResponseReceived as out" "env_calls c \<le> k" "as \<noteq> []"
    "at_raw (last as) = Some raw" "blob_present raw c" "n = length as" using P [OF p] by auto
  then show "at_state ResponseReceived k (\<lambda>as out c. as \<noteq> [] \<and> n = length as) s as out c"
    by (simp add: at_state_def)
  have "history_ok (change_last ?f as)"
    using q by (intro history_change_last) (auto simp: run_ok_def newest_outcome_def)
  then show "at_state ResponseReceived k (\<lambda>as out c. answered n raw outcome as c) s (change_last ?f as) out c"
    using q assms(1) by (auto simp: at_state_def run_ok_def answered_def)
qed (auto simp: at_state_def fails_def)

lemma triple_recover_stored:
  assumes a: "a \<in> {ResponseReceived, SchemaValidated}" and b: "calm \<Longrightarrow> b"
  shows "triple calm run k (at_state a k (\<lambda>as out c. stored_pre dv validate b a s as c))
    (recover_stored dv validate run s request)
    (\<lambda>stored st as out c. case stored of
       StoredAccepted v raw \<Rightarrow> (\<exists>content. validate content = Inr v) \<and>
         at_state SchemaValidated k (\<lambda>as out c. \<exists>n. answered n raw AttemptAccepted as c \<and>
           (calm \<longrightarrow> is_digest_hex (br_digest raw))) st as out c
     | StoredRepair request \<Rightarrow> \<not> b \<and> at_state ModelRequested k (\<lambda>as out c. callable calm as) st as out c)"
    (is "triple calm run k ?P _ ?Q")
proof (cases "\<exists>n raw. sn_newest s = Some n \<and> at_raw n = Some raw \<and> sn_state s = a")
  case False
  show ?thesis
  proof (rule triple_unreachable)
    fix st as out' c show "\<not> ?P st as out' c"
      using stored_pre_newest [OF _ a, of k dv validate b s st as out' c] False by blast
  qed
next
  case True
  then obtain n raw where s: "sn_newest s = Some n" "at_raw n = Some raw" "sn_state s = a" by blast
  let ?C = "\<lambda>content st as out c. ?P st as out c \<and> env_files c (br_digest raw) = Some content"
  have newest: "last as = n \<and> as \<noteq> [] \<and> at_ordinal n = length as" if "?P st as out' c" for st as out' c
    using stored_pre_newest [OF that a] s by auto
  have read: "triple calm run k ?P (exec_map_err DriveBlob (blob_read (dv_store dv) raw)) ?C"
  proof (rule triple_blob_read [where validate = validate])
    fix st as out' c assume p: "?P st as out' c"
    show "\<not> calm \<Longrightarrow> fails calm k st as out' c" using p by (auto simp: at_state_def fails_def)
    show "calm \<Longrightarrow> stored_good dv validate as c \<and> at_raw (last as) = Some raw"
      using p newest [OF p] s b by (auto simp: at_state_def stored_pre_def)
  qed
  have accepted: "triple calm run k (?C content)
     (exec_bind (if a = SchemaValidated then exec_return ()
        else exec_bind (durably (set_attempt_outcome run (at_ordinal n) AttemptAccepted None))
          (\<lambda>_. transition run ResponseReceived SchemaValidated))
      (\<lambda>_. exec_return (StoredAccepted v raw))) ?Q" if "validate content = Inr v" for content v
  proof (cases "\<forall>st as out c. \<not> ?C content st as out c")
    case True
    then show ?thesis by (intro triple_unreachable) blast
  next
    case reach: False
    let ?A = "\<lambda>as c. answered (at_ordinal n) raw AttemptAccepted as c"
    have hex: "calm \<Longrightarrow> is_digest_hex (br_digest raw)"
    proof -
      assume calm
      obtain st as out' c where c: "?C content st as out' c" using reach by blast
      then show ?thesis using newest [of st as out' c] s b [OF \<open>calm\<close>]
          stored_good_content [of dv validate as c raw content]
        by (auto simp: at_state_def stored_pre_def)
    qed
    have fin: "triple calm run k (at_state SchemaValidated k (\<lambda>as out c. ?A as c))
        (exec_return (StoredAccepted v raw)) ?Q"
      by (rule triple_return) (use hex that in \<open>auto simp: at_state_def\<close>)
    show ?thesis
    proof (cases "a = SchemaValidated")
      case True
      show ?thesis
      proof (simp only: True if_True refl exec_bind_return_left, rule triple_strengthen [OF fin])
        fix st as out' c
        assume "at_state SchemaValidated k (\<lambda>as out c. stored_pre dv validate b SchemaValidated s as c) st as out' c \<and>
          env_files c (br_digest raw) = Some content"
        then have p: "?C content st as out' c" using True by simp
        then have ab: "last as = n \<and> as \<noteq> [] \<and> at_ordinal n = length as"
          using newest [of st as out' c] by blast
        show "at_state SchemaValidated k (\<lambda>as out c. ?A as c) st as out' c"
          using p ab s True by (auto simp: at_state_def run_ok_def answered_def blob_present_def)
      qed
    next
      case False
      then have rr: "a = ResponseReceived" using a by simp
      have "triple calm run k (?C content)
          (exec_bind (durably (set_attempt_outcome run (at_ordinal n) AttemptAccepted None))
            (\<lambda>_. transition run ResponseReceived SchemaValidated))
          (\<lambda>_. at_state SchemaValidated k (\<lambda>as out c. ?A as c))"
      proof (rule triple_bind [OF triple_set_newest_outcome [where raw = raw]])
        fix st as out' c assume p: "?C content st as out' c"
        then have ab: "last as = n \<and> as \<noteq> [] \<and> at_ordinal n = length as"
          using newest [of st as out' c] by blast
        show "st = Some ResponseReceived \<and> run_ok ResponseReceived as out' \<and> env_calls c \<le> k \<and> as \<noteq> [] \<and>
            at_raw (last as) = Some raw \<and> blob_present raw c \<and> at_ordinal n = length as"
          using p ab s rr by (auto simp: at_state_def blob_present_def)
      next
        show "triple calm run k (at_state ResponseReceived k (\<lambda>as out c. ?A as c))
            (transition run ResponseReceived SchemaValidated) (\<lambda>_. at_state SchemaValidated k (\<lambda>as out c. ?A as c))"
          by (rule triple_transition) (auto simp: run_ok_def run_done_def answered_def)
      qed simp
      then show ?thesis using False triple_bind [OF _ fin] by simp
    qed
  qed
  have rejected: "triple calm run k (?C content)
     (if a = SchemaValidated
      then exec_bind (transition run SchemaValidated Failed) (\<lambda>_. exec_fail DriveInvalid)
      else exec_bind (durably (set_attempt_outcome run (at_ordinal n) AttemptInvalid (Some code))) (\<lambda>_.
        if at_reason n = ReasonRepair
        then exec_bind (transition run ResponseReceived Failed) (\<lambda>_. exec_fail DriveInvalid)
        else exec_bind (begin_repair run) (\<lambda>_. exec_return (StoredRepair (push_repair request code))))) ?Q"
    if code: "validate content = Inl code" for content code
  proof (cases b)
    case True
    show ?thesis
    proof (rule triple_unreachable)
      fix st as out' c
      show "\<not> ?C content st as out' c"
        using newest [of st as out' c] s True code stored_good_content [of dv validate as c raw content]
        by (auto simp: at_state_def stored_pre_def)
    qed
  next
    case False
    then have nc: "\<not> calm" using b by blast
    show ?thesis
    proof (cases "a = SchemaValidated")
      case True
      have "triple calm run k (at_state SchemaValidated k (\<lambda>as out c. newest_outcome as = Some AttemptAccepted))
          (exec_bind (transition run SchemaValidated Failed) (\<lambda>_. exec_fail DriveInvalid)) ?Q"
        by (rule triple_fail_from [OF nc]) (auto simp: run_done_def)
      then show ?thesis using True
        by (simp, elim triple_strengthen) (auto simp: at_state_def run_ok_def)
    next
      case False
      then have rr: "a = ResponseReceived" using a by simp
      let ?I = "at_state ResponseReceived k (\<lambda>as out c. newest_outcome as = Some AttemptInvalid \<and> True)"
      have "triple calm run k (?C content)
          (exec_bind (durably (set_attempt_outcome run (at_ordinal n) AttemptInvalid (Some code))) (\<lambda>_.
            if at_reason n = ReasonRepair
            then exec_bind (transition run ResponseReceived Failed) (\<lambda>_. exec_fail DriveInvalid)
            else exec_bind (begin_repair run) (\<lambda>_. exec_return (StoredRepair (push_repair request code))))) ?Q"
      proof (rule triple_bind [OF triple_weaken [OF triple_set_newest_outcome [where raw = raw]]])
        fix st as out' c assume p: "?C content st as out' c"
        then have ab: "last as = n \<and> as \<noteq> [] \<and> at_ordinal n = length as"
          using newest [of st as out' c] by blast
        show "st = Some ResponseReceived \<and> run_ok ResponseReceived as out' \<and> env_calls c \<le> k \<and> as \<noteq> [] \<and>
            at_raw (last as) = Some raw \<and> blob_present raw c \<and> at_ordinal n = length as"
          using p ab s rr by (auto simp: at_state_def blob_present_def)
      next
        show "?I st as out' c"
          if "at_state ResponseReceived k (\<lambda>as out c. answered (at_ordinal n) raw AttemptInvalid as c) st as out' c"
          for st as out' c using that by (auto simp: at_state_def answered_def)
        have fail: "triple calm run k ?I (exec_bind (transition run ResponseReceived Failed)
            (\<lambda>_. exec_fail DriveInvalid)) ?Q"
          by (rule triple_fail_from [OF nc]) (auto simp: run_done_def)
        have repair: "triple calm run k ?I (exec_bind (begin_repair run)
            (\<lambda>_. exec_return (StoredRepair (push_repair request code)))) ?Q"
          by (intro triple_bind [OF triple_begin_repair] triple_return)
            (use nc \<open>\<not> b\<close> in \<open>auto simp: at_state_def callable_def\<close>)
        show "triple calm run k ?I (if at_reason n = ReasonRepair
            then exec_bind (transition run ResponseReceived Failed) (\<lambda>_. exec_fail DriveInvalid)
            else exec_bind (begin_repair run) (\<lambda>_. exec_return (StoredRepair (push_repair request code)))) ?Q"
          using fail repair by simp
      qed simp
      then show ?thesis using False by simp
    qed
  qed
  have "triple calm run k ?P
     (exec_bind (exec_map_err DriveBlob (blob_read (dv_store dv) raw)) (\<lambda>content.
        case validate content of
          Inr v \<Rightarrow> exec_bind (if a = SchemaValidated then exec_return ()
            else exec_bind (durably (set_attempt_outcome run (at_ordinal n) AttemptAccepted None))
              (\<lambda>_. transition run ResponseReceived SchemaValidated)) (\<lambda>_. exec_return (StoredAccepted v raw))
        | Inl code \<Rightarrow> if a = SchemaValidated
            then exec_bind (transition run SchemaValidated Failed) (\<lambda>_. exec_fail DriveInvalid)
            else exec_bind (durably (set_attempt_outcome run (at_ordinal n) AttemptInvalid (Some code))) (\<lambda>_.
              if at_reason n = ReasonRepair
              then exec_bind (transition run ResponseReceived Failed) (\<lambda>_. exec_fail DriveInvalid)
              else exec_bind (begin_repair run) (\<lambda>_. exec_return (StoredRepair (push_repair request code)))))) ?Q"
    by (rule triple_bind [OF read]) (use accepted rejected in \<open>auto split: sum.splits\<close>)
  then show ?thesis using s by (simp add: recover_stored_def Let_def)
qed

section \<open>Where a drive can start\<close>

text \<open>The newest attempt waits with a stored response that the validator accepts.\<close>

definition answered_well :: "driver \<Rightarrow> validator \<Rightarrow> run_state \<Rightarrow> attempt_row list \<Rightarrow> env \<Rightarrow> bool" where
  "answered_well dv validate a as c =
     ((a \<in> {ResponseReceived, SchemaValidated} \<or>
       a = ModelRequested \<and> newest_outcome as = Some AttemptResponseReceived) \<and> stored_good dv validate as c)"

text \<open>The run can still get to an accepted output.\<close>

definition live :: "driver \<Rightarrow> validator \<Rightarrow> run_state \<Rightarrow> attempt_row list \<Rightarrow> env \<Rightarrow> bool" where
  "live dv validate a as c =
     (run_done a \<or> answered_well dv validate a as c \<or>
      a = Failed \<and> newest_outcome as = Some AttemptTransientFailure \<and>
        spent_calls as < max_run_attempts \<and> length as + 1 < 2 ^ 15 \<or>
      a \<in> {Queued, ContextPrepared, Repaired, ModelRequested} \<and> resumable True as)"

definition call_bound :: "bool \<Rightarrow> nat \<Rightarrow> nat" where
  "call_bound b k = (if b then k else k + calls_per_drive)"

definition settled ::
  "driver \<Rightarrow> validator \<Rightarrow> bool \<Rightarrow> bool \<Rightarrow> nat \<Rightarrow> snapshot \<Rightarrow> view_assertion" where
  "settled dv validate calm b k s = (\<lambda>st as out c.
     if sn_state s \<in> {ResponseReceived, SchemaValidated}
     then at_state (sn_state s) k (\<lambda>as out c. stored_pre dv validate (b \<or> calm) (sn_state s) s as c) st as out c
     else \<not> b \<and> sn_state s \<in> {Queued, ContextPrepared, Repaired, ModelRequested} \<and>
       at_state (sn_state s) k (\<lambda>as out c. resumable calm as \<and> s = view_snapshot (sn_state s) as) st as out c)"

lemma hoare_ex:
  assumes "\<And>x. hoare (P x) m Q E"
  shows "hoare (\<lambda>w. \<exists>x. P x w) m Q E"
  by (rule hoareI) (use hoareD [OF assms] in blast)+

lemma triple_ex:
  assumes "\<And>x. triple calm run k (P x) m Q"
  shows "triple calm run k (\<lambda>s as out c. \<exists>x. P x s as out c) m Q"
  by (rule hoare_conseq [OF hoare_ex [OF assms]]) (auto simp: holds_def)

lemma triple_reopen:
  "triple calm run k
    (at_state Failed k (\<lambda>as out c. s = view_snapshot Failed as \<and> (calm \<longrightarrow> live dv validate Failed as c)))
    (reopen run s)
    (\<lambda>_. at_state Queued k (\<lambda>as out c. resumable calm as))"
    (is "triple calm run k ?P _ ?Q")
proof (cases "map_option at_outcome (sn_newest s) = Some AttemptTransientFailure \<and> sn_spent s < max_run_attempts")
  case True
  have newest: "newest_outcome as = Some AttemptTransientFailure" if "?P st as out c" for st as out c
    using that True history_newest [of as]
    by (auto simp: at_state_def run_ok_def view_snapshot_def newest_outcome_def split: if_splits)
  have "triple calm run k ?P (durably (reopen_failed_run run))
      (\<lambda>moved st as out c. moved \<and> at_state Queued k (\<lambda>as out c. resumable calm as) st as out c)"
  proof (intro triple_durably hoare_reopen_failed_run)
    fix as out c assume p: "?P (Some Failed) as out c"
    show "(True \<and> at_state Queued k (\<lambda>as out c. resumable calm as) (Some Queued) as out c) \<and>
        (\<not> calm \<longrightarrow> fails calm k (Some Queued) as out c)"
      using p newest [OF p]
      by (auto simp: at_state_def fails_def run_ok_def run_done_def resumable_def live_def answered_well_def)
  qed (auto simp: at_state_def fails_def)
  then have "triple calm run k ?P
      (exec_bind (durably (reopen_failed_run run)) (\<lambda>moved. exec_guard moved DriveConflict)) ?Q"
    by (rule triple_bind) (rule hoare_guard, auto simp: holds_def)
  then show ?thesis using True by (auto simp: reopen_def)
next
  case False
  have eq: "reopen run s = exec_fail (case map_option at_outcome (sn_newest s) of
      Some AttemptPermanentFailure \<Rightarrow> DriveProvider Permanent
    | Some AttemptInvalid \<Rightarrow> DriveInvalid | Some AttemptResponseReceived \<Rightarrow> DriveInvalid
    | Some AttemptAccepted \<Rightarrow> DriveInvalid | _ \<Rightarrow> DrivePersistence AttemptBudgetExhausted)"
    using False by (auto simp: reopen_def split: option.splits attempt_outcome.splits)
  show ?thesis unfolding eq
  proof (rule triple_fail)
    fix st as out' c assume p: "?P st as out' c"
    then have "sn_newest s = (if as = [] then None else Some (last as))" "sn_spent s = spent_calls as"
      using history_newest [of as] by (auto simp: at_state_def run_ok_def view_snapshot_def)
    then show "fails calm k st as out' c"
      using p False
      by (auto simp: at_state_def fails_def live_def answered_well_def run_done_def newest_outcome_def
          split: if_splits)
  qed
qed

text \<open>
  Before a drive: the invariant. When \<open>b\<close> is set the answer is already stored, and when \<open>calm\<close> is
  set nothing stands in the way of one.
\<close>

definition drivable :: "driver \<Rightarrow> validator \<Rightarrow> bool \<Rightarrow> bool \<Rightarrow> nat \<Rightarrow> view_assertion" where
  "drivable dv validate calm b k = (\<lambda>st as out c. \<exists>a.
     at_state a k (\<lambda>as out c. (b \<longrightarrow> run_done a \<or> answered_well dv validate a as c) \<and>
       (calm \<longrightarrow> live dv validate a as c)) st as out c)"

text \<open>After a successful drive.\<close>

definition driven :: "nat \<Rightarrow> json \<Rightarrow> view_assertion" where
  "driven k v = (\<lambda>st as out c. \<exists>a. run_done a \<and> at_state a k (\<lambda>as out c. out = Some v) st as out c)"

lemma hoare_drive:
  assumes locked: "hoare (holds calm run P) (drive_locked dv validate persist run request)
      (\<lambda>v. holds calm run (Q v)) (\<lambda>_. holds calm run E)"
    and fault: "\<And>s as out c. \<not> calm \<Longrightarrow> P s as out c \<Longrightarrow> E s as out c"
  shows "hoare (\<lambda>w. holds calm run P w \<and> (calm \<longrightarrow> run \<notin> set (held w))) (drive dv validate persist run request)
      (\<lambda>v. holds calm run (Q v)) (\<lambda>_. holds calm run E)"
proof -
  have release: "holds calm run R (run_lock_release run w)" if "holds calm run R w" for R w
    using that by (auto simp: run_lock_release_def holds_def)
  show ?thesis
    unfolding hoare_def
  proof (intro allI impI, elim conjE)
    fix w assume w: "holds calm run P w" and free: "calm \<longrightarrow> run \<notin> set (held w)"
    show "case drive dv validate persist run request w of (Inl e, w') \<Rightarrow> holds calm run E w'
        | (Inr v, w') \<Rightarrow> holds calm run (Q v) w'"
    proof (cases "next_fault w = Works \<and> run \<notin> set (held w)")
      case False
      then have "\<not> calm" using w free by (auto simp: holds_def)
      then have "holds calm run E (tick w)" using w fault by (simp add: holds_def)
      then show ?thesis using False
        by (auto simp: drive_def durably_def exec_map_err_def run_lock_acquire_def)
    next
      case True
      let ?w = "(tick w)\<lparr>held := run # held w\<rparr>"
      have "holds calm run P ?w" using w by (auto simp: holds_def)
      obtain r w' where locked': "drive_locked dv validate persist run request ?w = (r, w')" by fastforce
      have "case r of Inl e \<Rightarrow> holds calm run E w' | Inr v \<Rightarrow> holds calm run (Q v) w'"
        using hoareD [OF locked \<open>holds calm run P ?w\<close>] locked' by (cases r) simp_all
      then show ?thesis using True locked'
        by (cases r) (auto simp: drive_def durably_def exec_map_err_def run_lock_acquire_def release)
    qed
  qed
qed

section \<open>The interface of a drive\<close>

text \<open>
  What the driver relies on. A provider call touches neither the run tables nor the blob root and
  counts once. \<open>persist\<close>, called with the run at \<open>schema_validated\<close> and the validated response
  stored, either stores the output and moves the run to \<open>persisted\<close>, or fails with the invariant
  kept. When \<open>calm\<close> is set the environment does not fail and every answer to a \<open>fit\<close> request is valid.
\<close>

definition same_runs :: "db \<Rightarrow> db \<Rightarrow> bool" where
  "same_runs t t' = (analysis_runs t' = analysis_runs t \<and> analysis_attempts t' = analysis_attempts t \<and>
     analysis_outputs t' = analysis_outputs t \<and> source_refs t' = source_refs t)"

lemma same_runs_view:
  "same_runs t t' \<Longrightarrow> runs_wf t' = runs_wf t \<and> state_of t' run = state_of t run \<and>
     attempts_of t' run = attempts_of t run \<and> accepted_of t' run = accepted_of t run"
  by (simp add: same_runs_def runs_wf_def state_of_def attempts_of_def accepted_of_def)

definition good_response :: "blob_store \<Rightarrow> validator \<Rightarrow> provider_response \<Rightarrow> bool" where
  "good_response store validate r =
     (length (resp_bytes r) \<le> bs_max_bytes store \<and> is_digest_hex (bs_sha store (resp_bytes r)) \<and>
      unat (input_tokens (resp_usage r)) < 2 ^ 63 \<and> unat (output_tokens (resp_usage r)) < 2 ^ 63 \<and>
      (\<exists>value. validate (resp_bytes r) = Inr value))"

locale driving =
  fixes dv :: driver
    and validate :: validator
    and persist :: persister
    and run :: uuid
    and calm :: bool
    and fit :: "generation_request \<Rightarrow> bool"
  assumes generate_frame: "dv_generate dv request w = ((ms, reply), w') \<Longrightarrow>
      same_runs (tables w) (tables w') \<and> disk w' = disk w \<and> (calm \<and> no_faults w \<longrightarrow> no_faults w') \<and>
      provider_calls w' \<le> provider_calls w + 1"
    and fit_repair: "fit request \<Longrightarrow> fit (push_repair request code)"
    and generate_good: "calm \<Longrightarrow> fit request \<Longrightarrow> dv_generate dv request w = ((ms, reply), w') \<Longrightarrow>
      (\<exists>r. reply = Responded r \<and> good_response (dv_store dv) validate r)"
    and identity_good: "calm \<Longrightarrow> attempt_input_ok (attempt_input_of dv reason)"
    and persist_step: "validate content = Inr value \<Longrightarrow> triple calm run k
      (at_state SchemaValidated k (\<lambda>as out c. \<exists>n. answered n raw AttemptAccepted as c \<and>
         (calm \<longrightarrow> is_digest_hex (br_digest raw))))
      (persist value raw)
      (\<lambda>_. at_state Persisted k (\<lambda>as out c. out = Some value))"
begin

lemma triple_generate:
  assumes fit: "calm \<Longrightarrow> fit request"
  shows "hoare (holds calm run (at_state a k F)) (generate dv request)
    (\<lambda>(ms, reply). holds calm run (\<lambda>s as out c. at_state a (k + 1) (\<lambda>_ _ _. True) s as out c \<and>
       (\<exists>c0. F as out c0 \<and> env_files c0 = env_files c) \<and>
       (calm \<longrightarrow> (\<exists>r. reply = Responded r \<and> good_response (dv_store dv) validate r))))
    (\<lambda>_ _. False)"
proof (rule hoareI)
  fix w x w' assume w: "holds calm run (at_state a k F) w" and run: "generate dv request w = (Inr x, w')"
  obtain ms reply where x: "x = (ms, reply)" by (cases x)
  have gen: "dv_generate dv request w = ((ms, reply), w')"
    using run x by (auto simp: generate_def split: prod.splits)
  have f: "\<exists>c0. F (attempts_of (tables w) run) (accepted_of (tables w) run) c0 \<and> env_files c0 = disk w"
    using w by (auto simp: holds_def at_state_def intro!: exI [of _ "Env (provider_calls w) (disk w)"])
  show "(case x of (ms, reply) \<Rightarrow> holds calm run (\<lambda>s as out c. at_state a (k + 1) (\<lambda>_ _ _. True) s as out c \<and>
       (\<exists>c0. F as out c0 \<and> env_files c0 = env_files c) \<and>
       (calm \<longrightarrow> (\<exists>r. reply = Responded r \<and> good_response (dv_store dv) validate r)))) w'"
    using generate_frame [OF gen] generate_good [OF _ fit gen] w f
      same_runs_view [of "tables w" "tables w'" run]
    by (auto simp: x holds_def at_state_def)
qed (auto simp: generate_def split: prod.splits)

lemma triple_accept_response:
  assumes call: "cl_run call = run" "cl_ordinal call = n"
    and good: "calm \<longrightarrow> good_response (dv_store dv) validate response"
  shows "triple calm run k (at_state ModelRequested k (\<lambda>as out c. pending n as))
    (accept_response dv validate persist call response)
    (\<lambda>flow s as out c. case flow of
       FlowDone value \<Rightarrow> at_state Persisted k (\<lambda>as out c. out = Some value) s as out c
     | FlowRetry \<Rightarrow> False
     | FlowRepair code \<Rightarrow> \<not> calm \<and> \<not> cl_last call \<and>
         at_state ModelRequested k (\<lambda>as out c. callable calm as) s as out c)"
    (is "triple calm run k ?P _ ?Q")
  unfolding accept_response_def call
proof (rule triple_bind)
  show "triple calm run k ?P (store_response dv call response)
    (\<lambda>raw s as out c. raw = blob_reference (dv_store dv) (resp_bytes response) \<and> blob_present raw c \<and>
      at_state ModelRequested k (\<lambda>as out c. pending n as) s as out c)"
    using good by (intro triple_store_response call) (auto simp: good_response_def)
next
  fix raw
  show "triple calm run k (\<lambda>s as out c. raw = blob_reference (dv_store dv) (resp_bytes response) \<and>
        blob_present raw c \<and> at_state ModelRequested k (\<lambda>as out c. pending n as) s as out c)
     (exec_bind (record_response dv call raw response AttemptResponseReceived None) (\<lambda>_.
      exec_bind (transition run ModelRequested ResponseReceived) (\<lambda>_.
      case validate (resp_bytes response) of
       Inl code \<Rightarrow>
         exec_bind (record_response dv call raw response AttemptInvalid (Some code)) (\<lambda>_.
         if cl_last call \<or> cl_reason call = ReasonRepair
         then exec_bind (transition run ResponseReceived Failed) (\<lambda>_. exec_fail DriveInvalid)
         else exec_bind (begin_repair run) (\<lambda>_. exec_return (FlowRepair code)))
      | Inr value \<Rightarrow>
         exec_bind (record_response dv call raw response AttemptAccepted None) (\<lambda>_.
         exec_bind (transition run ResponseReceived SchemaValidated) (\<lambda>_.
         exec_bind (persist value raw) (\<lambda>_. exec_return (FlowDone value))))))) ?Q"
  proof (cases "raw = blob_reference (dv_store dv) (resp_bytes response)")
    case False
    then show ?thesis by (intro triple_unreachable) auto
  next
    case raw: True
    have rec: "triple calm run k
        (at_state a k (\<lambda>as out c. as \<noteq> [] \<and> n = length as \<and> blob_present raw c \<and>
           newest_outcome as \<in> {Some AttemptRequested, Some AttemptResponseReceived}))
        (record_response dv call raw response outcome code) (\<lambda>_. at_state a k (\<lambda>as out c. answered n raw outcome as c))"
      if "newest_fits a (Some outcome)" "\<not> run_done a"
        "outcome \<in> {AttemptResponseReceived, AttemptInvalid, AttemptAccepted}" for a outcome code
      using that good by (intro triple_record_response call raw) (auto simp: good_response_def)
    have hex: "calm \<longrightarrow> is_digest_hex (br_digest raw)"
      using good raw by (auto simp: good_response_def blob_reference_def)
    have valid: "triple calm run k (at_state ResponseReceived k (\<lambda>as out c. answered n raw AttemptResponseReceived as c))
        (exec_bind (record_response dv call raw response AttemptAccepted None) (\<lambda>_.
         exec_bind (transition run ResponseReceived SchemaValidated) (\<lambda>_.
         exec_bind (persist v raw) (\<lambda>_. exec_return (FlowDone v))))) ?Q"
      if v: "validate (resp_bytes response) = Inr v" for v
    proof (rule triple_seq [OF rec])
      show "triple calm run k (at_state ResponseReceived k (\<lambda>as out c. answered n raw AttemptAccepted as c))
          (exec_bind (transition run ResponseReceived SchemaValidated) (\<lambda>_.
           exec_bind (persist v raw) (\<lambda>_. exec_return (FlowDone v)))) ?Q"
      proof (rule triple_bind)
        show "triple calm run k (at_state ResponseReceived k (\<lambda>as out c. answered n raw AttemptAccepted as c))
            (transition run ResponseReceived SchemaValidated)
            (\<lambda>_. at_state SchemaValidated k (\<lambda>as out c. answered n raw AttemptAccepted as c))"
          by (rule triple_transition) (auto simp: run_ok_def run_done_def answered_def)
        show "triple calm run k (at_state SchemaValidated k (\<lambda>as out c. answered n raw AttemptAccepted as c))
            (exec_bind (persist v raw) (\<lambda>_. exec_return (FlowDone v))) ?Q"
          by (rule triple_bind [OF triple_strengthen [OF persist_step [OF v]]])
            (use hex in \<open>auto simp: at_state_def intro!: triple_return\<close>)
      qed
    qed (auto simp: at_state_def answered_def run_done_def)
    have invalid: "triple calm run k (at_state ResponseReceived k (\<lambda>as out c. answered n raw AttemptResponseReceived as c))
        (exec_bind (record_response dv call raw response AttemptInvalid (Some code)) (\<lambda>_.
         if cl_last call \<or> cl_reason call = ReasonRepair
         then exec_bind (transition run ResponseReceived Failed) (\<lambda>_. exec_fail DriveInvalid)
         else exec_bind (begin_repair run) (\<lambda>_. exec_return (FlowRepair code)))) ?Q" if "\<not> calm" for code
    proof (rule triple_seq [OF rec])
      show "triple calm run k (at_state ResponseReceived k (\<lambda>as out c. answered n raw AttemptInvalid as c))
          (if cl_last call \<or> cl_reason call = ReasonRepair
           then exec_bind (transition run ResponseReceived Failed) (\<lambda>_. exec_fail DriveInvalid)
           else exec_bind (begin_repair run) (\<lambda>_. exec_return (FlowRepair code))) ?Q"
      proof (cases "cl_last call \<or> cl_reason call = ReasonRepair")
        case True
        then show ?thesis using that
          by (simp, intro triple_fail_from) (auto simp: answered_def run_done_def)
      next
        case False
        have "triple calm run k (at_state ResponseReceived k (\<lambda>as out c. newest_outcome as = Some AttemptInvalid \<and> True))
            (exec_bind (begin_repair run) (\<lambda>_. exec_return (FlowRepair code))) ?Q"
          using False that
          by (intro triple_bind [OF triple_begin_repair] triple_return) (auto simp: at_state_def callable_def)
        then show ?thesis using False
          by (simp, elim triple_strengthen) (auto simp: at_state_def answered_def)
      qed
    qed (auto simp: at_state_def answered_def run_done_def)
    show ?thesis
    proof (rule triple_seq [OF rec])
      show "triple calm run k (at_state ModelRequested k (\<lambda>as out c. answered n raw AttemptResponseReceived as c))
          (exec_bind (transition run ModelRequested ResponseReceived) (\<lambda>_.
           case validate (resp_bytes response) of
             Inl code \<Rightarrow>
               exec_bind (record_response dv call raw response AttemptInvalid (Some code)) (\<lambda>_.
               if cl_last call \<or> cl_reason call = ReasonRepair
               then exec_bind (transition run ResponseReceived Failed) (\<lambda>_. exec_fail DriveInvalid)
               else exec_bind (begin_repair run) (\<lambda>_. exec_return (FlowRepair code)))
           | Inr v \<Rightarrow>
               exec_bind (record_response dv call raw response AttemptAccepted None) (\<lambda>_.
               exec_bind (transition run ResponseReceived SchemaValidated) (\<lambda>_.
               exec_bind (persist v raw) (\<lambda>_. exec_return (FlowDone v)))))) ?Q"
      proof (rule triple_bind)
        show "triple calm run k (at_state ModelRequested k (\<lambda>as out c. answered n raw AttemptResponseReceived as c))
            (transition run ModelRequested ResponseReceived)
            (\<lambda>_. at_state ResponseReceived k (\<lambda>as out c. answered n raw AttemptResponseReceived as c))"
          by (rule triple_transition) (auto simp: run_ok_def run_done_def answered_def)
      qed (use good valid invalid in \<open>auto simp: good_response_def split: sum.splits\<close>)
    qed (auto simp: at_state_def pending_def run_done_def)
  qed
qed

lemma triple_attempt:
  assumes fit: "calm \<Longrightarrow> fit request"
  shows "triple calm run (k + 1) (at_state ModelRequested k (\<lambda>as out c. callable calm as))
    (attempt dv validate persist run request reason is_last)
    (\<lambda>flow s as out c. case flow of
       FlowDone v \<Rightarrow> at_state Persisted (k + 1) (\<lambda>as out c. out = Some v) s as out c
     | _ \<Rightarrow> \<not> calm \<and> \<not> is_last \<and> at_state ModelRequested (k + 1) (\<lambda>as out c. callable calm as) s as out c)"
    (is "triple calm run (k + 1) ?P _ ?Q")
  unfolding attempt_def
proof (rule triple_bind)
  show "triple calm run (k + 1) ?P (start_attempt dv run reason)
      (\<lambda>n. at_state ModelRequested k (\<lambda>as out c. pending n as))"
    by (rule triple_raise [OF triple_start_attempt]) (use identity_good in auto)
next
  fix n
  let ?call = "\<lambda>duration. \<lparr>cl_run = run, cl_ordinal = n, cl_duration = min duration (2 ^ 31 - 1),
      cl_reason = reason, cl_last = is_last\<rparr>"
  let ?R = "at_state ModelRequested (k + 1) (\<lambda>as out c. pending n as)"
  have settled: "triple calm run (k + 1) ?R (exec_bind (settle_call (?call duration) reply) (\<lambda>called.
      case called of CalledResponse r \<Rightarrow> accept_response dv validate persist (?call duration) r
        | CalledRetry \<Rightarrow> exec_return FlowRetry)) ?Q"
    if good: "calm \<longrightarrow> (\<exists>r. reply = Responded r \<and> good_response (dv_store dv) validate r)" for duration reply
  proof (rule triple_bind [OF triple_settle_call [where n = n]])
    fix called
    show "triple calm run (k + 1) (\<lambda>s as out c. case called of
         CalledResponse r \<Rightarrow> reply = Responded r \<and> ?R s as out c
       | CalledRetry \<Rightarrow> \<not> calm \<and> \<not> cl_last (?call duration) \<and>
           at_state ModelRequested (k + 1) (\<lambda>as out c. callable calm as) s as out c)
        (case called of CalledResponse r \<Rightarrow> accept_response dv validate persist (?call duration) r
         | CalledRetry \<Rightarrow> exec_return FlowRetry) ?Q"
    proof (cases called)
      case (CalledResponse r)
      show ?thesis
      proof (cases "reply = Responded r")
        case True
        have "triple calm run (k + 1) ?R (accept_response dv validate persist (?call duration) r) ?Q"
          by (rule triple_weaken [OF triple_accept_response [where n = n]])
            (use good True in \<open>auto split: flow.splits\<close>)
        then show ?thesis using True CalledResponse by simp
      qed (use CalledResponse in \<open>auto intro: triple_unreachable\<close>)
    qed (auto intro: triple_return)
  qed (use good in \<open>auto simp: reply_answers_def\<close>)
  show "triple calm run (k + 1) (at_state ModelRequested k (\<lambda>as out c. pending n as))
     (exec_bind (generate dv request) (\<lambda>(duration, reply). let call = ?call duration in
        exec_bind (settle_call call reply) (\<lambda>called. case called of
          CalledResponse r \<Rightarrow> accept_response dv validate persist call r
        | CalledRetry \<Rightarrow> exec_return FlowRetry))) ?Q"
  proof (rule hoare_bind)
    show "hoare (holds calm run (at_state ModelRequested k (\<lambda>as out c. pending n as))) (generate dv request)
       (\<lambda>x. case x of (ms, reply) \<Rightarrow> holds calm run (\<lambda>s as out c.
          at_state ModelRequested (k + 1) (\<lambda>_ _ _. True) s as out c \<and>
          (\<exists>c0. pending n as \<and> env_files c0 = env_files c) \<and>
          (calm \<longrightarrow> (\<exists>r. reply = Responded r \<and> good_response (dv_store dv) validate r))))
       (\<lambda>_. holds calm run (fails calm (k + 1)))"
      by (rule hoare_conseq [OF triple_generate [OF fit]]) auto
    fix x :: "nat \<times> provider_reply"
    obtain duration reply where x: "x = (duration, reply)" by (cases x)
    show "hoare (case x of (ms, reply) \<Rightarrow> holds calm run (\<lambda>s as out c.
          at_state ModelRequested (k + 1) (\<lambda>_ _ _. True) s as out c \<and>
          (\<exists>c0. pending n as \<and> env_files c0 = env_files c) \<and>
          (calm \<longrightarrow> (\<exists>r. reply = Responded r \<and> good_response (dv_store dv) validate r))))
       (case x of (duration, reply) \<Rightarrow> let call = ?call duration in
          exec_bind (settle_call call reply) (\<lambda>called. case called of
            CalledResponse r \<Rightarrow> accept_response dv validate persist call r
          | CalledRetry \<Rightarrow> exec_return FlowRetry))
       (\<lambda>flow. holds calm run (?Q flow)) (\<lambda>_. holds calm run (fails calm (k + 1)))"
    proof (cases "calm \<longrightarrow> (\<exists>r. reply = Responded r \<and> good_response (dv_store dv) validate r)")
      case True
      show ?thesis
        unfolding x prod.case Let_def
        by (rule triple_strengthen [OF settled [OF True]]) (auto simp: at_state_def)
    next
      case False
      then show ?thesis by (auto simp: x holds_def hoare_def)
    qed
  qed
qed


lemma triple_drive_calls:
  assumes "left > 0" and "calm \<Longrightarrow> fit request"
  shows "triple calm run (k + left) (at_state ModelRequested k (\<lambda>as out c. callable calm as))
    (drive_calls dv validate persist run left request reason)
    (\<lambda>v. at_state Persisted (k + left) (\<lambda>as out c. out = Some v))"
  using assms
proof (induction left arbitrary: k request reason)
  case (Suc left)
  let ?Q = "\<lambda>v. at_state Persisted (k + Suc left) (\<lambda>as out c. out = Some v)"
  have again: "triple calm run (k + Suc left) (at_state ModelRequested (k + 1) (\<lambda>as out c. callable calm as))
      (drive_calls dv validate persist run left request reason) ?Q"
    if "left > 0" and "calm \<Longrightarrow> fit request" for request reason
    using Suc.IH [OF that, of "k + 1" reason] by simp
  show ?case
    unfolding drive_calls.simps
  proof (rule triple_bind)
    show "triple calm run (k + Suc left) (at_state ModelRequested k (\<lambda>as out c. callable calm as))
      (attempt dv validate persist run request reason (left = 0))
      (\<lambda>flow s as out c. case flow of
         FlowDone v \<Rightarrow> at_state Persisted (k + 1) (\<lambda>as out c. out = Some v) s as out c
       | _ \<Rightarrow> \<not> calm \<and> left \<noteq> 0 \<and>
           at_state ModelRequested (k + 1) (\<lambda>as out c. callable calm as) s as out c)"
      by (rule triple_raise [OF triple_attempt [OF Suc.prems(2)]]) simp_all
    fix flow
    show "triple calm run (k + Suc left)
      (\<lambda>s as out c. case flow of
         FlowDone v \<Rightarrow> at_state Persisted (k + 1) (\<lambda>as out c. out = Some v) s as out c
       | _ \<Rightarrow> \<not> calm \<and> left \<noteq> 0 \<and>
           at_state ModelRequested (k + 1) (\<lambda>as out c. callable calm as) s as out c)
      (case flow of FlowDone v \<Rightarrow> exec_return v
       | FlowRetry \<Rightarrow> drive_calls dv validate persist run left request ReasonRetry
       | FlowRepair code \<Rightarrow> drive_calls dv validate persist run left (push_repair request code) ReasonRepair) ?Q"
    proof (cases flow)
      case (FlowDone v)
      then show ?thesis by (auto intro!: triple_return elim: at_state_mono)
    next
      case FlowRetry
      then show ?thesis
        by (cases "left = 0", simp add: triple_unreachable, simp only: flow.case)
          (rule triple_strengthen [OF again], use Suc.prems(2) fit_repair in auto)
    next
      case (FlowRepair code)
      then show ?thesis
        by (cases "left = 0", simp add: triple_unreachable, simp only: flow.case)
          (rule triple_strengthen [OF again], use Suc.prems(2) fit_repair in auto)
    qed
  qed
qed simp


lemma triple_settle_state:
  assumes a: "\<not> run_done a"
  shows "triple calm run k
    (at_state a k (\<lambda>as out c. s = view_snapshot a as \<and> (b \<longrightarrow> answered_well dv validate a as c) \<and>
       (calm \<longrightarrow> live dv validate a as c)))
    (settle_state run s)
    (\<lambda>s. settled dv validate calm b k s)"
    (is "triple calm run k ?P _ _")
proof (cases "sn_state s = a")
  case False
  then show ?thesis by (intro triple_unreachable) (auto simp: at_state_def view_snapshot_def)
next
  case st: True
  let ?again = "\<lambda>s'. if sn_state s' = ModelRequested \<and>
        map_option at_outcome (sn_newest s') = Some AttemptResponseReceived
     then exec_bind (transition run ModelRequested ResponseReceived) (\<lambda>_. snapshot run)
     else exec_return s'"
  show ?thesis
  proof (cases "a = Failed")
    case True
    have failed: "triple calm run k ?P (reopen run s) (\<lambda>_. at_state Queued k (\<lambda>as out c. resumable calm as \<and> \<not> b))"
    proof (cases b)
      case True
      then show ?thesis using \<open>a = Failed\<close>
        by (intro triple_unreachable) (auto simp: at_state_def answered_well_def)
    next
      case False
      then show ?thesis using \<open>a = Failed\<close>
        by (intro triple_weaken [OF triple_strengthen [OF triple_reopen]]) (auto simp: at_state_def)
    qed
    have "triple calm run k ?P (exec_bind (reopen run s) (\<lambda>_. snapshot run))
      (\<lambda>s' st as out c. at_state Queued k (\<lambda>as out c. resumable calm as \<and> \<not> b) st as out c \<and>
         s' = view_snapshot Queued as)"
      by (rule triple_bind [OF failed triple_snapshot])
    moreover have "triple calm run k
      (\<lambda>st as out c. at_state Queued k (\<lambda>as out c. resumable calm as \<and> \<not> b) st as out c \<and>
         s' = view_snapshot Queued as) (?again s') (settled dv validate calm b k)" for s'
    proof (cases "sn_state s' = Queued")
      case True
      then show ?thesis
        by (auto intro!: triple_return simp: settled_def at_state_def)
    qed (auto intro!: triple_unreachable simp: view_snapshot_def)
    ultimately show ?thesis
      using True st unfolding settle_state_def by (simp add: triple_bind)
  next
    case False
    have again: "triple calm run k ?P (?again s) (settled dv validate calm b k)"
    proof (cases "a = ModelRequested \<and> map_option at_outcome (sn_newest s) = Some AttemptResponseReceived")
      case True
      have newest: "newest_outcome as = Some AttemptResponseReceived" if "?P st as out c" for st as out c
        using that True history_newest [of as]
        by (auto simp: at_state_def run_ok_def view_snapshot_def newest_outcome_def split: if_splits)
      let ?R = "\<lambda>a. at_state a k (\<lambda>as out c. newest_outcome as = Some AttemptResponseReceived \<and>
          (b \<or> calm \<longrightarrow> stored_good dv validate as c))"
      have move: "triple calm run k (?R ModelRequested) (transition run ModelRequested ResponseReceived)
          (\<lambda>_. ?R ResponseReceived)"
        by (rule triple_transition) (auto simp: run_ok_def run_done_def)
      have "triple calm run k (?R ModelRequested)
          (exec_bind (transition run ModelRequested ResponseReceived) (\<lambda>_. snapshot run))
          (settled dv validate calm b k)"
        by (rule triple_weaken [OF triple_bind [OF move triple_snapshot]])
          (auto simp: settled_def at_state_def stored_pre_def view_snapshot_def)
      then have "triple calm run k ?P
          (exec_bind (transition run ModelRequested ResponseReceived) (\<lambda>_. snapshot run))
          (settled dv validate calm b k)"
      proof (rule triple_strengthen)
        fix st as out' c assume p: "?P st as out' c"
        show "?R ModelRequested st as out' c"
          using p newest [OF p] True
          by (auto simp: at_state_def answered_well_def live_def run_done_def resumable_def)
      qed
      then show ?thesis using True st by simp
    next
      case False
      have "triple calm run k ?P (exec_return s) (settled dv validate calm b k)"
      proof (rule triple_return)
        fix st as out' c assume p: "?P st as out' c"
        have "a = ModelRequested \<Longrightarrow> newest_outcome as \<noteq> Some AttemptResponseReceived"
          using p False history_newest [of as]
          by (auto simp: at_state_def run_ok_def view_snapshot_def newest_outcome_def split: if_splits)
        then show "settled dv validate calm b k s st as out' c"
          using p st a \<open>a \<noteq> Failed\<close>
          by (cases a) (auto simp: settled_def at_state_def answered_well_def live_def run_done_def
              resumable_def stored_pre_def run_ok_def)
      qed
      then show ?thesis using False st by (simp only: if_False)
    qed
    then show ?thesis using False st by (simp add: settle_state_def exec_bind_return_left)
  qed
qed


lemma persist_stored:
  assumes "validate content = Inr v"
  shows "triple calm run k
    (at_state SchemaValidated k (\<lambda>as out c. \<exists>n. answered n raw AttemptAccepted as c \<and>
       (calm \<longrightarrow> is_digest_hex (br_digest raw))))
    (exec_bind (persist v raw) (\<lambda>_. exec_return v))
    (\<lambda>v. at_state Persisted k (\<lambda>as out c. out = Some v))"
  by (rule triple_bind [OF persist_step [OF assms]]) (rule triple_return)

lemma settle_in_flight_request:
  assumes "settle_in_flight run s request w = (Inr (reason, request'), w')"
  shows "request' = request \<or> (\<exists>code. request' = push_repair request code)"
  using assms unfolding settle_in_flight_def
  by (auto simp: exec_return_def exec_fail_def elim!: exec_bind_InrE
      split: option.splits attempt_outcome.splits if_splits)

lemma triple_settle_in_flight_fit:
  assumes "calm \<Longrightarrow> fit request"
  shows "triple calm run k
    (at_state ModelRequested k (\<lambda>as out c. resumable calm as \<and> s = view_snapshot a as))
    (settle_in_flight run s request)
    (\<lambda>x st as out c. at_state ModelRequested k (\<lambda>as out c. callable calm as) st as out c \<and> (calm \<longrightarrow> fit (snd x)))"
proof (rule hoareI)
  fix w x w' assume w: "holds calm run (at_state ModelRequested k (\<lambda>as out c. resumable calm as \<and> s = view_snapshot a as)) w"
    and m: "settle_in_flight run s request w = (Inr x, w')"
  have "calm \<longrightarrow> fit (snd x)"
    using settle_in_flight_request [of s request w "fst x" "snd x" w'] m assms fit_repair by auto
  then show "holds calm run (\<lambda>st as out c. at_state ModelRequested k (\<lambda>as out c. callable calm as) st as out c \<and>
      (calm \<longrightarrow> fit (snd x))) w'"
    using hoareD(1) [OF triple_settle_in_flight w m] by (simp add: holds_def)
qed (use hoareD(2) [OF triple_settle_in_flight] in blast)

lemma triple_continue_run:
  assumes fit: "calm \<Longrightarrow> fit request"
  shows "triple calm run (call_bound b k) (settled dv validate calm b k s)
    (continue_run dv validate persist run request s)
    (\<lambda>v. at_state Persisted (call_bound b k) (\<lambda>as out c. out = Some v))"
    (is "triple calm run ?K _ _ ?Q")
proof -
  have K: "k \<le> ?K" "\<not> b \<Longrightarrow> ?K = k + calls_per_drive" by (simp_all add: call_bound_def)
  have calls: "triple calm run ?K (at_state ModelRequested k (\<lambda>as out c. callable calm as))
      (drive_calls dv validate persist run calls_per_drive request reason) ?Q"
    if "\<not> b" and "calm \<Longrightarrow> fit request" for request reason
    unfolding K(2) [OF that(1)] by (rule triple_drive_calls) (use that in \<open>simp_all add: calls_per_drive_def\<close>)
  show ?thesis
  proof (cases "sn_state s = ResponseReceived \<or> sn_state s = SchemaValidated")
    case True
    let ?P = "at_state (sn_state s) k (\<lambda>as out c. stored_pre dv validate (b \<or> calm) (sn_state s) s as c)"
    let ?S = "\<lambda>stored st as out c. case stored of
       StoredAccepted v raw \<Rightarrow> (\<exists>content. validate content = Inr v) \<and>
         at_state SchemaValidated k (\<lambda>as out c. \<exists>n. answered n raw AttemptAccepted as c \<and>
           (calm \<longrightarrow> is_digest_hex (br_digest raw))) st as out c
     | StoredRepair request \<Rightarrow> \<not> (b \<or> calm) \<and> at_state ModelRequested k (\<lambda>as out c. callable calm as) st as out c"
    have "triple calm run ?K ?P (recover_stored dv validate run s request) ?S"
      using True by (intro triple_raise [OF triple_recover_stored K(1)]) auto
    moreover have "triple calm run ?K (?S stored) (case stored of
        StoredAccepted v raw \<Rightarrow> exec_bind (persist v raw) (\<lambda>_. exec_return v)
      | StoredRepair request \<Rightarrow> drive_calls dv validate persist run calls_per_drive request ReasonRepair) ?Q"
      for stored
    proof (cases stored)
      case (StoredAccepted v raw)
      show ?thesis
      proof (cases "\<exists>content. validate content = Inr v")
        case True
        then obtain content where "validate content = Inr v" by blast
        then have "triple calm run ?K (at_state SchemaValidated k (\<lambda>as out c. \<exists>n. answered n raw AttemptAccepted as c \<and>
            (calm \<longrightarrow> is_digest_hex (br_digest raw)))) (exec_bind (persist v raw) (\<lambda>_. exec_return v)) ?Q"
          by (intro triple_weaken [OF triple_raise [OF persist_stored K(1)]]) (use K(1) in \<open>auto elim: at_state_mono\<close>)
        then show ?thesis unfolding StoredAccepted stored.case by (rule triple_strengthen) auto
      qed (use StoredAccepted in \<open>auto intro: triple_unreachable\<close>)
    next
      case (StoredRepair request)
      show ?thesis
      proof (cases "b \<or> calm")
        case False
        then show ?thesis unfolding StoredRepair stored.case
          by (intro triple_strengthen [OF calls]) auto
      qed (use StoredRepair in \<open>auto intro: triple_unreachable\<close>)
    qed
    ultimately have "triple calm run ?K ?P (continue_run dv validate persist run request s) ?Q"
      using True by (auto simp: continue_run_def intro: triple_bind)
    then show ?thesis using True by (auto simp: settled_def elim!: triple_strengthen)
  next
    case False
    show ?thesis
    proof (cases "\<not> b \<and> sn_state s \<in> {Queued, ContextPrepared, Repaired, ModelRequested}")
      case True
      let ?F = "\<lambda>as out c. resumable calm as \<and> s = view_snapshot (sn_state s) as"
      have "triple calm run ?K (at_state (sn_state s) k ?F)
        (exec_bind (enter_model_requested run (sn_state s)) (\<lambda>_.
         exec_bind (settle_in_flight run s request) (\<lambda>(reason, request).
         drive_calls dv validate persist run calls_per_drive request reason))) ?Q"
      proof (rule triple_bind, rule triple_raise [OF triple_enter_model_requested K(1)])
        show "triple calm run ?K (at_state ModelRequested k ?F) (exec_bind (settle_in_flight run s request)
            (\<lambda>(reason, request). drive_calls dv validate persist run calls_per_drive request reason)) ?Q"
        proof (rule triple_bind, rule triple_raise [OF triple_settle_in_flight_fit [OF fit] K(1)])
          fix x :: "attempt_reason \<times> generation_request"
          show "triple calm run ?K (\<lambda>st as out c. at_state ModelRequested k (\<lambda>as out c. callable calm as) st as out c \<and>
                (calm \<longrightarrow> fit (snd x)))
              (case x of (reason, request) \<Rightarrow> drive_calls dv validate persist run calls_per_drive request reason) ?Q"
          proof (cases "calm \<longrightarrow> fit (snd x)")
            case fit_x: True
            have "triple calm run ?K (at_state ModelRequested k (\<lambda>as out c. callable calm as))
                (drive_calls dv validate persist run calls_per_drive (snd x) (fst x)) ?Q"
              using calls True fit_x by blast
            then show ?thesis by (auto simp: split_beta elim: triple_strengthen)
          qed (auto intro: triple_unreachable)
        qed
      qed (use True in auto)
      then show ?thesis using False True by (simp add: continue_run_def settled_def)
    next
      case stuck: False
      then show ?thesis using False by (intro triple_unreachable) (auto simp: settled_def)
    qed
  qed
qed


lemma triple_drive_locked:
  assumes fit: "calm \<Longrightarrow> fit request"
  shows "triple calm run (call_bound b k) (drivable dv validate calm b k)
    (drive_locked dv validate persist run request) (driven (call_bound b k))"
    (is "triple calm run ?K _ _ ?Q")
  unfolding drivable_def
proof (rule triple_ex)
  fix a
  let ?F = "\<lambda>as c. (b \<longrightarrow> run_done a \<or> answered_well dv validate a as c) \<and> (calm \<longrightarrow> live dv validate a as c)"
  have K: "k \<le> ?K" by (simp add: call_bound_def)
  let ?rest = "\<lambda>s. if sn_state s \<in> {Persisted, Indexed, Completed} then accepted_output run
     else exec_bind (settle_state run s) (continue_run dv validate persist run request)"
  have rest: "triple calm run ?K (\<lambda>st as out c. at_state a k (\<lambda>as out c. ?F as c) st as out c \<and> s = view_snapshot a as)
      (?rest s) ?Q" for s
  proof (cases "sn_state s = a")
    case False
    then show ?thesis by (intro triple_unreachable) (auto simp: view_snapshot_def)
  next
    case st: True
    show ?thesis
    proof (cases "run_done a")
      case True
      have stored: "triple calm run ?K (at_state a k (\<lambda>as out c. out = Some v)) (accepted_output run) ?Q" for v
        by (rule triple_weaken [OF triple_raise [OF triple_accepted_output K]])
          (use True K in \<open>auto simp: driven_def elim: at_state_mono\<close>)
      have "triple calm run ?K (\<lambda>st as out c. \<exists>v. at_state a k (\<lambda>as out c. out = Some v) st as out c)
          (accepted_output run) ?Q"
        by (rule triple_ex) (rule stored)
      then have "triple calm run ?K (\<lambda>st as out c. at_state a k (\<lambda>as out c. ?F as c) st as out c \<and>
          s = view_snapshot a as) (accepted_output run) ?Q"
        by (rule triple_strengthen) (use True in \<open>auto simp: at_state_def run_ok_def\<close>)
      moreover have "?rest s = accepted_output run" using True st by (auto simp: run_done_def)
      ultimately show ?thesis by simp
    next
      case False
      have "triple calm run ?K (\<lambda>st as out c. at_state a k (\<lambda>as out c. ?F as c) st as out c \<and> s = view_snapshot a as)
          (exec_bind (settle_state run s) (continue_run dv validate persist run request)) ?Q"
      proof (rule triple_bind [OF triple_strengthen [OF triple_raise [OF triple_settle_state [OF False, where b = b] K]]])
        show "triple calm run ?K (settled dv validate calm b k s') (continue_run dv validate persist run request s') ?Q"
          for s' by (rule triple_weaken [OF triple_continue_run [OF fit]]) (auto simp: driven_def run_done_def)
      qed (use False in \<open>auto simp: at_state_def\<close>)
      moreover have "?rest s = exec_bind (settle_state run s) (continue_run dv validate persist run request)"
        using False st by (auto simp: run_done_def)
      ultimately show ?thesis by simp
    qed
  qed
  show "triple calm run ?K (at_state a k (\<lambda>as out c. ?F as c)) (drive_locked dv validate persist run request) ?Q"
    unfolding drive_locked_def
    by (rule triple_bind [OF triple_raise [OF triple_snapshot K] rest])
qed

theorem hoare_drive_correct:
  assumes "calm \<Longrightarrow> fit request"
  shows "hoare (\<lambda>w. holds calm run (drivable dv validate calm b k) w \<and> (calm \<longrightarrow> run \<notin> set (held w)))
    (drive dv validate persist run request)
    (\<lambda>v. holds calm run (driven (call_bound b k) v)) (\<lambda>_. holds calm run (fails calm (call_bound b k)))"
  by (rule hoare_drive [OF triple_drive_locked [OF assms]])
    (auto simp: drivable_def at_state_def fails_def call_bound_def)

end

end
