(* ===== verification/Latest_Wins.thy ===== *)
theory Latest_Wins
  imports Prelude
begin

text \<open>
  The contract of the "latest wins" tables: a row is written over the stored one only when it is
  newer, so deliveries may repeat and arrive in any order. The search projections and the source
  heads keep it, each with its own key and version.
\<close>

locale latest_wins =
  fixes put :: "'r \<Rightarrow> 't \<Rightarrow> 't"
    and look :: "'k \<Rightarrow> 't \<Rightarrow> 'c option"
    and key_of :: "'r \<Rightarrow> 'k"
    and cont :: "'r \<Rightarrow> 'c"
    and ver :: "'c \<Rightarrow> 'v::linorder"
    and wins :: "'c \<Rightarrow> 'c \<Rightarrow> bool"
    and ok :: "'t \<Rightarrow> bool"
  assumes put_ok: "ok t \<Longrightarrow> ok (put r t)"
    and put_look: "ok t \<Longrightarrow> look k (put r t) =
      (if k = key_of r \<and> (case look k t of None \<Rightarrow> True | Some c \<Rightarrow> wins c (cont r))
       then Some (cont r) else look k t)"
    and newer_wins: "ver a < ver b \<Longrightarrow> wins a b"
    and older_loses: "ver b < ver a \<Longrightarrow> \<not> wins a b"
begin

lemma stale_put:
  "ok t \<Longrightarrow> look (key_of r) t = Some c \<Longrightarrow> ver (cont r) < ver c \<Longrightarrow> look k (put r t) = look k t"
  by (auto simp: put_look older_loses)

lemma put_again: "ok t \<Longrightarrow> look k (put r (put r t)) = look k (put r t)"
  by (auto simp: put_look put_ok split: option.splits)

lemma put_monotone:
  "ok t \<Longrightarrow> look k t = Some c \<Longrightarrow> \<exists>c'. look k (put r t) = Some c' \<and> ver c \<le> ver c'"
  using older_loses by (fastforce simp: put_look not_less [symmetric])

lemma fold_ok: "ok t \<Longrightarrow> ok (fold put rs t)"
  by (induction rs arbitrary: t) (simp_all add: put_ok)

lemma fold_keeps_newest:
  assumes "ok t" and "look k t = Some c" and "\<forall>s \<in> set rs. key_of s = k \<longrightarrow> cont s = c \<or> ver (cont s) < ver c"
  shows "look k (fold put rs t) = Some c"
  using assms
proof (induction rs arbitrary: t)
  case (Cons s rs)
  have "look k (put s t) = Some c"
    using Cons.prems by (auto simp: put_look older_loses)
  then show ?case using Cons by (simp add: put_ok)
qed simp

text \<open>Whatever the order and however often each is delivered, the newest row is the one stored.\<close>

lemma fold_newest:
  assumes "ok t" and "r \<in> set rs" and "key_of r = k"
    and "\<forall>s \<in> set rs. key_of s = k \<longrightarrow> cont s = cont r \<or> ver (cont s) < ver (cont r)"
    and "\<forall>c. look k t = Some c \<longrightarrow> ver c < ver (cont r)"
  shows "look k (fold put rs t) = Some (cont r)"
  using assms
proof (induction rs arbitrary: t)
  case (Cons s rs)
  show ?case
  proof (cases "key_of s = k \<and> cont s = cont r")
    case True
    then have "look k (put s t) = Some (cont r)"
      using Cons.prems by (auto simp: put_look newer_wins split: option.splits)
    then show ?thesis using Cons.prems by (simp add: fold_keeps_newest put_ok)
  next
    case False
    then have "r \<in> set rs" using Cons.prems by auto
    moreover have "\<forall>c. look k (put s t) = Some c \<longrightarrow> ver c < ver (cont r)"
      using Cons.prems False by (auto simp: put_look split: if_splits)
    ultimately show ?thesis using Cons by (simp add: put_ok)
  qed
qed simp

end

section \<open>Keyed upserts\<close>

lemma find_upsert:
  assumes "\<And>x. key x = key r \<Longrightarrow> key (upd x) = key r"
  shows "find_where (\<lambda>x. key x = k) (upsert (\<lambda>x. key x = key r) guard upd r t) =
    (if k = key r
     then Some (case find_where (\<lambda>x. key x = k) t of None \<Rightarrow> r | Some x \<Rightarrow> if guard x then upd x else x)
     else find_where (\<lambda>x. key x = k) t)"
proof (cases "exists_where (\<lambda>x. key x = key r) t")
  case True
  have found: "find_where (\<lambda>x. key x = k) (update_where (\<lambda>x. key x = key r \<and> guard x) upd t) =
      map_option (\<lambda>x. if key x = key r \<and> guard x then upd x else x) (find_where (\<lambda>x. key x = k) t)"
    by (rule find_update_where) (use assms in auto)
  have eq: "upsert (\<lambda>x. key x = key r) guard upd r t = update_where (\<lambda>x. key x = key r \<and> guard x) upd t"
    using True by (simp add: upsert_def)
  show ?thesis
  proof (cases "find_where (\<lambda>x. key x = k) t")
    case None
    then have "k \<noteq> key r" using True by (auto simp: find_where_Some_iff table_simps)
    then show ?thesis using None found eq by simp
  next
    case (Some x)
    then have "key x = k" by (auto dest: find_where_SomeD)
    then show ?thesis using Some found eq by auto
  qed
next
  case False
  then have "find_where (\<lambda>x. key x = key r) t = None" by (simp add: find_where_Some_iff table_simps)
  then show ?thesis using False
    by (auto simp: upsert_def find_where_append split: option.splits) (simp add: find_where_def)+
qed

lemma key_unique_upsert:
  assumes "\<And>x. key x = key r \<Longrightarrow> key (upd x) = key r" and "key_unique key t"
  shows "key_unique key (upsert (\<lambda>x. key x = key r) guard upd r t)"
proof (cases "exists_where (\<lambda>x. key x = key r) t")
  case True
  have "key_unique key (update_where (\<lambda>x. key x = key r \<and> guard x) upd t)"
    by (rule key_unique_update) (use assms in auto)
  then show ?thesis using True by (simp add: upsert_def)
next
  case False
  then have "key r \<notin> key ` set t" by (auto simp: table_simps)
  then show ?thesis using False assms(2) by (simp add: upsert_def key_unique_def)
qed

lemma set_upsert:
  "x \<in> set (upsert p guard upd r t) \<Longrightarrow> x = r \<or> x \<in> set t \<or> (\<exists>y \<in> set t. p y \<and> guard y \<and> x = upd y)"
  by (auto simp: upsert_def table_simps split: if_splits)

end
