(* ===== verification/Search_Projection.thy ===== *)
theory Search_Projection
  imports Effects Context Latest_Wins
begin

text \<open>
  The searchable projections (\<open>search.rs\<close>, \<open>search/supersession.rs\<close>, \<open>search/text_bound.rs\<close>): the
  calculated input and the search document of one source revision, both latest-wins by output, and
  the retirement of the revisions that are not the current head of their source.
\<close>

section \<open>Recording a projection\<close>

record search_projection =
  pj_source :: uuid
  pj_output :: uuid
  pj_tenant :: string
  pj_owner :: string
  pj_document :: uuid
  pj_text :: search_text

definition projection_row_of :: "instant \<Rightarrow> search_projection \<Rightarrow> projection_row" where
  "projection_row_of at p = (let b = bounded_text (pj_text p) in
     \<lparr>pi_source = pj_source p, pi_output = pj_output p, pi_tenant = pj_tenant p, pi_owner = pj_owner p,
      pi_document = pj_document p, pi_title = st_title b, pi_lead = st_lead b, pi_body = st_body b,
      pi_updated = at\<rparr>)"

definition put_projection_input :: "projection_row \<Rightarrow> projection_row list \<Rightarrow> projection_row list" where
  "put_projection_input r t =
     upsert (\<lambda>x. pi_source x = pi_source r) (\<lambda>x. pi_output r > pi_output x) (\<lambda>_. r) r t"

definition search_row_of :: "uuid \<Rightarrow> instant \<Rightarrow> search_projection \<Rightarrow> search_row" where
  "search_row_of ident at p = (let b = bounded_text (pj_text p) in
     \<lparr>sd_id = ident, sd_source = pj_source p, sd_output = pj_output p, sd_tenant = pj_tenant p,
      sd_owner = pj_owner p, sd_document = pj_document p, sd_title = st_title b, sd_lead = st_lead b,
      sd_body = st_body b, sd_updated = at\<rparr>)"

text \<open>The columns a search document takes from its projection, compared by \<open>is distinct from\<close>.\<close>

definition search_content :: "search_row \<Rightarrow> uuid \<times> string \<times> string \<times> uuid \<times> string \<times> string \<times> string" where
  "search_content r = (sd_output r, sd_tenant r, sd_owner r, sd_document r, sd_title r, sd_lead r, sd_body r)"

definition replaces_document :: "search_row \<Rightarrow> search_row \<Rightarrow> bool" where
  "replaces_document r x =
     (sd_output r > sd_output x \<or> (sd_output r = sd_output x \<and> search_content x \<noteq> search_content r))"

text \<open>The stored row keeps its identifier.\<close>

definition put_search_document :: "search_row \<Rightarrow> search_row list \<Rightarrow> search_row list" where
  "put_search_document r t =
     upsert (\<lambda>x. sd_source x = sd_source r) (replaces_document r) (\<lambda>x. r\<lparr>sd_id := sd_id x\<rparr>) r t"

text \<open>
  Both statements report the rows written. A written row must name a stored source revision, and a
  projection input also a stored output (the foreign keys of \<open>schema.sql\<close>).
\<close>

definition write_projection_input :: "projection_row \<Rightarrow> db \<Rightarrow> persistence_error + (nat \<times> db)" where
  "write_projection_input r t =
     (let n = upsert_affected (\<lambda>x. pi_source x = pi_source r) (\<lambda>x. pi_output r > pi_output x) (projection_inputs t) in
      if n = 0 then Inr (0, t)
      else if exists_where (\<lambda>s. sr_id s = pi_source r) (source_refs t) \<and>
              exists_where (\<lambda>o'. ao_id o' = pi_output r) (analysis_outputs t)
      then Inr (n, t\<lparr>projection_inputs := put_projection_input r (projection_inputs t)\<rparr>)
      else Inl Query)"

definition record_search_projection_input :: "search_projection \<Rightarrow> (world, persistence_error, nat) exec" where
  "record_search_projection_input p =
     exec_bind get_now (\<lambda>at. sql Query (write_projection_input (projection_row_of at p)))"

definition write_search_document :: "search_row \<Rightarrow> db \<Rightarrow> persistence_error + (nat \<times> db)" where
  "write_search_document r t =
     (let n = upsert_affected (\<lambda>x. sd_source x = sd_source r) (replaces_document r) (search_documents t) in
      if n = 0 then Inr (0, t)
      else if exists_where (\<lambda>s. sr_id s = sd_source r) (source_refs t)
      then Inr (n, t\<lparr>search_documents := put_search_document r (search_documents t)\<rparr>)
      else Inl Query)"

definition record_search_document :: "search_projection \<Rightarrow> (world, persistence_error, nat) exec" where
  "record_search_document p =
     exec_bind new_uuid (\<lambda>ident.
     exec_bind get_now (\<lambda>at.
     sql Query (write_search_document (search_row_of ident at p))))"

section \<open>Both tables are latest-wins\<close>

definition projection_of :: "uuid \<Rightarrow> projection_row list \<Rightarrow> projection_row option" where
  "projection_of source t = find_where (\<lambda>x. pi_source x = source) t"

definition content_of :: "uuid \<Rightarrow> search_row list \<Rightarrow> (uuid \<times> string \<times> string \<times> uuid \<times> string \<times> string \<times> string) option" where
  "content_of source t = map_option search_content (find_where (\<lambda>x. sd_source x = source) t)"

interpretation projection_inputs_latest: latest_wins put_projection_input projection_of pi_source "\<lambda>r. r"
  pi_output "\<lambda>a b. pi_output a < pi_output b" "key_unique pi_source"
proof
  fix t :: "projection_row list" and r k assume "key_unique pi_source t"
  then show "key_unique pi_source (put_projection_input r t)"
    unfolding put_projection_input_def by (rule key_unique_upsert [rotated]) simp
  show "projection_of k (put_projection_input r t) =
      (if k = pi_source r \<and> (case projection_of k t of None \<Rightarrow> True | Some c \<Rightarrow> pi_output c < pi_output r)
       then Some r else projection_of k t)"
    unfolding put_projection_input_def projection_of_def
    by (subst find_upsert) (auto split: option.splits)
qed auto

interpretation search_documents_latest: latest_wins put_search_document content_of sd_source search_content
  "\<lambda>c. fst c" "\<lambda>a b. fst a \<le> fst b" "key_unique sd_source"
proof
  fix t :: "search_row list" and r k assume "key_unique sd_source t"
  then show "key_unique sd_source (put_search_document r t)"
    unfolding put_search_document_def by (rule key_unique_upsert [rotated]) simp
  have keep: "search_content (r\<lparr>sd_id := n\<rparr>) = search_content r" for n by (simp add: search_content_def)
  show "content_of k (put_search_document r t) =
      (if k = sd_source r \<and> (case content_of k t of None \<Rightarrow> True | Some c \<Rightarrow> fst c \<le> fst (search_content r))
       then Some (search_content r) else content_of k t)"
    unfolding put_search_document_def content_of_def
    by (subst find_upsert)
      (auto simp: keep replaces_document_def search_content_def split: option.splits)
qed auto

section \<open>Recording, statement by statement\<close>

lemma upsert_none: "upsert_affected p guard t = 0 \<Longrightarrow> upsert p guard upd r t = t"
  by (auto simp: upsert_affected_def upsert_def table_simps intro!: update_where_none split: if_splits)

lemma write_search_document_result:
  "write_search_document r t = Inr (n, t') \<Longrightarrow>
     t' = t\<lparr>search_documents := put_search_document r (search_documents t)\<rparr>"
  by (auto simp: write_search_document_def put_search_document_def Let_def upsert_none split: if_splits)

lemma write_projection_input_result:
  "write_projection_input r t = Inr (n, t') \<Longrightarrow>
     t' = t\<lparr>projection_inputs := put_projection_input r (projection_inputs t)\<rparr>"
  by (auto simp: write_projection_input_def put_projection_input_def Let_def upsert_none split: if_splits)

definition projection_content :: "search_projection \<Rightarrow> uuid \<times> string \<times> string \<times> uuid \<times> string \<times> string \<times> string" where
  "projection_content p = search_content (search_row_of 0 0 p)"

lemma search_row_of_simps [simp]:
  "sd_source (search_row_of ident at p) = pj_source p"
  "search_content (search_row_of ident at p) = projection_content p"
  by (simp_all add: search_row_of_def Let_def search_content_def projection_content_def)

lemma fst_projection_content [simp]: "fst (projection_content p) = pj_output p"
  by (simp add: projection_content_def search_content_def search_row_of_def Let_def)

lemma record_search_document_result:
  assumes "record_search_document p w = (Inr n, w')"
  shows "tables w' = (tables w)\<lparr>search_documents :=
    put_search_document (search_row_of (fresh w) (now w) p) (search_documents (tables w))\<rparr>"
proof -
  let ?r = "search_row_of (fresh w) (now w) p"
  obtain w1 where "sql Query (write_search_document ?r) w1 = (Inr n, w')" and t: "tables w1 = tables w"
    using assms by (auto simp: record_search_document_def exec_bind_def new_uuid_def get_now_def)
  then show ?thesis
    using sql_result [of Query "write_search_document ?r" w1 "Inr n" w'] write_search_document_result [of ?r "tables w"]
    by auto
qed

definition record_all :: "search_projection list \<Rightarrow> (world, persistence_error, unit) exec" where
  "record_all ps = exec_each (\<lambda>p. exec_bind (record_search_document p) (\<lambda>_. exec_return ())) ps"

lemma record_all_result:
  assumes "record_all ps w = (Inr (), w')"
  shows "\<exists>rs. search_documents (tables w') = fold put_search_document rs (search_documents (tables w)) \<and>
    map (\<lambda>r. (sd_source r, search_content r)) rs = map (\<lambda>p. (pj_source p, projection_content p)) ps"
  using assms
proof (induction ps arbitrary: w)
  case Nil
  then show ?case by (simp add: record_all_def exec_return_def)
next
  case (Cons p ps)
  obtain n w1 where 1: "record_search_document p w = (Inr n, w1)" and 2: "record_all ps w1 = (Inr (), w')"
    using Cons.prems unfolding record_all_def
    by (auto elim!: exec_bind_InrE simp: exec_return_def)
  obtain rs where "search_documents (tables w') = fold put_search_document rs (search_documents (tables w1))"
    "map (\<lambda>r. (sd_source r, search_content r)) rs = map (\<lambda>p. (pj_source p, projection_content p)) ps"
    using Cons.IH [OF 2] by blast
  then show ?case
    using record_search_document_result [OF 1]
    by (intro exI [of _ "search_row_of (fresh w) (now w) p # rs"]) simp
qed

text \<open>
  C22: projections may be recorded in any order and any number of times: when all recordings have
  been acknowledged, the search document of a source shows the newest output.
\<close>

theorem newest_projection_wins:
  assumes "record_all ps w = (Inr (), w')" and "key_unique sd_source (search_documents (tables w))"
    and "p \<in> set ps"
    and "\<forall>q \<in> set ps. pj_source q = pj_source p \<longrightarrow> projection_content q = projection_content p \<or> pj_output q < pj_output p"
    and "\<forall>c. content_of (pj_source p) (search_documents (tables w)) = Some c \<longrightarrow> fst c < pj_output p"
  shows "content_of (pj_source p) (search_documents (tables w')) = Some (projection_content p)"
proof -
  obtain rs where rs: "search_documents (tables w') = fold put_search_document rs (search_documents (tables w))"
    "map (\<lambda>r. (sd_source r, search_content r)) rs = map (\<lambda>p. (pj_source p, projection_content p)) ps"
    using record_all_result [OF assms(1)] by blast
  have set: "(\<lambda>r. (sd_source r, search_content r)) ` set rs = (\<lambda>p. (pj_source p, projection_content p)) ` set ps"
    using arg_cong [OF rs(2), of set] by simp
  have "(pj_source p, projection_content p) \<in> (\<lambda>r. (sd_source r, search_content r)) ` set rs"
    unfolding set using assms(3) by (rule imageI)
  then obtain r where r: "r \<in> set rs" "sd_source r = pj_source p" "search_content r = projection_content p"
    by (elim imageE) auto
  have older: "search_content q = search_content r \<or> fst (search_content q) < fst (search_content r)"
    if q: "q \<in> set rs" "sd_source q = pj_source p" for q
  proof -
    have "(sd_source q, search_content q) \<in> (\<lambda>p. (pj_source p, projection_content p)) ` set ps"
      using q(1) set by blast
    then obtain q' where "q' \<in> set ps" "pj_source q' = pj_source p" "search_content q = projection_content q'"
      using q(2) by auto
    then show ?thesis using assms(4) r(3) by auto
  qed
  show ?thesis
    unfolding rs(1) r(3) [symmetric]
    by (rule search_documents_latest.fold_newest [OF assms(2) r(1,2)]) (use older assms(5) r(3) in auto)
qed

definition sample_projection :: "uuid \<Rightarrow> search_projection" where
  "sample_projection n = \<lparr>pj_source = 1, pj_output = n, pj_tenant = ''t'', pj_owner = ''o'', pj_document = 1,
     pj_text = \<lparr>st_title = [], st_lead = [], st_body = []\<rparr>\<rparr>"

definition sample_search_world :: world where
  "sample_search_world = \<lparr>tables = empty_db\<lparr>source_refs := [\<lparr>sr_id = 1, sr_tenant = ''t'', sr_owner = ''o'',
     sr_archive = [], sr_document = ''d'', sr_digest = ''e'',
     sr_blob = \<lparr>br_owner = ''o'', br_digest = ''e'', br_media = ''m'', br_length = 1\<rparr>, sr_created = 0\<rparr>]\<rparr>,
     disk = (\<lambda>_. None), now = 0, fresh = 10, held = [], provider_calls = 0, faults = []\<rparr>"

theorem newest_projection_wins_witness:
  "\<exists>w'. record_all [sample_projection 5, sample_projection 3, sample_projection 5] sample_search_world = (Inr (), w') \<and>
     content_of 1 (search_documents (tables w')) = Some (projection_content (sample_projection 5))"
proof -
  let ?ps = "[sample_projection 5, sample_projection 3, sample_projection 5]"
  have "fst (record_all ?ps sample_search_world) = Inr ()"
    by (simp add: record_all_def record_search_document_def exec_bind_def new_uuid_def get_now_def exec_return_def
        sql_works write_search_document_def search_row_of_def sample_projection_def sample_search_world_def
        empty_db_def no_faults_def upsert_affected_def exists_where_def replaces_document_def search_content_def
        put_search_document_def upsert_def count_where_def bounded_text_def Let_def sql_def next_fault_def tick_def)
  then obtain w' where run: "record_all ?ps sample_search_world = (Inr (), w')"
    by (metis prod.collapse)
  have "key_unique sd_source (search_documents (tables sample_search_world))"
    "content_of 1 (search_documents (tables sample_search_world)) = None"
    by (simp_all add: sample_search_world_def empty_db_def key_unique_def content_of_def find_where_def)
  then show ?thesis
    using newest_projection_wins [OF run, of "sample_projection 5"] run by (auto simp: sample_projection_def)
qed

section \<open>Retiring superseded revisions\<close>

definition notes_owner :: string where
  "notes_owner = ''ratatoskr-notes''"

text \<open>Two revisions of the same source.\<close>

definition same_document :: "source_ref_row \<Rightarrow> source_ref_row \<Rightarrow> bool" where
  "same_document p r = (sr_tenant r = sr_tenant p \<and> sr_owner r = sr_owner p \<and> sr_document r = sr_document p)"

definition head_for :: "source_ref_row \<Rightarrow> head_row \<Rightarrow> bool" where
  "head_for p h = (hd_tenant h = sr_tenant p \<and> hd_source h = sr_document p)"

definition superseded_by_head :: "db \<Rightarrow> uuid \<Rightarrow> uuid \<Rightarrow> bool" where
  "superseded_by_head t persisted source =
     exists_where (\<lambda>p. sr_id p = persisted \<and>
       exists_where (\<lambda>h. head_for p h \<and>
         exists_where (\<lambda>r. same_document p r \<and> sr_digest r \<noteq> hd_digest h \<and> sr_id r = source)
           (source_refs t)) (source_analysis_heads t)) (source_refs t)"

definition superseded_note :: "db \<Rightarrow> uuid \<Rightarrow> uuid \<Rightarrow> bool" where
  "superseded_note t persisted source =
     exists_where (\<lambda>p. sr_id p = persisted \<and> sr_owner p = notes_owner \<and>
       exists_where (\<lambda>r. same_document p r \<and> sr_id r \<noteq> sr_id p \<and> sr_id r = source) (source_refs t))
       (source_refs t)"

definition delete_inputs :: "(db \<Rightarrow> uuid \<Rightarrow> bool) \<Rightarrow> (world, persistence_error, nat) exec" where
  "delete_inputs p = affect Query (\<lambda>t. count_where (\<lambda>i. p t (pi_source i)) (projection_inputs t))
     (\<lambda>t. t\<lparr>projection_inputs := delete_where (\<lambda>i. p t (pi_source i)) (projection_inputs t)\<rparr>)"

definition delete_documents :: "(db \<Rightarrow> uuid \<Rightarrow> bool) \<Rightarrow> (world, persistence_error, nat) exec" where
  "delete_documents p = affect Query (\<lambda>t. count_where (\<lambda>d. p t (sd_source d)) (search_documents t))
     (\<lambda>t. t\<lparr>search_documents := delete_where (\<lambda>d. p t (sd_source d)) (search_documents t)\<rparr>)"

definition retire_superseded_projections :: "uuid \<Rightarrow> (world, persistence_error, nat) exec" where
  "retire_superseded_projections persisted =
     exec_bind (delete_inputs (\<lambda>t. superseded_by_head t persisted)) (\<lambda>_.
     exec_bind (delete_inputs (\<lambda>t. superseded_note t persisted)) (\<lambda>_.
     exec_bind (delete_documents (\<lambda>t. superseded_note t persisted)) (\<lambda>notes.
     exec_bind (delete_documents (\<lambda>t. superseded_by_head t persisted)) (\<lambda>heads.
     exec_return (heads + notes)))))"

definition superseded :: "db \<Rightarrow> uuid \<Rightarrow> uuid \<Rightarrow> bool" where
  "superseded t persisted source = (superseded_by_head t persisted source \<or> superseded_note t persisted source)"

definition retire :: "uuid \<Rightarrow> db \<Rightarrow> db" where
  "retire persisted t = t\<lparr>
     projection_inputs := delete_where (\<lambda>i. superseded t persisted (pi_source i)) (projection_inputs t),
     search_documents := delete_where (\<lambda>d. superseded t persisted (sd_source d)) (search_documents t)\<rparr>"

lemma superseded_frame [simp]:
  "superseded_by_head (t\<lparr>projection_inputs := x\<rparr>) = superseded_by_head t"
  "superseded_by_head (t\<lparr>search_documents := y\<rparr>) = superseded_by_head t"
  "superseded_note (t\<lparr>projection_inputs := x\<rparr>) = superseded_note t"
  "superseded_note (t\<lparr>search_documents := y\<rparr>) = superseded_note t"
  by (simp_all add: superseded_by_head_def superseded_note_def fun_eq_iff)

lemma delete_where_both: "delete_where p (delete_where q t) = delete_where (\<lambda>x. q x \<or> p x) t"
  by (simp add: delete_where_def conj_commute)

lemma affect_result:
  "affect e n f w = (Inr x, w') \<Longrightarrow> tables w' = f (tables w) \<and> disk w' = disk w \<and> x = n (tables w)"
  by (auto simp: affect_def sql_def split: if_splits)

lemma retire_result:
  assumes "retire_superseded_projections persisted w = (Inr n, w')"
  shows "tables w' = retire persisted (tables w)"
  using assms unfolding retire_superseded_projections_def delete_inputs_def delete_documents_def
  by (auto elim!: exec_bind_InrE dest!: affect_result simp: exec_return_def retire_def superseded_def
      delete_where_both disj_commute)

end
