(* ===== verification/Pipeline.thy ===== *)
theory Pipeline
  imports Driver_Correct Search_Projection
begin

text \<open>
  The article pipeline (\<open>pipeline.rs\<close>) and the persistence of the other families
  (\<open>family_pipeline.rs\<close>): validation of the provider's bytes, and the one transaction that stores an
  accepted output, moves the run to \<open>persisted\<close> and writes its search projections.
\<close>

section \<open>Validation\<close>

fun validation_code :: "article_validation_error \<Rightarrow> string" where
  "validation_code SchemaDefinition = ''schema''"
| "validation_code Structural = ''schema''"
| "validation_code Decode = ''decode''"
| "validation_code Citation = ''citation''"

definition article_json :: "article_analysis \<Rightarrow> json" where
  "article_json a = JObj [(''summary'', JStr (aa_summary a)),
     (''key_points'', JArr (map (\<lambda>p. JObj [(''text'', JStr (kp_text p)),
        (''source_block_indexes'', JArr (map (\<lambda>i. JNum (int i)) (kp_indexes p)))]) (aa_key_points a)))]"

definition checked_article :: "prepared_context \<Rightarrow> json \<Rightarrow> article_validation_error + article_analysis" where
  "checked_article context j =
     (case validate_article_json j of
        Inl e \<Rightarrow> Inl e
      | Inr article \<Rightarrow>
          (case validate_article_citations article context of Inl e \<Rightarrow> Inl e | Inr _ \<Rightarrow> Inr article))"

text \<open>\<open>parse\<close> stands for \<open>serde_json::from_slice\<close>.\<close>

definition validate_article :: "(bytes \<Rightarrow> json option) \<Rightarrow> prepared_context \<Rightarrow> validator" where
  "validate_article parse context content =
     (case parse content of
        None \<Rightarrow> Inl ''json_syntax''
      | Some j \<Rightarrow>
          (case checked_article context j of
             Inl e \<Rightarrow> Inl (validation_code e)
           | Inr article \<Rightarrow> Inr (article_json article)))"

definition validate_family :: "(bytes \<Rightarrow> json option) \<Rightarrow> (json \<Rightarrow> json option) \<Rightarrow> validator" where
  "validate_family parse check content =
     (case Option.bind (parse content) check of None \<Rightarrow> Inl ''family_schema'' | Some v \<Rightarrow> Inr v)"

section \<open>Persistence of an accepted output\<close>

definition output_row_of :: "uuid \<Rightarrow> instant \<Rightarrow> uuid \<Rightarrow> json \<Rightarrow> blob_ref \<Rightarrow> output_row" where
  "output_row_of ident at run result raw =
     \<lparr>ao_id = ident, ao_run = run, ao_result = result, ao_raw = raw, ao_accepted = True, ao_created = at\<rparr>"

text \<open>One accepted output per run, an object, of a stored run.\<close>

definition insert_output :: "output_row \<Rightarrow> db \<Rightarrow> persistence_error + (unit \<times> db)" where
  "insert_output r t =
     (if \<not> json_is_object (ao_result r) \<or>
         exists_where (\<lambda>x. ao_run x = ao_run r \<and> ao_accepted x) (analysis_outputs t) \<or>
         \<not> exists_where (\<lambda>x. ar_id x = ao_run r) (analysis_runs t)
      then Inl Query
      else Inr ((), t\<lparr>analysis_outputs := analysis_outputs t @ [r]\<rparr>))"

definition store_output :: "uuid \<Rightarrow> json \<Rightarrow> blob_ref \<Rightarrow> (world, drive_failure, uuid) exec" where
  "store_output run result raw =
     exec_bind new_uuid (\<lambda>output.
     exec_bind get_now (\<lambda>at.
     exec_bind (durably (sql Query (insert_output (output_row_of output at run result raw)))) (\<lambda>_.
     exec_bind (durably (affect Query (\<lambda>t. count_where (run_in run SchemaValidated) (analysis_runs t))
       (set_run_state (run_in run SchemaValidated) Persisted))) (\<lambda>changed.
     exec_bind (exec_guard (changed = 1) DriveConflict) (\<lambda>_. exec_return output)))))"

text \<open>The run joined with its source revision: \<open>fetch_one\<close> fails when there is none.\<close>

definition source_of_run :: "uuid \<Rightarrow> db \<Rightarrow> source_ref_row option" where
  "source_of_run run t =
     Option.bind (find_where (\<lambda>r. ar_id r = run) (analysis_runs t))
       (\<lambda>r. find_where (\<lambda>s. sr_id s = ar_source r) (source_refs t))"

definition fetch_source_of_run :: "uuid \<Rightarrow> (world, persistence_error, source_ref_row) exec" where
  "fetch_source_of_run run =
     sql Query (\<lambda>t. case source_of_run run t of None \<Rightarrow> Inl Query | Some s \<Rightarrow> Inr (s, t))"

definition record_projections :: "search_projection \<Rightarrow> (world, persistence_error, unit) exec" where
  "record_projections p =
     exec_bind (record_search_projection_input p) (\<lambda>_.
     exec_bind (record_search_document p) (\<lambda>_. exec_return ()))"

definition article_projection :: "document \<Rightarrow> uuid \<Rightarrow> source_ref_row \<Rightarrow> search_projection" where
  "article_projection document oid source =
     \<lparr>pj_source = sr_id source, pj_output = oid, pj_tenant = sr_tenant source,
      pj_owner = sr_owner source, pj_document = doc_id document, pj_text = extract_search_text document\<rparr>"

definition family_projection :: "uuid \<Rightarrow> search_text \<Rightarrow> uuid \<Rightarrow> source_ref_row \<Rightarrow> search_projection" where
  "family_projection document texts oid source =
     \<lparr>pj_source = sr_id source, pj_output = oid, pj_tenant = sr_tenant source,
      pj_owner = sr_owner source, pj_document = document, pj_text = texts\<rparr>"

text \<open>What both pipelines do first in their transaction; \<open>project\<close> is the rest of it.\<close>

definition persist_body ::
  "blob_store \<Rightarrow> uuid \<Rightarrow> json \<Rightarrow> blob_ref \<Rightarrow> (uuid \<Rightarrow> source_ref_row \<Rightarrow> (world, drive_failure, unit) exec) \<Rightarrow>
   (world, drive_failure, unit) exec" where
  "persist_body store run result reference project =
     exec_bind (durably (lock_and_verify store reference None)) (\<lambda>_.
     exec_bind (store_output run result reference) (\<lambda>oid.
     exec_bind (durably (fetch_source_of_run run)) (\<lambda>source. project oid source)))"

definition article_persist :: "blob_store \<Rightarrow> uuid \<Rightarrow> document \<Rightarrow> persister" where
  "article_persist store run document result reference =
     transact (DrivePersistence Query) (persist_body store run result reference (\<lambda>oid source.
       durably (record_projections (article_projection document oid source))))"

definition project_family ::
  "(string \<Rightarrow> uuid option) \<Rightarrow> search_text \<Rightarrow> uuid \<Rightarrow> source_ref_row \<Rightarrow> (world, drive_failure, unit) exec" where
  "project_family parse_uuid texts oid source =
     (case parse_uuid (sr_document source) of
        None \<Rightarrow> exec_fail (DrivePersistence InvalidSource)
      | Some document \<Rightarrow>
          exec_bind (durably (record_projections (family_projection document texts oid source))) (\<lambda>_.
          exec_bind (durably (retire_superseded_projections (sr_id source))) (\<lambda>_. exec_return ())))"

definition family_persist :: "(string \<Rightarrow> uuid option) \<Rightarrow> blob_store \<Rightarrow> uuid \<Rightarrow> search_text \<Rightarrow> persister" where
  "family_persist parse_uuid store run texts result raw =
     transact (DrivePersistence Query)
       (persist_body store run result raw (project_family parse_uuid texts))"

section \<open>Execution\<close>

definition article_driver ::
  "blob_store \<Rightarrow> provider_identity \<Rightarrow> (generation_request \<Rightarrow> world \<Rightarrow> (nat \<times> provider_reply) \<times> world) \<Rightarrow> driver" where
  "article_driver store ident provider =
     \<lparr>dv_store = store, dv_identity = ident, dv_generate = provider, dv_policy = ''fake_default_v1''\<rparr>"

definition family_driver ::
  "blob_store \<Rightarrow> provider_identity \<Rightarrow> (generation_request \<Rightarrow> world \<Rightarrow> (nat \<times> provider_reply) \<times> world) \<Rightarrow> driver" where
  "family_driver store ident provider =
     \<lparr>dv_store = store, dv_identity = ident, dv_generate = provider, dv_policy = ''family_default_v1''\<rparr>"

text \<open>\<open>ArticlePipeline::execute\<close>.\<close>

definition execute_article ::
  "(bytes \<Rightarrow> json option) \<Rightarrow> blob_store \<Rightarrow> provider_identity \<Rightarrow>
   (generation_request \<Rightarrow> world \<Rightarrow> (nat \<times> provider_reply) \<times> world) \<Rightarrow>
   uuid \<Rightarrow> generation_request \<Rightarrow> prepared_context \<Rightarrow> document \<Rightarrow> (world, drive_failure, article_analysis) exec" where
  "execute_article parse store ident provider run request context document =
     exec_bind (drive (article_driver store ident provider) (validate_article parse context)
       (article_persist store run document) run request) (\<lambda>v.
     case decode_article v of None \<Rightarrow> exec_fail (DrivePersistence Encode) | Some a \<Rightarrow> exec_return a)"

text \<open>\<open>execute_value\<close> of the family pipeline.\<close>

definition execute_value ::
  "(bytes \<Rightarrow> json option) \<Rightarrow> (string \<Rightarrow> uuid option) \<Rightarrow> blob_store \<Rightarrow> provider_identity \<Rightarrow>
   (generation_request \<Rightarrow> world \<Rightarrow> (nat \<times> provider_reply) \<times> world) \<Rightarrow>
   uuid \<Rightarrow> generation_request \<Rightarrow> search_text \<Rightarrow> (json \<Rightarrow> json option) \<Rightarrow> (world, drive_failure, json) exec" where
  "execute_value parse parse_uuid store ident provider run request texts check =
     drive (family_driver store ident provider) (validate_family parse check)
       (family_persist parse_uuid store run texts) run request"

text \<open>A failure that no later delivery can survive (\<open>PipelineError::is_permanent\<close>).\<close>

fun pipeline_error_is_permanent :: "drive_failure \<Rightarrow> bool" where
  "pipeline_error_is_permanent (DrivePersistence e) = persistence_error_is_permanent e"
| "pipeline_error_is_permanent (DriveProvider e) = provider_error_is_permanent e"
| "pipeline_error_is_permanent (DriveBlob e) = blob_error_is_permanent e"
| "pipeline_error_is_permanent DriveInvalid = True"
| "pipeline_error_is_permanent DriveTimeout = False"
| "pipeline_error_is_permanent DriveConflict = False"

fun pipeline_error_needs_operator :: "drive_failure \<Rightarrow> bool" where
  "pipeline_error_needs_operator (DriveProvider e) = provider_error_needs_operator e"
| "pipeline_error_needs_operator _ = False"

section \<open>What a persistence does\<close>

text \<open>The tables after a commit: the output, the run and its projections.\<close>

definition stored_tables :: "output_row \<Rightarrow> db \<Rightarrow> db" where
  "stored_tables r t = set_run_state (run_in (ao_run r) SchemaValidated) Persisted
     (t\<lparr>analysis_outputs := analysis_outputs t @ [r]\<rparr>)"

definition projected_tables :: "projection_row \<Rightarrow> search_row \<Rightarrow> db \<Rightarrow> db" where
  "projected_tables i d t = t\<lparr>projection_inputs := put_projection_input i (projection_inputs t),
     search_documents := put_search_document d (search_documents t)\<rparr>"

lemma durably_Inr: "durably m w = (Inr x, w') \<longleftrightarrow> m w = (Inr x, w')"
  by (simp add: durably_def exec_map_err_Inr)

lemma insert_output_Inr: "insert_output r t = Inr (u, t') \<Longrightarrow>
    t' = t\<lparr>analysis_outputs := analysis_outputs t @ [r]\<rparr> \<and> json_is_object (ao_result r) \<and>
    \<not> exists_where (\<lambda>x. ao_run x = ao_run r \<and> ao_accepted x) (analysis_outputs t)"
  by (auto simp: insert_output_def split: if_splits)

lemma store_output_result:
  assumes "store_output run result raw w = (Inr oid, w')"
  shows "oid = fresh w \<and> fresh w' = fresh w + 1 \<and> now w' = now w \<and>
    tables w' = stored_tables (output_row_of oid (now w) run result raw) (tables w) \<and>
    json_is_object result \<and> count_where (run_in run SchemaValidated) (analysis_runs (tables w)) = 1 \<and>
    \<not> exists_where (\<lambda>x. ao_run x = run \<and> ao_accepted x) (analysis_outputs (tables w))"
  using assms unfolding store_output_def
  by (auto elim!: exec_bind_InrE dest!: sql_Inr affect_Inr insert_output_Inr
      simp: durably_Inr new_uuid_def get_now_def exec_guard_apply exec_return_def
        stored_tables_def output_row_of_def split: if_splits)

lemma record_projections_result:
  assumes "record_projections p w = (Inr (), w')"
  shows "\<exists>i d. tables w' = projected_tables i d (tables w) \<and> pi_source i = pj_source p \<and> pi_output i = pj_output p \<and>
    sd_source d = pj_source p \<and> search_content d = projection_content p"
proof -
  obtain n w1 m w2 where 1: "record_search_projection_input p w = (Inr n, w1)"
    and 2: "record_search_document p w1 = (Inr m, w2)" and 3: "w' = w2"
    using assms unfolding record_projections_def by (auto elim!: exec_bind_InrE simp: exec_return_def)
  obtain w0 where "sql Query (write_projection_input (projection_row_of (now w) p)) w0 = (Inr n, w1)" "tables w0 = tables w"
    using 1 by (auto simp: record_search_projection_input_def exec_bind_def get_now_def)
  then have "tables w1 = (tables w)\<lparr>projection_inputs :=
      put_projection_input (projection_row_of (now w) p) (projection_inputs (tables w))\<rparr>"
    by (auto dest!: sql_Inr write_projection_input_result)
  then show ?thesis using record_search_document_result [OF 2] 3
    by (intro exI [of _ "projection_row_of (now w) p"] exI [of _ "search_row_of (fresh w1) (now w1) p"])
      (simp add: projected_tables_def projection_row_of_def Let_def)
qed

lemma fetch_source_result:
  "fetch_source_of_run run w = (Inr s, w') \<Longrightarrow> source_of_run run (tables w) = Some s \<and> tables w' = tables w"
  unfolding fetch_source_of_run_def by (auto dest!: sql_Inr split: option.splits)

text \<open>The body of a persistence, when it gets to its projection.\<close>

lemma persist_body_result:
  assumes "persist_body store run result reference project w = (Inr (), w')"
  shows "\<exists>r s w1. json_is_object result \<and> ao_run r = run \<and> ao_result r = result \<and> ao_accepted r \<and>
    ao_raw r = reference \<and> disk w (br_digest reference) \<noteq> None \<and>
    state_of (tables w) run \<noteq> None \<and> accepted_of (tables w) run = None \<and>
    source_of_run run (stored_tables r (tables w)) = Some s \<and>
    tables w1 = stored_tables r (tables w) \<and> disk w1 = disk w \<and> project (ao_id r) s w1 = (Inr (), w')"
proof -
  obtain w1 oid w2 source w3 where 1: "lock_and_verify store reference None w = (Inr (), w1)"
    and 2: "store_output run result reference w1 = (Inr oid, w2)"
    and 3: "fetch_source_of_run run w2 = (Inr source, w3)"
    and 4: "project oid source w3 = (Inr (), w')"
    using assms unfolding persist_body_def by (auto elim!: exec_bind_InrE simp: durably_Inr)
  have d1: "disk w1 = disk w"
    using 1 by (auto simp: lock_and_verify_def exec_bind_def blob_exists_def blob_path_exists_def exec_fail_def
        exec_return_def exec_map_err_def split: if_splits sum.splits prod.splits
        dest!: query_cases file_read_cases)
  have t1: "tables w1 = tables w" using lock_and_verify_result(1) [OF 1] by (simp add: grows_def)
  have "no_files (store_output run result reference)" "no_files (fetch_source_of_run run)"
    unfolding store_output_def durably_def fetch_source_of_run_def by (intro unchanged_rules database_free_parts)+
  note d2 = unchangedD [OF this(1) 2] and d3 = unchangedD [OF this(2) 3]
  let ?r = "output_row_of oid (now w1) run result reference"
  note r2 = store_output_result [OF 2]
  have "count_where (run_in run SchemaValidated) (analysis_runs (tables w)) \<noteq> 0" using r2 t1 by simp
  then have "state_of (tables w) run \<noteq> None"
    unfolding count_where_0 by (auto simp: state_of_def find_where_Some_iff run_in_def)
  moreover have "accepted_of (tables w) run = None"
    using r2 t1 by (auto simp: accepted_of_def find_where_Some_iff table_simps)
  moreover have "source_of_run run (stored_tables ?r (tables w)) = Some source"
    "tables w3 = stored_tables ?r (tables w)"
    using r2 fetch_source_result [OF 3] t1 by simp_all
  moreover have "disk w (br_digest reference) \<noteq> None" using lock_and_verify_result(2) [OF 1] d1 by simp
  ultimately show ?thesis using r2 4 d1 d2 d3
    by (intro exI [of _ ?r] exI [of _ source] exI [of _ w3] conjI) (simp_all add: output_row_of_def)
qed

section \<open>What it does to the view of the run\<close>

lemma projected_same_runs [simp]: "same_runs t (projected_tables i d t)"
  by (simp add: same_runs_def projected_tables_def)

lemma retire_same_runs [simp]: "same_runs t (retire p t)"
  by (simp add: same_runs_def retire_def)

lemma same_runs_trans: "same_runs t u \<Longrightarrow> same_runs u v \<Longrightarrow> same_runs t v"
  by (simp add: same_runs_def)

lemma stored_view:
  assumes "runs_wf t" and "state_of t run = Some SchemaValidated" and "accepted_of t run = None"
    and r: "ao_run r = run" "ao_accepted r" "ao_result r = v"
  shows "runs_wf (stored_tables r t) \<and> state_of (stored_tables r t) run = Some Persisted \<and>
    attempts_of (stored_tables r t) run = attempts_of t run \<and> accepted_of (stored_tables r t) run = Some v"
proof -
  let ?t = "t\<lparr>analysis_outputs := analysis_outputs t @ [r]\<rparr>"
  have "runs_wf ?t = runs_wf t" "state_of ?t run = state_of t run" "attempts_of ?t run = attempts_of t run"
    by (simp_all add: runs_wf_def state_of_def attempts_of_def)
  moreover have "accepted_of ?t run = Some v"
    using assms(3) r by (simp add: accepted_of_def find_where_append) (simp add: find_where_def)
  ultimately show ?thesis using assms r by (simp add: stored_tables_def)
qed

lemma hoare_persist:
  assumes project: "\<And>oid s w w'. project oid s w = (Inr (), w') \<Longrightarrow> same_runs (tables w) (tables w')"
    and quiet: "\<And>oid s. no_calls (project oid s)" "\<And>oid s. no_files (project oid s)"
    and works: "\<And>w. calm \<Longrightarrow> holds calm run
      (at_state SchemaValidated k (\<lambda>as out c. \<exists>n. answered n raw AttemptAccepted as c \<and>
         (calm \<longrightarrow> is_digest_hex (br_digest raw)))) w \<Longrightarrow>
      \<exists>w'. persist_body store run v raw project w = (Inr (), w') \<and> no_faults w'"
  shows "triple calm run k
    (at_state SchemaValidated k (\<lambda>as out c. \<exists>n. answered n raw AttemptAccepted as c \<and>
       (calm \<longrightarrow> is_digest_hex (br_digest raw))))
    (transact (DrivePersistence Query) (persist_body store run v raw project))
    (\<lambda>_. at_state Persisted k (\<lambda>as out c. out = Some v))"
    (is "triple calm run k ?P ?m ?Q")
proof -
  have calls: "no_calls (persist_body store run v raw project)"
    unfolding persist_body_def store_output_def durably_def fetch_source_of_run_def
    by (intro unchanged_rules quiet database_free_parts)
  have result: "(\<exists>e. r = Inl e) \<and> \<not> calm \<and> holds calm run (fails calm k) w' \<or>
      (r = Inr () \<or> r = Inl (DrivePersistence Query) \<and> \<not> calm) \<and> holds calm run (?Q ()) w'"
    if w: "holds calm run ?P w" and run: "?m w = (r, w')" for w r w'
  proof -
    have calm_result: "calm \<Longrightarrow> r = Inr () \<and> no_faults w'"
    proof -
      assume calm
      then obtain w1 where 1: "persist_body store run v raw project w = (Inr (), w1)" "no_faults w1"
        using works w by blast
      moreover have "no_faults w" using w \<open>calm\<close> by (simp add: holds_def)
      ultimately have "?m w = (Inr (), w1)" by (intro transact_works)
      then show ?thesis using run 1 by simp
    qed
    have view: "runs_wf (tables w)" "state_of (tables w) run = Some SchemaValidated"
      "accepted_of (tables w) run = None"
      using w by (auto simp: holds_def at_state_def run_ok_def run_done_def)
    note tx = transact_result [OF run calls, simplified]
    have same: "?thesis" if "r = Inl e" "tables w' = tables w" for e
      using that w tx calm_result by (cases calm) (auto simp: holds_def at_state_def fails_def)
    have new: "?thesis" if body: "persist_body store run v raw project (tick w) = (Inr (), w1)"
      and t: "tables w' = tables w1" and r: "r = Inr () \<or> r = Inl (DrivePersistence Query)" for w1
    proof -
      obtain row s w0 where row: "ao_run row = run" "ao_result row = v" "ao_accepted row"
        "tables w0 = stored_tables row (tables w)" "project (ao_id row) s w0 = (Inr (), w1)"
        using persist_body_result [OF body] by auto
      have stored: "runs_wf (tables w0) \<and> state_of (tables w0) run = Some Persisted \<and>
          attempts_of (tables w0) run = attempts_of (tables w) run \<and> accepted_of (tables w0) run = Some v"
        using stored_view [OF view row(1,3,2)] row(4) by simp
      have "same_runs (tables w0) (tables w')" using project [OF row(5)] t by simp
      then have "runs_wf (tables w') \<and> state_of (tables w') run = Some Persisted \<and>
          attempts_of (tables w') run = attempts_of (tables w) run \<and> accepted_of (tables w') run = Some v"
        using stored same_runs_view [of "tables w0" "tables w'" run] by simp
      then have "holds calm run (?Q ()) w'"
        using w tx calm_result by (auto simp: holds_def at_state_def run_ok_def run_done_def answered_def)
      then show ?thesis using r calm_result by (cases calm) auto
    qed
    show ?thesis using tx same new by auto
  qed
  have err: "holds calm run (fails calm k) w'" if "holds calm run (?Q ()) w'" "\<not> calm" for w'
    using that by (auto simp: holds_def at_state_def fails_def)
  show ?thesis
    by (rule hoareI) (use result err in blast)+
qed

section \<open>Both pipelines drive runs\<close>

text \<open>
  What the pipelines rely on of a provider: a call touches neither the run tables nor the blob root
  and is one call, and it does not fail in the database when the database does not fail.
\<close>

definition provider_frame :: "(generation_request \<Rightarrow> world \<Rightarrow> (nat \<times> provider_reply) \<times> world) \<Rightarrow> bool" where
  "provider_frame provider = (\<forall>request w. let w' = snd (provider request w) in
     same_runs (tables w) (tables w') \<and> disk w' = disk w \<and> (no_faults w \<longrightarrow> no_faults w') \<and>
     provider_calls w' \<le> provider_calls w + 1)"

lemma provider_frameD:
  "provider_frame provider \<Longrightarrow> provider request w = ((ms, reply), w') \<Longrightarrow>
     same_runs (tables w) (tables w') \<and> disk w' = disk w \<and> (no_faults w \<longrightarrow> no_faults w') \<and>
     provider_calls w' \<le> provider_calls w + 1"
  unfolding provider_frame_def by (metis snd_conv)

lemma unchanged_record_projections [unchanged_rules]:
  "database_free g \<Longrightarrow> unchanged g (record_projections p)"
  unfolding record_projections_def record_search_projection_input_def record_search_document_def
  by (intro unchanged_rules)

lemma unchanged_retire [unchanged_rules]: "database_free g \<Longrightarrow> unchanged g (retire_superseded_projections p)"
  unfolding retire_superseded_projections_def delete_inputs_def delete_documents_def by (intro unchanged_rules)

lemma project_family_same_runs:
  "project_family parse_uuid texts oid s w = (Inr (), w') \<Longrightarrow> same_runs (tables w) (tables w')"
  unfolding project_family_def
  by (auto elim!: exec_bind_InrE dest!: record_projections_result retire_result
      simp: durably_Inr exec_return_def exec_fail_def same_runs_def projected_tables_def retire_def
      split: option.splits)

lemma article_driving:
  assumes "provider_frame provider"
  shows "driving (article_driver store ident provider) (validate_article parse context)
    (article_persist store run document) run False (\<lambda>_. True)"
proof
  show "triple False run k (at_state SchemaValidated k (\<lambda>as out c. \<exists>n. answered n raw AttemptAccepted as c \<and>
          (False \<longrightarrow> is_digest_hex (br_digest raw))))
      (article_persist store run document v raw) (\<lambda>_. at_state Persisted k (\<lambda>as out c. out = Some v))" for k v raw
    unfolding article_persist_def
  proof (rule hoare_persist)
    show "no_calls (durably (record_projections (article_projection document oid s)))"
      "no_files (durably (record_projections (article_projection document oid s)))" for oid s
      unfolding durably_def by (intro unchanged_rules database_free_parts)+
  qed (auto dest!: record_projections_result simp: durably_Inr)
qed (use assms in \<open>auto simp: article_driver_def dest: provider_frameD\<close>)

lemma family_driving:
  assumes "provider_frame provider"
  shows "driving (family_driver store ident provider) (validate_family parse check)
    (family_persist parse_uuid store run texts) run False (\<lambda>_. True)"
proof
  show "triple False run k (at_state SchemaValidated k (\<lambda>as out c. \<exists>n. answered n raw AttemptAccepted as c \<and>
          (False \<longrightarrow> is_digest_hex (br_digest raw))))
      (family_persist parse_uuid store run texts v raw) (\<lambda>_. at_state Persisted k (\<lambda>as out c. out = Some v))" for k v raw
    unfolding family_persist_def
  proof (rule hoare_persist)
    show "no_calls (project_family parse_uuid texts oid s)" "no_files (project_family parse_uuid texts oid s)" for oid s
      unfolding project_family_def durably_def by (intro unchanged_rules database_free_parts)+
  qed (auto dest: project_family_same_runs)
qed (use assms in \<open>auto simp: family_driver_def dest: provider_frameD\<close>)

section \<open>The offline provider\<close>

text \<open>\<open>ExtractiveArticleProvider\<close> answers at once from the request.\<close>

definition offline_identity :: provider_identity where
  "offline_identity = \<lparr>id_provider = ''extractive_fixture'', id_model = ''first_paragraph_v1''\<rparr>"

definition reply_of :: "provider_failure + provider_response \<Rightarrow> provider_reply" where
  "reply_of r = (case r of Inl f \<Rightarrow> FailedCall f | Inr response \<Rightarrow> Responded response)"

definition offline_provider ::
  "(json \<Rightarrow> bytes) \<Rightarrow> (string \<Rightarrow> string option) \<Rightarrow> generation_request \<Rightarrow> world \<Rightarrow> (nat \<times> provider_reply) \<times> world" where
  "offline_provider encode dec request w =
     ((0, reply_of (extract_answer encode dec request)), w\<lparr>provider_calls := provider_calls w + 1\<rparr>)"

lemma offline_frame: "provider_frame (offline_provider encode dec)"
  by (simp add: provider_frame_def offline_provider_def same_runs_def)

interpretation offline_article: driving "article_driver store offline_identity (offline_provider encode dec)"
  "validate_article parse pc" "article_persist store run document" run False "\<lambda>_. True"
  for store encode dec parse pc run document
  by (rule article_driving [OF offline_frame])

interpretation offline_family: driving "family_driver store offline_identity (offline_provider encode dec)"
  "validate_family parse check" "family_persist parse_uuid store run texts" run False "\<lambda>_. True"
  for store encode dec parse check parse_uuid run texts
  by (rule family_driving [OF offline_frame])

section \<open>Persisting when nothing fails\<close>

lemma store_output_works:
  assumes "no_faults w" and "runs_wf (tables w)" and "state_of (tables w) run = Some SchemaValidated"
    and "accepted_of (tables w) run = None" and "json_is_object v"
  shows "\<exists>w'. store_output run v raw w = (Inr (fresh w), w') \<and> no_faults w' \<and>
    tables w' = stored_tables (output_row_of (fresh w) (now w) run v raw) (tables w)"
proof -
  let ?r = "output_row_of (fresh w) (now w) run v raw"
  let ?t = "tables w\<lparr>analysis_outputs := analysis_outputs (tables w) @ [?r]\<rparr>"
  have "\<not> exists_where (\<lambda>x. ao_run x = run \<and> ao_accepted x) (analysis_outputs (tables w))"
    using assms(4) by (auto simp: accepted_of_def find_where_Some_iff table_simps)
  moreover have "exists_where (\<lambda>x. ar_id x = run) (analysis_runs (tables w))"
    using assms(3) by (auto simp: state_of_def table_simps dest!: find_where_SomeD)
  ultimately have ins: "insert_output ?r (tables w) = Inr ((), ?t)"
    using assms(5) by (simp add: insert_output_def output_row_of_def)
  have count: "count_where (run_in run SchemaValidated) (analysis_runs (tables w)) = 1"
    using count_run_in [OF assms(2)] assms(3) by simp
  show ?thesis
    using assms(1) ins count
    by (simp add: store_output_def exec_bind_def new_uuid_def get_now_def durably_def exec_map_err_def sql_works
        affect_works exec_guard_apply exec_return_def stored_tables_def) (simp add: output_row_of_def)
qed

lemma source_of_run_stored:
  assumes "runs_wf t" and "state_of t run \<noteq> None"
  shows "\<exists>s. source_of_run run (stored_tables r t) = Some s \<and> exists_where (\<lambda>x. sr_id x = sr_id s) (source_refs t)"
proof -
  let ?f = "\<lambda>x. if run_in (ao_run r) SchemaValidated x then x\<lparr>ar_state := Persisted\<rparr> else x"
  obtain x where x: "find_where (\<lambda>x. ar_id x = run) (analysis_runs t) = Some x"
    using assms(2) by (auto simp: state_of_def)
  have "find_where (\<lambda>x. ar_id x = run) (update_where (run_in (ao_run r) SchemaValidated) (\<lambda>x. x\<lparr>ar_state := Persisted\<rparr>)
      (analysis_runs t)) = map_option ?f (find_where (\<lambda>x. ar_id x = run) (analysis_runs t))"
    by (rule find_update_where) simp
  then have "find_where (\<lambda>x. ar_id x = run) (analysis_runs (stored_tables r t)) = Some (?f x)"
    using x by (simp add: stored_tables_def set_run_state_def)
  moreover have "ar_source (?f x) = ar_source x" by simp
  moreover have "ar_source x \<in> sr_id ` set (source_refs t)"
    using assms(1) find_where_SomeD [OF x] by (auto simp: runs_wf_def)
  then obtain s where s: "find_where (\<lambda>s. sr_id s = ar_source x) (source_refs t) = Some s"
    by (cases "find_where (\<lambda>s. sr_id s = ar_source x) (source_refs t)") (auto simp: find_where_Some_iff)
  moreover have "source_refs (stored_tables r t) = source_refs t"
    by (simp add: stored_tables_def set_run_state_def)
  ultimately have "source_of_run run (stored_tables r t) = Some s"
    by (simp add: source_of_run_def split del: if_split)
  then show ?thesis using find_where_SomeD [OF s] by (auto simp: table_simps)
qed

lemma record_projections_works:
  assumes "no_faults w" and "exists_where (\<lambda>s. sr_id s = pj_source p) (source_refs (tables w))"
    and "exists_where (\<lambda>x. ao_id x = pj_output p) (analysis_outputs (tables w))"
  shows "\<exists>w'. record_projections p w = (Inr (), w') \<and> no_faults w'"
proof -
  have "pi_source (projection_row_of at p) = pj_source p" "pi_output (projection_row_of at p) = pj_output p" for at
    by (simp_all add: projection_row_of_def Let_def)
  then have "\<exists>n t. write_projection_input (projection_row_of (now w) p) (tables w) = Inr (n, t)"
    using assms(2,3) by (simp add: write_projection_input_def Let_def)
  then obtain n t where 1: "write_projection_input (projection_row_of (now w) p) (tables w) = Inr (n, t)" by blast
  then have "source_refs t = source_refs (tables w)"
    using write_projection_input_result [OF 1] by simp
  then have "\<exists>m u. write_search_document (search_row_of (fresh w) (now w) p) t = Inr (m, u)"
    using assms(2) by (simp add: write_search_document_def Let_def)
  then obtain m u where 2: "write_search_document (search_row_of (fresh w) (now w) p) t = Inr (m, u)" by blast
  show ?thesis using assms(1) 1 2
    by (simp add: record_projections_def record_search_projection_input_def record_search_document_def
        exec_bind_def get_now_def new_uuid_def sql_works exec_return_def)
qed

lemma article_persist_works:
  assumes w: "holds True run (at_state SchemaValidated k (\<lambda>as out c. \<exists>n. answered n raw AttemptAccepted as c \<and>
         (True \<longrightarrow> is_digest_hex (br_digest raw)))) w" and v: "json_is_object v"
  shows "\<exists>w'. persist_body store run v raw (\<lambda>oid source.
      durably (record_projections (article_projection document oid source))) w = (Inr (), w') \<and> no_faults w'"
proof -
  have nf: "no_faults w" and wf: "runs_wf (tables w)" and st: "state_of (tables w) run = Some SchemaValidated"
    and out: "accepted_of (tables w) run = None"
    using w by (auto simp: holds_def at_state_def run_ok_def run_done_def)
  have "blob_available store (disk w) raw None"
    using w by (auto simp: holds_def at_state_def answered_def blob_present_def blob_available_def)
  then obtain w1 where 1: "lock_and_verify store raw None w = (Inr (), w1)" "no_faults w1"
    using lock_and_verify_works [OF nf] by blast
  have t1: "tables w1 = tables w" using lock_and_verify_result(1) [OF 1(1)] by (simp add: grows_def)
  let ?r = "output_row_of (fresh w1) (now w1) run v raw"
  obtain w2 where 2: "store_output run v raw w1 = (Inr (fresh w1), w2)" "no_faults w2"
    "tables w2 = stored_tables ?r (tables w)"
    using store_output_works [OF 1(2), of run v raw] wf st out v t1 by auto
  obtain s where s: "source_of_run run (tables w2) = Some s" "exists_where (\<lambda>x. sr_id x = sr_id s) (source_refs (tables w))"
    using source_of_run_stored [OF wf, of run ?r] st 2(3) by auto
  let ?p = "article_projection document (fresh w1) s"
  have fk: "exists_where (\<lambda>x. sr_id x = pj_source ?p) (source_refs (tables w2))"
    "exists_where (\<lambda>x. ao_id x = pj_output ?p) (analysis_outputs (tables w2))"
    using s(2) 2(3)
    by (auto simp: article_projection_def stored_tables_def set_run_state_def output_row_of_def table_simps)
  obtain w3 where "record_projections ?p w2 = (Inr (), w3)" "no_faults w3"
    using record_projections_works [OF 2(2) fk] by blast
  moreover have "fetch_source_of_run run w2 = (Inr s, w2)"
    using s(1) 2(2) by (cases w2) (simp add: fetch_source_of_run_def sql_works)
  ultimately show ?thesis
    using 1 2(1) by (simp add: persist_body_def exec_bind_def durably_def exec_map_err_def)
qed

end
