(* ===== verification/Pipeline_Correct.thy ===== *)
theory Pipeline_Correct
  imports Pipeline
begin

text \<open>
  What the pipelines promise: the invariant of a run and the bound on provider calls under every
  pattern of faults, no call for an answer that is already stored, no write for a run that is
  already done, an accepted output when nothing stands in the way, and a search index that holds
  only the head of a source.
\<close>

section \<open>A run in a database\<close>

definition run_sound :: "db \<Rightarrow> uuid \<Rightarrow> bool" where
  "run_sound t run = (runs_wf t \<and>
     (case state_of t run of None \<Rightarrow> False | Some s \<Rightarrow> run_ok s (attempts_of t run) (accepted_of t run)))"

definition run_is_done :: "db \<Rightarrow> uuid \<Rightarrow> bool" where
  "run_is_done t run = (case state_of t run of None \<Rightarrow> False | Some s \<Rightarrow> run_done s)"

definition stored_answer :: "driver \<Rightarrow> validator \<Rightarrow> world \<Rightarrow> uuid \<Rightarrow> bool" where
  "stored_answer dv validate w run = (case state_of (tables w) run of None \<Rightarrow> False
     | Some s \<Rightarrow> answered_well dv validate s (attempts_of (tables w) run) (Env (provider_calls w) (disk w)))"

definition can_finish :: "driver \<Rightarrow> validator \<Rightarrow> world \<Rightarrow> uuid \<Rightarrow> bool" where
  "can_finish dv validate w run = (case state_of (tables w) run of None \<Rightarrow> False
     | Some s \<Rightarrow> live dv validate s (attempts_of (tables w) run) (Env (provider_calls w) (disk w)))"

lemma run_sound_drivable:
  assumes "run_sound (tables w) run" and "b \<Longrightarrow> stored_answer dv validate w run"
    and "calm \<Longrightarrow> can_finish dv validate w run" and "calm \<Longrightarrow> no_faults w"
  shows "holds calm run (drivable dv validate calm b (provider_calls w)) w"
  using assms
  by (auto simp: run_sound_def stored_answer_def can_finish_def holds_def drivable_def at_state_def
      split: option.splits)

lemma driven_run_sound:
  "holds calm run (driven k v) w \<Longrightarrow> run_sound (tables w) run \<and> run_is_done (tables w) run \<and>
     accepted_of (tables w) run = Some v \<and> provider_calls w \<le> k"
  by (auto simp: holds_def driven_def at_state_def run_sound_def run_is_done_def)

lemma fails_run_sound:
  "holds calm run (fails calm k) w \<Longrightarrow> \<not> calm \<and> run_sound (tables w) run \<and> provider_calls w \<le> k"
  by (auto simp: holds_def fails_def run_sound_def)

lemma drive_sound:
  assumes "driving dv validate persist run False (\<lambda>_. True)" and "run_sound (tables w) run"
    and "b \<Longrightarrow> stored_answer dv validate w run"
    and "drive dv validate persist run request w = (r, w')"
  shows "run_sound (tables w') run \<and> provider_calls w' \<le> call_bound b (provider_calls w) \<and>
    (\<forall>v. r = Inr v \<longrightarrow> run_is_done (tables w') run \<and> accepted_of (tables w') run = Some v)"
proof -
  have "holds False run (drivable dv validate False b (provider_calls w)) w"
    by (rule run_sound_drivable) (use assms(2,3) in auto)
  then have w: "holds False run (drivable dv validate False b (provider_calls w)) w \<and>
      (False \<longrightarrow> run \<notin> set (held w))" by simp
  have h: "hoare (\<lambda>w. holds False run (drivable dv validate False b (provider_calls w0)) w \<and> (False \<longrightarrow> run \<notin> set (held w)))
      (drive dv validate persist run request)
      (\<lambda>v. holds False run (driven (call_bound b (provider_calls w0)) v))
      (\<lambda>_. holds False run (fails False (call_bound b (provider_calls w0))))" for w0
    by (rule driving.hoare_drive_correct [OF assms(1)]) simp
  show ?thesis
  proof (cases r)
    case (Inl e)
    then have "holds False run (fails False (call_bound b (provider_calls w))) w'"
      using hoareD(2) [OF h w] assms(4) by simp
    then show ?thesis using Inl by (auto dest: fails_run_sound)
  next
    case (Inr v)
    then have "holds False run (driven (call_bound b (provider_calls w)) v) w'"
      using hoareD(1) [OF h w] assms(4) by simp
    then show ?thesis using Inr by (auto dest: driven_run_sound)
  qed
qed

lemma drive_finishes:
  assumes "driving dv validate persist run True fit" and "run_sound (tables w) run" and "fit request"
    and "can_finish dv validate w run" and "no_faults w" and "run \<notin> set (held w)"
  shows "\<exists>v w'. drive dv validate persist run request w = (Inr v, w') \<and>
    run_is_done (tables w') run \<and> accepted_of (tables w') run = Some v"
proof -
  have w: "holds True run (drivable dv validate True False (provider_calls w)) w \<and>
      (True \<longrightarrow> run \<notin> set (held w))"
    using run_sound_drivable [of w run False dv validate True] assms by simp
  obtain r w' where run: "drive dv validate persist run request w = (r, w')" by fastforce
  note h = driving.hoare_drive_correct [OF assms(1), of request False, OF assms(3)]
  show ?thesis
  proof (cases r)
    case (Inl e)
    then show ?thesis using hoareD(2) [OF h w] run by (auto dest: fails_run_sound)
  next
    case (Inr v)
    then have "holds True run (driven (call_bound False (provider_calls w)) v) w'"
      using hoareD(1) [OF h w] run by simp
    then show ?thesis using Inr run by (auto dest: driven_run_sound)
  qed
qed

section \<open>A sample run\<close>

text \<open>A queued run of a stored source revision, for the concrete instances of the theorems.\<close>

definition sample_digest :: string where
  "sample_digest = replicate 64 (CHR ''a'')"

definition sample_store :: blob_store where
  "sample_store = \<lparr>bs_max_bytes = 1000, bs_sha = (\<lambda>_. sample_digest)\<rparr>"

definition sample_db :: db where
  "sample_db = empty_db\<lparr>
     source_refs := [\<lparr>sr_id = 1, sr_tenant = ''user:1'', sr_owner = ''ratatoskr-extractor'', sr_archive = [],
       sr_document = ''d'', sr_digest = ''e'',
       sr_blob = \<lparr>br_owner = ''ratatoskr-extractor'', br_digest = ''e'', br_media = json_media, br_length = 1\<rparr>,
       sr_created = 0\<rparr>],
     analysis_runs := [\<lparr>ar_id = 7, ar_source = 1, ar_contract = ''c'', ar_prompt = ''p'', ar_context = ''x'',
       ar_policy = ''m'', ar_state = Queued, ar_created = 0, ar_updated = 0\<rparr>]\<rparr>"

definition sample_world :: world where
  "sample_world = \<lparr>tables = sample_db, disk = (\<lambda>_. None), now = 0, fresh = 10, held = [],
     provider_calls = 0, faults = []\<rparr>"

lemma sample_run: "run_sound (tables sample_world) 7" "no_faults sample_world" "held sample_world = []"
  by (simp_all add: sample_world_def sample_db_def empty_db_def run_sound_def runs_wf_def key_unique_def
      state_of_def find_where_def attempts_of_def select_where_def accepted_of_def run_ok_def history_ok_def
      newest_outcome_def run_done_def spent_calls_def count_where_def no_faults_def)

section \<open>The invariant, and at most two calls\<close>

text \<open>
  C1: whatever the database, the disk and the provider do (every pattern of failed or lost
  statements, a stop at any point, any answer), an article execution leaves the run in a state that
  fits its attempts and its accepted output, makes at most two provider calls, and returns an
  analysis only when that analysis is the accepted output stored for the run.
\<close>

theorem execute_article_sound:
  assumes "provider_frame provider" and "run_sound (tables w) run"
    and "execute_article parse store ident provider run request pc document w = (r, w')"
  shows "run_sound (tables w') run \<and> provider_calls w' \<le> provider_calls w + 2 \<and>
    (\<forall>a. r = Inr a \<longrightarrow> run_is_done (tables w') run \<and>
       (\<exists>v. accepted_of (tables w') run = Some v \<and> decode_article v = Some a))"
proof -
  obtain r1 w1 where d: "drive (article_driver store ident provider) (validate_article parse pc)
      (article_persist store run document) run request w = (r1, w1)" by fastforce
  have "w' = w1 \<and> (\<forall>a. r = Inr a \<longrightarrow> (\<exists>v. r1 = Inr v \<and> decode_article v = Some a))"
    using assms(3) d unfolding execute_article_def
    by (cases r1) (auto simp: exec_bind_def exec_fail_def exec_return_def split: option.splits)
  then show ?thesis
    using drive_sound [OF article_driving [OF assms(1)] assms(2), where b = False, OF _ d]
    by (auto simp: call_bound_def calls_per_drive_def)
qed

theorem execute_article_sound_witness:
  "\<exists>r w'. execute_article (\<lambda>_. None) sample_store offline_identity (offline_provider (\<lambda>_. []) (\<lambda>_. None)) 7
      (build_generation_request \<lparr>pt_system = [], pt_task = [], pt_schema = JNull\<rparr> sample_context) sample_context
      sample_document sample_world = (r, w') \<and> run_sound (tables w') 7"
proof -
  obtain r w' where e: "execute_article (\<lambda>_. None) sample_store offline_identity (offline_provider (\<lambda>_. []) (\<lambda>_. None)) 7
      (build_generation_request \<lparr>pt_system = [], pt_task = [], pt_schema = JNull\<rparr> sample_context) sample_context
      sample_document sample_world = (r, w')" by fastforce
  then show ?thesis
    using execute_article_sound [OF offline_frame sample_run(1) e] by blast
qed

text \<open>
  C16: the same for the executions of the other families (social posts, archive conversations and
  projects, notes, repositories), whose persistence also retires superseded revisions.
\<close>

theorem execute_value_sound:
  assumes "provider_frame provider" and "run_sound (tables w) run"
    and "execute_value parse parse_uuid store ident provider run request texts check w = (r, w')"
  shows "run_sound (tables w') run \<and> provider_calls w' \<le> provider_calls w + 2 \<and>
    (\<forall>v. r = Inr v \<longrightarrow> run_is_done (tables w') run \<and> accepted_of (tables w') run = Some v)"
  using drive_sound [OF family_driving [OF assms(1)] assms(2), where b = False, OF _ assms(3) [unfolded execute_value_def]]
  by (simp add: call_bound_def calls_per_drive_def)

theorem execute_value_sound_witness:
  "\<exists>r w'. execute_value (\<lambda>_. None) (\<lambda>_. None) sample_store offline_identity (offline_provider (\<lambda>_. []) (\<lambda>_. None)) 7
      (build_generation_request \<lparr>pt_system = [], pt_task = [], pt_schema = JNull\<rparr> sample_context)
      \<lparr>st_title = [], st_lead = [], st_body = []\<rparr> (\<lambda>_. None) sample_world = (r, w') \<and> run_sound (tables w') 7"
proof -
  obtain r w' where e: "execute_value (\<lambda>_. None) (\<lambda>_. None) sample_store offline_identity
      (offline_provider (\<lambda>_. []) (\<lambda>_. None)) 7
      (build_generation_request \<lparr>pt_system = [], pt_task = [], pt_schema = JNull\<rparr> sample_context)
      \<lparr>st_title = [], st_lead = [], st_body = []\<rparr> (\<lambda>_. None) sample_world = (r, w')" by fastforce
  then show ?thesis
    using execute_value_sound [OF offline_frame sample_run(1) e] by blast
qed

section \<open>A stored answer is never asked for again\<close>


definition sample_answer :: json where
  "sample_answer = extracted_article 1 ''x''"

definition sample_attempt :: attempt_row where
  "sample_attempt = \<lparr>at_run = 7, at_ordinal = 1, at_reason = ReasonInitial, at_provider = ''p'', at_policy = ''m'',
     at_model = ''m'', at_request = None,
     at_raw = Some \<lparr>br_owner = knowledge_owner, br_digest = sample_digest, br_media = json_media, br_length = 0\<rparr>,
     at_input = None, at_output = None, at_outcome = AttemptResponseReceived, at_code = None, at_duration = None,
     at_status = None, at_class = None\<rparr>"

definition answered_world :: world where
  "answered_world = sample_world\<lparr>
     tables := set_run_state (\<lambda>_. True) ResponseReceived (insert_attempt sample_attempt sample_db),
     disk := (\<lambda>_. None)(sample_digest := Some [])\<rparr>"

lemma sample_digest_hex [simp]: "is_digest_hex sample_digest"
  by (simp add: is_digest_hex_def sample_digest_def is_hex_digit_def list_all_iff)

lemma answered_view: "attempts_of (tables answered_world) 7 = [sample_attempt]"
  "state_of (tables answered_world) 7 = Some ResponseReceived" "accepted_of (tables answered_world) 7 = None"
  "runs_wf (tables answered_world)"
  by (simp_all add: answered_world_def sample_db_def empty_db_def set_run_state_def insert_attempt_def
      attempts_of_def select_where_def sample_attempt_def state_of_def find_where_def update_where_def
      accepted_of_def runs_wf_def key_unique_def)

lemma answered_sound: "run_sound (tables answered_world) 7"
  by (simp add: run_sound_def answered_view run_ok_def history_ok_def newest_outcome_def sample_attempt_def
      spent_calls_def count_where_def max_run_attempts_def run_done_def)

lemma sample_validates: "validate_article (\<lambda>_. Some sample_answer) sample_context [] =
    Inr (article_json \<lparr>aa_summary = ''x'', aa_key_points = [\<lparr>kp_text = ''x'', kp_indexes = [1]\<rparr>]\<rparr>)"
proof -
  have "validate_article_json sample_answer =
      Inr \<lparr>aa_summary = take 2000 ''x'', aa_key_points = [\<lparr>kp_text = take 500 ''x'', kp_indexes = [1]\<rparr>]\<rparr>"
    unfolding sample_answer_def by (rule validate_extracted) (simp_all add: trim_def is_whitespace_def)
  then show ?thesis
    by (simp add: validate_article_def checked_article_def validate_article_citations_def sample_context_def)
qed

lemma answered_stored:
  "stored_answer (article_driver sample_store ident provider) (validate_article (\<lambda>_. Some sample_answer) sample_context)
     answered_world 7"
  unfolding stored_answer_def answered_view
  by (simp add: answered_well_def stored_good_def)
    (simp add: sample_validates sample_attempt_def answered_world_def article_driver_def sample_store_def knowledge_owner_def json_media_def)


section \<open>A run that is done is left alone\<close>

text \<open>
  C15: a drive of a run that already has its accepted output writes nothing (not even the search
  projections), makes no provider call, and returns the stored output; without faults and with the
  run lock free it does return it.
\<close>

theorem done_run_is_left_alone:
  assumes "run_sound (tables w) run" and "run_is_done (tables w) run"
    and "drive dv validate persist run request w = (r, w')"
  shows "tables w' = tables w \<and> disk w' = disk w \<and> provider_calls w' = provider_calls w \<and>
    (\<forall>v. r = Inr v \<longrightarrow> accepted_of (tables w) run = Some v) \<and>
    (no_faults w \<and> run \<notin> set (held w) \<longrightarrow> (\<exists>v. r = Inr v))"
proof -
  obtain s v where s: "state_of (tables w) run = Some s" and done_s: "run_done s" and v: "accepted_of (tables w) run = Some v"
    using assms(1,2) by (auto simp: run_sound_def run_is_done_def run_ok_def split: option.splits)
  have snap: "snapshot run w1 = (if next_fault w1 = Works then (Inr (view_snapshot s (attempts_of (tables w) run)), tick w1)
      else (Inl (DrivePersistence Query), tick w1))" if "tables w1 = tables w" for w1
    using that s by (cases "next_fault w1")
      (simp_all add: snapshot_def durably_def exec_bind_def exec_map_err_def query_def sql_def exec_return_def)
  have out: "accepted_output run w1 = (if next_fault w1 = Works then (Inr v, tick w1)
      else (Inl (DrivePersistence Query), tick w1))" if "tables w1 = tables w" for w1
    using that v by (cases "next_fault w1")
      (simp_all add: accepted_output_def durably_def exec_bind_def exec_map_err_def query_def sql_def exec_return_def)
  have locked: "drive_locked dv validate persist run request w1 =
      (if next_fault w1 = Works
       then if next_fault (tick w1) = Works then (Inr v, tick (tick w1)) else (Inl (DrivePersistence Query), tick (tick w1))
       else (Inl (DrivePersistence Query), tick w1))" if "tables w1 = tables w" for w1
    using that done_s by (auto simp: drive_locked_def exec_bind_def snap out view_snapshot_def run_done_def)
  show ?thesis
    using assms(3) v
    by (auto simp: drive_def durably_def exec_map_err_def run_lock_acquire_def run_lock_release_def locked
        no_faults_def next_fault_def split: if_splits)
qed

definition done_world :: world where
  "done_world = sample_world\<lparr>tables := (set_run_state (\<lambda>_. True) Persisted (insert_attempt
     (sample_attempt\<lparr>at_outcome := AttemptAccepted\<rparr>) sample_db))\<lparr>analysis_outputs :=
       [\<lparr>ao_id = 9, ao_run = 7, ao_result = sample_answer, ao_raw = the (at_raw sample_attempt), ao_accepted = True,
         ao_created = 0\<rparr>]\<rparr>\<rparr>"

lemma done_view: "attempts_of (tables done_world) 7 = [sample_attempt\<lparr>at_outcome := AttemptAccepted\<rparr>]"
  "state_of (tables done_world) 7 = Some Persisted" "accepted_of (tables done_world) 7 = Some sample_answer"
  "runs_wf (tables done_world)"
  by (simp_all add: done_world_def sample_db_def empty_db_def set_run_state_def insert_attempt_def
      attempts_of_def select_where_def sample_attempt_def state_of_def find_where_def update_where_def
      accepted_of_def runs_wf_def key_unique_def)

lemma done_sound: "run_sound (tables done_world) 7" "run_is_done (tables done_world) 7"
  by (simp_all add: run_sound_def run_is_done_def done_view run_ok_def history_ok_def newest_outcome_def
      sample_attempt_def spent_calls_def count_where_def max_run_attempts_def run_done_def)

theorem done_run_is_left_alone_witness:
  "\<forall>dv validate persist request. \<exists>v w'. drive dv validate persist 7 request done_world = (Inr v, w') \<and>
     accepted_of (tables done_world) 7 = Some v"
proof (intro allI)
  fix dv :: driver and validate persist request
  obtain r w' where e: "drive dv validate persist 7 request done_world = (r, w')" by fastforce
  have "no_faults done_world" "held done_world = []" by (simp_all add: done_world_def sample_run)
  then show "\<exists>v w'. drive dv validate persist 7 request done_world = (Inr v, w') \<and>
      accepted_of (tables done_world) 7 = Some v"
    using done_run_is_left_alone [OF done_sound e] e by auto
qed

section \<open>An article is answered when nothing stands in the way\<close>

definition article_fit :: "prompt_texts \<Rightarrow> prepared_context \<Rightarrow> generation_request \<Rightarrow> bool" where
  "article_fit texts pc request =
     (prompt_version request = prompt_version (build_generation_request texts pc) \<and>
      source_content request = source_content (build_generation_request texts pc))"

lemma extract_answer_fit:
  "article_fit texts pc request \<Longrightarrow>
     extract_answer encode dec request = extract_answer encode dec (build_generation_request texts pc)"
  by (auto simp: extract_answer_def article_fit_def split: option.splits)

lemma validate_article_object: "validate_article parse pc content = Inr v \<Longrightarrow> json_is_object v"
  by (auto simp: validate_article_def article_json_def split: option.splits sum.splits)

lemma driving_calm:
  assumes answer: "extract_answer encode dec (build_generation_request texts pc) = Inr response"
    and good: "good_response store (validate_article parse pc) response"
  shows "driving (article_driver store offline_identity (offline_provider encode dec)) (validate_article parse pc)
     (article_persist store run document) run True (article_fit texts pc)"
proof
  show "\<exists>r. reply = Responded r \<and> good_response (dv_store (article_driver store offline_identity
      (offline_provider encode dec))) (validate_article parse pc) r"
    if "True" "article_fit texts pc request" "dv_generate (article_driver store offline_identity
      (offline_provider encode dec)) request w = ((ms, reply), w')" for request w ms reply w'
    using that answer good extract_answer_fit [OF that(2), of encode dec]
    by (auto simp: article_driver_def offline_provider_def reply_of_def)
  show "attempt_input_ok (attempt_input_of (article_driver store offline_identity (offline_provider encode dec)) reason)"
    for reason
    by (simp add: attempt_input_ok_def attempt_input_of_def article_driver_def offline_identity_def
        validate_version_def validate_model_def is_lower_def is_digit_def)
  show "triple True run k (at_state SchemaValidated k (\<lambda>as out c. \<exists>n. answered n raw AttemptAccepted as c \<and>
          (True \<longrightarrow> is_digest_hex (br_digest raw))))
      (article_persist store run document v raw) (\<lambda>_. at_state Persisted k (\<lambda>as out c. out = Some v))"
    if v: "validate_article parse pc content = Inr v" for content k v raw
    unfolding article_persist_def
  proof (rule hoare_persist)
    show "no_calls (durably (record_projections (article_projection document oid s)))"
      "no_files (durably (record_projections (article_projection document oid s)))" for oid s
      unfolding durably_def by (intro unchanged_rules database_free_parts)+
  qed (use article_persist_works validate_article_object [OF v] in
      \<open>auto dest!: record_projections_result simp: durably_Inr\<close>)
qed (auto simp: article_driver_def offline_provider_def same_runs_def article_fit_def push_repair_def)

text \<open>
  C13: with the offline provider, without faults and with the run lock free, the execution of a run
  that can still finish returns an analysis of the document, and that analysis is stored. The
  document must have an included non-blank paragraph, the answer must fit the blob store, and the
  digest function must give digests.
\<close>

theorem offline_article_finishes:
  assumes "prepare_context enc document budget = Inr pc" and "one_line enc" and "\<And>t. dec (enc t) = Some t"
    and "find_map (\<lambda>i. own_paragraph (doc_blocks document ! i) i) (pc_included pc) = Some (i, t)"
    and "parse (encode (extracted_article i t)) = Some (extracted_article i t)"
    and "length (encode (extracted_article i t)) \<le> bs_max_bytes store"
    and "\<And>content. is_digest_hex (bs_sha store content)"
    and "length (pc_source pc) < 2 ^ 64"
    and "run_sound (tables w) run" and "no_faults w" and "run \<notin> set (held w)"
    and "can_finish (article_driver store offline_identity (offline_provider encode dec)) (validate_article parse pc) w run"
  shows "\<exists>v w'. drive (article_driver store offline_identity (offline_provider encode dec)) (validate_article parse pc)
      (article_persist store run document) run (build_generation_request texts pc) w = (Inr v, w') \<and>
    run_is_done (tables w') run \<and> accepted_of (tables w') run = Some v"
proof -
  obtain r article where it: "i \<in> set (pc_included pc)" "doc_blocks document ! i = Paragraph t"
    and r: "extract_answer encode dec (build_generation_request texts pc) = Inr r"
      "resp_bytes r = encode (extracted_article i t)"
      "validate_article_json (extracted_article i t) = Inr article" "validate_article_citations article pc = Inr ()"
    using extract_answer_paragraph [OF assms(1-4)] by blast
  have usage: "unat (input_tokens (resp_usage r)) < 2 ^ 63 \<and> unat (output_tokens (resp_usage r)) < 2 ^ 63"
    using r(1) assms(8) extract_answer_usage [of encode dec "build_generation_request texts pc" r]
    by (simp add: build_generation_request_def unat_of_nat)
  have good: "good_response store (validate_article parse pc) r"
    using assms(5-7) r usage by (simp add: good_response_def validate_article_def checked_article_def)
  have "driving (article_driver store offline_identity (offline_provider encode dec)) (validate_article parse pc)
      (article_persist store run document) run True (article_fit texts pc)"
    by (rule driving_calm [OF r(1) good])
  moreover have "article_fit texts pc (build_generation_request texts pc)" by (simp add: article_fit_def)
  ultimately show ?thesis using drive_finishes assms(9-12) by blast
qed

definition sample_text :: string where
  "sample_text = ''x'' @ [newline] @ ''block 9 paragraph: y''"

theorem offline_article_finishes_witness:
  "\<exists>v w'. drive (article_driver sample_store offline_identity (offline_provider (\<lambda>_. []) (\<lambda>s. Some (unescape s))))
      (validate_article (\<lambda>_. Some (extracted_article 1 sample_text)) sample_context)
      (article_persist sample_store 7 sample_document) 7
      (build_generation_request \<lparr>pt_system = [], pt_task = [], pt_schema = JNull\<rparr> sample_context) sample_world =
    (Inr v, w') \<and> accepted_of (tables w') 7 = Some v"
proof -
  have find: "find_map (\<lambda>i. own_paragraph (doc_blocks sample_document ! i) i) (pc_included sample_context) =
      Some (1, sample_text)"
    by (simp add: sample_document_def sample_context_def own_paragraph_def trim_def is_whitespace_def sample_text_def)
  have view: "state_of (tables sample_world) 7 = Some Queued" "attempts_of (tables sample_world) 7 = []"
    by (simp_all add: sample_world_def sample_db_def empty_db_def state_of_def find_where_def attempts_of_def select_where_def)
  let ?texts = "\<lparr>pt_system = [], pt_task = [], pt_schema = JNull\<rparr>"
  have "can_finish dv validate sample_world 7" for dv validate
    by (simp add: can_finish_def view live_def resumable_def newest_outcome_def spent_calls_def count_where_def
        max_run_attempts_def)
  moreover have "length (pc_source sample_context) < 2 ^ 64"
    by (simp add: sample_context_def sample_source_def sample_document_def context_header_def encode_optional_def
        newline_def render_block_def decimal.simps decimal_digit_def rendered_blocks_def upt_rec)
  moreover have "bs_sha sample_store content = sample_digest" "bs_max_bytes sample_store = 1000" for content
    by (simp_all add: sample_store_def)
  ultimately show ?thesis
    using offline_article_finishes [OF prepare_sample one_line_escape _ find,
        of "\<lambda>s. Some (unescape s)" "\<lambda>_. Some (extracted_article 1 sample_text)" "\<lambda>_. []" sample_store sample_world 7
          ?texts] sample_run
    by (simp only: unescape_escape sample_digest_hex) auto
qed

section \<open>Only the head of a source is searchable\<close>

definition head_only :: "db \<Rightarrow> source_ref_row \<Rightarrow> bool" where
  "head_only t p = (\<forall>d \<in> set (search_documents t). \<forall>r \<in> set (source_refs t).
     sr_id r = sd_source d \<and> same_document p r \<longrightarrow>
       (\<forall>h \<in> set (source_analysis_heads t). head_for p h \<longrightarrow> sr_digest r = hd_digest h) \<and>
       (sr_owner p = notes_owner \<longrightarrow> sr_id r = sr_id p))"

lemma retire_head_only:
  assumes "p \<in> set (source_refs t)" and "sr_id p = persisted"
  shows "head_only (retire persisted t) p"
  using assms by (fastforce simp: head_only_def retire_def superseded_def superseded_by_head_def
      superseded_note_def table_simps)

lemma family_body_tables:
  assumes "persist_body store run result raw (project_family parse_uuid texts) w = (Inr (), w')"
  shows "\<exists>r s i d document. ao_run r = run \<and> ao_result r = result \<and> ao_accepted r \<and> ao_raw r = raw \<and>
    source_of_run run (stored_tables r (tables w)) = Some s \<and> parse_uuid (sr_document s) = Some document \<and>
    sd_source d = sr_id s \<and> search_content d = projection_content (family_projection document texts (ao_id r) s) \<and>
    tables w' = retire (sr_id s) (projected_tables i d (stored_tables r (tables w)))"
proof -
  obtain r s w0 where r: "ao_run r = run" "ao_result r = result" "ao_accepted r" "ao_raw r = raw"
    "source_of_run run (stored_tables r (tables w)) = Some s"
    and w0: "tables w0 = stored_tables r (tables w)" "project_family parse_uuid texts (ao_id r) s w0 = (Inr (), w')"
    using persist_body_result [OF assms] by auto
  obtain document w2 n where doc: "parse_uuid (sr_document s) = Some document"
    and 2: "record_projections (family_projection document texts (ao_id r) s) w0 = (Inr (), w2)"
    and 3: "retire_superseded_projections (sr_id s) w2 = (Inr n, w')"
    using w0(2) by (auto simp: project_family_def durably_Inr exec_return_def exec_fail_def
        elim!: exec_bind_InrE split: option.splits)
  obtain i d where "tables w2 = projected_tables i d (tables w0)" "sd_source d = sr_id s"
    "search_content d = projection_content (family_projection document texts (ao_id r) s)"
    using record_projections_result [OF 2] by (auto simp: family_projection_def)
  then show ?thesis
    using retire_result [OF 3] r doc w0(1)
    by (intro exI [of _ r] exI [of _ s] exI [of _ i] exI [of _ d] exI [of _ document]) simp
qed

lemma family_persist_tables:
  assumes "family_persist parse_uuid store run texts result raw w = (Inr (), w')"
  shows "\<exists>r s i d document. ao_run r = run \<and> ao_result r = result \<and> ao_accepted r \<and> ao_raw r = raw \<and>
    source_of_run run (stored_tables r (tables w)) = Some s \<and> parse_uuid (sr_document s) = Some document \<and>
    sd_source d = sr_id s \<and> search_content d = projection_content (family_projection document texts (ao_id r) s) \<and>
    tables w' = retire (sr_id s) (projected_tables i d (stored_tables r (tables w)))"
proof -
  have calls: "no_calls (persist_body store run result raw (project_family parse_uuid texts))"
    unfolding persist_body_def store_output_def durably_def fetch_source_of_run_def project_family_def
    by (intro unchanged_rules database_free_parts)
  obtain w1 where body: "persist_body store run result raw (project_family parse_uuid texts) (tick w) = (Inr (), w1)"
    and t: "tables w' = tables w1"
    using transact_result [OF assms [unfolded family_persist_def] calls] by auto
  show ?thesis using family_body_tables [OF body] unfolding t by simp
qed

text \<open>
  C17: after a family persistence, every search document of a revision of the persisted source has
  the content digest of the source's head, and for a note the revision just persisted is the only
  one that is searchable.
\<close>

theorem family_persist_head_only:
  assumes "family_persist parse_uuid store run texts result raw w = (Inr (), w')"
  shows "\<exists>p \<in> set (source_refs (tables w')). source_of_run run (tables w') = Some p \<and> head_only (tables w') p"
proof -
  obtain r s i d where s: "source_of_run run (stored_tables r (tables w)) = Some s"
    and t: "tables w' = retire (sr_id s) (projected_tables i d (stored_tables r (tables w)))"
    using family_persist_tables [OF assms] by blast
  have "s \<in> set (source_refs (stored_tables r (tables w)))"
    using s by (auto simp: source_of_run_def dest!: find_where_SomeD split: bind_splits)
  moreover have "source_refs (tables w') = source_refs (stored_tables r (tables w))"
    "analysis_runs (tables w') = analysis_runs (stored_tables r (tables w))"
    unfolding t by (simp_all add: retire_def projected_tables_def)
  ultimately show ?thesis
    using s retire_head_only [of s "projected_tables i d (stored_tables r (tables w))" "sr_id s"]
    by (intro bexI [of _ s]) (simp_all add: t source_of_run_def projected_tables_def)
qed

text \<open>A conversation whose head moved from revision 1 to revision 2, with run 7 of revision 2.\<close>

definition moved_head_world :: world where
  "moved_head_world = sample_world\<lparr>
     tables := empty_db\<lparr>
       source_refs := map (\<lambda>(n, digest). \<lparr>sr_id = n, sr_tenant = ''user:1'', sr_owner = knowledge_owner,
         sr_archive = [], sr_document = ''d'', sr_digest = digest,
         sr_blob = \<lparr>br_owner = knowledge_owner, br_digest = sample_digest, br_media = json_media, br_length = 1\<rparr>,
         sr_created = 0\<rparr>) [(1, ''old''), (2, ''new'')],
       analysis_runs := [\<lparr>ar_id = 7, ar_source = 2, ar_contract = ''c'', ar_prompt = ''p'', ar_context = ''x'',
         ar_policy = ''m'', ar_state = SchemaValidated, ar_created = 0, ar_updated = 0\<rparr>],
       source_analysis_heads := [\<lparr>hd_family = ''archive'', hd_tenant = ''user:1'', hd_source = ''d'',
         hd_digest = ''new'', hd_observed = 1, hd_event = 5\<rparr>],
       search_documents := [\<lparr>sd_id = 3, sd_source = 1, sd_output = 4, sd_tenant = ''user:1'',
         sd_owner = knowledge_owner, sd_document = 1, sd_title = ''t'', sd_lead = [], sd_body = [], sd_updated = 0\<rparr>]\<rparr>,
     disk := (\<lambda>_. None)(sample_digest := Some [])\<rparr>"

definition sample_fields :: search_text where
  "sample_fields = \<lparr>st_title = ''u'', st_lead = [], st_body = []\<rparr>"

definition moved_head_result :: "(drive_failure + unit) \<times> world" where
  "moved_head_result = family_persist (\<lambda>_. Some 1) sample_store 7 sample_fields (JObj [])
     \<lparr>br_owner = knowledge_owner, br_digest = sample_digest, br_media = json_media, br_length = 0\<rparr> moved_head_world"

lemma moved_head_persists: "fst moved_head_result = Inr ()"
  by (simp add: moved_head_result_def family_persist_def transact_def persist_body_def exec_bind_def durably_def
      exec_map_err_def lock_and_verify_def query_works blob_exists_def blob_path_exists_def file_read_def
      exec_return_def store_output_def new_uuid_def get_now_def sql_works affect_works exec_guard_apply
      insert_output_def output_row_of_def fetch_source_of_run_def source_of_run_def project_family_def
      record_projections_def record_search_projection_input_def write_projection_input_def projection_row_of_def
      record_search_document_def write_search_document_def search_row_of_def
      retire_superseded_projections_def delete_inputs_def delete_documents_def
      family_projection_def sample_fields_def bounded_text_def utf8_len_def search_text_max_bytes_def
      moved_head_world_def sample_world_def empty_db_def no_faults_def next_fault_def tick_def set_run_state_def
      exists_where_def find_where_def count_where_def update_where_def run_in_def upsert_affected_def Let_def)

theorem family_persist_head_only_witness:
  "\<exists>p \<in> set (source_refs (tables (snd moved_head_result))).
     source_of_run 7 (tables (snd moved_head_result)) = Some p \<and> head_only (tables (snd moved_head_result)) p"
proof -
  have "moved_head_result = (Inr (), snd moved_head_result)"
    using moved_head_persists by (metis prod.collapse)
  then show ?thesis using family_persist_head_only unfolding moved_head_result_def by blast
qed

section \<open>An accepted article is a valid article\<close>

definition key_point_ok :: "key_point \<Rightarrow> bool" where
  "key_point_ok p = (1 \<le> length (kp_text p) \<and> length (kp_text p) \<le> 500 \<and> 1 \<le> length (kp_indexes p) \<and>
     length (kp_indexes p) \<le> 8 \<and> list_all (\<lambda>i. i < 2 ^ 32) (kp_indexes p))"

definition article_ok :: "article_analysis \<Rightarrow> bool" where
  "article_ok a = (1 \<le> length (aa_summary a) \<and> length (aa_summary a) \<le> 2000 \<and> 1 \<le> length (aa_key_points a) \<and>
     length (aa_key_points a) \<le> 10 \<and> list_all key_point_ok (aa_key_points a))"

lemma decode_all_Some: "decode_all f xs = Some ys \<longleftrightarrow> map f xs = map Some ys"
proof (induction xs arbitrary: ys)
  case (Cons x xs)
  show ?case
  proof (cases ys)
    case (Cons y ys')
    then show ?thesis using Cons.IH [of ys'] by (cases "decode_all f xs"; cases "f x") auto
  qed (auto split: option.splits)
qed auto

lemma decode_all_list:
  assumes "decode_all f xs = Some ys" and "\<And>x y. x \<in> set xs \<Longrightarrow> f x = Some y \<Longrightarrow> ok y"
  shows "length ys = length xs \<and> list_all ok ys"
proof -
  have m: "map f xs = map Some ys" using assms(1) by (simp add: decode_all_Some)
  have "ok y" if "y \<in> set ys" for y
  proof -
    have "Some y \<in> f ` set xs" using that m by (metis image_eqI list.set_map)
    then show ?thesis using assms(2) by auto
  qed
  then show ?thesis using m by (metis length_map list_all_iff)
qed

lemma decode_index_less: "decode_index j = Some i \<Longrightarrow> i < 2 ^ 32"
  by (cases j) (auto split: if_splits)

lemma exact_object_get:
  "exact_object spec j \<Longrightarrow> (k, ok) \<in> set spec \<Longrightarrow> \<exists>v. json_get j k = Some v \<and> ok v"
  by (cases j) (fastforce simp: exact_object_def list_all_iff split: option.splits)+

lemma decode_key_point_ok:
  assumes "key_point_schema j" and "decode_key_point j = Some p"
  shows "key_point_ok p"
proof -
  obtain v where v: "json_get j ''text'' = Some v" "string_between 1 500 v"
    using exact_object_get [OF assms(1) [unfolded key_point_schema_def], of "''text''"] by auto
  obtain u where u: "json_get j ''source_block_indexes'' = Some u" "array_between 1 8 nonneg_integer u"
    using exact_object_get [OF assms(1) [unfolded key_point_schema_def], of "''source_block_indexes''"] by auto
  obtain s where s: "v = JStr s" using v(2) by (cases v) auto
  obtain xs where xs: "u = JArr xs" using u(2) by (cases u) auto
  obtain "is" where i: "decode_all decode_index xs = Some is" and p: "p = \<lparr>kp_text = s, kp_indexes = is\<rparr>"
    using assms(2) v(1) u(1) s xs by (auto simp: decode_key_point_def split: option.splits)
  have "length is = length xs \<and> list_all (\<lambda>i. i < 2 ^ 32) is"
    by (rule decode_all_list [OF i]) (rule decode_index_less)
  then show ?thesis using v(2) u(2) s xs p by (auto simp: key_point_ok_def)
qed

lemma validated_article_ok:
  assumes "validate_article_json j = Inr a"
  shows "article_ok a"
proof -
  have schema: "article_schema j" and decode: "decode_article j = Some a"
    using assms by (auto simp: validate_article_json_def split: if_splits option.splits)
  obtain v where v: "json_get j ''summary'' = Some v" "string_between 1 2000 v"
    using exact_object_get [OF schema [unfolded article_schema_def], of "''summary''"] by auto
  obtain u where u: "json_get j ''key_points'' = Some u" "array_between 1 10 key_point_schema u"
    using exact_object_get [OF schema [unfolded article_schema_def], of "''key_points''"] by auto
  obtain s where s: "v = JStr s" using v(2) by (cases v) auto
  obtain xs where xs: "u = JArr xs" using u(2) by (cases u) auto
  obtain ks where ks: "decode_all decode_key_point xs = Some ks" and a: "a = \<lparr>aa_summary = s, aa_key_points = ks\<rparr>"
    using decode v(1) u(1) s xs by (auto simp: decode_article_def split: option.splits)
  have "length ks = length xs \<and> list_all key_point_ok ks"
    by (rule decode_all_list [OF ks]) (use u(2) xs decode_key_point_ok in \<open>auto simp: list_all_iff\<close>)
  then show ?thesis using v(2) u(2) s xs a by (auto simp: article_ok_def)
qed

lemma validate_article_json_article:
  assumes "article_ok a"
  shows "validate_article_json (article_json a) = Inr a"
proof -
  let ?point = "\<lambda>p. JObj [(''text'', JStr (kp_text p)), (''source_block_indexes'', JArr (map (\<lambda>i. JNum (int i)) (kp_indexes p)))]"
  have point: "key_point_schema (?point p) \<and> decode_key_point (?point p) = Some p" if "key_point_ok p" for p
  proof -
    have "decode_all decode_index (map (\<lambda>i. JNum (int i)) (kp_indexes p)) = Some (kp_indexes p)"
      using that by (auto simp: decode_all_Some key_point_ok_def list_all_iff)
    then show ?thesis using that
      by (simp add: key_point_schema_def exact_object_def decode_key_point_def key_point_ok_def list_all_iff)
  qed
  have "decode_all decode_key_point (map ?point (aa_key_points a)) = Some (aa_key_points a)"
    using assms point by (auto simp: decode_all_Some article_ok_def list_all_iff)
  then show ?thesis using assms point
    by (simp add: validate_article_json_def article_schema_def exact_object_def article_json_def decode_article_def
        article_ok_def list_all_iff)
qed

text \<open>
  C19: what the article validator accepts and the pipeline stores is the canonical JSON of an article
  within the schema's bounds, whose citations are distinct blocks of the prepared context; it is
  read back to the same article, and validating it again accepts it as it is.
\<close>

theorem accepted_article_roundtrip:
  assumes "validate_article parse pc content = Inr v"
  shows "\<exists>a. v = article_json a \<and> article_ok a \<and> decode_article v = Some a \<and> checked_article pc v = Inr a \<and>
    (\<forall>p \<in> set (aa_key_points a). distinct (kp_indexes p) \<and> set (kp_indexes p) \<subseteq> set (pc_included pc))"
proof -
  obtain j a where a: "validate_article_json j = Inr a" "validate_article_citations a pc = Inr ()" "v = article_json a"
    using assms by (auto simp: validate_article_def checked_article_def split: option.splits sum.splits)
  have ok: "article_ok a" by (rule validated_article_ok [OF a(1)])
  have "validate_article_json v = Inr a" using validate_article_json_article [OF ok] a(3) by simp
  moreover from this have "decode_article v = Some a"
    by (auto simp: validate_article_json_def split: if_splits option.splits)
  moreover have "\<forall>p \<in> set (aa_key_points a). distinct (kp_indexes p) \<and> set (kp_indexes p) \<subseteq> set (pc_included pc)"
    using a(2) by (simp add: validate_article_citations_def validate_points_ok)
  ultimately show ?thesis using a(2,3) ok by (simp add: checked_article_def)
qed

theorem accepted_article_roundtrip_witness:
  "\<exists>a v. validate_article (\<lambda>_. Some sample_answer) sample_context [] = Inr v \<and> decode_article v = Some a"
  using accepted_article_roundtrip [OF sample_validates] sample_validates by blast

end
