(* ===== verification/Budget.thy ===== *)
theory Budget
  imports Pipeline
begin

text \<open>
  Spend control of the real provider: price estimation and the usage ledger (\<open>budget.rs\<close>), the
  spacing of calls (\<open>rate_limit.rs\<close>) and the wrapper that orders admission, budget check, call and
  recording (\<open>controlled.rs\<close>).
\<close>

section \<open>Prices\<close>

record token_prices =
  tp_input :: "64 word"
  tp_output :: "64 word"

record budget_limits =
  bl_daily_tokens :: "64 word"
  bl_monthly_tokens :: "64 word"
  bl_daily_cost :: "64 word"
  bl_monthly_cost :: "64 word"

datatype budget_error = LedgerExhausted | LedgerQuery | LedgerOverflow

definition estimate_cost_micro_usd :: "token_prices \<Rightarrow> 64 word \<Rightarrow> 64 word \<Rightarrow> 64 word option" where
  "estimate_cost_micro_usd prices input_count output_count =
     (let total = sat_add (sat_mul (ucast input_count :: 128 word) (ucast (tp_input prices)))
                          (sat_mul (ucast output_count) (ucast (tp_output prices)));
          cost = word_div_ceil total 1000000
      in if unat cost < 2 ^ 64 then Some (ucast cost) else None)"

section \<open>The ledger\<close>

text \<open>The check constraints of \<open>provider_usage\<close>.\<close>

definition usage_row_ok :: "string \<Rightarrow> string \<Rightarrow> bool" where
  "usage_row_ok provider model =
     (provider \<noteq> [] \<and> is_lower (hd provider) \<and> length provider \<le> 64 \<and>
      list_all (\<lambda>c. is_lower c \<or> is_digit c \<or> c = CHR ''_'' \<or> c = CHR ''-'') (tl provider) \<and>
      1 \<le> length model \<and> length model \<le> 128)"

definition ledger_i64 :: "64 word \<Rightarrow> budget_error + nat" where
  "ledger_i64 n = (if unat n < 2 ^ 63 then Inr (unat n) else Inl LedgerOverflow)"

definition insert_usage :: "usage_row \<Rightarrow> db \<Rightarrow> budget_error + (unit \<times> db)" where
  "insert_usage r t =
     (if usage_row_ok (pu_provider r) (pu_model r)
      then Inr ((), t\<lparr>provider_usage_rows := provider_usage_rows t @ [r]\<rparr>) else Inl LedgerQuery)"

definition record_usage ::
  "string \<Rightarrow> string \<Rightarrow> provider_usage \<Rightarrow> 64 word \<Rightarrow> (world, budget_error, unit) exec" where
  "record_usage provider model usage cost =
     exec_bind (exec_result (ledger_i64 (input_tokens usage))) (\<lambda>input_count.
     exec_bind (exec_result (ledger_i64 (output_tokens usage))) (\<lambda>output_count.
     exec_bind (exec_result (ledger_i64 cost)) (\<lambda>cost.
     exec_bind new_uuid (\<lambda>ident.
     exec_bind get_now (\<lambda>at.
     sql LedgerQuery (insert_usage
       \<lparr>pu_id = ident, pu_provider = provider, pu_model = model, pu_input = input_count,
        pu_output = output_count, pu_cost = cost, pu_recorded = at\<rparr>))))))"

text \<open>
  The recorded tokens and cost of a provider since an instant. The sums are exact; a row whose two
  counts, or a total that, does not fit a \<open>bigint\<close> makes the query fail.
\<close>

definition usage_since :: "string \<Rightarrow> instant \<Rightarrow> db \<Rightarrow> usage_row list" where
  "usage_since provider from t =
     select_where (\<lambda>r. pu_provider r = provider \<and> pu_recorded r \<ge> from) (provider_usage_rows t)"

definition tokens_of :: "usage_row list \<Rightarrow> nat" where
  "tokens_of rs = sum_list (map (\<lambda>r. pu_input r + pu_output r) rs)"

definition cost_of :: "usage_row list \<Rightarrow> nat" where
  "cost_of rs = sum_list (map pu_cost rs)"

definition totals_query :: "string \<Rightarrow> instant \<Rightarrow> db \<Rightarrow> budget_error + ((64 word \<times> 64 word) \<times> db)" where
  "totals_query provider from t =
     (let rs = usage_since provider from t in
      if list_all (\<lambda>r. pu_input r + pu_output r < 2 ^ 63) rs \<and> tokens_of rs < 2 ^ 63 \<and> cost_of rs < 2 ^ 63
      then Inr ((of_nat (tokens_of rs), of_nat (cost_of rs)), t) else Inl LedgerQuery)"

text \<open>\<open>date_trunc('day', _)\<close> and \<open>date_trunc('month', _)\<close> of the database.\<close>

record windows =
  day_start :: "instant \<Rightarrow> instant"
  month_start :: "instant \<Rightarrow> instant"

datatype budget_window = Daily | Monthly

definition window_totals :: "windows \<Rightarrow> string \<Rightarrow> budget_window \<Rightarrow> (world, budget_error, 64 word \<times> 64 word) exec" where
  "window_totals ws provider window =
     exec_bind get_now (\<lambda>at.
     sql LedgerQuery (totals_query provider (case window of Daily \<Rightarrow> day_start ws at | Monthly \<Rightarrow> month_start ws at)))"

definition ensure_within_budget ::
  "windows \<Rightarrow> string \<Rightarrow> 64 word \<Rightarrow> 64 word \<Rightarrow> token_prices \<Rightarrow> budget_limits \<Rightarrow> (world, budget_error, unit) exec" where
  "ensure_within_budget ws provider projected_input projected_output prices limits =
     (case estimate_cost_micro_usd prices projected_input projected_output of
        None \<Rightarrow> exec_fail LedgerOverflow
      | Some projected_cost \<Rightarrow>
          (let projected = sat_add projected_input projected_output in
           exec_bind (window_totals ws provider Daily) (\<lambda>day.
           exec_bind (window_totals ws provider Monthly) (\<lambda>month.
           exec_guard (\<not> (sat_add (fst month) projected > bl_monthly_tokens limits \<or>
                           sat_add (fst day) projected > bl_daily_tokens limits \<or>
                           sat_add (snd month) projected_cost > bl_monthly_cost limits \<or>
                           sat_add (snd day) projected_cost > bl_daily_cost limits)) LedgerExhausted))))"

section \<open>The wrapper\<close>

record spend_controls =
  sc_limits :: budget_limits
  sc_prices :: token_prices
  sc_max_output :: "32 word"

definition projected_input_tokens :: "generation_request \<Rightarrow> 64 word" where
  "projected_input_tokens request =
     word_div_ceil (sat_add (sat_add (of_nat (length (system_policy request)))
        (of_nat (length (task_instruction request)))) (of_nat (length (source_content request)))) 4"

fun budget_failure :: "budget_error \<Rightarrow> provider_failure" where
  "budget_failure LedgerExhausted =
     \<lparr>pf_error = BudgetExhausted, pf_class = ClassBudgetExhausted, pf_http_status = None\<rparr>"
| "budget_failure LedgerQuery = \<lparr>pf_error = Transient, pf_class = ClassUnclassified, pf_http_status = None\<rparr>"
| "budget_failure LedgerOverflow = \<lparr>pf_error = Permanent, pf_class = ClassUnclassified, pf_http_status = None\<rparr>"

text \<open>
  \<open>ControlledProvider::generate_json\<close> after its admission: the budget check, the inner call, and the
  recording of an answer's usage, whose failure does not discard the answer.
\<close>

definition record_answer ::
  "provider_identity \<Rightarrow> token_prices \<Rightarrow> provider_reply \<Rightarrow> world \<Rightarrow> world" where
  "record_answer ident prices reply w =
     (case reply of
        Responded response \<Rightarrow>
          (case estimate_cost_micro_usd prices (input_tokens (resp_usage response)) (output_tokens (resp_usage response)) of
             None \<Rightarrow> w
           | Some cost \<Rightarrow> snd (record_usage (id_provider ident) (id_model ident) (resp_usage response) cost w))
      | _ \<Rightarrow> w)"

definition controlled_provider ::
  "windows \<Rightarrow> spend_controls \<Rightarrow> provider_identity \<Rightarrow>
   (generation_request \<Rightarrow> world \<Rightarrow> (nat \<times> provider_reply) \<times> world) \<Rightarrow>
   generation_request \<Rightarrow> world \<Rightarrow> (nat \<times> provider_reply) \<times> world" where
  "controlled_provider ws controls ident inner request w =
     (case ensure_within_budget ws (id_provider ident) (projected_input_tokens request)
             (ucast (sc_max_output controls)) (sc_prices controls) (sc_limits controls) w of
        (Inl e, w') \<Rightarrow> ((0, FailedCall (budget_failure e)), w')
      | (Inr _, w') \<Rightarrow>
          (case inner request w' of ((duration, reply), w'') \<Rightarrow>
             ((duration, reply), record_answer ident (sc_prices controls) reply w'')))"

section \<open>Spacing\<close>

text \<open>
  \<open>RateLimiter::admit\<close> called at \<open>at\<close>: the reserved start of the call and the reservation left for the
  next one. \<open>max_instant\<close> is the last instant the clock can represent.
\<close>

definition admit :: "int \<Rightarrow> int \<Rightarrow> int \<Rightarrow> int option \<Rightarrow> int \<times> int option" where
  "admit max_instant interval at reserved =
     (let start = (case reserved of None \<Rightarrow> at | Some r \<Rightarrow> max r at) in
      (start, Some (if start + interval \<le> max_instant then start + interval else start)))"

fun admissions :: "int \<Rightarrow> int \<Rightarrow> int option \<Rightarrow> int list \<Rightarrow> int list" where
  "admissions max_instant interval reserved [] = []"
| "admissions max_instant interval reserved (at # ats) =
     (case admit max_instant interval at reserved of (start, next) \<Rightarrow>
        start # admissions max_instant interval next ats)"

section \<open>The price is exact\<close>

lemma unat_64: "unat (x :: 64 word) < 2 ^ 64"
proof -
  have "unat x < 2 ^ LENGTH(64)" by (rule unsigned_less)
  then show ?thesis by simp
qed

lemma unat_ucast_128 [simp]: "unat (ucast (x :: 64 word) :: 128 word) = unat x"
  using unat_64 [of x] by (simp add: unsigned_ucast_eq take_bit_nat_eq_self)

lemma nat_div_ceil_mono:
  assumes "a \<le> b"
  shows "nat_div_ceil a c \<le> nat_div_ceil b c"
proof (cases "0 < c")
  case True
  show ?thesis
  proof (rule ccontr)
    assume "\<not> nat_div_ceil a c \<le> nat_div_ceil b c"
    then have "(nat_div_ceil b c + 1) * c \<le> nat_div_ceil a c * c" by (intro mult_le_mono1) simp
    then have "nat_div_ceil b c * c < a" using nat_div_ceil_bounds(2) [OF True, of a] by simp
    then show False using nat_div_ceil_bounds(1) [OF True, of b] assms by simp
  qed
qed (use assms in \<open>simp add: nat_div_ceil_def\<close>)

definition exact_cost :: "token_prices \<Rightarrow> nat \<Rightarrow> nat \<Rightarrow> nat" where
  "exact_cost prices i k = nat_div_ceil (i * unat (tp_input prices) + k * unat (tp_output prices)) 1000000"

lemma exact_cost_mono: "i \<le> i' \<Longrightarrow> k \<le> k' \<Longrightarrow> exact_cost prices i k \<le> exact_cost prices i' k'"
  unfolding exact_cost_def by (intro nat_div_ceil_mono add_mono mult_le_mono1)

text \<open>
  The estimated cost is the exact quotient rounded up: no intermediate value wraps or saturates
  into a smaller cost, and \<open>None\<close> is returned exactly when the cost does not fit 64 bits.
\<close>

theorem estimate_cost_exact:
  "estimate_cost_micro_usd prices i k =
     (if exact_cost prices (unat i) (unat k) < 2 ^ 64
      then Some (of_nat (exact_cost prices (unat i) (unat k))) else None)"
proof -
  let ?p = "unat i * unat (tp_input prices)" and ?q = "unat k * unat (tp_output prices)"
  let ?total = "sat_add (sat_mul (ucast i :: 128 word) (ucast (tp_input prices))) (sat_mul (ucast k) (ucast (tp_output prices)))"
  have small: "unat a * unat b \<le> 2 ^ 128 - 1" for a b :: "64 word"
  proof -
    have "unat a \<le> 2 ^ 64 - 1" "unat b \<le> 2 ^ 64 - 1" using unat_64 [of a] unat_64 [of b] by simp_all
    then have "unat a * unat b \<le> (2 ^ 64 - 1) * (2 ^ 64 - 1)" by (rule mult_le_mono)
    then show ?thesis by simp
  qed
  have total: "unat ?total = min (?p + ?q) (2 ^ 128 - 1)"
    using small [of i "tp_input prices"] small [of k "tp_output prices"] by (simp add: unat_sat_add unat_sat_mul)
  have cost: "unat (word_div_ceil ?total 1000000) = nat_div_ceil (min (?p + ?q) (2 ^ 128 - 1)) 1000000"
    by (subst unat_word_div_ceil) (simp_all add: total)
  have big: "(2::nat) ^ 64 \<le> nat_div_ceil (2 ^ 128 - 1) 1000000" by (simp add: nat_div_ceil_def)
  have same: "nat_div_ceil (min (?p + ?q) (2 ^ 128 - 1)) 1000000 < 2 ^ 64 \<longleftrightarrow> exact_cost prices (unat i) (unat k) < 2 ^ 64"
    "nat_div_ceil (min (?p + ?q) (2 ^ 128 - 1)) 1000000 < 2 ^ 64 \<Longrightarrow>
       nat_div_ceil (min (?p + ?q) (2 ^ 128 - 1)) 1000000 = exact_cost prices (unat i) (unat k)"
    unfolding exact_cost_def
    using big nat_div_ceil_mono [of "2 ^ 128 - 1" "?p + ?q" 1000000] by (auto simp: min_def split: if_splits)
  have "ucast (word_div_ceil ?total 1000000) = (of_nat (nat_div_ceil (min (?p + ?q) (2 ^ 128 - 1)) 1000000) :: 64 word)"
    unfolding cost [symmetric] by simp
  then show ?thesis
    unfolding estimate_cost_micro_usd_def Let_def cost using same by simp
qed

section \<open>Calls are spaced\<close>

text \<open>
  However the callers arrive, the admitted starts are never before their callers and any two
  successive starts are at least one interval apart (while the clock can represent the next slot).
\<close>

theorem admissions_spaced:
  assumes "0 \<le> interval" and "\<forall>start \<in> set (admissions max_instant interval reserved ats). start + interval \<le> max_instant"
  shows "length (admissions max_instant interval reserved ats) = length ats \<and>
    list_all2 (\<lambda>at start. at \<le> start) ats (admissions max_instant interval reserved ats) \<and>
    sorted_wrt (\<lambda>a b. a + interval \<le> b) (admissions max_instant interval reserved ats)"
proof -
  have "length (admissions max_instant interval r ats) = length ats \<and>
      list_all2 (\<lambda>at start. at \<le> start) ats (admissions max_instant interval r ats) \<and>
      sorted_wrt (\<lambda>a b. a + interval \<le> b) (admissions max_instant interval r ats) \<and>
      (\<forall>start \<in> set (admissions max_instant interval r ats). \<forall>s. r = Some s \<longrightarrow> s \<le> start)"
    if "\<forall>start \<in> set (admissions max_instant interval r ats). start + interval \<le> max_instant" for r
    using that
  proof (induction ats arbitrary: r)
    case (Cons at ats)
    let ?start = "case r of None \<Rightarrow> at | Some s \<Rightarrow> max s at"
    have unfold: "admissions max_instant interval r (at # ats) =
        ?start # admissions max_instant interval (Some (?start + interval)) ats"
      using Cons.prems by (auto simp: admit_def Let_def split: if_splits)
    note ih = Cons.IH [of "Some (?start + interval)"]
    have "\<forall>start \<in> set (admissions max_instant interval (Some (?start + interval)) ats). start + interval \<le> max_instant"
      using Cons.prems unfolding unfold by simp
    then have rest: "sorted_wrt (\<lambda>a b. a + interval \<le> b) (admissions max_instant interval (Some (?start + interval)) ats)"
      "list_all2 (\<lambda>at start. at \<le> start) ats (admissions max_instant interval (Some (?start + interval)) ats)"
      "\<forall>start \<in> set (admissions max_instant interval (Some (?start + interval)) ats). ?start + interval \<le> start"
      using ih by auto
    have first: "at \<le> ?start" "\<forall>s. r = Some s \<longrightarrow> s \<le> ?start" by (auto split: option.split)
    have later: "s \<le> start" if "r = Some s"
      "start \<in> set (admissions max_instant interval (Some (?start + interval)) ats)" for s start
    proof -
      have "?start + interval \<le> start" using rest(3) that(2) by blast
      moreover have "s \<le> ?start" using first(2) that(1) by blast
      ultimately show ?thesis using assms(1) by linarith
    qed
    let ?rest = "admissions max_instant interval (Some (?start + interval)) ats"
    show ?case
    proof (intro conjI)
      show "length (admissions max_instant interval r (at # ats)) = length (at # ats)"
        unfolding unfold using list_all2_lengthD [OF rest(2)] by simp
      show "list_all2 (\<lambda>at start. at \<le> start) (at # ats) (admissions max_instant interval r (at # ats))"
        unfolding unfold list_all2_Cons using first(1) rest(2) by blast
      show "sorted_wrt (\<lambda>a b. a + interval \<le> b) (admissions max_instant interval r (at # ats))"
        unfolding unfold sorted_wrt.simps using rest(1,3) by blast
      show "\<forall>start \<in> set (admissions max_instant interval r (at # ats)). \<forall>s. r = Some s \<longrightarrow> s \<le> start"
        unfolding unfold list.set using first(2) later by blast
    qed
  qed simp
  then show ?thesis using assms(2) by blast
qed

theorem admissions_spaced_witness:
  "sorted_wrt (\<lambda>a b. a + 10 \<le> b) (admissions 1000 10 None [0, 1, 25])"
  using admissions_spaced [of 10 1000 None "[0, 1, 25]"] by (simp add: admit_def)

section \<open>The ceilings hold\<close>

text \<open>A total below a ceiling; the largest 64-bit ceiling is no ceiling.\<close>

definition below :: "nat \<Rightarrow> 64 word \<Rightarrow> bool" where
  "below n limit = (min n (2 ^ 64 - 1) \<le> unat limit)"

definition ledger_within :: "windows \<Rightarrow> budget_limits \<Rightarrow> string \<Rightarrow> instant \<Rightarrow> db \<Rightarrow> bool" where
  "ledger_within ws limits provider at t =
     (let day = usage_since provider (day_start ws at) t; month = usage_since provider (month_start ws at) t in
      below (tokens_of day) (bl_daily_tokens limits) \<and> below (cost_of day) (bl_daily_cost limits) \<and>
      below (tokens_of month) (bl_monthly_tokens limits) \<and> below (cost_of month) (bl_monthly_cost limits))"

lemma below_mono: "below n limit \<Longrightarrow> m \<le> n \<Longrightarrow> below m limit"
  by (auto simp: below_def min_def split: if_splits)

lemma below_sat_add:
  assumes "\<not> sat_add (of_nat n) p > limit" and "n < 2 ^ 63"
  shows "below (n + unat p) limit"
proof -
  have "unat (of_nat n :: 64 word) = n" using assms(2) by (simp add: unat_of_nat)
  then show ?thesis using assms(1) by (simp add: below_def not_less word_le_nat_alt unat_sat_add)
qed

lemma usage_since_later:
  "from \<le> from' \<Longrightarrow> usage_since p from' t = select_where (\<lambda>r. pu_recorded r \<ge> from') (usage_since p from t)"
  by (auto simp: usage_since_def select_where_def intro: filter_cong)

lemma sum_list_filter_le: "sum_list (map f (filter p xs)) \<le> (sum_list (map f xs) :: nat)"
  by (induction xs) auto

lemma totals_later:
  assumes "from \<le> from'"
  shows "tokens_of (usage_since p from' t) \<le> tokens_of (usage_since p from t)"
    and "cost_of (usage_since p from' t) \<le> cost_of (usage_since p from t)"
  unfolding usage_since_later [OF assms] tokens_of_def cost_of_def select_where_def
  by (rule sum_list_filter_le)+

lemma window_totals_result:
  assumes "window_totals ws provider window w = (Inr x, w')"
  shows "tables w' = tables w \<and> now w' = now w \<and>
    (let rs = usage_since provider (case window of Daily \<Rightarrow> day_start ws (now w) | Monthly \<Rightarrow> month_start ws (now w)) (tables w)
     in x = (of_nat (tokens_of rs), of_nat (cost_of rs)) \<and> tokens_of rs < 2 ^ 63 \<and> cost_of rs < 2 ^ 63)"
  using assms unfolding window_totals_def
  by (auto simp: exec_bind_def get_now_def totals_query_def Let_def dest!: sql_Inr split: if_splits)

text \<open>What an admitted call knows of the ledger.\<close>

lemma ensure_within_budget_result:
  assumes "ensure_within_budget ws provider i k prices limits w = (Inr u, w')"
  shows "tables w' = tables w \<and> now w' = now w \<and>
    (let day = usage_since provider (day_start ws (now w)) (tables w);
         month = usage_since provider (month_start ws (now w)) (tables w);
         tokens = min (unat i + unat k) (2 ^ 64 - 1); cost = exact_cost prices (unat i) (unat k)
     in below (tokens_of day + tokens) (bl_daily_tokens limits) \<and> below (cost_of day + cost) (bl_daily_cost limits) \<and>
        below (tokens_of month + tokens) (bl_monthly_tokens limits) \<and>
        below (cost_of month + cost) (bl_monthly_cost limits))"
proof -
  let ?c = "exact_cost prices (unat i) (unat k)"
  have c: "?c < 2 ^ 64" and est: "estimate_cost_micro_usd prices i k = Some (of_nat ?c)"
    using assms by (auto simp: ensure_within_budget_def estimate_cost_exact exec_fail_def split: if_splits)
  have uc: "unat (of_nat ?c :: 64 word) = ?c" using c by (simp add: unat_of_nat)
  have up: "unat (sat_add i k) = min (unat i + unat k) (2 ^ 64 - 1)" by (simp add: unat_sat_add)
  obtain day w1 month w2 where 1: "window_totals ws provider Daily w = (Inr day, w1)"
    and 2: "window_totals ws provider Monthly w1 = (Inr month, w2)" and w': "w' = w2"
    and le: "\<not> sat_add (fst month) (sat_add i k) > bl_monthly_tokens limits"
      "\<not> sat_add (fst day) (sat_add i k) > bl_daily_tokens limits"
      "\<not> sat_add (snd month) (of_nat ?c) > bl_monthly_cost limits"
      "\<not> sat_add (snd day) (of_nat ?c) > bl_daily_cost limits"
    using assms unfolding ensure_within_budget_def est
    by (auto simp: Let_def exec_guard_apply elim!: exec_bind_InrE split: if_splits)
  note r1 = window_totals_result [OF 1, unfolded Let_def] and r2 = window_totals_result [OF 2, unfolded Let_def]
  show ?thesis
    using r1 r2 w' le(1) le(2) le(3) le(4)
      below_sat_add [where p = "sat_add i k"] below_sat_add [where p = "of_nat ?c"]
    by (auto simp: Let_def up uc)
qed

text \<open>What recording an answer does to the ledger, whatever fails.\<close>

lemma record_usage_result:
  "\<exists>r. now (snd (record_usage provider model usage cost w)) = now w \<and>
     (tables (snd (record_usage provider model usage cost w)) = tables w \<or>
      tables (snd (record_usage provider model usage cost w)) =
        (tables w)\<lparr>provider_usage_rows := provider_usage_rows (tables w) @ [r]\<rparr>) \<and>
     pu_input r = unat (input_tokens usage) \<and> pu_output r = unat (output_tokens usage) \<and> pu_cost r = unat cost"
proof -
  let ?r = "\<lparr>pu_id = fresh w, pu_provider = provider, pu_model = model, pu_input = unat (input_tokens usage),
    pu_output = unat (output_tokens usage), pu_cost = unat cost, pu_recorded = now w\<rparr>"
  show ?thesis
    by (intro exI [of _ ?r])
      (auto simp: record_usage_def exec_bind_def exec_result_def ledger_i64_def new_uuid_def get_now_def sql_def
        insert_usage_def split: sum.splits if_splits)
qed

lemma usage_since_append:
  "usage_since p from (t\<lparr>provider_usage_rows := provider_usage_rows t @ [r]\<rparr>) =
     usage_since p from t @ (if pu_provider r = p \<and> pu_recorded r \<ge> from then [r] else [])"
  by (simp add: usage_since_def select_where_def)

lemma totals_append:
  "tokens_of (usage_since p from (t\<lparr>provider_usage_rows := provider_usage_rows t @ [r]\<rparr>)) \<le>
     tokens_of (usage_since p from t) + (pu_input r + pu_output r)"
  "cost_of (usage_since p from (t\<lparr>provider_usage_rows := provider_usage_rows t @ [r]\<rparr>)) \<le>
     cost_of (usage_since p from t) + pu_cost r"
  by (simp_all add: usage_since_append tokens_of_def cost_of_def)

definition answers_within :: "spend_controls \<Rightarrow> (generation_request \<Rightarrow> world \<Rightarrow> (nat \<times> provider_reply) \<times> world) \<Rightarrow> bool" where
  "answers_within controls inner = (\<forall>request w. case inner request w of ((ms, reply), w') \<Rightarrow>
     provider_usage_rows (tables w') = provider_usage_rows (tables w) \<and> now w \<le> now w' \<and>
     (case reply of Responded r \<Rightarrow>
        unat (input_tokens (resp_usage r)) \<le> unat (projected_input_tokens request) \<and>
        unat (output_tokens (resp_usage r)) \<le> unat (sc_max_output controls)
      | _ \<Rightarrow> True))"

lemma answers_withinD:
  assumes "answers_within controls inner" and "inner request w = ((ms, reply), w')"
  shows "provider_usage_rows (tables w') = provider_usage_rows (tables w) \<and> now w \<le> now w' \<and>
    (\<forall>r. reply = Responded r \<longrightarrow>
       unat (input_tokens (resp_usage r)) \<le> unat (projected_input_tokens request) \<and>
       unat (output_tokens (resp_usage r)) \<le> unat (sc_max_output controls))"
  using assms(1) [unfolded answers_within_def, THEN spec, of request, THEN spec, of w] assms(2) by auto

lemma below_projected:
  assumes "below (n + min p (2 ^ 64 - 1)) limit" and "m \<le> n" and "q \<le> p"
  shows "below (m + q) limit"
proof -
  have "min (m + q) (2 ^ 64 - 1) \<le> min (n + min p (2 ^ 64 - 1)) (2 ^ 64 - 1)" using assms(2,3) by linarith
  then show ?thesis using assms(1) by (simp add: below_def)
qed

text \<open>Time and calls of others only lower a window.\<close>

lemma ledger_within_later:
  assumes "mono (day_start ws)" and "mono (month_start ws)" and "at \<le> at'"
    and "provider_usage_rows t' = provider_usage_rows t" and "ledger_within ws limits provider at t"
  shows "ledger_within ws limits provider at' t'"
proof -
  have "usage_since provider from t' = usage_since provider from t" for "from"
    using assms(4) by (simp add: usage_since_def)
  then show ?thesis
    using assms(5) totals_later [OF monoD [OF assms(1,3)]] totals_later [OF monoD [OF assms(2,3)]]
    by (auto simp: ledger_within_def Let_def intro: below_mono)
qed

lemma unat_ucast_64: "unat (ucast (x :: 32 word) :: 64 word) = unat x"
proof -
  have "unat x < 2 ^ LENGTH(32)" by (rule unsigned_less)
  then show ?thesis by (simp add: unsigned_ucast_eq take_bit_nat_eq_self)
qed

lemma window_totals_same:
  "window_totals ws provider window w = (r, w') \<Longrightarrow> tables w' = tables w \<and> now w' = now w"
  by (auto simp: window_totals_def exec_bind_def get_now_def sql_def totals_query_def Let_def split: if_splits)

lemma ensure_same:
  assumes "ensure_within_budget ws provider i k prices limits w = (r, w')"
  shows "tables w' = tables w \<and> now w' = now w"
proof (cases "estimate_cost_micro_usd prices i k")
  case None
  then show ?thesis using assms by (simp add: ensure_within_budget_def exec_fail_def)
next
  case (Some c)
  obtain r1 w1 where 1: "window_totals ws provider Daily w = (r1, w1)" by fastforce
  obtain r2 w2 where 2: "window_totals ws provider Monthly w1 = (r2, w2)" by fastforce
  show ?thesis
    using assms Some 1 2 window_totals_same [OF 1] window_totals_same [OF 2]
    by (auto simp: ensure_within_budget_def exec_bind_def exec_guard_apply Let_def split: sum.splits if_splits)
qed

lemma ledger_within_append:
  assumes mono: "mono (day_start ws)" "mono (month_start ws)" and at: "at \<le> at'"
    and rows: "provider_usage_rows t' = provider_usage_rows t"
    and room: "let day = usage_since provider (day_start ws at) t; month = usage_since provider (month_start ws at) t;
         tokens = min (i + k) (2 ^ 64 - 1)
     in below (tokens_of day + tokens) (bl_daily_tokens limits) \<and> below (cost_of day + cost) (bl_daily_cost limits) \<and>
        below (tokens_of month + tokens) (bl_monthly_tokens limits) \<and>
        below (cost_of month + cost) (bl_monthly_cost limits)"
    and row: "pu_input row + pu_output row \<le> i + k" "pu_cost row \<le> cost"
  shows "ledger_within ws limits provider at' (t'\<lparr>provider_usage_rows := provider_usage_rows t' @ [row]\<rparr>)"
proof -
  let ?t = "t'\<lparr>provider_usage_rows := provider_usage_rows t' @ [row]\<rparr>"
  have same: "usage_since provider from t' = usage_since provider from t" for "from"
    using rows by (simp add: usage_since_def)
  have tokens: "below (tokens_of (usage_since provider (f at') ?t)) limit"
    if "mono f" "below (tokens_of (usage_since provider (f at) t) + min (i + k) (2 ^ 64 - 1)) limit" for f limit
  proof (rule below_mono)
    show "below (tokens_of (usage_since provider (f at') t) + (pu_input row + pu_output row)) limit"
      by (rule below_projected [OF that(2) totals_later(1) [OF monoD [OF that(1) at]] row(1)])
  qed (use totals_append(1) [of provider "f at'" t' row] same in simp)
  have cost: "below (cost_of (usage_since provider (f at') ?t)) limit"
    if "mono f" "below (cost_of (usage_since provider (f at) t) + cost) limit" for f limit
  proof (rule below_mono [OF that(2)])
    show "cost_of (usage_since provider (f at') ?t) \<le> cost_of (usage_since provider (f at) t) + cost"
      using totals_append(2) [of provider "f at'" t' row] same totals_later(2) [OF monoD [OF that(1) at], of provider t] row(2)
      by fastforce
  qed
  show ?thesis
    using room tokens [OF mono(1)] tokens [OF mono(2)] cost [OF mono(1)] cost [OF mono(2)]
    by (simp add: ledger_within_def Let_def)
qed

text \<open>
  C27: the ceilings hold. While answers stay within the projection that admitted their call, no
  controlled call takes the recorded tokens or cost of the day or of the month past its ceiling,
  whatever fails and however much time a call takes.
\<close>

theorem spend_stays_below_ceilings:
  assumes "mono (day_start ws)" and "mono (month_start ws)"
    and "ledger_within ws (sc_limits controls) (id_provider ident) (now w) (tables w)"
    and "answers_within controls inner"
    and "controlled_provider ws controls ident inner request w = (x, w')"
  shows "now w \<le> now w' \<and> ledger_within ws (sc_limits controls) (id_provider ident) (now w') (tables w')"
proof -
  let ?i = "projected_input_tokens request" and ?k = "ucast (sc_max_output controls) :: 64 word"
  let ?within = "\<lambda>at t. ledger_within ws (sc_limits controls) (id_provider ident) at t"
  obtain r w1 where ensure: "ensure_within_budget ws (id_provider ident) ?i ?k (sc_prices controls)
      (sc_limits controls) w = (r, w1)" by fastforce
  note w1 = ensure_same [OF ensure]
  show ?thesis
  proof (cases r)
    case (Inl e)
    then show ?thesis using assms(3,5) ensure w1 by (simp add: controlled_provider_def)
  next
    case (Inr u)
    obtain ms reply w2 where call: "inner request w1 = ((ms, reply), w2)" by (metis prod.exhaust)
    have w2: "provider_usage_rows (tables w2) = provider_usage_rows (tables w)" "now w \<le> now w2"
      using answers_withinD [OF assms(4) call] w1 by simp_all
    have later: "?within (now w2) (tables w2)" by (rule ledger_within_later [OF assms(1,2) w2(2,1) assms(3)])
    have w': "w' = record_answer ident (sc_prices controls) reply w2"
      using assms(5) ensure Inr call by (simp add: controlled_provider_def)
    show ?thesis
    proof (cases "\<exists>response. reply = Responded response")
      case False
      then have "w' = w2" using w' by (auto simp: record_answer_def split: provider_reply.splits)
      then show ?thesis using later w2 by simp
    next
      case True
      then obtain response where reply: "reply = Responded response" by blast
      let ?u = "resp_usage response"
      let ?cost = "exact_cost (sc_prices controls) (unat (input_tokens ?u)) (unat (output_tokens ?u))"
      have fits: "unat (input_tokens ?u) \<le> unat ?i" "unat (output_tokens ?u) \<le> unat ?k"
        using answers_withinD [OF assms(4) call] reply by (simp_all add: unat_ucast_64)
      have cost: "?cost \<le> exact_cost (sc_prices controls) (unat ?i) (unat ?k)" by (rule exact_cost_mono [OF fits])
      show ?thesis
      proof (cases "?cost < 2 ^ 64")
        case False
        then have "w' = w2" using w' reply by (simp add: record_answer_def estimate_cost_exact)
        then show ?thesis using later w2 by simp
      next
        case True
        let ?w3 = "snd (record_usage (id_provider ident) (id_model ident) ?u (of_nat ?cost) w2)"
        have w3: "w' = ?w3" using True w' reply by (simp add: record_answer_def estimate_cost_exact)
        obtain row where row: "now ?w3 = now w2"
          "tables ?w3 = tables w2 \<or> tables ?w3 = (tables w2)\<lparr>provider_usage_rows := provider_usage_rows (tables w2) @ [row]\<rparr>"
          "pu_input row = unat (input_tokens ?u)" "pu_output row = unat (output_tokens ?u)" "pu_cost row = ?cost"
          using record_usage_result [of "id_provider ident" "id_model ident" ?u "of_nat ?cost" w2] True
          by (auto simp: unat_of_nat)
        have "?within (now w2) ((tables w2)\<lparr>provider_usage_rows := provider_usage_rows (tables w2) @ [row]\<rparr>)"
        proof (rule ledger_within_append [where i = "unat ?i" and k = "unat ?k" and
              cost = "exact_cost (sc_prices controls) (unat ?i) (unat ?k)", OF assms(1,2) w2(2,1)])
          show "pu_input row + pu_output row \<le> unat ?i + unat ?k" unfolding row(3,4) by (rule add_mono [OF fits])
          show "pu_cost row \<le> exact_cost (sc_prices controls) (unat ?i) (unat ?k)" unfolding row(5) by (rule cost)
        qed (use ensure_within_budget_result [OF ensure [unfolded Inr]] in \<open>unfold Let_def, blast\<close>)
        then show ?thesis using row(1,2) w3 w2(2) later by auto
      qed
    qed
  qed
qed

definition sample_windows :: windows where
  "sample_windows = \<lparr>day_start = (\<lambda>at. at), month_start = (\<lambda>at. at)\<rparr>"

definition sample_controls :: spend_controls where
  "sample_controls = \<lparr>sc_limits = \<lparr>bl_daily_tokens = 1000, bl_monthly_tokens = 1000, bl_daily_cost = 1000,
     bl_monthly_cost = 1000\<rparr>, sc_prices = \<lparr>tp_input = 1, tp_output = 1\<rparr>, sc_max_output = 100\<rparr>"

definition silent_provider :: "generation_request \<Rightarrow> world \<Rightarrow> (nat \<times> provider_reply) \<times> world" where
  "silent_provider request w = ((0, Responded \<lparr>resp_bytes = [], resp_request_id = None,
     resp_usage = \<lparr>input_tokens = 0, output_tokens = 0\<rparr>\<rparr>), w\<lparr>provider_calls := provider_calls w + 1\<rparr>)"

theorem spend_stays_below_ceilings_witness:
  "\<forall>request. \<exists>x w'. controlled_provider sample_windows sample_controls offline_identity silent_provider request empty_world =
       (x, w') \<and> ledger_within sample_windows (sc_limits sample_controls) ''extractive_fixture'' (now w') (tables w')"
proof
  fix request
  obtain x w' where run: "controlled_provider sample_windows sample_controls offline_identity silent_provider request
      empty_world = (x, w')" by fastforce
  have "mono (day_start sample_windows)" "mono (month_start sample_windows)"
    by (simp_all add: sample_windows_def monoI)
  moreover have "ledger_within sample_windows (sc_limits sample_controls) (id_provider offline_identity) (now empty_world)
      (tables empty_world)"
    by (simp add: ledger_within_def usage_since_def select_where_def empty_world_def empty_db_def tokens_of_def
        cost_of_def below_def)
  moreover have "answers_within sample_controls silent_provider"
    by (simp add: answers_within_def silent_provider_def)
  ultimately have "ledger_within sample_windows (sc_limits sample_controls) (id_provider offline_identity) (now w') (tables w')"
    using spend_stays_below_ceilings run by blast
  then show "\<exists>x w'. controlled_provider sample_windows sample_controls offline_identity silent_provider request empty_world =
       (x, w') \<and> ledger_within sample_windows (sc_limits sample_controls) ''extractive_fixture'' (now w') (tables w')"
    using run by (auto simp: offline_identity_def)
qed

section \<open>Refusal\<close>

definition totals_fit :: "windows \<Rightarrow> string \<Rightarrow> instant \<Rightarrow> db \<Rightarrow> bool" where
  "totals_fit ws provider at t = (\<forall>from \<in> {day_start ws at, month_start ws at}.
     list_all (\<lambda>r. pu_input r + pu_output r < 2 ^ 63) (usage_since provider from t) \<and>
     tokens_of (usage_since provider from t) < 2 ^ 63 \<and> cost_of (usage_since provider from t) < 2 ^ 63)"

lemma window_totals_works:
  assumes "no_faults w" and "totals_fit ws provider (now w) (tables w)"
  shows "window_totals ws provider window w =
    (let rs = usage_since provider (case window of Daily \<Rightarrow> day_start ws (now w) | Monthly \<Rightarrow> month_start ws (now w)) (tables w)
     in (Inr (of_nat (tokens_of rs), of_nat (cost_of rs)), w))"
  using assms
  by (cases window; cases w)
    (auto simp: window_totals_def exec_bind_def get_now_def sql_works totals_query_def totals_fit_def Let_def)

text \<open>
  C28: without faults the budget check compares the exact recorded totals plus the projection with
  each ceiling; a refused call is never made, changes nothing, and is the retryable failure
  \<open>budget_exhausted\<close>.
\<close>

theorem refusal_is_exact:
  assumes "no_faults w" and "totals_fit ws (id_provider ident) (now w) (tables w)"
    and "exact_cost (sc_prices controls) (unat (projected_input_tokens request)) (unat (sc_max_output controls)) < 2 ^ 64"
  shows "let day = usage_since (id_provider ident) (day_start ws (now w)) (tables w);
      month = usage_since (id_provider ident) (month_start ws (now w)) (tables w);
      tokens = min (unat (projected_input_tokens request) + unat (sc_max_output controls)) (2 ^ 64 - 1);
      cost = exact_cost (sc_prices controls) (unat (projected_input_tokens request)) (unat (sc_max_output controls));
      limits = sc_limits controls
    in if below (tokens_of month + tokens) (bl_monthly_tokens limits) \<and> below (tokens_of day + tokens) (bl_daily_tokens limits) \<and>
          below (cost_of month + cost) (bl_monthly_cost limits) \<and> below (cost_of day + cost) (bl_daily_cost limits)
       then controlled_provider ws controls ident inner request w =
         (fst (inner request w), record_answer ident (sc_prices controls) (snd (fst (inner request w))) (snd (inner request w)))
       else controlled_provider ws controls ident inner request w =
         ((0, FailedCall \<lparr>pf_error = BudgetExhausted, pf_class = ClassBudgetExhausted, pf_http_status = None\<rparr>), w)"
proof -
  let ?i = "projected_input_tokens request" and ?k = "ucast (sc_max_output controls) :: 64 word"
  let ?c = "exact_cost (sc_prices controls) (unat ?i) (unat (sc_max_output controls))"
  have est: "estimate_cost_micro_usd (sc_prices controls) ?i ?k = Some (of_nat ?c)"
    using assms(3) by (simp add: estimate_cost_exact unat_ucast_64)
  have uc: "unat (of_nat ?c :: 64 word) = ?c" using assms(3) by (simp add: unat_of_nat)
  have up: "unat (sat_add ?i ?k) = min (unat ?i + unat (sc_max_output controls)) (2 ^ 64 - 1)"
    by (simp add: unat_sat_add unat_ucast_64)
  have gt: "sat_add (of_nat n) p > limit \<longleftrightarrow> \<not> below (n + unat p) limit" if "n < 2 ^ 63" for n p limit
  proof -
    have "unat (of_nat n :: 64 word) = n" using that by (simp add: unat_of_nat)
    then show ?thesis by (simp add: below_def not_le [symmetric] word_le_nat_alt unat_sat_add)
  qed
  have small: "tokens_of (usage_since (id_provider ident) from (tables w)) < 2 ^ 63"
    "cost_of (usage_since (id_provider ident) from (tables w)) < 2 ^ 63"
    if "from \<in> {day_start ws (now w), month_start ws (now w)}" for "from"
    using assms(2) that by (auto simp: totals_fit_def)
  note tests = gt [OF small(1), of "month_start ws (now w)"] gt [OF small(1), of "day_start ws (now w)"]
    gt [OF small(2), of "month_start ws (now w)"] gt [OF small(2), of "day_start ws (now w)"]
  show ?thesis
    unfolding Let_def
    by (simp add: controlled_provider_def ensure_within_budget_def est Let_def exec_bind_def
        window_totals_works [OF assms(1,2)] exec_guard_apply tests up uc split: prod.split)
qed

text \<open>A daily ceiling of no tokens refuses the first call of the day.\<close>

definition closed_controls :: spend_controls where
  "closed_controls = sample_controls\<lparr>sc_limits := (sc_limits sample_controls)\<lparr>bl_daily_tokens := 0\<rparr>\<rparr>"

definition small_request :: generation_request where
  "small_request = \<lparr>prompt_version = [], system_policy = ''policy'', task_instruction = [], output_schema = JNull,
     source_content = ''source''\<rparr>"

lemma small_request_input: "unat (projected_input_tokens small_request) = 3"
  by (simp add: projected_input_tokens_def small_request_def sat_add_def word_div_ceil_def)

theorem refusal_is_exact_witness:
  "controlled_provider sample_windows closed_controls offline_identity silent_provider small_request empty_world =
     ((0, FailedCall \<lparr>pf_error = BudgetExhausted, pf_class = ClassBudgetExhausted, pf_http_status = None\<rparr>), empty_world)"
proof -
  have "no_faults empty_world" by (simp add: no_faults_def empty_world_def)
  moreover have "totals_fit sample_windows (id_provider offline_identity) (now empty_world) (tables empty_world)"
    by (simp add: totals_fit_def usage_since_def select_where_def empty_world_def empty_db_def tokens_of_def cost_of_def)
  moreover have "exact_cost (sc_prices closed_controls) (unat (projected_input_tokens small_request))
      (unat (sc_max_output closed_controls)) < 2 ^ 64"
    unfolding small_request_input by (simp add: exact_cost_def nat_div_ceil_def closed_controls_def sample_controls_def)
  ultimately show ?thesis
    using refusal_is_exact [of empty_world sample_windows offline_identity closed_controls small_request silent_provider]
    by (simp add: Let_def small_request_input usage_since_def select_where_def empty_world_def empty_db_def
        tokens_of_def cost_of_def below_def closed_controls_def sample_controls_def)
qed

section \<open>A controlled provider drives runs\<close>

text \<open>Nothing a handler does turns a world without faults into one with them.\<close>

definition stays_calm :: "(world, 'e, 'a) exec \<Rightarrow> bool" where
  "stays_calm m = (\<forall>w. no_faults w \<longrightarrow> no_faults (snd (m w)))"

named_theorems calm_rules \<open>handlers that add no faults\<close>

lemma calm_statement [calm_rules]: "stays_calm (sql e f)" "stays_calm (query e g)" "stays_calm (execute e h)"
  by (auto simp: stays_calm_def sql_works query_works execute_works split: sum.splits)

lemma calm_basic [calm_rules]:
  "stays_calm new_uuid" "stays_calm get_now" "stays_calm (exec_return x)" "stays_calm (exec_fail e)"
  "stays_calm (exec_result r)" "stays_calm (exec_guard b e)"
  by (simp_all add: stays_calm_def new_uuid_def get_now_def exec_simps)

lemma calm_bind [calm_rules]:
  assumes "stays_calm m" and "\<And>x. stays_calm (f x)"
  shows "stays_calm (exec_bind m f)"
  using assms by (auto simp: stays_calm_def exec_bind_def split: prod.splits sum.splits dest: spec)

lemma calm_window_totals [calm_rules]: "stays_calm (window_totals ws provider window)"
  unfolding window_totals_def by (intro calm_rules)

lemma unchanged_window_totals [unchanged_rules]:
  "database_free g \<Longrightarrow> unchanged g (window_totals ws provider window)"
  unfolding window_totals_def by (intro unchanged_rules)

lemma ensure_frame:
  "stays_calm (ensure_within_budget ws provider i k prices limits)"
  "database_free g \<Longrightarrow> unchanged g (ensure_within_budget ws provider i k prices limits)"
  by (cases "estimate_cost_micro_usd prices i k";
      simp add: ensure_within_budget_def Let_def; intro calm_rules unchanged_rules; assumption?)+

lemma record_usage_frame:
  "stays_calm (record_usage provider model usage cost)"
  "database_free g \<Longrightarrow> unchanged g (record_usage provider model usage cost)"
  unfolding record_usage_def by (intro calm_rules unchanged_rules; assumption?)+

lemma record_answer_frame:
  "same_runs (tables w) (tables (record_answer ident prices reply w))"
  "disk (record_answer ident prices reply w) = disk w"
  "provider_calls (record_answer ident prices reply w) = provider_calls w"
  "no_faults w \<Longrightarrow> no_faults (record_answer ident prices reply w)"
proof -
  have "same_runs (tables w) (tables (snd (record_usage p m u c w)))" for p m u c
    using record_usage_result [of p m u c w] by (auto simp: same_runs_def)
  moreover have "disk (snd (record_usage p m u c w)) = disk w"
    "provider_calls (snd (record_usage p m u c w)) = provider_calls w"
    "no_faults w \<Longrightarrow> no_faults (snd (record_usage p m u c w))" for p m u c
    using record_usage_frame(1) [of p m u c] record_usage_frame(2) [of disk p m u c]
      record_usage_frame(2) [of provider_calls p m u c]
    by (simp_all add: unchanged_def stays_calm_def)
  ultimately show "same_runs (tables w) (tables (record_answer ident prices reply w))"
    "disk (record_answer ident prices reply w) = disk w"
    "provider_calls (record_answer ident prices reply w) = provider_calls w"
    "no_faults w \<Longrightarrow> no_faults (record_answer ident prices reply w)"
    by (auto simp: record_answer_def same_runs_def split: provider_reply.splits option.splits)
qed

lemma controlled_frame:
  assumes "provider_frame inner"
  shows "provider_frame (controlled_provider ws controls ident inner)"
  unfolding provider_frame_def Let_def
proof (intro allI)
  fix request w
  let ?ensure = "ensure_within_budget ws (id_provider ident) (projected_input_tokens request)
     (ucast (sc_max_output controls)) (sc_prices controls) (sc_limits controls)"
  let ?w' = "snd (controlled_provider ws controls ident inner request w)"
  obtain r w1 where ensure: "?ensure w = (r, w1)" by fastforce
  have disk: "disk w1 = disk w"
    using ensure_frame(2) [of disk, unfolded unchanged_def, simplified] ensure by (metis snd_conv)
  have calls: "provider_calls w1 = provider_calls w"
    using ensure_frame(2) [of provider_calls, unfolded unchanged_def, simplified] ensure by (metis snd_conv)
  have calm: "no_faults w \<Longrightarrow> no_faults w1"
    using ensure_frame(1) [unfolded stays_calm_def, rule_format, of w] ensure by (metis snd_conv)
  have w1: "tables w1 = tables w" using ensure_same [OF ensure] by simp
  obtain ms reply w2 where call: "inner request w1 = ((ms, reply), w2)" by (metis prod.exhaust)
  note inner = provider_frameD [OF assms call]
  show "same_runs (tables w) (tables ?w') \<and> disk ?w' = disk w \<and> (no_faults w \<longrightarrow> no_faults ?w') \<and>
    provider_calls ?w' \<le> provider_calls w + 1"
  proof (cases r)
    case (Inl e)
    then have "?w' = w1" by (simp add: controlled_provider_def ensure)
    then show ?thesis using disk calls calm w1 by (simp add: same_runs_def)
  next
    case (Inr u)
    then have "?w' = record_answer ident (sc_prices controls) reply w2" by (simp add: controlled_provider_def ensure call)
    then show ?thesis
      using record_answer_frame [where w = w2] inner disk calls calm w1 unfolding same_runs_def by metis
  qed
qed

text \<open>The runs of the worker, whose provider is always wrapped, satisfy the contract of the driver.\<close>

interpretation controlled_article: driving
  "article_driver store offline_identity (controlled_provider ws controls offline_identity (offline_provider encode dec))"
  "validate_article parse pc" "article_persist store run document" run False "\<lambda>_. True"
  for store ws controls encode dec parse pc run document
  by (rule article_driving [OF controlled_frame [OF offline_frame]])

interpretation controlled_family: driving
  "family_driver store offline_identity (controlled_provider ws controls offline_identity (offline_provider encode dec))"
  "validate_family parse check" "family_persist parse_uuid store run texts" run False "\<lambda>_. True"
  for store ws controls encode dec parse check parse_uuid run texts
  by (rule family_driving [OF controlled_frame [OF offline_frame]])

end
