(* ===== verification/First_Wins.thy ===== *)
theory First_Wins
  imports Effects
begin

text \<open>
  The contract of the deduplicating tables: a row is inserted unless one of the same key is stored,
  so a redelivery changes nothing. The event outbox and the inboxes of deliveries keep it, each with
  its own key.
\<close>

locale first_wins =
  fixes put :: "'r \<Rightarrow> 't \<Rightarrow> 't"
    and look :: "'k \<Rightarrow> 't \<Rightarrow> 'r option"
    and key_of :: "'r \<Rightarrow> 'k"
  assumes put_look: "look k (put r t) = (if k = key_of r \<and> look k t = None then Some r else look k t)"
    and put_stored: "look (key_of r) t \<noteq> None \<Longrightarrow> put r t = t"
begin

lemma put_again: "key_of s = key_of r \<Longrightarrow> put s (put r t) = put r t"
  by (rule put_stored) (auto simp: put_look)

lemma look_put_stable: "look k t = Some s \<Longrightarrow> look k (put r t) = Some s"
  by (simp add: put_look)

lemma look_fold_stable: "look k t = Some s \<Longrightarrow> look k (fold put rs t) = Some s"
  by (induction rs arbitrary: t) (simp_all add: look_put_stable)

text \<open>Of any sequence of deliveries the first one of each key is the one stored.\<close>

lemma look_fold:
  "look k (fold put rs t) = (case look k t of Some s \<Rightarrow> Some s | None \<Rightarrow> find (\<lambda>r. key_of r = k) rs)"
proof (induction rs arbitrary: t)
  case (Cons r rs)
  show ?case
  proof (cases "look k t")
    case None
    then show ?thesis using Cons by (simp add: put_look)
  qed (simp add: look_fold_stable look_put_stable)
qed (simp split: option.split)

text \<open>Delivering a whole batch again changes nothing.\<close>

lemma fold_again:
  assumes "\<forall>r \<in> set rs. look (key_of r) t \<noteq> None"
  shows "fold put rs t = t"
  using assms by (induction rs) (simp_all add: put_stored)

lemma fold_stored: "r \<in> set rs \<Longrightarrow> look (key_of r) (fold put rs t) \<noteq> None"
proof (induction rs arbitrary: t)
  case (Cons s rs)
  show ?case
  proof (cases "r = s")
    case True
    have "look (key_of s) (put s t) \<noteq> None" by (simp add: put_look)
    then show ?thesis using True look_fold_stable by fastforce
  qed (use Cons in simp)
qed simp

lemma fold_twice: "fold put rs (fold put rs t) = fold put rs t"
  by (rule fold_again) (simp add: fold_stored del: not_None_eq)

end

text \<open>\<open>insert ... on conflict (key) do nothing\<close> keeps the contract.\<close>

lemma find_insert_nothing:
  "find_where (\<lambda>x. key x = k) (insert_nothing (\<lambda>x. key x = key r) r t) =
     (if k = key r \<and> find_where (\<lambda>x. key x = k) t = None then Some r else find_where (\<lambda>x. key x = k) t)"
proof (cases "exists_where (\<lambda>x. key x = key r) t")
  case True
  then have "find_where (\<lambda>x. key x = key r) t \<noteq> None" by (auto simp: find_where_Some_iff table_simps)
  then show ?thesis using True by (auto simp: insert_nothing_def)
next
  case False
  then have "find_where (\<lambda>x. key x = key r) t = None" by (auto simp: find_where_Some_iff table_simps)
  moreover have "find_where p [r] = (if p r then Some r else None)" for p by (simp add: find_where_def)
  ultimately show ?thesis
    using False by (auto simp: insert_nothing_def find_where_append split: option.splits)
qed

lemma insert_nothing_stored:
  "find_where (\<lambda>x. key x = key r) t \<noteq> None \<Longrightarrow> insert_nothing (\<lambda>x. key x = key r) r t = t"
  by (auto simp: insert_nothing_def find_where_Some_iff table_simps simp del: not_None_eq)

lemma keyed_first_wins:
  "first_wins (\<lambda>r. insert_nothing (\<lambda>x. key x = key r) r) (\<lambda>k. find_where (\<lambda>x. key x = k)) key"
  by unfold_locales (simp_all add: find_insert_nothing insert_nothing_stored del: not_None_eq)

lemma key_unique_same: "key_unique key t \<Longrightarrow> r \<in> set t \<Longrightarrow> r' \<in> set t \<Longrightarrow> key r = key r' \<Longrightarrow> r = r'"
  unfolding key_unique_def distinct_map inj_on_def by blast

text \<open>Rows of a table that arrived in one batch, in the order of their keys.\<close>

lemma update_where_update_where:
  assumes "\<And>r. q r \<Longrightarrow> \<not> p (f r)" and "\<And>r. p r \<Longrightarrow> f r = g r" and "\<And>r. q r \<Longrightarrow> f r = g r"
  shows "update_where p f (update_where q f t) = update_where (\<lambda>r. p r \<or> q r) g t"
  using assms by (auto simp: update_where_def)

end
