(* ===== verification/Event_Outbox.thy ===== *)
theory Event_Outbox
  imports First_Wins
begin

text \<open>
  The transactional outbox of completion facts (\<open>event_outbox.rs\<close>), the acknowledgements of
  deletions queued in it (\<open>deletion_ack.rs\<close>), and its publication by the worker
  (\<open>ingest_publish.rs\<close>).
\<close>

section \<open>Facts\<close>

text \<open>References, tenants and instants of the wire contracts are carried by their wire spelling.\<close>

record event_cause =
  ca_event :: uuid
  ca_correlation :: string

datatype outbox_subject =
  AnalysisCompleted | AiArchiveAnalysisCompleted | RepositoryAnalysisCompleted
| RepositoryAnalysisFailed | DeletionAcknowledged

fun outbox_subject_as_str :: "outbox_subject \<Rightarrow> string" where
  "outbox_subject_as_str AnalysisCompleted = ''knowledge.analysis.completed.v1''"
| "outbox_subject_as_str AiArchiveAnalysisCompleted = ''knowledge.ai_archive_analysis.completed.v1''"
| "outbox_subject_as_str RepositoryAnalysisCompleted = ''knowledge.repository_analysis.completed.v1''"
| "outbox_subject_as_str RepositoryAnalysisFailed = ''knowledge.repository_analysis.failed.v1''"
| "outbox_subject_as_str DeletionAcknowledged = ''knowledge.deletion.acknowledged.v1''"

definition parse_outbox_subject :: "string \<Rightarrow> outbox_subject option" where
  "parse_outbox_subject v = find (\<lambda>s. outbox_subject_as_str s = v)
     [AnalysisCompleted, AiArchiveAnalysisCompleted, RepositoryAnalysisCompleted,
      RepositoryAnalysisFailed, DeletionAcknowledged]"

datatype enqueue_outcome = Inserted | Rearmed | Unchanged

record outbox_fact =
  ft_subject :: outbox_subject
  ft_tenant :: string
  ft_aggregate :: string
  ft_correlation :: string
  ft_causation :: "string option"
  ft_payload :: json
  ft_key :: string

record outbox_row =
  or_id :: uuid
  or_subject :: outbox_subject
  or_tenant :: string
  or_aggregate :: string
  or_correlation :: string
  or_causation :: "string option"
  or_payload :: json
  or_created :: string

datatype event_outbox_error = OutboxPersistence persistence_error | InvalidRow

fun event_outbox_error_is_permanent :: "event_outbox_error \<Rightarrow> bool" where
  "event_outbox_error_is_permanent InvalidRow = True"
| "event_outbox_error_is_permanent (OutboxPersistence e) = persistence_error_is_permanent e"

text \<open>
  What the outbox uses of the contract crates and of the database: the parsers of references,
  tenants and instants, the rendering \<open>to_char\<close> of a \<open>timestamptz\<close>, the envelope version, and the
  decoding of an envelope followed by its encoding to bytes.
\<close>

record wire =
  parse_ref :: "string \<Rightarrow> string option"
  parse_tenant :: "string \<Rightarrow> string option"
  parse_time :: "string \<Rightarrow> string option"
  created_text :: "instant \<Rightarrow> string"
  envelope_version :: json
  decode_envelope :: "json \<Rightarrow> json option"
  encode_envelope :: "json \<Rightarrow> bytes option"

definition or_invalid :: "'a option \<Rightarrow> event_outbox_error + 'a" where
  "or_invalid x = (case x of None \<Rightarrow> Inl InvalidRow | Some y \<Rightarrow> Inr y)"

definition causation_ref :: "wire \<Rightarrow> event_cause \<Rightarrow> event_outbox_error + string" where
  "causation_ref wr cause = or_invalid (parse_ref wr (''event:'' @ uuid_text (ca_event cause)))"

definition envelope :: "wire \<Rightarrow> outbox_row \<Rightarrow> event_outbox_error + json" where
  "envelope wr row = or_invalid (decode_envelope wr (JObj (
     [(''event_id'', JStr (uuid_text (or_id row))),
      (''event_type'', JStr (outbox_subject_as_str (or_subject row))),
      (''occurred_at'', JStr (or_created row)),
      (''producer'', JStr ''ratatoskr-knowledge''),
      (''aggregate_id'', JStr (or_aggregate row)),
      (''correlation_id'', JStr (or_correlation row)),
      (''tenant_id'', JStr (or_tenant row)),
      (''schema_version'', envelope_version wr),
      (''payload'', or_payload row)] @
     (case or_causation row of None \<Rightarrow> [] | Some c \<Rightarrow> [(''causation_id'', JStr c)]))))"

section \<open>Queueing\<close>

definition event_of_fact :: "uuid \<Rightarrow> instant \<Rightarrow> outbox_fact \<Rightarrow> event_row" where
  "event_of_fact ident at fct =
     \<lparr>ev_id = ident, ev_subject = outbox_subject_as_str (ft_subject fct), ev_tenant = ft_tenant fct,
      ev_aggregate = ft_aggregate fct, ev_correlation = ft_correlation fct,
      ev_causation = ft_causation fct, ev_payload = ft_payload fct, ev_key = ft_key fct,
      ev_created = at, ev_published = None\<rparr>"

definition put_event :: "event_row \<Rightarrow> db \<Rightarrow> db" where
  "put_event r t = t\<lparr>event_outbox := insert_nothing (\<lambda>x. ev_key x = ev_key r) r (event_outbox t)\<rparr>"

definition event_at :: "string \<Rightarrow> db \<Rightarrow> event_row option" where
  "event_at key t = find_where (\<lambda>x. ev_key x = key) (event_outbox t)"

definition enqueue_in :: "outbox_fact \<Rightarrow> (world, event_outbox_error, bool) exec" where
  "enqueue_in fct =
     exec_bind (exec_guard (json_is_object (ft_payload fct)) InvalidRow) (\<lambda>_.
     exec_bind new_uuid (\<lambda>ident.
     exec_bind get_now (\<lambda>at.
     sql (OutboxPersistence Query)
       (\<lambda>t. Inr (event_at (ft_key fct) t = None, put_event (event_of_fact ident at fct) t)))))"

text \<open>
  \<open>enqueue_rearm_in\<close>: a stored fact is set back to unpublished when it was published longer ago than
  \<open>rearm_after\<close> microseconds; one that is unpublished compares as unknown and stays.
\<close>

definition rearmable :: "instant \<Rightarrow> nat \<Rightarrow> event_row \<Rightarrow> bool" where
  "rearmable at rearm_after x = (case ev_published x of None \<Rightarrow> False | Some p \<Rightarrow> p < at - int rearm_after)"

definition put_event_rearm :: "instant \<Rightarrow> nat \<Rightarrow> event_row \<Rightarrow> db \<Rightarrow> db" where
  "put_event_rearm at rearm_after r t =
     t\<lparr>event_outbox := upsert (\<lambda>x. ev_key x = ev_key r) (rearmable at rearm_after)
         (\<lambda>x. x\<lparr>ev_published := None\<rparr>) r (event_outbox t)\<rparr>"

definition rearm_outcome :: "instant \<Rightarrow> nat \<Rightarrow> string \<Rightarrow> db \<Rightarrow> enqueue_outcome" where
  "rearm_outcome at rearm_after key t =
     (case event_at key t of
        None \<Rightarrow> Inserted
      | Some x \<Rightarrow> (if rearmable at rearm_after x then Rearmed else Unchanged))"

definition enqueue_rearm_in :: "outbox_fact \<Rightarrow> nat \<Rightarrow> (world, event_outbox_error, enqueue_outcome) exec" where
  "enqueue_rearm_in fct rearm_after =
     exec_bind (exec_guard (json_is_object (ft_payload fct)) InvalidRow) (\<lambda>_.
     exec_bind new_uuid (\<lambda>ident.
     exec_bind get_now (\<lambda>at.
     sql (OutboxPersistence Query)
       (\<lambda>t. Inr (rearm_outcome at rearm_after (ft_key fct) t,
                 put_event_rearm at rearm_after (event_of_fact ident at fct) t)))))"

definition enqueue :: "outbox_fact \<Rightarrow> (world, event_outbox_error, bool) exec" where
  "enqueue fct = transact (OutboxPersistence Query) (enqueue_in fct)"

section \<open>Acknowledged deletions\<close>

datatype ack_family = FamilySocial | FamilyAiArchive
datatype ack_outcome = Applied | RefusedAck
datatype ack_refusal = ForeignSubject

record deletion_acknowledgement =
  da_cause :: event_cause
  da_family :: ack_family
  da_owner :: string
  da_subject :: string
  da_outcome :: ack_outcome
  da_refusal :: "ack_refusal option"

definition ack_applied :: "event_cause \<Rightarrow> ack_family \<Rightarrow> string \<Rightarrow> string \<Rightarrow> deletion_acknowledgement" where
  "ack_applied cause family owner subject =
     \<lparr>da_cause = cause, da_family = family, da_owner = owner, da_subject = subject,
      da_outcome = Applied, da_refusal = None\<rparr>"

definition ack_foreign_subject :: "event_cause \<Rightarrow> ack_family \<Rightarrow> string \<Rightarrow> string \<Rightarrow> deletion_acknowledgement" where
  "ack_foreign_subject cause family owner subject =
     \<lparr>da_cause = cause, da_family = family, da_owner = owner, da_subject = subject,
      da_outcome = RefusedAck, da_refusal = Some ForeignSubject\<rparr>"

definition deletion_ack_rearm_after :: nat where
  "deletion_ack_rearm_after = 60000000"

text \<open>\<open>encode_ack\<close> is the validation and the encoding of the payload by the contract crate.\<close>

definition into_fact ::
  "wire \<Rightarrow> (deletion_acknowledgement \<Rightarrow> instant \<Rightarrow> json option) \<Rightarrow> deletion_acknowledgement \<Rightarrow> instant \<Rightarrow>
   event_outbox_error + outbox_fact" where
  "into_fact wr encode_ack ack at =
     (case encode_ack ack at of
        None \<Rightarrow> Inl InvalidRow
      | Some payload \<Rightarrow>
          (case causation_ref wr (da_cause ack) of
             Inl e \<Rightarrow> Inl e
           | Inr causation \<Rightarrow>
               Inr \<lparr>ft_subject = DeletionAcknowledged, ft_tenant = da_owner ack,
                 ft_aggregate = da_subject ack, ft_correlation = ca_correlation (da_cause ack),
                 ft_causation = Some causation, ft_payload = payload,
                 ft_key = ''deletion_ack:'' @ uuid_text (ca_event (da_cause ack))\<rparr>))"

definition acknowledge_deletion ::
  "wire \<Rightarrow> (deletion_acknowledgement \<Rightarrow> instant \<Rightarrow> json option) \<Rightarrow> deletion_acknowledgement \<Rightarrow> nat \<Rightarrow>
   (world, event_outbox_error, enqueue_outcome) exec" where
  "acknowledge_deletion wr encode_ack ack rearm_after =
     exec_bind get_now (\<lambda>at.
     exec_bind (exec_result (into_fact wr encode_ack ack at)) (\<lambda>fct.
     transact (OutboxPersistence Query) (enqueue_rearm_in fct rearm_after)))"

section \<open>Reading\<close>

text \<open>\<open>canonical_instant\<close>: the fraction of a second loses its trailing zeros.\<close>

definition strip_suffix :: "char \<Rightarrow> string \<Rightarrow> string option" where
  "strip_suffix c s = (if s \<noteq> [] \<and> List.last s = c then Some (butlast s) else None)"

definition split_once :: "char \<Rightarrow> string \<Rightarrow> (string \<times> string) option" where
  "split_once c s = (if c \<in> set s then Some (takeWhile (\<lambda>x. x \<noteq> c) s, tl (dropWhile (\<lambda>x. x \<noteq> c) s)) else None)"

definition trim_end_matches :: "char \<Rightarrow> string \<Rightarrow> string" where
  "trim_end_matches c s = rev (dropWhile (\<lambda>x. x = c) (rev s))"

definition canonical_spelling :: "string \<Rightarrow> string option" where
  "canonical_spelling s =
     (case strip_suffix (CHR ''Z'') s of
        None \<Rightarrow> None
      | Some body \<Rightarrow>
          (let (whole, fraction) = (case split_once (CHR ''.'') body of None \<Rightarrow> (body, []) | Some p \<Rightarrow> p);
               fraction = trim_end_matches (CHR ''0'') fraction
           in Some (if fraction = [] then whole @ ''Z'' else whole @ ''.'' @ fraction @ ''Z'')))"

definition canonical_instant :: "wire \<Rightarrow> string \<Rightarrow> event_outbox_error + string" where
  "canonical_instant wr s =
     (case canonical_spelling s of None \<Rightarrow> Inl InvalidRow | Some c \<Rightarrow> or_invalid (parse_time wr c))"

definition decode_row :: "wire \<Rightarrow> event_row \<Rightarrow> event_outbox_error + outbox_row" where
  "decode_row wr r =
     (case parse_outbox_subject (ev_subject r) of None \<Rightarrow> Inl InvalidRow | Some subject \<Rightarrow>
     (case parse_tenant wr (ev_tenant r) of None \<Rightarrow> Inl InvalidRow | Some tenant \<Rightarrow>
     (case parse_ref wr (ev_aggregate r) of None \<Rightarrow> Inl InvalidRow | Some aggregate \<Rightarrow>
     (case parse_ref wr (ev_correlation r) of None \<Rightarrow> Inl InvalidRow | Some correlation \<Rightarrow>
     (case (case ev_causation r of None \<Rightarrow> Some None | Some c \<Rightarrow> map_option Some (parse_ref wr c)) of
        None \<Rightarrow> Inl InvalidRow
      | Some causation \<Rightarrow>
     (case canonical_instant wr (created_text wr (ev_created r)) of Inl e \<Rightarrow> Inl e | Inr at \<Rightarrow>
        Inr \<lparr>or_id = ev_id r, or_subject = subject, or_tenant = tenant, or_aggregate = aggregate,
             or_correlation = correlation, or_causation = causation, or_payload = ev_payload r,
             or_created = at\<rparr>))))))"

fun decode_rows :: "wire \<Rightarrow> event_row list \<Rightarrow> event_outbox_error + outbox_row list" where
  "decode_rows wr [] = Inr []"
| "decode_rows wr (r # rs) =
     (case decode_row wr r of
        Inl e \<Rightarrow> Inl e
      | Inr x \<Rightarrow> (case decode_rows wr rs of Inl e \<Rightarrow> Inl e | Inr xs \<Rightarrow> Inr (x # xs)))"

definition unpublished :: "db \<Rightarrow> event_row list" where
  "unpublished t = sort_key (\<lambda>r. (ev_created r, ev_id r))
     (select_where (\<lambda>r. ev_published r = None) (event_outbox t))"

definition claim_unpublished :: "wire \<Rightarrow> nat \<Rightarrow> (world, event_outbox_error, outbox_row list) exec" where
  "claim_unpublished wr limit =
     exec_bind (query (OutboxPersistence Query) (\<lambda>t. take limit (unpublished t))) (\<lambda>rows.
     exec_result (decode_rows wr rows))"

definition published_at :: "instant \<Rightarrow> uuid \<Rightarrow> event_row list \<Rightarrow> event_row list" where
  "published_at at ident =
     update_where (\<lambda>x. ev_id x = ident \<and> ev_published x = None) (\<lambda>x. x\<lparr>ev_published := Some at\<rparr>)"

definition mark_published :: "uuid \<Rightarrow> (world, event_outbox_error, unit) exec" where
  "mark_published ident =
     exec_bind get_now (\<lambda>at.
     execute (OutboxPersistence Query)
       (\<lambda>t. t\<lparr>event_outbox := published_at at ident (event_outbox t)\<rparr>))"

section \<open>Publishing\<close>

datatype publish_failure = Unacknowledged | OutboxFailed | EncodeFailed

record message =
  ms_subject :: string
  ms_id :: string
  ms_body :: bytes

definition publish_batch :: nat where
  "publish_batch = 32"

text \<open>
  A publisher runs in a world and appends to the stream of the broker. Like a statement, a publish
  works, is refused without effect, or is stored while its acknowledgement is lost.
\<close>

definition on_world :: "('e \<Rightarrow> 'f) \<Rightarrow> (world, 'e, 'a) exec \<Rightarrow> (world \<times> message list, 'f, 'a) exec" where
  "on_world h m = (\<lambda>(w, stream). case exec_map_err h m w of (r, w') \<Rightarrow> (r, (w', stream)))"

definition send :: "message \<Rightarrow> (world \<times> message list, publish_failure, unit) exec" where
  "send m = (\<lambda>(w, stream).
     (if next_fault w = Works then Inr () else Inl Unacknowledged,
      (tick w, if next_fault w = Refused then stream else stream @ [m])))"

definition message_of :: "wire \<Rightarrow> outbox_row \<Rightarrow> publish_failure + message" where
  "message_of wr row =
     (case envelope wr row of
        Inl e \<Rightarrow> Inl EncodeFailed
      | Inr v \<Rightarrow>
          (case encode_envelope wr v of
             None \<Rightarrow> Inl EncodeFailed
           | Some body \<Rightarrow>
               Inr \<lparr>ms_subject = ''evt.'' @ outbox_subject_as_str (or_subject row),
                    ms_id = uuid_text (or_id row), ms_body = body\<rparr>))"

fun publish_rows :: "wire \<Rightarrow> outbox_row list \<Rightarrow> nat \<Rightarrow> (world \<times> message list, publish_failure, nat) exec" where
  "publish_rows wr [] published = exec_return published"
| "publish_rows wr (row # rows) published =
     exec_bind (exec_result (message_of wr row)) (\<lambda>m.
     exec_bind (send m) (\<lambda>_.
     exec_bind (on_world (\<lambda>_. OutboxFailed) (mark_published (or_id row))) (\<lambda>_.
     publish_rows wr rows (published + 1))))"

definition publish_event_outbox :: "wire \<Rightarrow> (world \<times> message list, publish_failure, nat) exec" where
  "publish_event_outbox wr =
     exec_bind (on_world (\<lambda>_. OutboxFailed) (claim_unpublished wr publish_batch)) (\<lambda>rows.
     publish_rows wr rows 0)"

end
