(* ===== verification/Outbox_Correct.thy ===== *)
theory Outbox_Correct
  imports Event_Outbox
begin

text \<open>
  Correctness of the outbox: what a publication does under every pattern of faults, that it drains
  the outbox when nothing fails, and the invariant of every history of queueing and publishing.
\<close>

section \<open>Rows and messages\<close>

definition sent_as :: "wire \<Rightarrow> event_row \<Rightarrow> message \<Rightarrow> bool" where
  "sent_as wr r m = (case decode_row wr r of Inl _ \<Rightarrow> False | Inr row \<Rightarrow> message_of wr row = Inr m)"

lemma parse_outbox_subject_as_str [simp]: "parse_outbox_subject (outbox_subject_as_str s) = Some s"
  by (cases s) (simp_all add: parse_outbox_subject_def)

lemma decode_row_id: "decode_row wr r = Inr row \<Longrightarrow> or_id row = ev_id r"
  by (auto simp: decode_row_def split: option.splits sum.splits)

lemma message_of_id: "message_of wr row = Inr m \<Longrightarrow> ms_id m = uuid_text (or_id row)"
  by (auto simp: message_of_def split: option.splits sum.splits)

lemma sent_as_id: "sent_as wr r m \<Longrightarrow> ms_id m = uuid_text (ev_id r)"
  unfolding sent_as_def by (cases "decode_row wr r") (auto simp: decode_row_id dest: message_of_id)

lemma sent_as_same: "sent_as wr r m \<Longrightarrow> sent_as wr r m' \<Longrightarrow> m = m'"
  by (auto simp: sent_as_def split: sum.splits)

lemma decode_row_published [simp]: "decode_row wr (r\<lparr>ev_published := p\<rparr>) = decode_row wr r"
  unfolding decode_row_def by (simp cong: option.case_cong sum.case_cong)

lemma sent_as_published [simp]: "sent_as wr (r\<lparr>ev_published := p\<rparr>) m = sent_as wr r m"
  by (simp add: sent_as_def)

lemma decode_rows_all2: "decode_rows wr rs = Inr rows \<Longrightarrow> list_all2 (\<lambda>r row. decode_row wr r = Inr row) rs rows"
  by (induction rs arbitrary: rows) (auto split: sum.splits)

lemma decode_rows_total:
  "\<forall>r \<in> set rs. \<exists>row. decode_row wr r = Inr row \<Longrightarrow> \<exists>rows. decode_rows wr rs = Inr rows"
  by (induction rs) auto

lemma all2_right: "list_all2 P xs ys \<Longrightarrow> y \<in> set ys \<Longrightarrow> \<exists>x \<in> set xs. P x y"
  by (induction rule: list_all2_induct) auto

section \<open>Marking\<close>

lemma published_at_twice:
  "published_at at i (update_where (\<lambda>x. ev_id x \<in> I \<and> ev_published x = None) (\<lambda>x. x\<lparr>ev_published := Some at\<rparr>) t) =
     update_where (\<lambda>x. ev_id x \<in> insert i I \<and> ev_published x = None) (\<lambda>x. x\<lparr>ev_published := Some at\<rparr>) t"
  unfolding published_at_def by (auto simp: update_where_def)

text \<open>The rows of a set of facts are marked.\<close>

definition mark_all :: "instant \<Rightarrow> uuid set \<Rightarrow> event_row list \<Rightarrow> event_row list" where
  "mark_all at I = update_where (\<lambda>x. ev_id x \<in> I \<and> ev_published x = None) (\<lambda>x. x\<lparr>ev_published := Some at\<rparr>)"

lemma mark_all_empty [simp]: "mark_all at {} t = t"
  by (simp add: mark_all_def update_where_def)

lemma mark_all_published_at: "mark_all at I (published_at at i t) = mark_all at (insert i I) t"
  by (auto simp: mark_all_def published_at_def update_where_def)

lemma mark_published_result:
  assumes "mark_published i w = (r, w')"
  shows "now w' = now w \<and> fresh w' = fresh w \<and>
    (event_outbox (tables w') = event_outbox (tables w) \<and> (\<exists>e. r = Inl e) \<or>
     event_outbox (tables w') = published_at (now w) i (event_outbox (tables w)))"
  using assms
  by (auto simp: mark_published_def exec_bind_def get_now_def execute_def sql_def tick_def
      split: if_splits prod.splits)

lemma on_world_cases:
  assumes "on_world h m (w, stream) = (r, s)"
  obtains r' w' where "m w = (r', w')" and "s = (w', stream)" and
    "r = (case r' of Inl e \<Rightarrow> Inl (h e) | Inr x \<Rightarrow> Inr x)"
  using assms unfolding on_world_def exec_map_err_def
  by (cases "m w") (auto split: sum.splits)

section \<open>A publication under faults\<close>

text \<open>
  What a publication has done wherever it stops: it sent the first \<open>k\<close> rows in order and marked
  the first \<open>j\<close> of them; at most the last one sent is not marked.
\<close>

definition published_prefix ::
  "('x \<Rightarrow> message \<Rightarrow> bool) \<Rightarrow> ('x \<Rightarrow> uuid) \<Rightarrow> 'x list \<Rightarrow> world \<times> message list \<Rightarrow> world \<times> message list \<Rightarrow> nat \<Rightarrow> bool" where
  "published_prefix sent ident rows s s' j =
     (\<exists>k new. j \<le> k \<and> k \<le> j + 1 \<and> k \<le> length rows \<and> snd s' = snd s @ new \<and>
        list_all2 sent (take k rows) new \<and>
        event_outbox (tables (fst s')) =
          mark_all (now (fst s)) (ident ` set (take j rows)) (event_outbox (tables (fst s))) \<and>
        fresh (fst s') = fresh (fst s))"

lemma published_prefix_0:
  "fresh w' = fresh w \<Longrightarrow> event_outbox (tables w') = event_outbox (tables w) \<Longrightarrow> published_prefix sent ident rows (w, stream) (w', stream) 0"
  unfolding published_prefix_def by (intro exI [of _ 0] exI [of _ "[]"]) simp

lemma published_prefix_1:
  "fresh w' = fresh w \<Longrightarrow> event_outbox (tables w') = event_outbox (tables w) \<Longrightarrow> sent row m \<Longrightarrow>
     published_prefix sent ident (row # rows) (w, stream) (w', stream @ [m]) 0"
  unfolding published_prefix_def by (intro exI [of _ 1] exI [of _ "[m]"]) simp

lemma published_prefix_Suc:
  assumes "published_prefix sent ident rows (w1, stream @ [m]) s' j" and "sent row m" and "now w1 = now w" and "fresh w1 = fresh w"
    and "event_outbox (tables w1) = published_at (now w) (ident row) (event_outbox (tables w))"
  shows "published_prefix sent ident (row # rows) (w, stream) s' (Suc j)"
proof -
  from assms(1) obtain k new where "j \<le> k" "k \<le> j + 1" "k \<le> length rows" "snd s' = (stream @ [m]) @ new"
    "list_all2 sent (take k rows) new"
    "event_outbox (tables (fst s')) = mark_all (now w1) (ident ` set (take j rows)) (event_outbox (tables w1))"
    "fresh (fst s') = fresh w1"
    unfolding published_prefix_def by auto
  then show ?thesis
    unfolding published_prefix_def
    using assms(2-) by (intro exI [of _ "Suc k"] exI [of _ "m # new"]) (simp add: mark_all_published_at)
qed

lemma publish_rows_prefix:
  assumes "publish_rows wr rows n (w, stream) = (r, s')"
  shows "\<exists>j. published_prefix (\<lambda>row m. message_of wr row = Inr m) or_id rows (w, stream) s' j \<and>
    (case r of Inl _ \<Rightarrow> True | Inr p \<Rightarrow> p = n + length rows \<and> j = length rows)"
  using assms
proof (induction rows arbitrary: n w stream)
  case Nil
  then show ?case by (intro exI [of _ 0]) (auto simp: exec_return_def published_prefix_0)
next
  case (Cons row rows)
  let ?sent = "\<lambda>row m. message_of wr row = Inr m"
  show ?case
  proof (cases "message_of wr row")
    case (Inl e)
    then have "r = Inl e" "s' = (w, stream)" using Cons.prems by (simp_all add: exec_bind_def exec_result_def)
    then show ?thesis by (intro exI [of _ 0]) (simp add: published_prefix_0)
  next
    case (Inr m)
    show ?thesis
    proof (cases "next_fault w")
      case Works
      obtain r1 s1 where mark: "on_world (\<lambda>_. OutboxFailed) (mark_published (or_id row)) (tick w, stream @ [m]) = (r1, s1)"
        by (metis surj_pair)
      then obtain r' w1 where m1: "mark_published (or_id row) (tick w) = (r', w1)" and s1: "s1 = (w1, stream @ [m])"
        and r1: "r1 = (case r' of Inl e \<Rightarrow> Inl OutboxFailed | Inr x \<Rightarrow> Inr x)"
        by (rule on_world_cases)
      note mark' = mark_published_result [OF m1]
      show ?thesis
      proof (cases r')
        case (Inl e)
        then have run: "r = Inl OutboxFailed" "s' = (w1, stream @ [m])"
          using Cons.prems Inr Works mark s1 r1 by (auto simp: exec_bind_def exec_result_def send_def)
        from mark' consider "event_outbox (tables w1) = event_outbox (tables w)"
          | "event_outbox (tables w1) = published_at (now w) (or_id row) (event_outbox (tables w))" by auto
        then show ?thesis
        proof cases
          case 1
          show ?thesis
            using published_prefix_1 [where sent = ?sent, OF _ 1 Inr] mark' run by (intro exI [of _ 0]) simp
        next
          case 2
          have "published_prefix ?sent or_id rows (w1, stream @ [m]) (w1, stream @ [m]) 0"
            by (rule published_prefix_0) simp_all
          then have "published_prefix ?sent or_id (row # rows) (w, stream) (w1, stream @ [m]) (Suc 0)"
            by (rule published_prefix_Suc) (use Inr mark' 2 in simp_all)
          then show ?thesis using run by (intro exI [of _ 1]) simp
        qed
      next
        case r': (Inr u)
        then have rest: "publish_rows wr rows (n + 1) (w1, stream @ [m]) = (r, s')"
          using Cons.prems Inr Works mark s1 r1 by (auto simp: exec_bind_def exec_result_def send_def)
        obtain j where j: "published_prefix ?sent or_id rows (w1, stream @ [m]) s' j"
          "case r of Inl _ \<Rightarrow> True | Inr p \<Rightarrow> p = n + 1 + length rows \<and> j = length rows"
          using Cons.IH [OF rest] by auto
        have "published_prefix ?sent or_id (row # rows) (w, stream) s' (Suc j)"
          by (rule published_prefix_Suc [OF j(1)]) (use Inr mark' r' in simp_all)
        then show ?thesis using j(2) by (intro exI [of _ "Suc j"]) (auto split: sum.splits)
      qed
    next
      case Refused
      then have "r = Inl Unacknowledged" "s' = (tick w, stream)"
        using Cons.prems Inr by (simp_all add: exec_bind_def exec_result_def send_def)
      then show ?thesis by (intro exI [of _ 0]) (simp add: published_prefix_0)
    next
      case AckLost
      then have run: "r = Inl Unacknowledged" "s' = (tick w, stream @ [m])"
        using Cons.prems Inr by (simp_all add: exec_bind_def exec_result_def send_def)
      have "published_prefix ?sent or_id (row # rows) (w, stream) (tick w, stream @ [m]) 0"
        by (rule published_prefix_1) (simp_all add: Inr)
      then show ?thesis using run by (intro exI [of _ 0]) simp
    qed
  qed
qed

lemma published_prefix_rows:
  assumes "published_prefix sent' ident' rows s s' j" and "list_all2 R rs rows"
    and "\<And>r row m. R r row \<Longrightarrow> sent' row m \<Longrightarrow> sent r m" and "\<And>r row. R r row \<Longrightarrow> ident' row = ident r"
  shows "published_prefix sent ident rs s s' j"
proof -
  from assms(1) obtain k new where k: "j \<le> k" "k \<le> j + 1" "k \<le> length rows" "snd s' = snd s @ new"
    "list_all2 sent' (take k rows) new"
    "event_outbox (tables (fst s')) = mark_all (now (fst s)) (ident' ` set (take j rows)) (event_outbox (tables (fst s)))"
    "fresh (fst s') = fresh (fst s)"
    unfolding published_prefix_def by auto
  have take: "list_all2 R (take i rs) (take i rows)" for i using assms(2) by (rule list_all2_takeI)
  have "list_all2 sent (take k rs) new"
    by (rule list_all2_trans [OF _ take k(5)]) (rule assms(3))
  moreover have "ident' ` set (take j rows) = ident ` set (take j rs)"
  proof -
    have "map ident' (take j rows) = map ident (take j rs)"
      using take [of j] assms(4) by (induction rule: list_all2_induct) simp_all
    then show ?thesis by (metis list.set_map)
  qed
  moreover have "k \<le> length rs" using k(3) list_all2_lengthD [OF assms(2)] by simp
  ultimately show ?thesis unfolding published_prefix_def using k(1,2,4,6,7) by auto
qed

lemma publish_prefix:
  assumes "publish_event_outbox wr (w, stream) = (r, s')"
  shows "\<exists>j. published_prefix (sent_as wr) ev_id (take publish_batch (unpublished (tables w))) (w, stream) s' j \<and>
    (case r of Inl _ \<Rightarrow> True | Inr n \<Rightarrow> n = j \<and> j = min publish_batch (length (unpublished (tables w))))"
proof -
  let ?batch = "take publish_batch (unpublished (tables w))"
  obtain r1 s1 where claim: "on_world (\<lambda>_. OutboxFailed) (claim_unpublished wr publish_batch) (w, stream) = (r1, s1)"
    by (metis surj_pair)
  then obtain r' w1 where c1: "claim_unpublished wr publish_batch w = (r', w1)" and s1: "s1 = (w1, stream)"
    and r1: "r1 = (case r' of Inl e \<Rightarrow> Inl OutboxFailed | Inr x \<Rightarrow> Inr x)"
    by (rule on_world_cases)
  have w1: "tables w1 = tables w" "now w1 = now w" "fresh w1 = fresh w" and rows: "\<And>rows. r' = Inr rows \<Longrightarrow> decode_rows wr ?batch = Inr rows"
    using c1 by (auto simp: claim_unpublished_def exec_bind_def exec_result_def query_def sql_def tick_def
        split: if_splits)
  show ?thesis
  proof (cases r')
    case (Inl e)
    then have "r = Inl OutboxFailed" "s' = (w1, stream)"
      using assms claim s1 r1 by (auto simp: publish_event_outbox_def exec_bind_def)
    then show ?thesis using w1 by (intro exI [of _ 0]) (simp add: published_prefix_0)
  next
    case (Inr rows')
    then have "publish_rows wr rows' 0 (w1, stream) = (r, s')"
      using assms claim s1 r1 by (auto simp: publish_event_outbox_def exec_bind_def)
    then obtain j where j: "published_prefix (\<lambda>row m. message_of wr row = Inr m) or_id rows' (w1, stream) s' j"
      "case r of Inl _ \<Rightarrow> True | Inr p \<Rightarrow> p = 0 + length rows' \<and> j = length rows'"
      using publish_rows_prefix by blast
    have all: "list_all2 (\<lambda>r row. decode_row wr r = Inr row) ?batch rows'"
      using decode_rows_all2 [OF rows [OF Inr]] .
    have "published_prefix (sent_as wr) ev_id ?batch (w1, stream) s' j"
      by (rule published_prefix_rows [OF j(1) all]) (auto simp: sent_as_def dest: decode_row_id)
    then have "published_prefix (sent_as wr) ev_id ?batch (w, stream) s' j"
      using w1 by (simp add: published_prefix_def)
    then show ?thesis
      using j(2) list_all2_lengthD [OF all] by (intro exI [of _ j]) (auto simp: min.commute split: sum.splits)
  qed
qed

text \<open>
  C38: publication is at least once, in order, under every pattern of faults: wherever it stops, the
  messages added to the stream are those of the oldest unpublished facts in commit order, every fact
  it marked was sent before, and at most one sent fact is left unmarked. It reports success only when
  the whole batch was sent and marked.
\<close>

theorem publish_event_outbox_at_least_once:
  "case publish_event_outbox wr (w, stream) of (r, s') \<Rightarrow>
     \<exists>j. published_prefix (sent_as wr) ev_id (take publish_batch (unpublished (tables w))) (w, stream) s' j \<and>
       (case r of Inl _ \<Rightarrow> True | Inr n \<Rightarrow> n = j \<and> j = min publish_batch (length (unpublished (tables w))))"
proof -
  obtain r s' where run: "publish_event_outbox wr (w, stream) = (r, s')" by (metis surj_pair)
  show ?thesis using publish_prefix [OF run] unfolding run by simp
qed

section \<open>Draining\<close>

definition readable :: "wire \<Rightarrow> event_row \<Rightarrow> bool" where
  "readable wr r = (\<exists>row m. decode_row wr r = Inr row \<and> message_of wr row = Inr m)"

lemma publish_rows_works:
  assumes "no_faults w" and "\<forall>row \<in> set rows. \<exists>m. message_of wr row = Inr m"
  shows "\<exists>s'. publish_rows wr rows n (w, stream) = (Inr (n + length rows), s') \<and> no_faults (fst s')"
  using assms
proof (induction rows arbitrary: n w stream)
  case (Cons row rows)
  obtain m where m: "message_of wr row = Inr m" using Cons.prems by auto
  let ?w1 = "w\<lparr>tables := (tables w)\<lparr>event_outbox := published_at (now w) (or_id row) (event_outbox (tables w))\<rparr>\<rparr>"
  have "publish_rows wr (row # rows) n (w, stream) = publish_rows wr rows (n + 1) (?w1, stream @ [m])"
    using Cons.prems m
    by (simp add: exec_bind_def exec_result_def send_def on_world_def exec_map_err_def mark_published_def
        get_now_def execute_works)
  then show ?case using Cons.IH [of ?w1 "n + 1" "stream @ [m]"] Cons.prems by simp
qed (simp add: exec_return_def)

lemma publish_event_outbox_works:
  assumes "no_faults w" and "\<forall>r \<in> set (event_outbox (tables w)). readable wr r"
  shows "\<exists>s'. publish_event_outbox wr (w, stream) = (Inr (min publish_batch (length (unpublished (tables w)))), s') \<and>
    no_faults (fst s')"
proof -
  let ?batch = "take publish_batch (unpublished (tables w))"
  have sub: "set ?batch \<subseteq> set (event_outbox (tables w))"
    by (auto simp: unpublished_def table_simps dest: in_set_takeD)
  then have "\<forall>r \<in> set ?batch. \<exists>row. decode_row wr r = Inr row"
    using assms(2) by (auto simp: readable_def)
  from decode_rows_total [OF this] obtain rows where rows: "decode_rows wr ?batch = Inr rows" by blast
  note all = decode_rows_all2 [OF rows]
  have "\<forall>row \<in> set rows. \<exists>m. message_of wr row = Inr m"
  proof
    fix row assume "row \<in> set rows"
    then obtain r where "r \<in> set ?batch" "decode_row wr r = Inr row"
      using all2_right [OF all] by blast
    moreover have "readable wr r" using assms(2) sub \<open>r \<in> set ?batch\<close> by blast
    ultimately show "\<exists>m. message_of wr row = Inr m" by (auto simp: readable_def)
  qed
  from publish_rows_works [OF assms(1) this, of 0 stream] list_all2_lengthD [OF all]
  obtain s' where "publish_rows wr rows 0 (w, stream) = (Inr (min publish_batch (length (unpublished (tables w)))), s')"
    "no_faults (fst s')" by (auto simp: min.commute)
  moreover have "claim_unpublished wr publish_batch w = (Inr rows, w)"
    using assms(1) rows by (simp add: claim_unpublished_def exec_bind_def query_works exec_result_def)
  ultimately show ?thesis
    by (simp add: publish_event_outbox_def exec_bind_def on_world_def exec_map_err_def)
qed

lemma unpublished_mark_all:
  assumes "event_outbox t' = mark_all at I (event_outbox t)"
  shows "unpublished t' = filter (\<lambda>r. ev_id r \<notin> I) (unpublished t)"
proof -
  have "select_where (\<lambda>r. ev_published r = None) (mark_all at I rs) =
      filter (\<lambda>r. ev_id r \<notin> I) (select_where (\<lambda>r. ev_published r = None) rs)" for rs
    by (induction rs) (auto simp: mark_all_def update_where_def select_where_def)
  then show ?thesis using assms by (simp add: unpublished_def filter_sort)
qed

lemma filter_take_ids:
  "distinct (map f xs) \<Longrightarrow> filter (\<lambda>x. f x \<notin> f ` set (take n xs)) xs = drop n xs"
proof (induction xs arbitrary: n)
  case (Cons x xs)
  show ?case
  proof (cases n)
    case (Suc m)
    have "filter (\<lambda>y. f y \<notin> insert (f x) (f ` set (take m xs))) xs = filter (\<lambda>y. f y \<notin> f ` set (take m xs)) xs"
    proof (rule filter_cong)
      fix y assume "y \<in> set xs"
      then have "f y \<noteq> f x" using Cons.prems by (metis distinct.simps(2) imageI list.set_map list.simps(9))
      then show "(f y \<notin> insert (f x) (f ` set (take m xs))) = (f y \<notin> f ` set (take m xs))" by simp
    qed simp
    then show ?thesis using Cons Suc by simp
  qed simp
qed simp

lemma distinct_unpublished:
  assumes "key_unique ev_id (event_outbox t)"
  shows "distinct (map ev_id (unpublished t))"
proof -
  have "distinct (map ev_id (filter P (event_outbox t)))" for P
    using assms unfolding key_unique_def by (rule distinct_map_filter)
  then show ?thesis
    unfolding unpublished_def select_where_def by (simp add: distinct_map inj_on_def)
qed

text \<open>
  C39: publication makes progress. When nothing fails and every stored fact is readable, a call
  publishes exactly the 32 oldest facts, or all of them, sends one message for each in commit order,
  and leaves the others in order for the next call.
\<close>

theorem publish_event_outbox_drains:
  assumes "no_faults w" and "\<forall>r \<in> set (event_outbox (tables w)). readable wr r"
    and "key_unique ev_id (event_outbox (tables w))"
  shows "\<exists>w' new. publish_event_outbox wr (w, stream) =
      (Inr (min 32 (length (unpublished (tables w)))), (w', stream @ new)) \<and>
    list_all2 (sent_as wr) (take 32 (unpublished (tables w))) new \<and>
    unpublished (tables w') = drop 32 (unpublished (tables w))"
proof -
  let ?batch = "take publish_batch (unpublished (tables w))"
  obtain s' where run: "publish_event_outbox wr (w, stream) = (Inr (min publish_batch (length (unpublished (tables w)))), s')"
    using publish_event_outbox_works [OF assms(1,2)] by blast
  obtain j where j: "published_prefix (sent_as wr) ev_id ?batch (w, stream) s' j" "j = length ?batch"
    using publish_prefix [OF run] by (auto simp: min.commute)
  obtain k new where k: "j \<le> k" "k \<le> length ?batch" "snd s' = stream @ new" "list_all2 (sent_as wr) (take k ?batch) new"
    "event_outbox (tables (fst s')) = mark_all (now w) (ev_id ` set (take j ?batch)) (event_outbox (tables w))"
    using j(1) unfolding published_prefix_def by auto
  have "take j ?batch = ?batch" unfolding j(2) by (rule take_all) simp
  then have "unpublished (tables (fst s')) = drop publish_batch (unpublished (tables w))"
    unfolding unpublished_mark_all [OF k(5)] by (simp only:) (rule filter_take_ids [OF distinct_unpublished [OF assms(3)]])
  moreover have "take k ?batch = ?batch" by (rule take_all) (use k(1) j(2) in simp)
  ultimately show ?thesis
    using run k(3,4) by (intro exI [of _ "fst s'"] exI [of _ new]) (auto simp: publish_batch_def prod_eq_iff)
qed

text \<open>Sample values: every spelling is accepted.\<close>

definition sample_wire :: wire where
  "sample_wire = \<lparr>parse_ref = Some, parse_tenant = Some, parse_time = Some,
     created_text = (\<lambda>_. ''2026-01-02T03:04:05.120000Z''), envelope_version = JNum 1, decode_envelope = Some,
     encode_envelope = (\<lambda>_. Some [1, 2])\<rparr>"

definition sample_fact :: outbox_fact where
  "sample_fact = \<lparr>ft_subject = AnalysisCompleted, ft_tenant = ''user:1'', ft_aggregate = ''source:2'',
     ft_correlation = ''operation:3'', ft_causation = Some ''event:4'', ft_payload = JObj [], ft_key = ''k''\<rparr>"

definition queued_world :: world where
  "queued_world = snd (enqueue sample_fact empty_world)"

lemma queued_world_eq:
  "queued_world = empty_world\<lparr>fresh := 2, tables := empty_db\<lparr>event_outbox := [event_of_fact 1 0 sample_fact]\<rparr>\<rparr>"
  by (simp add: queued_world_def enqueue_def transact_def enqueue_in_def exec_bind_def exec_guard_apply
      sample_fact_def new_uuid_def get_now_def sql_works put_event_def insert_nothing_def exists_where_def
      empty_db_def)

lemma sample_canonical: "canonical_spelling ''2026-01-02T03:04:05.120000Z'' = Some ''2026-01-02T03:04:05.12Z''"
  by (simp add: canonical_spelling_def strip_suffix_def split_once_def trim_end_matches_def)

lemma sample_readable: "readable sample_wire (event_of_fact 1 0 sample_fact)"
  by (simp add: readable_def decode_row_def event_of_fact_def sample_fact_def sample_wire_def canonical_instant_def
      sample_canonical or_invalid_def message_of_def envelope_def parse_outbox_subject_def)

lemma queued_readable: "no_faults queued_world" "\<forall>r \<in> set (event_outbox (tables queued_world)). readable sample_wire r"
  using sample_readable by (simp_all add: queued_world_eq)

lemma queued_unpublished: "unpublished (tables queued_world) = [event_of_fact 1 0 sample_fact]"
  by (simp add: queued_world_eq unpublished_def select_where_def event_of_fact_def)

theorem publish_event_outbox_drains_witness:
  "\<exists>w' m. publish_event_outbox sample_wire (queued_world, []) = (Inr 1, (w', [m])) \<and> unpublished (tables w') = []"
proof -
  have "\<exists>w' new. publish_event_outbox sample_wire (queued_world, []) =
      (Inr (min 32 (length (unpublished (tables queued_world)))), (w', [] @ new)) \<and>
    list_all2 (sent_as sample_wire) (take 32 (unpublished (tables queued_world))) new \<and>
    unpublished (tables w') = drop 32 (unpublished (tables queued_world))"
    by (rule publish_event_outbox_drains [OF queued_readable]) (simp add: queued_world_eq key_unique_def)
  then show ?thesis by (auto simp: queued_unpublished list_all2_Cons1)
qed

section \<open>Every history of the outbox\<close>

interpretation outbox: first_wins put_event event_at ev_key
proof
  show "event_at k (put_event r t) = (if k = ev_key r \<and> event_at k t = None then Some r else event_at k t)" for k r t
  proof -
    have eq: "event_outbox (put_event r t) = insert_nothing (\<lambda>x. ev_key x = ev_key r) r (event_outbox t)"
      by (simp add: put_event_def)
    show ?thesis unfolding event_at_def eq by (rule find_insert_nothing)
  qed
  show "event_at (ev_key r) t \<noteq> None \<Longrightarrow> put_event r t = t" for r t
    by (simp add: put_event_def event_at_def insert_nothing_stored del: not_None_eq)
qed

text \<open>What queueing a fact does to the rows.\<close>

definition outbox_evolves :: "world \<Rightarrow> world \<Rightarrow> bool" where
  "outbox_evolves w w' = (fresh w \<le> fresh w' \<and>
     (event_outbox (tables w') = event_outbox (tables w) \<or>
      (\<exists>r. event_outbox (tables w') = event_outbox (tables w) @ [r] \<and> ev_id r = fresh w \<and> fresh w < fresh w' \<and>
         ev_published r = None \<and> ev_key r \<notin> ev_key ` set (event_outbox (tables w))) \<or>
      (\<exists>p. event_outbox (tables w') = update_where p (\<lambda>x. x\<lparr>ev_published := None\<rparr>) (event_outbox (tables w)))))"

lemma outbox_evolves_refl: "fresh w \<le> fresh w' \<Longrightarrow> event_outbox (tables w') = event_outbox (tables w) \<Longrightarrow> outbox_evolves w w'"
  by (simp add: outbox_evolves_def)

lemma put_event_rows:
  assumes "ev_published r = None"
  shows "event_outbox (put_event r t) = event_outbox t \<or>
    event_outbox (put_event r t) = event_outbox t @ [r] \<and> ev_key r \<notin> ev_key ` set (event_outbox t)"
  using assms by (auto simp: put_event_def insert_nothing_def table_simps)

lemma put_event_rearm_rows:
  "(\<exists>p. event_outbox (put_event_rearm at d r t) = update_where p (\<lambda>x. x\<lparr>ev_published := None\<rparr>) (event_outbox t)) \<or>
   event_outbox (put_event_rearm at d r t) = event_outbox t @ [r] \<and> ev_key r \<notin> ev_key ` set (event_outbox t)"
  by (auto simp: put_event_rearm_def upsert_def table_simps)

lemma enqueue_in_evolves: "outbox_evolves w (snd (enqueue_in fct w))"
proof -
  have none: "ev_published (event_of_fact (fresh w) (now w) fct) = None" and i: "ev_id (event_of_fact (fresh w) (now w) fct) = fresh w"
    by (simp_all add: event_of_fact_def)
  show ?thesis
    using put_event_rows [OF none, of "tables w"] i none
    by (auto simp: enqueue_in_def exec_bind_def exec_guard_apply new_uuid_def get_now_def sql_def tick_def
        outbox_evolves_def)
qed

lemma enqueue_rearm_in_evolves: "outbox_evolves w (snd (enqueue_rearm_in fct d w))"
proof -
  have none: "ev_published (event_of_fact (fresh w) (now w) fct) = None" and i: "ev_id (event_of_fact (fresh w) (now w) fct) = fresh w"
    by (simp_all add: event_of_fact_def)
  show ?thesis
    using put_event_rearm_rows [of "now w" d "event_of_fact (fresh w) (now w) fct" "tables w"] i none
    by (auto simp: enqueue_rearm_in_def exec_bind_def exec_guard_apply new_uuid_def get_now_def sql_def tick_def
        outbox_evolves_def)
qed

lemma transact_evolves:
  assumes "\<And>w. outbox_evolves w (snd (m w))"
  shows "outbox_evolves w (snd (transact e m w))"
proof -
  obtain r w' where m: "m (tick w) = (r, w')" by fastforce
  have "outbox_evolves (tick w) w'" using assms [of "tick w"] m by simp
  then show ?thesis using m by (auto simp: transact_def outbox_evolves_def tick_def split: sum.splits)
qed

lemma enqueue_evolves: "outbox_evolves w (snd (enqueue fct w))"
  unfolding enqueue_def by (rule transact_evolves) (rule enqueue_in_evolves)

lemma acknowledge_evolves: "outbox_evolves w (snd (acknowledge_deletion wr encode_ack ack d w))"
proof (cases "into_fact wr encode_ack ack (now w)")
  case (Inl e)
  then show ?thesis
    by (simp add: acknowledge_deletion_def exec_bind_def get_now_def exec_result_def outbox_evolves_refl)
next
  case (Inr fct)
  then show ?thesis
    using transact_evolves [OF enqueue_rearm_in_evolves]
    by (simp add: acknowledge_deletion_def exec_bind_def get_now_def exec_result_def)
qed

text \<open>
  The steps of the outbox: a fact is queued, a deletion is acknowledged, a batch is published, or
  time passes; each may meet any faults.
\<close>

inductive outbox_step :: "wire \<Rightarrow> (deletion_acknowledgement \<Rightarrow> instant \<Rightarrow> json option) \<Rightarrow>
    world \<times> message list \<Rightarrow> world \<times> message list \<Rightarrow> bool" for wr encode_ack where
  step_enqueue: "outbox_step wr encode_ack (w, stream) (snd (enqueue fct w), stream)"
| step_acknowledge: "outbox_step wr encode_ack (w, stream) (snd (acknowledge_deletion wr encode_ack ack d w), stream)"
| step_publish: "outbox_step wr encode_ack s (snd (publish_event_outbox wr s))"
| step_time: "now w \<le> at \<Longrightarrow> outbox_step wr encode_ack (w, stream) (w\<lparr>now := at, faults := fs\<rparr>, stream)"

definition outbox_inv :: "wire \<Rightarrow> world \<times> message list \<Rightarrow> bool" where
  "outbox_inv wr s = (let rows = event_outbox (tables (fst s)) in
     key_unique ev_key rows \<and> key_unique ev_id rows \<and> (\<forall>r \<in> set rows. ev_id r < fresh (fst s)) \<and>
     (\<forall>r \<in> set rows. ev_published r \<noteq> None \<longrightarrow> (\<exists>m \<in> set (snd s). sent_as wr r m)) \<and>
     (\<forall>m \<in> set (snd s). \<exists>r \<in> set rows. sent_as wr r m))"

lemma outbox_invD:
  assumes "outbox_inv wr (w, stream)"
  shows "key_unique ev_key (event_outbox (tables w))" and "key_unique ev_id (event_outbox (tables w))"
    and "r \<in> set (event_outbox (tables w)) \<Longrightarrow> ev_id r < fresh w"
    and "r \<in> set (event_outbox (tables w)) \<Longrightarrow> ev_published r \<noteq> None \<Longrightarrow> \<exists>m \<in> set stream. sent_as wr r m"
    and "m \<in> set stream \<Longrightarrow> \<exists>r \<in> set (event_outbox (tables w)). sent_as wr r m"
  using assms unfolding outbox_inv_def Let_def fst_conv snd_conv by blast+

lemma outbox_inv_update:
  assumes "outbox_inv wr (w, stream)" and "event_outbox (tables w') = update_where p (\<lambda>x. x\<lparr>ev_published := v\<rparr>) (event_outbox (tables w))"
    and "fresh w \<le> fresh w'" and "set stream \<subseteq> set stream'"
    and "\<forall>r \<in> set (event_outbox (tables w)). p r \<and> v \<noteq> None \<longrightarrow> (\<exists>m \<in> set stream'. sent_as wr r m)"
    and "\<forall>m \<in> set stream' - set stream. \<exists>r \<in> set (event_outbox (tables w)). sent_as wr r m"
  shows "outbox_inv wr (w', stream')"
  unfolding outbox_inv_def Let_def fst_conv snd_conv assms(2)
proof (intro conjI ballI impI)
  note inv = outbox_invD [OF assms(1)]
  let ?rows = "event_outbox (tables w)"
  show "key_unique ev_key (update_where p (\<lambda>x. x\<lparr>ev_published := v\<rparr>) ?rows)"
    by (rule key_unique_update) (simp_all add: inv(1))
  show "key_unique ev_id (update_where p (\<lambda>x. x\<lparr>ev_published := v\<rparr>) ?rows)"
    by (rule key_unique_update) (simp_all add: inv(2))
  show "ev_id r < fresh w'" if "r \<in> set (update_where p (\<lambda>x. x\<lparr>ev_published := v\<rparr>) ?rows)" for r
  proof -
    from that obtain r0 where "r0 \<in> set ?rows" "r = (if p r0 then r0\<lparr>ev_published := v\<rparr> else r0)"
      by (auto simp: table_simps)
    then have "r0 \<in> set ?rows" "ev_id r = ev_id r0" by simp_all
    then show ?thesis using inv(3) [of r0] assms(3) by simp
  qed
  show "\<exists>m \<in> set stream'. sent_as wr r m"
    if "r \<in> set (update_where p (\<lambda>x. x\<lparr>ev_published := v\<rparr>) ?rows)" "ev_published r \<noteq> None" for r
  proof -
    from that(1) obtain r0 where r0: "r0 \<in> set ?rows" "r = (if p r0 then r0\<lparr>ev_published := v\<rparr> else r0)"
      by (auto simp: table_simps)
    show ?thesis
    proof (cases "p r0")
      case True
      then have "v \<noteq> None" using r0(2) that(2) by auto
      then show ?thesis using True r0 assms(5) by auto
    next
      case False
      then show ?thesis using r0 that(2) inv(4) [of r0] assms(4) by auto
    qed
  qed
  show "\<exists>r \<in> set (update_where p (\<lambda>x. x\<lparr>ev_published := v\<rparr>) ?rows). sent_as wr r m" if "m \<in> set stream'" for m
  proof -
    from that have "\<exists>r0 \<in> set ?rows. sent_as wr r0 m" using assms(6) inv(5) [of m] by blast
    then obtain r0 where "r0 \<in> set ?rows" "sent_as wr r0 m" by blast
    then show ?thesis by (intro bexI [of _ "if p r0 then r0\<lparr>ev_published := v\<rparr> else r0"]) (auto simp: table_simps)
  qed
qed

lemma outbox_inv_evolves:
  assumes "outbox_inv wr (w, stream)" and "outbox_evolves w w'"
  shows "outbox_inv wr (w', stream)"
proof -
  note inv = outbox_invD [OF assms(1)]
  from assms(2) consider "event_outbox (tables w') = event_outbox (tables w)"
    | r where "event_outbox (tables w') = event_outbox (tables w) @ [r]" "ev_id r = fresh w" "fresh w < fresh w'"
      "ev_published r = None" "ev_key r \<notin> ev_key ` set (event_outbox (tables w))"
    | p where "event_outbox (tables w') = update_where p (\<lambda>x. x\<lparr>ev_published := None\<rparr>) (event_outbox (tables w))"
    unfolding outbox_evolves_def by blast
  moreover have le: "fresh w \<le> fresh w'" using assms(2) by (simp add: outbox_evolves_def)
  ultimately show ?thesis
  proof cases
    case 1
    then show ?thesis
      by (intro outbox_inv_update [where p = "\<lambda>_. False" and v = None, OF assms(1)]) (use le in \<open>simp_all add: update_where_none\<close>)
  next
    case 2
    then have "ev_id r \<notin> ev_id ` set (event_outbox (tables w))" using inv(3) by fastforce
    then have "key_unique ev_id (event_outbox (tables w'))" "key_unique ev_key (event_outbox (tables w'))"
      using 2 inv(1,2) by (simp_all add: key_unique_def)
    moreover have "ev_id x < fresh w'" if "x \<in> set (event_outbox (tables w'))" for x
      using that 2 le inv(3) [of x] by auto
    moreover have "\<exists>m \<in> set stream. sent_as wr x m" if "x \<in> set (event_outbox (tables w'))" "ev_published x \<noteq> None" for x
      using that 2 inv(4) [of x] by auto
    moreover have "\<exists>x \<in> set (event_outbox (tables w')). sent_as wr x m" if "m \<in> set stream" for m
      using inv(5) [OF that] 2 by auto
    ultimately show ?thesis unfolding outbox_inv_def Let_def fst_conv snd_conv by blast
  next
    case 3
    then show ?thesis by (rule outbox_inv_update [OF assms(1)]) (use le in auto)
  qed
qed

lemma outbox_inv_publish:
  assumes "outbox_inv wr (w, stream)"
  shows "outbox_inv wr (snd (publish_event_outbox wr (w, stream)))"
proof -
  obtain r w' stream' where run: "publish_event_outbox wr (w, stream) = (r, (w', stream'))" by (metis surj_pair)
  let ?batch = "take publish_batch (unpublished (tables w))"
  obtain j k new where k: "j \<le> k" "stream' = stream @ new" "list_all2 (sent_as wr) (take k ?batch) new"
    "event_outbox (tables w') = mark_all (now w) (ev_id ` set (take j ?batch)) (event_outbox (tables w))"
    "fresh w' = fresh w"
    using publish_prefix [OF run] unfolding published_prefix_def by auto
  note inv = outbox_invD [OF assms]
  have sub: "set ?batch \<subseteq> set (event_outbox (tables w))"
    by (auto simp: unpublished_def table_simps dest: in_set_takeD)
  have new: "\<exists>m \<in> set new. sent_as wr r m" if "r \<in> set (take k ?batch)" for r
    using k(3) that by (induction rule: list_all2_induct) auto
  have "outbox_inv wr (w', stream')"
  proof (rule outbox_inv_update [OF assms k(4) [unfolded mark_all_def]])
    show "\<forall>r \<in> set (event_outbox (tables w)). (ev_id r \<in> ev_id ` set (take j ?batch) \<and> ev_published r = None) \<and>
        Some (now w) \<noteq> None \<longrightarrow> (\<exists>m \<in> set stream'. sent_as wr r m)"
    proof (intro ballI impI)
      fix r assume r: "r \<in> set (event_outbox (tables w))"
        "(ev_id r \<in> ev_id ` set (take j ?batch) \<and> ev_published r = None) \<and> Some (now w) \<noteq> None"
      then obtain r' where r': "r' \<in> set (take j ?batch)" "ev_id r' = ev_id r" by auto
      then have "r' \<in> set (event_outbox (tables w))" using sub by (meson in_mono in_set_takeD)
      then have "r' = r" using key_unique_same [OF inv(2)] r(1) r'(2) by blast
      moreover have "r' \<in> set (take k ?batch)" using set_take_subset_set_take [OF k(1), of ?batch] r'(1) by blast
      ultimately have "r \<in> set (take k ?batch)" by (simp only:)
      from new [OF this] show "\<exists>m \<in> set stream'. sent_as wr r m" unfolding k(2) set_append by blast
    qed
    show "\<forall>m \<in> set stream' - set stream. \<exists>r \<in> set (event_outbox (tables w)). sent_as wr r m"
    proof
      fix m assume "m \<in> set stream' - set stream"
      then have "m \<in> set new" using k(2) by auto
      from all2_right [OF k(3) this] show "\<exists>r \<in> set (event_outbox (tables w)). sent_as wr r m"
        using sub by (meson in_mono in_set_takeD)
    qed
  qed (use k in auto)
  then show ?thesis by (simp add: run)
qed

lemma outbox_inv_step: "outbox_step wr encode_ack s s' \<Longrightarrow> outbox_inv wr s \<Longrightarrow> outbox_inv wr s'"
proof (induction rule: outbox_step.induct)
  case (step_publish s)
  then show ?case by (cases s) (simp add: outbox_inv_publish)
next
  case (step_time w at stream fs)
  then show ?case by (simp add: outbox_inv_def)
qed (blast intro: outbox_inv_evolves enqueue_evolves acknowledge_evolves)+

text \<open>
  C40: in every history of queueing, acknowledging, publishing and waiting, under every pattern of
  faults, there is at most one row per natural key, every fact marked published is in the stream, and
  two messages of the stream with the same \<open>Nats-Msg-Id\<close> are the same message: a re-armed or repeated
  publication is one the broker may drop.
\<close>

theorem outbox_history_sound:
  assumes "(outbox_step wr encode_ack)\<^sup>*\<^sup>* (w, []) (w', stream)" and "event_outbox (tables w) = []"
    and "fresh w' \<le> 2 ^ 128"
  shows "key_unique ev_key (event_outbox (tables w')) \<and>
    (\<forall>r \<in> set (event_outbox (tables w')). ev_published r \<noteq> None \<longrightarrow> (\<exists>m \<in> set stream. sent_as wr r m)) \<and>
    (\<forall>m \<in> set stream. \<forall>m' \<in> set stream. ms_id m = ms_id m' \<longrightarrow> m = m')"
proof -
  have "outbox_inv wr (w, [])" using assms(2) by (simp add: outbox_inv_def key_unique_def)
  with assms(1) have inv: "outbox_inv wr (w', stream)"
    by (induction rule: rtranclp_induct) (auto intro: outbox_inv_step)
  note inv' = outbox_invD [OF inv]
  have "m = m'" if mm: "m \<in> set stream" "m' \<in> set stream" "ms_id m = ms_id m'" for m m'
  proof -
    obtain r r' where r: "r \<in> set (event_outbox (tables w'))" "sent_as wr r m"
      "r' \<in> set (event_outbox (tables w'))" "sent_as wr r' m'" using inv'(5) [OF mm(1)] inv'(5) [OF mm(2)] by auto
    then have "uuid_text (ev_id r) = uuid_text (ev_id r')" using mm(3) by (metis sent_as_id)
    moreover have "ev_id r < 2 ^ 128" "ev_id r' < 2 ^ 128" 
      using inv'(3) [OF r(1)] inv'(3) [OF r(3)] assms(3) by simp_all
    ultimately have "ev_id r = ev_id r'" by (metis uuid_text_inject)
    then have "r = r'" using key_unique_same [OF inv'(2)] r by blast
    then show ?thesis using r sent_as_same by blast
  qed
  then show ?thesis using inv'(1,4) by blast
qed

theorem outbox_history_sound_witness:
  "\<exists>w' m. (outbox_step sample_wire (\<lambda>_ _. None))\<^sup>*\<^sup>* (empty_world, []) (w', [m]) \<and>
     key_unique ev_key (event_outbox (tables w'))"
proof -
  let ?step = "outbox_step sample_wire (\<lambda>_ _. None)"
  have "\<exists>s'. publish_event_outbox sample_wire (queued_world, []) = (Inr 1, s')"
    using publish_event_outbox_works [OF queued_readable, of "[]"]
    by (auto simp: queued_unpublished publish_batch_def)
  then obtain s' where run: "publish_event_outbox sample_wire (queued_world, []) = (Inr 1, s')" by blast
  have "list_all2 (sent_as sample_wire) [event_of_fact 1 0 sample_fact] (snd s')"
    and fresh: "fresh (fst s') = fresh queued_world"
    using publish_prefix [OF run] by (auto simp: published_prefix_def queued_unpublished publish_batch_def le_Suc_eq)
  then obtain m where m: "s' = (fst s', [m])" by (auto simp: list_all2_Cons1 prod_eq_iff)
  have "?step (empty_world, []) (queued_world, [])"
    unfolding queued_world_def by (rule step_enqueue)
  moreover have "?step (queued_world, []) (fst s', [m])"
    using step_publish [of sample_wire "\<lambda>_ _. None" "(queued_world, [])"] run m by simp
  ultimately have steps: "?step\<^sup>*\<^sup>* (empty_world, []) (fst s', [m])" by (meson r_into_rtranclp rtranclp_trans)
  have "fresh (fst s') \<le> 2 ^ 128" using fresh by (simp add: queued_world_eq)
  then have "key_unique ev_key (event_outbox (tables (fst s')))"
    using outbox_history_sound [OF steps] by (simp add: empty_db_def)
  then show ?thesis using steps by blast
qed

end
