(* ===== verification/Redelivery.thy ===== *)
theory Redelivery
  imports Prelude
begin

text \<open>
  The delay before a failed delivery is delivered again (\<open>redelivery.rs\<close>). A \<open>Duration\<close> is a number of
  nanoseconds, at most \<open>Duration::MAX\<close>; a delivery count is a 64-bit signed integer.
\<close>

definition duration_max :: nat where
  "duration_max = 2 ^ 64 * 10 ^ 9 - 1"

record redelivery_schedule =
  rd_base :: nat
  rd_cap :: nat

definition redelivery_standard :: redelivery_schedule where
  "redelivery_standard = \<lparr>rd_base = 2 * 10 ^ 9, rd_cap = 60 * 10 ^ 9\<rparr>"

definition max_exponent :: int where
  "max_exponent = 20"

definition redelivery_exponent :: "int \<Rightarrow> nat" where
  "redelivery_exponent delivered = nat (min (max (max (delivered - 1) (- (2 ^ 63))) 0) max_exponent)"

definition redelivery_delay :: "redelivery_schedule \<Rightarrow> int \<Rightarrow> nat" where
  "redelivery_delay s delivered =
     min (min (rd_base s * 2 ^ redelivery_exponent delivered) duration_max) (rd_cap s)"

lemma redelivery_exponent_first: "d \<le> 1 \<Longrightarrow> redelivery_exponent d = 0"
  by (simp add: redelivery_exponent_def max_exponent_def)

lemma redelivery_exponent_bound: "redelivery_exponent d \<le> 20"
  by (simp add: redelivery_exponent_def max_exponent_def)

lemma redelivery_exponent_mono: "d \<le> d' \<Longrightarrow> redelivery_exponent d \<le> redelivery_exponent d'"
  by (simp add: redelivery_exponent_def max_exponent_def)

lemma redelivery_exponent_next: "1 \<le> d \<Longrightarrow> redelivery_exponent (d + 1) = min (redelivery_exponent d + 1) 20"
  by (auto simp: redelivery_exponent_def max_exponent_def nat_eq_iff)

text \<open>
  The delay of a schedule that reaches its cap doubles with every delivery from the base and stays
  at the cap, never decreases, is the base for a missing count, and no multiplication saturates below
  the cap.
\<close>

theorem redelivery_delay_doubles:
  assumes "rd_cap s \<le> rd_base s * 2 ^ 20" and "rd_cap s \<le> duration_max"
  shows "(d \<le> 1 \<longrightarrow> redelivery_delay s d = min (rd_base s) (rd_cap s)) \<and>
    (1 \<le> d \<longrightarrow> redelivery_delay s (d + 1) = min (2 * redelivery_delay s d) (rd_cap s)) \<and>
    (d \<le> d' \<longrightarrow> redelivery_delay s d \<le> redelivery_delay s d')"
proof (intro conjI impI)
  have plain: "redelivery_delay s d = min (rd_base s * 2 ^ redelivery_exponent d) (rd_cap s)" for d
    using assms(2) by (simp add: redelivery_delay_def min_def)
  show "redelivery_delay s d = min (rd_base s) (rd_cap s)" if "d \<le> 1"
    using that by (simp add: plain redelivery_exponent_first)
  show "redelivery_delay s d \<le> redelivery_delay s d'" if "d \<le> d'"
  proof -
    have "(2::nat) ^ redelivery_exponent d \<le> 2 ^ redelivery_exponent d'"
      using redelivery_exponent_mono [OF that] by simp
    then show ?thesis unfolding plain by (intro min.mono mult_le_mono) simp_all
  qed
  show "redelivery_delay s (d + 1) = min (2 * redelivery_delay s d) (rd_cap s)" if "1 \<le> d"
  proof (cases "redelivery_exponent d = 20")
    case True
    then show ?thesis
      using assms(1) redelivery_exponent_next [OF that] unfolding plain by (auto simp: min_def)
  next
    case False
    then have "redelivery_exponent (d + 1) = Suc (redelivery_exponent d)"
      using redelivery_exponent_next [OF that] redelivery_exponent_bound [of d] by simp
    then show ?thesis unfolding plain by (auto simp: min_def)
  qed
qed

theorem redelivery_delay_doubles_witness:
  "redelivery_delay redelivery_standard 6 = min (2 * redelivery_delay redelivery_standard 5) (60 * 10 ^ 9)"
  using redelivery_delay_doubles [of redelivery_standard 5]
  by (simp add: redelivery_standard_def duration_max_def)

end
