(* ===== verification/Foreign_Keys.thy ===== *)
theory Foreign_Keys
  imports First_Wins
begin

text \<open>
  The foreign keys of \<open>schema.sql\<close>. A reference with no action must hold when a statement ends, else
  the statement fails; a reference \<open>on delete cascade\<close> takes its row with the row it names.
\<close>

definition refers :: "('c \<Rightarrow> 'k) \<Rightarrow> 'c list \<Rightarrow> ('p \<Rightarrow> 'k) \<Rightarrow> 'p list \<Rightarrow> bool" where
  "refers key cs pkey ps = list_all (\<lambda>c. key c \<in> pkey ` set ps) cs"

definition analysis_fk :: "db \<Rightarrow> bool" where
  "analysis_fk t =
     (refers ar_source (analysis_runs t) sr_id (source_refs t) \<and>
      refers at_run (analysis_attempts t) ar_id (analysis_runs t) \<and>
      refers ao_run (analysis_outputs t) ar_id (analysis_runs t) \<and>
      refers pi_source (projection_inputs t) sr_id (source_refs t) \<and>
      refers pi_output (projection_inputs t) ao_id (analysis_outputs t) \<and>
      refers sd_source (search_documents t) sr_id (source_refs t) \<and>
      refers ec_source (embedding_chunks t) sr_id (source_refs t) \<and>
      refers ec_output (embedding_chunks t) ao_id (analysis_outputs t) \<and>
      refers ef_source (embedding_failures t) sr_id (source_refs t))"

definition recap_fk :: "db \<Rightarrow> bool" where
  "recap_fk t =
     (refers rn_command (recap_runs t) ci_command (recap_inbox t) \<and>
      refers rm_run (recap_manifests t) rn_id (recap_runs t) \<and>
      refers ra_run (recap_attempts t) rn_id (recap_runs t) \<and>
      refers rs_run (recap_results t) rn_id (recap_runs t) \<and>
      refers ro_run (recap_outbox t) rn_id (recap_runs t))"

definition inbox_fk :: "db \<Rightarrow> bool" where
  "inbox_fk t = refers hd_event (source_analysis_heads t) in_event (source_analysis_inbox t)"

definition restrict_fk :: "db \<Rightarrow> bool" where
  "restrict_fk t = (analysis_fk t \<and> recap_fk t \<and> inbox_fk t)"

text \<open>The cascades: user content goes with the tag, collection, output or source it names.\<close>

definition cascade_outputs :: "uuid set \<Rightarrow> db \<Rightarrow> db" where
  "cascade_outputs ids t = t\<lparr>
     analysis_taggings := delete_where (\<lambda>r. tt_output r \<in> ids) (analysis_taggings t),
     collection_items := delete_where (\<lambda>r. \<exists>i \<in> ids. it_output r = Some i) (collection_items t),
     user_states := delete_where (\<lambda>r. us_output r \<in> ids) (user_states t),
     highlights := delete_where (\<lambda>r. hl_output r \<in> ids) (highlights t),
     analysis_feedback := delete_where (\<lambda>r. fb_output r \<in> ids) (analysis_feedback t)\<rparr>"

definition cascade_sources :: "uuid set \<Rightarrow> db \<Rightarrow> db" where
  "cascade_sources ids t = t\<lparr>
     collection_items := delete_where (\<lambda>r. \<exists>i \<in> ids. it_source r = Some i) (collection_items t),
     highlights := delete_where (\<lambda>r. hl_source r \<in> ids) (highlights t)\<rparr>"

definition cascade_tags :: "uuid set \<Rightarrow> db \<Rightarrow> db" where
  "cascade_tags ids t = t\<lparr>analysis_taggings := delete_where (\<lambda>r. tt_tag r \<in> ids) (analysis_taggings t)\<rparr>"

definition cascade_collections :: "uuid set \<Rightarrow> db \<Rightarrow> db" where
  "cascade_collections ids t = t\<lparr>collection_items := delete_where (\<lambda>r. it_collection r \<in> ids) (collection_items t)\<rparr>"

text \<open>
  \<open>delete from\<close> one table: \<open>get\<close> reads it, \<open>upd\<close> writes it, \<open>cascade\<close> is applied to the deleted rows.
  The number of rows of the table itself is what the statement reports.
\<close>

definition delete_rows ::
  "'e \<Rightarrow> (db \<Rightarrow> 'r list) \<Rightarrow> (('r list \<Rightarrow> 'r list) \<Rightarrow> db \<Rightarrow> db) \<Rightarrow> ('r list \<Rightarrow> db \<Rightarrow> db) \<Rightarrow> (db \<Rightarrow> 'r \<Rightarrow> bool) \<Rightarrow>
   (world, 'e, nat) exec" where
  "delete_rows e get upd cascade p = sql e (\<lambda>t.
     let t' = cascade (select_where (p t) (get t)) (upd (delete_where (p t)) t) in
     if restrict_fk t' then Inr (count_where (p t) (get t), t') else Inl e)"

abbreviation no_cascade :: "'r list \<Rightarrow> db \<Rightarrow> db" where
  "no_cascade rs t \<equiv> t"

lemma refers_iff: "refers key cs pkey ps \<longleftrightarrow> (\<forall>c \<in> set cs. \<exists>p \<in> set ps. pkey p = key c)"
  unfolding refers_def list_all_iff image_iff by metis

lemma refers_delete_child: "refers key cs pkey ps \<Longrightarrow> refers key (delete_where q cs) pkey ps"
  by (auto simp: refers_iff table_simps)

lemma refers_delete_parent:
  "refers key cs pkey ps \<Longrightarrow> \<forall>c \<in> set cs. \<forall>p \<in> set ps. q p \<longrightarrow> pkey p \<noteq> key c \<Longrightarrow> refers key cs pkey (delete_where q ps)"
  by (fastforce simp: refers_iff table_simps)

lemma delete_rows_result:
  assumes "delete_rows e get upd cascade p w = (r, w')"
  shows "disk w' = disk w \<and> now w' = now w \<and> fresh w' = fresh w \<and>
    (tables w' = tables w \<or>
     tables w' = cascade (select_where (p (tables w)) (get (tables w))) (upd (delete_where (p (tables w))) (tables w)))"
    and "r = Inr n \<Longrightarrow>
     tables w' = cascade (select_where (p (tables w)) (get (tables w))) (upd (delete_where (p (tables w))) (tables w)) \<and>
     n = count_where (p (tables w)) (get (tables w)) \<and> restrict_fk (tables w')"
  using assms by (auto simp: delete_rows_def sql_def Let_def tick_def split: if_splits)

lemma unchanged_delete_rows [unchanged_rules]:
  "database_free g \<Longrightarrow> unchanged g (delete_rows e get upd cascade p)"
  unfolding delete_rows_def by (rule unchanged_sql)

lemma delete_rows_works:
  "no_faults w \<Longrightarrow> restrict_fk (cascade (select_where (p (tables w)) (get (tables w))) (upd (delete_where (p (tables w))) (tables w))) \<Longrightarrow>
   delete_rows e get upd cascade p w =
     (Inr (count_where (p (tables w)) (get (tables w))),
      w\<lparr>tables := cascade (select_where (p (tables w)) (get (tables w))) (upd (delete_where (p (tables w))) (tables w))\<rparr>)"
  by (simp add: delete_rows_def sql_works Let_def)

end
