(* ===== verification/Deletion.thy ===== *)
theory Deletion
  imports Foreign_Keys Blob_Store
begin

text \<open>
  Privacy deletion (\<open>deletion.rs\<close>, \<open>deletion_state.rs\<close>, \<open>deletion_recap.rs\<close>, \<open>deletion_audit.rs\<close>,
  \<open>deletion_blobs.rs\<close>): the rows of a scope go child first in one transaction with the digests to
  erase and the audit row; the erasure queue is drained afterwards.
\<close>

section \<open>Scopes\<close>

datatype deletion_scope =
  ScopeTenant string | ScopeSource string string string | ScopeArchive string string

fun scope_as_str :: "deletion_scope \<Rightarrow> string" where
  "scope_as_str (ScopeTenant _) = ''tenant''"
| "scope_as_str (ScopeSource _ _ _) = ''source''"
| "scope_as_str (ScopeArchive _ _) = ''archive''"

fun scope_tenant :: "deletion_scope \<Rightarrow> string" where
  "scope_tenant (ScopeTenant tn) = tn"
| "scope_tenant (ScopeSource tn _ _) = tn"
| "scope_tenant (ScopeArchive tn _) = tn"

fun scope_owner_context :: "deletion_scope \<Rightarrow> string option" where
  "scope_owner_context (ScopeSource _ oc _) = Some oc"
| "scope_owner_context _ = None"

fun scope_ai_archive_id :: "deletion_scope \<Rightarrow> string option" where
  "scope_ai_archive_id (ScopeArchive _ a) = Some a"
| "scope_ai_archive_id _ = None"

fun scope_source_document_id :: "deletion_scope \<Rightarrow> string option" where
  "scope_source_document_id (ScopeSource _ _ doc) = Some doc"
| "scope_source_document_id _ = None"

fun source_in_scope :: "deletion_scope \<Rightarrow> source_ref_row \<Rightarrow> bool" where
  "source_in_scope (ScopeTenant tn) s = (sr_tenant s = tn)"
| "source_in_scope (ScopeSource tn oc doc) s = (sr_tenant s = tn \<and> sr_owner s = oc \<and> sr_document s = doc)"
| "source_in_scope (ScopeArchive tn a) s = (sr_tenant s = tn \<and> sr_archive s = a)"

definition scope_source_ids :: "deletion_scope \<Rightarrow> (world, deletion_error, uuid list) exec" where
  "scope_source_ids scope =
     query DeletionQuery (\<lambda>t. map sr_id (select_where (source_in_scope scope) (source_refs t)))"

abbreviation delete_from ::
  "(db \<Rightarrow> 'r list) \<Rightarrow> (('r list \<Rightarrow> 'r list) \<Rightarrow> db \<Rightarrow> db) \<Rightarrow> ('r \<Rightarrow> bool) \<Rightarrow> (world, deletion_error, nat) exec" where
  "delete_from get upd p \<equiv> delete_rows DeletionQuery get upd no_cascade (\<lambda>_. p)"

section \<open>The digests to erase\<close>

definition runs_of_sources :: "uuid list \<Rightarrow> db \<Rightarrow> uuid list" where
  "runs_of_sources ids t = map ar_id (select_where (\<lambda>r. ar_source r \<in> set ids) (analysis_runs t))"

definition owned :: "blob_ref \<Rightarrow> bool" where
  "owned ref = (br_owner ref = knowledge_owner)"

definition scope_digests :: "uuid list \<Rightarrow> db \<Rightarrow> string list" where
  "scope_digests ids t =
     (let runs = runs_of_sources ids t in
      map br_digest (filter owned
        (List.map_filter at_raw (select_where (\<lambda>a. at_run a \<in> set runs) (analysis_attempts t)) @
         map ao_raw (select_where (\<lambda>r. ao_run r \<in> set runs) (analysis_outputs t)) @
         map sr_blob (select_where (\<lambda>s. sr_id s \<in> set ids) (source_refs t)))))"

text \<open>\<open>insert into blob_erasure_queue ... on conflict (digest_hex) do update set deletion_id\<close>.\<close>

definition enqueue_digest :: "uuid \<Rightarrow> instant \<Rightarrow> string \<Rightarrow> erasure_row list \<Rightarrow> erasure_row list" where
  "enqueue_digest deletion at d =
     upsert (\<lambda>q. eq_digest q = d) (\<lambda>_. True) (\<lambda>q. q\<lparr>eq_deletion := deletion\<rparr>)
       \<lparr>eq_digest = d, eq_deletion = deletion, eq_enqueued = at\<rparr>"

definition enqueue_digests :: "uuid \<Rightarrow> (db \<Rightarrow> string list) \<Rightarrow> (world, deletion_error, unit) exec" where
  "enqueue_digests deletion digests =
     exec_bind get_now (\<lambda>at.
     sql DeletionQuery (\<lambda>t.
       if list_all is_digest_hex (digests t)
       then Inr ((), t\<lparr>erasure_queue := fold (enqueue_digest deletion at) (digests t) (erasure_queue t)\<rparr>)
       else Inl DeletionQuery))"

definition queue_scope_blobs :: "uuid list \<Rightarrow> uuid \<Rightarrow> (world, deletion_error, string list) exec" where
  "queue_scope_blobs ids deletion =
     exec_bind (query DeletionQuery (\<lambda>t. sort (remdups (scope_digests ids t)))) (\<lambda>digests.
     exec_bind (if digests = [] then exec_return () else enqueue_digests deletion (\<lambda>_. digests)) (\<lambda>_.
     query DeletionQuery (\<lambda>t. sort (remdups (map (br_digest \<circ> sr_blob)
       (select_where (\<lambda>s. sr_id s \<in> set ids \<and> br_owner (sr_blob s) \<noteq> knowledge_owner) (source_refs t)))))))"

section \<open>User content\<close>

definition output_children_where :: "deletion_scope \<Rightarrow> uuid list \<Rightarrow> ('r \<Rightarrow> string) \<Rightarrow> ('r \<Rightarrow> uuid) \<Rightarrow> 'r \<Rightarrow> bool" where
  "output_children_where scope outputs tenant_of output_of r =
     (case scope of ScopeTenant tn \<Rightarrow> tenant_of r = tn | _ \<Rightarrow> output_of r \<in> set outputs)"

definition delete_collection_items :: "deletion_scope \<Rightarrow> uuid list \<Rightarrow> uuid list \<Rightarrow> (world, deletion_error, nat) exec" where
  "delete_collection_items scope ids outputs = delete_from collection_items collection_items_update (\<lambda>r.
     case scope of
       ScopeTenant tn \<Rightarrow> it_tenant r = tn
     | _ \<Rightarrow> (\<exists>s \<in> set ids. it_source r = Some s) \<or> (\<exists>i \<in> set outputs. it_output r = Some i))"

definition delete_collections :: "deletion_scope \<Rightarrow> (world, deletion_error, nat) exec" where
  "delete_collections scope =
     (case scope of
        ScopeTenant tn \<Rightarrow> delete_rows DeletionQuery collections collections_update
          (\<lambda>rs. cascade_collections (cl_id ` set rs)) (\<lambda>_ r. cl_tenant r = tn)
      | _ \<Rightarrow> exec_return 0)"

definition delete_tags :: "deletion_scope \<Rightarrow> (world, deletion_error, nat) exec" where
  "delete_tags scope =
     (case scope of
        ScopeTenant tn \<Rightarrow> delete_rows DeletionQuery tags tags_update
          (\<lambda>rs. cascade_tags (tg_id ` set rs)) (\<lambda>_ r. tg_tenant r = tn)
      | _ \<Rightarrow> exec_return 0)"

record user_content_deletion =
  uc_taggings :: nat
  uc_user_states :: nat
  uc_highlights :: nat
  uc_feedback :: nat
  uc_items :: nat
  uc_collections :: nat
  uc_tags :: nat

definition delete_user_content :: "deletion_scope \<Rightarrow> uuid list \<Rightarrow> (world, deletion_error, user_content_deletion) exec" where
  "delete_user_content scope ids =
     exec_bind (query DeletionQuery (\<lambda>t. map ao_id
       (select_where (\<lambda>r. ao_run r \<in> set (runs_of_sources ids t)) (analysis_outputs t)))) (\<lambda>outputs.
     exec_bind (delete_from analysis_taggings analysis_taggings_update
       (output_children_where scope outputs tt_tenant tt_output)) (\<lambda>n1.
     exec_bind (delete_from user_states user_states_update
       (output_children_where scope outputs us_tenant us_output)) (\<lambda>n2.
     exec_bind (delete_from highlights highlights_update
       (output_children_where scope outputs hl_tenant hl_output)) (\<lambda>n3.
     exec_bind (delete_from analysis_feedback analysis_feedback_update
       (output_children_where scope outputs fb_tenant fb_output)) (\<lambda>n4.
     exec_bind (delete_collection_items scope ids outputs) (\<lambda>n5.
     exec_bind (delete_collections scope) (\<lambda>n6.
     exec_bind (delete_tags scope) (\<lambda>n7.
     exec_return \<lparr>uc_taggings = n1, uc_user_states = n2, uc_highlights = n3, uc_feedback = n4,
       uc_items = n5, uc_collections = n6, uc_tags = n7\<rparr>))))))))"

section \<open>Inbox state\<close>

definition tombstone_subject :: string where
  "tombstone_subject = ''ai_archive.subject.tombstoned.v1''"

record inbox_state_counts =
  ic_inbox :: nat
  ic_heads :: nat
  ic_objects :: nat
  ic_requests :: nat
  ic_archive_tombstones :: nat
  ic_social_tombstones :: nat
  ic_outbox :: nat
  ic_notes_files :: nat
  ic_notes_disconnections :: nat

definition delete_tenant_state :: "string \<Rightarrow> (world, deletion_error, inbox_state_counts) exec" where
  "delete_tenant_state tn =
     exec_bind (delete_from source_analysis_heads source_analysis_heads_update (\<lambda>r. hd_tenant r = tn)) (\<lambda>heads.
     exec_bind (delete_from source_analysis_inbox source_analysis_inbox_update (\<lambda>r. in_tenant r = tn)) (\<lambda>inbox.
     exec_bind (delete_from object_inbox object_inbox_update (\<lambda>r. ob_tenant r = tn)) (\<lambda>objects.
     exec_bind (delete_from repository_requests repository_requests_update (\<lambda>r. rq_tenant r = tn)) (\<lambda>requests.
     exec_bind (delete_from ai_archive_tombstones ai_archive_tombstones_update (\<lambda>r. tb_tenant r = tn)) (\<lambda>archive.
     exec_bind (delete_from social_tombstones social_tombstones_update (\<lambda>r. so_tenant r = tn)) (\<lambda>social.
     exec_bind (delete_from event_outbox event_outbox_update (\<lambda>r. ev_tenant r = tn)) (\<lambda>events.
     exec_bind (delete_from notes_files notes_files_update (\<lambda>r. nf_tenant r = tn)) (\<lambda>files.
     exec_bind (delete_from notes_disconnections notes_disconnections_update (\<lambda>r. nd_tenant r = tn)) (\<lambda>disconnections.
     exec_return \<lparr>ic_inbox = inbox, ic_heads = heads, ic_objects = objects, ic_requests = requests,
       ic_archive_tombstones = archive, ic_social_tombstones = social, ic_outbox = events,
       ic_notes_files = files, ic_notes_disconnections = disconnections\<rparr>)))))))))"

definition delete_source_state :: "string \<Rightarrow> string \<Rightarrow> (world, deletion_error, inbox_state_counts) exec" where
  "delete_source_state tn doc =
     exec_bind (delete_from source_analysis_heads source_analysis_heads_update
       (\<lambda>r. hd_tenant r = tn \<and> hd_source r = doc)) (\<lambda>heads.
     exec_bind (delete_from source_analysis_inbox source_analysis_inbox_update
       (\<lambda>r. in_tenant r = tn \<and> in_source r = doc \<and> in_subject r \<noteq> tombstone_subject)) (\<lambda>inbox.
     exec_bind (delete_from object_inbox object_inbox_update (\<lambda>r. ob_tenant r = tn \<and> ob_id r = doc)) (\<lambda>objects.
     exec_bind (delete_from repository_requests repository_requests_update
       (\<lambda>r. rq_tenant r = tn \<and> uuid_text (rq_repository r) = doc)) (\<lambda>requests.
     exec_return \<lparr>ic_inbox = inbox, ic_heads = heads, ic_objects = objects, ic_requests = requests,
       ic_archive_tombstones = 0, ic_social_tombstones = 0, ic_outbox = 0, ic_notes_files = 0,
       ic_notes_disconnections = 0\<rparr>))))"

definition delete_archive_state :: "string \<Rightarrow> string \<Rightarrow> (world, deletion_error, inbox_state_counts) exec" where
  "delete_archive_state tn a =
     exec_bind (delete_rows DeletionQuery source_analysis_heads source_analysis_heads_update no_cascade
       (\<lambda>t r. hd_tenant r = tn \<and> exists_where (\<lambda>i. in_event i = hd_event r \<and> in_archive i = Some a \<and>
          in_subject i \<noteq> tombstone_subject) (source_analysis_inbox t))) (\<lambda>heads.
     exec_bind (delete_from source_analysis_inbox source_analysis_inbox_update
       (\<lambda>r. in_tenant r = tn \<and> in_archive r = Some a \<and> in_subject r \<noteq> tombstone_subject)) (\<lambda>inbox.
     exec_bind (delete_from object_inbox object_inbox_update (\<lambda>r. ob_tenant r = tn \<and> ob_archive r = a)) (\<lambda>objects.
     exec_return \<lparr>ic_inbox = inbox, ic_heads = heads, ic_objects = objects, ic_requests = 0,
       ic_archive_tombstones = 0, ic_social_tombstones = 0, ic_outbox = 0, ic_notes_files = 0,
       ic_notes_disconnections = 0\<rparr>)))"

definition delete_inbox_state :: "deletion_scope \<Rightarrow> (world, deletion_error, inbox_state_counts) exec" where
  "delete_inbox_state scope =
     (case scope of
        ScopeTenant tn \<Rightarrow> delete_tenant_state tn
      | ScopeSource tn _ doc \<Rightarrow> delete_source_state tn doc
      | ScopeArchive tn a \<Rightarrow> delete_archive_state tn a)"

definition inbox_state_survivors :: "deletion_scope \<Rightarrow> (world, deletion_error, nat) exec" where
  "inbox_state_survivors scope = query DeletionQuery (\<lambda>t.
     case scope of
       ScopeTenant tn \<Rightarrow>
         count_where (\<lambda>r. hd_tenant r = tn) (source_analysis_heads t) +
         count_where (\<lambda>r. in_tenant r = tn) (source_analysis_inbox t) +
         count_where (\<lambda>r. ob_tenant r = tn) (object_inbox t) +
         count_where (\<lambda>r. rq_tenant r = tn) (repository_requests t) +
         count_where (\<lambda>r. tb_tenant r = tn) (ai_archive_tombstones t) +
         count_where (\<lambda>r. so_tenant r = tn) (social_tombstones t) +
         count_where (\<lambda>r. ev_tenant r = tn) (event_outbox t) +
         count_where (\<lambda>r. nf_tenant r = tn) (notes_files t) +
         count_where (\<lambda>r. nd_tenant r = tn) (notes_disconnections t)
     | ScopeSource tn _ doc \<Rightarrow>
         count_where (\<lambda>r. hd_tenant r = tn \<and> hd_source r = doc) (source_analysis_heads t) +
         count_where (\<lambda>r. in_tenant r = tn \<and> in_source r = doc \<and> in_subject r \<noteq> tombstone_subject)
           (source_analysis_inbox t) +
         count_where (\<lambda>r. ob_tenant r = tn \<and> ob_id r = doc) (object_inbox t) +
         count_where (\<lambda>r. rq_tenant r = tn \<and> uuid_text (rq_repository r) = doc) (repository_requests t)
     | ScopeArchive tn a \<Rightarrow>
         count_where (\<lambda>r. in_tenant r = tn \<and> in_archive r = Some a \<and> in_subject r \<noteq> tombstone_subject)
           (source_analysis_inbox t) +
         count_where (\<lambda>r. ob_tenant r = tn \<and> ob_archive r = a) (object_inbox t))"

section \<open>Recap state\<close>

definition recap_runs_of :: "string \<Rightarrow> db \<Rightarrow> uuid list" where
  "recap_runs_of owner t = map rn_id (select_where (\<lambda>r. rn_owner r = owner) (recap_runs t))"

definition recap_scope_digests :: "string \<Rightarrow> db \<Rightarrow> string list" where
  "recap_scope_digests owner t = remdups (map br_digest (filter owned
     (List.map_filter ra_raw (select_where (\<lambda>a. ra_run a \<in> set (recap_runs_of owner t)) (recap_attempts t)))))"

definition delete_recap_rows :: "string \<Rightarrow> (world, deletion_error, nat) exec" where
  "delete_recap_rows owner =
     exec_bind (delete_rows DeletionQuery recap_outbox recap_outbox_update no_cascade
       (\<lambda>t r. ro_run r \<in> set (recap_runs_of owner t))) (\<lambda>n1.
     exec_bind (delete_rows DeletionQuery recap_results recap_results_update no_cascade
       (\<lambda>t r. rs_run r \<in> set (recap_runs_of owner t))) (\<lambda>n2.
     exec_bind (delete_rows DeletionQuery recap_attempts recap_attempts_update no_cascade
       (\<lambda>t r. ra_run r \<in> set (recap_runs_of owner t))) (\<lambda>n3.
     exec_bind (delete_rows DeletionQuery recap_manifests recap_manifests_update no_cascade
       (\<lambda>t r. rm_run r \<in> set (recap_runs_of owner t))) (\<lambda>n4.
     exec_bind (delete_from recap_runs recap_runs_update (\<lambda>r. rn_owner r = owner)) (\<lambda>n5.
     exec_bind (delete_from recap_inbox recap_inbox_update (\<lambda>r. ci_owner r = owner)) (\<lambda>n6.
     exec_return (n1 + n2 + n3 + n4 + n5 + n6)))))))"

definition delete_recap_state :: "deletion_scope \<Rightarrow> uuid \<Rightarrow> (world, deletion_error, nat) exec" where
  "delete_recap_state scope deletion =
     (case scope of
        ScopeTenant tn \<Rightarrow> exec_bind (enqueue_digests deletion (recap_scope_digests tn)) (\<lambda>_. delete_recap_rows tn)
      | _ \<Rightarrow> exec_return 0)"

definition recap_state_survivors :: "deletion_scope \<Rightarrow> (world, deletion_error, nat) exec" where
  "recap_state_survivors scope =
     (case scope of
        ScopeTenant tn \<Rightarrow> query DeletionQuery (\<lambda>t.
          count_where (\<lambda>r. ci_owner r = tn) (recap_inbox t) +
          count_where (\<lambda>r. rn_owner r = tn) (recap_runs t) +
          count_where (\<lambda>r. rm_owner r = tn) (recap_manifests t))
      | _ \<Rightarrow> exec_return 0)"

section \<open>Analysis rows\<close>

record analysis_row_counts =
  rc_attempts :: nat
  rc_outputs :: nat
  rc_runs :: nat
  rc_sources :: nat

definition scoped_by :: "deletion_scope \<Rightarrow> uuid list \<Rightarrow> ('r \<Rightarrow> string) \<Rightarrow> ('r \<Rightarrow> uuid) \<Rightarrow> 'r \<Rightarrow> bool" where
  "scoped_by scope ids tenant_of source_of r =
     (case scope of ScopeTenant tn \<Rightarrow> tenant_of r = tn | _ \<Rightarrow> source_of r \<in> set ids)"

definition delete_by_scope ::
  "deletion_scope \<Rightarrow> uuid list \<Rightarrow> (db \<Rightarrow> 'r list) \<Rightarrow> (('r list \<Rightarrow> 'r list) \<Rightarrow> db \<Rightarrow> db) \<Rightarrow>
   ('r \<Rightarrow> string) \<Rightarrow> ('r \<Rightarrow> uuid) \<Rightarrow> (world, deletion_error, nat) exec" where
  "delete_by_scope scope ids get upd tenant_of source_of =
     delete_from get upd (scoped_by scope ids tenant_of source_of)"

definition delete_analysis_rows :: "uuid list \<Rightarrow> (world, deletion_error, analysis_row_counts) exec" where
  "delete_analysis_rows ids =
     exec_bind (delete_rows DeletionQuery analysis_attempts analysis_attempts_update no_cascade
       (\<lambda>t r. at_run r \<in> set (runs_of_sources ids t))) (\<lambda>n1.
     exec_bind (delete_rows DeletionQuery analysis_outputs analysis_outputs_update
       (\<lambda>rs. cascade_outputs (ao_id ` set rs)) (\<lambda>t r. ao_run r \<in> set (runs_of_sources ids t))) (\<lambda>n2.
     exec_bind (delete_from analysis_runs analysis_runs_update (\<lambda>r. ar_source r \<in> set ids)) (\<lambda>n3.
     exec_bind (delete_rows DeletionQuery source_refs source_refs_update
       (\<lambda>rs. cascade_sources (sr_id ` set rs)) (\<lambda>_ r. sr_id r \<in> set ids)) (\<lambda>n4.
     exec_return \<lparr>rc_attempts = n1, rc_outputs = n2, rc_runs = n3, rc_sources = n4\<rparr>))))"

section \<open>The audit row\<close>

definition audited_counts :: "deletion_counts \<Rightarrow> nat list" where
  "audited_counts c =
     [dc_source_refs c, dc_runs c, dc_attempts c, dc_outputs c, dc_projection_inputs c, dc_search_documents c,
      dc_chunks c, dc_failures c, dc_tags c, dc_taggings c, dc_collections c, dc_collection_items c,
      dc_user_states c, dc_highlights c, dc_feedback c, dc_inbox c, dc_heads c, dc_object_inbox c,
      dc_requests c, dc_archive_tombstones c, dc_social_tombstones c, dc_outbox c, dc_recap_rows c,
      dc_notes_files c, dc_notes_disconnections c]"

definition i32_count :: "nat \<Rightarrow> bool" where
  "i32_count n = (n < 2 ^ 31)"

definition audit_row :: "uuid \<Rightarrow> deletion_scope \<Rightarrow> deletion_counts \<Rightarrow> deletion_row" where
  "audit_row deletion scope counts =
     \<lparr>dr_id = deletion, dr_tenant = scope_tenant scope, dr_scope = scope_as_str scope,
      dr_owner = scope_owner_context scope, dr_archive = scope_ai_archive_id scope,
      dr_document = scope_source_document_id scope, dr_counts = counts, dr_blobs_removed = 0\<rparr>"

definition insert_audit_row :: "uuid \<Rightarrow> deletion_scope \<Rightarrow> deletion_counts \<Rightarrow> (world, deletion_error, unit) exec" where
  "insert_audit_row deletion scope counts =
     exec_bind (exec_guard (list_all i32_count (audited_counts counts)) DeletionOverflow) (\<lambda>_.
     execute DeletionQuery (\<lambda>t. t\<lparr>deletion_records := deletion_records t @ [audit_row deletion scope counts]\<rparr>))"

section \<open>One deletion\<close>

record committed_deletion =
  cd_counts :: deletion_counts
  cd_deletion :: uuid
  cd_external :: "string list"

definition run_child_first_deletion :: "deletion_scope \<Rightarrow> (world, deletion_error, committed_deletion) exec" where
  "run_child_first_deletion scope =
     exec_bind new_uuid (\<lambda>deletion.
     exec_bind (scope_source_ids scope) (\<lambda>ids.
     exec_bind (queue_scope_blobs ids deletion) (\<lambda>external.
     exec_bind (delete_user_content scope ids) (\<lambda>user.
     exec_bind (delete_inbox_state scope) (\<lambda>inbox.
     exec_bind (delete_recap_state scope deletion) (\<lambda>recap.
     exec_bind (delete_by_scope scope ids embedding_failures embedding_failures_update ef_tenant ef_source) (\<lambda>failures.
     exec_bind (delete_by_scope scope ids embedding_chunks embedding_chunks_update ec_tenant ec_source) (\<lambda>chunks.
     exec_bind (delete_by_scope scope ids search_documents search_documents_update sd_tenant sd_source) (\<lambda>documents.
     exec_bind (delete_by_scope scope ids projection_inputs projection_inputs_update pi_tenant pi_source) (\<lambda>inputs.
     exec_bind (delete_analysis_rows ids) (\<lambda>analysis.
     let counts = \<lparr>dc_tags = uc_tags user, dc_taggings = uc_taggings user, dc_collections = uc_collections user,
       dc_collection_items = uc_items user, dc_user_states = uc_user_states user,
       dc_highlights = uc_highlights user, dc_feedback = uc_feedback user,
       dc_source_refs = rc_sources analysis, dc_runs = rc_runs analysis, dc_attempts = rc_attempts analysis,
       dc_outputs = rc_outputs analysis, dc_search_documents = documents, dc_projection_inputs = inputs,
       dc_chunks = chunks, dc_failures = failures, dc_inbox = ic_inbox inbox, dc_heads = ic_heads inbox,
       dc_object_inbox = ic_objects inbox, dc_requests = ic_requests inbox,
       dc_archive_tombstones = ic_archive_tombstones inbox, dc_social_tombstones = ic_social_tombstones inbox,
       dc_notes_files = ic_notes_files inbox, dc_notes_disconnections = ic_notes_disconnections inbox,
       dc_recap_rows = recap, dc_outbox = ic_outbox inbox\<rparr> in
     exec_bind (insert_audit_row deletion scope counts) (\<lambda>_.
     exec_return \<lparr>cd_counts = counts, cd_deletion = deletion, cd_external = external\<rparr>))))))))))))"

definition finalize_audit_blob_count :: "uuid \<Rightarrow> nat \<Rightarrow> (world, deletion_error, unit) exec" where
  "finalize_audit_blob_count deletion removed =
     exec_bind (exec_guard (i32_count removed) DeletionOverflow) (\<lambda>_.
     execute DeletionQuery (\<lambda>t. t\<lparr>deletion_records :=
       update_where (\<lambda>r. dr_id r = deletion) (\<lambda>r. r\<lparr>dr_blobs_removed := removed\<rparr>) (deletion_records t)\<rparr>))"

definition tenant_strays :: "string \<Rightarrow> db \<Rightarrow> nat" where
  "tenant_strays tn t =
     count_where (\<lambda>r. ef_tenant r = tn) (embedding_failures t) +
     count_where (\<lambda>r. ec_tenant r = tn) (embedding_chunks t) +
     count_where (\<lambda>r. pi_tenant r = tn) (projection_inputs t) +
     count_where (\<lambda>r. sd_tenant r = tn) (search_documents t) +
     count_where (\<lambda>r. tg_tenant r = tn) (tags t) +
     count_where (\<lambda>r. cl_tenant r = tn) (collections t) +
     count_where (\<lambda>r. it_tenant r = tn) (collection_items t) +
     count_where (\<lambda>r. us_tenant r = tn) (user_states t) +
     count_where (\<lambda>r. hl_tenant r = tn) (highlights t) +
     count_where (\<lambda>r. fb_tenant r = tn) (analysis_feedback t)"

definition verify_scope_empty :: "deletion_scope \<Rightarrow> (world, deletion_error, unit) exec" where
  "verify_scope_empty scope =
     exec_bind (scope_source_ids scope) (\<lambda>survivors.
     exec_bind (exec_guard (survivors = []) VerificationFailed) (\<lambda>_.
     exec_bind (inbox_state_survivors scope) (\<lambda>n.
     exec_bind (exec_guard (n = 0) VerificationFailed) (\<lambda>_.
     exec_bind (recap_state_survivors scope) (\<lambda>m.
     exec_bind (exec_guard (m = 0) VerificationFailed) (\<lambda>_.
     case scope of
       ScopeTenant tn \<Rightarrow> exec_bind (query DeletionQuery (tenant_strays tn)) (\<lambda>stray.
         exec_guard (stray = 0) VerificationFailed)
     | _ \<Rightarrow> exec_return ()))))))"

record deletion_receipt =
  rp_scope :: deletion_scope
  rp_counts :: deletion_counts
  rp_removed :: "string list"
  rp_recovered :: "string list"
  rp_external :: "string list"

definition delete_scope :: "deletion_scope \<Rightarrow> (world, deletion_error, deletion_receipt) exec" where
  "delete_scope scope =
     exec_bind (transact DeletionQuery (run_child_first_deletion scope)) (\<lambda>committed.
     exec_bind drain_queue (\<lambda>drained.
     let removed = map fst (filter (\<lambda>(_, by). by = cd_deletion committed) drained);
         recovered = map fst (filter (\<lambda>(_, by). by \<noteq> cd_deletion committed) drained) in
     exec_bind (finalize_audit_blob_count (cd_deletion committed) (length removed)) (\<lambda>_.
     exec_bind (verify_scope_empty scope) (\<lambda>_.
     exec_return \<lparr>rp_scope = scope, rp_counts = cd_counts committed, rp_removed = removed,
       rp_recovered = recovered, rp_external = cd_external committed\<rparr>))))"

definition delete_tenant :: "string \<Rightarrow> (world, deletion_error, deletion_receipt) exec" where
  "delete_tenant tn = delete_scope (ScopeTenant tn)"

definition delete_source :: "string \<Rightarrow> string \<Rightarrow> string \<Rightarrow> (world, deletion_error, deletion_receipt) exec" where
  "delete_source tn oc doc = delete_scope (ScopeSource tn oc doc)"

text \<open>\<open>execute_deletion\<close>: the row deletions alone, for a caller that has its own transaction.\<close>

definition execute_deletion :: "deletion_scope \<Rightarrow> (world, deletion_error, deletion_counts) exec" where
  "execute_deletion scope = exec_bind (run_child_first_deletion scope) (\<lambda>c. exec_return (cd_counts c))"

end
