(* ===== verification/Deletion_Correct.thy ===== *)
theory Deletion_Correct
  imports Deletion
begin

text \<open>
  Correctness of deletion: the child-first statements implement one specification of what belongs to
  a scope, all or nothing under every pattern of faults, and no foreign key stops them.
\<close>

section \<open>What belongs to a scope\<close>

definition direct :: "deletion_scope \<Rightarrow> string \<Rightarrow> bool" where
  "direct scope owner = (case scope of ScopeTenant tn \<Rightarrow> owner = tn | _ \<Rightarrow> False)"

definition scope_ids :: "deletion_scope \<Rightarrow> db \<Rightarrow> uuid list" where
  "scope_ids scope t = map sr_id (select_where (source_in_scope scope) (source_refs t))"

definition scope_runs :: "deletion_scope \<Rightarrow> db \<Rightarrow> uuid list" where
  "scope_runs scope t = runs_of_sources (scope_ids scope t) t"

definition scope_outputs :: "deletion_scope \<Rightarrow> db \<Rightarrow> uuid list" where
  "scope_outputs scope t = map ao_id (select_where (\<lambda>r. ao_run r \<in> set (scope_runs scope t)) (analysis_outputs t))"

definition scope_recaps :: "deletion_scope \<Rightarrow> db \<Rightarrow> uuid list" where
  "scope_recaps scope t = map rn_id (select_where (\<lambda>r. direct scope (rn_owner r)) (recap_runs t))"

definition some_in :: "uuid option \<Rightarrow> uuid list \<Rightarrow> bool" where
  "some_in x ids = (case x of None \<Rightarrow> False | Some i \<Rightarrow> i \<in> set ids)"

definition purge_content :: "deletion_scope \<Rightarrow> db \<Rightarrow> db" where
  "purge_content scope t =
     (let outs = scope_outputs scope t; ids = scope_ids scope t;
          gone_tags = map tg_id (select_where (\<lambda>r. direct scope (tg_tenant r)) (tags t));
          gone_collections = map cl_id (select_where (\<lambda>r. direct scope (cl_tenant r)) (collections t))
      in t\<lparr>
        tags := delete_where (\<lambda>r. direct scope (tg_tenant r)) (tags t),
        collections := delete_where (\<lambda>r. direct scope (cl_tenant r)) (collections t),
        analysis_taggings := delete_where (\<lambda>r. direct scope (tt_tenant r) \<or> tt_output r \<in> set outs \<or>
          tt_tag r \<in> set gone_tags) (analysis_taggings t),
        user_states := delete_where (\<lambda>r. direct scope (us_tenant r) \<or> us_output r \<in> set outs) (user_states t),
        highlights := delete_where (\<lambda>r. direct scope (hl_tenant r) \<or> hl_output r \<in> set outs \<or>
          hl_source r \<in> set ids) (highlights t),
        analysis_feedback := delete_where (\<lambda>r. direct scope (fb_tenant r) \<or> fb_output r \<in> set outs) (analysis_feedback t),
        collection_items := delete_where (\<lambda>r. direct scope (it_tenant r) \<or> some_in (it_output r) outs \<or>
          some_in (it_source r) ids \<or> it_collection r \<in> set gone_collections) (collection_items t)\<rparr>)"

definition inbox_in_scope :: "deletion_scope \<Rightarrow> inbox_row \<Rightarrow> bool" where
  "inbox_in_scope scope r =
     (case scope of
        ScopeTenant tn \<Rightarrow> in_tenant r = tn
      | ScopeSource tn _ doc \<Rightarrow> in_tenant r = tn \<and> in_source r = doc \<and> in_subject r \<noteq> tombstone_subject
      | ScopeArchive tn a \<Rightarrow> in_tenant r = tn \<and> in_archive r = Some a \<and> in_subject r \<noteq> tombstone_subject)"

definition purge_inbox :: "deletion_scope \<Rightarrow> db \<Rightarrow> db" where
  "purge_inbox scope t = t\<lparr>
     source_analysis_heads := delete_where (\<lambda>r. case scope of
         ScopeTenant tn \<Rightarrow> hd_tenant r = tn
       | ScopeSource tn _ doc \<Rightarrow> hd_tenant r = tn \<and> hd_source r = doc
       | ScopeArchive tn a \<Rightarrow> hd_tenant r = tn \<and> exists_where (\<lambda>i. in_event i = hd_event r \<and> in_archive i = Some a \<and>
           in_subject i \<noteq> tombstone_subject) (source_analysis_inbox t)) (source_analysis_heads t),
     source_analysis_inbox := delete_where (inbox_in_scope scope) (source_analysis_inbox t),
     object_inbox := delete_where (\<lambda>r. case scope of
         ScopeTenant tn \<Rightarrow> ob_tenant r = tn
       | ScopeSource tn _ doc \<Rightarrow> ob_tenant r = tn \<and> ob_id r = doc
       | ScopeArchive tn a \<Rightarrow> ob_tenant r = tn \<and> ob_archive r = a) (object_inbox t),
     repository_requests := delete_where (\<lambda>r. case scope of
         ScopeTenant tn \<Rightarrow> rq_tenant r = tn
       | ScopeSource tn _ doc \<Rightarrow> rq_tenant r = tn \<and> uuid_text (rq_repository r) = doc
       | ScopeArchive _ _ \<Rightarrow> False) (repository_requests t),
     ai_archive_tombstones := delete_where (\<lambda>r. direct scope (tb_tenant r)) (ai_archive_tombstones t),
     social_tombstones := delete_where (\<lambda>r. direct scope (so_tenant r)) (social_tombstones t),
     event_outbox := delete_where (\<lambda>r. direct scope (ev_tenant r)) (event_outbox t),
     notes_files := delete_where (\<lambda>r. direct scope (nf_tenant r)) (notes_files t),
     notes_disconnections := delete_where (\<lambda>r. direct scope (nd_tenant r)) (notes_disconnections t)\<rparr>"

definition purge_recaps :: "deletion_scope \<Rightarrow> db \<Rightarrow> db" where
  "purge_recaps scope t = (let gone = scope_recaps scope t in t\<lparr>
     recap_outbox := delete_where (\<lambda>r. ro_run r \<in> set gone) (recap_outbox t),
     recap_results := delete_where (\<lambda>r. rs_run r \<in> set gone) (recap_results t),
     recap_attempts := delete_where (\<lambda>r. ra_run r \<in> set gone) (recap_attempts t),
     recap_manifests := delete_where (\<lambda>r. rm_run r \<in> set gone) (recap_manifests t),
     recap_runs := delete_where (\<lambda>r. direct scope (rn_owner r)) (recap_runs t),
     recap_inbox := delete_where (\<lambda>r. direct scope (ci_owner r)) (recap_inbox t)\<rparr>)"

definition purge_analysis :: "deletion_scope \<Rightarrow> db \<Rightarrow> db" where
  "purge_analysis scope t =
     (let ids = scope_ids scope t; runs = scope_runs scope t in t\<lparr>
     embedding_failures := delete_where (\<lambda>r. direct scope (ef_tenant r) \<or> ef_source r \<in> set ids) (embedding_failures t),
     embedding_chunks := delete_where (\<lambda>r. direct scope (ec_tenant r) \<or> ec_source r \<in> set ids) (embedding_chunks t),
     search_documents := delete_where (\<lambda>r. direct scope (sd_tenant r) \<or> sd_source r \<in> set ids) (search_documents t),
     projection_inputs := delete_where (\<lambda>r. direct scope (pi_tenant r) \<or> pi_source r \<in> set ids) (projection_inputs t),
     analysis_attempts := delete_where (\<lambda>r. at_run r \<in> set runs) (analysis_attempts t),
     analysis_outputs := delete_where (\<lambda>r. ao_run r \<in> set runs) (analysis_outputs t),
     analysis_runs := delete_where (\<lambda>r. ar_source r \<in> set ids) (analysis_runs t),
     source_refs := delete_where (\<lambda>r. sr_id r \<in> set ids) (source_refs t)\<rparr>)"

text \<open>
  The specification: every row attributed to the scope, and every row that names a source, a run, an
  output, a tag, a collection or a recap that goes. The audit table and the erasure queue are not
  part of it.
\<close>

definition purge :: "deletion_scope \<Rightarrow> db \<Rightarrow> db" where
  "purge scope t = purge_analysis scope (purge_recaps scope (purge_inbox scope (purge_content scope t)))"

definition same_content :: "db \<Rightarrow> db \<Rightarrow> bool" where
  "same_content t t' = (t'\<lparr>erasure_queue := [], deletion_records := []\<rparr> = t\<lparr>erasure_queue := [], deletion_records := []\<rparr>)"

section \<open>The statements\<close>

lemma delete_where_delete_where: "delete_where p (delete_where q t) = delete_where (\<lambda>r. q r \<or> p r) t"
  by (simp add: delete_where_def)

lemma delete_where_cong: "(\<And>r. r \<in> set t \<Longrightarrow> p r = q r) \<Longrightarrow> delete_where p t = delete_where q t"
  unfolding delete_where_def by (intro filter_cong) auto

lemma delete_rows_Inr:
  "delete_rows e get upd cascade p w = (Inr n, w') \<Longrightarrow>
     tables w' = cascade (select_where (p (tables w)) (get (tables w))) (upd (delete_where (p (tables w))) (tables w)) \<and>
     n = count_where (p (tables w)) (get (tables w)) \<and> restrict_fk (tables w')"
  by (rule delete_rows_result(2) [OF _ refl])

lemmas statement_results = delete_rows_Inr query_Inr

text \<open>The stages of a deletion that succeeds.\<close>

definition user_stage :: "deletion_scope \<Rightarrow> uuid list \<Rightarrow> uuid list \<Rightarrow> db \<Rightarrow> db" where
  "user_stage scope ids outs t = t\<lparr>
     analysis_taggings := delete_where (\<lambda>r. output_children_where scope outs tt_tenant tt_output r \<or>
       tt_tag r \<in> tg_id ` {g \<in> set (tags t). direct scope (tg_tenant g)}) (analysis_taggings t),
     user_states := delete_where (output_children_where scope outs us_tenant us_output) (user_states t),
     highlights := delete_where (output_children_where scope outs hl_tenant hl_output) (highlights t),
     analysis_feedback := delete_where (output_children_where scope outs fb_tenant fb_output) (analysis_feedback t),
     collection_items := delete_where (\<lambda>r. (case scope of ScopeTenant tn \<Rightarrow> it_tenant r = tn
        | _ \<Rightarrow> some_in (it_source r) ids \<or> some_in (it_output r) outs) \<or>
       it_collection r \<in> cl_id ` {c \<in> set (collections t). direct scope (cl_tenant c)}) (collection_items t),
     collections := delete_where (\<lambda>r. direct scope (cl_tenant r)) (collections t),
     tags := delete_where (\<lambda>r. direct scope (tg_tenant r)) (tags t)\<rparr>"

lemma some_in_iff: "(\<exists>i \<in> set ids. x = Some i) \<longleftrightarrow> some_in x ids"
  by (auto simp: some_in_def split: option.split)

lemma delete_user_content_Inr:
  assumes "delete_user_content scope ids w = (Inr x, w')"
  shows "tables w' = user_stage scope ids (map ao_id (select_where (\<lambda>r. ao_run r \<in> set (runs_of_sources ids (tables w)))
    (analysis_outputs (tables w)))) (tables w)"
  using assms
  by (cases scope)
    (auto simp: delete_user_content_def delete_collection_items_def delete_collections_def delete_tags_def
      exec_return_Inr user_stage_def direct_def cascade_collections_def cascade_tags_def some_in_iff
      delete_where_delete_where table_simps delete_where_none
      elim!: exec_bind_InrE dest!: statement_results)

lemma delete_inbox_state_Inr:
  assumes "delete_inbox_state scope w = (Inr x, w')"
  shows "tables w' = purge_inbox scope (tables w)"
  using assms
  by (cases scope)
    (auto simp: delete_inbox_state_def delete_tenant_state_def delete_source_state_def delete_archive_state_def
      exec_return_Inr purge_inbox_def direct_def inbox_in_scope_def [abs_def] delete_where_none
      elim!: exec_bind_InrE dest!: statement_results)

lemma enqueue_digests_Inr:
  "enqueue_digests deletion digests w = (Inr x, w') \<Longrightarrow>
     tables w' = (tables w)\<lparr>erasure_queue := fold (enqueue_digest deletion (now w)) (digests (tables w)) (erasure_queue (tables w))\<rparr> \<and>
     list_all is_digest_hex (digests (tables w)) \<and> now w' = now w"
  by (auto simp: enqueue_digests_def get_now_def elim!: exec_bind_InrE dest!: sql_Inr split: if_splits)

lemma delete_recap_state_Inr:
  assumes "delete_recap_state scope deletion w = (Inr x, w')"
  shows "\<exists>q. tables w' = (purge_recaps scope (tables w))\<lparr>erasure_queue := q\<rparr>"
proof (cases scope)
  case (ScopeTenant tn)
  obtain u w1 where 1: "enqueue_digests deletion (recap_scope_digests tn) w = (Inr u, w1)"
    and 2: "delete_recap_rows tn w1 = (Inr x, w')"
    using assms ScopeTenant by (auto simp: delete_recap_state_def elim!: exec_bind_InrE)
  have "tables w' = purge_recaps scope (tables w1)"
    using 2 ScopeTenant
    by (auto simp: delete_recap_rows_def exec_return_Inr purge_recaps_def recap_runs_of_def scope_recaps_def direct_def
        elim!: exec_bind_InrE dest!: statement_results)
  then show ?thesis
    using enqueue_digests_Inr [OF 1]
    by (intro exI [of _ "erasure_queue (tables w1)"]) (simp add: purge_recaps_def scope_recaps_def)
qed (use assms in \<open>auto simp: delete_recap_state_def exec_return_Inr purge_recaps_def scope_recaps_def direct_def
    delete_where_none select_where_def intro: exI [of _ "erasure_queue (tables w)"]\<close>)

lemma delete_analysis_rows_Inr:
  assumes "delete_analysis_rows ids w = (Inr x, w')"
  shows "tables w' = (let t = tables w; runs = runs_of_sources ids t;
      outs = ao_id ` {r \<in> set (analysis_outputs t). ao_run r \<in> set runs};
      srcs = sr_id ` {s \<in> set (source_refs t). sr_id s \<in> set ids};
      t1 = cascade_sources srcs (cascade_outputs outs t) in t1\<lparr>
        analysis_attempts := delete_where (\<lambda>r. at_run r \<in> set runs) (analysis_attempts t),
        analysis_outputs := delete_where (\<lambda>r. ao_run r \<in> set runs) (analysis_outputs t),
        analysis_runs := delete_where (\<lambda>r. ar_source r \<in> set ids) (analysis_runs t),
        source_refs := delete_where (\<lambda>r. sr_id r \<in> set ids) (source_refs t)\<rparr>) \<and> restrict_fk (tables w')"
  using assms
  by (auto simp: delete_analysis_rows_def exec_return_Inr Let_def runs_of_sources_def cascade_outputs_def
      cascade_sources_def table_simps elim!: exec_bind_InrE dest!: statement_results)

section \<open>A deletion that commits\<close>

lemma refers_gone:
  assumes "refers key (delete_where p cs) sr_id (delete_where (\<lambda>s. sr_id s \<in> S) ss)"
  shows "delete_where p cs = delete_where (\<lambda>c. p c \<or> key c \<in> S) cs"
proof (rule delete_where_cong)
  fix c assume "c \<in> set cs"
  then show "p c = (p c \<or> key c \<in> S)"
    using assms by (auto simp: refers_iff table_simps)
qed

lemma queue_scope_blobs_Inr:
  assumes "queue_scope_blobs ids deletion w = (Inr x, w')"
  shows "\<exists>q. tables w' = (tables w)\<lparr>erasure_queue := q\<rparr>"
proof -
  have "tables w' = (tables w)\<lparr>erasure_queue := erasure_queue (tables w')\<rparr>"
    using assms
    by (auto simp: queue_scope_blobs_def exec_return_Inr elim!: exec_bind_InrE
        dest!: statement_results enqueue_digests_Inr split: if_splits)
  then show ?thesis by (rule exI)
qed

lemma insert_audit_row_Inr:
  "insert_audit_row deletion scope counts w = (Inr x, w') \<Longrightarrow>
     tables w' = (tables w)\<lparr>deletion_records := deletion_records (tables w) @ [audit_row deletion scope counts]\<rparr> \<and>
     list_all i32_count (audited_counts counts)"
  by (auto simp: insert_audit_row_def exec_guard_apply execute_def elim!: exec_bind_InrE dest!: sql_Inr split: if_splits)

text \<open>What the stages before the audit row have done, in one state.\<close>

definition committed_tables :: "deletion_scope \<Rightarrow> db \<Rightarrow> db" where
  "committed_tables scope t =
     (let ids = scope_ids scope t; runs = scope_runs scope t; outs = scope_outputs scope t;
          u = purge_recaps scope (purge_inbox scope (user_stage scope ids outs t));
          v = cascade_sources (set ids) (cascade_outputs (set outs) u)
      in v\<lparr>
        embedding_failures := delete_where (scoped_by scope ids ef_tenant ef_source) (embedding_failures t),
        embedding_chunks := delete_where (scoped_by scope ids ec_tenant ec_source) (embedding_chunks t),
        search_documents := delete_where (scoped_by scope ids sd_tenant sd_source) (search_documents t),
        projection_inputs := delete_where (scoped_by scope ids pi_tenant pi_source) (projection_inputs t),
        analysis_attempts := delete_where (\<lambda>r. at_run r \<in> set runs) (analysis_attempts t),
        analysis_outputs := delete_where (\<lambda>r. ao_run r \<in> set runs) (analysis_outputs t),
        analysis_runs := delete_where (\<lambda>r. ar_source r \<in> set ids) (analysis_runs t),
        source_refs := delete_where (\<lambda>r. sr_id r \<in> set ids) (source_refs t)\<rparr>)"

lemma scoped_by_gone:
  assumes "refers key (delete_where (scoped_by scope ids tenant_of key) cs) sr_id (delete_where (\<lambda>s. sr_id s \<in> set ids) ss)"
  shows "delete_where (scoped_by scope ids tenant_of key) cs = delete_where (\<lambda>c. direct scope (tenant_of c) \<or> key c \<in> set ids) cs"
  unfolding refers_gone [OF assms]
  by (rule delete_where_cong) (auto simp: scoped_by_def direct_def split: deletion_scope.split)

text \<open>The user content after the cascades of the outputs and the sources.\<close>

lemma content_fields:
  fixes t :: db and scope :: deletion_scope
  defines "u \<equiv> cascade_sources (set (scope_ids scope t)) (cascade_outputs (set (scope_outputs scope t))
    (user_stage scope (scope_ids scope t) (scope_outputs scope t) t))"
  shows "tags u = tags (purge_content scope t)" and "collections u = collections (purge_content scope t)"
    and "analysis_taggings u = analysis_taggings (purge_content scope t)"
    and "user_states u = user_states (purge_content scope t)"
    and "highlights u = highlights (purge_content scope t)"
    and "analysis_feedback u = analysis_feedback (purge_content scope t)"
    and "collection_items u = collection_items (purge_content scope t)"
  unfolding u_def
  by (cases scope; auto simp: cascade_sources_def cascade_outputs_def user_stage_def purge_content_def Let_def
      delete_where_delete_where output_children_where_def direct_def some_in_iff table_simps
      intro!: delete_where_cong)+

lemma scope_parts_content [simp]:
  "scope_ids scope (purge_content scope t) = scope_ids scope t"
  "scope_runs scope (purge_content scope t) = scope_runs scope t"
  "scope_recaps scope (purge_content scope t) = scope_recaps scope t"
  by (simp_all add: scope_ids_def scope_runs_def runs_of_sources_def scope_recaps_def purge_content_def Let_def)

lemma scope_parts_inbox [simp]:
  "scope_ids scope (purge_inbox scope t) = scope_ids scope t"
  "scope_runs scope (purge_inbox scope t) = scope_runs scope t"
  "scope_recaps scope (purge_inbox scope t) = scope_recaps scope t"
  by (simp_all add: scope_ids_def scope_runs_def runs_of_sources_def scope_recaps_def purge_inbox_def)

lemma scope_parts_recaps [simp]:
  "scope_ids scope (purge_recaps scope t) = scope_ids scope t"
  "scope_runs scope (purge_recaps scope t) = scope_runs scope t"
  by (simp_all add: scope_ids_def scope_runs_def runs_of_sources_def purge_recaps_def Let_def)

lemma purge_content_others [simp]:
  "source_refs (purge_content scope t) = source_refs t" "analysis_runs (purge_content scope t) = analysis_runs t"
  "analysis_attempts (purge_content scope t) = analysis_attempts t"
  "analysis_outputs (purge_content scope t) = analysis_outputs t"
  "provider_usage_rows (purge_content scope t) = provider_usage_rows t"
  "deletion_records (purge_content scope t) = deletion_records t"
  "repository_requests (purge_content scope t) = repository_requests t"
  "source_analysis_inbox (purge_content scope t) = source_analysis_inbox t"
  "recap_inbox (purge_content scope t) = recap_inbox t" "recap_runs (purge_content scope t) = recap_runs t"
  "recap_manifests (purge_content scope t) = recap_manifests t"
  "recap_attempts (purge_content scope t) = recap_attempts t"
  "recap_results (purge_content scope t) = recap_results t" "recap_outbox (purge_content scope t) = recap_outbox t"
  "ai_archive_tombstones (purge_content scope t) = ai_archive_tombstones t"
  "object_inbox (purge_content scope t) = object_inbox t"
  "source_analysis_heads (purge_content scope t) = source_analysis_heads t"
  "notes_files (purge_content scope t) = notes_files t"
  "notes_disconnections (purge_content scope t) = notes_disconnections t"
  "projection_inputs (purge_content scope t) = projection_inputs t"
  "search_documents (purge_content scope t) = search_documents t"
  "embedding_chunks (purge_content scope t) = embedding_chunks t"
  "embedding_failures (purge_content scope t) = embedding_failures t"
  "event_outbox (purge_content scope t) = event_outbox t"
  "social_tombstones (purge_content scope t) = social_tombstones t"
  "erasure_queue (purge_content scope t) = erasure_queue t"
  by (simp_all add: purge_content_def Let_def)

lemma purge_inbox_others [simp]:
  "source_refs (purge_inbox scope t) = source_refs t" "analysis_runs (purge_inbox scope t) = analysis_runs t"
  "analysis_attempts (purge_inbox scope t) = analysis_attempts t"
  "analysis_outputs (purge_inbox scope t) = analysis_outputs t"
  "provider_usage_rows (purge_inbox scope t) = provider_usage_rows t"
  "deletion_records (purge_inbox scope t) = deletion_records t" "recap_inbox (purge_inbox scope t) = recap_inbox t"
  "recap_runs (purge_inbox scope t) = recap_runs t" "recap_manifests (purge_inbox scope t) = recap_manifests t"
  "recap_attempts (purge_inbox scope t) = recap_attempts t" "recap_results (purge_inbox scope t) = recap_results t"
  "recap_outbox (purge_inbox scope t) = recap_outbox t" "tags (purge_inbox scope t) = tags t"
  "analysis_taggings (purge_inbox scope t) = analysis_taggings t" "collections (purge_inbox scope t) = collections t"
  "collection_items (purge_inbox scope t) = collection_items t" "user_states (purge_inbox scope t) = user_states t"
  "highlights (purge_inbox scope t) = highlights t" "analysis_feedback (purge_inbox scope t) = analysis_feedback t"
  "projection_inputs (purge_inbox scope t) = projection_inputs t"
  "search_documents (purge_inbox scope t) = search_documents t"
  "embedding_chunks (purge_inbox scope t) = embedding_chunks t"
  "embedding_failures (purge_inbox scope t) = embedding_failures t"
  "erasure_queue (purge_inbox scope t) = erasure_queue t"
  by (simp_all add: purge_inbox_def)

lemma user_stage_others [simp]:
  "source_refs (user_stage scope ids outs t) = source_refs t"
  "analysis_runs (user_stage scope ids outs t) = analysis_runs t"
  "analysis_attempts (user_stage scope ids outs t) = analysis_attempts t"
  "analysis_outputs (user_stage scope ids outs t) = analysis_outputs t"
  "provider_usage_rows (user_stage scope ids outs t) = provider_usage_rows t"
  "deletion_records (user_stage scope ids outs t) = deletion_records t"
  "repository_requests (user_stage scope ids outs t) = repository_requests t"
  "source_analysis_inbox (user_stage scope ids outs t) = source_analysis_inbox t"
  "recap_inbox (user_stage scope ids outs t) = recap_inbox t"
  "recap_runs (user_stage scope ids outs t) = recap_runs t"
  "recap_manifests (user_stage scope ids outs t) = recap_manifests t"
  "recap_attempts (user_stage scope ids outs t) = recap_attempts t"
  "recap_results (user_stage scope ids outs t) = recap_results t"
  "recap_outbox (user_stage scope ids outs t) = recap_outbox t"
  "ai_archive_tombstones (user_stage scope ids outs t) = ai_archive_tombstones t"
  "object_inbox (user_stage scope ids outs t) = object_inbox t"
  "source_analysis_heads (user_stage scope ids outs t) = source_analysis_heads t"
  "notes_files (user_stage scope ids outs t) = notes_files t"
  "notes_disconnections (user_stage scope ids outs t) = notes_disconnections t"
  "projection_inputs (user_stage scope ids outs t) = projection_inputs t"
  "search_documents (user_stage scope ids outs t) = search_documents t"
  "embedding_chunks (user_stage scope ids outs t) = embedding_chunks t"
  "embedding_failures (user_stage scope ids outs t) = embedding_failures t"
  "event_outbox (user_stage scope ids outs t) = event_outbox t"
  "social_tombstones (user_stage scope ids outs t) = social_tombstones t"
  "erasure_queue (user_stage scope ids outs t) = erasure_queue t"
  by (simp_all add: user_stage_def)

lemma scope_recaps_stage [simp]: "scope_recaps scope (user_stage scope ids outs t) = scope_recaps scope t"
  by (simp add: scope_recaps_def user_stage_def)

lemma purge_recaps_others [simp]:
  "source_refs (purge_recaps scope t) = source_refs t" "analysis_runs (purge_recaps scope t) = analysis_runs t"
  "analysis_attempts (purge_recaps scope t) = analysis_attempts t"
  "analysis_outputs (purge_recaps scope t) = analysis_outputs t"
  "embedding_failures (purge_recaps scope t) = embedding_failures t"
  "embedding_chunks (purge_recaps scope t) = embedding_chunks t"
  "search_documents (purge_recaps scope t) = search_documents t"
  "projection_inputs (purge_recaps scope t) = projection_inputs t"
  by (simp_all add: purge_recaps_def Let_def)

lemma purge_recaps_unfold:
  assumes "scope_recaps scope u = gone"
  shows "purge_recaps scope (purge_inbox scope u) = (purge_inbox scope u)\<lparr>
      recap_outbox := delete_where (\<lambda>r. ro_run r \<in> set gone) (recap_outbox (purge_inbox scope u)),
      recap_results := delete_where (\<lambda>r. rs_run r \<in> set gone) (recap_results (purge_inbox scope u)),
      recap_attempts := delete_where (\<lambda>r. ra_run r \<in> set gone) (recap_attempts (purge_inbox scope u)),
      recap_manifests := delete_where (\<lambda>r. rm_run r \<in> set gone) (recap_manifests (purge_inbox scope u)),
      recap_runs := delete_where (\<lambda>r. direct scope (rn_owner r)) (recap_runs (purge_inbox scope u)),
      recap_inbox := delete_where (\<lambda>r. direct scope (ci_owner r)) (recap_inbox (purge_inbox scope u))\<rparr>"
  using assms by (simp only: purge_recaps_def Let_def scope_parts_inbox)

lemma purge_unfold:
  "purge scope t = (purge_recaps scope (purge_inbox scope (purge_content scope t)))\<lparr>
      embedding_failures := delete_where (\<lambda>r. direct scope (ef_tenant r) \<or> ef_source r \<in> set (scope_ids scope t)) (embedding_failures t),
      embedding_chunks := delete_where (\<lambda>r. direct scope (ec_tenant r) \<or> ec_source r \<in> set (scope_ids scope t)) (embedding_chunks t),
      search_documents := delete_where (\<lambda>r. direct scope (sd_tenant r) \<or> sd_source r \<in> set (scope_ids scope t)) (search_documents t),
      projection_inputs := delete_where (\<lambda>r. direct scope (pi_tenant r) \<or> pi_source r \<in> set (scope_ids scope t)) (projection_inputs t),
      analysis_attempts := delete_where (\<lambda>r. at_run r \<in> set (scope_runs scope t)) (analysis_attempts t),
      analysis_outputs := delete_where (\<lambda>r. ao_run r \<in> set (scope_runs scope t)) (analysis_outputs t),
      analysis_runs := delete_where (\<lambda>r. ar_source r \<in> set (scope_ids scope t)) (analysis_runs t),
      source_refs := delete_where (\<lambda>r. sr_id r \<in> set (scope_ids scope t)) (source_refs t)\<rparr>"
proof -
  have "purge scope t = (let u = purge_recaps scope (purge_inbox scope (purge_content scope t)) in u\<lparr>
      embedding_failures := delete_where (\<lambda>r. direct scope (ef_tenant r) \<or> ef_source r \<in> set (scope_ids scope t)) (embedding_failures u),
      embedding_chunks := delete_where (\<lambda>r. direct scope (ec_tenant r) \<or> ec_source r \<in> set (scope_ids scope t)) (embedding_chunks u),
      search_documents := delete_where (\<lambda>r. direct scope (sd_tenant r) \<or> sd_source r \<in> set (scope_ids scope t)) (search_documents u),
      projection_inputs := delete_where (\<lambda>r. direct scope (pi_tenant r) \<or> pi_source r \<in> set (scope_ids scope t)) (projection_inputs u),
      analysis_attempts := delete_where (\<lambda>r. at_run r \<in> set (scope_runs scope t)) (analysis_attempts u),
      analysis_outputs := delete_where (\<lambda>r. ao_run r \<in> set (scope_runs scope t)) (analysis_outputs u),
      analysis_runs := delete_where (\<lambda>r. ar_source r \<in> set (scope_ids scope t)) (analysis_runs u),
      source_refs := delete_where (\<lambda>r. sr_id r \<in> set (scope_ids scope t)) (source_refs u)\<rparr>)"
    by (simp only: purge_def purge_analysis_def Let_def scope_parts_recaps scope_parts_inbox scope_parts_content)
  then show ?thesis by (simp add: Let_def)
qed

lemma committed_tables_purge:
  assumes "restrict_fk (committed_tables scope t)"
  shows "committed_tables scope t = purge scope t"
proof -
  let ?t = "committed_tables scope t" and ?ids = "scope_ids scope t"
  have src: "source_refs ?t = delete_where (\<lambda>s. sr_id s \<in> set ?ids) (source_refs t)"
    by (simp add: committed_tables_def Let_def)
  have parts: "embedding_failures ?t = delete_where (scoped_by scope ?ids ef_tenant ef_source) (embedding_failures t)"
    "embedding_chunks ?t = delete_where (scoped_by scope ?ids ec_tenant ec_source) (embedding_chunks t)"
    "search_documents ?t = delete_where (scoped_by scope ?ids sd_tenant sd_source) (search_documents t)"
    "projection_inputs ?t = delete_where (scoped_by scope ?ids pi_tenant pi_source) (projection_inputs t)"
    by (simp_all add: committed_tables_def Let_def)
  have fk: "refers ef_source (embedding_failures ?t) sr_id (source_refs ?t)"
    "refers ec_source (embedding_chunks ?t) sr_id (source_refs ?t)"
    "refers sd_source (search_documents ?t) sr_id (source_refs ?t)"
    "refers pi_source (projection_inputs ?t) sr_id (source_refs ?t)"
    using assms by (simp_all add: restrict_fk_def analysis_fk_def)
  note gone = scoped_by_gone [OF fk(1) [unfolded parts src]] scoped_by_gone [OF fk(2) [unfolded parts src]]
    scoped_by_gone [OF fk(3) [unfolded parts src]] scoped_by_gone [OF fk(4) [unfolded parts src]]
  note purged = purge_unfold [of scope t]
  note committed = committed_tables_def [of scope t, unfolded Let_def purge_recaps_unfold [OF scope_recaps_stage]
      cascade_sources_def cascade_outputs_def]
  note recaps = purge_recaps_unfold [OF scope_parts_content(3)]
  note content = content_fields [of scope t, unfolded cascade_sources_def cascade_outputs_def user_stage_def, simplified]
  show ?thesis
  proof (rule db.equality)
    show "tags ?t = tags (purge scope t)" "collections ?t = collections (purge scope t)"
      "analysis_taggings ?t = analysis_taggings (purge scope t)" "user_states ?t = user_states (purge scope t)"
      "highlights ?t = highlights (purge scope t)" "analysis_feedback ?t = analysis_feedback (purge scope t)"
      "collection_items ?t = collection_items (purge scope t)"
      using content unfolding purged recaps committed by (simp_all add: user_stage_def)
    show "source_analysis_heads ?t = source_analysis_heads (purge scope t)"
      "source_analysis_inbox ?t = source_analysis_inbox (purge scope t)"
      "object_inbox ?t = object_inbox (purge scope t)" "repository_requests ?t = repository_requests (purge scope t)"
      "ai_archive_tombstones ?t = ai_archive_tombstones (purge scope t)"
      "social_tombstones ?t = social_tombstones (purge scope t)" "event_outbox ?t = event_outbox (purge scope t)"
      "notes_files ?t = notes_files (purge scope t)" "notes_disconnections ?t = notes_disconnections (purge scope t)"
      unfolding purged recaps committed by (simp_all add: purge_inbox_def cong: deletion_scope.case_cong)
  qed (unfold purged recaps committed, simp_all add: gone)
qed

lemma stages_queue:
  "user_stage scope ids outs (t\<lparr>erasure_queue := q\<rparr>) = (user_stage scope ids outs t)\<lparr>erasure_queue := q\<rparr>"
  "purge_inbox scope (t\<lparr>erasure_queue := q\<rparr>) = (purge_inbox scope t)\<lparr>erasure_queue := q\<rparr>"
  "purge_recaps scope (t\<lparr>erasure_queue := q\<rparr>) = (purge_recaps scope t)\<lparr>erasure_queue := q\<rparr>"
  by (simp_all add: user_stage_def purge_inbox_def purge_recaps_def scope_recaps_def Let_def
      cong: deletion_scope.case_cong)

lemma set_scope_ids: "sr_id ` {s \<in> set (source_refs t). sr_id s \<in> set (scope_ids scope t)} = set (scope_ids scope t)"
  by (auto simp: scope_ids_def table_simps)

lemma set_scope_outputs:
  "ao_id ` {r \<in> set (analysis_outputs t). ao_run r \<in> set (scope_runs scope t)} = set (scope_outputs scope t)"
  by (auto simp: scope_outputs_def table_simps)

text \<open>A committed deletion leaves the specified content.\<close>

lemma run_child_first_deletion_Inr:
  assumes "run_child_first_deletion scope w = (Inr c, w')"
  shows "same_content (purge scope (tables w)) (tables w') \<and> restrict_fk (tables w')"
proof -
  let ?ids = "scope_ids scope (tables w)"
  from assms obtain deletion w0 ids w1 external w2 user w3 inbox w4 recap w5 n6 w6 n7 w7 n8 w8 n9 w9 analysis w10 counts u w11 r
    where steps: "(new_uuid :: (world, deletion_error, uuid) exec) w = (Inr deletion, w0)" "scope_source_ids scope w0 = (Inr ids, w1)"
      "queue_scope_blobs ids deletion w1 = (Inr external, w2)" "delete_user_content scope ids w2 = (Inr user, w3)"
      "delete_inbox_state scope w3 = (Inr inbox, w4)" "delete_recap_state scope deletion w4 = (Inr recap, w5)"
      "delete_by_scope scope ids embedding_failures embedding_failures_update ef_tenant ef_source w5 = (Inr n6, w6)"
      "delete_by_scope scope ids embedding_chunks embedding_chunks_update ec_tenant ec_source w6 = (Inr n7, w7)"
      "delete_by_scope scope ids search_documents search_documents_update sd_tenant sd_source w7 = (Inr n8, w8)"
      "delete_by_scope scope ids projection_inputs projection_inputs_update pi_tenant pi_source w8 = (Inr n9, w9)"
      "delete_analysis_rows ids w9 = (Inr analysis, w10)"
      "insert_audit_row deletion scope counts w10 = (Inr u, w11)" "(exec_return r :: (world, deletion_error, committed_deletion) exec) w11 = (Inr c, w')"
    unfolding run_child_first_deletion_def Let_def by (elim exec_bind_InrE) (rule that; assumption)
  have w0: "tables w0 = tables w" using steps(1) by (auto simp: new_uuid_def)
  have w1: "tables w1 = tables w" "ids = ?ids"
    using steps(2) w0 by (auto simp: scope_source_ids_def scope_ids_def dest!: query_Inr)
  obtain q where w2: "tables w2 = (tables w)\<lparr>erasure_queue := q\<rparr>"
    using queue_scope_blobs_Inr [OF steps(3)] w1(1) by auto
  have w3: "tables w3 = user_stage scope ?ids (scope_outputs scope (tables w)) (tables w2)"
    using delete_user_content_Inr [OF steps(4)] w1(2) w2 by (simp add: scope_outputs_def scope_runs_def runs_of_sources_def)
  have w4: "tables w4 = purge_inbox scope (tables w3)" by (rule delete_inbox_state_Inr [OF steps(5)])
  obtain q' where w5: "tables w5 = (purge_recaps scope (tables w4))\<lparr>erasure_queue := q'\<rparr>"
    using delete_recap_state_Inr [OF steps(6)] by blast
  have w9: "tables w9 = (tables w5)\<lparr>
      embedding_failures := delete_where (scoped_by scope ?ids ef_tenant ef_source) (embedding_failures (tables w5)),
      embedding_chunks := delete_where (scoped_by scope ?ids ec_tenant ec_source) (embedding_chunks (tables w5)),
      search_documents := delete_where (scoped_by scope ?ids sd_tenant sd_source) (search_documents (tables w5)),
      projection_inputs := delete_where (scoped_by scope ?ids pi_tenant pi_source) (projection_inputs (tables w5))\<rparr>"
    using steps(7-10) w1(2) by (auto simp: delete_by_scope_def dest!: delete_rows_Inr)
  note w10 = delete_analysis_rows_Inr [OF steps(11)]
  have w': "tables w' = (tables w10)\<lparr>deletion_records := deletion_records (tables w')\<rparr>"
    using insert_audit_row_Inr [OF steps(12)] steps(13) by (simp add: exec_return_Inr)
  let ?t = "tables w" and ?w9 = "tables w9"
  have same: "source_refs ?w9 = source_refs ?t" "analysis_runs ?w9 = analysis_runs ?t"
    "analysis_attempts ?w9 = analysis_attempts ?t" "analysis_outputs ?w9 = analysis_outputs ?t"
    unfolding w9 w5 w4 w3 w2 by simp_all
  have runs: "runs_of_sources ?ids ?w9 = scope_runs scope ?t"
    using same by (simp add: runs_of_sources_def scope_runs_def)
  have w9': "?w9 = (purge_recaps scope (purge_inbox scope (user_stage scope ?ids (scope_outputs scope ?t) ?t)))\<lparr>
      embedding_failures := delete_where (scoped_by scope ?ids ef_tenant ef_source) (embedding_failures ?t),
      embedding_chunks := delete_where (scoped_by scope ?ids ec_tenant ec_source) (embedding_chunks ?t),
      search_documents := delete_where (scoped_by scope ?ids sd_tenant sd_source) (search_documents ?t),
      projection_inputs := delete_where (scoped_by scope ?ids pi_tenant pi_source) (projection_inputs ?t),
      erasure_queue := q'\<rparr>"
    unfolding w9 w5 w4 w3 w2 stages_queue by simp
  have w10': "tables w10 = (committed_tables scope ?t)\<lparr>erasure_queue := q'\<rparr>"
    using w10 [THEN conjunct1, unfolded Let_def w1(2) runs same set_scope_ids set_scope_outputs]
    unfolding w9' by (simp add: committed_tables_def Let_def cascade_sources_def cascade_outputs_def)
  have fk: "restrict_fk (committed_tables scope ?t)"
    using w10 [THEN conjunct2] unfolding w10'
    by (simp add: restrict_fk_def analysis_fk_def recap_fk_def inbox_fk_def)
  from committed_tables_purge [OF fk] w10' have "tables w10 = (purge scope ?t)\<lparr>erasure_queue := q'\<rparr>" by simp
  with w' obtain d where "tables w' = (purge scope ?t)\<lparr>erasure_queue := q', deletion_records := d\<rparr>" by metis
  then show ?thesis
    using fk [unfolded committed_tables_purge [OF fk]]
    by (simp add: same_content_def restrict_fk_def analysis_fk_def recap_fk_def inbox_fk_def)
qed

section \<open>All or nothing\<close>

definition content :: "db \<Rightarrow> db" where
  "content t = t\<lparr>erasure_queue := [], deletion_records := []\<rparr>"

lemma same_content_iff: "same_content t t' \<longleftrightarrow> content t' = content t"
  by (simp add: same_content_def content_def)

abbreviation keeps_content :: "(world, 'e, 'a) exec \<Rightarrow> bool" where
  "keeps_content m \<equiv> unchanged (\<lambda>w. content (tables w)) m"

lemma keeps_content_sql:
  assumes "\<And>t x t'. f t = Inr (x, t') \<Longrightarrow> content t' = content t"
  shows "keeps_content (sql e f)"
  unfolding unchanged_def
proof
  fix w
  obtain r w' where run: "sql e f w = (r, w')" by fastforce
  have "content (tables w') = content (tables w)"
    using sql_result [OF run] assms [of "tables w"] by auto
  then show "content (tables (snd (sql e f w))) = content (tables w)" by (simp add: run)
qed

lemma keeps_content_query [unchanged_rules]: "keeps_content (query e f)"
  unfolding query_def by (rule keeps_content_sql) auto

lemma keeps_content_execute: "(\<And>t. content (f t) = content t) \<Longrightarrow> keeps_content (execute e f)"
  unfolding execute_def by (rule keeps_content_sql) auto

lemma keeps_content_queue [unchanged_rules]: "keeps_content (execute e (\<lambda>t. t\<lparr>erasure_queue := f t\<rparr>))"
  by (rule keeps_content_execute) (simp add: content_def)

lemma keeps_content_records [unchanged_rules]: "keeps_content (execute e (\<lambda>t. t\<lparr>deletion_records := f t\<rparr>))"
  by (rule keeps_content_execute) (simp add: content_def)

lemma keeps_content_blob_remove [unchanged_rules]: "keeps_content (blob_remove digest)"
  unfolding unchanged_def by (metis blob_remove_cases prod.collapse)

lemma keeps_content_transact [unchanged_rules]:
  assumes "keeps_content m"
  shows "keeps_content (transact e m)"
  unfolding unchanged_def
proof
  fix w
  obtain r w' where m: "m (tick w) = (r, w')" by fastforce
  have "content (tables w') = content (tables w)" using unchangedD [OF assms m] by simp
  then show "content (tables (snd (transact e m w))) = content (tables w)"
    using m by (auto simp: transact_def split: sum.splits)
qed

lemma keeps_content_drain_one: "keeps_content (drain_one digest)"
  unfolding drain_one_def drain_body_def by (intro unchanged_rules)

lemma keeps_content_drain_loop: "keeps_content (drain_loop queued removed)"
  by (induction queued arbitrary: removed) (simp_all add: unchanged_basic unchanged_bind keeps_content_drain_one)

lemma keeps_content_drain [unchanged_rules]: "keeps_content drain_queue"
  unfolding drain_queue_def by (intro unchanged_rules keeps_content_drain_loop)

lemma keeps_content_finalize [unchanged_rules]: "keeps_content (finalize_audit_blob_count deletion n)"
  unfolding finalize_audit_blob_count_def by (intro unchanged_rules)

lemma keeps_content_verify [unchanged_rules]: "keeps_content (verify_scope_empty scope)"
proof -
  have "keeps_content (inbox_state_survivors scope)" "keeps_content (scope_source_ids scope)"
    unfolding inbox_state_survivors_def scope_source_ids_def by (rule keeps_content_query)+
  moreover have "keeps_content (recap_state_survivors scope)"
    by (cases scope) (simp_all add: recap_state_survivors_def keeps_content_query unchanged_basic)
  ultimately show ?thesis
    unfolding verify_scope_empty_def
    by (cases scope) (auto intro!: unchanged_bind unchanged_basic keeps_content_query)
qed

lemma delete_scope_result:
  assumes "delete_scope scope w = (r, w')"
  shows "(same_content (tables w) (tables w') \<or> same_content (purge scope (tables w)) (tables w')) \<and>
     (case r of Inl _ \<Rightarrow> True | Inr _ \<Rightarrow> same_content (purge scope (tables w)) (tables w'))"
proof -
  let ?tx = "transact DeletionQuery (run_child_first_deletion scope)"
  let ?rest = "\<lambda>committed. exec_bind drain_queue (\<lambda>drained.
     let removed = map fst (filter (\<lambda>(_, by). by = cd_deletion committed) drained);
         recovered = map fst (filter (\<lambda>(_, by). by \<noteq> cd_deletion committed) drained) in
     exec_bind (finalize_audit_blob_count (cd_deletion committed) (length removed)) (\<lambda>_.
     exec_bind (verify_scope_empty scope) (\<lambda>_.
     exec_return \<lparr>rp_scope = scope, rp_counts = cd_counts committed, rp_removed = removed,
       rp_recovered = recovered, rp_external = cd_external committed\<rparr>)))"
  have rest: "keeps_content (?rest c)" for c
    unfolding Let_def by (intro unchanged_rules)
  obtain r1 w1 where tx: "?tx w = (r1, w1)" by fastforce
  have commit: "same_content (purge scope (tables w)) (tables v)" if "run_child_first_deletion scope (tick w) = (Inr x, v)" for x v
    using run_child_first_deletion_Inr [OF that] by simp
  show ?thesis
  proof (cases r1)
    case (Inl e)
    then have "r = Inl e" "w' = w1" using assms tx by (simp_all add: delete_scope_def exec_bind_def)
    then show ?thesis
      using transact_tables [OF tx] commit by (auto simp: same_content_iff)
  next
    case (Inr c)
    have run: "?rest c w1 = (r, w')" using assms tx Inr by (simp add: delete_scope_def exec_bind_def)
    have "content (tables w') = content (tables w1)" using unchangedD [OF rest run] .
    moreover have "same_content (purge scope (tables w)) (tables w1)"
      using transact_tables [OF tx] commit Inr by auto
    ultimately show ?thesis by (auto simp: same_content_iff split: sum.split)
  qed
qed

text \<open>
  C29: a deletion is all or nothing. Under every pattern of faults, and wherever it stops, the content of
  the database is either what it was or exactly what the specification leaves: every row attributed to
  the scope or naming something that went is gone, every other row is as it was. A receipt is only given
  in the second case.
\<close>

theorem delete_scope_all_or_nothing:
  "case delete_scope scope w of (r, w') \<Rightarrow>
     (same_content (tables w) (tables w') \<or> same_content (purge scope (tables w)) (tables w')) \<and>
     (case r of Inl _ \<Rightarrow> True | Inr _ \<Rightarrow> same_content (purge scope (tables w)) (tables w'))"
proof -
  obtain r w' where run: "delete_scope scope w = (r, w')" by fastforce
  show ?thesis using delete_scope_result [OF run] unfolding run by simp
qed

end
