(* ===== verification/Deletion_Isolation.thy ===== *)
theory Deletion_Isolation
  imports Deletion_Correct
begin

text \<open>
  A deletion for one tenant as the tenants see it: nothing is left of the tenant, and no other tenant
  can see a difference.
\<close>

section \<open>What a tenant sees\<close>

text \<open>
  The rows of a tenant: those that carry it, and the runs, attempts and outputs of its sources and the
  attempts, results and notices of its recaps.
\<close>

definition tenant_view :: "string \<Rightarrow> db \<Rightarrow> db" where
  "tenant_view tn t =
     (let scope = ScopeTenant tn; ids = scope_ids scope t; runs = scope_runs scope t; recaps = scope_recaps scope t in
      empty_db\<lparr>
        source_refs := select_where (\<lambda>r. sr_tenant r = tn) (source_refs t),
        analysis_runs := select_where (\<lambda>r. ar_source r \<in> set ids) (analysis_runs t),
        analysis_attempts := select_where (\<lambda>r. at_run r \<in> set runs) (analysis_attempts t),
        analysis_outputs := select_where (\<lambda>r. ao_run r \<in> set runs) (analysis_outputs t),
        repository_requests := select_where (\<lambda>r. rq_tenant r = tn) (repository_requests t),
        source_analysis_inbox := select_where (\<lambda>r. in_tenant r = tn) (source_analysis_inbox t),
        recap_inbox := select_where (\<lambda>r. ci_owner r = tn) (recap_inbox t),
        recap_runs := select_where (\<lambda>r. rn_owner r = tn) (recap_runs t),
        recap_manifests := select_where (\<lambda>r. rm_run r \<in> set recaps) (recap_manifests t),
        recap_attempts := select_where (\<lambda>r. ra_run r \<in> set recaps) (recap_attempts t),
        recap_results := select_where (\<lambda>r. rs_run r \<in> set recaps) (recap_results t),
        recap_outbox := select_where (\<lambda>r. ro_run r \<in> set recaps) (recap_outbox t),
        ai_archive_tombstones := select_where (\<lambda>r. tb_tenant r = tn) (ai_archive_tombstones t),
        object_inbox := select_where (\<lambda>r. ob_tenant r = tn) (object_inbox t),
        source_analysis_heads := select_where (\<lambda>r. hd_tenant r = tn) (source_analysis_heads t),
        notes_files := select_where (\<lambda>r. nf_tenant r = tn) (notes_files t),
        notes_disconnections := select_where (\<lambda>r. nd_tenant r = tn) (notes_disconnections t),
        tags := select_where (\<lambda>r. tg_tenant r = tn) (tags t),
        analysis_taggings := select_where (\<lambda>r. tt_tenant r = tn) (analysis_taggings t),
        collections := select_where (\<lambda>r. cl_tenant r = tn) (collections t),
        collection_items := select_where (\<lambda>r. it_tenant r = tn) (collection_items t),
        user_states := select_where (\<lambda>r. us_tenant r = tn) (user_states t),
        highlights := select_where (\<lambda>r. hl_tenant r = tn) (highlights t),
        analysis_feedback := select_where (\<lambda>r. fb_tenant r = tn) (analysis_feedback t),
        projection_inputs := select_where (\<lambda>r. pi_tenant r = tn) (projection_inputs t),
        search_documents := select_where (\<lambda>r. sd_tenant r = tn) (search_documents t),
        embedding_chunks := select_where (\<lambda>r. ec_tenant r = tn) (embedding_chunks t),
        embedding_failures := select_where (\<lambda>r. ef_tenant r = tn) (embedding_failures t),
        event_outbox := select_where (\<lambda>r. ev_tenant r = tn) (event_outbox t),
        social_tombstones := select_where (\<lambda>r. so_tenant r = tn) (social_tombstones t)\<rparr>)"

text \<open>
  What the writers keep: identifiers are unique, and what names a source, an output, a tag or a
  collection of a tenant carries that tenant.
\<close>

definition attributed :: "string \<Rightarrow> db \<Rightarrow> bool" where
  "attributed tn t =
     (let scope = ScopeTenant tn; ids = set (scope_ids scope t); outs = set (scope_outputs scope t);
          tgs = tg_id ` {g \<in> set (tags t). tg_tenant g = tn}; cls = cl_id ` {c \<in> set (collections t). cl_tenant c = tn}
      in key_unique sr_id (source_refs t) \<and> key_unique ar_id (analysis_runs t) \<and> key_unique ao_id (analysis_outputs t) \<and>
         key_unique rn_id (recap_runs t) \<and>
         (\<forall>r \<in> set (analysis_taggings t). tt_output r \<in> outs \<or> tt_tag r \<in> tgs \<longrightarrow> tt_tenant r = tn) \<and>
         (\<forall>r \<in> set (user_states t). us_output r \<in> outs \<longrightarrow> us_tenant r = tn) \<and>
         (\<forall>r \<in> set (highlights t). hl_output r \<in> outs \<or> hl_source r \<in> ids \<longrightarrow> hl_tenant r = tn) \<and>
         (\<forall>r \<in> set (analysis_feedback t). fb_output r \<in> outs \<longrightarrow> fb_tenant r = tn) \<and>
         (\<forall>r \<in> set (collection_items t). it_output r \<in> Some ` outs \<or> it_source r \<in> Some ` ids \<or> it_collection r \<in> cls \<longrightarrow>
            it_tenant r = tn) \<and>
         (\<forall>r \<in> set (embedding_failures t). ef_source r \<in> ids \<longrightarrow> ef_tenant r = tn) \<and>
         (\<forall>r \<in> set (embedding_chunks t). ec_source r \<in> ids \<longrightarrow> ec_tenant r = tn) \<and>
         (\<forall>r \<in> set (search_documents t). sd_source r \<in> ids \<longrightarrow> sd_tenant r = tn) \<and>
         (\<forall>r \<in> set (projection_inputs t). pi_source r \<in> ids \<longrightarrow> pi_tenant r = tn))"

section \<open>The views of a purge\<close>

lemma select_delete_none: "(\<And>r. r \<in> set t \<Longrightarrow> p r \<Longrightarrow> q r) \<Longrightarrow> select_where p (delete_where q t) = []"
  by (auto simp: select_where_def delete_where_def filter_empty_conv)

lemma select_delete_other: "(\<And>r. r \<in> set t \<Longrightarrow> p r \<Longrightarrow> \<not> q r) \<Longrightarrow> select_where p (delete_where q t) = select_where p t"
  unfolding select_where_def delete_where_def filter_filter by (intro filter_cong) auto

lemma some_in_Some: "some_in x ids \<longleftrightarrow> x \<in> Some ` set ids"
  by (auto simp: some_in_def split: option.split)

lemma source_in_tenant [simp]: "source_in_scope (ScopeTenant tn) = (\<lambda>s. sr_tenant s = tn)"
  by (rule ext) simp

lemma scope_ids_tenant: "i \<in> set (scope_ids (ScopeTenant tn) t) \<longleftrightarrow> (\<exists>s \<in> set (source_refs t). sr_id s = i \<and> sr_tenant s = tn)"
  by (auto simp: scope_ids_def table_simps)

lemma tenants_share_no_source:
  assumes "attributed tn t" and "u \<noteq> tn" and "i \<in> set (scope_ids (ScopeTenant u) t)"
  shows "i \<notin> set (scope_ids (ScopeTenant tn) t)"
proof
  assume "i \<in> set (scope_ids (ScopeTenant tn) t)"
  then obtain s s' where "s \<in> set (source_refs t)" "s' \<in> set (source_refs t)" "sr_id s = sr_id s'"
    "sr_tenant s = tn" "sr_tenant s' = u" using assms(3) by (auto simp: scope_ids_tenant)
  moreover have "key_unique sr_id (source_refs t)" using assms(1) by (simp add: attributed_def Let_def)
  ultimately show False using assms(2) key_unique_same by metis
qed

lemma tenants_share_no_run:
  assumes "attributed tn t" and "u \<noteq> tn" and "i \<in> set (scope_runs (ScopeTenant u) t)"
  shows "i \<notin> set (scope_runs (ScopeTenant tn) t)"
proof
  assume "i \<in> set (scope_runs (ScopeTenant tn) t)"
  then obtain r r' where "r \<in> set (analysis_runs t)" "r' \<in> set (analysis_runs t)" "ar_id r = ar_id r'"
    "ar_source r \<in> set (scope_ids (ScopeTenant tn) t)" "ar_source r' \<in> set (scope_ids (ScopeTenant u) t)"
    using assms(3) by (auto simp: scope_runs_def runs_of_sources_def table_simps)
  moreover have "key_unique ar_id (analysis_runs t)" using assms(1) by (simp add: attributed_def Let_def)
  ultimately show False using tenants_share_no_source [OF assms(1,2)] key_unique_same by metis
qed

lemma tenants_share_no_recap:
  assumes "attributed tn t" and "u \<noteq> tn" and "i \<in> set (scope_recaps (ScopeTenant u) t)"
  shows "i \<notin> set (scope_recaps (ScopeTenant tn) t)"
proof
  assume "i \<in> set (scope_recaps (ScopeTenant tn) t)"
  then obtain r r' where "r \<in> set (recap_runs t)" "r' \<in> set (recap_runs t)" "rn_id r = rn_id r'"
    "rn_owner r = tn" "rn_owner r' = u" using assms(3) by (auto simp: scope_recaps_def direct_def table_simps)
  moreover have "key_unique rn_id (recap_runs t)" using assms(1) by (simp add: attributed_def Let_def)
  ultimately show False using assms(2) key_unique_same by metis
qed

text \<open>The tables after the purge of a tenant.\<close>

lemma purge_tenant_tables:
  "source_refs (purge (ScopeTenant tn) t) =
     delete_where (\<lambda>r. sr_id r \<in> set (scope_ids (ScopeTenant tn) t)) (source_refs t)"
  "analysis_runs (purge (ScopeTenant tn) t) =
     delete_where (\<lambda>r. ar_source r \<in> set (scope_ids (ScopeTenant tn) t)) (analysis_runs t)"
  "analysis_attempts (purge (ScopeTenant tn) t) =
     delete_where (\<lambda>r. at_run r \<in> set (scope_runs (ScopeTenant tn) t)) (analysis_attempts t)"
  "analysis_outputs (purge (ScopeTenant tn) t) =
     delete_where (\<lambda>r. ao_run r \<in> set (scope_runs (ScopeTenant tn) t)) (analysis_outputs t)"
  "projection_inputs (purge (ScopeTenant tn) t) =
     delete_where (\<lambda>r. pi_tenant r = tn \<or> pi_source r \<in> set (scope_ids (ScopeTenant tn) t)) (projection_inputs t)"
  "search_documents (purge (ScopeTenant tn) t) =
     delete_where (\<lambda>r. sd_tenant r = tn \<or> sd_source r \<in> set (scope_ids (ScopeTenant tn) t)) (search_documents t)"
  "embedding_chunks (purge (ScopeTenant tn) t) =
     delete_where (\<lambda>r. ec_tenant r = tn \<or> ec_source r \<in> set (scope_ids (ScopeTenant tn) t)) (embedding_chunks t)"
  "embedding_failures (purge (ScopeTenant tn) t) =
     delete_where (\<lambda>r. ef_tenant r = tn \<or> ef_source r \<in> set (scope_ids (ScopeTenant tn) t)) (embedding_failures t)"
  "repository_requests (purge (ScopeTenant tn) t) =
     delete_where (\<lambda>r. rq_tenant r = tn) (repository_requests t)"
  "source_analysis_inbox (purge (ScopeTenant tn) t) =
     delete_where (\<lambda>r. in_tenant r = tn) (source_analysis_inbox t)"
  "ai_archive_tombstones (purge (ScopeTenant tn) t) =
     delete_where (\<lambda>r. tb_tenant r = tn) (ai_archive_tombstones t)"
  "object_inbox (purge (ScopeTenant tn) t) =
     delete_where (\<lambda>r. ob_tenant r = tn) (object_inbox t)"
  "source_analysis_heads (purge (ScopeTenant tn) t) =
     delete_where (\<lambda>r. hd_tenant r = tn) (source_analysis_heads t)"
  "notes_files (purge (ScopeTenant tn) t) =
     delete_where (\<lambda>r. nf_tenant r = tn) (notes_files t)"
  "notes_disconnections (purge (ScopeTenant tn) t) =
     delete_where (\<lambda>r. nd_tenant r = tn) (notes_disconnections t)"
  "event_outbox (purge (ScopeTenant tn) t) =
     delete_where (\<lambda>r. ev_tenant r = tn) (event_outbox t)"
  "social_tombstones (purge (ScopeTenant tn) t) =
     delete_where (\<lambda>r. so_tenant r = tn) (social_tombstones t)"
  "tags (purge (ScopeTenant tn) t) =
     delete_where (\<lambda>r. tg_tenant r = tn) (tags t)"
  "collections (purge (ScopeTenant tn) t) =
     delete_where (\<lambda>r. cl_tenant r = tn) (collections t)"
  "recap_inbox (purge (ScopeTenant tn) t) =
     delete_where (\<lambda>r. ci_owner r = tn) (recap_inbox t)"
  "recap_runs (purge (ScopeTenant tn) t) =
     delete_where (\<lambda>r. rn_owner r = tn) (recap_runs t)"
  "recap_manifests (purge (ScopeTenant tn) t) =
     delete_where (\<lambda>r. rm_run r \<in> set (scope_recaps (ScopeTenant tn) t)) (recap_manifests t)"
  "recap_attempts (purge (ScopeTenant tn) t) =
     delete_where (\<lambda>r. ra_run r \<in> set (scope_recaps (ScopeTenant tn) t)) (recap_attempts t)"
  "recap_results (purge (ScopeTenant tn) t) =
     delete_where (\<lambda>r. rs_run r \<in> set (scope_recaps (ScopeTenant tn) t)) (recap_results t)"
  "recap_outbox (purge (ScopeTenant tn) t) =
     delete_where (\<lambda>r. ro_run r \<in> set (scope_recaps (ScopeTenant tn) t)) (recap_outbox t)"
  "analysis_taggings (purge (ScopeTenant tn) t) =
     delete_where (\<lambda>r. tt_tenant r = tn \<or> tt_output r \<in> set (scope_outputs (ScopeTenant tn) t) \<or> tt_tag r \<in> tg_id ` {g \<in> set (tags t). tg_tenant g = tn}) (analysis_taggings t)"
  "user_states (purge (ScopeTenant tn) t) =
     delete_where (\<lambda>r. us_tenant r = tn \<or> us_output r \<in> set (scope_outputs (ScopeTenant tn) t)) (user_states t)"
  "highlights (purge (ScopeTenant tn) t) =
     delete_where (\<lambda>r. hl_tenant r = tn \<or> hl_output r \<in> set (scope_outputs (ScopeTenant tn) t) \<or> hl_source r \<in> set (scope_ids (ScopeTenant tn) t)) (highlights t)"
  "analysis_feedback (purge (ScopeTenant tn) t) =
     delete_where (\<lambda>r. fb_tenant r = tn \<or> fb_output r \<in> set (scope_outputs (ScopeTenant tn) t)) (analysis_feedback t)"
  "collection_items (purge (ScopeTenant tn) t) =
     delete_where (\<lambda>r. it_tenant r = tn \<or> it_output r \<in> Some ` set (scope_outputs (ScopeTenant tn) t) \<or> it_source r \<in> Some ` set (scope_ids (ScopeTenant tn) t) \<or>
     it_collection r \<in> cl_id ` {c \<in> set (collections t). cl_tenant c = tn}) (collection_items t)"
  unfolding purge_unfold purge_recaps_unfold [OF scope_parts_content(3)]
  by (simp_all add: direct_def purge_inbox_def inbox_in_scope_def [abs_def] purge_content_def Let_def table_simps
      some_in_Some)

lemma no_sources_left:
  "select_where (\<lambda>r. sr_tenant r = tn) (delete_where (\<lambda>r. sr_id r \<in> set (scope_ids (ScopeTenant tn) t)) (source_refs t)) = []"
  by (rule select_delete_none) (auto simp: scope_ids_tenant)

lemma view_of_tenant_empty: "tenant_view tn (purge (ScopeTenant tn) t) = empty_db"
proof -
  let ?s = "ScopeTenant tn" and ?t = "purge (ScopeTenant tn) t"
  have none: "scope_ids ?s ?t = []"
    unfolding scope_ids_def [of _ "purge _ _"] purge_tenant_tables by (simp add: no_sources_left)
  moreover have "scope_recaps ?s ?t = []"
    by (simp add: scope_recaps_def direct_def purge_tenant_tables select_delete_none)
  moreover have "scope_runs ?s ?t = []" using none by (simp add: scope_runs_def runs_of_sources_def select_where_def)
  ultimately show ?thesis
    by (simp add: tenant_view_def Let_def purge_tenant_tables select_delete_none no_sources_left)
      (simp add: empty_db_def select_where_def)
qed

lemma view_of_others_kept:
  assumes a: "attributed tn t" and u: "u \<noteq> tn"
  shows "tenant_view u (purge (ScopeTenant tn) t) = tenant_view u t"
proof -
  let ?s = "ScopeTenant u" and ?t = "purge (ScopeTenant tn) t"
  note attr = a [unfolded attributed_def Let_def]
  have src: "select_where (\<lambda>r. sr_tenant r = u) (source_refs ?t) = select_where (\<lambda>r. sr_tenant r = u) (source_refs t)"
    unfolding purge_tenant_tables
    by (rule select_delete_other) (use tenants_share_no_source [OF a u] in \<open>auto simp: scope_ids_tenant\<close>)
  then have ids: "scope_ids ?s ?t = scope_ids ?s t" by (simp add: scope_ids_def)
  have run: "select_where (\<lambda>r. ar_source r \<in> set (scope_ids ?s t)) (analysis_runs ?t) =
      select_where (\<lambda>r. ar_source r \<in> set (scope_ids ?s t)) (analysis_runs t)"
    unfolding purge_tenant_tables
    by (rule select_delete_other) (use tenants_share_no_source [OF a u] in auto)
  then have runs: "scope_runs ?s ?t = scope_runs ?s t" by (simp add: scope_runs_def runs_of_sources_def ids)
  have recap: "select_where (\<lambda>r. rn_owner r = u) (recap_runs ?t) = select_where (\<lambda>r. rn_owner r = u) (recap_runs t)"
    unfolding purge_tenant_tables by (rule select_delete_other) (use u in auto)
  then have recaps: "scope_recaps ?s ?t = scope_recaps ?s t" by (simp add: scope_recaps_def direct_def)
  have plain: "select_where (\<lambda>r. f r = u) (delete_where (\<lambda>r. f r = tn) rs) = select_where (\<lambda>r. f r = u) rs" for f rs
    by (rule select_delete_other) (use u in auto)
  have via_run: "select_where (\<lambda>r. f r \<in> set (scope_runs ?s t)) (delete_where (\<lambda>r. f r \<in> set (scope_runs (ScopeTenant tn) t)) rs) =
      select_where (\<lambda>r. f r \<in> set (scope_runs ?s t)) rs" for f rs
    by (rule select_delete_other) (use tenants_share_no_run [OF a u] in auto)
  have via_recap: "select_where (\<lambda>r. f r \<in> set (scope_recaps ?s t)) (delete_where (\<lambda>r. f r \<in> set (scope_recaps (ScopeTenant tn) t)) rs) =
      select_where (\<lambda>r. f r \<in> set (scope_recaps ?s t)) rs" for f rs
    by (rule select_delete_other) (use tenants_share_no_recap [OF a u] in auto)
  have named: "select_where (\<lambda>r. f r = u) (delete_where (\<lambda>r. f r = tn \<or> q r) rs) = select_where (\<lambda>r. f r = u) rs"
    if "\<forall>r \<in> set rs. q r \<longrightarrow> f r = tn" for f q rs
    by (rule select_delete_other) (use u that in auto)
  show ?thesis
    unfolding tenant_view_def Let_def ids runs recaps src run recap
    unfolding purge_tenant_tables plain via_run via_recap
    using attr by (simp add: named)
qed


definition two_tenants :: world where
  "two_tenants = empty_world\<lparr>tables := empty_db\<lparr>tags :=
     [\<lparr>tg_id = 1, tg_tenant = ''user:a'', tg_normalized = ''x'', tg_display = ''X''\<rparr>,
      \<lparr>tg_id = 2, tg_tenant = ''user:b'', tg_normalized = ''x'', tg_display = ''X''\<rparr>]\<rparr>\<rparr>"


end
