(* ===== verification/Source_Inbox.thy ===== *)
theory Source_Inbox
  imports Deletion_Correct Latest_Wins
begin

text \<open>
  The inbox of social and AI-archive source facts (\<open>source_inbox.rs\<close>): deliveries are claimed once,
  the newest one of a source is its head, and removals and tombstones delete what was derived and
  guard against late captures. The payload types of the contract crates are records of the fields the
  inbox reads; their validation and encoding are parameters.
\<close>

section \<open>Facts\<close>

type_synonym delivery = inbox_row

record social_snapshot =
  ss_owner :: string
  ss_source :: string
  ss_platform :: string
  ss_text :: "string option"
  ss_digest :: string
  ss_captured :: instant
  ss_rest :: json

record social_removed =
  rv_owner :: string
  rv_source :: string
  rv_reason :: "json option"
  rv_removed :: instant

record archive_provenance =
  pv_owner :: string
  pv_archive :: string
  pv_imported :: instant
  pv_rest :: json

datatype author_role = RoleUser | RoleAssistant | RoleSystem | RoleTool | RoleOther
datatype content_part = PartText string | PartMarkdown string | PartOther

record ai_message =
  am_id :: string
  am_role :: author_role
  am_parts :: "content_part list"

record ai_conversation =
  cv_id :: string
  cv_owner :: string
  cv_title :: "string option"
  cv_messages :: "ai_message list"
  cv_digest :: string
  cv_rest :: json

record ai_project =
  pr_id :: string
  pr_title :: string
  pr_description :: "string option"
  pr_instructions :: "string option"
  pr_rest :: json

record archive_conversation_source =
  acs_provenance :: archive_provenance
  acs_conversation :: ai_conversation

record archive_project_source =
  aps_provenance :: archive_provenance
  aps_project :: ai_project
  aps_digest :: string

datatype archive_subject =
  SubjectArchive | SubjectConversation string | SubjectProject string | SubjectArtifact string

record archive_tombstone =
  ts_subject :: archive_subject
  ts_owner :: string
  ts_archive :: string
  ts_evidence :: string
  ts_observed :: instant
  ts_rest :: json

text \<open>\<open>serde_json::to_value\<close> of the payloads, and the checks of the contract crate.\<close>

record source_contracts =
  encode_social :: "social_snapshot \<Rightarrow> json option"
  encode_conversation :: "archive_conversation_source \<Rightarrow> json option"
  encode_project :: "archive_project_source \<Rightarrow> json option"
  encode_tombstone :: "archive_tombstone \<Rightarrow> json option"
  valid_conversation :: "archive_provenance \<Rightarrow> ai_conversation \<Rightarrow> bool"
  digest_verified :: "ai_conversation \<Rightarrow> bool"
  valid_project :: "archive_provenance \<Rightarrow> ai_project \<Rightarrow> bool"

datatype source_inbox_admission = AcceptedCurrent | AcceptedHistorical | Duplicate | Tombstoned

datatype source_inbox_error =
  InboxPersistence persistence_error | InboxEncode | InvalidArchiveFact | ForeignSubjectRefused
| InboxDeletion deletion_error | InboxEnvelope

fun source_inbox_error_is_permanent :: "source_inbox_error \<Rightarrow> bool" where
  "source_inbox_error_is_permanent (InboxPersistence e) = persistence_error_is_permanent e"
| "source_inbox_error_is_permanent (InboxDeletion e) = deletion_error_is_permanent e"
| "source_inbox_error_is_permanent _ = True"

abbreviation inbox_query :: source_inbox_error where
  "inbox_query \<equiv> InboxPersistence Query"

section \<open>Guards\<close>

text \<open>\<open>tombstone_blocks\<close> and \<open>social_tombstone_blocks\<close>: a removal blocks a capture it does not predate.\<close>

definition tombstone_blocks :: "delivery \<Rightarrow> db \<Rightarrow> bool" where
  "tombstone_blocks d t = exists_where (\<lambda>b. tb_tenant b = in_tenant d \<and>
     (tb_kind b = ''archive'' \<and> tb_archive b = (case in_archive d of None \<Rightarrow> [] | Some a \<Rightarrow> a) \<or>
      tb_kind b \<in> {''conversation'', ''project'', ''artifact''} \<and> tb_subject b = Some (in_source d)) \<and>
     tb_observed b \<ge> in_observed d) (ai_archive_tombstones t)"

definition social_tombstone_blocks :: "delivery \<Rightarrow> db \<Rightarrow> bool" where
  "social_tombstone_blocks d t = exists_where (\<lambda>b. so_tenant b = in_tenant d \<and> so_source b = in_source d \<and>
     so_removed b \<ge> in_observed d) (social_tombstones t)"

definition blocks :: "delivery \<Rightarrow> db \<Rightarrow> bool" where
  "blocks d t =
     (if in_family d = ''ai_archive'' then tombstone_blocks d t
      else if in_family d = ''social'' then social_tombstone_blocks d t else False)"

section \<open>Claiming a delivery\<close>

text \<open>The check constraints of \<open>source_analysis_inbox\<close>.\<close>

definition delivery_ok :: "delivery \<Rightarrow> bool" where
  "delivery_ok d =
     (in_subject d \<in> {''social.source.captured.v1'', ''social.source.updated.v1'',
        ''ai_archive.conversation.added.v1'', ''ai_archive.conversation.updated.v1'',
        ''ai_archive.project.added.v1'', ''ai_archive.project.updated.v1'', tombstone_subject} \<and>
      in_family d \<in> {''social'', ''ai_archive''} \<and> is_digest_hex (in_digest d) \<and> json_is_object (in_snapshot d))"

definition receipt_at :: "uuid \<Rightarrow> db \<Rightarrow> inbox_row option" where
  "receipt_at event t = find_where (\<lambda>r. in_event r = event) (source_analysis_inbox t)"

definition put_receipt :: "delivery \<Rightarrow> db \<Rightarrow> db" where
  "put_receipt d t = t\<lparr>source_analysis_inbox :=
     insert_nothing (\<lambda>r. in_event r = in_event d) d (source_analysis_inbox t)\<rparr>"

definition insert_receipt :: "delivery \<Rightarrow> (world, source_inbox_error, bool) exec" where
  "insert_receipt d = sql inbox_query (\<lambda>t.
     if delivery_ok d then Inr (receipt_at (in_event d) t = None, put_receipt d t) else Inl inbox_query)"

definition head_of_delivery :: "delivery \<Rightarrow> head_row" where
  "head_of_delivery d =
     \<lparr>hd_family = in_family d, hd_tenant = in_tenant d, hd_source = in_source d, hd_digest = in_digest d,
      hd_observed = in_observed d, hd_event = in_event d\<rparr>"

definition head_key :: "head_row \<Rightarrow> string \<times> string \<times> string" where
  "head_key h = (hd_family h, hd_tenant h, hd_source h)"

definition replaces_head :: "head_row \<Rightarrow> head_row \<Rightarrow> bool" where
  "replaces_head new old =
     (hd_observed new > hd_observed old \<or> hd_observed new = hd_observed old \<and> hd_event new > hd_event old)"

definition put_head :: "head_row \<Rightarrow> db \<Rightarrow> db" where
  "put_head h t = t\<lparr>source_analysis_heads := upsert (\<lambda>x. head_key x = head_key h) (replaces_head h)
     (\<lambda>x. x\<lparr>hd_digest := hd_digest h, hd_observed := hd_observed h, hd_event := hd_event h\<rparr>) h
     (source_analysis_heads t)\<rparr>"

definition head_written :: "head_row \<Rightarrow> db \<Rightarrow> nat" where
  "head_written h t = upsert_affected (\<lambda>x. head_key x = head_key h) (replaces_head h) (source_analysis_heads t)"

definition accept_body :: "delivery \<Rightarrow> (world, source_inbox_error, source_inbox_admission) exec" where
  "accept_body d =
     exec_bind (if in_family d \<in> {''ai_archive'', ''social''} then query inbox_query (blocks d) else exec_return False)
       (\<lambda>blocked.
     exec_bind (insert_receipt d) (\<lambda>inserted.
     if \<not> inserted then exec_return Duplicate
     else if blocked then exec_return Tombstoned
     else exec_bind (affect inbox_query (head_written (head_of_delivery d)) (put_head (head_of_delivery d)))
       (\<lambda>n. exec_return (if n = 1 then AcceptedCurrent else AcceptedHistorical))))"

definition accept :: "delivery \<Rightarrow> (world, source_inbox_error, source_inbox_admission) exec" where
  "accept d = transact inbox_query (accept_body d)"

definition or_encode :: "json option \<Rightarrow> (world, source_inbox_error, json) exec" where
  "or_encode v = (case v of None \<Rightarrow> exec_fail InboxEncode | Some j \<Rightarrow> exec_return j)"

definition accept_social ::
  "source_contracts \<Rightarrow> uuid \<Rightarrow> string \<Rightarrow> social_snapshot \<Rightarrow> (world, source_inbox_error, source_inbox_admission) exec" where
  "accept_social ct event subject snapshot =
     exec_bind (or_encode (encode_social ct snapshot)) (\<lambda>v.
     accept \<lparr>in_event = event, in_subject = subject, in_family = ''social'', in_tenant = ss_owner snapshot,
       in_archive = None, in_source = ss_source snapshot, in_digest = ss_digest snapshot,
       in_observed = ss_captured snapshot, in_snapshot = v\<rparr>)"

definition accept_ai_conversation ::
  "source_contracts \<Rightarrow> uuid \<Rightarrow> string \<Rightarrow> archive_provenance \<Rightarrow> ai_conversation \<Rightarrow>
   (world, source_inbox_error, source_inbox_admission) exec" where
  "accept_ai_conversation ct event subject provenance conversation =
     exec_bind (exec_guard (valid_conversation ct provenance conversation) InvalidArchiveFact) (\<lambda>_.
     exec_bind (exec_guard (digest_verified ct conversation) InvalidArchiveFact) (\<lambda>_.
     exec_bind (or_encode (encode_conversation ct
       \<lparr>acs_provenance = provenance, acs_conversation = conversation\<rparr>)) (\<lambda>v.
     accept \<lparr>in_event = event, in_subject = subject, in_family = ''ai_archive'', in_tenant = pv_owner provenance,
       in_archive = Some (pv_archive provenance), in_source = cv_id conversation, in_digest = cv_digest conversation,
       in_observed = pv_imported provenance, in_snapshot = v\<rparr>)))"

definition accept_ai_project ::
  "source_contracts \<Rightarrow> uuid \<Rightarrow> string \<Rightarrow> archive_provenance \<Rightarrow> ai_project \<Rightarrow> string \<Rightarrow>
   (world, source_inbox_error, source_inbox_admission) exec" where
  "accept_ai_project ct event subject provenance project content_digest =
     exec_bind (exec_guard (valid_project ct provenance project) InvalidArchiveFact) (\<lambda>_.
     exec_bind (or_encode (encode_project ct
       \<lparr>aps_provenance = provenance, aps_project = project, aps_digest = content_digest\<rparr>)) (\<lambda>v.
     accept \<lparr>in_event = event, in_subject = subject, in_family = ''ai_archive'', in_tenant = pv_owner provenance,
       in_archive = Some (pv_archive provenance), in_source = pr_id project, in_digest = content_digest,
       in_observed = pv_imported provenance, in_snapshot = v\<rparr>))"

section \<open>Removals\<close>

definition remove_source_state :: "string \<Rightarrow> string \<Rightarrow> string \<Rightarrow> (world, source_inbox_error, unit) exec" where
  "remove_source_state family tn source_id =
     exec_bind (delete_rows inbox_query source_analysis_heads source_analysis_heads_update no_cascade
       (\<lambda>_ r. hd_family r = family \<and> hd_tenant r = tn \<and> hd_source r = source_id)) (\<lambda>_.
     exec_bind (delete_rows inbox_query source_analysis_inbox source_analysis_inbox_update no_cascade
       (\<lambda>_ r. in_family r = family \<and> in_tenant r = tn \<and> in_source r = source_id)) (\<lambda>_.
     exec_return ()))"

definition source_scope :: "string \<Rightarrow> string \<Rightarrow> deletion_scope" where
  "source_scope tn document = ScopeSource tn ''ratatoskr-knowledge'' document"

definition delete_derived :: "deletion_scope \<Rightarrow> (world, source_inbox_error, unit) exec" where
  "delete_derived scope = exec_bind (exec_map_err InboxDeletion (execute_deletion scope)) (\<lambda>_. exec_return ())"

definition put_removal :: "uuid \<Rightarrow> social_removed \<Rightarrow> string \<Rightarrow> db \<Rightarrow> db" where
  "put_removal event removed reason t = t\<lparr>social_tombstones :=
     insert_nothing (\<lambda>r. so_event r = event) \<lparr>so_event = event, so_tenant = rv_owner removed,
       so_source = rv_source removed, so_reason = reason, so_removed = rv_removed removed\<rparr> (social_tombstones t)\<rparr>"

definition social_removed_body :: "uuid \<Rightarrow> social_removed \<Rightarrow> string \<Rightarrow> (world, source_inbox_error, source_inbox_admission) exec" where
  "social_removed_body event removed reason =
     exec_bind (sql inbox_query (\<lambda>t. Inr (\<not> exists_where (\<lambda>r. so_event r = event) (social_tombstones t),
       put_removal event removed reason t))) (\<lambda>claimed.
     if \<not> claimed then exec_return Duplicate
     else exec_bind (remove_source_state ''social'' (rv_owner removed) (rv_source removed)) (\<lambda>_.
       exec_bind (delete_derived (source_scope (rv_owner removed) (rv_source removed))) (\<lambda>_.
       exec_return AcceptedCurrent)))"

definition accept_social_removed :: "uuid \<Rightarrow> social_removed \<Rightarrow> (world, source_inbox_error, source_inbox_admission) exec" where
  "accept_social_removed event removed =
     (case rv_reason removed of
        None \<Rightarrow> exec_fail InboxEncode
      | Some v \<Rightarrow>
          (case json_str v of
             None \<Rightarrow> exec_fail InvalidArchiveFact
           | Some reason \<Rightarrow> transact inbox_query (social_removed_body event removed reason)))"

definition is_current_head :: "uuid \<Rightarrow> (world, source_inbox_error, bool) exec" where
  "is_current_head event = query inbox_query (\<lambda>t. exists_where (\<lambda>h. hd_event h = event) (source_analysis_heads t))"

section \<open>Tombstones\<close>

fun tombstone_subject_parts :: "archive_subject \<Rightarrow> string \<times> string option" where
  "tombstone_subject_parts SubjectArchive = (''archive'', None)"
| "tombstone_subject_parts (SubjectConversation i) = (''conversation'', Some i)"
| "tombstone_subject_parts (SubjectProject i) = (''project'', Some i)"
| "tombstone_subject_parts (SubjectArtifact i) = (''artifact'', Some i)"

definition tombstone_source :: "archive_tombstone \<Rightarrow> string" where
  "tombstone_source ts = (case snd (tombstone_subject_parts (ts_subject ts)) of None \<Rightarrow> ts_archive ts | Some i \<Rightarrow> i)"

definition tombstone_scope :: "archive_tombstone \<Rightarrow> deletion_scope" where
  "tombstone_scope ts =
     (case snd (tombstone_subject_parts (ts_subject ts)) of
        None \<Rightarrow> ScopeArchive (ts_owner ts) (ts_archive ts)
      | Some i \<Rightarrow> source_scope (ts_owner ts) i)"

definition subject_belongs_only_to_another_tenant :: "deletion_scope \<Rightarrow> (world, source_inbox_error, bool) exec" where
  "subject_belongs_only_to_another_tenant scope =
     (case scope of
        ScopeArchive tn a \<Rightarrow> query inbox_query (\<lambda>t.
          exists_where (\<lambda>s. sr_archive s = a) (source_refs t) \<and>
          \<not> exists_where (\<lambda>s. sr_archive s = a \<and> sr_tenant s = tn) (source_refs t))
      | ScopeSource tn oc doc \<Rightarrow> query inbox_query (\<lambda>t.
          exists_where (\<lambda>s. sr_owner s = oc \<and> sr_document s = doc) (source_refs t) \<and>
          \<not> exists_where (\<lambda>s. sr_owner s = oc \<and> sr_document s = doc \<and> sr_tenant s = tn) (source_refs t))
      | ScopeTenant _ \<Rightarrow> exec_return False)"

definition remove_tombstoned_inbox_sources :: "archive_tombstone \<Rightarrow> (world, source_inbox_error, unit) exec" where
  "remove_tombstoned_inbox_sources ts =
     (case ts_subject ts of
        SubjectArchive \<Rightarrow>
          exec_bind (delete_rows inbox_query source_analysis_heads source_analysis_heads_update no_cascade
            (\<lambda>t r. hd_family r = ''ai_archive'' \<and> hd_tenant r = ts_owner ts \<and>
               exists_where (\<lambda>i. in_event i = hd_event r \<and> in_archive i = Some (ts_archive ts)) (source_analysis_inbox t))) (\<lambda>_.
          exec_bind (delete_rows inbox_query source_analysis_inbox source_analysis_inbox_update no_cascade
            (\<lambda>_ r. in_family r = ''ai_archive'' \<and> in_tenant r = ts_owner ts \<and> in_archive r = Some (ts_archive ts))) (\<lambda>_.
          exec_return ()))
      | _ \<Rightarrow> remove_source_state ''ai_archive'' (ts_owner ts) (tombstone_source ts))"

text \<open>The tombstone's event is a primary key: a second row of it is a query error.\<close>

definition tombstone_row_of :: "uuid \<Rightarrow> archive_tombstone \<Rightarrow> tombstone_row" where
  "tombstone_row_of event ts =
     \<lparr>tb_event = event, tb_tenant = ts_owner ts, tb_archive = ts_archive ts,
      tb_kind = fst (tombstone_subject_parts (ts_subject ts)), tb_subject = snd (tombstone_subject_parts (ts_subject ts)),
      tb_observed = ts_observed ts\<rparr>"

definition record_tombstone :: "uuid \<Rightarrow> archive_tombstone \<Rightarrow> (world, source_inbox_error, unit) exec" where
  "record_tombstone event ts = sql inbox_query (\<lambda>t.
     if exists_where (\<lambda>r. tb_event r = event) (ai_archive_tombstones t) then Inl inbox_query
     else Inr ((), t\<lparr>ai_archive_tombstones := ai_archive_tombstones t @ [tombstone_row_of event ts]\<rparr>))"

definition tombstone_body :: "uuid \<Rightarrow> archive_tombstone \<Rightarrow> delivery \<Rightarrow> (world, source_inbox_error, source_inbox_admission) exec" where
  "tombstone_body event ts d =
     exec_bind (subject_belongs_only_to_another_tenant (tombstone_scope ts)) (\<lambda>foreign.
     exec_bind (exec_guard (\<not> foreign) ForeignSubjectRefused) (\<lambda>_.
     exec_bind (query inbox_query (\<lambda>t. receipt_at event t \<noteq> None)) (\<lambda>duplicate.
     if duplicate then exec_return Duplicate
     else exec_bind (remove_tombstoned_inbox_sources ts) (\<lambda>_.
       exec_bind (insert_receipt d) (\<lambda>inserted.
       if \<not> inserted then exec_return Duplicate
       else exec_bind (record_tombstone event ts) (\<lambda>_.
         exec_bind (delete_derived (tombstone_scope ts)) (\<lambda>_.
         exec_return AcceptedCurrent)))))))"

definition tombstone_delivery :: "uuid \<Rightarrow> string \<Rightarrow> archive_tombstone \<Rightarrow> json \<Rightarrow> delivery" where
  "tombstone_delivery event subject ts v =
     \<lparr>in_event = event, in_subject = subject, in_family = ''ai_archive'', in_tenant = ts_owner ts,
      in_archive = Some (ts_archive ts), in_source = tombstone_source ts, in_digest = ts_evidence ts,
      in_observed = ts_observed ts, in_snapshot = v\<rparr>"

definition accept_ai_tombstone ::
  "source_contracts \<Rightarrow> uuid \<Rightarrow> string \<Rightarrow> archive_tombstone \<Rightarrow> (world, source_inbox_error, source_inbox_admission) exec" where
  "accept_ai_tombstone ct event subject ts =
     exec_bind (or_encode (encode_tombstone ct ts)) (\<lambda>v.
     transact inbox_query (tombstone_body event ts (tombstone_delivery event subject ts v)))"

text \<open>\<open>snapshot\<close>: the stored payload of a delivery of a family, decoded by its contract.\<close>

definition stored_snapshot :: "(json \<Rightarrow> 'a option) \<Rightarrow> uuid \<Rightarrow> string \<Rightarrow> (world, source_inbox_error, 'a) exec" where
  "stored_snapshot decode event family =
     exec_bind (query inbox_query (\<lambda>t. map_option in_snapshot
       (find_where (\<lambda>r. in_event r = event \<and> in_family r = family) (source_analysis_inbox t)))) (\<lambda>v.
     case v of
       None \<Rightarrow> exec_fail (InboxPersistence InvalidSource)
     | Some j \<Rightarrow> (case decode j of None \<Rightarrow> exec_fail InboxEncode | Some x \<Rightarrow> exec_return x))"

end
