(* ===== verification/Inbox_Correct.thy ===== *)
theory Inbox_Correct
  imports Source_Inbox
begin

text \<open>
  Correctness of the source inbox: the newest delivery of a source is its head whatever the order, a
  removed source never comes back through a late capture, and what goes wrong when a tombstone is
  redelivered after a later one removed its receipt.
\<close>

section \<open>Heads and receipts\<close>

interpretation receipts: first_wins put_receipt receipt_at in_event
proof
  show "receipt_at k (put_receipt r t) = (if k = in_event r \<and> receipt_at k t = None then Some r else receipt_at k t)" for k r t
  proof -
    have eq: "source_analysis_inbox (put_receipt r t) = insert_nothing (\<lambda>x. in_event x = in_event r) r (source_analysis_inbox t)"
      by (simp add: put_receipt_def)
    show ?thesis unfolding receipt_at_def eq by (rule find_insert_nothing)
  qed
  show "receipt_at (in_event r) t \<noteq> None \<Longrightarrow> put_receipt r t = t" for r t
    by (simp add: put_receipt_def receipt_at_def insert_nothing_stored del: not_None_eq)
qed

definition head_at :: "string \<times> string \<times> string \<Rightarrow> db \<Rightarrow> head_row option" where
  "head_at k t = find_where (\<lambda>x. head_key x = k) (source_analysis_heads t)"

definition heads_unique :: "db \<Rightarrow> bool" where
  "heads_unique t = key_unique head_key (source_analysis_heads t)"

lemma head_update_key: "head_key (x\<lparr>hd_digest := a, hd_observed := b, hd_event := c\<rparr>) = head_key x"
  by (simp add: head_key_def)

lemma head_update_same:
  "head_key x = head_key h \<Longrightarrow> x\<lparr>hd_digest := hd_digest h, hd_observed := hd_observed h, hd_event := hd_event h\<rparr> = h"
  for x h :: head_row
  by (cases x; cases h) (simp add: head_key_def)

interpretation heads: latest_wins put_head head_at head_key "\<lambda>h. h" "\<lambda>h. (hd_observed h, hd_event h)"
  "\<lambda>old new. replaces_head new old" heads_unique
proof
  fix t :: db and h k assume "heads_unique t"
  then show "heads_unique (put_head h t)"
    unfolding heads_unique_def put_head_def
    by (simp add: key_unique_upsert head_update_key)
  have eq: "source_analysis_heads (put_head h t) = upsert (\<lambda>x. head_key x = head_key h) (replaces_head h)
      (\<lambda>x. x\<lparr>hd_digest := hd_digest h, hd_observed := hd_observed h, hd_event := hd_event h\<rparr>) h (source_analysis_heads t)"
    by (simp add: put_head_def)
  show "head_at k (put_head h t) = (if k = head_key h \<and>
      (case head_at k t of None \<Rightarrow> True | Some c \<Rightarrow> replaces_head h c) then Some h else head_at k t)"
    unfolding head_at_def eq
    by (subst find_upsert) (auto simp: head_update_key head_update_same split: option.splits dest: find_where_SomeD)
qed (auto simp: replaces_head_def)

section \<open>The newest delivery is the head\<close>

lemma accept_works:
  assumes "no_faults w" and "delivery_ok d" and "receipt_at (in_event d) (tables w) = None" and "\<not> blocks d (tables w)"
  shows "\<exists>r. accept d w = (Inr r, w\<lparr>tables := put_head (head_of_delivery d) (put_receipt d (tables w))\<rparr>)"
  using assms
  by (auto simp: accept_def transact_def accept_body_def exec_bind_def insert_receipt_def sql_works query_works
      affect_works exec_return_def)

fun accept_all :: "delivery list \<Rightarrow> (world, source_inbox_error, unit) exec" where
  "accept_all ds = exec_each (\<lambda>d. exec_bind (accept d) (\<lambda>_. exec_return ())) ds"

lemma put_receipt_others [simp]:
  "source_analysis_heads (put_receipt d t) = source_analysis_heads t"
  "ai_archive_tombstones (put_receipt d t) = ai_archive_tombstones t"
  "social_tombstones (put_receipt d t) = social_tombstones t"
  by (simp_all add: put_receipt_def)

lemma put_head_others [simp]:
  "source_analysis_inbox (put_head h t) = source_analysis_inbox t"
  "ai_archive_tombstones (put_head h t) = ai_archive_tombstones t"
  "social_tombstones (put_head h t) = social_tombstones t"
  by (simp_all add: put_head_def)

lemma blocks_cong:
  "ai_archive_tombstones t' = ai_archive_tombstones t \<Longrightarrow> social_tombstones t' = social_tombstones t \<Longrightarrow>
     blocks d t' = blocks d t"
  by (simp add: blocks_def tombstone_blocks_def social_tombstone_blocks_def)

lemma accept_all_works:
  assumes "no_faults w" and "distinct (map in_event ds)"
    and "\<forall>d \<in> set ds. delivery_ok d \<and> receipt_at (in_event d) (tables w) = None \<and> \<not> blocks d (tables w)"
  shows "\<exists>t. accept_all ds w = (Inr (), w\<lparr>tables := t\<rparr>) \<and>
    source_analysis_heads t = source_analysis_heads (fold put_head (map head_of_delivery ds) (tables w))"
  using assms
proof (induction ds arbitrary: w)
  case Nil
  then show ?case by (intro exI [of _ "tables w"]) (simp add: exec_return_def)
next
  case (Cons d ds)
  let ?t = "put_head (head_of_delivery d) (put_receipt d (tables w))"
  obtain r where run: "accept d w = (Inr r, w\<lparr>tables := ?t\<rparr>)" using accept_works [of w d] Cons.prems by auto
  have later: "\<forall>e \<in> set ds. delivery_ok e \<and> receipt_at (in_event e) ?t = None \<and> \<not> blocks e ?t"
  proof
    fix e assume e: "e \<in> set ds"
    have "receipt_at (in_event e) ?t = receipt_at (in_event e) (put_receipt d (tables w))" by (simp add: receipt_at_def)
    also have "\<dots> = None"
    proof -
      have "in_event d \<notin> in_event ` set ds" using Cons.prems(2) by simp
      then have "in_event e \<noteq> in_event d" using e by (metis imageI)
      then show ?thesis using e Cons.prems by (simp add: receipts.put_look)
    qed
    finally show "delivery_ok e \<and> receipt_at (in_event e) ?t = None \<and> \<not> blocks e ?t"
      using e Cons.prems blocks_cong [of ?t "tables w" e] by simp
  qed
  have "source_analysis_heads (fold put_head hs t) = source_analysis_heads (fold put_head hs t')"
    if "source_analysis_heads t = source_analysis_heads t'" for hs t t'
    using that by (induction hs arbitrary: t t') (simp_all add: put_head_def)
  note same = this
  from Cons.IH [of "w\<lparr>tables := ?t\<rparr>"] Cons.prems later obtain t where
    "accept_all ds (w\<lparr>tables := ?t\<rparr>) = (Inr (), w\<lparr>tables := t\<rparr>)"
    "source_analysis_heads t = source_analysis_heads (fold put_head (map head_of_delivery ds) ?t)" by auto
  moreover have "source_analysis_heads (fold put_head (map head_of_delivery ds) ?t) =
      source_analysis_heads (fold put_head (map head_of_delivery ds) (put_head (head_of_delivery d) (tables w)))"
    by (rule same) (simp add: put_head_def)
  ultimately show ?case using run by (intro exI [of _ t]) (simp add: exec_bind_def exec_return_def)
qed

text \<open>
  C31: whatever the order in which new deliveries of any sources arrive, the head of a source is the
  delivery with the latest observation, the greatest event among those observed at the same time.
\<close>

theorem newest_delivery_is_head:
  assumes "no_faults w" and "heads_unique (tables w)" and "distinct (map in_event ds)"
    and "\<forall>e \<in> set ds. delivery_ok e \<and> receipt_at (in_event e) (tables w) = None \<and> \<not> blocks e (tables w)"
    and "d \<in> set ds"
    and "\<forall>e \<in> set ds. head_key (head_of_delivery e) = head_key (head_of_delivery d) \<longrightarrow>
      e = d \<or> (in_observed e, in_event e) < (in_observed d, in_event d)"
    and "\<forall>h. head_at (head_key (head_of_delivery d)) (tables w) = Some h \<longrightarrow>
      (hd_observed h, hd_event h) < (in_observed d, in_event d)"
  shows "\<exists>w'. accept_all ds w = (Inr (), w') \<and>
    head_at (head_key (head_of_delivery d)) (tables w') = Some (head_of_delivery d)"
proof -
  obtain t where run: "accept_all ds w = (Inr (), w\<lparr>tables := t\<rparr>)"
    and t: "source_analysis_heads t = source_analysis_heads (fold put_head (map head_of_delivery ds) (tables w))"
    using accept_all_works [OF assms(1,3,4)] by blast
  have "head_at (head_key (head_of_delivery d)) (fold put_head (map head_of_delivery ds) (tables w)) = Some (head_of_delivery d)"
  proof (rule heads.fold_newest [OF assms(2)])
    show "\<forall>s \<in> set (map head_of_delivery ds). head_key s = head_key (head_of_delivery d) \<longrightarrow>
        s = head_of_delivery d \<or> (hd_observed s, hd_event s) < (hd_observed (head_of_delivery d), hd_event (head_of_delivery d))"
      using assms(6) by (auto simp: head_of_delivery_def)
    show "\<forall>c. head_at (head_key (head_of_delivery d)) (tables w) = Some c \<longrightarrow>
        (hd_observed c, hd_event c) < (hd_observed (head_of_delivery d), hd_event (head_of_delivery d))"
      using assms(7) by (simp add: head_of_delivery_def)
  qed (use assms(5) in auto)
  then show ?thesis using run t by (intro exI [of _ "w\<lparr>tables := t\<rparr>"]) (simp add: head_at_def)
qed

definition sample_delivery :: "nat \<Rightarrow> int \<Rightarrow> delivery" where
  "sample_delivery event at = \<lparr>in_event = event, in_subject = ''social.source.captured.v1'', in_family = ''social'',
     in_tenant = ''user:1'', in_archive = None, in_source = ''s'', in_digest = replicate 64 (CHR ''a''),
     in_observed = at, in_snapshot = JObj []\<rparr>"

theorem newest_delivery_is_head_witness:
  "\<exists>w'. accept_all [sample_delivery 5 10, sample_delivery 3 20, sample_delivery 4 15] empty_world = (Inr (), w') \<and>
     head_at (''social'', ''user:1'', ''s'') (tables w') = Some (head_of_delivery (sample_delivery 3 20))"
proof -
  let ?ds = "[sample_delivery 5 10, sample_delivery 3 20, sample_delivery 4 15]"
  have "\<forall>e \<in> set ?ds. delivery_ok e \<and> receipt_at (in_event e) (tables empty_world) = None \<and> \<not> blocks e (tables empty_world)"
    by (simp add: sample_delivery_def delivery_ok_def is_digest_hex_def is_hex_digit_def receipt_at_def find_where_def
        blocks_def social_tombstone_blocks_def exists_where_def empty_db_def list_all_iff)
  from newest_delivery_is_head [OF _ _ _ this, of "sample_delivery 3 20"] show ?thesis
    by (simp add: sample_delivery_def heads_unique_def key_unique_def head_at_def find_where_def empty_db_def
        head_of_delivery_def head_key_def)
qed

section \<open>A removed source does not come back\<close>

text \<open>
  What every state of the inbox satisfies: receipts and heads are unique by their keys, a head is its
  stored delivery, and no removal or tombstone is as late as a head it concerns.
\<close>

definition inbox_inv :: "db \<Rightarrow> bool" where
  "inbox_inv t =
     (inbox_fk t \<and> key_unique in_event (source_analysis_inbox t) \<and> heads_unique t \<and>
      (\<forall>i \<in> set (source_analysis_inbox t). in_family i = ''ai_archive'' \<longrightarrow> in_archive i \<noteq> None) \<and>
      (\<forall>h \<in> set (source_analysis_heads t). \<forall>i \<in> set (source_analysis_inbox t).
         in_event i = hd_event h \<longrightarrow> head_of_delivery i = h \<and> \<not> blocks i t))"

lemma inbox_invD:
  assumes "inbox_inv t"
  shows "inbox_fk t" and "key_unique in_event (source_analysis_inbox t)" and "heads_unique t"
    and "i \<in> set (source_analysis_inbox t) \<Longrightarrow> in_family i = ''ai_archive'' \<Longrightarrow> in_archive i \<noteq> None"
    and "h \<in> set (source_analysis_heads t) \<Longrightarrow> i \<in> set (source_analysis_inbox t) \<Longrightarrow> in_event i = hd_event h \<Longrightarrow>
      head_of_delivery i = h \<and> \<not> blocks i t"
  using assms unfolding inbox_inv_def by blast+

lemma inbox_inv_cong:
  "source_analysis_heads t' = source_analysis_heads t \<Longrightarrow> source_analysis_inbox t' = source_analysis_inbox t \<Longrightarrow>
   ai_archive_tombstones t' = ai_archive_tombstones t \<Longrightarrow> social_tombstones t' = social_tombstones t \<Longrightarrow>
   inbox_inv t' = inbox_inv t"
  using blocks_cong [of t' t] by (simp add: inbox_inv_def inbox_fk_def heads_unique_def)

text \<open>Rows may go, and tombstones may come, when no remaining head is blocked by them.\<close>

lemma inbox_inv_shrink:
  assumes "inbox_inv t" and "source_analysis_heads t' = delete_where p (source_analysis_heads t)"
    and "source_analysis_inbox t' = delete_where q (source_analysis_inbox t)" and "inbox_fk t'"
    and "\<And>h i. h \<in> set (source_analysis_heads t') \<Longrightarrow> i \<in> set (source_analysis_inbox t') \<Longrightarrow> in_event i = hd_event h \<Longrightarrow>
      head_of_delivery i = h \<Longrightarrow> \<not> blocks i t \<Longrightarrow> \<not> blocks i t'"
  shows "inbox_inv t'"
proof -
  note inv = inbox_invD [OF assms(1)]
  have "key_unique in_event (source_analysis_inbox t')" unfolding assms(3) by (rule key_unique_delete [OF inv(2)])
  moreover have "heads_unique t'"
    using inv(3) unfolding heads_unique_def assms(2) by (rule key_unique_delete)
  moreover have "head_of_delivery i = h \<and> \<not> blocks i t'"
    if "h \<in> set (source_analysis_heads t')" "i \<in> set (source_analysis_inbox t')" "in_event i = hd_event h" for h i
  proof -
    have "h \<in> set (source_analysis_heads t)" "i \<in> set (source_analysis_inbox t)"
      using that(1,2) unfolding assms(2,3) by (simp_all add: table_simps)
    from inv(5) [OF this that(3)] show ?thesis using assms(5) [OF that] by blast
  qed
  moreover have "in_archive i \<noteq> None" if "i \<in> set (source_analysis_inbox t')" "in_family i = ''ai_archive''" for i
    using that inv(4) [of i] unfolding assms(3) by (simp add: table_simps)
  ultimately show ?thesis using assms(4) unfolding inbox_inv_def by blast
qed

lemma inbox_inv_receipt:
  assumes "inbox_inv t" and "receipt_at (in_event d) t = None" and "in_family d = ''ai_archive'' \<Longrightarrow> in_archive d \<noteq> None"
  shows "inbox_inv (put_receipt d t)"
proof -
  note inv = inbox_invD [OF assms(1)]
  have new: "\<forall>i \<in> set (source_analysis_inbox t). in_event i \<noteq> in_event d"
    using assms(2) by (simp add: receipt_at_def find_where_Some_iff)
  then have inbox: "source_analysis_inbox (put_receipt d t) = source_analysis_inbox t @ [d]"
    by (simp add: put_receipt_def insert_nothing_def table_simps)
  have fk: "\<exists>i \<in> set (source_analysis_inbox t). in_event i = hd_event h" if "h \<in> set (source_analysis_heads t)" for h
    using inv(1) that by (simp add: inbox_fk_def refers_iff)
  have "inbox_fk (put_receipt d t)"
    using inv(1) inbox by (auto simp: inbox_fk_def refers_iff)
  moreover have "key_unique in_event (source_analysis_inbox (put_receipt d t))"
    using inv(2) new unfolding inbox by (auto simp: key_unique_def)
  moreover have "head_of_delivery i = h \<and> \<not> blocks i (put_receipt d t)"
    if h: "h \<in> set (source_analysis_heads t)" and i: "i \<in> set (source_analysis_inbox t @ [d])" "in_event i = hd_event h" for h i
  proof -
    have "i \<noteq> d" using fk [OF h] new i(2) by auto
    then have "i \<in> set (source_analysis_inbox t)" using i(1) by simp
    from inv(5) [OF h this i(2)] show ?thesis using blocks_cong [of "put_receipt d t" t i] by simp
  qed
  ultimately show ?thesis
    using inv(3,4) assms(3) unfolding inbox_inv_def inbox by (auto simp: heads_unique_def)
qed

lemma inbox_inv_head:
  assumes "inbox_inv t" and "d \<in> set (source_analysis_inbox t)" and "\<not> blocks d t"
  shows "inbox_inv (put_head (head_of_delivery d) t)"
proof -
  note inv = inbox_invD [OF assms(1)]
  let ?t = "put_head (head_of_delivery d) t"
  have new: "h \<in> set (source_analysis_heads t) \<or> h = head_of_delivery d" if "h \<in> set (source_analysis_heads ?t)" for h
    using that by (auto simp: put_head_def head_update_same dest!: set_upsert)
  have "inbox_fk ?t"
    unfolding inbox_fk_def refers_iff
  proof
    fix h assume "h \<in> set (source_analysis_heads ?t)"
    from new [OF this] show "\<exists>i \<in> set (source_analysis_inbox ?t). in_event i = hd_event h"
      using inv(1) assms(2) by (auto simp: inbox_fk_def refers_iff head_of_delivery_def)
  qed
  moreover have "heads_unique ?t" by (rule heads.put_ok [OF inv(3)])
  moreover have "head_of_delivery i = h \<and> \<not> blocks i ?t"
    if h: "h \<in> set (source_analysis_heads ?t)" and i: "i \<in> set (source_analysis_inbox t)" "in_event i = hd_event h" for h i
  proof (cases "h \<in> set (source_analysis_heads t)")
    case True
    from inv(5) [OF True i] show ?thesis using blocks_cong [of ?t t i] by simp
  next
    case False
    then have h': "h = head_of_delivery d" using new [OF h] by blast
    then have "i = d" using key_unique_same [OF inv(2) i(1) assms(2)] i(2) by (simp add: head_of_delivery_def)
    then show ?thesis using h' assms(3) blocks_cong [of ?t t i] by simp
  qed
  ultimately show ?thesis using inv(2,4) unfolding inbox_inv_def by simp
qed

text \<open>Fewer tombstones block less.\<close>

lemma blocks_fewer:
  "set (ai_archive_tombstones t') \<subseteq> set (ai_archive_tombstones t) \<Longrightarrow>
   set (social_tombstones t') \<subseteq> set (social_tombstones t) \<Longrightarrow> blocks d t' \<Longrightarrow> blocks d t"
  unfolding blocks_def tombstone_blocks_def social_tombstone_blocks_def exists_where_def list_ex_iff
  by (auto split: if_splits)

lemma inbox_inv_purge:
  assumes "inbox_inv t"
  shows "inbox_inv (purge scope t)"
proof (rule inbox_inv_shrink [OF assms])
  let ?p = "purge_inbox scope t"
  have same: "source_analysis_heads (purge scope t) = source_analysis_heads ?p"
    "source_analysis_inbox (purge scope t) = source_analysis_inbox ?p"
    "ai_archive_tombstones (purge scope t) = ai_archive_tombstones ?p"
    "social_tombstones (purge scope t) = social_tombstones ?p"
    by (simp_all add: purge_def purge_analysis_def purge_recaps_def purge_inbox_def Let_def cong: deletion_scope.case_cong)
  let ?gone = "\<lambda>r. case scope of ScopeTenant tn \<Rightarrow> hd_tenant r = tn
       | ScopeSource tn _ doc \<Rightarrow> hd_tenant r = tn \<and> hd_source r = doc
       | ScopeArchive tn a \<Rightarrow> hd_tenant r = tn \<and> exists_where (\<lambda>i. in_event i = hd_event r \<and> in_archive i = Some a \<and>
           in_subject i \<noteq> tombstone_subject) (source_analysis_inbox t)"
  show heads: "source_analysis_heads (purge scope t) = delete_where ?gone (source_analysis_heads t)"
    unfolding same by (simp add: purge_inbox_def)
  show inbox: "source_analysis_inbox (purge scope t) = delete_where (inbox_in_scope scope) (source_analysis_inbox t)"
    unfolding same by (simp add: purge_inbox_def)
  show "inbox_fk (purge scope t)"
    unfolding inbox_fk_def refers_iff
  proof
    fix h assume "h \<in> set (source_analysis_heads (purge scope t))"
    then have h: "h \<in> set (source_analysis_heads t)" "\<not> ?gone h" unfolding heads by (simp_all add: table_simps)
    then obtain i where i: "i \<in> set (source_analysis_inbox t)" "in_event i = hd_event h"
      using inbox_invD(1) [OF assms] by (auto simp: inbox_fk_def refers_iff)
    have "head_of_delivery i = h" using inbox_invD(5) [OF assms h(1) i] by blast
    then have "hd_tenant h = in_tenant i" "hd_source h = in_source i" by (auto simp: head_of_delivery_def)
    then have "\<not> inbox_in_scope scope i"
      using h(2) i by (cases scope) (auto simp: inbox_in_scope_def exists_where_def list_ex_iff)
    then show "\<exists>i \<in> set (source_analysis_inbox (purge scope t)). in_event i = hd_event h"
      using i unfolding inbox by (auto simp: table_simps)
  qed
  show "\<not> blocks i (purge scope t)" if "\<not> blocks i t" for i
    using that by (rule contrapos_nn) (erule blocks_fewer [rotated 2], simp_all add: same purge_inbox_def table_simps)
qed

section \<open>Every operation keeps it\<close>

lemma insert_receipt_Inr:
  "insert_receipt d w = (Inr b, w') \<Longrightarrow>
     b = (receipt_at (in_event d) (tables w) = None) \<and> tables w' = put_receipt d (tables w)"
  by (auto simp: insert_receipt_def dest!: sql_Inr split: if_splits)

lemma accept_body_keeps:
  assumes "inbox_inv (tables w)" and "in_family d = ''ai_archive'' \<Longrightarrow> in_archive d \<noteq> None"
    and "accept_body d w = (Inr r, w')"
  shows "inbox_inv (tables w')"
proof -
  obtain b w1 new w2 where
    1: "(if in_family d \<in> {''ai_archive'', ''social''} then query inbox_query (blocks d) else exec_return False) w = (Inr b, w1)"
    and 2: "insert_receipt d w1 = (Inr new, w2)"
    and rest: "(if \<not> new then exec_return Duplicate
     else if b then exec_return Tombstoned
     else exec_bind (affect inbox_query (head_written (head_of_delivery d)) (put_head (head_of_delivery d)))
       (\<lambda>n. exec_return (if n = 1 then AcceptedCurrent else AcceptedHistorical))) w2 = (Inr r, w')"
    using assms(3) unfolding accept_body_def by (elim exec_bind_InrE) (rule that; assumption)
  have b: "b = blocks d (tables w)" "tables w1 = tables w"
    using 1 by (auto simp: blocks_def exec_return_Inr dest!: query_Inr split: if_splits)
  note ins = insert_receipt_Inr [OF 2]
  show ?thesis
  proof (cases new)
    case False
    then have "put_receipt d (tables w) = tables w" using ins b by (intro receipts.put_stored) auto
    then show ?thesis using False rest ins b assms(1) by (simp add: exec_return_Inr)
  next
    case True
    then have "inbox_inv (tables w2)" using inbox_inv_receipt [OF assms(1)] assms(2) ins b by simp
    moreover have "d \<in> set (source_analysis_inbox (tables w2))"
      using True ins b by (auto simp: put_receipt_def insert_nothing_def receipt_at_def find_where_Some_iff table_simps)
    moreover have "blocks d (tables w2) = b" using ins b blocks_cong [of "tables w2" "tables w" d] by simp
    ultimately show ?thesis
      using True rest inbox_inv_head [of "tables w2" d]
      by (auto simp: exec_return_Inr elim!: exec_bind_InrE dest!: affect_Inr split: if_splits)
  qed
qed

lemma or_encode_Inr: "or_encode v w = (Inr j, w') \<longleftrightarrow> v = Some j \<and> w' = w"
  by (auto simp: or_encode_def exec_return_def exec_fail_def split: option.split)

lemma or_encode_same: "or_encode v w = (r, w') \<Longrightarrow> w' = w"
  by (auto simp: or_encode_def exec_return_def exec_fail_def split: option.splits)

lemma inbox_inv_content:
  assumes "content t' = content t"
  shows "inbox_inv t' = inbox_inv t"
proof (rule inbox_inv_cong)
  show "source_analysis_heads t' = source_analysis_heads t"
    using arg_cong [OF assms, of source_analysis_heads] unfolding content_def by simp
  show "source_analysis_inbox t' = source_analysis_inbox t" using arg_cong [OF assms, of source_analysis_inbox] unfolding content_def by simp
  show "ai_archive_tombstones t' = ai_archive_tombstones t" using arg_cong [OF assms, of ai_archive_tombstones] unfolding content_def by simp
  show "social_tombstones t' = social_tombstones t" using arg_cong [OF assms, of social_tombstones] unfolding content_def by simp
qed

lemma inbox_inv_deleted: "inbox_inv t \<Longrightarrow> same_content (purge scope t) t' \<Longrightarrow> inbox_inv t'"
  using inbox_inv_content [of t' "purge scope t"] inbox_inv_purge [of t scope] unfolding same_content_iff by blast

lemma delete_derived_keeps:
  assumes "inbox_inv (tables w)" and "delete_derived scope w = (Inr x, w')"
  shows "inbox_inv (tables w')"
proof -
  obtain c where "run_child_first_deletion scope w = (Inr c, w')"
    using assms(2)
    by (auto simp: delete_derived_def execute_deletion_def exec_map_err_Inr exec_return_Inr elim!: exec_bind_InrE)
  then show ?thesis using inbox_inv_deleted [OF assms(1)] run_child_first_deletion_Inr by blast
qed

lemma remove_source_state_Inr:
  "remove_source_state family tn doc w = (Inr x, w') \<Longrightarrow>
     tables w' = (tables w)\<lparr>
       source_analysis_heads := delete_where (\<lambda>r. hd_family r = family \<and> hd_tenant r = tn \<and> hd_source r = doc)
         (source_analysis_heads (tables w)),
       source_analysis_inbox := delete_where (\<lambda>r. in_family r = family \<and> in_tenant r = tn \<and> in_source r = doc)
         (source_analysis_inbox (tables w))\<rparr> \<and> restrict_fk (tables w')"
  by (auto simp: remove_source_state_def exec_return_Inr elim!: exec_bind_InrE dest!: statement_results)

lemma social_removed_keeps:
  assumes "inbox_inv (tables w)" and "social_removed_body event removed reason w = (Inr x, w')"
  shows "inbox_inv (tables w')"
proof -
  let ?t = "put_removal event removed reason (tables w)"
  obtain claimed w1 where
    1: "sql inbox_query (\<lambda>t. Inr (\<not> exists_where (\<lambda>r. so_event r = event) (social_tombstones t),
       put_removal event removed reason t)) w = (Inr claimed, w1)"
    and rest: "(if \<not> claimed then exec_return Duplicate
     else exec_bind (remove_source_state ''social'' (rv_owner removed) (rv_source removed)) (\<lambda>_.
       exec_bind (delete_derived (source_scope (rv_owner removed) (rv_source removed))) (\<lambda>_.
       exec_return AcceptedCurrent))) w1 = (Inr x, w')"
    using assms(2) unfolding social_removed_body_def by (elim exec_bind_InrE) (rule that; assumption)
  have w1: "claimed = (\<not> exists_where (\<lambda>r. so_event r = event) (social_tombstones (tables w)))" "tables w1 = ?t"
    using sql_Inr [OF 1] by auto
  show ?thesis
  proof (cases claimed)
    case False
    then have "?t = tables w" using w1(1) by (simp add: put_removal_def insert_nothing_def)
    then show ?thesis using False rest w1(2) assms(1) by (simp add: exec_return_Inr)
  next
    case True
    obtain u w2 where 2: "remove_source_state ''social'' (rv_owner removed) (rv_source removed) w1 = (Inr u, w2)"
      and 3: "delete_derived (source_scope (rv_owner removed) (rv_source removed)) w2 = (Inr (), w')"
      using rest True by (auto simp: exec_return_Inr elim!: exec_bind_InrE)
    note w2 = remove_source_state_Inr [OF 2]
    have "inbox_inv (tables w2)"
    proof (rule inbox_inv_shrink [OF assms(1)])
      show "inbox_fk (tables w2)" using w2 [THEN conjunct2] by (simp add: restrict_fk_def)
      show "\<not> blocks i (tables w2)"
        if "h \<in> set (source_analysis_heads (tables w2))" "head_of_delivery i = h" "\<not> blocks i (tables w)" for h i
        using that w2 unfolding w1(2)
        by (auto simp: put_removal_def blocks_def tombstone_blocks_def social_tombstone_blocks_def head_of_delivery_def
            insert_nothing_def exists_where_def list_ex_iff delete_where_def split: if_splits)
    qed (use w2 w1(2) in \<open>simp_all add: put_removal_def\<close>)
    then show ?thesis by (rule delete_derived_keeps [OF _ 3])
  qed
qed

lemma record_tombstone_Inr:
  "record_tombstone event ts w = (Inr x, w') \<Longrightarrow>
     tables w' = (tables w)\<lparr>ai_archive_tombstones := ai_archive_tombstones (tables w) @ [tombstone_row_of event ts]\<rparr>"
  by (auto simp: record_tombstone_def dest!: sql_Inr split: if_splits)

definition with_tombstone :: "uuid \<Rightarrow> archive_tombstone \<Rightarrow> db \<Rightarrow> db" where
  "with_tombstone event ts t = t\<lparr>ai_archive_tombstones := ai_archive_tombstones t @ [tombstone_row_of event ts]\<rparr>"

text \<open>After the rows of its subject have gone, a tombstone blocks no head that is left.\<close>

lemma remove_tombstoned_Inr:
  assumes "remove_tombstoned_inbox_sources ts w = (Inr x, w')"
  shows "\<exists>p q. tables w' = (tables w)\<lparr>source_analysis_heads := delete_where p (source_analysis_heads (tables w)),
      source_analysis_inbox := delete_where q (source_analysis_inbox (tables w))\<rparr> \<and> restrict_fk (tables w') \<and>
    (\<forall>h i. \<not> p h \<and> i \<in> set (source_analysis_inbox (tables w)) \<and> in_event i = hd_event h \<and> head_of_delivery i = h \<and>
      (in_family i = ''ai_archive'' \<longrightarrow> in_archive i \<noteq> None) \<and> \<not> blocks i (tables w) \<longrightarrow>
      \<not> blocks i (with_tombstone event ts (tables w')))"
proof (cases "ts_subject ts = SubjectArchive")
  case True
  let ?t = "tables w"
  let ?p = "\<lambda>r. hd_family r = ''ai_archive'' \<and> hd_tenant r = ts_owner ts \<and>
    exists_where (\<lambda>i. in_event i = hd_event r \<and> in_archive i = Some (ts_archive ts)) (source_analysis_inbox ?t)"
  let ?q = "\<lambda>r. in_family r = ''ai_archive'' \<and> in_tenant r = ts_owner ts \<and> in_archive r = Some (ts_archive ts)"
  have eq: "tables w' = ?t\<lparr>source_analysis_heads := delete_where ?p (source_analysis_heads ?t),
    source_analysis_inbox := delete_where ?q (source_analysis_inbox ?t)\<rparr>" and fk: "restrict_fk (tables w')"
    using assms True
    by (auto simp: remove_tombstoned_inbox_sources_def exec_return_Inr elim!: exec_bind_InrE dest!: statement_results)
  show ?thesis
    using fk True unfolding eq
    by (intro exI [of _ ?p] exI [of _ ?q])
      (auto simp: with_tombstone_def blocks_def tombstone_blocks_def social_tombstone_blocks_def head_of_delivery_def
        tombstone_row_of_def exists_where_def list_ex_iff)
next
  case False
  let ?p = "\<lambda>r. hd_family r = ''ai_archive'' \<and> hd_tenant r = ts_owner ts \<and> hd_source r = tombstone_source ts"
  let ?q = "\<lambda>r. in_family r = ''ai_archive'' \<and> in_tenant r = ts_owner ts \<and> in_source r = tombstone_source ts"
  have run: "remove_source_state ''ai_archive'' (ts_owner ts) (tombstone_source ts) w = (Inr x, w')"
    using assms False by (cases "ts_subject ts") (simp_all add: remove_tombstoned_inbox_sources_def)
  have parts: "fst (tombstone_subject_parts (ts_subject ts)) \<noteq> ''archive''"
    "snd (tombstone_subject_parts (ts_subject ts)) = Some (tombstone_source ts)"
    using False by (cases "ts_subject ts"; simp add: tombstone_source_def)+
  show ?thesis
    using remove_source_state_Inr [OF run] parts
    by (intro exI [of _ ?p] exI [of _ ?q])
      (auto simp: with_tombstone_def blocks_def tombstone_blocks_def social_tombstone_blocks_def head_of_delivery_def
        tombstone_row_of_def exists_where_def list_ex_iff)
qed

lemma remove_tombstoned_keeps:
  assumes "inbox_inv (tables w)" and "remove_tombstoned_inbox_sources ts w = (Inr x, w')"
  shows "inbox_inv (with_tombstone event ts (tables w'))" and "inbox_inv (tables w')"
proof -
  let ?t = "tables w" and ?t' = "with_tombstone event ts (tables w')"
  obtain p q where eq: "tables w' = ?t\<lparr>source_analysis_heads := delete_where p (source_analysis_heads ?t),
      source_analysis_inbox := delete_where q (source_analysis_inbox ?t)\<rparr>" and fk: "restrict_fk (tables w')"
    and free: "\<forall>h i. \<not> p h \<and> i \<in> set (source_analysis_inbox ?t) \<and> in_event i = hd_event h \<and> head_of_delivery i = h \<and>
      (in_family i = ''ai_archive'' \<longrightarrow> in_archive i \<noteq> None) \<and> \<not> blocks i ?t \<longrightarrow> \<not> blocks i ?t'"
    using remove_tombstoned_Inr [OF assms(2)] by blast
  have heads: "source_analysis_heads ?t' = delete_where p (source_analysis_heads ?t)"
    and inbox: "source_analysis_inbox ?t' = delete_where q (source_analysis_inbox ?t)"
    unfolding with_tombstone_def eq by simp_all
  show "inbox_inv ?t'"
  proof (rule inbox_inv_shrink [OF assms(1) heads inbox])
    show "inbox_fk ?t'" using fk by (simp add: restrict_fk_def inbox_fk_def with_tombstone_def)
    fix h i assume h: "h \<in> set (source_analysis_heads ?t')" and i: "i \<in> set (source_analysis_inbox ?t')"
      and *: "in_event i = hd_event h" "head_of_delivery i = h" "\<not> blocks i ?t"
    have "\<not> p h" using h unfolding heads by (simp add: table_simps)
    moreover have "i \<in> set (source_analysis_inbox ?t)" using i unfolding inbox by (simp add: table_simps)
    ultimately show "\<not> blocks i ?t'" using free * inbox_invD(4) [OF assms(1)] by blast
  qed
  show "inbox_inv (tables w')"
  proof (rule inbox_inv_shrink [OF assms(1)])
    show "inbox_fk (tables w')" using fk by (simp add: restrict_fk_def)
    show "\<not> blocks i (tables w')" if "\<not> blocks i ?t" for i
      using that by (rule contrapos_nn) (erule blocks_fewer [rotated 2], simp_all add: eq)
  qed (simp_all add: eq)
qed

lemma tombstone_body_keeps:
  assumes "inbox_inv (tables w)" and "in_event d = event" and "in_archive d \<noteq> None"
    and "tombstone_body event ts d w = (Inr r, w')"
  shows "inbox_inv (tables w')"
proof -
  obtain foreign w1 w2 dup w3 where 1: "subject_belongs_only_to_another_tenant (tombstone_scope ts) w = (Inr foreign, w1)"
    and 2: "exec_guard (\<not> foreign) ForeignSubjectRefused w1 = (Inr (), w2)"
    and 3: "query inbox_query (\<lambda>t. receipt_at event t \<noteq> None) w2 = (Inr dup, w3)"
    and rest: "(if dup then exec_return Duplicate
     else exec_bind (remove_tombstoned_inbox_sources ts) (\<lambda>_.
       exec_bind (insert_receipt d) (\<lambda>inserted.
       if \<not> inserted then exec_return Duplicate
       else exec_bind (record_tombstone event ts) (\<lambda>_.
         exec_bind (delete_derived (tombstone_scope ts)) (\<lambda>_.
         exec_return AcceptedCurrent))))) w3 = (Inr r, w')"
    using assms(4) unfolding tombstone_body_def by (elim exec_bind_InrE) (rule that; simp)
  have "tables w1 = tables w"
    using 1 by (auto simp: subject_belongs_only_to_another_tenant_def exec_return_Inr dest!: query_Inr split: deletion_scope.splits)
  then have inv: "inbox_inv (tables w3)"
    using 2 query_Inr [OF 3] assms(1) by (simp add: exec_guard_apply split: if_splits)
  show ?thesis
  proof (cases dup)
    case True
    then show ?thesis using rest inv by (simp add: exec_return_Inr)
  next
    case False
    obtain u w4 new w5 where 4: "remove_tombstoned_inbox_sources ts w3 = (Inr u, w4)"
      and 5: "insert_receipt d w4 = (Inr new, w5)"
      and rest: "(if \<not> new then exec_return Duplicate
       else exec_bind (record_tombstone event ts) (\<lambda>_.
         exec_bind (delete_derived (tombstone_scope ts)) (\<lambda>_.
         exec_return AcceptedCurrent))) w5 = (Inr r, w')"
      using rest False by simp (elim exec_bind_InrE, rule that; simp)
    note keeps = remove_tombstoned_keeps [OF inv 4] and ins = insert_receipt_Inr [OF 5]
    show ?thesis
    proof (cases new)
      case False
      then have "put_receipt d (tables w4) = tables w4" using ins by (intro receipts.put_stored) auto
      then show ?thesis using rest False ins keeps(2) by (simp add: exec_return_Inr)
    next
      case True
      obtain v w6 where 6: "record_tombstone event ts w5 = (Inr v, w6)"
        and 7: "delete_derived (tombstone_scope ts) w6 = (Inr (), w')"
        using rest True by (auto simp: exec_return_Inr elim!: exec_bind_InrE)
      have "tables w6 = put_receipt d (with_tombstone event ts (tables w4))"
        using record_tombstone_Inr [OF 6] ins by (simp add: with_tombstone_def put_receipt_def)
      moreover have "receipt_at (in_event d) (with_tombstone event ts (tables w4)) = None"
        using ins True by (simp add: with_tombstone_def receipt_at_def)
      ultimately have "inbox_inv (tables w6)" using inbox_inv_receipt [OF keeps(1)] assms(3) by simp
      then show ?thesis by (rule delete_derived_keeps [OF _ 7])
    qed
  qed
qed

section \<open>Every interleaving\<close>

text \<open>
  The steps of the inbox: every delivery handler, the deletions of the erasure protocol, and anything
  else that leaves the tables alone. The subject of a message is whatever arrived; the outcome of a
  step, error or not, is not constrained, and neither are the faults of its statements.
\<close>

inductive inbox_step :: "source_contracts \<Rightarrow> world \<Rightarrow> world \<Rightarrow> bool" for ct where
  social: "accept_social ct event subject snapshot w = (r, w') \<Longrightarrow> inbox_step ct w w'"
| conversation: "accept_ai_conversation ct event subject provenance conversation w = (r, w') \<Longrightarrow> inbox_step ct w w'"
| project: "accept_ai_project ct event subject provenance project digest w = (r, w') \<Longrightarrow> inbox_step ct w w'"
| social_removal: "accept_social_removed event removed w = (r, w') \<Longrightarrow> inbox_step ct w w'"
| tombstone: "accept_ai_tombstone ct event subject ts w = (r, w') \<Longrightarrow> inbox_step ct w w'"
| deletion: "delete_scope scope w = (r, w') \<Longrightarrow> inbox_step ct w w'"
| elsewhere: "tables w' = tables w \<Longrightarrow> inbox_step ct w w'"

lemma accept_keeps:
  assumes "inbox_inv (tables w)" and "in_family d = ''ai_archive'' \<Longrightarrow> in_archive d \<noteq> None" and "accept d w = (r, w')"
  shows "inbox_inv (tables w')"
  by (rule transact_keeps [where P = inbox_inv, OF assms(3) [unfolded accept_def] assms(1)]) (rule accept_body_keeps [OF _ assms(2)])

lemma inbox_step_keeps:
  assumes "inbox_step ct w w'" and "inbox_inv (tables w)"
  shows "inbox_inv (tables w')"
  using assms
proof (cases rule: inbox_step.cases)
  case (social event subject snapshot r)
  then show ?thesis
    using assms(2)
    by (auto simp: accept_social_def exec_bind_def or_encode_def exec_fail_def exec_return_def
        split: option.splits elim!: accept_keeps [rotated 2])
next
  case (conversation event subject provenance conv r)
  then show ?thesis
    using assms(2)
    by (auto simp: accept_ai_conversation_def exec_bind_def exec_guard_apply or_encode_def exec_fail_def exec_return_def
        split: if_splits option.splits elim!: accept_keeps [rotated 2])
next
  case (project event subject provenance proj digest r)
  then show ?thesis
    using assms(2)
    by (auto simp: accept_ai_project_def exec_bind_def exec_guard_apply or_encode_def exec_fail_def exec_return_def
        split: if_splits option.splits elim!: accept_keeps [rotated 2])
next
  case (social_removal event removed r)
  then show ?thesis
    using assms(2)
    by (auto simp: accept_social_removed_def exec_fail_def split: option.splits
        elim!: transact_keeps [where P = inbox_inv] social_removed_keeps [rotated])
next
  case (tombstone event subject ts r)
  have "inbox_inv (tables v')" if "inbox_inv (tables v)"
    "tombstone_body event ts (tombstone_delivery event subject ts j) v = (Inr x, v')" for v v' j x
    by (rule tombstone_body_keeps [OF that(1) _ _ that(2)]) (simp_all add: tombstone_delivery_def)
  then show ?thesis
    using tombstone assms(2)
    by (auto simp: accept_ai_tombstone_def exec_bind_def or_encode_def exec_fail_def exec_return_def
        split: option.splits elim!: transact_keeps [where P = inbox_inv])
next
  case (deletion scope r)
  have "same_content (tables w) (tables w') \<or> same_content (purge scope (tables w)) (tables w')"
    using delete_scope_result [OF deletion] by blast
  then show ?thesis
    using assms(2) inbox_inv_deleted [of "tables w" scope "tables w'"] inbox_inv_content [of "tables w'" "tables w"]
    unfolding same_content_iff by blast
next
  case elsewhere
  then show ?thesis using assms(2) by simp
qed

lemma inbox_steps_keep: "(inbox_step ct)\<^sup>*\<^sup>* w w' \<Longrightarrow> inbox_inv (tables w) \<Longrightarrow> inbox_inv (tables w')"
  by (induction rule: rtranclp_induct) (auto intro: inbox_step_keeps)

lemma inbox_inv_empty: "inbox_inv empty_db"
  by (simp add: inbox_inv_def inbox_fk_def refers_def heads_unique_def key_unique_def empty_db_def)

lemma unblocked_social:
  "\<not> blocks d t \<Longrightarrow> in_family d = ''social'' \<Longrightarrow> b \<in> set (social_tombstones t) \<Longrightarrow> so_tenant b = in_tenant d \<Longrightarrow>
     so_source b = in_source d \<Longrightarrow> so_removed b < in_observed d"
  by (auto simp: blocks_def social_tombstone_blocks_def exists_where_def list_ex_iff not_le)

lemma unblocked_archive:
  "\<not> blocks d t \<Longrightarrow> in_family d = ''ai_archive'' \<Longrightarrow> b \<in> set (ai_archive_tombstones t) \<Longrightarrow> tb_tenant b = in_tenant d \<Longrightarrow>
     tb_kind b = ''archive'' \<and> in_archive d = Some (tb_archive b) \<or>
     tb_kind b \<in> {''conversation'', ''project'', ''artifact''} \<and> tb_subject b = Some (in_source d) \<Longrightarrow>
     tb_observed b < in_observed d"
  unfolding blocks_def tombstone_blocks_def exists_where_def list_ex_iff by (auto simp: not_le)

text \<open>
  C30: a removed source does not come back. Whatever the order in which captures, removals, tombstones
  and deletions of any tenants arrive, and whatever faults their statements meet, every head is
  the delivery its receipt stores, is the only head of its source, and is later than every removal and tombstone
  recorded against it: a capture that a removal covers never becomes current.
\<close>

theorem removed_source_stays_removed:
  assumes "tables w = empty_db" and "(inbox_step ct)\<^sup>*\<^sup>* w w'" and "h \<in> set (source_analysis_heads (tables w'))"
  shows "\<exists>d \<in> set (source_analysis_inbox (tables w')). head_of_delivery d = h \<and>
    head_at (head_key h) (tables w') = Some h \<and>
    (\<forall>b \<in> set (social_tombstones (tables w')).
       hd_family h = ''social'' \<and> so_tenant b = hd_tenant h \<and> so_source b = hd_source h \<longrightarrow> so_removed b < hd_observed h) \<and>
    (\<forall>b \<in> set (ai_archive_tombstones (tables w')).
       hd_family h = ''ai_archive'' \<and> tb_tenant b = hd_tenant h \<and>
       (tb_kind b = ''archive'' \<and> in_archive d = Some (tb_archive b) \<or>
        tb_kind b \<in> {''conversation'', ''project'', ''artifact''} \<and> tb_subject b = Some (hd_source h)) \<longrightarrow>
       tb_observed b < hd_observed h)"
proof -
  note inv = inbox_invD [OF inbox_steps_keep [OF assms(2)]]
  have t: "inbox_inv (tables w)" by (simp add: assms(1) inbox_inv_empty)
  obtain d where d: "d \<in> set (source_analysis_inbox (tables w'))" "in_event d = hd_event h"
    using inv(1) [OF t] assms(3) by (auto simp: inbox_fk_def refers_iff)
  have "head_at (head_key h) (tables w') = Some h"
    using inv(3) [OF t] assms(3) unfolding heads_unique_def head_at_def by (rule key_unique_find)
  moreover have h: "head_of_delivery d = h" and free: "\<not> blocks d (tables w')" using inv(5) [OF t assms(3) d] by blast+
  ultimately show ?thesis
    using d(1) unblocked_social [OF free] unblocked_archive [OF free] by (intro bexI [of _ d]) (auto simp: head_of_delivery_def)
qed

text \<open>A world in which one capture arrived, and the removal of another source.\<close>

definition sample_contracts :: source_contracts where
  "sample_contracts = \<lparr>encode_social = \<lambda>s. Some (JObj [(''source'', JStr (ss_source s))]), encode_conversation = \<lambda>_. None,
     encode_project = \<lambda>_. None, encode_tombstone = \<lambda>ts. Some (JObj [(''archive'', JStr (ts_archive ts))]),
     valid_conversation = \<lambda>_ _. True, digest_verified = \<lambda>_. True, valid_project = \<lambda>_ _. True\<rparr>"

definition sample_capture :: "string \<Rightarrow> int \<Rightarrow> social_snapshot" where
  "sample_capture src at = \<lparr>ss_owner = ''user:1'', ss_source = src, ss_platform = ''x'', ss_text = Some ''hello'',
     ss_digest = replicate 64 (CHR ''a''), ss_captured = at, ss_rest = JNull\<rparr>"

definition sample_removal :: "string \<Rightarrow> int \<Rightarrow> social_removed" where
  "sample_removal src at = \<lparr>rv_owner = ''user:1'', rv_source = src, rv_reason = Some (JStr ''deleted''), rv_removed = at\<rparr>"

definition sample_tombstone :: "string \<Rightarrow> int \<Rightarrow> archive_tombstone" where
  "sample_tombstone conv at = \<lparr>ts_subject = SubjectConversation conv, ts_owner = ''user:1'', ts_archive = ''a'',
     ts_evidence = replicate 64 (CHR ''b''), ts_observed = at, ts_rest = JNull\<rparr>"

text \<open>Evaluating a deletion on a small database.\<close>

lemmas deletion_stages = delete_derived_def execute_deletion_def run_child_first_deletion_def scope_source_ids_def queue_scope_blobs_def
  delete_user_content_def delete_collection_items_def delete_collections_def delete_tags_def delete_inbox_state_def
  delete_source_state_def delete_recap_state_def delete_by_scope_def delete_analysis_rows_def insert_audit_row_def
  enqueue_digests_def get_now_def new_uuid_def cascade_outputs_def cascade_sources_def runs_of_sources_def
  scope_digests_def output_children_where_def audited_counts_def i32_count_def source_scope_def

lemmas table_eval = delete_where_def select_where_def count_where_def exists_where_def find_where_def insert_nothing_def
  restrict_fk_def analysis_fk_def recap_fk_def inbox_fk_def refers_def empty_db_def Let_def

lemmas sample_eval = sample_contracts_def sample_capture_def sample_removal_def sample_tombstone_def or_encode_def
  is_digest_hex_def is_hex_digit_def list_all_iff bind_works exec_simps exec_map_err_def delete_rows_works

definition sample_removed :: world where
  "sample_removed = snd (accept_social_removed 2 (sample_removal ''r'' 30) empty_world)"

lemma sample_removed_tables:
  "no_faults sample_removed" "source_analysis_heads (tables sample_removed) = []"
  "source_analysis_inbox (tables sample_removed) = []" "ai_archive_tombstones (tables sample_removed) = []"
  "social_tombstones (tables sample_removed) =
    [\<lparr>so_event = 2, so_tenant = ''user:1'', so_source = ''r'', so_reason = ''deleted'', so_removed = 30\<rparr>]"
  by (simp_all add: sample_removed_def accept_social_removed_def transact_def social_removed_body_def put_removal_def
      remove_source_state_def deletion_stages table_eval sample_eval cong: exec_bind_first)

definition sample_blocked :: world where
  "sample_blocked = snd (accept_social sample_contracts 1 ''social.source.captured.v1'' (sample_capture ''r'' 20) sample_removed)"

definition sample_captured :: world where
  "sample_captured = snd (accept_social sample_contracts 3 ''social.source.captured.v1'' (sample_capture ''s'' 10) sample_blocked)"

lemmas accept_eval = accept_social_def accept_def accept_body_def transact_def insert_receipt_def
  put_receipt_def put_head_def head_of_delivery_def upsert_def delivery_ok_def blocks_def social_tombstone_blocks_def
  exists_where_def insert_nothing_def receipt_at_def find_where_def sample_eval

lemma sample_blocked_tables:
  "no_faults sample_blocked" "source_analysis_heads (tables sample_blocked) = []"
  "map in_event (source_analysis_inbox (tables sample_blocked)) = [1]"
  "social_tombstones (tables sample_blocked) = social_tombstones (tables sample_removed)"
  by (simp_all add: sample_blocked_def accept_eval sample_removed_tables cong: exec_bind_first)

lemma sample_captured_heads: "map hd_source (source_analysis_heads (tables sample_captured)) = [''s'']"
proof -
  let ?d = "(sample_delivery 3 10)\<lparr>in_snapshot := JObj [(''source'', JStr ''s'')]\<rparr>"
  obtain i where i: "source_analysis_inbox (tables sample_blocked) = [i]" "in_event i = 1"
    using sample_blocked_tables(3) by auto
  have "accept_social sample_contracts 3 ''social.source.captured.v1'' (sample_capture ''s'' 10) sample_blocked = accept ?d sample_blocked"
    by (simp add: accept_social_def sample_eval sample_delivery_def)
  moreover have "\<exists>r. accept ?d sample_blocked =
      (Inr r, sample_blocked\<lparr>tables := put_head (head_of_delivery ?d) (put_receipt ?d (tables sample_blocked))\<rparr>)"
    using i sample_blocked_tables sample_removed_tables
    by (intro accept_works)
      (simp_all add: sample_delivery_def delivery_ok_def is_digest_hex_def is_hex_digit_def list_all_iff receipt_at_def
        find_where_def blocks_def social_tombstone_blocks_def exists_where_def)
  ultimately show ?thesis
    using sample_blocked_tables(2) by (auto simp: sample_captured_def put_head_def upsert_def exists_where_def head_of_delivery_def sample_delivery_def)
qed

theorem removed_source_stays_removed_witness:
  "\<exists>h d. source_analysis_heads (tables sample_captured) = [h] \<and> hd_source h = ''s'' \<and>
     head_of_delivery d = h \<and> head_at (head_key h) (tables sample_captured) = Some h"
proof -
  obtain h where h: "source_analysis_heads (tables sample_captured) = [h]" "hd_source h = ''s''"
    using sample_captured_heads by auto
  have step: "(inbox_step ct)\<^sup>*\<^sup>* v (snd (accept_social ct event subject snapshot w))"
    "(inbox_step ct)\<^sup>*\<^sup>* v (snd (accept_social_removed event removed w))"
    if m: "(inbox_step ct)\<^sup>*\<^sup>* v w" for ct v w event subject snapshot removed
    using m by (auto elim!: rtranclp.rtrancl_into_rtrancl intro: inbox_step.social inbox_step.social_removal simp: prod_eq_iff)
  have "(inbox_step sample_contracts)\<^sup>*\<^sup>* empty_world sample_captured"
    unfolding sample_captured_def sample_blocked_def sample_removed_def by (intro step rtranclp.rtrancl_refl)
  from removed_source_stays_removed [OF _ this, of h] h show ?thesis by auto
qed

section \<open>A tombstone delivered again\<close>

lemma delete_rows_Inl: "delete_rows e get upd cascade p w = (Inl e', w') \<Longrightarrow> e' = e"
  by (auto simp: delete_rows_def Let_def dest!: sql_Inl split: if_splits)

lemmas statement_errors = query_Inl delete_rows_Inl

lemma remove_tombstoned_Inl:
  assumes "remove_tombstoned_inbox_sources ts w = (Inl e, w')"
  shows "e = inbox_query"
proof -
  have "remove_source_state family tn doc w = (Inl e, w') \<Longrightarrow> e = inbox_query" for family tn doc
    by (auto simp: remove_source_state_def exec_return_Inl elim!: exec_bind_InlE dest!: statement_errors)
  then show ?thesis
    using assms
    by (auto simp: remove_tombstoned_inbox_sources_def exec_return_Inl elim!: exec_bind_InlE
        dest!: statement_errors split: archive_subject.splits)
qed

definition guard_without_receipt :: "uuid \<Rightarrow> db \<Rightarrow> bool" where
  "guard_without_receipt event t =
     (exists_where (\<lambda>b. tb_event b = event) (ai_archive_tombstones t) \<and> receipt_at event t = None)"

lemma tombstone_body_stuck:
  assumes "guard_without_receipt event (tables w)" and "in_event d = event" and "tombstone_body event ts d w = (r, w')"
  shows "r = Inl inbox_query \<or> r = Inl ForeignSubjectRefused"
proof -
  have foreign: "tables w1 = tables w" if "subject_belongs_only_to_another_tenant sc w = (Inr b, w1)" for sc b w1
    using that by (auto simp: subject_belongs_only_to_another_tenant_def exec_return_Inr dest!: query_Inr split: deletion_scope.splits)
  have foreign_error: "e = inbox_query" if "subject_belongs_only_to_another_tenant sc w = (Inl e, w1)" for sc e w1
    using that by (auto simp: subject_belongs_only_to_another_tenant_def exec_return_Inl dest!: query_Inl split: deletion_scope.splits)
  have removed: "guard_without_receipt event (tables w4)"
    if "remove_tombstoned_inbox_sources ts w3 = (Inr u, w4)" and "tables w3 = tables w" for w3 u w4
  proof -
    from that obtain p q where "tables w4 = (tables w)\<lparr>source_analysis_heads := delete_where p (source_analysis_heads (tables w)),
        source_analysis_inbox := delete_where q (source_analysis_inbox (tables w))\<rparr>"
      using remove_tombstoned_Inr [of ts w3 u w4] by metis
    then show ?thesis
      using assms(1) by (auto simp: guard_without_receipt_def receipt_at_def find_where_Some_iff table_simps)
  qed
  have tail: "(exec_bind (insert_receipt d) (\<lambda>inserted.
       if \<not> inserted then exec_return Duplicate
       else exec_bind (record_tombstone event ts) (\<lambda>_. m))) v = (r, v') \<Longrightarrow>
     guard_without_receipt event (tables v) \<Longrightarrow> r = Inl inbox_query"
    for m :: "(world, source_inbox_error, source_inbox_admission) exec" and v r v'
  proof -
    assume run: "(exec_bind (insert_receipt d) (\<lambda>inserted.
       if \<not> inserted then exec_return Duplicate
       else exec_bind (record_tombstone event ts) (\<lambda>_. m))) v = (r, v')" and g: "guard_without_receipt event (tables v)"
    obtain b v1 where ins: "insert_receipt d v = (b, v1)" by fastforce
    show "r = Inl inbox_query"
    proof (cases b)
      case (Inl e)
      then have "e = inbox_query" using ins by (auto simp: insert_receipt_def dest!: sql_Inl split: if_splits)
      then show ?thesis using run ins Inl by (simp add: exec_bind_def)
    next
      case (Inr new)
      have new: "new" and g1: "exists_where (\<lambda>b. tb_event b = event) (ai_archive_tombstones (tables v1))"
        using insert_receipt_Inr ins Inr g assms(2) by (auto simp: guard_without_receipt_def)
      obtain x v2 where rec: "record_tombstone event ts v1 = (x, v2)" by fastforce
      have "x = Inl inbox_query" using rec g1 by (auto simp: record_tombstone_def sql_def split: if_splits)
      then show ?thesis using run ins Inr new rec by (simp add: exec_bind_def)
    qed
  qed
  obtain b1 w1 where 1: "subject_belongs_only_to_another_tenant (tombstone_scope ts) w = (b1, w1)" by fastforce
  show ?thesis
  proof (cases b1)
    case (Inl e)
    then show ?thesis using assms(3) 1 foreign_error by (auto simp: tombstone_body_def exec_bind_def)
  next
    case (Inr refused)
    obtain b2 w2 where 2: "query inbox_query (\<lambda>t. receipt_at event t \<noteq> None) w1 = (b2, w2)" by fastforce
    have t1: "tables w1 = tables w" using foreign 1 Inr by blast
    have "b2 = Inr False \<or> b2 = Inl inbox_query" and t2: "tables w2 = tables w"
      using query_cases [OF 2] t1 assms(1) by (auto simp: guard_without_receipt_def)
    moreover obtain b3 w3 where 3: "remove_tombstoned_inbox_sources ts w2 = (b3, w3)" by fastforce
    ultimately show ?thesis
      using assms(3) 1 Inr 2 3 remove_tombstoned_Inl [of ts w2] removed [of w2 _ w3] tail [of _ w3 r w']
      by (cases b3) (auto simp: tombstone_body_def exec_bind_def exec_guard_apply split: if_splits)
  qed
qed


text \<open>Two tombstones of one conversation reach such a state.\<close>

definition sample_first_tombstone :: world where
  "sample_first_tombstone =
     snd (accept_ai_tombstone sample_contracts 1 tombstone_subject (sample_tombstone ''c'' 10) empty_world)"

definition sample_tombstoned :: world where
  "sample_tombstoned =
     snd (accept_ai_tombstone sample_contracts 2 tombstone_subject (sample_tombstone ''c'' 20) sample_first_tombstone)"

lemmas tombstone_eval = accept_ai_tombstone_def transact_def tombstone_body_def tombstone_delivery_def
  subject_belongs_only_to_another_tenant_def tombstone_scope_def remove_tombstoned_inbox_sources_def
  remove_source_state_def insert_receipt_def put_receipt_def record_tombstone_def tombstone_row_of_def receipt_at_def
  tombstone_source_def delivery_ok_def tombstone_subject_def guard_without_receipt_def deletion_stages table_eval sample_eval

lemma sample_first_tombstone_tables:
  "no_faults sample_first_tombstone \<and> (\<exists>i d. tables sample_first_tombstone = empty_db\<lparr>source_analysis_inbox := [i],
     ai_archive_tombstones := [tombstone_row_of 1 (sample_tombstone ''c'' 10)], deletion_records := d\<rparr> \<and>
     i = tombstone_delivery 1 tombstone_subject (sample_tombstone ''c'' 10) (JObj [(''archive'', JStr ''a'')]))"
  by (simp add: sample_first_tombstone_def tombstone_eval cong: exec_bind_first)

lemma sample_tombstoned_guard: "guard_without_receipt 1 (tables sample_tombstoned)"
proof -
  obtain i d where t: "tables sample_first_tombstone = empty_db\<lparr>source_analysis_inbox := [i],
     ai_archive_tombstones := [tombstone_row_of 1 (sample_tombstone ''c'' 10)], deletion_records := d\<rparr>"
    and i: "i = tombstone_delivery 1 tombstone_subject (sample_tombstone ''c'' 10) (JObj [(''archive'', JStr ''a'')])"
    and w: "no_faults sample_first_tombstone"
    using sample_first_tombstone_tables by blast
  show ?thesis by (simp add: sample_tombstoned_def t i w tombstone_eval cong: exec_bind_first)
qed


end
