(* ===== verification/User_Content.thy ===== *)
theory User_Content
  imports Foreign_Keys Chunking
begin

text \<open>
  User content (\<open>user_content.rs\<close>): tags, collections, read states, feedback and highlight anchors
  of one tenant. Unicode lower-casing is a parameter; \<open>create_highlight\<close> is not here.
\<close>

section \<open>Values\<close>

datatype user_content_error = UserInvalid | UserNotFound | UserConflict | UserDatabaseValue | UserDatabase

record tag_name =
  tn_display :: string
  tn_normalized :: string

record analysis_state =
  as_read :: read_state
  as_favorite :: bool

datatype highlight_style = Yellow | Green | Blue | Pink | Purple | Underline

fun style_name :: "highlight_style \<Rightarrow> string" where
  "style_name Yellow = ''yellow''"
| "style_name Green = ''green''"
| "style_name Blue = ''blue''"
| "style_name Pink = ''pink''"
| "style_name Purple = ''purple''"
| "style_name Underline = ''underline''"

datatype feedback_category = Incorrect | MissingContext | UnsupportedClaim | PoorQuality | OtherIssue

fun feedback_name :: "feedback_category \<Rightarrow> string" where
  "feedback_name Incorrect = ''incorrect''"
| "feedback_name MissingContext = ''missing_context''"
| "feedback_name UnsupportedClaim = ''unsupported_claim''"
| "feedback_name PoorQuality = ''poor_quality''"
| "feedback_name OtherIssue = ''other''"

datatype collection_target = TargetAnalysis uuid | TargetSource uuid

record collection_item =
  ci_position :: nat
  ci_target :: collection_target

definition bounded :: "string \<Rightarrow> nat \<Rightarrow> user_content_error + string" where
  "bounded v max_chars =
     (let v = trim v in if v = [] \<or> length v > max_chars then Inl UserInvalid else Inr v)"

definition tag_name :: "(string \<Rightarrow> string) \<Rightarrow> string \<Rightarrow> user_content_error + tag_name" where
  "tag_name lower v =
     (case bounded v 128 of
        Inl e \<Rightarrow> Inl e
      | Inr display \<Rightarrow>
          (let normalized = lower display in
           if length normalized > 128 then Inl UserInvalid
           else Inr \<lparr>tn_display = display, tn_normalized = normalized\<rparr>))"

definition as_i32 :: "nat \<Rightarrow> user_content_error + nat" where
  "as_i32 n = (if n < 2 ^ 31 then Inr n else Inl UserInvalid)"

text \<open>The join all guards share: an accepted output whose run analyses a source of the tenant.\<close>

definition accepted_of :: "string \<Rightarrow> uuid \<Rightarrow> db \<Rightarrow> bool" where
  "accepted_of tenant out t = exists_where (\<lambda>o'. ao_id o' = out \<and> ao_accepted o' \<and>
     exists_where (\<lambda>r. ar_id r = ao_run o' \<and>
       exists_where (\<lambda>s. sr_id s = ar_source r \<and> sr_tenant s = tenant) (source_refs t)) (analysis_runs t)) (analysis_outputs t)"

section \<open>Tags\<close>

definition text_1_to :: "nat \<Rightarrow> string \<Rightarrow> bool" where
  "text_1_to n s = (1 \<le> length s \<and> length s \<le> n)"

definition tag_ok :: "tag_row \<Rightarrow> bool" where
  "tag_ok r = (text_1_to 128 (tg_normalized r) \<and> text_1_to 128 (tg_display r))"

definition create_tag :: "string \<Rightarrow> tag_name \<Rightarrow> (world, user_content_error, uuid) exec" where
  "create_tag tenant name =
     exec_bind new_uuid (\<lambda>id.
     sql UserDatabase (\<lambda>t.
       let row = \<lparr>tg_id = id, tg_tenant = tenant, tg_normalized = tn_normalized name, tg_display = tn_display name\<rparr> in
       if \<not> tag_ok row then Inl UserDatabase
       else if exists_where (\<lambda>r. tg_id r = id \<or> tg_tenant r = tenant \<and> tg_normalized r = tn_normalized name) (tags t)
       then Inl UserConflict
       else Inr (id, t\<lparr>tags := tags t @ [row]\<rparr>)))"

definition tagging_key :: "tagging_row \<Rightarrow> uuid \<times> uuid" where
  "tagging_key r = (tt_tag r, tt_output r)"

definition put_tagging :: "tagging_row \<Rightarrow> tagging_row list \<Rightarrow> tagging_row list" where
  "put_tagging r = insert_nothing (\<lambda>x. tagging_key x = tagging_key r) r"

definition tag_analysis :: "string \<Rightarrow> uuid \<Rightarrow> uuid \<Rightarrow> (world, user_content_error, unit) exec" where
  "tag_analysis tenant tag out =
     exec_bind (sql UserDatabase (\<lambda>t.
       let row = \<lparr>tt_tag = tag, tt_output = out, tt_tenant = tenant\<rparr> in
       if exists_where (\<lambda>g. tg_id g = tag \<and> tg_tenant g = tenant) (tags t) \<and> accepted_of tenant out t
       then Inr (\<not> exists_where (\<lambda>x. tagging_key x = tagging_key row) (analysis_taggings t),
                 t\<lparr>analysis_taggings := put_tagging row (analysis_taggings t)\<rparr>)
       else Inr (False, t))) (\<lambda>inserted.
     if inserted then exec_return ()
     else exec_bind (query UserDatabase (\<lambda>t.
         exists_where (\<lambda>r. tt_tenant r = tenant \<and> tt_tag r = tag \<and> tt_output r = out) (analysis_taggings t))) (\<lambda>exists.
       exec_guard exists UserNotFound))"

definition merge_tags_body :: "string \<Rightarrow> uuid \<Rightarrow> uuid \<Rightarrow> (world, user_content_error, unit) exec" where
  "merge_tags_body tenant source destination =
     exec_bind (query UserDatabase (\<lambda>t.
       count_where (\<lambda>g. tg_tenant g = tenant \<and> tg_id g \<in> {source, destination}) (tags t))) (\<lambda>found.
     exec_bind (exec_guard (found = 2) UserNotFound) (\<lambda>_.
     exec_bind (execute UserDatabase (\<lambda>t. t\<lparr>analysis_taggings :=
       fold put_tagging (map (\<lambda>r. r\<lparr>tt_tag := destination\<rparr>)
         (select_where (\<lambda>r. tt_tag r = source \<and> tt_tenant r = tenant) (analysis_taggings t))) (analysis_taggings t)\<rparr>)) (\<lambda>_.
     execute UserDatabase (\<lambda>t.
       let gone = {g \<in> set (tags t). tg_id g = source \<and> tg_tenant g = tenant} in
       cascade_tags (tg_id ` gone) (t\<lparr>tags := delete_where (\<lambda>g. tg_id g = source \<and> tg_tenant g = tenant) (tags t)\<rparr>)))))"

definition merge_tags :: "string \<Rightarrow> uuid \<Rightarrow> uuid \<Rightarrow> (world, user_content_error, unit) exec" where
  "merge_tags tenant source destination =
     (if source = destination then exec_fail UserInvalid
      else transact UserDatabase (merge_tags_body tenant source destination))"

section \<open>Collections\<close>

definition create_collection :: "string \<Rightarrow> string \<Rightarrow> (world, user_content_error, uuid) exec" where
  "create_collection tenant name =
     exec_bind new_uuid (\<lambda>id.
     exec_bind (exec_result (bounded name 256)) (\<lambda>name.
     sql UserDatabase (\<lambda>t.
       if exists_where (\<lambda>c. cl_id c = id) (collections t) then Inl UserDatabase
       else Inr (id, t\<lparr>collections := collections t @ [\<lparr>cl_id = id, cl_tenant = tenant, cl_name = name\<rparr>]\<rparr>))))"

definition lock_collection :: "string \<Rightarrow> uuid \<Rightarrow> (world, user_content_error, unit) exec" where
  "lock_collection tenant collection =
     exec_bind (query UserDatabase (\<lambda>t. exists_where (\<lambda>c. cl_id c = collection \<and> cl_tenant c = tenant) (collections t)))
       (\<lambda>found. exec_guard found UserNotFound)"

fun target_exists :: "string \<Rightarrow> collection_target \<Rightarrow> db \<Rightarrow> bool" where
  "target_exists tenant (TargetAnalysis i) t = accepted_of tenant i t"
| "target_exists tenant (TargetSource i) t = exists_where (\<lambda>s. sr_id s = i \<and> sr_tenant s = tenant) (source_refs t)"

definition ensure_target :: "string \<Rightarrow> collection_target \<Rightarrow> (world, user_content_error, unit) exec" where
  "ensure_target tenant target =
     exec_bind (query UserDatabase (target_exists tenant target)) (\<lambda>found. exec_guard found UserNotFound)"

text \<open>
  \<open>set constraints ... deferred\<close> moves the check of \<open>unique (collection_id, position)\<close> to the commit.
\<close>

definition defer_positions :: "(world, user_content_error, unit) exec" where
  "defer_positions = query UserDatabase (\<lambda>_. ())"

definition positions_unique :: "db \<Rightarrow> bool" where
  "positions_unique t = key_unique (\<lambda>r. (it_collection r, it_position r)) (collection_items t)"

definition check_deferred :: "(world, user_content_error, unit) exec" where
  "check_deferred = (\<lambda>w. (if positions_unique (tables w) then Inr () else Inl UserDatabase, w))"

definition count_items :: "uuid \<Rightarrow> (world, user_content_error, nat) exec" where
  "count_items collection =
     exec_bind (query UserDatabase (\<lambda>t. count_where (\<lambda>r. it_collection r = collection) (collection_items t))) (\<lambda>n.
     exec_bind (exec_guard (n < 2 ^ 32) UserDatabaseValue) (\<lambda>_. exec_return n))"

fun item_row_of :: "string \<Rightarrow> uuid \<Rightarrow> collection_target \<Rightarrow> nat \<Rightarrow> item_row" where
  "item_row_of tenant collection (TargetAnalysis i) position =
     \<lparr>it_collection = collection, it_position = position, it_tenant = tenant, it_output = Some i, it_source = None\<rparr>"
| "item_row_of tenant collection (TargetSource i) position =
     \<lparr>it_collection = collection, it_position = position, it_tenant = tenant, it_output = None, it_source = Some i\<rparr>"

fun is_target :: "collection_target \<Rightarrow> item_row \<Rightarrow> bool" where
  "is_target (TargetAnalysis i) r = (it_output r = Some i)"
| "is_target (TargetSource i) r = (it_source r = Some i)"

definition insert_item :: "string \<Rightarrow> uuid \<Rightarrow> collection_target \<Rightarrow> nat \<Rightarrow> (world, user_content_error, unit) exec" where
  "insert_item tenant collection target position =
     exec_bind (exec_result (as_i32 position)) (\<lambda>p.
     sql UserDatabase (\<lambda>t.
       if exists_where (\<lambda>r. it_collection r = collection \<and> is_target target r) (collection_items t) then Inl UserConflict
       else Inr ((), t\<lparr>collection_items := collection_items t @ [item_row_of tenant collection target p]\<rparr>)))"

definition touch :: "uuid \<Rightarrow> (world, user_content_error, unit) exec" where
  "touch collection = query UserDatabase (\<lambda>_. ())"

text \<open>\<open>position\<close> is an \<open>integer\<close> column: a sum past its range is an error of the statement.\<close>

definition shift_items :: "uuid \<Rightarrow> nat \<Rightarrow> (world, user_content_error, unit) exec" where
  "shift_items collection p = sql UserDatabase (\<lambda>t.
     let t' = t\<lparr>collection_items := update_where (\<lambda>r. it_collection r = collection \<and> it_position r \<ge> p)
       (\<lambda>r. r\<lparr>it_position := it_position r + 1\<rparr>) (collection_items t)\<rparr> in
     if list_all (\<lambda>r. it_collection r = collection \<longrightarrow> it_position r < 2 ^ 31) (collection_items t') then Inr ((), t') else Inl UserDatabase)"

definition add_item_body ::
  "string \<Rightarrow> uuid \<Rightarrow> collection_target \<Rightarrow> nat option \<Rightarrow> (world, user_content_error, collection_item) exec" where
  "add_item_body tenant collection target position =
     exec_bind (lock_collection tenant collection) (\<lambda>_.
     exec_bind (ensure_target tenant target) (\<lambda>_.
     exec_bind defer_positions (\<lambda>_.
     exec_bind (count_items collection) (\<lambda>count.
     let position = (case position of None \<Rightarrow> count | Some p \<Rightarrow> p) in
     exec_bind (exec_guard (position \<le> count) UserInvalid) (\<lambda>_.
     exec_bind (exec_result (as_i32 position)) (\<lambda>p.
     exec_bind (shift_items collection p) (\<lambda>_.
     exec_bind (insert_item tenant collection target position) (\<lambda>_.
     exec_bind (touch collection) (\<lambda>_.
     exec_bind check_deferred (\<lambda>_.
     exec_return \<lparr>ci_position = position, ci_target = target\<rparr>))))))))))"

definition add_collection_item ::
  "string \<Rightarrow> uuid \<Rightarrow> collection_target \<Rightarrow> nat option \<Rightarrow> (world, user_content_error, collection_item) exec" where
  "add_collection_item tenant collection target position =
     transact UserDatabase (add_item_body tenant collection target position)"

definition item_position :: "uuid \<Rightarrow> collection_target \<Rightarrow> (world, user_content_error, nat) exec" where
  "item_position collection target =
     exec_bind (query UserDatabase (\<lambda>t. map_option it_position
       (find_where (\<lambda>r. it_collection r = collection \<and> is_target target r) (collection_items t)))) (\<lambda>row.
     case row of None \<Rightarrow> exec_fail UserNotFound | Some p \<Rightarrow> exec_return p)"

definition moved_position :: "nat \<Rightarrow> nat \<Rightarrow> nat \<Rightarrow> nat" where
  "moved_position current destination p =
     (if destination > current \<and> p > current \<and> p \<le> destination then p - 1
      else if destination < current \<and> p \<ge> destination \<and> p < current then p + 1
      else p)"

definition set_item_position :: "uuid \<Rightarrow> collection_target \<Rightarrow> nat \<Rightarrow> (world, user_content_error, unit) exec" where
  "set_item_position collection target position =
     exec_bind (exec_result (as_i32 position)) (\<lambda>p.
     exec_bind (affect UserDatabase
       (\<lambda>t. count_where (\<lambda>r. it_collection r = collection \<and> is_target target r) (collection_items t))
       (\<lambda>t. t\<lparr>collection_items := update_where (\<lambda>r. it_collection r = collection \<and> is_target target r)
         (\<lambda>r. r\<lparr>it_position := p\<rparr>) (collection_items t)\<rparr>)) (\<lambda>changed.
     exec_guard (changed = 1) UserNotFound))"

definition move_item_body :: "string \<Rightarrow> uuid \<Rightarrow> collection_target \<Rightarrow> nat \<Rightarrow> (world, user_content_error, unit) exec" where
  "move_item_body tenant collection target destination =
     exec_bind (lock_collection tenant collection) (\<lambda>_.
     exec_bind defer_positions (\<lambda>_.
     exec_bind (item_position collection target) (\<lambda>current.
     exec_bind (count_items collection) (\<lambda>count.
     exec_bind (exec_guard (count \<ge> 1) UserNotFound) (\<lambda>_.
     exec_bind (exec_guard (destination \<le> count - 1) UserInvalid) (\<lambda>_.
     exec_bind (if current = destination then exec_return ()
       else exec_bind (exec_result (as_i32 current)) (\<lambda>c.
         exec_bind (exec_result (as_i32 destination)) (\<lambda>d.
         exec_bind (execute UserDatabase (\<lambda>t. t\<lparr>collection_items :=
           update_where (\<lambda>r. it_collection r = collection)
             (\<lambda>r. r\<lparr>it_position := moved_position c d (it_position r)\<rparr>) (collection_items t)\<rparr>)) (\<lambda>_.
         exec_bind (set_item_position collection target destination) (\<lambda>_.
         touch collection))))) (\<lambda>_.
     check_deferred)))))))"

definition move_collection_item :: "string \<Rightarrow> uuid \<Rightarrow> collection_target \<Rightarrow> nat \<Rightarrow> (world, user_content_error, unit) exec" where
  "move_collection_item tenant collection target destination =
     transact UserDatabase (move_item_body tenant collection target destination)"

fun item_of_row :: "item_row \<Rightarrow> collection_item option" where
  "item_of_row r =
     (case (it_output r, it_source r) of
        (Some i, None) \<Rightarrow> Some \<lparr>ci_position = it_position r, ci_target = TargetAnalysis i\<rparr>
      | (None, Some i) \<Rightarrow> Some \<lparr>ci_position = it_position r, ci_target = TargetSource i\<rparr>
      | _ \<Rightarrow> None)"

definition list_collection_items :: "string \<Rightarrow> uuid \<Rightarrow> (world, user_content_error, collection_item list) exec" where
  "list_collection_items tenant collection =
     exec_bind (query UserDatabase (\<lambda>t. exists_where (\<lambda>c. cl_id c = collection \<and> cl_tenant c = tenant) (collections t))) (\<lambda>found.
     exec_bind (exec_guard found UserNotFound) (\<lambda>_.
     exec_bind (query UserDatabase (\<lambda>t. sort_key it_position
       (select_where (\<lambda>r. it_collection r = collection \<and> it_tenant r = tenant) (collection_items t)))) (\<lambda>rows.
     if list_all (\<lambda>r. item_of_row r \<noteq> None) rows then exec_return (map (the \<circ> item_of_row) rows)
     else exec_fail UserDatabaseValue)))"

section \<open>States and feedback\<close>

definition state_key :: "user_state_row \<Rightarrow> string \<times> uuid" where
  "state_key r = (us_tenant r, us_output r)"

definition stored_state :: "string \<Rightarrow> uuid \<Rightarrow> db \<Rightarrow> user_state_row option" where
  "stored_state tenant out t = find_where (\<lambda>r. state_key r = (tenant, out)) (user_states t)"

definition put_state :: "string \<Rightarrow> uuid \<Rightarrow> (user_state_row \<Rightarrow> user_state_row) \<Rightarrow> user_state_row \<Rightarrow> db \<Rightarrow> db" where
  "put_state tenant out change row t = t\<lparr>user_states :=
     upsert (\<lambda>r. state_key r = (tenant, out)) (\<lambda>_. True) change row (user_states t)\<rparr>"

definition set_analysis_state ::
  "string \<Rightarrow> uuid \<Rightarrow> analysis_state \<Rightarrow> (world, user_content_error, analysis_state) exec" where
  "set_analysis_state tenant out st =
     exec_bind (sql UserDatabase (\<lambda>t.
       let t' = put_state tenant out (\<lambda>r. r\<lparr>us_read := as_read st, us_favorite := as_favorite st\<rparr>)
         \<lparr>us_tenant = tenant, us_output = out, us_read = as_read st, us_favorite = as_favorite st\<rparr> t in
       if accepted_of tenant out t then Inr (stored_state tenant out t', t') else Inr (None, t))) (\<lambda>row.
     case row of
       None \<Rightarrow> exec_fail UserNotFound
     | Some r \<Rightarrow> exec_return \<lparr>as_read = us_read r, as_favorite = us_favorite r\<rparr>)"

definition set_read_state :: "string \<Rightarrow> uuid \<Rightarrow> read_state \<Rightarrow> (world, user_content_error, read_state) exec" where
  "set_read_state tenant out v =
     exec_bind (sql UserDatabase (\<lambda>t.
       let t' = put_state tenant out (\<lambda>r. r\<lparr>us_read := v\<rparr>)
         \<lparr>us_tenant = tenant, us_output = out, us_read = v, us_favorite = False\<rparr> t in
       if accepted_of tenant out t then Inr (stored_state tenant out t', t') else Inr (None, t))) (\<lambda>row.
     case row of None \<Rightarrow> exec_fail UserNotFound | Some r \<Rightarrow> exec_return (us_read r))"

definition bounded_detail :: "string option \<Rightarrow> user_content_error + string option" where
  "bounded_detail d =
     (case d of None \<Rightarrow> Inr None
      | Some v \<Rightarrow> (case bounded v 2000 of Inl e \<Rightarrow> Inl e | Inr v \<Rightarrow> Inr (Some v)))"

definition record_feedback ::
  "string \<Rightarrow> uuid \<Rightarrow> feedback_category \<Rightarrow> string option \<Rightarrow> (world, user_content_error, uuid) exec" where
  "record_feedback tenant out category detail =
     exec_bind (exec_result (bounded_detail detail)) (\<lambda>detail.
     exec_bind new_uuid (\<lambda>id.
     exec_bind (sql UserDatabase (\<lambda>t.
       if accepted_of tenant out t
       then Inr (True, t\<lparr>analysis_feedback := analysis_feedback t @ [\<lparr>fb_id = id, fb_tenant = tenant,
         fb_output = out, fb_category = feedback_name category, fb_detail = detail\<rparr>]\<rparr>)
       else Inr (False, t))) (\<lambda>stored.
     if stored then exec_return id else exec_fail UserNotFound)))"

text \<open>The blocks of a document with their identifiers; only headings and paragraphs carry text.\<close>

datatype ir_block = IrHeading uuid string | IrParagraph uuid string | IrOther uuid

fun anchor_text :: "uuid \<Rightarrow> ir_block list \<Rightarrow> string option" where
  "anchor_text b [] = None"
| "anchor_text b (IrHeading i text # rest) = (if i = b then Some text else anchor_text b rest)"
| "anchor_text b (IrParagraph i text # rest) = (if i = b then Some text else anchor_text b rest)"
| "anchor_text b (IrOther _ # rest) = anchor_text b rest"

definition validate_highlight_anchor :: "ir_block list \<Rightarrow> uuid \<Rightarrow> nat \<Rightarrow> nat \<Rightarrow> user_content_error + unit" where
  "validate_highlight_anchor blocks block_id start end_offset =
     (case anchor_text block_id blocks of
        None \<Rightarrow> Inl UserNotFound
      | Some text \<Rightarrow>
          if length text \<ge> 2 ^ 32 then Inl UserInvalid
          else if start \<ge> end_offset \<or> end_offset > length text then Inl UserInvalid else Inr ())"

end
