(* ===== verification/User_Content_Correct.thy ===== *)
theory User_Content_Correct
  imports User_Content Deletion_Correct "HOL-Library.Multiset"
begin

text \<open>
  Collections refine lists: a collection holds the list of its targets, adding inserts and moving
  moves an element, whatever the positions the statements write. Tags merge into one.
\<close>

section \<open>The list a collection holds\<close>

definition target_of :: "item_row \<Rightarrow> collection_target" where
  "target_of r = (case it_output r of Some i \<Rightarrow> TargetAnalysis i | None \<Rightarrow> TargetSource (the (it_source r)))"

definition row_ok :: "item_row \<Rightarrow> bool" where
  "row_ok r = (item_of_row r \<noteq> None)"

definition rows_of :: "uuid \<Rightarrow> db \<Rightarrow> item_row list" where
  "rows_of c t = filter (\<lambda>r. it_collection r = c) (collection_items t)"

definition placed :: "uuid \<Rightarrow> db \<Rightarrow> (nat \<times> collection_target) multiset" where
  "placed c t = image_mset (\<lambda>r. (it_position r, target_of r)) (mset (rows_of c t))"

text \<open>The abstraction: collection \<open>c\<close> of \<open>tenant\<close> holds the list \<open>xs\<close>.\<close>

definition holds :: "string \<Rightarrow> uuid \<Rightarrow> db \<Rightarrow> collection_target list \<Rightarrow> bool" where
  "holds tenant c t xs =
     (exists_where (\<lambda>k. cl_id k = c \<and> cl_tenant k = tenant) (collections t) \<and>
      list_all (\<lambda>r. it_tenant r = tenant \<and> row_ok r) (rows_of c t) \<and>
      placed c t = mset (enumerate 0 xs) \<and> distinct xs)"

definition insert_at :: "nat \<Rightarrow> 'a \<Rightarrow> 'a list \<Rightarrow> 'a list" where
  "insert_at p x xs = take p xs @ x # drop p xs"

definition move_to :: "nat \<Rightarrow> 'a \<Rightarrow> 'a list \<Rightarrow> 'a list" where
  "move_to p x xs = insert_at p x (remove1 x xs)"

lemma mset_insert_at: "mset (insert_at p x xs) = add_mset x (mset xs)"
proof -
  have "mset (insert_at p x xs) = add_mset x (mset (take p xs @ drop p xs))" by (simp add: insert_at_def del: append_take_drop_id)
  then show ?thesis by simp
qed

lemma row_ok_target: "row_ok r \<Longrightarrow> is_target x r \<longleftrightarrow> target_of r = x"
  by (cases x) (auto simp: row_ok_def target_of_def split: option.splits)

lemma item_of_row_target: "row_ok r \<Longrightarrow> item_of_row r = Some \<lparr>ci_position = it_position r, ci_target = target_of r\<rparr>"
  by (auto simp: row_ok_def target_of_def split: option.splits)

lemma row_of_item [simp]:
  "row_ok (item_row_of tn c x p)" "target_of (item_row_of tn c x p) = x"
  "it_position (item_row_of tn c x p) = p" "it_collection (item_row_of tn c x p) = c" "it_tenant (item_row_of tn c x p) = tn"
  by (cases x; simp add: row_ok_def target_of_def)+

lemma mset_enumerate_insert:
  "p \<le> length xs \<Longrightarrow> mset (enumerate 0 (insert_at p x xs)) =
     add_mset (p, x) (image_mset (\<lambda>(q, y). (if q \<ge> p then q + 1 else q, y)) (mset (enumerate 0 xs)))"
proof -
  assume p: "p \<le> length xs"
  have early: "map (\<lambda>(q, y). (if q \<ge> p then q + 1 else q, y)) (enumerate 0 (take p xs)) = enumerate 0 (take p xs)"
    by (rule map_idI) (auto simp: in_set_enumerate_eq)
  have late: "map (\<lambda>(q, y). (if q \<ge> p then q + 1 else q, y)) (enumerate p (drop p xs)) = enumerate (Suc p) (drop p xs)"
    by (rule nth_equalityI) (simp_all add: nth_enumerate_eq)
  have "enumerate 0 xs = enumerate 0 (take p xs) @ enumerate p (drop p xs)"
    using enumerate_append_eq [of 0 "take p xs" "drop p xs"] p by (simp add: min_def)
  then have "mset (map (\<lambda>(q, y). (if q \<ge> p then q + 1 else q, y)) (enumerate 0 xs)) =
      mset (enumerate 0 (take p xs)) + mset (enumerate (Suc p) (drop p xs))"
    using early late by simp
  then show ?thesis using p by (simp add: insert_at_def enumerate_append_eq min_def)
qed

lemma insert_at_remove1:
  assumes "i < length xs" and "xs ! i = x" and "distinct xs"
  shows "insert_at i x (remove1 x xs) = xs"
    and "length (remove1 x xs) = length xs - 1"
proof -
  have split: "xs = take i xs @ x # drop (Suc i) xs" using id_take_nth_drop [OF assms(1)] assms(2) by simp
  have "x \<notin> set (take i xs)" using assms(3) split by (metis distinct_append disjoint_iff list.set_intros(1))
  then have rest: "remove1 x xs = take i xs @ drop (Suc i) xs" by (subst split) (simp add: remove1_append)
  show "insert_at i x (remove1 x xs) = xs"
    using split assms(1) by (simp add: rest insert_at_def min_def)
  show "length (remove1 x xs) = length xs - 1" using assms(1) by (simp add: rest min_def)
qed

text \<open>A move renumbers as a removal followed by an insertion does.\<close>

lemma moved_position_shifts:
  "moved_position i j (if q \<ge> i then q + 1 else q) = (if q \<ge> j then q + 1 else q)" if "i \<noteq> j"
  using that by (auto simp: moved_position_def)

lemma mset_enumerate_move:
  assumes "i < length xs" and "j < length xs" and "xs ! i = x" and "distinct xs" and "i \<noteq> j"
  shows "mset (enumerate 0 (move_to j x xs)) =
    image_mset (\<lambda>(q, y). (if y = x then j else moved_position i j q, y)) (mset (enumerate 0 xs))"
proof -
  let ?ys = "remove1 x xs" and ?f = "\<lambda>(q, y). (if y = x then j else moved_position i j q, y)"
  note again = insert_at_remove1 [OF assms(1,3,4)]
  have fresh: "x \<notin> set ?ys" using assms(4) by simp
  have "mset (enumerate 0 xs) = add_mset (i, x) (image_mset (\<lambda>(q, y). (if q \<ge> i then q + 1 else q, y)) (mset (enumerate 0 ?ys)))"
    using mset_enumerate_insert [of i ?ys x] again assms(1) by simp
  then have "image_mset ?f (mset (enumerate 0 xs)) =
      add_mset (j, x) (image_mset (\<lambda>(q, y). ?f (if q \<ge> i then q + 1 else q, y)) (mset (enumerate 0 ?ys)))"
    by (simp add: image_mset.compositionality comp_def case_prod_unfold)
  also have "image_mset (\<lambda>(q, y). ?f (if q \<ge> i then q + 1 else q, y)) (mset (enumerate 0 ?ys)) =
      image_mset (\<lambda>(q, y). (if q \<ge> j then q + 1 else q, y)) (mset (enumerate 0 ?ys))"
  proof (rule image_mset_cong)
    fix z assume "z \<in># mset (enumerate 0 ?ys)"
    then obtain q y where z: "z = (q, y)" "y \<in> set ?ys" by (cases z) (auto simp: in_set_enumerate_eq)
    then have "y \<noteq> x" using fresh by blast
    then show "(\<lambda>(q, y). ?f (if q \<ge> i then q + 1 else q, y)) z = (\<lambda>(q, y). (if q \<ge> j then q + 1 else q, y)) z"
      unfolding z using moved_position_shifts [OF assms(5)] by simp
  qed
  finally show ?thesis
    using mset_enumerate_insert [of j ?ys x] assms(1,2) again(2) by (simp add: move_to_def)
qed

section \<open>Positions stay unique\<close>

lemma distinct_by_group:
  "distinct (map (\<lambda>r. (f r, g r)) rs) \<longleftrightarrow> (\<forall>c. distinct (map g (filter (\<lambda>r. f r = c) rs)))"
  by (induction rs) (auto simp: image_iff)

lemma positions_unique_iff: "positions_unique t \<longleftrightarrow> (\<forall>c. distinct (map it_position (rows_of c t)))"
  by (simp add: positions_unique_def key_unique_def distinct_by_group rows_of_def)

lemma placed_distinct:
  assumes "placed c t = mset (enumerate 0 xs)"
  shows "distinct (map it_position (rows_of c t))"
proof -
  have "mset (map it_position (rows_of c t)) = image_mset fst (placed c t)"
    by (simp add: placed_def image_mset.compositionality comp_def)
  also have "\<dots> = mset [0..<length xs]" unfolding assms by (metis mset_map map_fst_enumerate add_0)
  finally show ?thesis using mset_eq_imp_distinct_iff by fastforce
qed

lemma placed_length: "placed c t = mset (enumerate 0 xs) \<Longrightarrow> length (rows_of c t) = length xs"
  by (metis placed_def size_image_mset size_mset length_enumerate)

lemma placed_iff:
  assumes "placed c t = mset (enumerate 0 xs)"
  shows "(\<exists>r \<in> set (rows_of c t). it_position r = p \<and> target_of r = x) \<longleftrightarrow> p < length xs \<and> xs ! p = x"
proof -
  have "(p, x) \<in># placed c t \<longleftrightarrow> (p, x) \<in> set (enumerate 0 xs)" unfolding assms by simp
  then show ?thesis by (auto simp: placed_def in_set_enumerate_eq)
qed

lemma rows_position_bound:
  assumes "placed c t = mset (enumerate 0 xs)" and "r \<in> set (rows_of c t)"
  shows "it_position r < length xs" and "xs ! it_position r = target_of r"
  using placed_iff [OF assms(1), of "it_position r" "target_of r"] assms(2) by blast+

section \<open>What the statements write\<close>

definition shifted_tables :: "uuid \<Rightarrow> nat \<Rightarrow> db \<Rightarrow> db" where
  "shifted_tables c p t = t\<lparr>collection_items := update_where (\<lambda>r. it_collection r = c \<and> it_position r \<ge> p)
     (\<lambda>r. r\<lparr>it_position := it_position r + 1\<rparr>) (collection_items t)\<rparr>"

definition inserted_tables :: "string \<Rightarrow> uuid \<Rightarrow> collection_target \<Rightarrow> nat \<Rightarrow> db \<Rightarrow> db" where
  "inserted_tables tn c x p t = (shifted_tables c p t)\<lparr>collection_items :=
     collection_items (shifted_tables c p t) @ [item_row_of tn c x p]\<rparr>"

definition moved_tables :: "uuid \<Rightarrow> collection_target \<Rightarrow> nat \<Rightarrow> nat \<Rightarrow> db \<Rightarrow> db" where
  "moved_tables c x i j t = t\<lparr>collection_items :=
     update_where (\<lambda>r. it_collection r = c \<and> is_target x r) (\<lambda>r. r\<lparr>it_position := j\<rparr>)
       (update_where (\<lambda>r. it_collection r = c) (\<lambda>r. r\<lparr>it_position := moved_position i j (it_position r)\<rparr>)
         (collection_items t))\<rparr>"

lemma collections_written [simp]:
  "collections (inserted_tables tn c x p t) = collections t" "collections (moved_tables c x i j t) = collections t"
  by (simp_all add: inserted_tables_def shifted_tables_def moved_tables_def)

lemma rows_update_where:
  assumes "\<And>r. it_collection (f r) = it_collection r"
  shows "filter (\<lambda>r. it_collection r = c) (update_where q f rs) = map (\<lambda>r. if q r then f r else r) (filter (\<lambda>r. it_collection r = c) rs)"
  using assms by (induction rs) (auto simp: update_where_def)

lemma rows_shifted:
  "rows_of k (shifted_tables c p t) = (if k = c then map (\<lambda>r. if it_position r \<ge> p then r\<lparr>it_position := it_position r + 1\<rparr> else r)
     (rows_of k t) else rows_of k t)"
  by (auto simp: rows_of_def shifted_tables_def rows_update_where intro!: map_idI)

lemma is_target_position [simp]: "is_target x (r\<lparr>it_position := q\<rparr>) = is_target x r"
  by (cases x) simp_all

lemma target_in_shifted:
  "(\<exists>r \<in> set (rows_of k (shifted_tables c p t)). is_target x r) \<longleftrightarrow> (\<exists>r \<in> set (rows_of k t). is_target x r)"
proof -
  have "(\<exists>r \<in> set (map (\<lambda>r. if it_position r \<ge> p then r\<lparr>it_position := it_position r + 1\<rparr> else r) rs). is_target x r) \<longleftrightarrow>
      (\<exists>r \<in> set rs. is_target x r)" for rs
    by (induction rs) simp_all
  then show ?thesis unfolding rows_shifted by (cases "k = c") simp_all
qed

lemma rows_inserted:
  "rows_of k (inserted_tables tn c x p t) = rows_of k (shifted_tables c p t) @ (if k = c then [item_row_of tn c x p] else [])"
  by (auto simp: rows_of_def inserted_tables_def)

lemma rows_moved:
  "rows_of k (moved_tables c x i j t) = (if k = c then map (\<lambda>r. r\<lparr>it_position := if is_target x r then j
     else moved_position i j (it_position r)\<rparr>) (rows_of k t) else rows_of k t)"
  by (auto simp: rows_of_def moved_tables_def rows_update_where intro!: map_idI)

lemma target_position [simp]: "target_of (r\<lparr>it_position := q\<rparr>) = target_of r" "row_ok (r\<lparr>it_position := q\<rparr>) = row_ok r"
  by (simp_all add: row_ok_def target_of_def split: option.split)

lemma holdsD:
  assumes "holds tn c t xs"
  shows "exists_where (\<lambda>k. cl_id k = c \<and> cl_tenant k = tn) (collections t)"
    and "\<And>r. r \<in> set (rows_of c t) \<Longrightarrow> it_tenant r = tn \<and> row_ok r"
    and "placed c t = mset (enumerate 0 xs)" and "distinct xs"
  using assms unfolding holds_def list_all_iff by blast+

lemma target_in_rows:
  assumes "holds tn c t xs"
  shows "(\<exists>r \<in> set (rows_of c t). is_target x r) \<longleftrightarrow> x \<in> set xs"
proof -
  have "(\<exists>r \<in> set (rows_of c t). is_target x r) \<longleftrightarrow> (\<exists>r \<in> set (rows_of c t). target_of r = x)"
    using row_ok_target holdsD(2) [OF assms] by blast
  also have "\<dots> \<longleftrightarrow> (\<exists>p < length xs. xs ! p = x)"
    using placed_iff [OF holdsD(3) [OF assms]] by (metis (no_types))
  finally show ?thesis by (simp add: in_set_conv_nth)
qed

lemma holds_inserted:
  assumes "holds tn c t xs" and "p \<le> length xs" and "x \<notin> set xs"
  shows "holds tn c (inserted_tables tn c x p t) (insert_at p x xs)"
proof -
  note h = holdsD [OF assms(1)]
  have "placed c (inserted_tables tn c x p t) =
      add_mset (p, x) (image_mset (\<lambda>(q, y). (if q \<ge> p then q + 1 else q, y)) (placed c t))"
    by (simp add: placed_def rows_inserted rows_shifted image_mset.compositionality comp_def case_prod_unfold if_distrib [of it_position] if_distrib [of target_of] cong: if_cong)
  then have "placed c (inserted_tables tn c x p t) = mset (enumerate 0 (insert_at p x xs))"
    using mset_enumerate_insert [OF assms(2)] h(3) by simp
  moreover have "distinct (insert_at p x xs)"
    using assms(3) h(4) mset_eq_imp_distinct_iff [of "insert_at p x xs" "x # xs"] by (simp add: mset_insert_at)
  ultimately show ?thesis
    using h(1,2) by (auto simp: holds_def list_all_iff rows_inserted rows_shifted split: if_splits)
qed

lemma holds_moved:
  assumes "holds tn c t xs" and "i < length xs" and "j < length xs" and "xs ! i = x" and "i \<noteq> j"
  shows "holds tn c (moved_tables c x i j t) (move_to j x xs)"
proof -
  note h = holdsD [OF assms(1)]
  have "placed c (moved_tables c x i j t) = image_mset (\<lambda>(q, y). (if y = x then j else moved_position i j q, y)) (placed c t)"
    unfolding placed_def rows_moved
    by (auto simp: image_mset.compositionality comp_def row_ok_target h(2) intro!: image_mset_cong)
  then have "placed c (moved_tables c x i j t) = mset (enumerate 0 (move_to j x xs))"
    using mset_enumerate_move [OF assms(2-4) h(4) assms(5)] h(3) by simp
  moreover have "distinct (move_to j x xs)"
  proof -
    have "x \<in> set xs" using assms(2,4) by auto
    then have "mset (move_to j x xs) = mset xs" by (simp add: move_to_def mset_insert_at)
    then show ?thesis using h(4) mset_eq_imp_distinct_iff by blast
  qed
  ultimately show ?thesis
    using h(1,2) by (auto simp: holds_def list_all_iff rows_moved)
qed

section \<open>Every collection operation, under every fault\<close>

lemma execute_Inr: "execute e f w = (Inr u, w') \<Longrightarrow> tables w' = f (tables w)"
  by (auto simp: execute_def dest!: sql_Inr)

lemma lock_collection_Inr:
  "lock_collection tn c w = (Inr u, w') \<Longrightarrow>
     tables w' = tables w \<and> exists_where (\<lambda>k. cl_id k = c \<and> cl_tenant k = tn) (collections (tables w))"
  by (auto simp: lock_collection_def exec_guard_apply elim!: exec_bind_InrE dest!: query_Inr split: if_splits)

lemma ensure_target_Inr: "ensure_target tn x w = (Inr u, w') \<Longrightarrow> tables w' = tables w \<and> target_exists tn x (tables w)"
  by (auto simp: ensure_target_def exec_guard_apply elim!: exec_bind_InrE dest!: query_Inr split: if_splits)

lemma count_items_Inr: "count_items c w = (Inr n, w') \<Longrightarrow> tables w' = tables w \<and> n = length (rows_of c (tables w))"
  by (auto simp: count_items_def exec_guard_apply exec_return_Inr count_where_def rows_of_def elim!: exec_bind_InrE
      dest!: query_Inr split: if_splits)

lemma as_i32_Inr: "as_i32 n = Inr m \<longleftrightarrow> m = n \<and> n < 2 ^ 31"
  by (auto simp: as_i32_def)

lemma shift_items_Inr: "shift_items c p w = (Inr u, w') \<Longrightarrow> tables w' = shifted_tables c p (tables w)"
  by (auto simp: shift_items_def shifted_tables_def Let_def dest!: sql_Inr split: if_splits)

lemma insert_item_Inr:
  "insert_item tn c x p w = (Inr u, w') \<Longrightarrow>
     tables w' = (tables w)\<lparr>collection_items := collection_items (tables w) @ [item_row_of tn c x p]\<rparr> \<and>
     \<not> (\<exists>r \<in> set (rows_of c (tables w)). is_target x r)"
  by (auto simp: insert_item_def exec_result_apply as_i32_Inr rows_of_def table_simps elim!: exec_bind_InrE dest!: sql_Inr split: if_splits)

lemma same_tables: "touch c w = (Inr u, w') \<Longrightarrow> tables w' = tables w"
  "defer_positions w = (Inr u, w') \<Longrightarrow> tables w' = tables w"
  by (auto simp: touch_def defer_positions_def dest!: query_Inr)

lemma check_deferred_Inr: "check_deferred w = (Inr u, w') \<longleftrightarrow> w' = w \<and> positions_unique (tables w)"
  by (auto simp: check_deferred_def)

lemma add_item_body_Inr:
  assumes "add_item_body tn c x pos w = (Inr item, w')"
  shows "\<exists>p. p = (case pos of None \<Rightarrow> length (rows_of c (tables w)) | Some p \<Rightarrow> p) \<and> p \<le> length (rows_of c (tables w)) \<and>
    \<not> (\<exists>r \<in> set (rows_of c (tables w)). is_target x r) \<and> target_exists tn x (tables w) \<and>
    exists_where (\<lambda>k. cl_id k = c \<and> cl_tenant k = tn) (collections (tables w)) \<and>
    tables w' = inserted_tables tn c x p (tables w) \<and> positions_unique (tables w') \<and> item = \<lparr>ci_position = p, ci_target = x\<rparr>"
proof -
  let ?n = "length (rows_of c (tables w))"
  let ?p = "case pos of None \<Rightarrow> ?n | Some p \<Rightarrow> p"
  obtain u1 u2 u3 u4 u5 u6 u7 u8 w1 w2 w3 n w4 w5 q w6 w7 w8 w9 w10 where
    1: "lock_collection tn c w = (Inr u1, w1)" and 2: "ensure_target tn x w1 = (Inr u2, w2)"
    and 3: "defer_positions w2 = (Inr u3, w3)" and 4: "count_items c w3 = (Inr n, w4)"
    and 5: "exec_guard ((case pos of None \<Rightarrow> n | Some p \<Rightarrow> p) \<le> n) UserInvalid w4 = (Inr u4, w5)"
    and 6: "exec_result (as_i32 (case pos of None \<Rightarrow> n | Some p \<Rightarrow> p)) w5 = (Inr q, w6)"
    and 7: "shift_items c q w6 = (Inr u5, w7)"
    and 8: "insert_item tn c x (case pos of None \<Rightarrow> n | Some p \<Rightarrow> p) w7 = (Inr u6, w8)"
    and 9: "touch c w8 = (Inr u7, w9)" and 10: "check_deferred w9 = (Inr u8, w10)"
    and 11: "(exec_return \<lparr>ci_position = (case pos of None \<Rightarrow> n | Some p \<Rightarrow> p), ci_target = x\<rparr> ::
      (world, user_content_error, collection_item) exec) w10 = (Inr item, w')"
    using assms unfolding add_item_body_def Let_def by (elim exec_bind_InrE) (rule that; assumption)
  have n: "n = ?n" and t4: "tables w4 = tables w"
    using count_items_Inr [OF 4] same_tables(2) [OF 3] ensure_target_Inr [OF 2] lock_collection_Inr [OF 1] by auto
  have p: "?p \<le> ?n" and q: "q = ?p" and t6: "tables w6 = tables w"
    using 5 6 t4 unfolding n by (simp_all add: exec_guard_apply exec_result_apply as_i32_Inr split: if_splits)
  have t8: "tables w8 = inserted_tables tn c x ?p (tables w)"
    using insert_item_Inr [OF 8] shift_items_Inr [OF 7] unfolding t6 q n inserted_tables_def by simp
  have "\<not> (\<exists>r \<in> set (rows_of c (tables w)). is_target x r)"
    using insert_item_Inr [OF 8, THEN conjunct2] unfolding shift_items_Inr [OF 7] t6 target_in_shifted .
  then show ?thesis
    using p t8 same_tables(1) [OF 9] 10 11 ensure_target_Inr [OF 2] lock_collection_Inr [OF 1]
    unfolding n by (simp add: check_deferred_Inr exec_return_Inr)
qed

lemma item_position_Inr:
  assumes "item_position c x w = (Inr i, w')"
  shows "tables w' = tables w \<and> (\<exists>r \<in> set (rows_of c (tables w)). is_target x r \<and> it_position r = i)"
proof -
  obtain r where r: "find_where (\<lambda>r. it_collection r = c \<and> is_target x r) (collection_items (tables w)) = Some r"
    and i: "it_position r = i" and same: "tables w' = tables w"
    using assms by (auto simp: item_position_def exec_fail_def exec_return_Inr elim!: exec_bind_InrE dest!: query_Inr split: option.splits)
  have "r \<in> set (rows_of c (tables w))" and "is_target x r"
    using find_where_SomeD [OF r] by (auto simp: rows_of_def)
  then show ?thesis using i same by blast
qed

lemma set_item_position_Inr:
  "set_item_position c x j w = (Inr u, w') \<Longrightarrow>
     tables w' = (tables w)\<lparr>collection_items := update_where (\<lambda>r. it_collection r = c \<and> is_target x r)
       (\<lambda>r. r\<lparr>it_position := j\<rparr>) (collection_items (tables w))\<rparr>"
  by (auto simp: set_item_position_def exec_result_apply as_i32_Inr exec_guard_apply elim!: exec_bind_InrE
      dest!: affect_Inr split: if_splits)

lemma move_item_body_Inr:
  assumes "move_item_body tn c x j w = (Inr u, w')"
  shows "\<exists>i. (\<exists>r \<in> set (rows_of c (tables w)). is_target x r \<and> it_position r = i) \<and> j < length (rows_of c (tables w)) \<and>
    exists_where (\<lambda>k. cl_id k = c \<and> cl_tenant k = tn) (collections (tables w)) \<and> positions_unique (tables w') \<and>
    tables w' = (if i = j then tables w else moved_tables c x i j (tables w))"
proof -
  obtain u1 u2 u3 u4 u5 u6 w1 w2 w3 i w4 n w5 w6 w7 where
    1: "lock_collection tn c w = (Inr u1, w1)" and 2: "defer_positions w1 = (Inr u2, w2)"
    and 3: "item_position c x w2 = (Inr i, w3)" and 4: "count_items c w3 = (Inr n, w4)"
    and 5: "exec_guard (n \<ge> 1) UserNotFound w4 = (Inr u3, w5)"
    and 6: "exec_guard (j \<le> n - 1) UserInvalid w5 = (Inr u4, w6)"
    and 7: "(if i = j then exec_return ()
       else exec_bind (exec_result (as_i32 i)) (\<lambda>c'.
         exec_bind (exec_result (as_i32 j)) (\<lambda>d.
         exec_bind (execute UserDatabase (\<lambda>t. t\<lparr>collection_items :=
           update_where (\<lambda>r. it_collection r = c)
             (\<lambda>r. r\<lparr>it_position := moved_position c' d (it_position r)\<rparr>) (collection_items t)\<rparr>)) (\<lambda>_.
         exec_bind (set_item_position c x j) (\<lambda>_.
         touch c))))) w6 = (Inr u5, w7)"
    and 8: "check_deferred w7 = (Inr u6, w')"
    using assms unfolding move_item_body_def by (elim exec_bind_InrE) (rule that; simp)
  have t2: "tables w2 = tables w" using same_tables(2) [OF 2] lock_collection_Inr [OF 1] by simp
  then have i: "\<exists>r \<in> set (rows_of c (tables w)). is_target x r \<and> it_position r = i" and t3: "tables w3 = tables w"
    using item_position_Inr [OF 3] by auto
  have n: "n = length (rows_of c (tables w))" and t4: "tables w4 = tables w" using count_items_Inr [OF 4] t3 by auto
  have "rows_of c (tables w) \<noteq> []" using i by auto
  then have j: "j < length (rows_of c (tables w))" and t6: "tables w6 = tables w"
    using 5 6 t4 unfolding n by (auto simp: exec_guard_apply split: if_splits)
  have "tables w7 = (if i = j then tables w else moved_tables c x i j (tables w))"
  proof (cases "i = j")
    case True
    then show ?thesis using 7 t6 by (simp add: exec_return_Inr)
  next
    case False
    then show ?thesis
      using 7 t6
      by (auto simp: exec_result_apply as_i32_Inr moved_tables_def same_tables(1) elim!: exec_bind_InrE
          dest!: execute_Inr set_item_position_Inr)
  qed
  then show ?thesis using i j 8 lock_collection_Inr [OF 1] by (auto simp: check_deferred_Inr)
qed

section \<open>Collections refine lists\<close>

text \<open>One step of the list a collection holds.\<close>

inductive list_step :: "collection_target list \<Rightarrow> collection_target list \<Rightarrow> bool" where
  inserted: "p \<le> length xs \<Longrightarrow> x \<notin> set xs \<Longrightarrow> list_step xs (insert_at p x xs)"
| moved: "x \<in> set xs \<Longrightarrow> j < length xs \<Longrightarrow> list_step xs (move_to j x xs)"

text \<open>The operations of user content, by any tenants and under any faults.\<close>

inductive user_step :: "(string \<Rightarrow> string) \<Rightarrow> world \<Rightarrow> world \<Rightarrow> bool" for lower where
  add: "add_collection_item tenant c x pos w = (r, w') \<Longrightarrow> user_step lower w w'"
| move: "move_collection_item tenant c x j w = (r', w') \<Longrightarrow> user_step lower w w'"
| collection: "create_collection tenant name w = (r'', w') \<Longrightarrow> user_step lower w w'"
| tag: "tag_name lower name = Inr nm \<Longrightarrow> create_tag tenant nm w = (r'', w') \<Longrightarrow> user_step lower w w'"
| tagging: "tag_analysis tenant g out w = (r3, w') \<Longrightarrow> user_step lower w w'"
| merge: "merge_tags tenant g g' w = (r3, w') \<Longrightarrow> user_step lower w w'"
| state: "set_analysis_state tenant out st w = (r4, w') \<Longrightarrow> user_step lower w w'"
| read_state: "set_read_state tenant out v w = (r5, w') \<Longrightarrow> user_step lower w w'"
| feedback: "record_feedback tenant out category detail w = (r6, w') \<Longrightarrow> user_step lower w w'"
| elsewhere: "tables w' = tables w \<Longrightarrow> user_step lower w w'"

definition content_ok :: "db \<Rightarrow> bool" where
  "content_ok t = (key_unique cl_id (collections t) \<and> positions_unique t)"

lemma content_ok_cong:
  "collections t' = collections t \<Longrightarrow> collection_items t' = collection_items t \<Longrightarrow>
     content_ok t' = content_ok t \<and> holds tn c t' = holds tn c t"
  by (auto simp: content_ok_def holds_def placed_def rows_of_def positions_unique_def fun_eq_iff)

text \<open>Only the tenant of a collection can lock it, so nobody else changes it.\<close>

lemma collection_tenant:
  assumes "content_ok t" and "holds tn c t xs" and "exists_where (\<lambda>k. cl_id k = c \<and> cl_tenant k = tn') (collections t)"
  shows "tn' = tn"
proof -
  obtain k where k: "k \<in> set (collections t)" "cl_id k = c" "cl_tenant k = tn"
    using holdsD(1) [OF assms(2)] unfolding exists_where_iff by blast
  obtain k' where k': "k' \<in> set (collections t)" "cl_id k' = c" "cl_tenant k' = tn'"
    using assms(3) unfolding exists_where_iff by blast
  have "key_unique cl_id (collections t)" using assms(1) unfolding content_ok_def by (rule conjunct1)
  then have "k = k'" by (rule key_unique_same [OF _ k(1) k'(1)]) (simp only: k(2) k'(2))
  then show ?thesis using k(3) k'(3) by simp
qed

lemma holds_frame: "holds tn c t xs \<Longrightarrow> rows_of c t' = rows_of c t \<Longrightarrow> collections t' = collections t \<Longrightarrow> holds tn c t' xs"
  by (auto simp: holds_def placed_def)

lemma add_step:
  assumes "add_item_body tn' c' x pos w = (Inr item, w')" and "content_ok (tables w)" and "holds tn c (tables w) xs"
  shows "content_ok (tables w') \<and> (\<exists>ys. list_step\<^sup>=\<^sup>= xs ys \<and> holds tn c (tables w') ys)"
proof -
  obtain p where p: "p \<le> length (rows_of c' (tables w))" "\<not> (\<exists>r \<in> set (rows_of c' (tables w)). is_target x r)"
    and lock: "exists_where (\<lambda>k. cl_id k = c' \<and> cl_tenant k = tn') (collections (tables w))"
    and t': "tables w' = inserted_tables tn' c' x p (tables w)" and unique: "positions_unique (tables w')"
    using add_item_body_Inr [OF assms(1)] by blast
  have ok: "content_ok (tables w')" using assms(2) unique t' by (simp add: content_ok_def)
  show ?thesis
  proof (cases "c' = c")
    case True
    then have tn: "tn' = tn" using collection_tenant [OF assms(2,3)] lock by simp
    have "x \<notin> set xs" using p(2) unfolding True target_in_rows [OF assms(3)] .
    moreover have "p \<le> length xs" using p(1) unfolding True placed_length [OF holdsD(3) [OF assms(3)]] .
    ultimately show ?thesis using ok holds_inserted [OF assms(3)] list_step.inserted unfolding t' True tn by blast
  next
    case False
    then show ?thesis
      using ok holds_frame [OF assms(3), of "tables w'"] by (auto simp: t' rows_inserted rows_shifted)
  qed
qed

lemma move_step:
  assumes "move_item_body tn' c' x j w = (Inr u, w')" and "content_ok (tables w)" and "holds tn c (tables w) xs"
  shows "content_ok (tables w') \<and> (\<exists>ys. list_step\<^sup>=\<^sup>= xs ys \<and> holds tn c (tables w') ys)"
proof -
  obtain i where i: "\<exists>r \<in> set (rows_of c' (tables w)). is_target x r \<and> it_position r = i" and j: "j < length (rows_of c' (tables w))"
    and lock: "exists_where (\<lambda>k. cl_id k = c' \<and> cl_tenant k = tn') (collections (tables w))"
    and unique: "positions_unique (tables w')"
    and t': "tables w' = (if i = j then tables w else moved_tables c' x i j (tables w))"
    using move_item_body_Inr [OF assms(1)] by blast
  have ok: "content_ok (tables w')" using assms(2) unique t' by (simp add: content_ok_def split: if_splits)
  show ?thesis
  proof (cases "c' = c \<and> i \<noteq> j")
    case True
    obtain r where r: "r \<in> set (rows_of c (tables w))" "is_target x r" "it_position r = i" using i True by blast
    have "target_of r = x" using r row_ok_target holdsD(2) [OF assms(3)] by blast
    then have x: "i < length xs" "xs ! i = x" using rows_position_bound [OF holdsD(3) [OF assms(3)] r(1)] r(3) by auto
    have j: "j < length xs" using j placed_length [OF holdsD(3) [OF assms(3)]] True by simp
    have "x \<in> set xs" using x by auto
    then show ?thesis
      using ok holds_moved [OF assms(3) x(1) j x(2)] list_step.moved [of x xs j] j t' True by auto
  next
    case False
    then show ?thesis
      using ok holds_frame [OF assms(3), of "tables w'"] assms(3) by (auto simp: t' rows_moved)
  qed
qed

lemma transact_simulates:
  assumes "transact e m w = (r, w')" and "content_ok (tables w)" and "holds tn c (tables w) xs"
    and "\<And>v x v'. content_ok (tables v) \<Longrightarrow> holds tn c (tables v) xs \<Longrightarrow> m v = (Inr x, v') \<Longrightarrow>
      content_ok (tables v') \<and> (\<exists>ys. list_step\<^sup>=\<^sup>= xs ys \<and> holds tn c (tables v') ys)"
  shows "content_ok (tables w') \<and> (\<exists>ys. list_step\<^sup>=\<^sup>= xs ys \<and> holds tn c (tables w') ys)"
  using transact_tables [OF assms(1)] assms(2,3) assms(4) [of "tick w"] by auto

abbreviation leaves :: "(db \<Rightarrow> 'g) \<Rightarrow> (world, 'e, 'a) exec \<Rightarrow> bool" where
  "leaves g m \<equiv> unchanged (\<lambda>w. g (tables w)) m"

lemma leaves_sql:
  assumes "\<And>t x t'. f t = Inr (x, t') \<Longrightarrow> g t' = g t"
  shows "leaves g (sql e f)"
  unfolding unchanged_def
proof
  fix w
  obtain r w' where run: "sql e f w = (r, w')" by fastforce
  have "g (tables w') = g (tables w)" using sql_result [OF run] assms [of "tables w"] by auto
  then show "g (tables (snd (sql e f w))) = g (tables w)" by (simp add: run)
qed

lemma leaves_query: "leaves g (query e f)"
  unfolding query_def by (rule leaves_sql) auto

lemma leaves_execute: "(\<And>t. g (f t) = g t) \<Longrightarrow> leaves g (execute e f)"
  unfolding execute_def by (rule leaves_sql) auto

lemma leaves_new_uuid: "leaves g new_uuid"
  by (simp add: unchanged_def new_uuid_def)

lemma leaves_transact:
  assumes "leaves g m"
  shows "leaves g (transact e m)"
  unfolding unchanged_def
proof
  fix w
  obtain r w' where m: "m (tick w) = (r, w')" by fastforce
  have "g (tables w') = g (tables w)" using unchangedD [OF assms m] by simp
  then show "g (tables (snd (transact e m w))) = g (tables w)" using m by (auto simp: transact_def split: sum.splits)
qed

lemmas leaves_rules = leaves_query leaves_new_uuid leaves_transact unchanged_rules

abbreviation collection_part :: "db \<Rightarrow> collection_row list \<times> item_row list" where
  "collection_part t \<equiv> (collections t, collection_items t)"

lemma leaves_collections:
  "leaves collection_part (create_tag tenant nm)" "leaves collection_part (tag_analysis tenant g out)"
  "leaves collection_part (merge_tags tenant g g')" "leaves collection_part (set_analysis_state tenant out st)"
  "leaves collection_part (set_read_state tenant out v)" "leaves collection_part (record_feedback tenant out category detail)"
  unfolding create_tag_def tag_analysis_def merge_tags_def merge_tags_body_def set_analysis_state_def set_read_state_def
    record_feedback_def
  by (intro leaves_rules leaves_sql leaves_execute;
      auto simp: Let_def put_state_def cascade_tags_def split: if_splits)+

lemma create_collection_step:
  assumes "create_collection tenant name w = (r, w')" and "content_ok (tables w)" and "holds tn c (tables w) xs"
  shows "content_ok (tables w') \<and> holds tn c (tables w') xs"
proof -
  have "leaves collection_items (create_collection tenant name)"
    unfolding create_collection_def by (intro leaves_rules leaves_sql) (auto split: if_splits)
  from unchangedD [OF this assms(1)] have items: "collection_items (tables w') = collection_items (tables w)" .
  have "collections (tables w') = collections (tables w) \<or>
    (\<exists>k. collections (tables w') = collections (tables w) @ [k] \<and> cl_id k \<notin> cl_id ` set (collections (tables w)))"
    using assms(1) unfolding create_collection_def exec_bind_def new_uuid_def exec_result_def
    by (auto simp: table_simps dest!: sql_result split: sum.splits if_splits) blast+
  then show ?thesis
    using assms(2,3) items
    by (auto simp: content_ok_def holds_def key_unique_def positions_unique_def placed_def rows_of_def table_simps)
qed

lemma user_step_simulates:
  assumes "user_step lower w w'" and "content_ok (tables w)" and "holds tn c (tables w) xs"
  shows "content_ok (tables w') \<and> (\<exists>ys. list_step\<^sup>=\<^sup>= xs ys \<and> holds tn c (tables w') ys)"
proof -
  have same: ?thesis if "collection_part (tables w') = collection_part (tables w)"
    using content_ok_cong [of "tables w'" "tables w" tn c] that assms(2,3) by auto
  show ?thesis
    using assms(1)
  proof (cases rule: user_step.cases)
    case (add tenant c' x pos r)
    then show ?thesis unfolding add_collection_item_def
      by (rule transact_simulates [OF _ assms(2,3)]) (rule add_step)
  next
    case (move tenant c' x j r)
    then show ?thesis unfolding move_collection_item_def
      by (rule transact_simulates [OF _ assms(2,3)]) (rule move_step)
  next
    case (collection tenant name r)
    from create_collection_step [OF this assms(2,3)] show ?thesis by blast
  next
    case (tag name nm tenant r)
    show ?thesis by (rule same) (rule unchangedD [OF leaves_collections(1) tag(2)])
  next
    case (tagging tenant g out r)
    show ?thesis by (rule same) (rule unchangedD [OF leaves_collections(2) tagging])
  next
    case (merge tenant g g' r)
    show ?thesis by (rule same) (rule unchangedD [OF leaves_collections(3) merge])
  next
    case (state tenant out st r)
    show ?thesis by (rule same) (rule unchangedD [OF leaves_collections(4) state])
  next
    case (read_state tenant out v r)
    show ?thesis by (rule same) (rule unchangedD [OF leaves_collections(5) read_state])
  next
    case (feedback tenant out category detail r)
    show ?thesis by (rule same) (rule unchangedD [OF leaves_collections(6) feedback])
  next
    case elsewhere
    then show ?thesis by (intro same) simp
  qed
qed

text \<open>
  C34: collections refine lists. Whatever operations of user content run, by whatever tenants and under
  whatever faults, a collection that held a list holds one that insertions and moves of single elements
  make of it: its positions stay dense and unique, and no failed or foreign operation shows in it.
\<close>

theorem collections_refine_lists:
  assumes "(user_step lower)\<^sup>*\<^sup>* w w'" and "content_ok (tables w)" and "holds tenant c (tables w) xs"
  shows "\<exists>ys. list_step\<^sup>*\<^sup>* xs ys \<and> holds tenant c (tables w') ys"
proof -
  have "content_ok (tables w') \<and> (\<exists>ys. list_step\<^sup>*\<^sup>* xs ys \<and> holds tenant c (tables w') ys)"
    using assms(1)
  proof (induction rule: rtranclp_induct)
    case base
    then show ?case using assms(2,3) by blast
  next
    case (step v v')
    then obtain ys where ys: "list_step\<^sup>*\<^sup>* xs ys" "holds tenant c (tables v) ys" and ok: "content_ok (tables v)" by blast
    from user_step_simulates [OF step.hyps(2) ok ys(2)] obtain zs where
      "content_ok (tables v')" "list_step\<^sup>=\<^sup>= ys zs" "holds tenant c (tables v') zs" by blast
    moreover from this ys(1) have "list_step\<^sup>*\<^sup>* xs zs" by auto
    ultimately show ?case by blast
  qed
  then show ?thesis by blast
qed

section \<open>Without faults every valid operation succeeds\<close>

lemma shift_items_works:
  "no_faults w \<Longrightarrow> list_all (\<lambda>r. it_collection r = c \<longrightarrow> it_position r < 2 ^ 31) (collection_items (shifted_tables c p (tables w))) \<Longrightarrow>
     shift_items c p w = (Inr (), w\<lparr>tables := shifted_tables c p (tables w)\<rparr>)"
  by (simp add: shift_items_def sql_works shifted_tables_def)

lemma insert_item_works:
  "no_faults w \<Longrightarrow> \<not> exists_where (\<lambda>r. it_collection r = c \<and> is_target x r) (collection_items (tables w)) \<Longrightarrow> p < 2 ^ 31 \<Longrightarrow>
     insert_item tn c x p w =
       (Inr (), w\<lparr>tables := (tables w)\<lparr>collection_items := collection_items (tables w) @ [item_row_of tn c x p]\<rparr>\<rparr>)"
  by (simp add: insert_item_def as_i32_def exec_simps)

lemma add_item_works:
  assumes "no_faults w" and "holds tn c (tables w) xs" and "positions_unique (tables w)"
    and "target_exists tn x (tables w)" and "x \<notin> set xs" and "p \<le> length xs" and "length xs < 2 ^ 31"
    and "pos = Some p \<or> pos = None \<and> p = length xs"
  shows "\<exists>w'. add_collection_item tn c x pos w = (Inr \<lparr>ci_position = p, ci_target = x\<rparr>, w') \<and> no_faults w' \<and>
    tables w' = inserted_tables tn c x p (tables w)"
proof -
  let ?t = "inserted_tables tn c x p (tables w)"
  have n: "count_where (\<lambda>r. it_collection r = c) (collection_items (tables w)) = length xs"
    using placed_length [OF holdsD(3) [OF assms(2)]] by (simp add: count_where_def rows_of_def)
  have holds: "holds tn c ?t (insert_at p x xs)" by (rule holds_inserted [OF assms(2,6,5)])
  have other: "rows_of k ?t = rows_of k (tables w)" if "k \<noteq> c" for k using that by (simp add: rows_inserted rows_shifted)
  have unique: "positions_unique ?t"
    unfolding positions_unique_iff
  proof
    fix k show "distinct (map it_position (rows_of k ?t))"
      using other [of k] assms(3) placed_distinct [OF holdsD(3) [OF holds]] unfolding positions_unique_iff by (cases "k = c") auto
  qed
  have bound: "list_all (\<lambda>r. it_collection r = c \<longrightarrow> it_position r < 2 ^ 31) (collection_items (shifted_tables c p (tables w)))"
  proof -
    have "it_position r < 2 ^ 31" if "r \<in> set (rows_of c (shifted_tables c p (tables w)))" for r
    proof -
      have "r \<in> set (rows_of c ?t)" using that by (simp add: rows_inserted)
      from rows_position_bound(1) [OF holdsD(3) [OF holds] this] have "it_position r \<le> length xs"
        using assms(6) by (simp add: insert_at_def)
      then show ?thesis using assms(7) by linarith
    qed
    then show ?thesis by (auto simp: list_all_iff rows_of_def)
  qed
  have absent: "\<not> exists_where (\<lambda>r. it_collection r = c \<and> is_target x r) (collection_items (shifted_tables c p (tables w)))"
    using target_in_rows [OF assms(2), of x] assms(5) target_in_shifted [of c c p "tables w" x]
    by (auto simp: rows_of_def table_simps)
  have pos: "(case pos of None \<Rightarrow> length xs | Some q \<Rightarrow> q) = p" using assms(8) by auto
  have body: "add_item_body tn c x pos w = (Inr \<lparr>ci_position = p, ci_target = x\<rparr>, w\<lparr>tables := ?t\<rparr>)"
    using assms(1,4,6,7) holdsD(1) [OF assms(2)] absent bound unique
    by (simp add: add_item_body_def lock_collection_def ensure_target_def defer_positions_def count_items_def
        touch_def check_deferred_def as_i32_def n pos Let_def bind_works exec_simps shift_items_works insert_item_works
        inserted_tables_def cong: exec_bind_first)
  show ?thesis
    using transact_works [of w "add_item_body tn c x pos", OF assms(1) body] assms(1) by (simp add: add_collection_item_def)
qed

text \<open>The list that \<open>list_collection_items\<close> returns is the list the collection holds.\<close>

lemma map_sort_key:
  assumes "\<And>r. g (h r) = f r"
  shows "map h (sort_key f rs) = sort_key g (map h rs)"
proof -
  have "map h (insort_key f r rs) = insort_key g (h r) (map h rs)" for r rs
    by (induction rs) (simp_all add: assms)
  then show ?thesis by (induction rs) simp_all
qed

lemma sort_key_placed:
  assumes "holds tn c t xs"
  shows "map (\<lambda>r. (it_position r, target_of r)) (sort_key it_position (rows_of c t)) = enumerate 0 xs"
proof -
  let ?pairs = "\<lambda>rs. map (\<lambda>r. (it_position r, target_of r)) rs"
  have "sort_key fst (?pairs (rows_of c t)) = enumerate 0 xs"
  proof (rule properties_for_sort_key)
    show "mset (enumerate 0 xs) = mset (?pairs (rows_of c t))" using holdsD(3) [OF assms] by (simp add: placed_def)
    show "sorted (map fst (enumerate 0 xs))" by (simp add: map_fst_enumerate)
    show "filter (\<lambda>x. fst k = fst x) (enumerate 0 xs) = filter (\<lambda>x. fst k = fst x) (?pairs (rows_of c t))" if "k \<in> set (enumerate 0 xs)" for k
    proof -
      have eq: "mset (enumerate 0 xs) = mset (?pairs (rows_of c t))" using holdsD(3) [OF assms] by (simp add: placed_def)
      have one: "filter (\<lambda>x. fst k = fst x) zs = [k]" if "k \<in> set zs" "distinct (map fst zs)" for zs :: "(nat \<times> collection_target) list"
        using that by (induction zs) (auto simp: filter_empty_conv image_iff)
      have "distinct (map fst (?pairs (rows_of c t)))"
        using placed_distinct [OF holdsD(3) [OF assms]] by (simp add: comp_def)
      moreover have "k \<in> set (?pairs (rows_of c t))" using that mset_eq_setD [OF eq] by simp
      ultimately show ?thesis using one [of "?pairs (rows_of c t)"] one [of "enumerate 0 xs"] that by simp
    qed
  qed
  moreover have "sort_key fst (?pairs rs) = ?pairs (sort_key it_position rs)" for rs
    by (rule sym, rule map_sort_key) simp
  ultimately show ?thesis by simp
qed

lemma list_collection_items_works:
  assumes "no_faults w" and "holds tn c (tables w) xs"
  shows "list_collection_items tn c w = (Inr (map (\<lambda>(i, y). \<lparr>ci_position = i, ci_target = y\<rparr>) (enumerate 0 xs)), w)"
proof -
  let ?rows = "sort_key it_position (rows_of c (tables w))"
  have ok: "row_ok r \<and> it_tenant r = tn" if "r \<in> set (rows_of c (tables w))" for r using holdsD(2) [OF assms(2) that] by simp
  have rows: "select_where (\<lambda>r. it_collection r = c \<and> it_tenant r = tn) (collection_items (tables w)) = rows_of c (tables w)"
    unfolding select_where_def rows_of_def using ok by (intro filter_cong) (auto simp: rows_of_def)
  have "map (the \<circ> item_of_row) ?rows = map (\<lambda>(i, y). \<lparr>ci_position = i, ci_target = y\<rparr>) (map (\<lambda>r. (it_position r, target_of r)) ?rows)"
    using ok by (simp add: item_of_row_target del: item_of_row.simps)
  then have items: "map (the \<circ> item_of_row) ?rows = map (\<lambda>(i, y). \<lparr>ci_position = i, ci_target = y\<rparr>) (enumerate 0 xs)"
    unfolding sort_key_placed [OF assms(2)] .
  have "list_all (\<lambda>r. item_of_row r \<noteq> None) ?rows" using ok by (simp add: list_all_iff row_ok_def del: item_of_row.simps)
  then show ?thesis
    using assms(1) holdsD(1) [OF assms(2)] items
    by (simp add: list_collection_items_def bind_works exec_simps rows del: item_of_row.simps cong: exec_bind_first)
qed

text \<open>
  C35: without faults an item of the tenant goes where it was asked to go, at the end by default, and the
  listing gives every target of the collection once, in its order, with positions 0, 1, 2 and so on.
\<close>

theorem added_item_is_listed:
  assumes "no_faults w" and "content_ok (tables w)" and "holds tenant c (tables w) xs" and "target_exists tenant x (tables w)"
    and "x \<notin> set xs" and "length xs < 2 ^ 31" and "case pos of None \<Rightarrow> p = length xs | Some q \<Rightarrow> p = q \<and> q \<le> length xs"
  shows "\<exists>w'. add_collection_item tenant c x pos w = (Inr \<lparr>ci_position = p, ci_target = x\<rparr>, w') \<and>
    list_collection_items tenant c w' =
      (Inr (map (\<lambda>(i, y). \<lparr>ci_position = i, ci_target = y\<rparr>) (enumerate 0 (take p xs @ x # drop p xs))), w')"
proof -
  have p: "p \<le> length xs" "pos = Some p \<or> pos = None \<and> p = length xs" using assms(7) by (auto split: option.splits)
  have "positions_unique (tables w)" using assms(2) by (simp add: content_ok_def)
  from add_item_works [OF assms(1,3) this assms(4,5) p(1) assms(6) p(2)] obtain w' where
    w': "add_collection_item tenant c x pos w = (Inr \<lparr>ci_position = p, ci_target = x\<rparr>, w')" "no_faults w'"
    and t': "tables w' = inserted_tables tenant c x p (tables w)" by blast
  have "holds tenant c (tables w') (insert_at p x xs)" unfolding t' by (rule holds_inserted [OF assms(3) p(1) assms(5)])
  from list_collection_items_works [OF w'(2) this] show ?thesis using w'(1) unfolding insert_at_def by blast
qed

definition sample_shelf :: world where
  "sample_shelf = empty_world\<lparr>tables := empty_db\<lparr>
     collections := [\<lparr>cl_id = 7, cl_tenant = ''user:1'', cl_name = ''reading''\<rparr>],
     source_refs := [\<lparr>sr_id = 1, sr_tenant = ''user:1'', sr_owner = ''documents'', sr_archive = [], sr_document = ''d'',
       sr_digest = [], sr_blob = \<lparr>br_owner = [], br_digest = [], br_media = [], br_length = 0\<rparr>, sr_created = 0\<rparr>]\<rparr>\<rparr>"

lemma sample_shelf_ok:
  "content_ok (tables sample_shelf)" "holds ''user:1'' 7 (tables sample_shelf) []"
  "target_exists ''user:1'' (TargetSource 1) (tables sample_shelf)" "no_faults sample_shelf"
  by (simp_all add: sample_shelf_def content_ok_def holds_def placed_def rows_of_def positions_unique_def key_unique_def
      exists_where_def empty_db_def)

theorem added_item_is_listed_witness:
  "\<exists>w'. add_collection_item ''user:1'' 7 (TargetSource 1) None sample_shelf = (Inr \<lparr>ci_position = 0, ci_target = TargetSource 1\<rparr>, w') \<and>
    list_collection_items ''user:1'' 7 w' = (Inr [\<lparr>ci_position = 0, ci_target = TargetSource 1\<rparr>], w')"
  using added_item_is_listed [OF sample_shelf_ok(4,1,2,3), of 0 None] by simp

theorem collections_refine_lists_witness:
  "\<exists>w ys. (user_step id)\<^sup>*\<^sup>* sample_shelf w \<and> tables w \<noteq> tables sample_shelf \<and> list_step\<^sup>*\<^sup>* [] ys \<and> holds ''user:1'' 7 (tables w) ys"
proof -
  let ?w = "snd (add_collection_item ''user:1'' 7 (TargetSource 1) None sample_shelf)"
  have step: "(user_step id)\<^sup>*\<^sup>* sample_shelf ?w"
    by (rule r_into_rtranclp, rule user_step.add) (rule prod.collapse [symmetric])
  have "positions_unique (tables sample_shelf)" using sample_shelf_ok(1) by (simp add: content_ok_def)
  from add_item_works [OF sample_shelf_ok(4,2) this sample_shelf_ok(3), of 0 None]
  have "tables ?w = inserted_tables ''user:1'' 7 (TargetSource 1) 0 (tables sample_shelf)" by auto
  then have "tables ?w \<noteq> tables sample_shelf"
    by (simp add: inserted_tables_def shifted_tables_def sample_shelf_def empty_db_def update_where_def)
  then show ?thesis using collections_refine_lists [OF step sample_shelf_ok(1,2)] step by blast
qed

section \<open>Merging tags\<close>

definition tagged :: "uuid \<Rightarrow> uuid \<Rightarrow> db \<Rightarrow> bool" where
  "tagged g out t = exists_where (\<lambda>r. tt_tag r = g \<and> tt_output r = out) (analysis_taggings t)"

interpretation taggings: first_wins put_tagging "\<lambda>k t. find_where (\<lambda>x. tagging_key x = k) t" tagging_key
  unfolding put_tagging_def by (rule keyed_first_wins)

lemma tagged_look: "tagged g out t \<longleftrightarrow> find_where (\<lambda>x. tagging_key x = (g, out)) (analysis_taggings t) \<noteq> None"
  by (auto simp: tagged_def tagging_key_def find_where_Some_iff table_simps)

lemma tagged_fold:
  "find_where (\<lambda>x. tagging_key x = k) (fold put_tagging rs ts) \<noteq> None \<longleftrightarrow>
     find_where (\<lambda>x. tagging_key x = k) ts \<noteq> None \<or> (\<exists>r \<in> set rs. tagging_key r = k)"
proof -
  have found: "find q rs \<noteq> None \<longleftrightarrow> (\<exists>r \<in> set rs. q r)" for q by (induction rs) auto
  show ?thesis
    unfolding taggings.look_fold using found [of "\<lambda>r. tagging_key r = k"] by (cases "find_where (\<lambda>x. tagging_key x = k) ts") simp_all
qed

text \<open>
  C36: a merge without faults moves every tagging of the source tag to the destination, keeps those the
  destination and all other tags had, and leaves no tag and no tagging of the source.
\<close>

theorem merge_tags_unites:
  assumes "no_faults w" and "key_unique tg_id (tags (tables w))" and "a \<noteq> b"
    and "exists_where (\<lambda>g. tg_id g = a \<and> tg_tenant g = tenant) (tags (tables w))"
    and "exists_where (\<lambda>g. tg_id g = b \<and> tg_tenant g = tenant) (tags (tables w))"
    and "\<forall>r \<in> set (analysis_taggings (tables w)). tt_tag r = a \<longrightarrow> tt_tenant r = tenant"
  shows "\<exists>w'. merge_tags tenant a b w = (Inr (), w') \<and>
    (\<forall>g out. tagged g out (tables w') \<longleftrightarrow>
       (if g = a then False else if g = b then tagged a out (tables w) \<or> tagged b out (tables w) else tagged g out (tables w))) \<and>
    tags (tables w') = delete_where (\<lambda>g. tg_id g = a) (tags (tables w))"
proof -
  let ?t = "tables w"
  obtain ga gb where ga: "ga \<in> set (tags ?t)" "tg_id ga = a" "tg_tenant ga = tenant"
    and gb: "gb \<in> set (tags ?t)" "tg_id gb = b" "tg_tenant gb = tenant"
    using assms(4,5) unfolding exists_where_iff by blast
  have only: "g = ga" if "g \<in> set (tags ?t)" "tg_id g = a" for g
    using key_unique_same [OF assms(2) that(1) ga(1)] that(2) ga(2) by simp
  have onlyb: "g = gb" if "g \<in> set (tags ?t)" "tg_id g = b" for g
    using key_unique_same [OF assms(2) that(1) gb(1)] that(2) gb(2) by simp
  have count: "count_where (\<lambda>g. tg_tenant g = tenant \<and> tg_id g \<in> {a, b}) (tags ?t) = 2"
  proof -
    have "distinct (tags ?t)" using assms(2) by (simp add: key_unique_def distinct_map)
    moreover have "set (filter (\<lambda>g. tg_tenant g = tenant \<and> tg_id g \<in> {a, b}) (tags ?t)) = {ga, gb}"
      unfolding set_filter using ga gb only onlyb by blast
    moreover have "card {ga, gb} = 2"
    proof -
      have "ga \<noteq> gb" using ga(2) gb(2) assms(3) by metis
      then show ?thesis by simp
    qed
    ultimately show ?thesis
      unfolding count_where_def using distinct_card [OF distinct_filter] by metis
  qed
  define moved where "moved = map (\<lambda>r. r\<lparr>tt_tag := b\<rparr>) (select_where (\<lambda>r. tt_tag r = a \<and> tt_tenant r = tenant) (analysis_taggings ?t))"
  define ts where "ts = delete_where (\<lambda>r. tt_tag r \<in> {a}) (fold put_tagging moved (analysis_taggings ?t))"
  let ?t' = "?t\<lparr>analysis_taggings := ts, tags := delete_where (\<lambda>g. tg_id g = a) (tags ?t)\<rparr>"
  have gone: "tg_id ` {g \<in> set (tags ?t). tg_id g = a \<and> tg_tenant g = tenant} = {a}" using ga(1,2,3) by blast
  have deleted: "delete_where (\<lambda>g. tg_id g = a \<and> tg_tenant g = tenant) (tags ?t) = delete_where (\<lambda>g. tg_id g = a) (tags ?t)"
    unfolding delete_where_def using only ga(3) by (intro filter_cong refl) blast
  have "merge_tags_body tenant a b w = (Inr (), w\<lparr>tables := ?t'\<rparr>)"
    using assms(1) count gone deleted
    by (simp add: merge_tags_body_def bind_works exec_simps Let_def cascade_tags_def ts_def moved_def cong: exec_bind_first)
  then have run: "merge_tags tenant a b w = (Inr (), w\<lparr>tables := ?t'\<rparr>)"
    using assms(1,3) transact_works [of w "merge_tags_body tenant a b"] by (simp add: merge_tags_def)
  have "tagged g out ?t' \<longleftrightarrow>
    (if g = a then False else if g = b then tagged a out ?t \<or> tagged b out ?t else tagged g out ?t)" for g out
  proof (cases "g = a")
    case True
    then show ?thesis by (auto simp: tagged_def ts_def table_simps)
  next
    case False
    have "tagged g out ?t' \<longleftrightarrow> find_where (\<lambda>x. tagging_key x = (g, out)) (fold put_tagging moved (analysis_taggings ?t)) \<noteq> None"
      using False unfolding tagged_look by (auto simp: ts_def find_where_Some_iff tagging_key_def table_simps)
    also have "\<dots> \<longleftrightarrow> tagged g out ?t \<or> (\<exists>r \<in> set moved. tagging_key r = (g, out))"
      unfolding tagged_fold tagged_look by simp
    also have "(\<exists>r \<in> set moved. tagging_key r = (g, out)) \<longleftrightarrow> g = b \<and> tagged a out ?t"
      using assms(6) by (auto simp: moved_def tagging_key_def tagged_def table_simps)
    finally show ?thesis using False by auto
  qed
  then show ?thesis using run by (intro exI [of _ "w\<lparr>tables := ?t'\<rparr>"]) simp
qed

definition sample_tags :: world where
  "sample_tags = empty_world\<lparr>tables := empty_db\<lparr>
     tags := [\<lparr>tg_id = 1, tg_tenant = ''user:1'', tg_normalized = ''a'', tg_display = ''A''\<rparr>,
       \<lparr>tg_id = 2, tg_tenant = ''user:1'', tg_normalized = ''b'', tg_display = ''B''\<rparr>],
     analysis_taggings := [\<lparr>tt_tag = 1, tt_output = 9, tt_tenant = ''user:1''\<rparr>]\<rparr>\<rparr>"

theorem merge_tags_unites_witness:
  "\<exists>w'. merge_tags ''user:1'' 1 2 sample_tags = (Inr (), w') \<and> tagged 2 9 (tables w') \<and> \<not> tagged 1 9 (tables w')"
proof -
  have "\<exists>w'. merge_tags ''user:1'' 1 2 sample_tags = (Inr (), w') \<and>
    (\<forall>g out. tagged g out (tables w') \<longleftrightarrow>
       (if g = 1 then False else if g = 2 then tagged 1 out (tables sample_tags) \<or> tagged 2 out (tables sample_tags)
        else tagged g out (tables sample_tags))) \<and>
    tags (tables w') = delete_where (\<lambda>g. tg_id g = 1) (tags (tables sample_tags))"
    by (rule merge_tags_unites) (simp_all add: sample_tags_def key_unique_def exists_where_def empty_db_def)
  then show ?thesis by (auto simp: tagged_def sample_tags_def exists_where_def)
qed

section \<open>Deletions leave gaps\<close>

text \<open>
  C37: a deletion of a source takes its items away and does not close the gap. An item added at the end
  of such a collection then goes before an item that was already there.
\<close>

theorem append_after_gap_is_not_last:
  assumes "add_collection_item tenant c x None w = (Inr item, w')"
    and "r \<in> set (rows_of c (tables w))" and "length (rows_of c (tables w)) \<le> it_position r"
  shows "\<exists>r' \<in> set (rows_of c (tables w')). target_of r' = target_of r \<and> ci_position item < it_position r'"
proof -
  obtain w1 where body: "add_item_body tenant c x None (tick w) = (Inr item, w1)" and t: "tables w' = tables w1"
    using transact_tables [OF assms(1) [unfolded add_collection_item_def]] by auto
  let ?n = "length (rows_of c (tables w))"
  have t': "tables w' = inserted_tables tenant c x ?n (tables w)" and item: "ci_position item = ?n"
    using add_item_body_Inr [OF body] t by auto
  have "r\<lparr>it_position := it_position r + 1\<rparr> \<in> set (rows_of c (tables w'))"
    using assms(2,3) unfolding t' by (auto simp: rows_inserted rows_shifted intro!: image_eqI [of _ _ r])
  then show ?thesis using item assms(3) by (intro bexI [of _ "r\<lparr>it_position := it_position r + 1\<rparr>"]) simp_all
qed

definition sample_source :: "uuid \<Rightarrow> string \<Rightarrow> source_ref_row" where
  "sample_source i d = \<lparr>sr_id = i, sr_tenant = ''user:1'', sr_owner = ''documents'', sr_archive = [], sr_document = d,
     sr_digest = [], sr_blob = \<lparr>br_owner = [], br_digest = [], br_media = [], br_length = 0\<rparr>, sr_created = 0\<rparr>"

definition full_shelf :: db where
  "full_shelf = empty_db\<lparr>
     collections := [\<lparr>cl_id = 7, cl_tenant = ''user:1'', cl_name = ''reading''\<rparr>],
     source_refs := [sample_source 1 ''a'', sample_source 2 ''b'', sample_source 3 ''c''],
     collection_items := [item_row_of ''user:1'' 7 (TargetSource 1) 0, item_row_of ''user:1'' 7 (TargetSource 2) 1]\<rparr>"

definition gap_shelf :: world where
  "gap_shelf = empty_world\<lparr>tables := purge (ScopeSource ''user:1'' ''documents'' ''a'') full_shelf\<rparr>"

lemma gap_shelf_rows:
  "collection_items (tables gap_shelf) = [item_row_of ''user:1'' 7 (TargetSource 2) 1]"
  "collections (tables gap_shelf) = [\<lparr>cl_id = 7, cl_tenant = ''user:1'', cl_name = ''reading''\<rparr>]"
  "source_refs (tables gap_shelf) = [sample_source 2 ''b'', sample_source 3 ''c'']" "no_faults gap_shelf"
  by (simp_all add: gap_shelf_def full_shelf_def sample_source_def purge_def purge_analysis_def purge_recaps_def purge_inbox_def
      purge_content_def Let_def empty_db_def scope_ids_def scope_outputs_def scope_runs_def runs_of_sources_def scope_recaps_def
      direct_def select_where_def delete_where_def some_in_def)

theorem append_after_gap_is_not_last_witness:
  "holds ''user:1'' 7 full_shelf [TargetSource 1, TargetSource 2] \<and>
   (\<exists>item w' r'. add_collection_item ''user:1'' 7 (TargetSource 3) None gap_shelf = (Inr item, w') \<and>
     r' \<in> set (rows_of 7 (tables w')) \<and> target_of r' = TargetSource 2 \<and> ci_position item < it_position r')"
proof
  show "holds ''user:1'' 7 full_shelf [TargetSource 1, TargetSource 2]"
    by (simp add: full_shelf_def holds_def placed_def rows_of_def exists_where_def empty_db_def row_ok_def target_of_def)
  have "\<exists>item w'. add_collection_item ''user:1'' 7 (TargetSource 3) None gap_shelf = (Inr item, w')"
    using gap_shelf_rows
    by (simp add: add_collection_item_def transact_def add_item_body_def lock_collection_def ensure_target_def defer_positions_def
        count_items_def shift_items_def insert_item_def touch_def check_deferred_def as_i32_def bind_works exec_simps Let_def
        sample_source_def exists_where_def count_where_def update_where_def positions_unique_def key_unique_def cong: exec_bind_first)
  then obtain item w' where run: "add_collection_item ''user:1'' 7 (TargetSource 3) None gap_shelf = (Inr item, w')" by blast
  from append_after_gap_is_not_last [OF run, of "item_row_of ''user:1'' 7 (TargetSource 2) 1"]
  show "\<exists>item w' r'. add_collection_item ''user:1'' 7 (TargetSource 3) None gap_shelf = (Inr item, w') \<and>
     r' \<in> set (rows_of 7 (tables w')) \<and> target_of r' = TargetSource 2 \<and> ci_position item < it_position r'"
    using run by (auto simp: rows_of_def gap_shelf_rows target_of_def)
qed

end
