(* ===== verification/Recap_Manifest.thy ===== *)
theory Recap_Manifest
  imports Context Blob_Store
begin

text \<open>
  Recap commands and the immutable manifests they name (\<open>channel_digest_recap.rs\<close>). The payload types
  belong to the channel-digest contract crate: they are records of the fields the code reads, and
  the crate's parsing is a parameter.
\<close>

section \<open>Contract values\<close>

datatype output_language = Ru | En

fun recap_output_language :: "output_language \<Rightarrow> string" where
  "recap_output_language Ru = ''ru''"
| "recap_output_language En = ''en''"

text \<open>\<open>KnowledgeChannelDigestRecapRequested\<close>; the owner is read as a text and as a user id.\<close>

record recap_request =
  kq_owner :: string
  kq_user :: uuid
  kq_operation :: uuid
  kq_digest_run :: uuid
  kq_manifest_ref :: string
  kq_digest_is_sha256 :: bool
  kq_manifest_digest :: string
  kq_start :: instant
  kq_end :: instant
  kq_sources :: nat
  kq_channels :: nat
  kq_language :: output_language

text \<open>\<open>ChannelDigestManifestSource\<close> and \<open>ChannelDigestManifest\<close>.\<close>

record manifest_source =
  mo_revision_ref :: string
  mo_channel_ref :: string
  mo_channel_label :: string
  mo_message :: int
  mo_revision :: nat
  mo_published :: instant
  mo_content_digest :: string
  mo_content :: string

record manifest =
  mf_owner :: string
  mf_digest_run :: uuid
  mf_ref :: string
  mf_start :: instant
  mf_end :: instant
  mf_sources :: "manifest_source list"

record verified_manifest =
  vm_digest :: string
  vm_manifest :: manifest

definition channel_refs :: "manifest \<Rightarrow> string list" where
  "channel_refs m = remdups (map mo_channel_ref (mf_sources m))"

section \<open>Verification\<close>

datatype manifest_error = ManifestEncoding | ManifestIntegrityFailed | ManifestLinkage

text \<open>The failure classes of \<open>ChannelDigestManifest::from_canonical_bytes\<close> the code tells apart.\<close>

datatype contract_error = ContractManifestInvalid | ContractManifestIntegrity | ContractOther

definition verify_digest_manifest ::
  "(bytes \<Rightarrow> string) \<Rightarrow> (bytes \<Rightarrow> contract_error + manifest) \<Rightarrow> recap_request \<Rightarrow> bytes \<Rightarrow>
   manifest_error + verified_manifest" where
  "verify_digest_manifest sha parse request content =
     (let digest = sha content in
      if \<not> kq_digest_is_sha256 request \<or> kq_manifest_digest request \<noteq> digest then Inl ManifestIntegrityFailed
      else case parse content of
        Inl e \<Rightarrow> Inl (if e = ContractManifestInvalid \<or> e = ContractManifestIntegrity
                      then ManifestIntegrityFailed else ManifestEncoding)
      | Inr m \<Rightarrow>
          if mf_owner m \<noteq> kq_owner request \<or> mf_digest_run m \<noteq> kq_digest_run request \<or>
             mf_ref m \<noteq> kq_manifest_ref request \<or>
             (mf_start m, mf_end m) \<noteq> (kq_start request, kq_end request) \<or>
             length (mf_sources m) \<noteq> kq_sources request \<or>
             length (channel_refs m) \<noteq> kq_channels request
          then Inl ManifestLinkage
          else Inr \<lparr>vm_digest = digest, vm_manifest = m\<rparr>)"

section \<open>The digest source\<close>

datatype source_error =
  SourceInvalidConfiguration | SourceInvalidRequest | SourceResponseTooLarge | SourceTimeout
| SourceUnavailable | SourceGone

record manifest_authority =
  ma_owner :: uuid
  ma_digest_run :: uuid
  ma_ref :: string
  ma_digest :: string

definition authority_of :: "recap_request \<Rightarrow> manifest_authority" where
  "authority_of request =
     \<lparr>ma_owner = kq_user request, ma_digest_run = kq_digest_run request,
      ma_ref = kq_manifest_ref request, ma_digest = kq_manifest_digest request\<rparr>"

text \<open>
  \<open>read_digest_source_body\<close>: chunks are taken until the stream ends, breaks (\<open>None\<close>) or would exceed
  the cap; no more than the cap is ever held.
\<close>

fun read_body :: "nat \<Rightarrow> bytes \<Rightarrow> bytes option list \<Rightarrow> source_error + bytes" where
  "read_body cap held_bytes [] = Inr held_bytes"
| "read_body cap held_bytes (None # chunks) = Inl SourceUnavailable"
| "read_body cap held_bytes (Some chunk # chunks) =
     (if length held_bytes + length chunk > cap then Inl SourceResponseTooLarge
      else read_body cap (held_bytes @ chunk) chunks)"

text \<open>What the HTTP client delivers: a status, the announced length and the chunks of the body.\<close>

record http_answer =
  ha_status :: nat
  ha_length :: "nat option"
  ha_chunks :: "bytes option list"

definition classify_answer :: "nat \<Rightarrow> http_answer \<Rightarrow> source_error + bytes" where
  "classify_answer cap answer =
     (if ha_status answer = 410 then Inl SourceGone
      else if \<not> (200 \<le> ha_status answer \<and> ha_status answer < 300) then Inl SourceUnavailable
      else if (case ha_length answer of None \<Rightarrow> False | Some n \<Rightarrow> n > cap) then Inl SourceResponseTooLarge
      else read_body cap [] (ha_chunks answer))"

text \<open>
  \<open>fetch_manifest\<close>: \<open>parses\<close> and \<open>joins\<close> are the parsing of a reference and of the endpoint, \<open>get\<close> is the
  transport (\<open>None\<close>: no answer), \<open>in_time\<close> tells whether the whole operation met its deadline.
\<close>

record digest_source =
  ds_parses :: "string \<Rightarrow> bool"
  ds_joins :: "string \<Rightarrow> bool"
  ds_get :: "manifest_authority \<Rightarrow> http_answer option"
  ds_in_time :: "manifest_authority \<Rightarrow> bool"
  ds_byte_cap :: nat
  ds_retry_delay_ms :: nat

definition fetch_manifest_once :: "digest_source \<Rightarrow> manifest_authority \<Rightarrow> source_error + bytes" where
  "fetch_manifest_once ds request =
     (if \<not> ds_parses ds (ma_ref request) then Inl SourceInvalidRequest
      else if \<not> is_digest_hex (ma_digest request) then Inl SourceInvalidRequest
      else if \<not> ds_joins ds (ma_ref request) then Inl SourceInvalidConfiguration
      else case ds_get ds request of
        None \<Rightarrow> Inl SourceUnavailable
      | Some answer \<Rightarrow> classify_answer (ds_byte_cap ds) answer)"

definition fetch_manifest :: "digest_source \<Rightarrow> manifest_authority \<Rightarrow> source_error + bytes" where
  "fetch_manifest ds request =
     (if ds_in_time ds request then fetch_manifest_once ds request else Inl SourceTimeout)"

section \<open>What verification establishes\<close>

lemma verify_Inr:
  assumes "verify_digest_manifest sha parse request content = Inr v"
  shows "vm_digest v = sha content" and "vm_digest v = kq_manifest_digest request"
    and "parse content = Inr (vm_manifest v)" and "mf_owner (vm_manifest v) = kq_owner request"
    and "mf_digest_run (vm_manifest v) = kq_digest_run request"
    and "mf_ref (vm_manifest v) = kq_manifest_ref request"
    and "mf_start (vm_manifest v) = kq_start request" and "mf_end (vm_manifest v) = kq_end request"
    and "length (mf_sources (vm_manifest v)) = kq_sources request"
    and "length (channel_refs (vm_manifest v)) = kq_channels request"
  using assms by (auto simp: verify_digest_manifest_def Let_def split: if_splits sum.splits)

lemma read_body_bounded:
  "read_body cap held_bytes chunks = Inr content \<Longrightarrow> length held_bytes \<le> cap \<Longrightarrow>
     length content \<le> cap \<and> content = held_bytes @ concat (map the chunks) \<and> None \<notin> set chunks"
  by (induction cap held_bytes chunks rule: read_body.induct) (auto split: if_splits)

lemma fetch_manifest_bounded:
  "fetch_manifest ds request = Inr content \<Longrightarrow> length content \<le> ds_byte_cap ds"
  by (auto simp: fetch_manifest_def fetch_manifest_once_def classify_answer_def
      split: if_splits option.splits dest: read_body_bounded)

end
