(* ===== verification/Recap_Context.thy ===== *)
theory Recap_Context
  imports Recap_Manifest
begin

text \<open>
  The bounded context of a channel recap (\<open>channel_digest_recap_context.rs\<close>) and the provider request
  built from it (\<open>channel_digest_recap_prompt.rs\<close>). The JSON text of a value, SHA-256 and the wire form
  of an instant are parameters. Counts are numbers of elements of lists in memory; the sums that the
  code saturates at the width of \<open>usize\<close> saturate here.
\<close>

section \<open>Prepared values\<close>

record recap_policy =
  rp_max_sources :: nat
  rp_max_channels :: nat
  rp_max_characters :: nat

datatype omission_reason = SourceLimit | ChannelLimit | OverBudget

fun omission_reason_as_str :: "omission_reason \<Rightarrow> string" where
  "omission_reason_as_str SourceLimit = ''source_limit''"
| "omission_reason_as_str ChannelLimit = ''channel_limit''"
| "omission_reason_as_str OverBudget = ''context_budget''"

fun omission_rank :: "omission_reason \<Rightarrow> nat" where
  "omission_rank SourceLimit = 0"
| "omission_rank ChannelLimit = 1"
| "omission_rank OverBudget = 2"

record recap_omission =
  om_ref :: string
  om_reason :: omission_reason

record prepared_recap_source =
  ps_ref :: string
  ps_channel :: string
  ps_label :: string
  ps_published :: string
  ps_digest :: string
  ps_content :: string

record prepared_recap =
  px_version :: string
  px_sources :: "prepared_recap_source list"
  px_omissions :: "recap_omission list"
  px_selected_count :: nat
  px_included_count :: nat
  px_omitted_count :: nat
  px_channel_count :: nat
  px_used_characters :: nat
  px_estimated_tokens :: nat
  px_digest :: string

datatype recap_context_error = InvalidPolicy | ContextBudget

definition channel_recap_context_version :: string where
  "channel_recap_context_version = ''channel_digest_recap_context.v1''"

text \<open>The encodings the code takes from its libraries.\<close>

record recap_codecs =
  rk_text :: "json \<Rightarrow> string"
  rk_bytes :: "json \<Rightarrow> bytes"
  rk_sha :: "bytes \<Rightarrow> string"
  rk_wire :: "instant \<Rightarrow> string"

definition usize_max :: nat where
  "usize_max = 2 ^ 64 - 1"

section \<open>Sources in order\<close>

text \<open>Newest first, then by channel, message, revision and reference.\<close>

definition source_key :: "manifest_source \<Rightarrow> int \<times> string \<times> int \<times> nat \<times> string" where
  "source_key s = (- mo_published s, mo_channel_ref s, mo_message s, mo_revision s, mo_revision_ref s)"

definition ordered_sources :: "manifest \<Rightarrow> manifest_source list" where
  "ordered_sources m = sort_key source_key (mf_sources m)"

definition prepared_source :: "recap_codecs \<Rightarrow> manifest_source \<Rightarrow> prepared_recap_source" where
  "prepared_source k s =
     \<lparr>ps_ref = mo_revision_ref s, ps_channel = mo_channel_ref s, ps_label = mo_channel_label s,
      ps_published = rk_wire k (mo_published s), ps_digest = mo_content_digest s, ps_content = mo_content s\<rparr>"

definition omission :: "string \<Rightarrow> omission_reason \<Rightarrow> recap_omission" where
  "omission ref reason = \<lparr>om_ref = ref, om_reason = reason\<rparr>"

section \<open>The limits on sources and channels\<close>

fun select_sources ::
  "recap_policy \<Rightarrow> manifest_source list \<Rightarrow> string list \<Rightarrow> manifest_source list \<Rightarrow> recap_omission list \<Rightarrow>
   manifest_source list \<times> recap_omission list" where
  "select_sources policy [] channels selected omissions = (selected, omissions)"
| "select_sources policy (s # sources) channels selected omissions =
     (if length selected \<ge> rp_max_sources policy
      then select_sources policy sources channels selected (omissions @ [omission (mo_revision_ref s) SourceLimit])
      else if mo_channel_ref s \<notin> set channels \<and> length channels \<ge> rp_max_channels policy
      then select_sources policy sources channels selected (omissions @ [omission (mo_revision_ref s) ChannelLimit])
      else select_sources policy sources (List.insert (mo_channel_ref s) channels) (selected @ [s]) omissions)"

section \<open>The budget of characters\<close>

definition source_json :: "prepared_recap_source \<Rightarrow> json" where
  "source_json s = JObj [(''revision_ref'', JStr (ps_ref s)), (''channel_ref'', JStr (ps_channel s)),
     (''channel_label'', JStr (ps_label s)), (''published_at'', JStr (ps_published s)),
     (''content_digest_hex'', JStr (ps_digest s)), (''content'', JStr (ps_content s))]"

definition source_character_count :: "recap_codecs \<Rightarrow> prepared_recap_source list \<Rightarrow> nat" where
  "source_character_count k sources =
     foldl (\<lambda>n s. min (n + length (rk_text k (source_json s))) usize_max) 0 sources"

text \<open>\<open>while used_characters > max_characters\<close>: the last selected source is given up.\<close>

function fit_budget ::
  "recap_codecs \<Rightarrow> nat \<Rightarrow> prepared_recap_source list \<Rightarrow> recap_omission list \<Rightarrow>
   recap_context_error + (prepared_recap_source list \<times> recap_omission list)" where
  "fit_budget k budget selected omissions =
     (if source_character_count k selected \<le> budget then Inr (selected, omissions)
      else if selected = [] then Inl ContextBudget
      else fit_budget k budget (butlast selected) (omissions @ [omission (ps_ref (List.last selected)) OverBudget]))"
  by pat_completeness auto
termination
  by (relation "measure (\<lambda>(k, budget, selected, omissions). length selected)") auto

declare fit_budget.simps [simp del]

section \<open>The context\<close>

definition omission_json :: "recap_omission \<Rightarrow> json" where
  "omission_json x = JObj [(''revision_ref'', JStr (om_ref x)), (''reason'', JStr (omission_reason_as_str (om_reason x)))]"

definition context_material :: "prepared_recap \<Rightarrow> json" where
  "context_material c = JObj [(''version'', JStr channel_recap_context_version),
     (''sources'', JArr (map source_json (px_sources c))), (''omissions'', JArr (map omission_json (px_omissions c))),
     (''selected_count'', JNum (int (px_selected_count c))), (''included_count'', JNum (int (px_included_count c))),
     (''omitted_count'', JNum (int (px_omitted_count c))), (''channel_count'', JNum (int (px_channel_count c))),
     (''used_characters'', JNum (int (px_used_characters c))),
     (''estimated_tokens'', JNum (int (px_estimated_tokens c)))]"

definition policy_valid :: "recap_policy \<Rightarrow> bool" where
  "policy_valid policy =
     (\<not> (rp_max_sources policy = 0 \<or> rp_max_sources policy > 100 \<or>
         rp_max_channels policy = 0 \<or> rp_max_channels policy > 20 \<or> rp_max_characters policy = 0))"

definition assemble_context ::
  "recap_codecs \<Rightarrow> nat \<Rightarrow> prepared_recap_source list \<Rightarrow> recap_omission list \<Rightarrow> prepared_recap" where
  "assemble_context k total_count selected omissions =
     (let used = source_character_count k selected;
          c = \<lparr>px_version = channel_recap_context_version, px_sources = selected,
               px_omissions = sort_key (\<lambda>x. (om_ref x, omission_rank (om_reason x))) omissions,
               px_selected_count = total_count, px_included_count = length selected,
               px_omitted_count = length omissions,
               px_channel_count = length (remdups (map ps_channel selected)), px_used_characters = used,
               px_estimated_tokens = min (used + 3) usize_max div 4, px_digest = []\<rparr>
      in c\<lparr>px_digest := rk_sha k (rk_bytes k (context_material c))\<rparr>)"

definition prepare_channel_recap_context ::
  "recap_codecs \<Rightarrow> verified_manifest \<Rightarrow> recap_policy \<Rightarrow> recap_context_error + prepared_recap" where
  "prepare_channel_recap_context k verified policy =
     (if \<not> policy_valid policy then Inl InvalidPolicy
      else
        let ordered = ordered_sources (vm_manifest verified);
            (selected, omissions) = select_sources policy ordered [] [] []
        in case fit_budget k (rp_max_characters policy) (map (prepared_source k) selected) omissions of
             Inl e \<Rightarrow> Inl e
           | Inr (selected, omissions) \<Rightarrow>
               if selected = [] then Inl ContextBudget
               else Inr (assemble_context k (length ordered) selected omissions))"

section \<open>The provider request\<close>

record recap_source_label =
  lb_ref :: string
  lb_channel :: string
  lb_label :: string
  lb_published :: string
  lb_digest :: string

record recap_source_content =
  sc_ref :: string
  sc_content :: string

record recap_provider_request =
  pq_prompt :: string
  pq_policy :: string
  pq_task :: string
  pq_language :: output_language
  pq_schema :: json
  pq_labels :: "recap_source_label list"
  pq_contents :: "recap_source_content list"
  pq_external_fetch :: bool
  pq_max_output_tokens :: "32 word"

datatype recap_generation_error = GenerationEncode | InvalidBudget

definition channel_recap_prompt_version :: string where
  "channel_recap_prompt_version = ''channel_digest_recap_prompt.v1''"

text \<open>The fixed texts of \<open>prompts/channel-digest-recap.v1\<close> and the generated schema.\<close>

record recap_texts =
  rt_system :: string
  rt_task :: string
  rt_schema :: json

definition build_channel_recap_provider_request ::
  "recap_texts \<Rightarrow> prepared_recap \<Rightarrow> output_language \<Rightarrow> 32 word \<Rightarrow>
   recap_generation_error + recap_provider_request" where
  "build_channel_recap_provider_request texts c language max_output_tokens =
     (if \<not> (1 \<le> max_output_tokens \<and> max_output_tokens \<le> 4096) then Inl InvalidBudget
      else Inr \<lparr>pq_prompt = channel_recap_prompt_version, pq_policy = rt_system texts, pq_task = rt_task texts,
        pq_language = language, pq_schema = rt_schema texts,
        pq_labels = map (\<lambda>s. \<lparr>lb_ref = ps_ref s, lb_channel = ps_channel s, lb_label = ps_label s,
          lb_published = ps_published s, lb_digest = ps_digest s\<rparr>) (px_sources c),
        pq_contents = map (\<lambda>s. \<lparr>sc_ref = ps_ref s, sc_content = ps_content s\<rparr>) (px_sources c),
        pq_external_fetch = False, pq_max_output_tokens = max_output_tokens\<rparr>)"

end
