(* ===== verification/Recap_Result.thy ===== *)
theory Recap_Result
  imports Recap_Context
begin

text \<open>
  The grounded result of a channel recap (\<open>channel_digest_recap_result.rs\<close>): the closed schemas read
  from the attributes of the types, the composition of the stored recap from what the model wrote and
  what the system knows, and the validation of citations, linkage and links.
\<close>

section \<open>Types\<close>

datatype recap_warning =
  PartialAcquisition | ContextOmittedSources | ConflictingSources | EditedSources | LimitedEvidence

fun recap_warning_as_str :: "recap_warning \<Rightarrow> string" where
  "recap_warning_as_str PartialAcquisition = ''partial_acquisition''"
| "recap_warning_as_str ContextOmittedSources = ''context_omitted_sources''"
| "recap_warning_as_str ConflictingSources = ''conflicting_sources''"
| "recap_warning_as_str EditedSources = ''edited_sources''"
| "recap_warning_as_str LimitedEvidence = ''limited_evidence''"

definition recap_warnings :: "recap_warning list" where
  "recap_warnings = [PartialAcquisition, ContextOmittedSources, ConflictingSources, EditedSources, LimitedEvidence]"

record recap_topic =
  tp_label :: string
  tp_summary :: string
  tp_citations :: "string list"

record recap_item =
  ni_title :: string
  ni_summary :: string
  ni_citations :: "string list"

record recap_coverage =
  cg_selected :: "16 word"
  cg_included :: "16 word"
  cg_omitted :: "16 word"
  cg_channels :: "16 word"

text \<open>The three version fields are enums of one constructor; the digest algorithm is SHA-256 or another.\<close>

record channel_digest_recap =
  cr_language :: output_language
  cr_digest_is_sha256 :: bool
  cr_manifest_digest :: string
  cr_headline :: string
  cr_overview :: string
  cr_topics :: "recap_topic list"
  cr_items :: "recap_item list"
  cr_coverage :: recap_coverage
  cr_warnings :: "recap_warning list"

record recap_model_output =
  mu_headline :: string
  mu_overview :: string
  mu_topics :: "recap_topic list"
  mu_items :: "recap_item list"
  mu_warnings :: "recap_warning list"

datatype recap_result_error =
  ResultSchemaDefinition | ResultStructural | ResultDecode | ResultCitation | ResultLinkage | ForbiddenLink

section \<open>Schemas\<close>

fun any_string :: "json \<Rightarrow> bool" where
  "any_string (JStr s) = True"
| "any_string _ = False"

definition string_among :: "string list \<Rightarrow> json \<Rightarrow> bool" where
  "string_among xs j = (case j of JStr s \<Rightarrow> s \<in> set xs | _ \<Rightarrow> False)"

definition integer_between :: "int \<Rightarrow> int \<Rightarrow> json \<Rightarrow> bool" where
  "integer_between lo hi j = (case j of JNum n \<Rightarrow> lo \<le> n \<and> n \<le> hi | _ \<Rightarrow> False)"

definition topic_schema :: "json \<Rightarrow> bool" where
  "topic_schema = exact_object
     [(''label'', string_between 1 80), (''summary'', string_between 1 400),
      (''citations'', array_between 1 10 any_string)]"

definition item_schema :: "json \<Rightarrow> bool" where
  "item_schema = exact_object
     [(''title'', string_between 1 160), (''summary'', string_between 1 320),
      (''citations'', array_between 1 10 any_string)]"

definition coverage_schema :: "json \<Rightarrow> bool" where
  "coverage_schema = exact_object
     [(''selected_count'', integer_between 1 100), (''included_count'', integer_between 1 100),
      (''omitted_count'', integer_between 0 99), (''channel_count'', integer_between 1 20)]"

definition warning_schema :: "json \<Rightarrow> bool" where
  "warning_schema = string_among (map recap_warning_as_str recap_warnings)"

definition model_output_schema :: "json \<Rightarrow> bool" where
  "model_output_schema = exact_object
     [(''headline'', string_between 1 160), (''overview'', string_between 1 1600),
      (''topics'', array_between 1 5 topic_schema), (''notable_items'', array_between 0 5 item_schema),
      (''warnings'', array_between 0 10 warning_schema)]"

text \<open>
  The schema of the digest is the contract crate's; the part the code relies on is that it admits the
  JSON form of a parsed SHA-256 digest.
\<close>

definition digest_schema :: "json \<Rightarrow> bool" where
  "digest_schema j =
     exact_object [(''algorithm'', any_string),
       (''hex'', \<lambda>h. case h of JStr s \<Rightarrow> is_digest_hex s | _ \<Rightarrow> False)] j"

definition recap_schema :: "json \<Rightarrow> bool" where
  "recap_schema = exact_object
     [(''contract_version'', string_among [''channel_digest_recap.v1'']),
      (''prompt_version'', string_among [''channel_digest_recap_prompt.v1'']),
      (''context_version'', string_among [''channel_digest_recap_context.v1'']),
      (''output_language'', string_among [''ru'', ''en'']), (''manifest_digest'', digest_schema),
      (''headline'', string_between 1 160), (''overview'', string_between 1 1600),
      (''topics'', array_between 1 5 topic_schema), (''notable_items'', array_between 0 5 item_schema),
      (''coverage'', coverage_schema), (''warnings'', array_between 0 10 warning_schema)]"

section \<open>Decoding\<close>

definition decode_strings :: "json \<Rightarrow> string list option" where
  "decode_strings j = Option.bind (json_array j) (decode_all json_str)"

definition decode_topic :: "json \<Rightarrow> recap_topic option" where
  "decode_topic j =
     (case (Option.bind (json_get j ''label'') json_str, Option.bind (json_get j ''summary'') json_str,
            Option.bind (json_get j ''citations'') decode_strings) of
        (Some l, Some s, Some cs) \<Rightarrow> Some \<lparr>tp_label = l, tp_summary = s, tp_citations = cs\<rparr>
      | _ \<Rightarrow> None)"

definition decode_item :: "json \<Rightarrow> recap_item option" where
  "decode_item j =
     (case (Option.bind (json_get j ''title'') json_str, Option.bind (json_get j ''summary'') json_str,
            Option.bind (json_get j ''citations'') decode_strings) of
        (Some l, Some s, Some cs) \<Rightarrow> Some \<lparr>ni_title = l, ni_summary = s, ni_citations = cs\<rparr>
      | _ \<Rightarrow> None)"

definition decode_warning :: "json \<Rightarrow> recap_warning option" where
  "decode_warning j = find (\<lambda>x. j = JStr (recap_warning_as_str x)) recap_warnings"

definition decode_u16 :: "json \<Rightarrow> 16 word option" where
  "decode_u16 j = (case j of JNum n \<Rightarrow> if 0 \<le> n \<and> n < 2 ^ 16 then Some (of_int n) else None | _ \<Rightarrow> None)"

definition decode_coverage :: "json \<Rightarrow> recap_coverage option" where
  "decode_coverage j =
     (case (Option.bind (json_get j ''selected_count'') decode_u16,
            Option.bind (json_get j ''included_count'') decode_u16,
            Option.bind (json_get j ''omitted_count'') decode_u16,
            Option.bind (json_get j ''channel_count'') decode_u16) of
        (Some a, Some b, Some c, Some d) \<Rightarrow>
          Some \<lparr>cg_selected = a, cg_included = b, cg_omitted = c, cg_channels = d\<rparr>
      | _ \<Rightarrow> None)"

definition decode_language :: "json \<Rightarrow> output_language option" where
  "decode_language j = (if j = JStr ''ru'' then Some Ru else if j = JStr ''en'' then Some En else None)"

definition decode_list :: "(json \<Rightarrow> 'a option) \<Rightarrow> json \<Rightarrow> 'a list option" where
  "decode_list f j = Option.bind (json_array j) (decode_all f)"

definition decode_model_output :: "json \<Rightarrow> recap_model_output option" where
  "decode_model_output j =
     (case (Option.bind (json_get j ''headline'') json_str, Option.bind (json_get j ''overview'') json_str,
            Option.bind (json_get j ''topics'') (decode_list decode_topic),
            Option.bind (json_get j ''notable_items'') (decode_list decode_item),
            Option.bind (json_get j ''warnings'') (decode_list decode_warning)) of
        (Some h, Some v, Some ts, Some ns, Some ws) \<Rightarrow>
          Some \<lparr>mu_headline = h, mu_overview = v, mu_topics = ts, mu_items = ns, mu_warnings = ws\<rparr>
      | _ \<Rightarrow> None)"

text \<open>\<open>ContentDigest\<close>: its algorithm and its hexadecimal text.\<close>

definition decode_digest :: "json \<Rightarrow> (bool \<times> string) option" where
  "decode_digest j =
     (case (Option.bind (json_get j ''algorithm'') json_str, Option.bind (json_get j ''hex'') json_str) of
        (Some a, Some h) \<Rightarrow> Some (a = ''sha256'', h)
      | _ \<Rightarrow> None)"

definition decode_recap :: "json \<Rightarrow> channel_digest_recap option" where
  "decode_recap j =
     (case (Option.bind (json_get j ''output_language'') decode_language,
            Option.bind (json_get j ''manifest_digest'') decode_digest,
            decode_model_output j, Option.bind (json_get j ''coverage'') decode_coverage) of
        (Some lang, Some (sha256, hex), Some m, Some c) \<Rightarrow>
          Some \<lparr>cr_language = lang, cr_digest_is_sha256 = sha256, cr_manifest_digest = hex,
            cr_headline = mu_headline m, cr_overview = mu_overview m, cr_topics = mu_topics m,
            cr_items = mu_items m, cr_coverage = c, cr_warnings = mu_warnings m\<rparr>
      | _ \<Rightarrow> None)"

section \<open>Encoding\<close>

definition encode_topic :: "recap_topic \<Rightarrow> json" where
  "encode_topic t = JObj [(''label'', JStr (tp_label t)), (''summary'', JStr (tp_summary t)),
     (''citations'', JArr (map JStr (tp_citations t)))]"

definition encode_item :: "recap_item \<Rightarrow> json" where
  "encode_item n = JObj [(''title'', JStr (ni_title n)), (''summary'', JStr (ni_summary n)),
     (''citations'', JArr (map JStr (ni_citations n)))]"

definition encode_coverage :: "recap_coverage \<Rightarrow> json" where
  "encode_coverage c = JObj [(''selected_count'', JNum (uint (cg_selected c))),
     (''included_count'', JNum (uint (cg_included c))), (''omitted_count'', JNum (uint (cg_omitted c))),
     (''channel_count'', JNum (uint (cg_channels c)))]"

definition encode_recap :: "channel_digest_recap \<Rightarrow> json" where
  "encode_recap r = JObj
     [(''contract_version'', JStr ''channel_digest_recap.v1''),
      (''prompt_version'', JStr ''channel_digest_recap_prompt.v1''),
      (''context_version'', JStr ''channel_digest_recap_context.v1''),
      (''output_language'', JStr (recap_output_language (cr_language r))),
      (''manifest_digest'', JObj [(''algorithm'', JStr (if cr_digest_is_sha256 r then ''sha256'' else [])),
         (''hex'', JStr (cr_manifest_digest r))]),
      (''headline'', JStr (cr_headline r)), (''overview'', JStr (cr_overview r)),
      (''topics'', JArr (map encode_topic (cr_topics r))), (''notable_items'', JArr (map encode_item (cr_items r))),
      (''coverage'', encode_coverage (cr_coverage r)),
      (''warnings'', JArr (map (JStr \<circ> recap_warning_as_str) (cr_warnings r)))]"

section \<open>Composition\<close>

definition to_u16 :: "nat \<Rightarrow> recap_result_error + 16 word" where
  "to_u16 n = (if n < 2 ^ 16 then Inr (of_nat n) else Inl ResultLinkage)"

definition composed_warnings :: "recap_model_output \<Rightarrow> prepared_recap \<Rightarrow> recap_warning list" where
  "composed_warnings m c =
     (if px_omitted_count c > 0 \<and> ContextOmittedSources \<notin> set (mu_warnings m)
      then mu_warnings m @ [ContextOmittedSources] else mu_warnings m)"

definition compose_channel_digest_recap ::
  "recap_model_output \<Rightarrow> prepared_recap \<Rightarrow> string \<Rightarrow> output_language \<Rightarrow> recap_result_error + json" where
  "compose_channel_digest_recap m c manifest_digest language =
     (if \<not> is_digest_hex manifest_digest then Inl ResultLinkage
      else case (to_u16 (px_selected_count c), to_u16 (px_included_count c),
                 to_u16 (px_omitted_count c), to_u16 (px_channel_count c)) of
        (Inr a, Inr b, Inr d, Inr e) \<Rightarrow>
          Inr (encode_recap \<lparr>cr_language = language, cr_digest_is_sha256 = True,
            cr_manifest_digest = manifest_digest, cr_headline = mu_headline m, cr_overview = mu_overview m,
            cr_topics = mu_topics m, cr_items = mu_items m,
            cr_coverage = \<lparr>cg_selected = a, cg_included = b, cg_omitted = d, cg_channels = e\<rparr>,
            cr_warnings = composed_warnings m c\<rparr>)
      | _ \<Rightarrow> Inl ResultLinkage)"

section \<open>Validation\<close>

fun validate_citations :: "string list \<Rightarrow> string list \<Rightarrow> string list \<Rightarrow> recap_result_error + unit" where
  "validate_citations included seen [] = Inr ()"
| "validate_citations included seen (citation # citations) =
     (if citation \<in> set seen \<or> citation \<notin> set included then Inl ResultCitation
      else validate_citations included (citation # seen) citations)"

fun validate_all_citations :: "string list \<Rightarrow> string list list \<Rightarrow> recap_result_error + unit" where
  "validate_all_citations included [] = Inr ()"
| "validate_all_citations included (citations # rest) =
     (case validate_citations included [] citations of
        Inl e \<Rightarrow> Inl e
      | Inr _ \<Rightarrow> validate_all_citations included rest)"

definition recap_texts_of :: "channel_digest_recap \<Rightarrow> string list" where
  "recap_texts_of r = cr_headline r # cr_overview r #
     concat (map (\<lambda>t. [tp_label t, tp_summary t]) (cr_topics r)) @
     concat (map (\<lambda>n. [ni_title n, ni_summary n]) (cr_items r))"

text \<open>\<open>to_ascii_lowercase\<close> and \<open>contains\<close>.\<close>

definition ascii_lower_char :: "char \<Rightarrow> char" where
  "ascii_lower_char c = (let n = of_char c :: nat in if 65 \<le> n \<and> n \<le> 90 then char_of (n + 32) else c)"

fun contains_text :: "string \<Rightarrow> string \<Rightarrow> bool" where
  "contains_text marker [] = (marker = [])"
| "contains_text marker (c # s) = (take (length marker) (c # s) = marker \<or> contains_text marker s)"

definition contains_forbidden_link :: "string \<Rightarrow> bool" where
  "contains_forbidden_link s =
     (let lowercase = map ascii_lower_char s
      in list_ex (\<lambda>marker. contains_text marker lowercase) [''http://'', ''https://'', ''www.'', ''t.me/''])"

definition coverage_matches :: "recap_coverage \<Rightarrow> prepared_recap \<Rightarrow> bool" where
  "coverage_matches g c =
     (unat (cg_selected g) = px_selected_count c \<and> unat (cg_included g) = px_included_count c \<and>
      unat (cg_omitted g) = px_omitted_count c \<and> unat (cg_channels g) = px_channel_count c \<and>
      (unat (cg_included g) + unat (cg_omitted g) < 2 ^ 16 \<and> cg_included g + cg_omitted g = cg_selected g))"

definition validate_channel_digest_recap ::
  "json \<Rightarrow> prepared_recap \<Rightarrow> string \<Rightarrow> output_language \<Rightarrow> recap_result_error + channel_digest_recap" where
  "validate_channel_digest_recap j c manifest_digest language =
     (if \<not> recap_schema j then Inl ResultStructural
      else case decode_recap j of None \<Rightarrow> Inl ResultDecode | Some r \<Rightarrow>
        if cr_language r \<noteq> language \<or> cr_manifest_digest r \<noteq> manifest_digest \<or>
           \<not> cr_digest_is_sha256 r \<or> \<not> coverage_matches (cr_coverage r) c
        then Inl ResultLinkage
        else if length (remdups (cr_warnings r)) \<noteq> length (cr_warnings r) then Inl ResultLinkage
        else case validate_all_citations (map ps_ref (px_sources c))
                    (map tp_citations (cr_topics r) @ map ni_citations (cr_items r)) of
          Inl e \<Rightarrow> Inl e
        | Inr _ \<Rightarrow>
            if list_ex contains_forbidden_link (recap_texts_of r) then Inl ForbiddenLink else Inr r)"

definition validate_channel_recap_model_output ::
  "json \<Rightarrow> prepared_recap \<Rightarrow> string \<Rightarrow> output_language \<Rightarrow> recap_result_error + channel_digest_recap" where
  "validate_channel_recap_model_output j c manifest_digest language =
     (if \<not> model_output_schema j then Inl ResultStructural
      else case decode_model_output j of None \<Rightarrow> Inl ResultDecode | Some m \<Rightarrow>
        case compose_channel_digest_recap m c manifest_digest language of
          Inl e \<Rightarrow> Inl e
        | Inr composed \<Rightarrow> validate_channel_digest_recap composed c manifest_digest language)"

end
