(* ===== verification/Recap_Store.thy ===== *)
theory Recap_Store
  imports Recap_Result Foreign_Keys
begin

text \<open>
  The durable inbox, run state and terminal outbox of channel recaps
  (\<open>channel_digest_recap_store.rs\<close>). The facts and commands of the contract crate are records of the
  fields the code reads or writes; parsing, validation and encoding by the crate are parameters.
\<close>

section \<open>Commands and facts\<close>

text \<open>\<open>CommandEnvelope\<close>, by the fields the code reads.\<close>

record command =
  ce_command :: uuid
  ce_type :: string
  ce_producer :: string
  ce_tenant :: "string option"
  ce_payload :: json

datatype payload_error = PayloadType | PayloadInvalid

datatype recap_failure_code =
  CodeManifestUnavailable | CodeManifestIntegrity | CodeContextBudget
| CodeProviderTimeout | CodeProviderUnavailable | CodeInvalidOutput

record failed_fact =
  ff_owner :: string
  ff_operation :: uuid
  ff_digest_run :: uuid
  ff_manifest_digest :: string
  ff_code :: recap_failure_code
  ff_failed_at :: instant

record completed_fact =
  cf_owner :: string
  cf_operation :: uuid
  cf_digest_run :: uuid
  cf_manifest_digest :: string
  cf_analysis_ref :: string
  cf_result :: uuid
  cf_result_ref :: string
  cf_result_digest :: string
  cf_completed_at :: instant
  cf_coverage :: json

text \<open>
  The contract crate: \<open>payload_as\<close>, the forms of a request and of a manifest, the typed reading of the
  fields of a fact (\<open>from_value\<close>), \<open>validate_for_publish\<close> and \<open>to_value\<close>.
\<close>

record recap_contracts =
  rx_payload :: "command \<Rightarrow> payload_error + recap_request"
  rx_encode_request :: "recap_request \<Rightarrow> json option"
  rx_decode_request :: "json \<Rightarrow> recap_request option"
  rx_encode_manifest :: "manifest \<Rightarrow> json option"
  rx_decode_manifest :: "json \<Rightarrow> manifest option"
  rx_failed_reads :: "failed_fact \<Rightarrow> bool"
  rx_failed_valid :: "failed_fact \<Rightarrow> bool"
  rx_encode_failed :: "failed_fact \<Rightarrow> json option"
  rx_encode_code :: "recap_failure_code \<Rightarrow> json option"
  rx_completed_reads :: "completed_fact \<Rightarrow> bool"
  rx_completed_valid :: "completed_fact \<Rightarrow> bool"
  rx_encode_completed :: "completed_fact \<Rightarrow> json option"

section \<open>States\<close>

text \<open>\<open>ChannelRecapRunState\<close> and its spelling are \<open>recap_state\<close> and \<open>recap_state_as_str\<close>.\<close>

fun recap_is_terminal :: "recap_state \<Rightarrow> bool" where
  "recap_is_terminal s = (s \<in> {RecapCompleted, RecapFailed})"

fun allowed_recap_transition :: "recap_state \<Rightarrow> recap_state \<Rightarrow> bool" where
  "allowed_recap_transition expected next =
     ((expected, next) \<in> {(RecapReceived, RecapManifestRetry), (RecapReceived, RecapManifestVerified),
        (RecapManifestRetry, RecapManifestVerified), (RecapManifestVerified, RecapContextPrepared),
        (RecapContextPrepared, RecapModelRequested), (RecapRepaired, RecapModelRequested),
        (RecapModelRequested, RecapResponseReceived), (RecapResponseReceived, RecapSchemaValidated),
        (RecapResponseReceived, RecapRepaired), (RecapSchemaValidated, RecapPersisted)})"

definition all_recap_states :: "recap_state list" where
  "all_recap_states = [RecapReceived, RecapManifestRetry, RecapManifestVerified, RecapContextPrepared,
     RecapModelRequested, RecapResponseReceived, RecapSchemaValidated, RecapRepaired, RecapPersisted,
     RecapCompleted, RecapFailed]"

definition parse_recap_state :: "string \<Rightarrow> recap_state option" where
  "parse_recap_state s = find (\<lambda>x. recap_state_as_str x = s) all_recap_states"

lemma parse_recap_state_as_str [simp]: "parse_recap_state (recap_state_as_str s) = Some s"
  by (cases s) (simp_all add: parse_recap_state_def all_recap_states_def)

section \<open>Failures\<close>

datatype recap_admission_error = UnsupportedSubject | InvalidPayload | OwnerMismatch

datatype recap_run_error =
  InvalidTransition | StateConflict | InconsistentFact | RunEncode | RunPersistence persistence_error

datatype recap_inbox_error =
  InboxAdmission recap_admission_error | CommandEncode | IdentityConflict
| CommandPersistence persistence_error

datatype recap_read_error = ResultNotFound | ResultIntegrity | ResultPersistence persistence_error

abbreviation run_query :: recap_run_error where
  "run_query \<equiv> RunPersistence Query"

section \<open>Constraints of the recap tables\<close>

text \<open>The check constraints of \<open>channel_recap_runs\<close>; \<open>update\<close> evaluates them on the rows it writes.\<close>

definition recap_run_ok :: "recap_run_row \<Rightarrow> bool" where
  "recap_run_ok r =
     (rn_attempts r \<le> 2 \<and> rn_manifest_attempts r \<le> 2 \<and>
      (rn_state r = RecapManifestRetry) = (rn_retry_not_before r \<noteq> None) \<and>
      (rn_state r = RecapFailed) = (rn_failure r \<noteq> None))"

definition update_recap_run ::
  "'e \<Rightarrow> (recap_run_row \<Rightarrow> bool) \<Rightarrow> (recap_run_row \<Rightarrow> recap_run_row) \<Rightarrow> (world, 'e, nat) exec" where
  "update_recap_run e p f = sql e (\<lambda>t.
     if list_all (\<lambda>r. p r \<longrightarrow> recap_run_ok (f r)) (recap_runs t)
     then Inr (count_where p (recap_runs t), t\<lparr>recap_runs := update_where p f (recap_runs t)\<rparr>)
     else Inl e)"

definition recap_run_at :: "uuid \<Rightarrow> db \<Rightarrow> recap_run_row option" where
  "recap_run_at run t = find_where (\<lambda>r. rn_id r = run) (recap_runs t)"

definition in_state :: "uuid \<Rightarrow> recap_state \<Rightarrow> recap_run_row \<Rightarrow> bool" where
  "in_state run s r = (rn_id r = run \<and> rn_state r = s)"

definition recap_in_state :: "uuid \<Rightarrow> recap_state \<Rightarrow> db \<Rightarrow> recap_run_row option" where
  "recap_in_state run s t = find_where (in_state run s) (recap_runs t)"

section \<open>Reading a completed result\<close>

record recap_projection =
  rj_analysis :: uuid
  rj_digest :: string
  rj_recap :: channel_digest_recap

definition read_completed_result ::
  "recap_codecs \<Rightarrow> uuid \<Rightarrow> (world, recap_read_error, recap_projection) exec" where
  "read_completed_result k analysis =
     exec_bind (query (ResultPersistence Query) (\<lambda>t.
       find_where (\<lambda>o'. rs_id o' = analysis \<and>
         exists_where (\<lambda>r. rn_id r = rs_run o' \<and> rn_state r = RecapCompleted) (recap_runs t)) (recap_results t)))
       (\<lambda>stored.
     case stored of
       None \<Rightarrow> exec_fail ResultNotFound
     | Some o' \<Rightarrow>
         exec_bind (exec_guard (rk_sha k (rk_bytes k (rs_result o')) = rs_digest o') ResultIntegrity) (\<lambda>_.
         exec_bind (exec_guard (recap_schema (rs_result o')) ResultIntegrity) (\<lambda>_.
         case decode_recap (rs_result o') of
           None \<Rightarrow> exec_fail ResultIntegrity
         | Some r \<Rightarrow> exec_return \<lparr>rj_analysis = analysis, rj_digest = rs_digest o', rj_recap = r\<rparr>)))"

section \<open>Transitions\<close>

definition recap_transition :: "uuid \<Rightarrow> recap_state \<Rightarrow> recap_state \<Rightarrow> (world, recap_run_error, unit) exec" where
  "recap_transition run expected next =
     exec_bind (exec_guard (allowed_recap_transition expected next \<and> \<not> recap_is_terminal next) InvalidTransition) (\<lambda>_.
     exec_bind get_now (\<lambda>at.
     exec_bind (update_recap_run run_query
       (\<lambda>r. in_state run expected r \<and> rn_state r \<notin> {RecapCompleted, RecapFailed})
       (\<lambda>r. r\<lparr>rn_state := next,
          rn_retry_not_before := (if next = RecapManifestRetry then Some at else None)\<rparr>)) (\<lambda>n.
     exec_guard (n = 1) StateConflict)))"

record manifest_attempt_status =
  mx_state :: recap_state
  mx_attempts :: nat
  mx_ready :: bool

definition manifest_status ::
  "uuid \<Rightarrow> (world, recap_run_error, manifest_attempt_status) exec" where
  "manifest_status run =
     exec_bind get_now (\<lambda>at.
     exec_bind (query run_query (recap_run_at run)) (\<lambda>row.
     case row of
       None \<Rightarrow> exec_fail StateConflict
     | Some r \<Rightarrow>
         (case parse_recap_state (recap_state_as_str (rn_state r)) of
            None \<Rightarrow> exec_fail InconsistentFact
          | Some state \<Rightarrow> exec_return \<lparr>mx_state = state, mx_attempts = rn_manifest_attempts r,
              mx_ready = (case rn_retry_not_before r of None \<Rightarrow> True | Some i \<Rightarrow> i \<le> at)\<rparr>)))"

text \<open>The delay is a number of milliseconds, clamped to \<open>i64\<close>; an instant is a number of microseconds.\<close>

definition schedule_manifest_retry ::
  "uuid \<Rightarrow> recap_state \<Rightarrow> nat \<Rightarrow> nat \<Rightarrow> (world, recap_run_error, unit) exec" where
  "schedule_manifest_retry run expected attempts delay_ms =
     exec_bind get_now (\<lambda>at.
     exec_bind (update_recap_run run_query
       (\<lambda>r. in_state run expected r \<and> rn_manifest_attempts r = attempts \<and> rn_manifest_attempts r < 1)
       (\<lambda>r. r\<lparr>rn_state := RecapManifestRetry, rn_manifest_attempts := rn_manifest_attempts r + 1,
          rn_retry_not_before := Some (at + 1000 * int (min delay_ms (2 ^ 63 - 1)))\<rparr>)) (\<lambda>n.
     exec_guard (n = 1) StateConflict))"

section \<open>The verified manifest\<close>

definition recap_manifest_ok :: "recap_manifest_row \<Rightarrow> bool" where
  "recap_manifest_ok m =
     (is_digest_hex (rm_digest m) \<and> rm_start m < rm_end m \<and> 1 \<le> rm_sources m \<and> rm_sources m \<le> 100 \<and>
      1 \<le> rm_channels m \<and> rm_channels m \<le> 20 \<and> rm_channels m \<le> rm_sources m \<and> json_is_object (rm_manifest m))"

definition manifest_key :: "recap_manifest_row \<Rightarrow> string \<times> uuid \<times> string \<times> string" where
  "manifest_key m = (rm_owner m, rm_digest_run m, rm_ref m, rm_digest m)"

definition insert_manifest :: "recap_manifest_row \<Rightarrow> (world, recap_run_error, nat) exec" where
  "insert_manifest m = sql run_query (\<lambda>t.
     let taken = exists_where (\<lambda>x. rm_run x = rm_run m \<or> manifest_key x = manifest_key m) (recap_manifests t);
         t' = t\<lparr>recap_manifests := recap_manifests t @ [m]\<rparr>
     in if \<not> recap_manifest_ok m then Inl run_query
        else if taken then Inr (0, t)
        else if recap_fk t' then Inr (1, t') else Inl run_query)"

definition i32_or_max :: "nat \<Rightarrow> nat" where
  "i32_or_max n = (if n < 2 ^ 31 then n else 2 ^ 31 - 1)"

definition manifest_row :: "recap_run_row \<Rightarrow> verified_manifest \<Rightarrow> json \<Rightarrow> recap_manifest_row" where
  "manifest_row linked v j =
     \<lparr>rm_run = rn_id linked, rm_owner = rn_owner linked, rm_digest_run = rn_digest_run linked,
      rm_ref = mf_ref (vm_manifest v), rm_digest = vm_digest v, rm_start = mf_start (vm_manifest v),
      rm_end = mf_end (vm_manifest v), rm_sources = i32_or_max (length (mf_sources (vm_manifest v))),
      rm_channels = i32_or_max (length (channel_refs (vm_manifest v))), rm_manifest = j\<rparr>"

definition accept_manifest_body ::
  "recap_contracts \<Rightarrow> uuid \<Rightarrow> recap_state \<Rightarrow> verified_manifest \<Rightarrow> (world, recap_run_error, unit) exec" where
  "accept_manifest_body rx run expected v =
     exec_bind (query run_query (recap_in_state run expected)) (\<lambda>linkage.
     case linkage of
       None \<Rightarrow> exec_fail StateConflict
     | Some linked \<Rightarrow>
         exec_bind (exec_guard (mf_owner (vm_manifest v) = rn_owner linked \<and>
           mf_digest_run (vm_manifest v) = rn_digest_run linked \<and> vm_digest v = rn_manifest_digest linked)
           InconsistentFact) (\<lambda>_.
         case rx_encode_manifest rx (vm_manifest v) of
           None \<Rightarrow> exec_fail RunEncode
         | Some j \<Rightarrow>
             exec_bind (insert_manifest (manifest_row linked v j)) (\<lambda>inserted.
             exec_bind (exec_guard (inserted = 1) StateConflict) (\<lambda>_.
             exec_bind (update_recap_run run_query (in_state run expected)
               (\<lambda>r. r\<lparr>rn_state := RecapManifestVerified, rn_retry_not_before := None\<rparr>)) (\<lambda>n.
             exec_guard (n = 1) StateConflict)))))"

definition accept_verified_manifest ::
  "recap_contracts \<Rightarrow> uuid \<Rightarrow> recap_state \<Rightarrow> verified_manifest \<Rightarrow> (world, recap_run_error, unit) exec" where
  "accept_verified_manifest rx run expected v =
     (if expected \<notin> {RecapReceived, RecapManifestRetry} then exec_fail InvalidTransition
      else transact run_query (accept_manifest_body rx run expected v))"

section \<open>Settling\<close>

record terminal_settlement =
  tl_terminal :: recap_state
  tl_subject :: string
  tl_payload :: json
  tl_failure :: "string option"
  tl_result :: "uuid option"

definition completed_subject :: string where
  "completed_subject = ''knowledge.channel_digest_recap.completed.v1''"

definition failed_subject :: string where
  "failed_subject = ''knowledge.channel_digest_recap.failed.v1''"

definition settlement_matches_linkage :: "terminal_settlement \<Rightarrow> string \<Rightarrow> string \<Rightarrow> string \<Rightarrow> bool" where
  "settlement_matches_linkage s owner digest_run manifest_digest =
     (Option.bind (json_get (tl_payload s) ''owner'') json_str = Some owner \<and>
      Option.bind (json_get (tl_payload s) ''digest_run_id'') json_str = Some digest_run \<and>
      Option.bind (Option.bind (json_get (tl_payload s) ''manifest_digest'') (\<lambda>d. json_get d ''hex'')) json_str =
        Some manifest_digest)"

definition settlement_result_exists :: "uuid \<Rightarrow> uuid \<Rightarrow> (world, recap_run_error, bool) exec" where
  "settlement_result_exists run result =
     query run_query (\<lambda>t. exists_where (\<lambda>o'. rs_run o' = run \<and> rs_id o' = result) (recap_results t))"

definition is_manifest_failure :: "string option \<Rightarrow> bool" where
  "is_manifest_failure code = (code \<in> {Some ''manifest_unavailable'', Some ''manifest_integrity''})"

definition settled_row :: "terminal_settlement \<Rightarrow> recap_run_row \<Rightarrow> recap_run_row" where
  "settled_row s r = r\<lparr>rn_state := tl_terminal s, rn_failure := tl_failure s,
     rn_manifest_attempts := (if is_manifest_failure (tl_failure s)
       then min (rn_manifest_attempts r + 1) 2 else rn_manifest_attempts r),
     rn_retry_not_before := None\<rparr>"

text \<open>A plain insert into the outbox: a run has at most one row there.\<close>

definition insert_recap_outbox :: "recap_outbox_row \<Rightarrow> (world, recap_run_error, unit) exec" where
  "insert_recap_outbox x = sql run_query (\<lambda>t.
     let t' = t\<lparr>recap_outbox := recap_outbox t @ [x]\<rparr>
     in if exists_where (\<lambda>y. ro_id y = ro_id x \<or> ro_run y = ro_run x) (recap_outbox t) \<or>
           ro_subject x \<notin> {completed_subject, failed_subject} \<or> \<not> json_is_object (ro_payload x) \<or> \<not> recap_fk t'
        then Inl run_query else Inr ((), t'))"

definition settle_body ::
  "uuid \<Rightarrow> recap_state \<Rightarrow> terminal_settlement \<Rightarrow> (world, recap_run_error, unit) exec" where
  "settle_body run expected s =
     exec_bind (query run_query (recap_in_state run expected)) (\<lambda>linkage.
     case linkage of
       None \<Rightarrow> exec_fail StateConflict
     | Some linked \<Rightarrow>
         exec_bind (exec_guard (settlement_matches_linkage s (rn_owner linked) (uuid_text (rn_digest_run linked))
           (rn_manifest_digest linked)) InconsistentFact) (\<lambda>_.
         exec_bind (case tl_result s of
             None \<Rightarrow> exec_return True
           | Some result \<Rightarrow> settlement_result_exists run result) (\<lambda>present.
         exec_bind (exec_guard present InconsistentFact) (\<lambda>_.
         exec_bind (update_recap_run run_query
           (\<lambda>r. in_state run expected r \<and> rn_state r \<notin> {RecapCompleted, RecapFailed}) (settled_row s)) (\<lambda>n.
         exec_bind (exec_guard (n = 1) StateConflict) (\<lambda>_.
         exec_bind new_uuid (\<lambda>ident.
         exec_bind get_now (\<lambda>at.
         insert_recap_outbox \<lparr>ro_id = ident, ro_run = run, ro_subject = tl_subject s, ro_payload = tl_payload s,
           ro_created = at, ro_published = None\<rparr>))))))))"

definition settle :: "uuid \<Rightarrow> recap_state \<Rightarrow> terminal_settlement \<Rightarrow> (world, recap_run_error, unit) exec" where
  "settle run expected s =
     (if recap_is_terminal expected \<or> \<not> recap_is_terminal (tl_terminal s) then exec_fail InvalidTransition
      else transact run_query (settle_body run expected s))"

definition settle_completed ::
  "recap_contracts \<Rightarrow> uuid \<Rightarrow> recap_state \<Rightarrow> completed_fact \<Rightarrow> (world, recap_run_error, unit) exec" where
  "settle_completed rx run expected fct =
     exec_bind (exec_guard (rx_completed_valid rx fct) InconsistentFact) (\<lambda>_.
     case rx_encode_completed rx fct of
       None \<Rightarrow> exec_fail RunEncode
     | Some payload \<Rightarrow> settle run expected \<lparr>tl_terminal = RecapCompleted, tl_subject = completed_subject,
         tl_payload = payload, tl_failure = None, tl_result = Some (cf_result fct)\<rparr>)"

definition settle_failed ::
  "recap_contracts \<Rightarrow> uuid \<Rightarrow> recap_state \<Rightarrow> failed_fact \<Rightarrow> (world, recap_run_error, unit) exec" where
  "settle_failed rx run expected fct =
     exec_bind (exec_guard (rx_failed_valid rx fct) InconsistentFact) (\<lambda>_.
     case rx_encode_code rx (ff_code fct) of
       None \<Rightarrow> exec_fail RunEncode
     | Some code \<Rightarrow>
         (case json_str code of
            None \<Rightarrow> exec_fail InconsistentFact
          | Some failure \<Rightarrow>
              (case rx_encode_failed rx fct of
                 None \<Rightarrow> exec_fail RunEncode
               | Some payload \<Rightarrow> settle run expected \<lparr>tl_terminal = RecapFailed, tl_subject = failed_subject,
                   tl_payload = payload, tl_failure = Some failure, tl_result = None\<rparr>)))"

definition failed_fact_of :: "recap_request \<Rightarrow> recap_failure_code \<Rightarrow> instant \<Rightarrow> failed_fact" where
  "failed_fact_of request code at =
     \<lparr>ff_owner = kq_owner request, ff_operation = kq_operation request, ff_digest_run = kq_digest_run request,
      ff_manifest_digest = kq_manifest_digest request, ff_code = code, ff_failed_at = at\<rparr>"

definition settle_manifest_failure ::
  "recap_contracts \<Rightarrow> uuid \<Rightarrow> recap_state \<Rightarrow> recap_request \<Rightarrow> recap_failure_code \<Rightarrow>
   (world, recap_run_error, unit) exec" where
  "settle_manifest_failure rx run expected request code =
     exec_bind get_now (\<lambda>at.
     let fct = failed_fact_of request code at in
     exec_bind (exec_guard (rx_failed_reads rx fct) RunEncode) (\<lambda>_.
     settle_failed rx run expected fct))"

section \<open>Admission\<close>

datatype recap_admission = RecapAccepted | RecapDuplicate

definition admit_channel_digest_recap ::
  "recap_contracts \<Rightarrow> command \<Rightarrow> recap_admission_error + recap_request" where
  "admit_channel_digest_recap rx envelope =
     (case rx_payload rx envelope of
        Inl PayloadType \<Rightarrow> Inl UnsupportedSubject
      | Inl PayloadInvalid \<Rightarrow> Inl InvalidPayload
      | Inr request \<Rightarrow>
          if ce_tenant envelope \<noteq> Some (kq_owner request) then Inl OwnerMismatch else Inr request)"

definition recap_contract :: string where
  "recap_contract = ''channel_digest_recap.v1''"

text \<open>The check constraints of \<open>channel_recap_inbox\<close>; \<open>'^prefix[0-9a-f-]{36}$'\<close> is a prefix and 36 characters.\<close>

definition matches_ref :: "string \<Rightarrow> string \<Rightarrow> bool" where
  "matches_ref prefix s =
     (take (length prefix) s = prefix \<and> length (drop (length prefix) s) = 36 \<and>
      list_all (\<lambda>c. is_hex_digit c \<or> c = CHR ''-'') (drop (length prefix) s))"

definition week :: int where
  "week = 7 * 24 * 3600 * 1000000"

definition recap_inbox_ok :: "recap_inbox_row \<Rightarrow> bool" where
  "recap_inbox_ok r =
     (matches_ref ''user:'' (ci_owner r) \<and> matches_ref ''channel-digest-manifest:'' (ci_manifest_ref r) \<and>
      is_digest_hex (ci_manifest_digest r) \<and> ci_start r < ci_end r \<and> ci_end r \<le> ci_start r + week \<and>
      1 \<le> ci_sources r \<and> ci_sources r \<le> 100 \<and> 1 \<le> ci_channels r \<and> ci_channels r \<le> 20 \<and>
      ci_channels r \<le> ci_sources r \<and> ci_contract r = recap_contract \<and> ci_language r \<in> {''ru'', ''en''} \<and>
      json_is_object (ci_payload r))"

definition semantic_key :: "recap_inbox_row \<Rightarrow> string \<times> uuid \<times> string \<times> string \<times> string" where
  "semantic_key r = (ci_owner r, ci_digest_run r, ci_manifest_digest r, ci_contract r, ci_language r)"

definition inbox_row_of :: "command \<Rightarrow> recap_request \<Rightarrow> json \<Rightarrow> recap_inbox_row" where
  "inbox_row_of envelope request payload =
     \<lparr>ci_command = ce_command envelope, ci_owner = kq_owner request, ci_operation = kq_operation request,
      ci_digest_run = kq_digest_run request, ci_manifest_ref = kq_manifest_ref request,
      ci_manifest_digest = kq_manifest_digest request, ci_start = kq_start request, ci_end = kq_end request,
      ci_sources = kq_sources request, ci_channels = kq_channels request, ci_contract = recap_contract,
      ci_language = recap_output_language (kq_language request), ci_payload = payload\<rparr>"

definition insert_command :: "recap_inbox_row \<Rightarrow> (world, recap_inbox_error, bool) exec" where
  "insert_command x = sql (CommandPersistence Query) (\<lambda>t.
     if \<not> recap_inbox_ok x then Inl (CommandPersistence Query)
     else if exists_where (\<lambda>y. ci_command y = ci_command x \<or> semantic_key y = semantic_key x) (recap_inbox t)
     then Inr (False, t)
     else Inr (True, t\<lparr>recap_inbox := recap_inbox t @ [x]\<rparr>))"

definition run_identity :: "recap_run_row \<Rightarrow> string \<times> uuid \<times> string \<times> string \<times> string \<times> string \<times> string" where
  "run_identity r = (rn_owner r, rn_digest_run r, rn_manifest_digest r, rn_contract r, rn_prompt r, rn_context r,
     rn_language r)"

definition insert_recap_run :: "recap_run_row \<Rightarrow> (world, recap_inbox_error, unit) exec" where
  "insert_recap_run x = sql (CommandPersistence Query) (\<lambda>t.
     let t' = t\<lparr>recap_runs := recap_runs t @ [x]\<rparr>
     in if exists_where (\<lambda>y. rn_id y = rn_id x \<or> rn_command y = rn_command x \<or> run_identity y = run_identity x)
             (recap_runs t) \<or> \<not> recap_run_ok x \<or> \<not> recap_fk t'
        then Inl (CommandPersistence Query) else Inr ((), t'))"

definition recap_run_of :: "uuid \<Rightarrow> command \<Rightarrow> recap_request \<Rightarrow> recap_run_row" where
  "recap_run_of ident envelope request =
     \<lparr>rn_id = ident, rn_command = ce_command envelope, rn_owner = kq_owner request,
      rn_digest_run = kq_digest_run request, rn_manifest_digest = kq_manifest_digest request,
      rn_contract = recap_contract, rn_prompt = ''channel_recap_prompt_v1'', rn_context = ''channel_recap_context_v1'',
      rn_language = recap_output_language (kq_language request), rn_state = RecapReceived,
      rn_manifest_attempts = 0, rn_retry_not_before = None, rn_attempts = 0, rn_failure = None\<rparr>"

definition accept_command_body ::
  "command \<Rightarrow> recap_request \<Rightarrow> json \<Rightarrow> (world, recap_inbox_error, recap_admission) exec" where
  "accept_command_body envelope request payload =
     (let row = inbox_row_of envelope request payload in
      exec_bind (insert_command row) (\<lambda>inserted.
      if inserted
      then exec_bind new_uuid (\<lambda>ident.
           exec_bind (insert_recap_run (recap_run_of ident envelope request)) (\<lambda>_. exec_return RecapAccepted))
      else exec_bind (query (CommandPersistence Query) (\<lambda>t.
             exists_where (\<lambda>y. (ci_command y = ce_command envelope \<or> semantic_key y = semantic_key row) \<and>
               semantic_key y = semantic_key row) (recap_inbox t))) (\<lambda>exact.
           if \<not> exact then exec_fail IdentityConflict else exec_return RecapDuplicate)))"

definition accept_recap_command ::
  "recap_contracts \<Rightarrow> command \<Rightarrow> (world, recap_inbox_error, recap_admission) exec" where
  "accept_recap_command rx envelope =
     (case admit_channel_digest_recap rx envelope of
        Inl e \<Rightarrow> exec_fail (InboxAdmission e)
      | Inr request \<Rightarrow>
          (case rx_encode_request rx request of
             None \<Rightarrow> exec_fail CommandEncode
           | Some payload \<Rightarrow>
               transact (CommandPersistence Query) (accept_command_body envelope request payload)))"

end
