(* ===== verification/Recap_Pipeline.thy ===== *)
theory Recap_Pipeline
  imports Recap_Store Run_Driver
begin

text \<open>
  The provider pipeline of channel recaps (\<open>channel_digest_recap_pipeline.rs\<close>): an execution holds the
  lock of its run, continues from what the database says, makes at most two provider calls over the
  life of the run, stores every response before it looks at it, and settles the run with one fact.
\<close>

section \<open>Arguments\<close>

datatype recap_error =
  RecapPersistence persistence_error
| RecapBlob blob_error
| RecapProvider provider_error
| RecapTimeout
| RecapInvalid
| RecapState
| RecapEncode

abbreviation recap_query :: recap_error where
  "recap_query \<equiv> RecapPersistence Query"

text \<open>
  The dependencies of a pipeline: the provider and the blob store (as a \<open>driver\<close>, whose policy is not
  used here), the contract crate, the encodings and \<open>serde_json::from_slice\<close>.
\<close>

record recap_env =
  rv_driver :: driver
  rv_contracts :: recap_contracts
  rv_codecs :: recap_codecs
  rv_parse :: "bytes \<Rightarrow> json option"

record recap_check =
  ck_context :: prepared_recap
  ck_digest :: string
  ck_language :: output_language

fun recap_validation_code :: "recap_result_error \<Rightarrow> string" where
  "recap_validation_code e =
     (if e \<in> {ResultSchemaDefinition, ResultStructural, ResultDecode} then ''schema'' else ''grounding'')"

definition validate_response :: "recap_env \<Rightarrow> recap_check \<Rightarrow> bytes \<Rightarrow> string + channel_digest_recap" where
  "validate_response env chk content =
     (case rv_parse env content of
        None \<Rightarrow> Inl ''json_syntax''
      | Some j \<Rightarrow>
          (case validate_channel_recap_model_output j (ck_context chk) (ck_digest chk) (ck_language chk) of
             Inl e \<Rightarrow> Inl (recap_validation_code e)
           | Inr r \<Rightarrow> Inr r))"

section \<open>The provider call\<close>

definition label_json :: "recap_source_label \<Rightarrow> json" where
  "label_json l = JObj [(''revision_ref'', JStr (lb_ref l)), (''channel_ref'', JStr (lb_channel l)),
     (''channel_label'', JStr (lb_label l)), (''published_at'', JStr (lb_published l)),
     (''content_digest_hex'', JStr (lb_digest l))]"

definition content_json :: "recap_source_content \<Rightarrow> json" where
  "content_json c = JObj [(''revision_ref'', JStr (sc_ref c)), (''untrusted_content'', JStr (sc_content c))]"

definition recap_generation_request :: "recap_codecs \<Rightarrow> recap_provider_request \<Rightarrow> generation_request" where
  "recap_generation_request k request =
     \<lparr>prompt_version = pq_prompt request, system_policy = pq_policy request, task_instruction = pq_task request,
      output_schema = pq_schema request,
      source_content = rk_text k (JObj [(''source_labels'', JArr (map label_json (pq_labels request))),
        (''untrusted_sources'', JArr (map content_json (pq_contents request))),
        (''output_language'', JStr (recap_output_language (pq_language request))),
        (''included_source_count'', JNum (int (length (pq_contents request)))),
        (''allow_external_fetch'', JBool (pq_external_fetch request)),
        (''max_output_tokens'', JNum (uint (pq_max_output_tokens request)))])\<rparr>"

definition recap_generate ::
  "recap_env \<Rightarrow> recap_provider_request \<Rightarrow> (world, recap_error, nat \<times> provider_reply) exec" where
  "recap_generate env request = (\<lambda>w.
     case dv_generate (rv_driver env) (recap_generation_request (rv_codecs env) request) w of
       (r, w') \<Rightarrow> (Inr r, w'))"

definition push_recap_repair :: "recap_provider_request \<Rightarrow> recap_provider_request" where
  "push_recap_repair request = request\<lparr>pq_task := pq_task request @
     [newline] @ ''Repair validation code: channel_recap_schema.''\<rparr>"

section \<open>Statements\<close>

definition move_recap :: "uuid \<Rightarrow> recap_state \<Rightarrow> recap_state \<Rightarrow> (world, recap_error, unit) exec" where
  "move_recap run expected next =
     exec_bind (update_recap_run recap_query (in_state run expected) (\<lambda>r. r\<lparr>rn_state := next\<rparr>)) (\<lambda>n.
     exec_guard (n = 1) RecapState)"

text \<open>The check constraints of \<open>channel_recap_attempts\<close>.\<close>

definition all_failure_classes :: "failure_class list" where
  "all_failure_classes = [ClassTimeout, ClassNetwork, ClassRateLimited, ClassServerError, ClassAuthError,
     ClassPaymentRequired, ClassModelUnavailable, ClassRequestInvalid, ClassSizeLimit, ClassBudgetExhausted,
     ClassUnclassified]"

definition recap_attempt_ok :: "recap_attempt_row \<Rightarrow> bool" where
  "recap_attempt_ok a =
     (1 \<le> ra_ordinal a \<and> ra_ordinal a \<le> 2 \<and>
      (case ra_raw_digest a of None \<Rightarrow> True | Some d \<Rightarrow> is_digest_hex d) \<and>
      (ra_raw a = None) = (ra_raw_digest a = None) \<and>
      (case ra_code a of None \<Rightarrow> True | Some c \<Rightarrow> c \<in> {''json_syntax'', ''schema'', ''grounding''}) \<and>
      (case ra_class a of None \<Rightarrow> True | Some c \<Rightarrow> c \<in> set (map failure_class_as_str all_failure_classes)))"

definition update_recap_attempt ::
  "(recap_attempt_row \<Rightarrow> bool) \<Rightarrow> (recap_attempt_row \<Rightarrow> recap_attempt_row) \<Rightarrow> (world, recap_error, nat) exec" where
  "update_recap_attempt p f = sql recap_query (\<lambda>t.
     if list_all (\<lambda>a. p a \<longrightarrow> recap_attempt_ok (f a)) (recap_attempts t)
     then Inr (count_where p (recap_attempts t), t\<lparr>recap_attempts := update_where p f (recap_attempts t)\<rparr>)
     else Inl recap_query)"

definition attempt_is :: "uuid \<Rightarrow> nat \<Rightarrow> attempt_outcome \<Rightarrow> recap_attempt_row \<Rightarrow> bool" where
  "attempt_is run ordinal outcome a = (ra_run a = run \<and> ra_ordinal a = ordinal \<and> ra_outcome a = outcome)"

definition insert_attempt_row :: "recap_attempt_row \<Rightarrow> (world, recap_error, unit) exec" where
  "insert_attempt_row x = sql recap_query (\<lambda>t.
     let t' = t\<lparr>recap_attempts := recap_attempts t @ [x]\<rparr>
     in if exists_where (\<lambda>a. ra_run a = ra_run x \<and> ra_ordinal a = ra_ordinal x) (recap_attempts t) \<or>
           \<not> recap_attempt_ok x \<or> \<not> recap_fk t'
        then Inl recap_query else Inr ((), t'))"

definition requested_attempt :: "recap_env \<Rightarrow> uuid \<Rightarrow> nat \<Rightarrow> attempt_reason \<Rightarrow> recap_attempt_row" where
  "requested_attempt env run ordinal reason =
     \<lparr>ra_run = run, ra_ordinal = ordinal, ra_reason = reason,
      ra_provider = id_provider (dv_identity (rv_driver env)), ra_model = id_model (dv_identity (rv_driver env)),
      ra_request = None, ra_raw = None, ra_raw_digest = None, ra_input = None, ra_output = None,
      ra_outcome = AttemptRequested, ra_code = None, ra_class = None, ra_duration = 0\<rparr>"

definition insert_attempt_body ::
  "recap_env \<Rightarrow> uuid \<Rightarrow> nat \<Rightarrow> attempt_reason \<Rightarrow> (world, recap_error, unit) exec" where
  "insert_attempt_body env run ordinal reason =
     exec_bind (insert_attempt_row (requested_attempt env run ordinal reason)) (\<lambda>_.
     exec_bind (update_recap_run recap_query
       (\<lambda>r. in_state run RecapModelRequested r \<and> rn_attempts r < ordinal) (\<lambda>r. r\<lparr>rn_attempts := ordinal\<rparr>)) (\<lambda>n.
     exec_guard (n = 1) RecapState))"

definition insert_recap_attempt ::
  "recap_env \<Rightarrow> uuid \<Rightarrow> nat \<Rightarrow> attempt_reason \<Rightarrow> (world, recap_error, unit) exec" where
  "insert_recap_attempt env run ordinal reason = transact recap_query (insert_attempt_body env run ordinal reason)"

definition record_attempt_failure ::
  "uuid \<Rightarrow> nat \<Rightarrow> bool \<Rightarrow> failure_class \<Rightarrow> nat \<Rightarrow> (world, recap_error, unit) exec" where
  "record_attempt_failure run ordinal transient failure duration =
     exec_bind (update_recap_attempt (attempt_is run ordinal AttemptRequested)
       (\<lambda>a. a\<lparr>ra_outcome := (if transient then AttemptTransientFailure else AttemptPermanentFailure),
          ra_class := Some (failure_class_as_str failure), ra_duration := duration\<rparr>)) (\<lambda>_. exec_return ())"

definition i64_or_max :: "64 word \<Rightarrow> nat" where
  "i64_or_max n = min (unat n) (2 ^ 63 - 1)"

definition response_row ::
  "blob_ref \<Rightarrow> provider_response \<Rightarrow> nat \<Rightarrow> recap_attempt_row \<Rightarrow> recap_attempt_row" where
  "response_row raw response duration a = a\<lparr>ra_request := resp_request_id response, ra_raw := Some raw,
     ra_raw_digest := Some (br_digest raw), ra_input := Some (i64_or_max (input_tokens (resp_usage response))),
     ra_output := Some (i64_or_max (output_tokens (resp_usage response))),
     ra_outcome := AttemptResponseReceived, ra_duration := duration\<rparr>"

definition raw_response_body ::
  "uuid \<Rightarrow> nat \<Rightarrow> blob_ref \<Rightarrow> provider_response \<Rightarrow> nat \<Rightarrow> (world, recap_error, unit) exec" where
  "raw_response_body run ordinal raw response duration =
     exec_bind (update_recap_attempt (attempt_is run ordinal AttemptRequested) (response_row raw response duration)) (\<lambda>n.
     exec_bind (exec_guard (n = 1) RecapState) (\<lambda>_.
     exec_bind (update_recap_run recap_query (in_state run RecapModelRequested)
       (\<lambda>r. r\<lparr>rn_state := RecapResponseReceived\<rparr>)) (\<lambda>n.
     exec_guard (n = 1) RecapState)))"

definition record_raw_response ::
  "recap_env \<Rightarrow> uuid \<Rightarrow> nat \<Rightarrow> provider_response \<Rightarrow> nat \<Rightarrow> (world, recap_error, unit) exec" where
  "record_raw_response env run ordinal response duration =
     (let store = dv_store (rv_driver env) in
      exec_bind (exec_map_err RecapBlob (store_raw store (resp_bytes response))) (\<lambda>raw.
      transact recap_query
        (exec_bind (exec_map_err RecapPersistence (lock_and_verify store raw (Some (resp_bytes response)))) (\<lambda>_.
         raw_response_body run ordinal raw response duration))))"

section \<open>Settling\<close>

fun from_run_error :: "recap_run_error \<Rightarrow> recap_error" where
  "from_run_error (RunPersistence e) = RecapPersistence e"
| "from_run_error _ = RecapState"

definition command_of_run :: "uuid \<Rightarrow> db \<Rightarrow> recap_inbox_row option" where
  "command_of_run run t = Option.bind (recap_run_at run t) (\<lambda>r.
     find_where (\<lambda>c. ci_command c = rn_command r) (recap_inbox t))"

definition one_row :: "'a option \<Rightarrow> (world, recap_error, 'a) exec" where
  "one_row row = (case row of None \<Rightarrow> exec_fail recap_query | Some x \<Rightarrow> exec_return x)"

definition or_recap_encode :: "'a option \<Rightarrow> (world, recap_error, 'a) exec" where
  "or_recap_encode x = (case x of None \<Rightarrow> exec_fail RecapEncode | Some y \<Rightarrow> exec_return y)"

definition settle_failure ::
  "recap_env \<Rightarrow> uuid \<Rightarrow> recap_state \<Rightarrow> recap_failure_code \<Rightarrow> (world, recap_error, unit) exec" where
  "settle_failure env run expected code =
     exec_bind (query recap_query (command_of_run run)) (\<lambda>found.
     exec_bind (one_row found) (\<lambda>row.
     exec_bind (or_recap_encode (rx_decode_request (rv_contracts env) (ci_payload row))) (\<lambda>request.
     exec_bind get_now (\<lambda>at.
     let fct = failed_fact_of request code at in
     exec_bind (exec_guard (rx_failed_reads (rv_contracts env) fct) RecapEncode) (\<lambda>_.
     exec_map_err from_run_error (settle_failed (rv_contracts env) run expected fct))))))"

definition completed_fact_of :: "recap_request \<Rightarrow> recap_result_row \<Rightarrow> instant \<Rightarrow> completed_fact" where
  "completed_fact_of request o' at =
     \<lparr>cf_owner = kq_owner request, cf_operation = kq_operation request, cf_digest_run = kq_digest_run request,
      cf_manifest_digest = kq_manifest_digest request, cf_analysis_ref = ''analysis:'' @ uuid_text (rs_id o'),
      cf_result = rs_id o', cf_result_ref = ''channel-digest-result:'' @ uuid_text (rs_id o'),
      cf_result_digest = rs_digest o', cf_completed_at = at, cf_coverage = rs_coverage o'\<rparr>"

definition result_of_run :: "uuid \<Rightarrow> db \<Rightarrow> recap_result_row option" where
  "result_of_run run t = find_where (\<lambda>o'. rs_run o' = run) (recap_results t)"

definition completion_row :: "uuid \<Rightarrow> db \<Rightarrow> (recap_inbox_row \<times> recap_result_row) option" where
  "completion_row run t =
     (case recap_in_state run RecapPersisted t of
        None \<Rightarrow> None
      | Some _ \<Rightarrow> (case (command_of_run run t, result_of_run run t) of
          (Some c, Some o') \<Rightarrow> Some (c, o') | _ \<Rightarrow> None))"

definition settle_completion :: "recap_env \<Rightarrow> uuid \<Rightarrow> (world, recap_error, unit) exec" where
  "settle_completion env run =
     exec_bind (query recap_query (completion_row run)) (\<lambda>found.
     exec_bind (one_row found) (\<lambda>(row, o').
     exec_bind (or_recap_encode (rx_decode_request (rv_contracts env) (ci_payload row))) (\<lambda>request.
     exec_bind get_now (\<lambda>at.
     let fct = completed_fact_of request o' at in
     exec_bind (exec_guard (rx_completed_reads (rv_contracts env) fct) RecapEncode) (\<lambda>_.
     exec_map_err from_run_error (settle_completed (rv_contracts env) run RecapPersisted fct))))))"

section \<open>Results\<close>

definition recap_result_ok :: "recap_result_row \<Rightarrow> bool" where
  "recap_result_ok o' = (json_is_object (rs_result o') \<and> json_is_object (rs_coverage o') \<and> is_digest_hex (rs_digest o'))"

definition insert_result :: "recap_result_row \<Rightarrow> (world, recap_error, unit) exec" where
  "insert_result x = sql recap_query (\<lambda>t.
     let t' = t\<lparr>recap_results := recap_results t @ [x]\<rparr>
     in if exists_where (\<lambda>y. rs_id y = rs_id x \<or> rs_run y = rs_run x) (recap_results t) \<or>
           \<not> recap_result_ok x \<or> \<not> recap_fk t'
        then Inl recap_query else Inr ((), t'))"

definition persist_recap_body ::
  "recap_env \<Rightarrow> uuid \<Rightarrow> nat \<Rightarrow> channel_digest_recap \<Rightarrow> (world, recap_error, unit) exec" where
  "persist_recap_body env run ordinal r =
     exec_bind new_uuid (\<lambda>ident.
     exec_bind (insert_result \<lparr>rs_id = ident, rs_run = run, rs_result = encode_recap r,
       rs_digest = rk_sha (rv_codecs env) (rk_bytes (rv_codecs env) (encode_recap r)),
       rs_coverage = encode_coverage (cr_coverage r)\<rparr>) (\<lambda>_.
     exec_bind (update_recap_attempt (attempt_is run ordinal AttemptResponseReceived)
       (\<lambda>a. a\<lparr>ra_outcome := AttemptAccepted\<rparr>)) (\<lambda>_.
     exec_bind (update_recap_run recap_query (in_state run RecapSchemaValidated)
       (\<lambda>r. r\<lparr>rn_state := RecapPersisted\<rparr>)) (\<lambda>n.
     exec_guard (n = 1) RecapState))))"

definition persist_result ::
  "recap_env \<Rightarrow> uuid \<Rightarrow> nat \<Rightarrow> channel_digest_recap \<Rightarrow> (world, recap_error, unit) exec" where
  "persist_result env run ordinal r = transact recap_query (persist_recap_body env run ordinal r)"

definition accept_validated ::
  "recap_env \<Rightarrow> uuid \<Rightarrow> nat \<Rightarrow> channel_digest_recap \<Rightarrow> (world, recap_error, unit) exec" where
  "accept_validated env run ordinal r =
     exec_bind (move_recap run RecapResponseReceived RecapSchemaValidated) (\<lambda>_.
     exec_bind (persist_result env run ordinal r) (\<lambda>_.
     settle_completion env run))"

text \<open>\<open>resume\<close>: the stored result of a run that has one, and whether its fact is committed.\<close>

definition resume ::
  "uuid \<Rightarrow> (world, recap_error, (channel_digest_recap \<times> bool) option) exec" where
  "resume run =
     exec_bind (query recap_query (\<lambda>t. map_option (\<lambda>r. (rn_state r, map_option rs_result (result_of_run run t)))
       (recap_run_at run t))) (\<lambda>stored.
     case stored of
       None \<Rightarrow> exec_fail RecapState
     | Some (state, result) \<Rightarrow>
         if state = RecapPersisted \<or> state = RecapCompleted
         then (case result of
                 None \<Rightarrow> exec_fail RecapState
               | Some j \<Rightarrow> exec_bind (or_recap_encode (decode_recap j)) (\<lambda>r.
                   exec_return (Some (r, state = RecapCompleted))))
         else exec_return None)"

definition resume_result :: "recap_env \<Rightarrow> uuid \<Rightarrow> (world, recap_error, channel_digest_recap option) exec" where
  "resume_result env run =
     exec_bind (resume run) (\<lambda>found.
     case found of
       None \<Rightarrow> exec_return None
     | Some (r, settled) \<Rightarrow>
         exec_bind (if settled then exec_return () else settle_completion env run) (\<lambda>_. exec_return (Some r)))"

section \<open>An invalid response\<close>

definition handle_invalid_attempt ::
  "recap_env \<Rightarrow> uuid \<Rightarrow> nat \<Rightarrow> string \<Rightarrow> (world, recap_error, bool) exec" where
  "handle_invalid_attempt env run ordinal code =
     exec_bind (update_recap_attempt (attempt_is run ordinal AttemptResponseReceived)
       (\<lambda>a. a\<lparr>ra_outcome := AttemptInvalid, ra_code := Some code\<rparr>)) (\<lambda>_.
     if ordinal = 1
     then exec_bind (move_recap run RecapResponseReceived RecapRepaired) (\<lambda>_.
          exec_bind (move_recap run RecapRepaired RecapModelRequested) (\<lambda>_. exec_return True))
     else exec_bind (settle_failure env run RecapResponseReceived CodeInvalidOutput) (\<lambda>_. exec_return False))"

section \<open>Recovery\<close>

datatype recovery =
  RecoveredCompleted channel_digest_recap
| RecoveredCall nat attempt_reason recap_provider_request

definition newest_recap_attempt :: "uuid \<Rightarrow> db \<Rightarrow> recap_attempt_row option" where
  "newest_recap_attempt run t =
     (let as = select_where (\<lambda>a. ra_run a = run) (recap_attempts t)
      in find_where (\<lambda>a. ra_ordinal a = foldr max (map ra_ordinal as) 0) as)"

definition recover_model_requested ::
  "recap_env \<Rightarrow> uuid \<Rightarrow> nat \<Rightarrow> recap_provider_request \<Rightarrow> (world, recap_error, recovery) exec" where
  "recover_model_requested env run attempts request =
     exec_bind (query recap_query (newest_recap_attempt run)) (\<lambda>newest.
     let outcome = map_option ra_outcome newest in
     exec_bind (case newest of
         Some a \<Rightarrow>
           if ra_outcome a = AttemptRequested
           then exec_bind (update_recap_attempt (attempt_is run (ra_ordinal a) AttemptRequested)
                  (\<lambda>a. a\<lparr>ra_outcome := AttemptInterrupted\<rparr>)) (\<lambda>_. exec_return ())
           else exec_return ()
       | None \<Rightarrow> exec_return ()) (\<lambda>_.
     if attempts \<ge> 2 \<or> outcome = Some AttemptPermanentFailure
     then exec_bind (settle_failure env run RecapModelRequested CodeProviderUnavailable) (\<lambda>_.
          exec_fail (RecapProvider (if outcome = Some AttemptPermanentFailure then Permanent else Transient)))
     else
       let repair = (outcome = Some AttemptInvalid) in
       exec_return (RecoveredCall (attempts + 1)
         (if attempts = 0 then ReasonInitial else if repair then ReasonRepair else ReasonRetry)
         (if repair then push_recap_repair request else request))))"

definition recorded_code :: "string option \<Rightarrow> string" where
  "recorded_code code =
     (if code = Some ''json_syntax'' then ''json_syntax''
      else if code = Some ''grounding'' then ''grounding'' else ''schema'')"

definition stored_verdict ::
  "recap_env \<Rightarrow> recap_check \<Rightarrow> recap_attempt_row \<Rightarrow> (world, recap_error, string + channel_digest_recap) exec" where
  "stored_verdict env chk a =
     (if ra_outcome a = AttemptInvalid then exec_return (Inl (recorded_code (ra_code a)))
      else case ra_raw a of
        None \<Rightarrow> exec_fail RecapState
      | Some raw \<Rightarrow>
          exec_bind (exec_map_err RecapBlob (blob_read (dv_store (rv_driver env)) raw)) (\<lambda>content.
          exec_return (validate_response env chk content)))"

definition recover_stored_response ::
  "recap_env \<Rightarrow> recap_check \<Rightarrow> uuid \<Rightarrow> nat \<Rightarrow> recap_state \<Rightarrow> recap_provider_request \<Rightarrow>
   (world, recap_error, recovery) exec" where
  "recover_stored_response env chk run ordinal state request =
     exec_bind (query recap_query (\<lambda>t. find_where (\<lambda>a. ra_run a = run \<and> ra_ordinal a = ordinal \<and>
       ra_outcome a \<in> {AttemptResponseReceived, AttemptInvalid, AttemptAccepted}) (recap_attempts t))) (\<lambda>stored.
     case stored of
       None \<Rightarrow> exec_fail RecapState
     | Some a \<Rightarrow>
         exec_bind (stored_verdict env chk a) (\<lambda>verdict.
         case verdict of
           Inr r \<Rightarrow>
             if state = RecapResponseReceived
             then exec_bind (accept_validated env run ordinal r) (\<lambda>_. exec_return (RecoveredCompleted r))
             else exec_bind (persist_result env run ordinal r) (\<lambda>_.
                  exec_bind (settle_completion env run) (\<lambda>_. exec_return (RecoveredCompleted r)))
         | Inl code \<Rightarrow>
             if state = RecapResponseReceived
             then exec_bind (handle_invalid_attempt env run ordinal code) (\<lambda>again.
                  if again then exec_return (RecoveredCall (ordinal + 1) ReasonRepair (push_recap_repair request))
                  else exec_fail RecapInvalid)
             else exec_bind (settle_failure env run RecapSchemaValidated CodeInvalidOutput) (\<lambda>_.
                  exec_fail RecapInvalid)))"

definition recover ::
  "recap_env \<Rightarrow> recap_check \<Rightarrow> uuid \<Rightarrow> recap_provider_request \<Rightarrow> (world, recap_error, recovery) exec" where
  "recover env chk run request =
     exec_bind (query recap_query (recap_run_at run)) (\<lambda>found.
     case found of
       None \<Rightarrow> exec_fail RecapState
     | Some r \<Rightarrow>
         (case rn_state r of
            RecapContextPrepared \<Rightarrow>
              exec_bind (move_recap run RecapContextPrepared RecapModelRequested) (\<lambda>_.
              exec_return (RecoveredCall 1 ReasonInitial request))
          | RecapRepaired \<Rightarrow>
              exec_bind (move_recap run RecapRepaired RecapModelRequested) (\<lambda>_.
              recover_model_requested env run (rn_attempts r) request)
          | RecapModelRequested \<Rightarrow> recover_model_requested env run (rn_attempts r) request
          | RecapResponseReceived \<Rightarrow>
              recover_stored_response env chk run (rn_attempts r) RecapResponseReceived request
          | RecapSchemaValidated \<Rightarrow>
              recover_stored_response env chk run (rn_attempts r) RecapSchemaValidated request
          | _ \<Rightarrow> exec_fail RecapState))"

section \<open>An execution\<close>

datatype recap_flow =
  RecapDone channel_digest_recap | RecapContinue attempt_reason recap_provider_request

text \<open>One round of the loop \<open>for ordinal in first_ordinal..=2\<close>.\<close>

definition recap_round ::
  "recap_env \<Rightarrow> recap_check \<Rightarrow> uuid \<Rightarrow> nat \<Rightarrow> recap_provider_request \<Rightarrow> attempt_reason \<Rightarrow>
   (world, recap_error, recap_flow) exec" where
  "recap_round env chk run ordinal request reason =
     exec_bind (insert_recap_attempt env run ordinal reason) (\<lambda>_.
     exec_bind (recap_generate env request) (\<lambda>(elapsed, reply).
     let duration = min elapsed (2 ^ 31 - 1) in
     case reply of
       TimedOut \<Rightarrow>
         exec_bind (record_attempt_failure run ordinal True ClassTimeout duration) (\<lambda>_.
         if ordinal = 1 then exec_return (RecapContinue ReasonRetry request)
         else exec_bind (settle_failure env run RecapModelRequested CodeProviderTimeout) (\<lambda>_.
              exec_fail RecapTimeout))
     | FailedCall failure \<Rightarrow>
         exec_bind (record_attempt_failure run ordinal (is_transient failure) (pf_class failure) duration) (\<lambda>_.
         if is_transient failure \<and> ordinal = 1 then exec_return (RecapContinue ReasonRetry request)
         else exec_bind (settle_failure env run RecapModelRequested CodeProviderUnavailable) (\<lambda>_.
              exec_fail (RecapProvider (pf_error failure))))
     | Responded response \<Rightarrow>
         exec_bind (record_raw_response env run ordinal response duration) (\<lambda>_.
         case validate_response env chk (resp_bytes response) of
           Inl code \<Rightarrow>
             exec_bind (handle_invalid_attempt env run ordinal code) (\<lambda>again.
             if again then exec_return (RecapContinue ReasonRepair (push_recap_repair request))
             else exec_fail RecapInvalid)
         | Inr r \<Rightarrow>
             exec_bind (accept_validated env run ordinal r) (\<lambda>_. exec_return (RecapDone r)))))"

fun recap_rounds ::
  "recap_env \<Rightarrow> recap_check \<Rightarrow> uuid \<Rightarrow> nat list \<Rightarrow> recap_provider_request \<Rightarrow> attempt_reason \<Rightarrow>
   (world, recap_error, channel_digest_recap) exec" where
  "recap_rounds env chk run [] request reason = exec_fail RecapInvalid"
| "recap_rounds env chk run (ordinal # ordinals) request reason =
     exec_bind (recap_round env chk run ordinal request reason) (\<lambda>flow.
     case flow of
       RecapDone r \<Rightarrow> exec_return r
     | RecapContinue reason request \<Rightarrow> recap_rounds env chk run ordinals request reason)"

definition execute_recap_locked ::
  "recap_env \<Rightarrow> recap_check \<Rightarrow> uuid \<Rightarrow> recap_provider_request \<Rightarrow> (world, recap_error, channel_digest_recap) exec" where
  "execute_recap_locked env chk run request =
     exec_bind (resume_result env run) (\<lambda>stored.
     case stored of
       Some r \<Rightarrow> exec_return r
     | None \<Rightarrow>
         exec_bind (recover env chk run request) (\<lambda>recovered.
         case recovered of
           RecoveredCompleted r \<Rightarrow> exec_return r
         | RecoveredCall first reason request \<Rightarrow> recap_rounds env chk run [first..<3] request reason))"

definition execute_recap ::
  "recap_env \<Rightarrow> recap_check \<Rightarrow> uuid \<Rightarrow> recap_provider_request \<Rightarrow> (world, recap_error, channel_digest_recap) exec" where
  "execute_recap env chk run request = (\<lambda>w.
     case exec_map_err RecapPersistence (run_lock_acquire run) w of
       (Inl e, w') \<Rightarrow> (Inl e, w')
     | (Inr acquired, w') \<Rightarrow>
         if \<not> acquired then (Inl RecapState, w')
         else (case execute_recap_locked env chk run request w' of
                 (outcome, w'') \<Rightarrow> (outcome, run_lock_release run w'')))"

end
