(* ===== verification/Recap_Worker.thy ===== *)
theory Recap_Worker
  imports Recap_Pipeline Event_Outbox Redelivery
begin

text \<open>
  The recap worker: one bounded manifest attempt (\<open>attempt_digest_manifest\<close> in
  \<open>channel_digest_recap.rs\<close>), and what the service does with one delivery of a command
  (\<open>services:channel_recap.rs\<close>): admit it, fetch and verify its manifest, prepare the context, execute
  the run, publish the outbox and answer the broker. Bus and HTTP connections are parameters.
\<close>

section \<open>One manifest attempt\<close>

datatype manifest_outcome = ManifestAccepted | ManifestRetryScheduled | ManifestFailed

record recap_worker =
  wk_contracts :: recap_contracts
  wk_codecs :: recap_codecs
  wk_source :: digest_source
  wk_manifest_sha :: "bytes \<Rightarrow> string"
  wk_parse_manifest :: "bytes \<Rightarrow> contract_error + manifest"
  wk_parse_command :: "bytes \<Rightarrow> command option"
  wk_texts :: recap_texts
  wk_context_characters :: nat
  wk_max_output_tokens :: "32 word"
  wk_subject :: string
  wk_env :: "prepared_recap \<Rightarrow> recap_env"

definition attempt_digest_manifest ::
  "recap_worker \<Rightarrow> uuid \<Rightarrow> recap_request \<Rightarrow> (world, recap_run_error, manifest_outcome) exec" where
  "attempt_digest_manifest wk run request =
     exec_bind (manifest_status run) (\<lambda>status.
     if mx_state status = RecapFailed then exec_return ManifestFailed
     else if mx_state status \<notin> {RecapReceived, RecapManifestRetry} then exec_return ManifestAccepted
     else if \<not> mx_ready status then exec_return ManifestRetryScheduled
     else
       let fail = (\<lambda>code.
         exec_bind (settle_manifest_failure (wk_contracts wk) run (mx_state status) request code) (\<lambda>_.
         exec_return ManifestFailed)) in
       case fetch_manifest (wk_source wk) (authority_of request) of
         Inr content \<Rightarrow>
           (case verify_digest_manifest (wk_manifest_sha wk) (wk_parse_manifest wk) request content of
              Inr verified \<Rightarrow>
                exec_bind (accept_verified_manifest (wk_contracts wk) run (mx_state status) verified) (\<lambda>_.
                exec_return ManifestAccepted)
            | Inl _ \<Rightarrow> fail CodeManifestIntegrity)
       | Inl e \<Rightarrow>
           if (e = SourceUnavailable \<or> e = SourceTimeout) \<and> mx_attempts status < 1
           then exec_bind (schedule_manifest_retry run (mx_state status) (mx_attempts status)
                  (ds_retry_delay_ms (wk_source wk))) (\<lambda>_. exec_return ManifestRetryScheduled)
           else if e = SourceResponseTooLarge then fail CodeManifestIntegrity
           else fail CodeManifestUnavailable)"

section \<open>A delivery\<close>

datatype disposition = DispositionAck | DispositionTerm | DispositionNak

definition recap_producer :: string where
  "recap_producer = ''ratatoskr-channel-digests''"

definition expected_type :: "string \<Rightarrow> string" where
  "expected_type subject = (if take 4 subject = ''cmd.'' then drop 4 subject else [])"

text \<open>An early \<open>return\<close> of a disposition, and a result that is only looked at.\<close>

definition or_dispose :: "disposition \<Rightarrow> (world, 'e, 'a) exec \<Rightarrow> (world, disposition, 'a) exec" where
  "or_dispose d m = exec_map_err (\<lambda>_. d) m"

definition attempted :: "(world, 'e, 'a) exec \<Rightarrow> (world, 'f, 'a option) exec" where
  "attempted m = (\<lambda>w. case m w of (Inl _, w') \<Rightarrow> (Inr None, w') | (Inr x, w') \<Rightarrow> (Inr (Some x), w'))"

datatype worker_error = WorkerBus | WorkerWork

definition run_of_request :: "recap_request \<Rightarrow> recap_run_row \<Rightarrow> bool" where
  "run_of_request request r =
     (rn_owner r = kq_owner request \<and> rn_digest_run r = kq_digest_run request \<and>
      rn_manifest_digest r = kq_manifest_digest request \<and>
      rn_language r = recap_output_language (kq_language request))"

definition load_run :: "recap_request \<Rightarrow> (world, worker_error, uuid \<times> recap_state) exec" where
  "load_run request =
     exec_bind (query WorkerWork (\<lambda>t. find_where (run_of_request request) (recap_runs t))) (\<lambda>row.
     case row of None \<Rightarrow> exec_fail WorkerWork | Some r \<Rightarrow> exec_return (rn_id r, rn_state r))"

definition load_manifest :: "recap_contracts \<Rightarrow> uuid \<Rightarrow> (world, worker_error, verified_manifest) exec" where
  "load_manifest rx run =
     exec_bind (query WorkerWork (\<lambda>t. find_where (\<lambda>m. rm_run m = run) (recap_manifests t))) (\<lambda>row.
     case row of None \<Rightarrow> exec_fail WorkerWork
     | Some m \<Rightarrow> (case rx_decode_manifest rx (rm_manifest m) of
         None \<Rightarrow> exec_fail WorkerWork
       | Some decoded \<Rightarrow> exec_return \<lparr>vm_digest = rm_digest m, vm_manifest = decoded\<rparr>))"

definition settle_context_failure ::
  "recap_contracts \<Rightarrow> uuid \<Rightarrow> recap_request \<Rightarrow> (world, disposition, disposition) exec" where
  "settle_context_failure rx run request =
     exec_bind get_now (\<lambda>at.
     let fct = failed_fact_of request CodeContextBudget at in
     exec_bind (exec_guard (rx_failed_reads rx fct) DispositionNak) (\<lambda>_.
     exec_bind (or_dispose DispositionNak (settle_failed rx run RecapContextPrepared fct)) (\<lambda>_.
     exec_return DispositionAck)))"

definition worker_policy :: "recap_worker \<Rightarrow> recap_policy" where
  "worker_policy wk =
     \<lparr>rp_max_sources = 100, rp_max_channels = 20, rp_max_characters = wk_context_characters wk\<rparr>"

definition run_prepared ::
  "recap_worker \<Rightarrow> uuid \<Rightarrow> recap_request \<Rightarrow> verified_manifest \<Rightarrow> (world, disposition, disposition) exec" where
  "run_prepared wk run request verified =
     (case prepare_channel_recap_context (wk_codecs wk) verified (worker_policy wk) of
        Inl ContextBudget \<Rightarrow> settle_context_failure (wk_contracts wk) run request
      | Inl _ \<Rightarrow> exec_return DispositionNak
      | Inr c \<Rightarrow>
          (case build_channel_recap_provider_request (wk_texts wk) c (kq_language request) (wk_max_output_tokens wk) of
             Inl _ \<Rightarrow> exec_return DispositionNak
           | Inr provider_request \<Rightarrow>
               exec_bind (or_dispose DispositionNak (execute_recap (wk_env wk c)
                 \<lparr>ck_context = c, ck_digest = vm_digest verified, ck_language = kq_language request\<rparr>
                 run provider_request)) (\<lambda>_.
               exec_return DispositionAck)))"

text \<open>What follows an accepted manifest.\<close>

definition run_accepted ::
  "recap_worker \<Rightarrow> uuid \<Rightarrow> recap_request \<Rightarrow> (world, disposition, disposition) exec" where
  "run_accepted wk run request =
     exec_bind (or_dispose DispositionNak (load_manifest (wk_contracts wk) run)) (\<lambda>verified.
     exec_bind (attempted (load_run request)) (\<lambda>again.
     exec_bind (if map_option snd again = Some RecapManifestVerified
       then or_dispose DispositionNak (recap_transition run RecapManifestVerified RecapContextPrepared)
       else exec_return ()) (\<lambda>_.
     run_prepared wk run request verified)))"

definition process_request ::
  "recap_worker \<Rightarrow> command \<Rightarrow> recap_request \<Rightarrow> (world, disposition, disposition) exec" where
  "process_request wk cmd request =
     exec_bind (or_dispose DispositionNak (accept_recap_command (wk_contracts wk) cmd)) (\<lambda>_.
     exec_bind (or_dispose DispositionNak (load_run request)) (\<lambda>(run, state).
     if state \<in> {RecapCompleted, RecapFailed} then exec_return DispositionAck
     else exec_bind (or_dispose DispositionNak (attempt_digest_manifest wk run request)) (\<lambda>outcome.
       case outcome of
         ManifestRetryScheduled \<Rightarrow> exec_return DispositionNak
       | ManifestFailed \<Rightarrow> exec_return DispositionAck
       | ManifestAccepted \<Rightarrow> run_accepted wk run request)))"

definition process_message :: "recap_worker \<Rightarrow> bytes \<Rightarrow> world \<Rightarrow> disposition \<times> world" where
  "process_message wk content w =
     (case wk_parse_command wk content of
        None \<Rightarrow> (DispositionTerm, w)
      | Some cmd \<Rightarrow>
          if ce_type cmd \<noteq> expected_type (wk_subject wk) \<or> ce_producer cmd \<noteq> recap_producer
          then (DispositionTerm, w)
          else case rx_payload (wk_contracts wk) cmd of
            Inl _ \<Rightarrow> (DispositionTerm, w)
          | Inr request \<Rightarrow>
              (case process_request wk cmd request w of
                 (Inl d, w') \<Rightarrow> (d, w')
               | (Inr d, w') \<Rightarrow> (d, w')))"

section \<open>Publishing the recap outbox\<close>

record recap_fact_row =
  rf_id :: uuid
  rf_subject :: string
  rf_payload :: json
  rf_digest_run :: uuid
  rf_owner :: string
  rf_operation :: uuid
  rf_command :: uuid
  rf_created :: instant

definition joined_fact :: "db \<Rightarrow> recap_outbox_row \<Rightarrow> recap_fact_row option" where
  "joined_fact t x =
     (case recap_run_at (ro_run x) t of None \<Rightarrow> None
      | Some r \<Rightarrow> (case command_of_run (ro_run x) t of None \<Rightarrow> None
        | Some c \<Rightarrow> Some \<lparr>rf_id = ro_id x, rf_subject = ro_subject x, rf_payload = ro_payload x,
            rf_digest_run = rn_digest_run r, rf_owner = rn_owner r, rf_operation = ci_operation c,
            rf_command = ci_command c, rf_created = ro_created x\<rparr>))"

definition unpublished_recap_facts :: "db \<Rightarrow> recap_fact_row list" where
  "unpublished_recap_facts t = take 32 (sort_key rf_created
     (List.map_filter (joined_fact t) (select_where (\<lambda>x. ro_published x = None) (recap_outbox t))))"

definition fact_message :: "recap_codecs \<Rightarrow> instant \<Rightarrow> recap_fact_row \<Rightarrow> message" where
  "fact_message k at row =
     \<lparr>ms_subject = ''evt.'' @ rf_subject row, ms_id = uuid_text (rf_id row),
      ms_body = rk_bytes k (JObj
        [(''event_id'', JStr (uuid_text (rf_id row))), (''event_type'', JStr (rf_subject row)),
         (''occurred_at'', JStr (rk_wire k at)), (''producer'', JStr ''ratatoskr-knowledge''),
         (''aggregate_id'', JStr (''channel-digest-run:'' @ uuid_text (rf_digest_run row))),
         (''correlation_id'', JStr (''operation:'' @ uuid_text (rf_operation row))),
         (''causation_id'', JStr (''command:'' @ uuid_text (rf_command row))),
         (''tenant_id'', JStr (rf_owner row)), (''schema_version'', JNum 1), (''payload'', rf_payload row)])\<rparr>"

definition mark_recap_published :: "uuid \<Rightarrow> (world, worker_error, unit) exec" where
  "mark_recap_published ident =
     exec_bind get_now (\<lambda>at.
     execute WorkerWork (\<lambda>t. t\<lparr>recap_outbox :=
       update_where (\<lambda>x. ro_id x = ident \<and> ro_published x = None) (\<lambda>x. x\<lparr>ro_published := Some at\<rparr>)
         (recap_outbox t)\<rparr>))"

fun publish_recap_rows ::
  "recap_codecs \<Rightarrow> recap_fact_row list \<Rightarrow> (world \<times> message list, worker_error, unit) exec" where
  "publish_recap_rows k [] = exec_return ()"
| "publish_recap_rows k (row # rows) =
     exec_bind (on_world (\<lambda>e. e) get_now) (\<lambda>at.
     exec_bind (exec_map_err (\<lambda>_. WorkerBus) (send (fact_message k at row))) (\<lambda>_.
     exec_bind (on_world (\<lambda>e. e) (mark_recap_published (rf_id row))) (\<lambda>_.
     publish_recap_rows k rows)))"

definition publish_recap_outbox :: "recap_codecs \<Rightarrow> (world \<times> message list, worker_error, unit) exec" where
  "publish_recap_outbox k =
     exec_bind (on_world (\<lambda>e. e) (query WorkerWork unpublished_recap_facts)) (\<lambda>rows.
     publish_recap_rows k rows)"

section \<open>The answer to the broker\<close>

datatype recap_ack = AckDelivery | TermDelivery | NakDelivery nat

definition handle_recap_delivery ::
  "recap_worker \<Rightarrow> int \<Rightarrow> bytes \<Rightarrow> (world \<times> message list, worker_error, recap_ack) exec" where
  "handle_recap_delivery wk delivered content =
     exec_bind (\<lambda>(w, stream). case process_message wk content w of (d, w') \<Rightarrow> (Inr d, (w', stream))) (\<lambda>d.
     exec_bind (publish_recap_outbox (wk_codecs wk)) (\<lambda>_.
     exec_return (case d of DispositionAck \<Rightarrow> AckDelivery | DispositionTerm \<Rightarrow> TermDelivery
       | DispositionNak \<Rightarrow> NakDelivery (redelivery_delay redelivery_standard delivered))))"

end
