(* ===== verification/Recap_Context_Correct.thy ===== *)
theory Recap_Context_Correct
  imports Recap_Context "HOL-Library.Multiset"
begin

text \<open>
  The loops that select the sources of a recap compute what can be said without a loop: the newest
  sources of the channels seen first, cut to the longest prefix that fits the budget, and every
  other source is named as an omission.
\<close>

section \<open>The reference selection\<close>

text \<open>\<open>firsts\<close>: the elements of a list in order of their first occurrence.\<close>

fun firsts :: "'a list \<Rightarrow> 'a list" where
  "firsts [] = []"
| "firsts (x # xs) = x # filter (\<lambda>y. y \<noteq> x) (firsts xs)"

definition admissible_sources :: "recap_policy \<Rightarrow> manifest \<Rightarrow> manifest_source list" where
  "admissible_sources policy m =
     (let channels = take (rp_max_channels policy) (firsts (map mo_channel_ref (ordered_sources m)))
      in take (rp_max_sources policy) (filter (\<lambda>s. mo_channel_ref s \<in> set channels) (ordered_sources m)))"

lemma set_firsts [simp]: "set (firsts xs) = set xs"
  by (induction xs) auto

lemma distinct_firsts [simp]: "distinct (firsts xs)"
  by (induction xs) auto

lemma select_sources_selected:
  assumes "length channels \<le> rp_max_channels policy"
  shows "fst (select_sources policy xs channels selected omissions) =
    selected @ take (rp_max_sources policy - length selected)
      (filter (\<lambda>s. mo_channel_ref s \<in> set channels \<union>
         set (take (rp_max_channels policy - length channels)
           (filter (\<lambda>c. c \<notin> set channels) (firsts (map mo_channel_ref xs))))) xs)"
  using assms
proof (induction policy xs channels selected omissions rule: select_sources.induct)
  case (1 policy channels selected omissions)
  show ?case by simp
next
  case (2 policy s sources channels selected omissions)
  let ?c = "mo_channel_ref s"
  consider (full) "length selected \<ge> rp_max_sources policy"
    | (foreign) "length selected < rp_max_sources policy" "?c \<notin> set channels"
        "length channels \<ge> rp_max_channels policy"
    | (known) "length selected < rp_max_sources policy" "?c \<in> set channels"
    | (new) "length selected < rp_max_sources policy" "?c \<notin> set channels"
        "length channels < rp_max_channels policy"
    by linarith
  then show ?case
  proof cases
    case full
    then show ?thesis using 2 by simp
  next
    case foreign
    then show ?thesis using 2 by simp
  next
    case known
    have drop: "filter (\<lambda>y. y \<noteq> ?c \<and> y \<notin> set channels) ys = filter (\<lambda>c. c \<notin> set channels) ys" for ys
      using known(2) by (intro filter_cong) auto
    show ?thesis using known 2 by (simp add: drop List.insert_def Suc_diff_Suc [symmetric])
  next
    case new
    have drop: "filter (\<lambda>c. c \<notin> set channels) (filter (\<lambda>y. y \<noteq> ?c) ys) =
      filter (\<lambda>c. c \<noteq> ?c \<and> c \<notin> set channels) ys" for ys
      by (induction ys) auto
    have "rp_max_channels policy - length channels = Suc (rp_max_channels policy - Suc (length channels))"
      "rp_max_sources policy - length selected = Suc (rp_max_sources policy - Suc (length selected))"
      using new by auto
    then show ?thesis using new 2 by (simp add: drop List.insert_def)
  qed
qed

lemma select_sources_admissible:
  "fst (select_sources policy (ordered_sources m) [] [] []) = admissible_sources policy m"
  using select_sources_selected [of "[]" policy "ordered_sources m" "[]" "[]"]
  by (simp add: admissible_sources_def Let_def)

lemma select_sources_partition:
  "select_sources policy xs channels selected omissions = (selected', omissions') \<Longrightarrow>
     mset (map mo_revision_ref selected') + mset (map om_ref omissions') =
     mset (map mo_revision_ref selected) + mset (map om_ref omissions) + mset (map mo_revision_ref xs)"
  by (induction policy xs channels selected omissions rule: select_sources.induct)
    (auto simp: omission_def split: if_splits)

section \<open>The budget\<close>

lemma source_character_count_snoc:
  "source_character_count k (xs @ [s]) =
     min (source_character_count k xs + length (rk_text k (source_json s))) usize_max"
  by (simp add: source_character_count_def)

lemma source_character_count_Nil [simp]: "source_character_count k [] = 0"
  by (simp add: source_character_count_def)

lemma fit_budget_exact:
  "\<exists>n \<le> length selected. \<exists>omissions'.
     fit_budget k budget selected omissions = Inr (take n selected, omissions') \<and>
     source_character_count k (take n selected) \<le> budget \<and>
     (n < length selected \<longrightarrow> budget < source_character_count k (take (Suc n) selected)) \<and>
     mset (map om_ref omissions') = mset (map om_ref omissions) + mset (map ps_ref (drop n selected))"
proof (induction k budget selected omissions rule: fit_budget.induct)
  case (1 k budget selected omissions)
  show ?case
  proof (cases "source_character_count k selected \<le> budget")
    case True
    then have "fit_budget k budget selected omissions = Inr (selected, omissions)"
      by (subst fit_budget.simps) simp
    then show ?thesis using True by (intro exI [of _ "length selected"]) simp
  next
    case False
    then obtain rest s where sel: "selected = rest @ [s]" by (cases selected rule: rev_cases) auto
    let ?om = "omissions @ [omission (ps_ref s) OverBudget]"
    have run: "fit_budget k budget selected omissions = fit_budget k budget rest ?om"
      using False sel by (subst fit_budget.simps) simp
    have IH: "\<exists>n \<le> length rest. \<exists>omissions'.
       fit_budget k budget rest ?om = Inr (take n rest, omissions') \<and>
       source_character_count k (take n rest) \<le> budget \<and>
       (n < length rest \<longrightarrow> budget < source_character_count k (take (Suc n) rest)) \<and>
       mset (map om_ref omissions') = mset (map om_ref ?om) + mset (map ps_ref (drop n rest))"
      using "1.IH" [OF False] sel by simp
    then obtain n omissions' where n: "n \<le> length rest"
      and fit: "fit_budget k budget rest ?om = Inr (take n rest, omissions')"
      and le: "source_character_count k (take n rest) \<le> budget"
      and gt: "n < length rest \<longrightarrow> budget < source_character_count k (take (Suc n) rest)"
      and ms: "mset (map om_ref omissions') = mset (map om_ref ?om) + mset (map ps_ref (drop n rest))"
      by blast
    have "budget < source_character_count k (take (Suc n) selected)"
      using gt n False sel by (cases "n < length rest") auto
    then show ?thesis
      using run fit le ms n sel by (intro exI [of _ n]) (auto simp: omission_def)
  qed
qed

section \<open>The context\<close>

lemma mset_ordered_sources: "mset (map mo_revision_ref (ordered_sources m)) = mset (map mo_revision_ref (mf_sources m))"
  unfolding ordered_sources_def by simp


end
