(* ===== verification/Recap_Result_Correct.thy ===== *)
theory Recap_Result_Correct
  imports Recap_Result Recap_Context_Correct
begin

text \<open>
  What an accepted recap is: the composition of the model's text with the facts of the run, typed as
  the schemas say, grounded in the prepared context.
\<close>

section \<open>The type of a recap\<close>

definition topic_typed :: "recap_topic \<Rightarrow> bool" where
  "topic_typed t =
     (length (tp_label t) \<in> {1..80} \<and> length (tp_summary t) \<in> {1..400} \<and> length (tp_citations t) \<in> {1..10})"

definition item_typed :: "recap_item \<Rightarrow> bool" where
  "item_typed n =
     (length (ni_title n) \<in> {1..160} \<and> length (ni_summary n) \<in> {1..320} \<and> length (ni_citations n) \<in> {1..10})"

definition texts_typed :: "string \<Rightarrow> string \<Rightarrow> recap_topic list \<Rightarrow> recap_item list \<Rightarrow> bool" where
  "texts_typed h v ts ns =
     (length h \<in> {1..160} \<and> length v \<in> {1..1600} \<and> length ts \<in> {1..5} \<and> length ns \<le> 5 \<and>
      list_all topic_typed ts \<and> list_all item_typed ns)"

definition coverage_typed :: "recap_coverage \<Rightarrow> bool" where
  "coverage_typed g =
     (unat (cg_selected g) \<in> {1..100} \<and> unat (cg_included g) \<in> {1..100} \<and> unat (cg_omitted g) \<le> 99 \<and>
      unat (cg_channels g) \<in> {1..20})"

definition recap_typed :: "channel_digest_recap \<Rightarrow> bool" where
  "recap_typed r =
     (texts_typed (cr_headline r) (cr_overview r) (cr_topics r) (cr_items r) \<and> coverage_typed (cr_coverage r) \<and>
      length (cr_warnings r) \<le> 10 \<and> is_digest_hex (cr_manifest_digest r))"

text \<open>Grounded: every citation is an included revision, named once, and the text has no link.\<close>

definition recap_grounded :: "channel_digest_recap \<Rightarrow> prepared_recap \<Rightarrow> bool" where
  "recap_grounded r c =
     (list_all (\<lambda>cs. distinct cs \<and> set cs \<subseteq> set (map ps_ref (px_sources c)))
        (map tp_citations (cr_topics r) @ map ni_citations (cr_items r)) \<and>
      distinct (cr_warnings r) \<and> \<not> list_ex contains_forbidden_link (recap_texts_of r))"

section \<open>Decoding inverts encoding\<close>

lemma decode_all_map: "(\<And>x. x \<in> set xs \<Longrightarrow> f (g x) = Some (h x)) \<Longrightarrow> decode_all f (map g xs) = Some (map h xs)"
  by (induction xs) auto

lemma decode_encode_topic: "decode_topic (encode_topic t) = Some t"
  using decode_all_map [of "tp_citations t" json_str JStr "\<lambda>x. x"]
  by (simp add: decode_topic_def encode_topic_def decode_strings_def)

lemma decode_encode_item: "decode_item (encode_item n) = Some n"
  using decode_all_map [of "ni_citations n" json_str JStr "\<lambda>x. x"]
  by (simp add: decode_item_def encode_item_def decode_strings_def)

lemma decode_encode_warning: "decode_warning (JStr (recap_warning_as_str x)) = Some x"
  by (cases x) (simp_all add: decode_warning_def recap_warnings_def)

lemma decode_encode_u16: "decode_u16 (JNum (uint n)) = Some n"
  using uint_bounded [of n] by (simp add: decode_u16_def)

lemma decode_encode_coverage: "decode_coverage (encode_coverage g) = Some g"
  by (simp add: decode_coverage_def encode_coverage_def decode_encode_u16)

lemma decode_encode_language: "decode_language (JStr (recap_output_language l)) = Some l"
  by (cases l) (simp_all add: decode_language_def)

lemma decode_encode_recap: "decode_recap (encode_recap r) = Some r"
proof -
  have "decode_all decode_topic (map encode_topic (cr_topics r)) = Some (cr_topics r)"
    "decode_all decode_item (map encode_item (cr_items r)) = Some (cr_items r)"
    "decode_all decode_warning (map (JStr \<circ> recap_warning_as_str) (cr_warnings r)) = Some (cr_warnings r)"
    using decode_all_map [of "cr_topics r" decode_topic encode_topic "\<lambda>x. x"]
      decode_all_map [of "cr_items r" decode_item encode_item "\<lambda>x. x"]
      decode_all_map [of "cr_warnings r" decode_warning "JStr \<circ> recap_warning_as_str" "\<lambda>x. x"]
    by (simp_all add: decode_encode_topic decode_encode_item decode_encode_warning)
  then show ?thesis
    by (simp add: decode_recap_def encode_recap_def decode_encode_language decode_digest_def decode_model_output_def
        decode_list_def decode_encode_coverage)
qed

section \<open>The schemas\<close>

lemma schema_topic: "topic_schema (encode_topic t) = topic_typed t"
  by (simp add: topic_schema_def encode_topic_def exact_object_def topic_typed_def list_all_iff)

lemma schema_item: "item_schema (encode_item n) = item_typed n"
  by (simp add: item_schema_def encode_item_def exact_object_def item_typed_def list_all_iff)

lemma schema_warning: "warning_schema (JStr (recap_warning_as_str x))"
  by (cases x) (simp_all add: warning_schema_def string_among_def recap_warnings_def)

lemma schema_coverage: "coverage_schema (encode_coverage g) = coverage_typed g"
proof -
  have "(1 \<le> uint x) = (1 \<le> unat x)" "(uint x \<le> 100) = (unat x \<le> 100)" "(uint x \<le> 99) = (unat x \<le> 99)"
    "(uint x \<le> 20) = (unat x \<le> 20)" for x :: "16 word"
    unfolding unat_eq_nat_uint by arith+
  then show ?thesis
    by (simp add: coverage_typed_def coverage_schema_def encode_coverage_def exact_object_def integer_between_def)
qed

lemma schema_recap: "recap_schema (encode_recap r) = recap_typed r"
proof -
  have "list_all topic_schema (map encode_topic ts) = list_all topic_typed ts" for ts
    by (simp add: list_all_iff schema_topic)
  moreover have "list_all item_schema (map encode_item ns) = list_all item_typed ns" for ns
    by (simp add: list_all_iff schema_item)
  moreover have "list_all warning_schema (map (JStr \<circ> recap_warning_as_str) ws)" for ws
    by (simp add: list_all_iff schema_warning)
  moreover have "string_among [''ru'', ''en''] (JStr (recap_output_language l))" for l
    by (cases l) (simp_all add: string_among_def)
  ultimately show ?thesis
    by (auto simp: recap_schema_def encode_recap_def exact_object_def recap_typed_def texts_typed_def
        schema_coverage digest_schema_def string_among_def)
qed

lemma decode_all_length: "decode_all f xs = Some ys \<Longrightarrow> length ys = length xs"
  by (induction f xs arbitrary: ys rule: decode_all.induct) (auto split: option.splits)

lemma decode_all_list_all:
  assumes "decode_all f xs = Some ys" and "list_all P xs" and "\<And>x y. P x \<Longrightarrow> f x = Some y \<Longrightarrow> Q y"
  shows "list_all Q ys"
  using assms by (induction f xs arbitrary: ys rule: decode_all.induct) (auto split: option.splits)

lemma exact_object_lookup:
  "exact_object spec j \<Longrightarrow> (key, ok) \<in> set spec \<Longrightarrow> \<exists>v. json_get j key = Some v \<and> ok v"
  by (cases j) (auto simp: exact_object_def list_all_iff split: option.splits)

lemma string_betweenD: "string_between lo hi v \<Longrightarrow> json_str v = Some s \<Longrightarrow> lo \<le> length s \<and> length s \<le> hi"
  by (cases v) auto

lemma array_betweenD:
  assumes "array_between lo hi item v" and "Option.bind (json_array v) (decode_all f) = Some ys"
  shows "lo \<le> length ys \<and> length ys \<le> hi \<and> (\<exists>xs. list_all item xs \<and> decode_all f xs = Some ys)"
  using assms by (cases v) (auto dest: decode_all_length)

lemma topic_schema_typed: "topic_schema j \<Longrightarrow> decode_topic j = Some t \<Longrightarrow> topic_typed t"
  unfolding topic_schema_def
  by (frule exact_object_lookup [where key = "''label''"], simp, frule exact_object_lookup [where key = "''summary''"], simp,
      frule exact_object_lookup [where key = "''citations''"], simp)
    (auto simp: decode_topic_def decode_strings_def topic_typed_def split: option.splits
      dest!: string_betweenD array_betweenD)

lemma item_schema_typed: "item_schema j \<Longrightarrow> decode_item j = Some n \<Longrightarrow> item_typed n"
  unfolding item_schema_def
  by (frule exact_object_lookup [where key = "''title''"], simp, frule exact_object_lookup [where key = "''summary''"], simp,
      frule exact_object_lookup [where key = "''citations''"], simp)
    (auto simp: decode_item_def decode_strings_def item_typed_def split: option.splits
      dest!: string_betweenD array_betweenD)

lemma model_output_typed:
  assumes "model_output_schema j" and "decode_model_output j = Some m"
  shows "texts_typed (mu_headline m) (mu_overview m) (mu_topics m) (mu_items m)" and "length (mu_warnings m) \<le> 10"
proof -
  note get = exact_object_lookup [OF assms(1) [unfolded model_output_schema_def]]
  obtain jh jv jt jn jw where j: "json_get j ''headline'' = Some jh" "string_between 1 160 jh"
      "json_get j ''overview'' = Some jv" "string_between 1 1600 jv"
      "json_get j ''topics'' = Some jt" "array_between 1 5 topic_schema jt"
      "json_get j ''notable_items'' = Some jn" "array_between 0 5 item_schema jn"
      "json_get j ''warnings'' = Some jw" "array_between 0 10 warning_schema jw"
    using get [of "''headline''"] get [of "''overview''"] get [of "''topics''"] get [of "''notable_items''"]
      get [of "''warnings''"] by auto
  have m: "json_str jh = Some (mu_headline m)" "json_str jv = Some (mu_overview m)"
      "decode_list decode_topic jt = Some (mu_topics m)" "decode_list decode_item jn = Some (mu_items m)"
      "decode_list decode_warning jw = Some (mu_warnings m)"
    using assms(2) j by (auto simp: decode_model_output_def split: option.splits)
  obtain xs ys where xs: "list_all topic_schema xs" "decode_all decode_topic xs = Some (mu_topics m)"
    and ys: "list_all item_schema ys" "decode_all decode_item ys = Some (mu_items m)"
    using array_betweenD [OF j(6) m(3) [unfolded decode_list_def]] array_betweenD [OF j(8) m(4) [unfolded decode_list_def]]
    by blast
  have "list_all topic_typed (mu_topics m)" "list_all item_typed (mu_items m)"
    using decode_all_list_all [OF xs(2,1) topic_schema_typed] decode_all_list_all [OF ys(2,1) item_schema_typed] by auto
  then show "texts_typed (mu_headline m) (mu_overview m) (mu_topics m) (mu_items m)"
    using string_betweenD [OF j(2) m(1)] string_betweenD [OF j(4) m(2)] array_betweenD [OF j(6) m(3) [unfolded decode_list_def]]
      array_betweenD [OF j(8) m(4) [unfolded decode_list_def]] by (auto simp: texts_typed_def)
  show "length (mu_warnings m) \<le> 10"
    using array_betweenD [OF j(10) m(5) [unfolded decode_list_def]] by simp
qed

section \<open>Validation\<close>

lemma validate_citations_iff:
  "validate_citations included seen cs = Inr () \<longleftrightarrow>
     distinct cs \<and> set cs \<inter> set seen = {} \<and> set cs \<subseteq> set included"
  by (induction included seen cs rule: validate_citations.induct) auto

lemma validate_all_citations_iff:
  "validate_all_citations included css = Inr () \<longleftrightarrow>
     list_all (\<lambda>cs. distinct cs \<and> set cs \<subseteq> set included) css"
proof (induction included css rule: validate_all_citations.induct)
  case (2 included citations rest)
  then show ?case
    using validate_citations_iff [of included "[]" citations]
    by (cases "validate_citations included [] citations") auto
qed simp

definition composed_recap ::
  "recap_model_output \<Rightarrow> prepared_recap \<Rightarrow> string \<Rightarrow> output_language \<Rightarrow> channel_digest_recap" where
  "composed_recap m c manifest_digest language =
     \<lparr>cr_language = language, cr_digest_is_sha256 = True, cr_manifest_digest = manifest_digest,
      cr_headline = mu_headline m, cr_overview = mu_overview m, cr_topics = mu_topics m, cr_items = mu_items m,
      cr_coverage = \<lparr>cg_selected = of_nat (px_selected_count c), cg_included = of_nat (px_included_count c),
        cg_omitted = of_nat (px_omitted_count c), cg_channels = of_nat (px_channel_count c)\<rparr>,
      cr_warnings = composed_warnings m c\<rparr>"

definition counts_representable :: "prepared_recap \<Rightarrow> bool" where
  "counts_representable c =
     list_all (\<lambda>n. n < 2 ^ 16) [px_selected_count c, px_included_count c, px_omitted_count c, px_channel_count c]"

lemma compose_Inr:
  "compose_channel_digest_recap m c d l = Inr j \<longleftrightarrow>
     is_digest_hex d \<and> counts_representable c \<and> j = encode_recap (composed_recap m c d l)"
  by (auto simp: compose_channel_digest_recap_def to_u16_def composed_recap_def counts_representable_def)

lemma distinct_remdups_length: "length (remdups xs) = length xs \<longleftrightarrow> distinct xs"
  by (simp add: length_remdups_eq)

lemma validate_encoded_iff:
  "validate_channel_digest_recap (encode_recap r) c d l = Inr r' \<longleftrightarrow>
     r' = r \<and> recap_typed r \<and> cr_language r = l \<and> cr_manifest_digest r = d \<and> cr_digest_is_sha256 r \<and>
     coverage_matches (cr_coverage r) c \<and> recap_grounded r c"
  using validate_all_citations_iff [of "map ps_ref (px_sources c)" "map tp_citations (cr_topics r) @ map ni_citations (cr_items r)"]
  by (auto simp: validate_channel_digest_recap_def schema_recap decode_encode_recap recap_grounded_def
      distinct_remdups_length split: sum.splits if_splits)

section \<open>Recaps of a prepared context\<close>

lemma prepared_counts:
  assumes "prepare_channel_recap_context k v policy = Inr c"
  shows "px_included_count c \<in> {1..100}" and "px_channel_count c \<in> {1..20}"
    and "px_selected_count c = length (mf_sources (vm_manifest v))"
    and "px_included_count c + px_omitted_count c = px_selected_count c"
    and "px_included_count c = length (px_sources c)"
    and "px_channel_count c = length (remdups (map ps_channel (px_sources c)))"
proof -
  let ?A = "admissible_sources policy (vm_manifest v)"
  let ?C = "take (rp_max_channels policy) (firsts (map mo_channel_ref (ordered_sources (vm_manifest v))))"
  have valid: "policy_valid policy"
    using assms by (auto simp: prepare_channel_recap_context_def split: if_splits)
  obtain om where sel: "select_sources policy (ordered_sources (vm_manifest v)) [] [] [] = (?A, om)"
    by (metis prod.collapse select_sources_admissible)
  let ?P = "map (prepared_source k) ?A"
  obtain n om' where n: "n \<le> length ?A"
    and fit: "fit_budget k (rp_max_characters policy) ?P om = Inr (take n ?P, om')"
    and ms: "mset (map om_ref om') = mset (map om_ref om) + mset (map ps_ref (drop n ?P))"
    using fit_budget_exact [of ?P k "rp_max_characters policy" om] by auto
  have c: "c = assemble_context k (length (ordered_sources (vm_manifest v))) (take n ?P) om'"
    and ne: "take n ?P \<noteq> []"
    using assms by (auto simp: prepare_channel_recap_context_def Let_def sel fit split: if_splits)
  have src: "px_sources c = take n ?P" by (simp add: c assemble_context_def Let_def)
  show inc: "px_included_count c = length (px_sources c)"
    and chan: "px_channel_count c = length (remdups (map ps_channel (px_sources c)))"
    and tot: "px_selected_count c = length (mf_sources (vm_manifest v))"
    by (simp_all add: c assemble_context_def Let_def ordered_sources_def)
  have A: "length ?A \<le> 100"
    using valid by (simp add: admissible_sources_def Let_def policy_valid_def min.coboundedI2)
  then show "px_included_count c \<in> {1..100}" using ne n by (auto simp: inc src Suc_le_eq)
  have "set (map ps_channel (px_sources c)) \<subseteq> set ?C"
    by (auto simp: src take_map prepared_source_def admissible_sources_def Let_def dest!: in_set_takeD)
  then have "card (set (map ps_channel (px_sources c))) \<le> length ?C"
    by (rule order.trans [OF card_mono [OF finite_set]]) (rule card_length)
  moreover have "rp_max_channels policy \<le> 20" using valid by (simp add: policy_valid_def)
  moreover have "0 < card (set (map ps_channel (px_sources c)))" using ne by (simp add: src card_gt_0_iff)
  ultimately show "px_channel_count c \<in> {1..20}" by (simp add: chan length_remdups_card_conv)
  have "size (mset (map om_ref om')) = length om + (length ?A - n)"
    by (simp only: ms size_union size_mset length_map length_drop)
  moreover have "length ?A + length om = length (mf_sources (vm_manifest v))"
    using arg_cong [OF select_sources_partition [OF sel], of size] by (simp add: ordered_sources_def)
  ultimately show "px_included_count c + px_omitted_count c = px_selected_count c"
    using n by (simp add: inc src tot c assemble_context_def Let_def ordered_sources_def)
qed

text \<open>
  C20: The type of an accepted recap. For a prepared context of at most a hundred selected sources (the
  limit of the contract and of the tables) an answer of the model is accepted exactly when it fits
  the closed schema and its composition with the facts of the run is grounded: every citation names
  an included revision, none twice, warnings are distinct, and no text has a link. Composing never
  makes a fitting answer fail. The accepted recap then has the stored type (all lengths and counts
  within the published bounds), the language and manifest digest of the run and the exact coverage of
  the context, and it says so when sources were omitted.
\<close>

theorem accepted_recap_typed:
  assumes "prepare_channel_recap_context k v policy = Inr c" and "length (mf_sources (vm_manifest v)) \<le> 100"
    and "is_digest_hex d"
  shows "(validate_channel_recap_model_output j c d l = Inr r) =
      (\<exists>m. model_output_schema j \<and> decode_model_output j = Some m \<and> r = composed_recap m c d l \<and> recap_grounded r c) \<and>
    (validate_channel_recap_model_output j c d l = Inr r \<longrightarrow>
      recap_typed r \<and> cr_language r = l \<and> cr_manifest_digest r = d \<and> coverage_matches (cr_coverage r) c \<and>
      (px_omissions c = [] \<or> ContextOmittedSources \<in> set (cr_warnings r)))"
proof -
  note counts = prepared_counts [OF assms(1)]
  have om: "px_omitted_count c = length (px_omissions c)"
    using assms(1) by (auto simp: prepare_channel_recap_context_def Let_def assemble_context_def split: if_splits prod.splits sum.splits)
  have small: "px_omitted_count c \<le> 99" "px_selected_count c \<in> {1..100}" using counts assms(2) by auto
  have rep: "counts_representable c" using counts small by (simp add: counts_representable_def)
  have nat16: "unat (of_nat n :: 16 word) = n" if "n \<le> 100" for n
    using that by (simp add: unat_of_nat)
  have cov: "coverage_matches (cr_coverage (composed_recap m c d l)) c" for m
    using counts small by (auto simp: coverage_matches_def composed_recap_def nat16 simp flip: of_nat_add)
  have covt: "coverage_typed (cr_coverage (composed_recap m c d l))" for m
    using counts small by (auto simp: coverage_typed_def composed_recap_def nat16)
  have warn: "length (cr_warnings r) \<le> 10" if "recap_grounded r c" for r
  proof -
    have "set (cr_warnings r) \<subseteq> set recap_warnings"
      by (auto simp: recap_warnings_def intro: recap_warning.exhaust)
    then have "card (set (cr_warnings r)) \<le> length recap_warnings"
      by (rule order.trans [OF card_mono [OF finite_set]]) (rule card_length)
    then show ?thesis using that by (simp add: recap_grounded_def distinct_card recap_warnings_def)
  qed
  have typed: "recap_typed (composed_recap m c d l)"
    if "model_output_schema j" "decode_model_output j = Some m" "recap_grounded (composed_recap m c d l) c" for m
    using model_output_typed [OF that(1,2)] covt warn [OF that(3)] assms(3)
    by (simp add: recap_typed_def composed_recap_def)
  have eq: "(validate_channel_recap_model_output j c d l = Inr r) =
      (\<exists>m. model_output_schema j \<and> decode_model_output j = Some m \<and> r = composed_recap m c d l \<and> recap_grounded r c)"
  proof
    assume "validate_channel_recap_model_output j c d l = Inr r"
    then obtain m x where "model_output_schema j" "decode_model_output j = Some m"
      "compose_channel_digest_recap m c d l = Inr x" "validate_channel_digest_recap x c d l = Inr r"
      by (auto simp: validate_channel_recap_model_output_def split: if_splits option.splits sum.splits)
    then show "\<exists>m. model_output_schema j \<and> decode_model_output j = Some m \<and> r = composed_recap m c d l \<and> recap_grounded r c"
      by (auto simp: compose_Inr validate_encoded_iff)
  next
    assume "\<exists>m. model_output_schema j \<and> decode_model_output j = Some m \<and> r = composed_recap m c d l \<and> recap_grounded r c"
    then obtain m where m: "model_output_schema j" "decode_model_output j = Some m" "r = composed_recap m c d l" "recap_grounded r c"
      by blast
    then have "compose_channel_digest_recap m c d l = Inr (encode_recap r)" using rep assms(3) by (simp add: compose_Inr)
    moreover have "validate_channel_digest_recap (encode_recap r) c d l = Inr r"
      using m typed [OF m(1,2)] cov by (simp add: validate_encoded_iff) (simp add: composed_recap_def)
    ultimately show "validate_channel_recap_model_output j c d l = Inr r"
      using m by (simp add: validate_channel_recap_model_output_def)
  qed
  show ?thesis
    unfolding eq using typed cov om by (auto simp: composed_recap_def composed_warnings_def)
qed

definition recap_example_codecs :: recap_codecs where
  "recap_example_codecs =
     \<lparr>rk_text = (\<lambda>_. ''text''), rk_bytes = (\<lambda>_. []), rk_sha = (\<lambda>_. replicate 64 CHR ''0''), rk_wire = (\<lambda>_. [])\<rparr>"

definition recap_example_source :: manifest_source where
  "recap_example_source = \<lparr>mo_revision_ref = ''r1'', mo_channel_ref = ''c1'', mo_channel_label = ''C'', mo_message = 1,
     mo_revision = 1, mo_published = 5, mo_content_digest = [], mo_content = ''hello''\<rparr>"

definition recap_example_manifest :: verified_manifest where
  "recap_example_manifest = \<lparr>vm_digest = replicate 64 CHR ''0'', vm_manifest = \<lparr>mf_owner = ''user:1'', mf_digest_run = 7,
     mf_ref = ''m'', mf_start = 0, mf_end = 10, mf_sources = [recap_example_source]\<rparr>\<rparr>"

definition recap_example_policy :: recap_policy where
  "recap_example_policy = \<lparr>rp_max_sources = 100, rp_max_channels = 20, rp_max_characters = 4\<rparr>"

definition recap_example_context :: prepared_recap where
  "recap_example_context = assemble_context recap_example_codecs 1 [prepared_source recap_example_codecs recap_example_source] []"

lemma recap_example_prepared:
  "prepare_channel_recap_context recap_example_codecs recap_example_manifest recap_example_policy = Inr recap_example_context"
  by (simp add: prepare_channel_recap_context_def recap_example_policy_def policy_valid_def ordered_sources_def
      recap_example_manifest_def fit_budget.simps source_character_count_def recap_example_codecs_def usize_max_def
      recap_example_context_def)

definition recap_example_answer :: json where
  "recap_example_answer = JObj [(''headline'', JStr ''News''), (''overview'', JStr ''All''),
     (''topics'', JArr [JObj [(''label'', JStr ''L''), (''summary'', JStr ''S''), (''citations'', JArr [JStr ''r1''])]]),
     (''notable_items'', JArr []), (''warnings'', JArr [])]"

definition recap_example_output :: recap_model_output where
  "recap_example_output = \<lparr>mu_headline = ''News'', mu_overview = ''All'',
     mu_topics = [\<lparr>tp_label = ''L'', tp_summary = ''S'', tp_citations = [''r1'']\<rparr>], mu_items = [], mu_warnings = []\<rparr>"

lemma recap_example_fits:
  "model_output_schema recap_example_answer" "decode_model_output recap_example_answer = Some recap_example_output"
  "recap_grounded (composed_recap recap_example_output recap_example_context d l) recap_example_context"
  by (simp_all add: model_output_schema_def recap_example_answer_def exact_object_def topic_schema_def
      decode_model_output_def decode_list_def decode_topic_def decode_strings_def recap_example_output_def
      recap_grounded_def composed_recap_def composed_warnings_def recap_example_context_def assemble_context_def Let_def
      prepared_source_def recap_example_source_def recap_texts_of_def contains_forbidden_link_def ascii_lower_char_def)

theorem accepted_recap_typed_witness:
  "validate_channel_recap_model_output recap_example_answer recap_example_context (replicate 64 CHR ''a'') En =
     Inr (composed_recap recap_example_output recap_example_context (replicate 64 CHR ''a'') En) \<and>
   recap_typed (composed_recap recap_example_output recap_example_context (replicate 64 CHR ''a'') En)"
proof -
  have "length (mf_sources (vm_manifest recap_example_manifest)) \<le> 100" by (simp add: recap_example_manifest_def)
  moreover have "is_digest_hex (replicate 64 CHR ''a'')" by (simp add: is_digest_hex_def is_hex_digit_def list_all_iff)
  ultimately show ?thesis
    using accepted_recap_typed [OF recap_example_prepared] recap_example_fits by blast
qed

end
