(* ===== verification/Recap_Invariant.thy ===== *)
theory Recap_Invariant
  imports Recap_Worker Recap_Result_Correct
begin

text \<open>
  What the recap tables say about a run, and how they may change. \<open>recap_inv\<close> ties the state of a run to
  its command, manifest, attempts, result and fact; \<open>recap_after\<close> says that a run only moves along the
  edges of its life cycle, that a settled run is final and that evidence is only added.
\<close>

section \<open>The rows of one run\<close>

record recap_children =
  kid_manifests :: "recap_manifest_row list"
  kid_attempts :: "recap_attempt_row list"
  kid_results :: "recap_result_row list"
  kid_facts :: "(uuid \<times> string \<times> json) list"

definition fact_core :: "recap_outbox_row \<Rightarrow> uuid \<times> string \<times> json" where
  "fact_core x = (ro_id x, ro_subject x, ro_payload x)"

definition children_of :: "db \<Rightarrow> uuid \<Rightarrow> recap_children" where
  "children_of t run =
     \<lparr>kid_manifests = select_where (\<lambda>m. rm_run m = run) (recap_manifests t),
      kid_attempts = select_where (\<lambda>a. ra_run a = run) (recap_attempts t),
      kid_results = select_where (\<lambda>o'. rs_run o' = run) (recap_results t),
      kid_facts = map fact_core (select_where (\<lambda>x. ro_run x = run) (recap_outbox t))\<rparr>"

section \<open>The invariant of a run\<close>

definition command_of_row :: "recap_contracts \<Rightarrow> recap_run_row \<Rightarrow> recap_inbox_row \<Rightarrow> bool" where
  "command_of_row rx r c = (\<exists>q. rx_encode_request rx q = Some (ci_payload c) \<and> ci_command c = rn_command r \<and>
     kq_owner q = rn_owner r \<and> kq_digest_run q = rn_digest_run r \<and> kq_manifest_digest q = rn_manifest_digest r)"

definition manifest_of_row :: "recap_run_row \<Rightarrow> recap_manifest_row \<Rightarrow> bool" where
  "manifest_of_row r m = (recap_manifest_ok m \<and> rm_owner m = rn_owner r \<and> rm_digest_run m = rn_digest_run r \<and>
     rm_digest m = rn_manifest_digest r)"

text \<open>An answer that was stored: it was received, whatever became of it.\<close>

definition answered_attempt :: "recap_attempt_row \<Rightarrow> bool" where
  "answered_attempt a = (ra_outcome a \<in> {AttemptResponseReceived, AttemptInvalid, AttemptAccepted} \<and> ra_raw a \<noteq> None)"

definition attempts_inv :: "recap_run_row \<Rightarrow> recap_attempt_row list \<Rightarrow> bool" where
  "attempts_inv r as =
     (distinct (map ra_ordinal as) \<and> list_all recap_attempt_ok as \<and> list_all (\<lambda>a. ra_ordinal a \<le> rn_attempts r) as \<and>
      (rn_attempts r = 0 \<or> list_ex (\<lambda>a. ra_ordinal a = rn_attempts r) as) \<and>
      (rn_state r \<in> {RecapReceived, RecapManifestRetry, RecapManifestVerified, RecapContextPrepared} \<longrightarrow>
         rn_attempts r = 0) \<and>
      (rn_state r \<in> {RecapResponseReceived, RecapSchemaValidated} \<longrightarrow>
         list_ex (\<lambda>a. ra_ordinal a = rn_attempts r \<and> answered_attempt a) as) \<and>
      list_all (\<lambda>a. ra_outcome a \<in> {AttemptResponseReceived, AttemptInvalid, AttemptAccepted} \<longrightarrow> ra_raw a \<noteq> None) as)"

text \<open>
  A result is the JSON of a recap that validation accepted for a context prepared from the manifest
  of the run, in the language and under the manifest digest of the run.
\<close>

definition grounded_result ::
  "recap_contracts \<Rightarrow> recap_codecs \<Rightarrow> recap_run_row \<Rightarrow> recap_manifest_row list \<Rightarrow> recap_result_row \<Rightarrow> bool" where
  "grounded_result rx k r ms o' =
     (\<exists>m \<in> set ms. \<exists>mf policy c j lang recap.
        rx_decode_manifest rx (rm_manifest m) = Some mf \<and>
        prepare_channel_recap_context k \<lparr>vm_digest = rn_manifest_digest r, vm_manifest = mf\<rparr> policy = Inr c \<and>
        recap_output_language lang = rn_language r \<and>
        validate_channel_recap_model_output j c (rn_manifest_digest r) lang = Inr recap \<and>
        rs_result o' = encode_recap recap \<and> rs_coverage o' = encode_coverage (cr_coverage recap) \<and>
        rs_digest o' = rk_sha k (rk_bytes k (encode_recap recap)))"

definition announces :: "recap_contracts \<Rightarrow> json \<Rightarrow> recap_result_row \<Rightarrow> bool" where
  "announces rx payload o' = (\<exists>f. rx_encode_completed rx f = Some payload \<and> cf_result f = rs_id o' \<and>
     cf_result_digest f = rs_digest o' \<and> cf_coverage f = rs_coverage o')"

definition payload_linked :: "recap_run_row \<Rightarrow> json \<Rightarrow> bool" where
  "payload_linked r payload = settlement_matches_linkage
     \<lparr>tl_terminal = RecapFailed, tl_subject = [], tl_payload = payload, tl_failure = None, tl_result = None\<rparr>
     (rn_owner r) (uuid_text (rn_digest_run r)) (rn_manifest_digest r)"

definition results_inv :: "recap_contracts \<Rightarrow> recap_codecs \<Rightarrow> recap_run_row \<Rightarrow> recap_children \<Rightarrow> bool" where
  "results_inv rx k r ch =
     (if rn_state r \<in> {RecapPersisted, RecapCompleted}
      then \<exists>o'. kid_results ch = [o'] \<and> grounded_result rx k r (kid_manifests ch) o'
      else kid_results ch = [])"

definition facts_inv :: "recap_contracts \<Rightarrow> recap_run_row \<Rightarrow> recap_children \<Rightarrow> bool" where
  "facts_inv rx r ch =
     (if rn_state r = RecapCompleted
      then \<exists>i payload o'. kid_facts ch = [(i, completed_subject, payload)] \<and> payload_linked r payload \<and>
             kid_results ch = [o'] \<and> announces rx payload o'
      else if rn_state r = RecapFailed
      then \<exists>i payload. kid_facts ch = [(i, failed_subject, payload)] \<and> payload_linked r payload
      else kid_facts ch = [])"

definition run_inv ::
  "recap_contracts \<Rightarrow> recap_codecs \<Rightarrow> recap_inbox_row list \<Rightarrow> recap_run_row \<Rightarrow> recap_children \<Rightarrow> bool" where
  "run_inv rx k cs r ch =
     (recap_run_ok r \<and> list_ex (command_of_row rx r) cs \<and> list_all (manifest_of_row r) (kid_manifests ch) \<and>
      attempts_inv r (kid_attempts ch) \<and> results_inv rx k r ch \<and> facts_inv rx r ch)"

definition recap_inv :: "recap_contracts \<Rightarrow> recap_codecs \<Rightarrow> db \<Rightarrow> bool" where
  "recap_inv rx k t =
     (recap_fk t \<and> key_unique rn_id (recap_runs t) \<and> key_unique ci_command (recap_inbox t) \<and>
      list_all (\<lambda>r. run_inv rx k (recap_inbox t) r (children_of t (rn_id r))) (recap_runs t))"

section \<open>How runs change\<close>

definition recap_edge :: "recap_state \<Rightarrow> recap_state \<Rightarrow> bool" where
  "recap_edge a b = (a = b \<or> allowed_recap_transition a b \<or> \<not> recap_is_terminal a \<and> recap_is_terminal b)"

definition run_identity_columns :: "recap_run_row \<Rightarrow> recap_run_row" where
  "run_identity_columns r = r\<lparr>rn_state := RecapReceived, rn_manifest_attempts := 0, rn_retry_not_before := None,
     rn_attempts := 0, rn_failure := None\<rparr>"

definition recap_later :: "recap_run_row \<Rightarrow> recap_children \<Rightarrow> recap_run_row \<Rightarrow> recap_children \<Rightarrow> bool" where
  "recap_later r ch r' ch' =
     (run_identity_columns r' = run_identity_columns r \<and> recap_edge\<^sup>*\<^sup>* (rn_state r) (rn_state r') \<and>
      rn_attempts r \<le> rn_attempts r' \<and> (recap_is_terminal (rn_state r) \<longrightarrow> r' = r) \<and>
      set (kid_manifests ch) \<subseteq> set (kid_manifests ch') \<and> length (kid_attempts ch) \<le> length (kid_attempts ch') \<and>
      set (kid_results ch) \<subseteq> set (kid_results ch') \<and> set (kid_facts ch) \<subseteq> set (kid_facts ch'))"

definition recap_after :: "db \<Rightarrow> db \<Rightarrow> bool" where
  "recap_after t t' =
     ((\<forall>r \<in> set (recap_runs t). \<exists>r' \<in> set (recap_runs t').
         recap_later r (children_of t (rn_id r)) r' (children_of t' (rn_id r))) \<and>
      set (recap_inbox t) \<subseteq> set (recap_inbox t') \<and> length (recap_attempts t) \<le> length (recap_attempts t'))"

lemma identity_columns_id: "run_identity_columns r' = run_identity_columns r \<Longrightarrow> rn_id r' = rn_id r"
  by (metis recap_run_row.select_convs(1) recap_run_row.surjective recap_run_row.update_convs(10-14) run_identity_columns_def)

end
