(* ===== verification/Evolution.thy ===== *)
theory Evolution
  imports Effects
begin

text \<open>
  Histories of the tables: an invariant that every statement keeps, and a preorder in which the tables
  only move forward. The rules reduce a handler to its statements and its transactions; a transaction
  counts as one step.
\<close>

definition evolves :: "(db \<Rightarrow> bool) \<Rightarrow> (db \<Rightarrow> db \<Rightarrow> bool) \<Rightarrow> (world, 'e, 'a) exec \<Rightarrow> bool" where
  "evolves ok after m =
     (\<forall>w. ok (tables w) \<longrightarrow> ok (tables (snd (m w))) \<and> after (tables w) (tables (snd (m w))))"

lemma evolvesI:
  "(\<And>w r w'. ok (tables w) \<Longrightarrow> m w = (r, w') \<Longrightarrow> ok (tables w') \<and> after (tables w) (tables w')) \<Longrightarrow> evolves ok after m"
  unfolding evolves_def by (metis prod.collapse)

lemma evolvesD:
  "evolves ok after m \<Longrightarrow> ok (tables w) \<Longrightarrow> m w = (r, w') \<Longrightarrow> ok (tables w') \<and> after (tables w) (tables w')"
  unfolding evolves_def by (metis snd_conv)

text \<open>A precondition that later states keep can be carried along.\<close>

lemma evolves_carry:
  assumes "evolves ok after m" and "\<And>t t'. ok t \<Longrightarrow> P t \<Longrightarrow> after t t' \<Longrightarrow> P t'"
  shows "evolves (\<lambda>t. ok t \<and> P t) after m"
  using assms unfolding evolves_def by blast

lemma snd_map_err: "snd (exec_map_err h m w) = snd (m w)"
  by (simp add: exec_map_err_def split: prod.split sum.split)

locale evolution =
  fixes ok :: "db \<Rightarrow> bool" and after :: "db \<Rightarrow> db \<Rightarrow> bool"
  assumes after_refl: "after t t"
    and after_trans: "after t t' \<Longrightarrow> after t' t'' \<Longrightarrow> after t t''"
begin

lemma still:
  assumes "\<And>w. tables (snd (m w)) = tables w"
  shows "evolves ok after m"
  using assms by (simp add: evolves_def after_refl)

lemma basic:
  "evolves ok after (exec_return x)" "evolves ok after (exec_fail e)" "evolves ok after (exec_guard b e)"
  "evolves ok after (exec_result r)" "evolves ok after new_uuid" "evolves ok after get_now"
  by (rule still; simp add: exec_return_def exec_fail_def exec_guard_def exec_result_def new_uuid_def get_now_def)+

lemma bind:
  assumes "evolves ok after m" and "\<And>x. evolves ok after (f x)"
  shows "evolves ok after (exec_bind m f)"
proof (rule evolvesI)
  fix w r w' assume w: "ok (tables w)" and run: "exec_bind m f w = (r, w')"
  obtain r1 w1 where m: "m w = (r1, w1)" by fastforce
  note 1 = evolvesD [OF assms(1) w m]
  show "ok (tables w') \<and> after (tables w) (tables w')"
  proof (cases r1)
    case (Inl e)
    then show ?thesis using run m 1 by (simp add: exec_bind_def)
  next
    case (Inr x)
    then have "f x w1 = (r, w')" using run m by (simp add: exec_bind_def)
    then show ?thesis using evolvesD [OF assms(2)] 1 after_trans by blast
  qed
qed

lemma conditional: "evolves ok after m \<Longrightarrow> evolves ok after n \<Longrightarrow> evolves ok after (if b then m else n)"
  by simp

lemma map_err: "evolves ok after m \<Longrightarrow> evolves ok after (exec_map_err h m)"
  by (simp add: evolves_def snd_map_err)

lemma statement:
  assumes "\<And>t x t'. ok t \<Longrightarrow> f t = Inr (x, t') \<Longrightarrow> ok t' \<and> after t t'"
  shows "evolves ok after (sql e f)"
proof (rule evolvesI)
  fix w r w' assume w: "ok (tables w)" and run: "sql e f w = (r, w')"
  from sql_result [OF run] show "ok (tables w') \<and> after (tables w) (tables w')"
    by (elim disjE exE conjE) (use w assms in \<open>auto simp: after_refl\<close>)
qed

lemma read: "evolves ok after (query e f)"
  unfolding query_def by (rule statement) (auto simp: after_refl)

lemma transaction:
  assumes "\<And>w x w'. ok (tables w) \<Longrightarrow> m w = (Inr x, w') \<Longrightarrow> ok (tables w') \<and> after (tables w) (tables w')"
  shows "evolves ok after (transact e m)"
proof (rule evolvesI)
  fix w r w' assume w: "ok (tables w)" and run: "transact e m w = (r, w')"
  from transact_tables [OF run] show "ok (tables w') \<and> after (tables w) (tables w')"
    by (elim disjE exE conjE) (use w assms [of "tick w"] in \<open>auto simp: after_refl\<close>)
qed

lemmas rules = basic bind map_err read

end

end
