(* ===== verification/Recap_Steps.thy ===== *)
theory Recap_Steps
  imports Recap_Invariant Evolution
begin

text \<open>
  Every statement and transaction of the recap tables keeps \<open>recap_inv\<close> and moves the runs forward
  (\<open>recap_after\<close>). The lemmas here reduce such a step to the one run it is about.
\<close>

section \<open>Identity columns\<close>

lemma identity_columns:
  assumes "run_identity_columns r' = run_identity_columns r"
  shows "rn_id r' = rn_id r" "rn_command r' = rn_command r" "rn_owner r' = rn_owner r"
    "rn_digest_run r' = rn_digest_run r" "rn_manifest_digest r' = rn_manifest_digest r"
    "rn_language r' = rn_language r" "run_identity r' = run_identity r"
  using assms unfolding run_identity_columns_def run_identity_def
  by (cases r; cases r'; simp)+

lemma identity_columns_update [simp]:
  "run_identity_columns (r\<lparr>rn_state := a\<rparr>) = run_identity_columns r"
  "run_identity_columns (r\<lparr>rn_attempts := b\<rparr>) = run_identity_columns r"
  "run_identity_columns (r\<lparr>rn_manifest_attempts := b\<rparr>) = run_identity_columns r"
  "run_identity_columns (r\<lparr>rn_retry_not_before := c\<rparr>) = run_identity_columns r"
  "run_identity_columns (r\<lparr>rn_failure := d\<rparr>) = run_identity_columns r"
  by (simp_all add: run_identity_columns_def)

lemma same_identity_parts:
  assumes "run_identity_columns r' = run_identity_columns r"
  shows "command_of_row rx r' = command_of_row rx r" "manifest_of_row r' = manifest_of_row r"
    "grounded_result rx k r' = grounded_result rx k r" "payload_linked r' = payload_linked r"
  unfolding command_of_row_def manifest_of_row_def grounded_result_def payload_linked_def
  using identity_columns [OF assms] by auto

section \<open>Moving forward\<close>

lemma recap_later_refl [simp]: "recap_later r ch r ch"
  by (simp add: recap_later_def)

lemma recap_later_trans:
  "recap_later r ch r' ch' \<Longrightarrow> recap_later r' ch' r'' ch'' \<Longrightarrow> recap_later r ch r'' ch''"
  unfolding recap_later_def by (metis (no_types, lifting) order.trans rtranclp_trans)

lemma recap_after_refl [simp]: "recap_after t t"
  unfolding recap_after_def using recap_later_refl by blast

lemma recap_after_run:
  assumes "recap_after t t'" and "r \<in> set (recap_runs t)"
  obtains r' where "r' \<in> set (recap_runs t')"
    and "recap_later r (children_of t (rn_id r)) r' (children_of t' (rn_id r))" and "rn_id r' = rn_id r"
proof -
  obtain r' where r': "r' \<in> set (recap_runs t')"
    and later: "recap_later r (children_of t (rn_id r)) r' (children_of t' (rn_id r))"
    using bspec [OF conjunct1 [OF assms(1) [unfolded recap_after_def]] assms(2)] by (rule bexE)
  have "run_identity_columns r' = run_identity_columns r" using later by (simp add: recap_later_def)
  then show ?thesis using that [OF r' later] identity_columns(1) by blast
qed

lemma recap_after_trans:
  assumes "recap_after t t'" and "recap_after t' t''"
  shows "recap_after t t''"
  unfolding recap_after_def
proof (intro conjI ballI)
  fix r assume r: "r \<in> set (recap_runs t)"
  obtain r' where r': "r' \<in> set (recap_runs t')" and i: "rn_id r' = rn_id r"
    and 1: "recap_later r (children_of t (rn_id r)) r' (children_of t' (rn_id r))"
    by (rule recap_after_run [OF assms(1) r])
  obtain r'' where r'': "r'' \<in> set (recap_runs t'')"
    and 2: "recap_later r' (children_of t' (rn_id r')) r'' (children_of t'' (rn_id r'))"
    by (rule recap_after_run [OF assms(2) r'])
  show "\<exists>r''\<in>set (recap_runs t''). recap_later r (children_of t (rn_id r)) r'' (children_of t'' (rn_id r))"
    using recap_later_trans [OF 1 2 [unfolded i]] r'' by blast
next
  show "set (recap_inbox t) \<subseteq> set (recap_inbox t'')" "length (recap_attempts t) \<le> length (recap_attempts t'')"
    using assms [unfolded recap_after_def, THEN conjunct2] by (meson order.trans)+
qed

section \<open>The invariant and one run\<close>

lemma recap_inv_run:
  "recap_inv rx k t \<Longrightarrow> r \<in> set (recap_runs t) \<Longrightarrow> run_inv rx k (recap_inbox t) r (children_of t (rn_id r))"
  by (simp add: recap_inv_def list_all_iff)

lemma recap_inv_unique:
  "recap_inv rx k t \<Longrightarrow> r \<in> set (recap_runs t) \<Longrightarrow> r' \<in> set (recap_runs t) \<Longrightarrow> rn_id r' = rn_id r \<Longrightarrow> r' = r"
  unfolding recap_inv_def using key_unique_find [of rn_id "recap_runs t" r] key_unique_find [of rn_id "recap_runs t" r']
  by simp

lemma children_Nil:
  assumes "recap_fk t" and "i \<notin> rn_id ` set (recap_runs t)"
  shows "children_of t i = \<lparr>kid_manifests = [], kid_attempts = [], kid_results = [], kid_facts = []\<rparr>"
  using assms unfolding recap_fk_def refers_iff children_of_def select_where_def
  by (auto simp: filter_empty_conv image_iff) (metis+)

lemma fk_children:
  assumes "refers rn_command (recap_runs t) ci_command (recap_inbox t)"
    and "\<And>i. i \<notin> rn_id ` set (recap_runs t) \<Longrightarrow>
      children_of t i = \<lparr>kid_manifests = [], kid_attempts = [], kid_results = [], kid_facts = []\<rparr>"
  shows "recap_fk t"
proof -
  have "rm_run m \<in> rn_id ` set (recap_runs t)" if "m \<in> set (recap_manifests t)" for m
    using assms(2) [of "rm_run m"] that by (auto simp: children_of_def select_where_def filter_empty_conv)
  moreover have "ra_run m \<in> rn_id ` set (recap_runs t)" if "m \<in> set (recap_attempts t)" for m
    using assms(2) [of "ra_run m"] that by (auto simp: children_of_def select_where_def filter_empty_conv)
  moreover have "rs_run m \<in> rn_id ` set (recap_runs t)" if "m \<in> set (recap_results t)" for m
    using assms(2) [of "rs_run m"] that by (auto simp: children_of_def select_where_def filter_empty_conv)
  moreover have "ro_run m \<in> rn_id ` set (recap_runs t)" if "m \<in> set (recap_outbox t)" for m
    using assms(2) [of "ro_run m"] that by (auto simp: children_of_def select_where_def filter_empty_conv)
  ultimately show ?thesis
    using assms(1) by (auto simp: recap_fk_def refers_def list_all_iff)
qed

text \<open>
  A step that rewrites the row of one run and its children: it keeps the invariant when it keeps it
  for that run.
\<close>

lemma run_step:
  assumes inv: "recap_inv rx k t" and r: "r \<in> set (recap_runs t)"
    and runs: "recap_runs t' = update_where p f (recap_runs t)" and p: "p r" and only: "\<And>x. p x \<Longrightarrow> rn_id x = rn_id r"
    and inbox: "recap_inbox t' = recap_inbox t"
    and others: "\<And>i. i \<noteq> rn_id r \<Longrightarrow> children_of t' i = children_of t i"
    and later: "recap_later r (children_of t (rn_id r)) (f r) (children_of t' (rn_id r))"
    and kept: "run_inv rx k (recap_inbox t) (f r) (children_of t' (rn_id r))"
    and count: "length (recap_attempts t) \<le> length (recap_attempts t')"
  shows "recap_inv rx k t' \<and> recap_after t t'"
proof -
  have ident: "run_identity_columns (f r) = run_identity_columns r" using later by (simp add: recap_later_def)
  have same: "x = r" if "x \<in> set (recap_runs t)" "p x" for x
    using recap_inv_unique [OF inv r that(1)] only [OF that(2)] by simp
  have set': "set (recap_runs t') = (\<lambda>x. if x = r then f r else x) ` set (recap_runs t)"
    unfolding runs set_update_where
  proof (rule image_cong [OF refl])
    fix x assume "x \<in> set (recap_runs t)"
    then show "(if p x then f x else x) = (if x = r then f r else x)"
      using same [of x] p by (cases "x = r") auto
  qed
  have col: "map g (recap_runs t') = map g (recap_runs t)" if g: "g (f r) = g r" for g :: "recap_run_row \<Rightarrow> nat"
    unfolding runs update_where_def map_map
  proof (rule map_cong [OF refl])
    fix x assume "x \<in> set (recap_runs t)"
    then show "(g \<circ> (\<lambda>r. if p r then f r else r)) x = g x"
      using same [of x] g by (cases "p x") auto
  qed
  note ids = col [OF identity_columns(1) [OF ident]] col [OF identity_columns(2) [OF ident]]
  have keys: "rn_id ` set (recap_runs t') = rn_id ` set (recap_runs t)" using arg_cong [OF ids(1), of set] by simp
  have fk: "recap_fk t'"
  proof (rule fk_children)
    show "refers rn_command (recap_runs t') ci_command (recap_inbox t')"
    proof -
      have "rn_command ` set (recap_runs t') = rn_command ` set (recap_runs t)" using arg_cong [OF ids(2), of set] by simp
      moreover have "rn_command ` set (recap_runs t) \<subseteq> ci_command ` set (recap_inbox t)"
        using inv by (auto simp: recap_inv_def recap_fk_def refers_def list_all_iff)
      ultimately show ?thesis by (auto simp: refers_def list_all_iff inbox)
    qed
    fix i assume "i \<notin> rn_id ` set (recap_runs t')"
    then show "children_of t' i = \<lparr>kid_manifests = [], kid_attempts = [], kid_results = [], kid_facts = []\<rparr>"
      using others [of i] children_Nil [of t i] inv r keys by (auto simp: recap_inv_def)
  qed
  have all: "run_inv rx k (recap_inbox t') x (children_of t' (rn_id x))" if x: "x \<in> set (recap_runs t')" for x
  proof -
    from x obtain y where y: "y \<in> set (recap_runs t)" "x = (if y = r then f r else y)" unfolding set' by blast
    show ?thesis
    proof (cases "y = r")
      case True
      then show ?thesis using kept y(2) identity_columns(1) [OF ident] by (simp add: inbox)
    next
      case False
      then have "rn_id y \<noteq> rn_id r" using recap_inv_unique [OF inv r y(1)] by blast
      then show ?thesis using False y others recap_inv_run [OF inv y(1)] by (simp add: inbox)
    qed
  qed
  have after: "recap_after t t'"
    unfolding recap_after_def inbox
  proof (intro conjI ballI order.refl count)
    fix y assume y: "y \<in> set (recap_runs t)"
    show "\<exists>r'\<in>set (recap_runs t'). recap_later y (children_of t (rn_id y)) r' (children_of t' (rn_id y))"
    proof (cases "y = r")
      case True
      moreover have "f r \<in> set (recap_runs t')" using r unfolding set' by auto
      ultimately show ?thesis using later by (intro bexI [of _ "f r"]) simp_all
    next
      case False
      then have "rn_id y \<noteq> rn_id r" using recap_inv_unique [OF inv r y] by blast
      moreover have "y \<in> set (recap_runs t')" using y False unfolding set' by auto
      ultimately show ?thesis by (intro bexI [of _ y]) (simp_all add: others)
    qed
  qed
  show ?thesis
    using inv fk all after ids unfolding recap_inv_def key_unique_def inbox list_all_iff by simp
qed

text \<open>The same for a step that leaves the row of the run alone.\<close>

lemma children_step:
  assumes "recap_inv rx k t" and "r \<in> set (recap_runs t)"
    and "recap_runs t' = recap_runs t" and "recap_inbox t' = recap_inbox t"
    and "\<And>i. i \<noteq> rn_id r \<Longrightarrow> children_of t' i = children_of t i"
    and "recap_later r (children_of t (rn_id r)) r (children_of t' (rn_id r))"
    and "run_inv rx k (recap_inbox t) r (children_of t' (rn_id r))"
    and "length (recap_attempts t) \<le> length (recap_attempts t')"
  shows "recap_inv rx k t' \<and> recap_after t t'"
proof (rule run_step [OF assms(1,2), where p = "\<lambda>x. rn_id x = rn_id r" and f = "\<lambda>x. x"])
  show "recap_runs t' = update_where (\<lambda>x. rn_id x = rn_id r) (\<lambda>x. x) (recap_runs t)"
    using assms(3) by (simp add: update_where_def)
qed (use assms in auto)

section \<open>Statements on runs\<close>

lemma recap_evolution: "evolution recap_after"
  by unfold_locales (auto intro: recap_after_trans)

interpretation recaps: evolution "recap_inv rx k" recap_after for rx k
  by (rule recap_evolution)

text \<open>An update of the row of one run.\<close>

lemma updated_rows:
  assumes "recap_inv rx k t" and only: "\<And>x. p x \<Longrightarrow> rn_id x = run"
  obtains "\<forall>x \<in> set (recap_runs t). \<not> p x" | r where "r \<in> set (recap_runs t)" "p r" "rn_id r = run"
  using only by blast

lemma run_update_step:
  assumes inv: "recap_inv rx k t" and only: "\<And>x. p x \<Longrightarrow> rn_id x = run"
    and ok: "list_all (\<lambda>r. p r \<longrightarrow> recap_run_ok (f r)) (recap_runs t)"
    and step: "\<And>r ch. p r \<Longrightarrow> recap_run_ok (f r) \<Longrightarrow> run_inv rx k (recap_inbox t) r ch \<Longrightarrow>
      run_inv rx k (recap_inbox t) (f r) ch \<and> recap_later r ch (f r) ch"
  shows "recap_inv rx k (t\<lparr>recap_runs := update_where p f (recap_runs t)\<rparr>) \<and>
    recap_after t (t\<lparr>recap_runs := update_where p f (recap_runs t)\<rparr>)"
proof (rule updated_rows [OF inv only])
  assume "\<forall>x \<in> set (recap_runs t). \<not> p x"
  then show ?thesis using inv by (simp add: update_where_none)
next
  fix r assume r: "r \<in> set (recap_runs t)" "p r" "rn_id r = run"
  have ch: "children_of (t\<lparr>recap_runs := u\<rparr>) i = children_of t i" for u i
    by (simp add: children_of_def)
  show ?thesis
    by (rule run_step [OF inv r(1), where p = p and f = f])
      (use r only ok step recap_inv_run [OF inv r(1)] in \<open>auto simp: ch list_all_iff\<close>)
qed

lemma update_recap_run_sound:
  assumes "\<And>x. p x \<Longrightarrow> rn_id x = run"
    and "\<And>r ch cs. p r \<Longrightarrow> recap_run_ok (f r) \<Longrightarrow> run_inv rx k cs r ch \<Longrightarrow>
      run_inv rx k cs (f r) ch \<and> recap_later r ch (f r) ch"
  shows "evolves (recap_inv rx k) recap_after (update_recap_run e p f)"
  unfolding update_recap_run_def
  by (rule recaps.statement) (use run_update_step [OF _ assms(1) _ assms(2)] in \<open>auto split: if_splits\<close>)

text \<open>The moves that change nothing but the state (and the time of a manifest retry).\<close>

definition plain_move :: "recap_state \<Rightarrow> recap_state \<Rightarrow> bool" where
  "plain_move a b = (allowed_recap_transition a b \<and> b \<noteq> RecapResponseReceived \<and> b \<noteq> RecapPersisted)"

lemma open_run:
  assumes "run_identity_columns r' = run_identity_columns r" and "recap_run_ok r'" and "attempts_inv r' (kid_attempts ch)"
    and "rn_attempts r' = rn_attempts r" and "recap_edge\<^sup>*\<^sup>* (rn_state r) (rn_state r')" and "run_inv rx k cs r ch"
    and "rn_state r \<notin> {RecapPersisted, RecapCompleted, RecapFailed}"
    and "rn_state r' \<notin> {RecapPersisted, RecapCompleted, RecapFailed}"
  shows "run_inv rx k cs r' ch \<and> recap_later r ch r' ch"
proof
  have "results_inv rx k r' ch" "facts_inv rx r' ch"
    using assms(6-8) by (simp_all add: run_inv_def results_inv_def facts_inv_def)
  then show "run_inv rx k cs r' ch"
    using assms(2,3,6) same_identity_parts(1,2) [OF assms(1)] by (simp add: run_inv_def)
  show "recap_later r ch r' ch"
    using assms(1,4,5,7) by (simp add: recap_later_def)
qed

lemma attempts_inv_move:
  assumes "attempts_inv r as" and "rn_attempts r' = rn_attempts r"
    and "rn_state r' \<in> {RecapReceived, RecapManifestRetry, RecapManifestVerified, RecapContextPrepared} \<longrightarrow>
      rn_state r \<in> {RecapReceived, RecapManifestRetry, RecapManifestVerified, RecapContextPrepared}"
    and "rn_state r' \<in> {RecapResponseReceived, RecapSchemaValidated} \<longrightarrow> rn_state r \<in> {RecapResponseReceived, RecapSchemaValidated}"
  shows "attempts_inv r' as"
  using assms(1) [unfolded attempts_inv_def] assms(3,4) unfolding attempts_inv_def assms(2)
  by (elim conjE, intro conjI) (assumption | iprover)+

lemma plain_move_run:
  assumes "plain_move (rn_state r) (rn_state r')" and "run_identity_columns r' = run_identity_columns r"
    and "rn_attempts r' = rn_attempts r" and "recap_run_ok r'" and "run_inv rx k cs r ch"
  shows "run_inv rx k cs r' ch \<and> recap_later r ch r' ch"
proof (rule open_run [OF assms(2,4) _ assms(3) _ assms(5)])
  show "recap_edge\<^sup>*\<^sup>* (rn_state r) (rn_state r')"
    using assms(1) by (intro r_into_rtranclp) (auto simp: plain_move_def recap_edge_def)
  show "attempts_inv r' (kid_attempts ch)"
    by (rule attempts_inv_move [where r = r]) (use assms(1,3,5) in \<open>auto simp: plain_move_def run_inv_def\<close>)
qed (use assms(1) in \<open>auto simp: plain_move_def\<close>)

lemma same_state_run:
  assumes "rn_state r' = rn_state r" and "rn_state r \<notin> {RecapPersisted, RecapCompleted, RecapFailed}"
    and "run_identity_columns r' = run_identity_columns r" and "rn_attempts r' = rn_attempts r"
    and "recap_run_ok r'" and "run_inv rx k cs r ch"
  shows "run_inv rx k cs r' ch \<and> recap_later r ch r' ch"
  by (rule open_run [OF assms(3,5) _ assms(4) _ assms(6)])
    (use assms in \<open>simp_all add: run_inv_def attempts_inv_def\<close>)

lemma update_recap_run_Inr:
  "update_recap_run e p f w = (Inr n, w') \<Longrightarrow> n = count_where p (recap_runs (tables w)) \<and>
     tables w' = (tables w)\<lparr>recap_runs := update_where p f (recap_runs (tables w))\<rparr> \<and>
     list_all (\<lambda>r. p r \<longrightarrow> recap_run_ok (f r)) (recap_runs (tables w))"
  unfolding update_recap_run_def by (drule sql_Inr) (auto split: if_splits)

lemma exec_guard_Inr: "exec_guard b e w = (Inr u, w') \<longleftrightarrow> b \<and> w' = w"
  by (auto simp: exec_guard_apply)

lemma new_uuid_Inr: "new_uuid w = (Inr i, w') \<Longrightarrow> i = fresh w \<and> tables w' = tables w \<and> now w' = now w"
  by (auto simp: new_uuid_def)

lemma get_now_Inr: "get_now w = (Inr i, w') \<longleftrightarrow> i = now w \<and> w' = w"
  by (auto simp: get_now_def)

lemma recap_in_state_Some: "recap_in_state run s t = Some r \<Longrightarrow> r \<in> set (recap_runs t) \<and> rn_id r = run \<and> rn_state r = s"
  unfolding recap_in_state_def by (drule find_where_SomeD) (simp add: in_state_def)

section \<open>Settling\<close>

lemma insert_recap_outbox_Inr:
  "insert_recap_outbox x w = (Inr u, w') \<Longrightarrow>
     tables w' = (tables w)\<lparr>recap_outbox := recap_outbox (tables w) @ [x]\<rparr> \<and>
     (\<forall>y \<in> set (recap_outbox (tables w)). ro_run y \<noteq> ro_run x)"
  unfolding insert_recap_outbox_def by (drule sql_Inr) (auto simp: Let_def exists_where_iff split: if_splits)

definition settles :: "uuid \<Rightarrow> terminal_settlement \<Rightarrow> recap_run_row \<Rightarrow> db \<Rightarrow> db \<Rightarrow> bool" where
  "settles run s r t t' =
     (\<exists>p x. p r \<and> (\<forall>y. p y \<longrightarrow> rn_id y = run) \<and> ro_run x = run \<and> ro_subject x = tl_subject s \<and>
        ro_payload x = tl_payload s \<and> recap_run_ok (settled_row s r) \<and>
        settlement_matches_linkage s (rn_owner r) (uuid_text (rn_digest_run r)) (rn_manifest_digest r) \<and>
        (case tl_result s of None \<Rightarrow> True | Some i \<Rightarrow> \<exists>o' \<in> set (recap_results t). rs_run o' = run \<and> rs_id o' = i) \<and>
        t' = t\<lparr>recap_runs := update_where p (settled_row s) (recap_runs t), recap_outbox := recap_outbox t @ [x]\<rparr>)"

lemma settle_body_Inr:
  assumes "settle_body run expected s w = (Inr u, w')"
  obtains r where "r \<in> set (recap_runs (tables w))" "rn_id r = run" "rn_state r = expected"
    "settles run s r (tables w) (tables w')"
proof -
  let ?p = "\<lambda>r. in_state run expected r \<and> rn_state r \<notin> {RecapCompleted, RecapFailed}"
  let ?x = "\<lambda>i at. \<lparr>ro_id = i, ro_run = run, ro_subject = tl_subject s, ro_payload = tl_payload s,
           ro_created = at, ro_published = None\<rparr>"
  obtain lk w1 where 1: "query run_query (recap_in_state run expected) w = (Inr lk, w1)"
    and rest: "(case lk of None \<Rightarrow> exec_fail StateConflict
     | Some linked \<Rightarrow>
         exec_bind (exec_guard (settlement_matches_linkage s (rn_owner linked) (uuid_text (rn_digest_run linked))
           (rn_manifest_digest linked)) InconsistentFact) (\<lambda>_.
         exec_bind (case tl_result s of
             None \<Rightarrow> exec_return True
           | Some result \<Rightarrow> settlement_result_exists run result) (\<lambda>present.
         exec_bind (exec_guard present InconsistentFact) (\<lambda>_.
         exec_bind (update_recap_run run_query ?p (settled_row s)) (\<lambda>n.
         exec_bind (exec_guard (n = 1) StateConflict) (\<lambda>_.
         exec_bind new_uuid (\<lambda>ident.
         exec_bind get_now (\<lambda>at. insert_recap_outbox (?x ident at)))))))) ) w1 = (Inr u, w')"
    using assms unfolding settle_body_def by (elim exec_bind_InrE)
  from query_Inr [OF 1] have t1: "tables w1 = tables w" and lk: "lk = recap_in_state run expected (tables w)" by auto
  obtain r where lkr: "lk = Some r" using rest by (cases lk) (auto simp: exec_fail_def)
  obtain u1 w2 pr w3 u2 w4 n w5 u3 w6 i w7 at w8
    where g1: "exec_guard (settlement_matches_linkage s (rn_owner r) (uuid_text (rn_digest_run r))
           (rn_manifest_digest r)) InconsistentFact w1 = (Inr u1, w2)"
      and pr: "(case tl_result s of None \<Rightarrow> exec_return True
           | Some result \<Rightarrow> settlement_result_exists run result) w2 = (Inr pr, w3)"
      and g2: "exec_guard pr InconsistentFact w3 = (Inr u2, w4)"
      and up: "update_recap_run run_query ?p (settled_row s) w4 = (Inr n, w5)"
      and g3: "exec_guard (n = 1) StateConflict w5 = (Inr u3, w6)"
      and nu: "(new_uuid :: (world, recap_run_error, uuid) exec) w6 = (Inr i, w7)"
      and gn: "(get_now :: (world, recap_run_error, instant) exec) w7 = (Inr at, w8)"
      and ins: "insert_recap_outbox (?x i at) w8 = (Inr u, w')"
    using rest unfolding lkr option.case by (elim exec_bind_InrE) (rule that; assumption)
  have r: "r \<in> set (recap_runs (tables w))" "rn_id r = run" "rn_state r = expected"
    using recap_in_state_Some lk lkr by auto
  have t2: "tables w4 = tables w" and res: "case tl_result s of None \<Rightarrow> True
      | Some i \<Rightarrow> \<exists>o' \<in> set (recap_results (tables w)). rs_run o' = run \<and> rs_id o' = i"
    using g1 g2 t1 pr by (auto simp: exec_guard_Inr exec_return_def settlement_result_exists_def exists_where_iff
        split: option.splits dest!: query_Inr)
  from update_recap_run_Inr [OF up] g3
  have pos: "count_where ?p (recap_runs (tables w)) = 1" and t5: "tables w5 = (tables w)\<lparr>recap_runs := update_where ?p (settled_row s) (recap_runs (tables w))\<rparr>"
    and ok: "list_all (\<lambda>r. ?p r \<longrightarrow> recap_run_ok (settled_row s r)) (recap_runs (tables w))"
    by (auto simp: t2 exec_guard_Inr)
  have pr: "?p r"
  proof -
    have "\<exists>y \<in> set (recap_runs (tables w)). ?p y"
      using pos count_where_0 [of ?p "recap_runs (tables w)"] by force
    then show ?thesis using r by (auto simp: in_state_def)
  qed
  have "tables w8 = tables w5" using g3 new_uuid_Inr [OF nu] gn by (auto simp: exec_guard_Inr get_now_Inr)
  then have t': "tables w' = (tables w)\<lparr>recap_runs := update_where ?p (settled_row s) (recap_runs (tables w)),
      recap_outbox := recap_outbox (tables w) @ [?x i at]\<rparr>"
    using insert_recap_outbox_Inr [OF ins] t5 by simp
  have "settles run s r (tables w) (tables w')"
    unfolding settles_def
    by (intro exI [of _ ?p] exI [of _ "?x i at"])
      (use t' res pr ok r g1 in \<open>auto simp: in_state_def list_all_iff exec_guard_Inr\<close>)
  then show ?thesis using r that by blast
qed

end
