(* ===== verification/Recap_Sound.thy ===== *)
theory Recap_Sound
  imports Recap_Steps
begin

text \<open>
  The transactions of the recap pipeline keep the invariant: settling, persisting a result, storing a
  response, starting an attempt, accepting a manifest, admitting a command.
\<close>

section \<open>Settling\<close>

lemma linkage_of_payload:
  "settlement_matches_linkage s (rn_owner r) (uuid_text (rn_digest_run r)) (rn_manifest_digest r) =
     payload_linked r (tl_payload s)"
  by (simp add: payload_linked_def settlement_matches_linkage_def)

lemma settled_children:
  assumes "ro_run x = run"
  shows "children_of (t\<lparr>recap_runs := u, recap_outbox := recap_outbox t @ [x]\<rparr>) i =
    (if i = run then (children_of t run)\<lparr>kid_facts := kid_facts (children_of t run) @ [fact_core x]\<rparr>
     else children_of t i)"
  using assms by (simp add: children_of_def select_where_def)

lemma settled_row_simps [simp]:
  "rn_state (settled_row s r) = tl_terminal s" "run_identity_columns (settled_row s r) = run_identity_columns r"
  "rn_attempts (settled_row s r) = rn_attempts r" "rn_id (settled_row s r) = rn_id r"
  by (simp_all add: settled_row_def run_identity_columns_def)

lemma settle_step:
  assumes inv: "recap_inv rx k t" and r: "r \<in> set (recap_runs t)" "rn_id r = run"
    and p: "p r" "\<And>y. p y \<Longrightarrow> rn_id y = run" and x: "ro_run x = run" "ro_subject x = tl_subject s"
      "ro_payload x = tl_payload s" and ok: "recap_run_ok (settled_row s r)" and link: "payload_linked r (tl_payload s)"
    and t': "t' = t\<lparr>recap_runs := update_where p (settled_row s) (recap_runs t), recap_outbox := recap_outbox t @ [x]\<rparr>"
    and kind: "tl_terminal s = RecapFailed \<and> tl_subject s = failed_subject \<and>
        rn_state r \<notin> {RecapPersisted, RecapCompleted, RecapFailed} \<or>
      tl_terminal s = RecapCompleted \<and> tl_subject s = completed_subject \<and> rn_state r = RecapPersisted \<and>
        (\<forall>o' \<in> set (recap_results t). rs_run o' = run \<longrightarrow> announces rx (tl_payload s) o')"
  shows "recap_inv rx k t' \<and> recap_after t t'"
proof -
  let ?ch = "children_of t run"
  have ch: "children_of t' i = (if i = run then ?ch\<lparr>kid_facts := kid_facts ?ch @ [fact_core x]\<rparr> else children_of t i)" for i
    unfolding t' by (rule settled_children [OF x(1)])
  have run: "run_inv rx k (recap_inbox t) r ?ch" using recap_inv_run [OF inv r(1)] r(2) by simp
  have none: "kid_facts ?ch = []" using run kind by (auto simp: run_inv_def facts_inv_def)
  have path: "recap_edge\<^sup>*\<^sup>* (rn_state r) (tl_terminal s)"
    using kind by (elim disjE conjE; intro r_into_rtranclp; simp add: recap_edge_def)
  have nonterm: "\<not> recap_is_terminal (rn_state r)" using kind by (elim disjE conjE) simp_all
  have att: "attempts_inv (settled_row s r) (kid_attempts ?ch)"
    by (rule attempts_inv_move [where r = r]) (use run kind in \<open>auto simp: run_inv_def\<close>)
  have res: "results_inv rx k (settled_row s r) (children_of t' run)"
    using run kind same_identity_parts(3) [OF settled_row_simps(2)] by (auto simp: ch run_inv_def results_inv_def)
  have facts: "facts_inv rx (settled_row s r) (children_of t' run)"
    using kind
  proof (elim disjE conjE)
    assume c: "tl_terminal s = RecapCompleted" "tl_subject s = completed_subject" "rn_state r = RecapPersisted"
      and a: "\<forall>o' \<in> set (recap_results t). rs_run o' = run \<longrightarrow> announces rx (tl_payload s) o'"
    obtain o' where o': "kid_results ?ch = [o']" using run c(3) by (auto simp: run_inv_def results_inv_def)
    then have "o' \<in> set (kid_results ?ch)" by simp
    then have "o' \<in> set (recap_results t)" "rs_run o' = run"
      by (auto simp: children_of_def set_select_where)
    then have "announces rx (tl_payload s) o'" using a by blast
    then show ?thesis using c o' link none x same_identity_parts(4) [OF settled_row_simps(2) [of s r]]
      by (simp add: ch facts_inv_def fact_core_def)
  qed (use link none x same_identity_parts(4) [OF settled_row_simps(2) [of s r]] in
      \<open>simp add: ch facts_inv_def fact_core_def completed_subject_def failed_subject_def\<close>)
  show ?thesis
  proof (rule run_step [OF inv r(1), where p = p and f = "settled_row s"])
    show "recap_later r (children_of t (rn_id r)) (settled_row s r) (children_of t' (rn_id r))"
      using path nonterm by (simp add: recap_later_def ch r(2) subset_insertI)
    show "run_inv rx k (recap_inbox t) (settled_row s r) (children_of t' (rn_id r))"
      using run ok att res facts same_identity_parts(1,2) [OF settled_row_simps(2) [of s r]]
      by (simp add: run_inv_def r(2)) (simp add: ch)
  qed (use p r in \<open>auto simp: t' ch [unfolded t'] settled_children [OF x(1)]\<close>)
qed

lemma settles_step:
  assumes inv: "recap_inv rx k t" and r: "r \<in> set (recap_runs t)" "rn_id r = run" and s: "settles run s r t t'"
    and kind: "tl_terminal s = RecapFailed \<and> tl_subject s = failed_subject \<and>
        rn_state r \<notin> {RecapPersisted, RecapCompleted, RecapFailed} \<or>
      tl_terminal s = RecapCompleted \<and> tl_subject s = completed_subject \<and> rn_state r = RecapPersisted \<and>
        (\<forall>o' \<in> set (recap_results t). rs_run o' = run \<longrightarrow> announces rx (tl_payload s) o')"
  shows "recap_inv rx k t' \<and> recap_after t t'"
  using s unfolding settles_def linkage_of_payload
proof (elim exE conjE)
  fix p x
  assume "p r" and only: "\<forall>y. p y \<longrightarrow> rn_id y = run"
    and "ro_run x = run" "ro_subject x = tl_subject s" "ro_payload x = tl_payload s"
    "recap_run_ok (settled_row s r)" "payload_linked r (tl_payload s)"
    "t' = t\<lparr>recap_runs := update_where p (settled_row s) (recap_runs t), recap_outbox := recap_outbox t @ [x]\<rparr>"
  note s = this
  show ?thesis
    by (rule settle_step [of rx k t r run p x s t', OF inv r s(1) spec [OF s(2), THEN mp] s(3-8) kind])
qed

lemma settle_failed_sound:
  assumes "expected \<noteq> RecapPersisted"
  shows "evolves (recap_inv rx k) recap_after (settle_failed rx' run expected fct)"
proof -
  have body: "evolves (recap_inv rx k) recap_after (transact run_query (settle_body run expected s))"
    if "tl_terminal s = RecapFailed" "tl_subject s = failed_subject" "expected \<noteq> RecapCompleted" "expected \<noteq> RecapFailed" for s
  proof (rule recaps.transaction)
    fix w x w' assume inv: "recap_inv rx k (tables w)" and run: "settle_body run expected s w = (Inr x, w')"
    obtain r where "r \<in> set (recap_runs (tables w))" "rn_id r = run" "rn_state r = expected"
        "settles run s r (tables w) (tables w')"
      using settle_body_Inr [OF run] .
    then show "recap_inv rx k (tables w') \<and> recap_after (tables w) (tables w')"
      using settles_step [OF inv] assms that by simp
  qed
  show ?thesis
    unfolding settle_failed_def settle_def
    by (intro recaps.rules; (simp split: option.split, intro allI impI conjI)?;
        (intro recaps.rules recaps.conditional)?; (rule body)?; simp)
qed

lemma settle_manifest_failure_sound:
  "expected \<noteq> RecapPersisted \<Longrightarrow>
     evolves (recap_inv rx k) recap_after (settle_manifest_failure rx' run expected request code)"
  unfolding settle_manifest_failure_def Let_def by (intro recaps.rules settle_failed_sound)

lemma settle_failure_sound:
  "expected \<noteq> RecapPersisted \<Longrightarrow> evolves (recap_inv rx k) recap_after (settle_failure env run expected code)"
  unfolding settle_failure_def Let_def one_row_def or_recap_encode_def
  by (intro recaps.rules settle_failed_sound; (simp add: recaps.basic split: option.split)?)

text \<open>A completion announces the result of its run, as the database has it.\<close>

lemma find_results_unique:
  assumes "recap_inv rx k t" and "r \<in> set (recap_runs t)" and "result_of_run (rn_id r) t = Some o'"
    and "o'' \<in> set (recap_results t)" and "rs_run o'' = rn_id r"
  shows "o'' = o'"
proof -
  have "o' \<in> set (kid_results (children_of t (rn_id r)))"
    using find_where_SomeD [OF assms(3) [unfolded result_of_run_def]] by (simp add: children_of_def set_select_where)
  moreover have "o'' \<in> set (kid_results (children_of t (rn_id r)))"
    using assms(4,5) by (simp add: children_of_def set_select_where)
  ultimately show ?thesis
    using recap_inv_run [OF assms(1,2)] by (auto simp: run_inv_def results_inv_def split: if_splits)
qed

lemma settle_completed_step:
  assumes inv: "recap_inv rx k (tables w)" and run: "settle_completed rx run RecapPersisted fct w = (r0, w')"
    and res: "\<And>o'. o' \<in> set (recap_results (tables w)) \<Longrightarrow> rs_run o' = run \<Longrightarrow>
      cf_result fct = rs_id o' \<and> cf_result_digest fct = rs_digest o' \<and> cf_coverage fct = rs_coverage o'"
  shows "recap_inv rx k (tables w') \<and> recap_after (tables w) (tables w')"
proof (cases "rx_completed_valid rx fct \<and> rx_encode_completed rx fct \<noteq> None")
  case False
  then have "tables w' = tables w"
    using run by (auto simp: settle_completed_def exec_bind_def exec_guard_apply exec_fail_def split: if_splits option.splits)
  then show ?thesis using inv by simp
next
  case True
  then obtain payload where enc: "rx_encode_completed rx fct = Some payload" by blast
  let ?s = "\<lparr>tl_terminal = RecapCompleted, tl_subject = completed_subject, tl_payload = payload,
      tl_failure = None, tl_result = Some (cf_result fct)\<rparr>"
  have tr: "transact run_query (settle_body run RecapPersisted ?s) w = (r0, w')"
    using run True enc by (simp add: settle_completed_def exec_bind_def exec_guard_apply settle_def)
  consider "tables w' = tables w"
    | x w1 where "settle_body run RecapPersisted ?s (tick w) = (Inr x, w1)" "tables w' = tables w1"
    using transact_tables [OF tr] by blast
  then show ?thesis
  proof cases
    case 1
    then show ?thesis using inv by simp
  next
    case (2 x w1)
    note body = this(1) and t = this(2)
    obtain r where r: "r \<in> set (recap_runs (tables w))" "rn_id r = run" "rn_state r = RecapPersisted"
        "settles run ?s r (tables w) (tables w1)"
      using settle_body_Inr [OF body] by auto
    have "\<forall>o' \<in> set (recap_results (tables w)). rs_run o' = run \<longrightarrow> announces rx payload o'"
      using res enc by (auto simp: announces_def)
    then show ?thesis using settles_step [OF inv r(1,2,4)] r(3) t by simp
  qed
qed

lemma completion_row_Some:
  "completion_row run t = Some (c, o') \<Longrightarrow>
     \<exists>r \<in> set (recap_runs t). rn_id r = run \<and> rn_state r = RecapPersisted \<and> result_of_run run t = Some o'"
  unfolding completion_row_def by (auto split: option.splits dest!: recap_in_state_Some)

lemma settle_completion_sound:
  "evolves (recap_inv (rv_contracts env) k) recap_after (settle_completion env run)"
proof (rule evolvesI)
  fix w r0 w' assume inv: "recap_inv (rv_contracts env) k (tables w)" and run: "settle_completion env run w = (r0, w')"
  let ?rx = "rv_contracts env"
  obtain found w1 where q: "query recap_query (completion_row run) w = (found, w1)" by fastforce
  have t1: "tables w1 = tables w" using query_cases [OF q] by auto
  show "recap_inv ?rx k (tables w') \<and> recap_after (tables w) (tables w')"
  proof (cases "\<exists>c o' request. found = Inr (Some (c, o')) \<and> rx_decode_request ?rx (ci_payload c) = Some request \<and>
      rx_completed_reads ?rx (completed_fact_of request o' (now w1))")
    case False
    then have "tables w' = tables w"
      using run q t1 by (auto simp: settle_completion_def exec_bind_def one_row_def or_recap_encode_def Let_def
          get_now_def exec_guard_apply exec_fail_def exec_return_def split: sum.splits option.splits prod.splits if_splits)
    then show ?thesis using inv by simp
  next
    case True
    then obtain c o' request where found: "found = Inr (Some (c, o'))" and dec: "rx_decode_request ?rx (ci_payload c) = Some request"
      and reads: "rx_completed_reads ?rx (completed_fact_of request o' (now w1))" by blast
    let ?f = "completed_fact_of request o' (now w1)"
    obtain r1 where st: "settle_completed ?rx run RecapPersisted ?f w1 = (r1, w')"
      using run q found dec reads
      by (auto simp: settle_completion_def exec_bind_def one_row_def or_recap_encode_def Let_def get_now_def
          exec_guard_apply exec_return_def exec_map_err_def split: sum.splits prod.splits)
    have "completion_row run (tables w) = Some (c, o')" using query_cases [OF q] found by simp
    then obtain r where r: "r \<in> set (recap_runs (tables w))" "rn_id r = run" "result_of_run run (tables w) = Some o'"
      using completion_row_Some by blast
    have "o'' = o'" if "o'' \<in> set (recap_results (tables w))" "rs_run o'' = run" for o''
      using find_results_unique [OF inv r(1)] r(2,3) that by simp
    then have "cf_result ?f = rs_id o'' \<and> cf_result_digest ?f = rs_digest o'' \<and> cf_coverage ?f = rs_coverage o''"
      if "o'' \<in> set (recap_results (tables w1))" "rs_run o'' = run" for o''
      using that by (simp add: t1 completed_fact_of_def)
    then show ?thesis using settle_completed_step [OF _ st] inv t1 by metis
  qed
qed

section \<open>Attempts\<close>

text \<open>An update of attempts that keeps their keys, their checks and every stored answer.\<close>

definition answers_kept :: "(recap_attempt_row \<Rightarrow> bool) \<Rightarrow> (recap_attempt_row \<Rightarrow> recap_attempt_row) \<Rightarrow> bool" where
  "answers_kept p f = (\<forall>a. p a \<longrightarrow> ra_run (f a) = ra_run a \<and> ra_ordinal (f a) = ra_ordinal a \<and>
     (answered_attempt a \<longrightarrow> answered_attempt (f a)) \<and>
     ((ra_outcome a \<in> {AttemptResponseReceived, AttemptInvalid, AttemptAccepted} \<longrightarrow> ra_raw a \<noteq> None) \<longrightarrow>
      (ra_outcome (f a) \<in> {AttemptResponseReceived, AttemptInvalid, AttemptAccepted} \<longrightarrow> ra_raw (f a) \<noteq> None)))"

lemma attempts_inv_update:
  assumes "attempts_inv r as" and kept: "answers_kept p f"
    and ok: "list_all (\<lambda>a. p a \<longrightarrow> recap_attempt_ok (f a)) as"
  shows "attempts_inv r (update_where p f as)"
proof -
  have ords: "map ra_ordinal (update_where p f as) = map ra_ordinal as"
    using kept by (intro map_update_where) (simp add: answers_kept_def)
  have ex: "list_ex P (update_where p f as) \<longleftrightarrow> (\<exists>a \<in> set as. P (if p a then f a else a))" for P
    by (auto simp: update_where_def list_ex_iff)
  have all: "list_all P (update_where p f as) \<longleftrightarrow> (\<forall>a \<in> set as. P (if p a then f a else a))" for P
    by (auto simp: update_where_def list_all_iff)
  show ?thesis
    using assms(1) kept ok unfolding attempts_inv_def ords ex all
    by (auto simp: list_all_iff list_ex_iff answers_kept_def)
qed

lemma children_update_attempts:
  assumes "answers_kept p f"
  shows "children_of (t\<lparr>recap_attempts := update_where p f (recap_attempts t)\<rparr>) i =
    (children_of t i)\<lparr>kid_attempts := update_where p f (kid_attempts (children_of t i))\<rparr>"
  using assms by (simp add: children_of_def answers_kept_def select_update_where)

lemma update_where_other: "(\<And>a. p a \<Longrightarrow> ra_run a = run) \<Longrightarrow> i \<noteq> run \<Longrightarrow>
    update_where p f (kid_attempts (children_of t i)) = kid_attempts (children_of t i)"
  by (rule update_where_none) (auto simp: children_of_def set_select_where)

lemma length_update_where [simp]: "length (update_where p f xs) = length xs"
  by (simp add: update_where_def)

lemma kid_attempts_apart [simp]:
  "results_inv rx k r (ch\<lparr>kid_attempts := as\<rparr>) = results_inv rx k r ch"
  "facts_inv rx r (ch\<lparr>kid_attempts := as\<rparr>) = facts_inv rx r ch"
  by (simp_all add: results_inv_def facts_inv_def)

lemma update_recap_attempt_sound:
  assumes "answers_kept p f" and "\<And>a. p a \<Longrightarrow> ra_run a = run"
  shows "evolves (recap_inv rx k) recap_after (update_recap_attempt p f)"
  unfolding update_recap_attempt_def
proof (rule recaps.statement)
  fix t x t' assume inv: "recap_inv rx k t"
    and "(if list_all (\<lambda>a. p a \<longrightarrow> recap_attempt_ok (f a)) (recap_attempts t)
          then Inr (count_where p (recap_attempts t), t\<lparr>recap_attempts := update_where p f (recap_attempts t)\<rparr>)
          else Inl recap_query) = Inr (x, t')"
  then have ok: "list_all (\<lambda>a. p a \<longrightarrow> recap_attempt_ok (f a)) (recap_attempts t)"
    and t': "t' = t\<lparr>recap_attempts := update_where p f (recap_attempts t)\<rparr>" by (auto split: if_splits)
  show "recap_inv rx k t' \<and> recap_after t t'"
  proof (cases "\<exists>r \<in> set (recap_runs t). rn_id r = run")
    case False
    have "refers ra_run (recap_attempts t) rn_id (recap_runs t)" using inv by (simp add: recap_inv_def recap_fk_def)
    then have "\<forall>a \<in> set (recap_attempts t). \<not> p a" using False assms(2) by (fastforce simp: refers_iff)
    then show ?thesis using inv t' by (simp add: update_where_none)
  next
    case True
    then obtain r where r: "r \<in> set (recap_runs t)" "rn_id r = run" by blast
    let ?ch = "children_of t run"
    have ch: "children_of t' i = (if i = run then ?ch\<lparr>kid_attempts := update_where p f (kid_attempts ?ch)\<rparr> else children_of t i)" for i
      unfolding t' children_update_attempts [OF assms(1)] using update_where_other [of p run i f t] assms(2) by simp
    have okc: "list_all (\<lambda>a. p a \<longrightarrow> recap_attempt_ok (f a)) (kid_attempts ?ch)"
      using ok by (auto simp: list_all_iff children_of_def set_select_where)
    have run: "run_inv rx k (recap_inbox t) r ?ch" using recap_inv_run [OF inv r(1)] r(2) by simp
    then have "attempts_inv r (update_where p f (kid_attempts ?ch))"
      by (intro attempts_inv_update [OF _ assms(1) okc]) (simp add: run_inv_def)
    then have "run_inv rx k (recap_inbox t) r (children_of t' run)"
      using run by (simp add: ch run_inv_def)
    then show ?thesis
      by (intro children_step [OF inv r(1)]) (simp_all add: ch r(2), simp_all add: t' recap_later_def)
  qed
qed

lemma record_attempt_failure_sound:
  "evolves (recap_inv rx k) recap_after (record_attempt_failure run ordinal transient failure duration)"
  unfolding record_attempt_failure_def
  by (intro recaps.rules update_recap_attempt_sound [where run = run])
    (auto simp: answers_kept_def attempt_is_def answered_attempt_def)

lemma move_recap_sound:
  "plain_move expected next \<Longrightarrow> expected \<noteq> RecapReceived \<Longrightarrow> evolves (recap_inv rx k) recap_after (move_recap run expected next)"
  unfolding move_recap_def
  by (intro recaps.rules update_recap_run_sound [where run = run])
    (simp add: in_state_def, (rule plain_move_run; simp add: in_state_def))

lemma recap_transition_sound:
  assumes "next \<noteq> RecapResponseReceived" and "next \<noteq> RecapPersisted"
  shows "evolves (recap_inv rx k) recap_after (recap_transition run expected next)"
proof (cases "allowed_recap_transition expected next")
  case True
  then show ?thesis
    unfolding recap_transition_def
    by (intro recaps.rules update_recap_run_sound [where run = run])
      (simp add: in_state_def, (rule plain_move_run;
       use True assms in \<open>simp add: in_state_def plain_move_def del: allowed_recap_transition.simps\<close>))
next
  case False
  then show ?thesis
    unfolding recap_transition_def
    by (intro recaps.still) (simp add: exec_bind_def exec_guard_apply del: allowed_recap_transition.simps)
qed

lemma handle_invalid_attempt_sound:
  "evolves (recap_inv rx k) recap_after (handle_invalid_attempt env run ordinal code)"
  unfolding handle_invalid_attempt_def
  by (intro recaps.rules recaps.conditional update_recap_attempt_sound [where run = run] move_recap_sound settle_failure_sound)
    (auto simp: answers_kept_def attempt_is_def answered_attempt_def plain_move_def)

end
