(* ===== verification/Recap_Transactions.thy ===== *)
theory Recap_Transactions
  imports Recap_Sound
begin

text \<open>
  The transactions that add evidence to a run: accepting its manifest, starting an attempt, storing a
  response, persisting a result; and the admission of a command, which adds a run.
\<close>

section \<open>The manifest\<close>

lemma schedule_manifest_retry_sound:
  "expected \<in> {RecapReceived, RecapManifestRetry} \<Longrightarrow>
     evolves (recap_inv rx k) recap_after (schedule_manifest_retry run expected attempts delay)"
  unfolding schedule_manifest_retry_def
proof (intro recaps.rules update_recap_run_sound [where run = run])
  fix at r ch cs
  assume st: "expected \<in> {RecapReceived, RecapManifestRetry}"
    and p: "in_state run expected r \<and> rn_manifest_attempts r = attempts \<and> rn_manifest_attempts r < 1"
    and ok: "recap_run_ok (r\<lparr>rn_state := RecapManifestRetry, rn_manifest_attempts := rn_manifest_attempts r + 1,
          rn_retry_not_before := Some (at + 1000 * int (min delay (2 ^ 63 - 1)))\<rparr>)" (is "recap_run_ok ?r")
    and run: "run_inv rx k cs r ch"
  have ident: "run_identity_columns ?r = run_identity_columns r" by (simp add: run_identity_columns_def)
  show "run_inv rx k cs ?r ch \<and> recap_later r ch ?r ch"
  proof (cases "expected = RecapReceived")
    case True
    then show ?thesis
      by (intro plain_move_run [OF _ ident _ ok run]) (use p in \<open>simp_all add: plain_move_def in_state_def\<close>)
  next
    case False
    then have "rn_state r = RecapManifestRetry" using st p by (simp add: in_state_def)
    then show ?thesis by (intro same_state_run [OF _ _ ident _ ok run]) simp_all
  qed
qed (simp add: in_state_def)

lemma insert_manifest_Inr:
  assumes "insert_manifest m w = (Inr 1, w')"
  shows "tables w' = (tables w)\<lparr>recap_manifests := recap_manifests (tables w) @ [m]\<rparr> \<and> recap_manifest_ok m"
  using sql_Inr [OF assms [unfolded insert_manifest_def]] by (auto simp: Let_def split: if_splits)

lemma manifest_children:
  "rm_run m = run \<Longrightarrow> children_of (t\<lparr>recap_runs := u, recap_manifests := recap_manifests t @ [m]\<rparr>) i =
    (if i = run then (children_of t run)\<lparr>kid_manifests := kid_manifests (children_of t run) @ [m]\<rparr> else children_of t i)"
  by (simp add: children_of_def select_where_def)

lemma grounded_result_mono:
  "grounded_result rx k r ms o' \<Longrightarrow> set ms \<subseteq> set ms' \<Longrightarrow> grounded_result rx k r ms' o'"
  unfolding grounded_result_def by blast

lemma manifest_step:
  assumes inv: "recap_inv rx k t" and r: "r \<in> set (recap_runs t)" "rn_id r = run" "rn_state r = expected"
    and st: "expected \<in> {RecapReceived, RecapManifestRetry}" and m: "rm_run m = run" "manifest_of_row r m"
    and ok: "recap_run_ok (r\<lparr>rn_state := RecapManifestVerified, rn_retry_not_before := None\<rparr>)"
    and t': "t' = t\<lparr>recap_runs := update_where (in_state run expected)
        (\<lambda>r. r\<lparr>rn_state := RecapManifestVerified, rn_retry_not_before := None\<rparr>) (recap_runs t),
      recap_manifests := recap_manifests t @ [m]\<rparr>"
  shows "recap_inv rx k t' \<and> recap_after t t'"
proof -
  let ?f = "\<lambda>r. r\<lparr>rn_state := RecapManifestVerified, rn_retry_not_before := None\<rparr>" and ?ch = "children_of t run"
  have ch: "children_of t' i = (if i = run then ?ch\<lparr>kid_manifests := kid_manifests ?ch @ [m]\<rparr> else children_of t i)" for i
    unfolding t' by (rule manifest_children [where m = m, OF m(1)])
  have ident: "run_identity_columns (?f r) = run_identity_columns r" by (simp add: run_identity_columns_def)
  have run: "run_inv rx k (recap_inbox t) r ?ch" using recap_inv_run [OF inv r(1)] r(2) by simp
  have moved: "run_inv rx k (recap_inbox t) (?f r) ?ch \<and> recap_later r ?ch (?f r) ?ch"
    by (rule plain_move_run [OF _ ident _ ok run]) (use st r(3) in \<open>auto simp: plain_move_def\<close>)
  show ?thesis
  proof (rule run_step [OF inv r(1), where p = "in_state run expected" and f = ?f])
    show "recap_later r (children_of t (rn_id r)) (?f r) (children_of t' (rn_id r))"
      using moved by (auto simp: recap_later_def ch r(2))
    show "run_inv rx k (recap_inbox t) (?f r) (children_of t' (rn_id r))"
      using moved m(2) same_identity_parts(2) [OF ident]
      by (simp add: run_inv_def ch r(2) results_inv_def facts_inv_def)
  qed (use r in \<open>auto simp: t' in_state_def ch [unfolded t']\<close>)
qed

lemma accept_manifest_body_sound:
  assumes inv: "recap_inv rx k (tables w)" and st: "expected \<in> {RecapReceived, RecapManifestRetry}"
    and run: "accept_manifest_body rx' run expected v w = (Inr u, w')"
  shows "recap_inv rx k (tables w') \<and> recap_after (tables w) (tables w')"
proof -
  let ?f = "\<lambda>r. r\<lparr>rn_state := RecapManifestVerified, rn_retry_not_before := None\<rparr>"
  obtain lk w1 where 1: "query run_query (recap_in_state run expected) w = (Inr lk, w1)"
    and rest: "(case lk of
       None \<Rightarrow> exec_fail StateConflict
     | Some linked \<Rightarrow>
         exec_bind (exec_guard (mf_owner (vm_manifest v) = rn_owner linked \<and>
           mf_digest_run (vm_manifest v) = rn_digest_run linked \<and> vm_digest v = rn_manifest_digest linked)
           InconsistentFact) (\<lambda>_.
         case rx_encode_manifest rx' (vm_manifest v) of
           None \<Rightarrow> exec_fail RunEncode
         | Some j \<Rightarrow>
             exec_bind (insert_manifest (manifest_row linked v j)) (\<lambda>inserted.
             exec_bind (exec_guard (inserted = 1) StateConflict) (\<lambda>_.
             exec_bind (update_recap_run run_query (in_state run expected) ?f) (\<lambda>n.
             exec_guard (n = 1) StateConflict))))) w1 = (Inr u, w')"
    using run unfolding accept_manifest_body_def by (elim exec_bind_InrE)
  from query_Inr [OF 1] have t1: "tables w1 = tables w" and lk: "lk = recap_in_state run expected (tables w)" by auto
  obtain r where lkr: "lk = Some r" using rest by (cases lk) (auto simp: exec_fail_def)
  have r: "r \<in> set (recap_runs (tables w))" "rn_id r = run" "rn_state r = expected"
    using recap_in_state_Some lk lkr by auto
  obtain j w2 n w3 w4 n' w5
    where g1: "exec_guard (mf_owner (vm_manifest v) = rn_owner r \<and>
        mf_digest_run (vm_manifest v) = rn_digest_run r \<and> vm_digest v = rn_manifest_digest r) InconsistentFact w1 = (Inr (), w2)"
      and ins: "insert_manifest (manifest_row r v j) w2 = (Inr n, w3)"
      and g2: "exec_guard (n = 1) StateConflict w3 = (Inr (), w4)"
      and up: "update_recap_run run_query (in_state run expected) ?f w4 = (Inr n', w5)"
      and g3: "exec_guard (n' = 1) StateConflict w5 = (Inr u, w')"
    using rest unfolding lkr option.case
    by (elim exec_bind_InrE) (auto simp: exec_fail_def split: option.splits elim!: exec_bind_InrE)
  let ?m = "manifest_row r v j"
  have m: "tables w4 = (tables w)\<lparr>recap_manifests := recap_manifests (tables w) @ [?m]\<rparr>" "recap_manifest_ok ?m"
    using insert_manifest_Inr [of ?m w2 w3] ins g1 g2 t1 by (auto simp: exec_guard_Inr)
  from update_recap_run_Inr [OF up] have t': "tables w' = (tables w)\<lparr>recap_runs :=
      update_where (in_state run expected) ?f (recap_runs (tables w)),
      recap_manifests := recap_manifests (tables w) @ [?m]\<rparr>"
    and "list_all (\<lambda>r. in_state run expected r \<longrightarrow> recap_run_ok (?f r)) (recap_runs (tables w))"
    using g3 by (auto simp: exec_guard_Inr m(1))
  then have ok: "recap_run_ok (?f r)" using r by (auto simp: list_all_iff in_state_def)
  have link: "rm_run ?m = run" "manifest_of_row r ?m"
    using m(2) r(2) g1 by (simp_all add: manifest_row_def manifest_of_row_def exec_guard_Inr)
  show ?thesis by (rule manifest_step [OF inv r st link ok t'])
qed

lemma accept_verified_manifest_sound:
  "evolves (recap_inv rx k) recap_after (accept_verified_manifest rx' run expected v)"
proof (cases "expected \<in> {RecapReceived, RecapManifestRetry}")
  case True
  then show ?thesis
    unfolding accept_verified_manifest_def
    by (simp del: insert_iff) (rule recaps.transaction, rule accept_manifest_body_sound)
qed (simp add: accept_verified_manifest_def recaps.basic)

section \<open>Starting an attempt\<close>

lemma insert_attempt_row_Inr:
  "insert_attempt_row x w = (Inr u, w') \<Longrightarrow>
     tables w' = (tables w)\<lparr>recap_attempts := recap_attempts (tables w) @ [x]\<rparr> \<and> recap_attempt_ok x \<and>
     (\<forall>a \<in> set (recap_attempts (tables w)). ra_run a = ra_run x \<longrightarrow> ra_ordinal a \<noteq> ra_ordinal x)"
  unfolding insert_attempt_row_def by (drule sql_Inr) (auto simp: Let_def exists_where_iff split: if_splits)

lemma attempt_children:
  "ra_run x = run \<Longrightarrow> children_of (t\<lparr>recap_runs := u, recap_attempts := recap_attempts t @ [x]\<rparr>) i =
    (if i = run then (children_of t run)\<lparr>kid_attempts := kid_attempts (children_of t run) @ [x]\<rparr> else children_of t i)"
  by (simp add: children_of_def select_where_def)

lemma attempts_inv_append:
  assumes "attempts_inv r as" and "rn_state r = RecapModelRequested" and "rn_attempts r < ra_ordinal x"
    and "recap_attempt_ok x" and "ra_outcome x = AttemptRequested"
  shows "attempts_inv (r\<lparr>rn_attempts := ra_ordinal x\<rparr>) (as @ [x])"
  using assms unfolding attempts_inv_def by (auto simp: list_all_iff list_ex_iff)

lemma insert_attempt_body_sound:
  assumes inv: "recap_inv rx k (tables w)" and run: "insert_attempt_body env run ordinal reason w = (Inr u, w')"
  shows "recap_inv rx k (tables w') \<and> recap_after (tables w) (tables w') \<and>
    (\<forall>r \<in> set (recap_runs (tables w')). rn_id r = run \<longrightarrow> rn_attempts r = ordinal) \<and>
    length (recap_attempts (tables w')) = length (recap_attempts (tables w)) + 1"
proof -
  let ?p = "\<lambda>r. in_state run RecapModelRequested r \<and> rn_attempts r < ordinal" and ?f = "\<lambda>r. r\<lparr>rn_attempts := ordinal\<rparr>"
  let ?x = "requested_attempt env run ordinal reason" and ?t = "tables w" and ?ch = "children_of (tables w) run"
  obtain w1 n w2 where ins: "insert_attempt_row ?x w = (Inr (), w1)"
    and up: "update_recap_run recap_query ?p ?f w1 = (Inr n, w2)" and g: "exec_guard (n = 1) RecapState w2 = (Inr u, w')"
    using run unfolding insert_attempt_body_def by (elim exec_bind_InrE) simp
  note x = insert_attempt_row_Inr [OF ins]
  have xs: "ra_run ?x = run" "ra_ordinal ?x = ordinal" "ra_outcome ?x = AttemptRequested"
    by (simp_all add: requested_attempt_def)
  from update_recap_run_Inr [OF up] x g
  have t': "tables w' = ?t\<lparr>recap_runs := update_where ?p ?f (recap_runs ?t), recap_attempts := recap_attempts ?t @ [?x]\<rparr>"
    and one: "count_where ?p (recap_runs ?t) = 1" and ok: "list_all (\<lambda>r. ?p r \<longrightarrow> recap_run_ok (?f r)) (recap_runs ?t)"
    by (auto simp: exec_guard_Inr)
  obtain r where r: "r \<in> set (recap_runs ?t)" "?p r"
    using one count_where_0 [of ?p "recap_runs ?t"] by force
  then have rid: "rn_id r = run" "rn_state r = RecapModelRequested" by (simp_all add: in_state_def)
  have ch: "children_of (tables w') i = (if i = run then ?ch\<lparr>kid_attempts := kid_attempts ?ch @ [?x]\<rparr> else children_of ?t i)" for i
    unfolding t' by (rule attempt_children [OF xs(1)])
  have inv_r: "run_inv rx k (recap_inbox ?t) r ?ch" using recap_inv_run [OF inv r(1)] rid by simp
  then have "attempts_inv (r\<lparr>rn_attempts := ra_ordinal ?x\<rparr>) (kid_attempts ?ch @ [?x])"
    by (intro attempts_inv_append) (use r(2) rid x xs in \<open>auto simp: run_inv_def\<close>)
  then have att: "attempts_inv (?f r) (kid_attempts ?ch @ [?x])" by (simp add: xs)
  have step: "recap_inv rx k (tables w') \<and> recap_after ?t (tables w')"
  proof (rule run_step [OF inv r(1), where p = ?p and f = ?f])
    show "recap_later r (children_of ?t (rn_id r)) (?f r) (children_of (tables w') (rn_id r))"
      using r(2) rid by (simp add: recap_later_def ch)
    have "recap_run_ok (?f r)" using ok r by (simp add: list_all_iff)
    then show "run_inv rx k (recap_inbox ?t) (?f r) (children_of (tables w') (rn_id r))"
      using inv_r att rid same_identity_parts [of "?f r" r]
      by (simp add: run_inv_def ch results_inv_def facts_inv_def)
    show "children_of (tables w') i = children_of ?t i" if "i \<noteq> rn_id r" for i
      using that rid by (simp add: ch)
  qed (use r rid in \<open>auto simp: t' in_state_def\<close>)
  have "rn_attempts y = ordinal" if y: "y \<in> set (recap_runs (tables w'))" "rn_id y = run" for y
  proof -
    have "y \<in> (\<lambda>z. if ?p z then ?f z else z) ` set (recap_runs ?t)" using y(1) unfolding t' by (simp add: set_update_where)
    then obtain z where z: "y = (if ?p z then ?f z else z)" "z \<in> set (recap_runs ?t)" by (rule imageE)
    have "rn_id z = run" using z(1) y(2) by (simp split: if_splits)
    then have "z = r" using recap_inv_unique [OF inv r(1) z(2)] rid by simp
    then show ?thesis using z(1) r(2) by simp
  qed
  then show ?thesis using step by (simp add: t')
qed

lemma insert_recap_attempt_sound:
  "evolves (recap_inv rx k) recap_after (insert_recap_attempt env run ordinal reason)"
  unfolding insert_recap_attempt_def by (rule recaps.transaction) (use insert_attempt_body_sound in blast)

section \<open>Storing a response\<close>

lemma update_recap_attempt_Inr:
  "update_recap_attempt p f w = (Inr n, w') \<Longrightarrow> n = count_where p (recap_attempts (tables w)) \<and>
     tables w' = (tables w)\<lparr>recap_attempts := update_where p f (recap_attempts (tables w))\<rparr> \<and>
     list_all (\<lambda>a. p a \<longrightarrow> recap_attempt_ok (f a)) (recap_attempts (tables w))"
  unfolding update_recap_attempt_def by (drule sql_Inr) (auto split: if_splits)

lemma response_kept: "answers_kept (attempt_is run ordinal AttemptRequested) (response_row raw response duration)"
  by (simp add: answers_kept_def response_row_def attempt_is_def answered_attempt_def)

text \<open>The step of a response: the attempt has its answer, and the run moves on.\<close>

lemma attempts_inv_answered:
  assumes "attempts_inv r as" and "rn_state r = RecapModelRequested" and "rn_attempts r = ordinal"
    and "list_all (\<lambda>a. attempt_is run ordinal AttemptRequested a \<longrightarrow>
      recap_attempt_ok (response_row raw response duration a)) as"
    and "a \<in> set as" "attempt_is run ordinal AttemptRequested a"
  shows "attempts_inv (r\<lparr>rn_state := RecapResponseReceived\<rparr>)
    (update_where (attempt_is run ordinal AttemptRequested) (response_row raw response duration) as)"
proof -
  let ?as = "update_where (attempt_is run ordinal AttemptRequested) (response_row raw response duration) as"
  have 1: "attempts_inv r ?as" by (rule attempts_inv_update [OF assms(1) response_kept assms(4)])
  have "response_row raw response duration a \<in> set ?as"
    using assms(5,6) by (auto simp: set_update_where image_iff)
  moreover have "ra_ordinal (response_row raw response duration a) = ordinal"
      "answered_attempt (response_row raw response duration a)"
    using assms(6) by (simp_all add: response_row_def attempt_is_def answered_attempt_def)
  ultimately have "list_ex (\<lambda>a. ra_ordinal a = rn_attempts r \<and> answered_attempt a) ?as"
    using assms(3) by (auto simp: list_ex_iff)
  then show ?thesis using 1 assms(2) by (simp add: attempts_inv_def)
qed

lemma update_children:
  assumes "answers_kept p f" and "\<And>a. p a \<Longrightarrow> ra_run a = run"
  shows "children_of (t\<lparr>recap_runs := u, recap_attempts := update_where p f (recap_attempts t)\<rparr>) i =
    (if i = run then (children_of t run)\<lparr>kid_attempts := update_where p f (kid_attempts (children_of t run))\<rparr>
     else children_of t i)"
proof -
  have "children_of (t\<lparr>recap_runs := u, recap_attempts := update_where p f (recap_attempts t)\<rparr>) i =
      children_of (t\<lparr>recap_attempts := update_where p f (recap_attempts t)\<rparr>) i"
    by (simp add: children_of_def)
  then show ?thesis
    using update_where_other [of p run i f t] assms(2) by (simp add: children_update_attempts [OF assms(1)])
qed

lemma raw_response_body_sound:
  assumes inv: "recap_inv rx k (tables w)" and run: "raw_response_body run ordinal raw response duration w = (Inr u, w')"
    and spent: "\<And>r. r \<in> set (recap_runs (tables w)) \<Longrightarrow> rn_id r = run \<Longrightarrow> rn_attempts r = ordinal"
  shows "recap_inv rx k (tables w') \<and> recap_after (tables w) (tables w')"
proof -
  let ?q = "attempt_is run ordinal AttemptRequested" and ?g = "response_row raw response duration"
  let ?p = "in_state run RecapModelRequested" and ?f = "\<lambda>r. r\<lparr>rn_state := RecapResponseReceived\<rparr>"
  let ?t = "tables w" and ?ch = "children_of (tables w) run"
  obtain n w1 w2 n' w3 where ua: "update_recap_attempt ?q ?g w = (Inr n, w1)" and g1: "exec_guard (n = 1) RecapState w1 = (Inr (), w2)"
    and ur: "update_recap_run recap_query ?p ?f w2 = (Inr n', w3)" and g2: "exec_guard (n' = 1) RecapState w3 = (Inr u, w')"
    using run unfolding raw_response_body_def by (elim exec_bind_InrE) simp
  from update_recap_attempt_Inr [OF ua] update_recap_run_Inr [OF ur] g1 g2
  have t': "tables w' = ?t\<lparr>recap_runs := update_where ?p ?f (recap_runs ?t), recap_attempts := update_where ?q ?g (recap_attempts ?t)\<rparr>"
    and one: "count_where ?q (recap_attempts ?t) = 1" "count_where ?p (recap_runs ?t) = 1"
    and ok: "list_all (\<lambda>a. ?q a \<longrightarrow> recap_attempt_ok (?g a)) (recap_attempts ?t)"
      "list_all (\<lambda>r. ?p r \<longrightarrow> recap_run_ok (?f r)) (recap_runs ?t)"
    by (auto simp: exec_guard_Inr)
  obtain r a where r: "r \<in> set (recap_runs ?t)" "?p r" and a: "a \<in> set (recap_attempts ?t)" "?q a"
    using one count_where_0 [of ?p "recap_runs ?t"] count_where_0 [of ?q "recap_attempts ?t"] by force
  have rid: "rn_id r = run" "rn_state r = RecapModelRequested" using r(2) by (simp_all add: in_state_def)
  have ch: "children_of (tables w') i = (if i = run then ?ch\<lparr>kid_attempts := update_where ?q ?g (kid_attempts ?ch)\<rparr> else children_of ?t i)" for i
    unfolding t' by (rule update_children [OF response_kept]) (simp add: attempt_is_def)
  have inv_r: "run_inv rx k (recap_inbox ?t) r ?ch" using recap_inv_run [OF inv r(1)] rid by simp
  have "a \<in> set (kid_attempts ?ch)" using a by (simp add: children_of_def set_select_where attempt_is_def)
  moreover have "list_all (\<lambda>a. ?q a \<longrightarrow> recap_attempt_ok (?g a)) (kid_attempts ?ch)"
    using ok(1) by (simp add: list_all_iff children_of_def set_select_where)
  ultimately have att: "attempts_inv (?f r) (update_where ?q ?g (kid_attempts ?ch))"
    by (intro attempts_inv_answered [where a = a]) (use inv_r rid spent r a in \<open>simp_all add: run_inv_def\<close>)
  show ?thesis
  proof (rule run_step [OF inv r(1), where p = ?p and f = ?f])
    have "recap_edge\<^sup>*\<^sup>* (rn_state r) RecapResponseReceived"
      by (intro r_into_rtranclp) (simp add: recap_edge_def rid)
    then show "recap_later r (children_of ?t (rn_id r)) (?f r) (children_of (tables w') (rn_id r))"
      using rid by (simp add: recap_later_def ch)
    have "recap_run_ok (?f r)" using ok r by (simp add: list_all_iff)
    then show "run_inv rx k (recap_inbox ?t) (?f r) (children_of (tables w') (rn_id r))"
      using inv_r att rid same_identity_parts [of "?f r" r]
      by (simp add: run_inv_def ch results_inv_def facts_inv_def)
    show "children_of (tables w') i = children_of ?t i" if "i \<noteq> rn_id r" for i
      using that rid by (simp add: ch)
  qed (use r rid in \<open>auto simp: t' in_state_def\<close>)
qed

lemma record_raw_response_sound:
  assumes inv: "recap_inv rx k (tables w)" and run: "record_raw_response env run ordinal response duration w = (r0, w')"
    and spent: "\<And>r. r \<in> set (recap_runs (tables w)) \<Longrightarrow> rn_id r = run \<Longrightarrow> rn_attempts r = ordinal"
  shows "recap_inv rx k (tables w') \<and> recap_after (tables w) (tables w')"
proof -
  let ?store = "dv_store (rv_driver env)"
  let ?m = "\<lambda>raw. exec_bind (exec_map_err RecapPersistence (lock_and_verify ?store raw (Some (resp_bytes response))))
      (\<lambda>_. raw_response_body run ordinal raw response duration)"
  obtain s w1 where st: "store_raw ?store (resp_bytes response) w = (s, w1)" by fastforce
  have t1: "tables w1 = tables w" using store_raw_result [OF st] by (simp add: grows_def)
  have body: "recap_inv rx k (tables v') \<and> recap_after (tables w) (tables v')"
    if v: "tables v = tables w" and b: "?m raw v = (Inr u, v')" for raw v v' u
  proof -
    obtain u' v1 where lv: "lock_and_verify ?store raw (Some (resp_bytes response)) v = (Inr u', v1)"
      and body: "raw_response_body run ordinal raw response duration v1 = (Inr u, v')"
      using b by (auto elim!: exec_bind_InrE simp: exec_map_err_def split: prod.splits sum.splits)
    have "tables v1 = tables w" using lock_and_verify_result(1) [OF lv] v by (simp add: grows_def)
    then show ?thesis using raw_response_body_sound [OF _ body] inv spent by simp
  qed
  show ?thesis
  proof (cases s)
    case (Inl e)
    then have "tables w' = tables w"
      using run st t1 by (auto simp: record_raw_response_def Let_def exec_bind_def exec_map_err_def)
    then show ?thesis using inv by simp
  next
    case (Inr raw)
    then have tr: "transact recap_query (?m raw) w1 = (r0, w')"
      using run st by (simp add: record_raw_response_def Let_def exec_bind_def exec_map_err_def)
    from transact_tables [OF tr] show ?thesis
      by (elim disjE exE conjE) (use inv t1 body [of "tick w1"] in auto)
  qed
qed

end
