(* ===== verification/Recap_Persist.thy ===== *)
theory Recap_Persist
  imports Recap_Transactions
begin

text \<open>
  Persisting a result that was validated against the manifest of its run, and admitting a command.
\<close>

section \<open>What a response was checked against\<close>

text \<open>The check belongs to the run: its context was prepared from the stored manifest of the run.\<close>

definition checks_run :: "recap_contracts \<Rightarrow> recap_codecs \<Rightarrow> uuid \<Rightarrow> recap_check \<Rightarrow> db \<Rightarrow> bool" where
  "checks_run rx k run chk t =
     (\<exists>r \<in> set (recap_runs t). rn_id r = run \<and> ck_digest chk = rn_manifest_digest r \<and>
        recap_output_language (ck_language chk) = rn_language r \<and>
        (\<exists>m \<in> set (kid_manifests (children_of t run)). \<exists>mf policy. rx_decode_manifest rx (rm_manifest m) = Some mf \<and>
           prepare_channel_recap_context k \<lparr>vm_digest = rn_manifest_digest r, vm_manifest = mf\<rparr> policy = Inr (ck_context chk)))"

lemma checks_run_stable:
  assumes "checks_run rx k run chk t" and "recap_after t t'"
  shows "checks_run rx k run chk t'"
proof -
  obtain r m where r: "r \<in> set (recap_runs t)" "rn_id r = run" and c: "ck_digest chk = rn_manifest_digest r"
      "recap_output_language (ck_language chk) = rn_language r"
    and m: "m \<in> set (kid_manifests (children_of t run))" and p: "\<exists>mf policy. rx_decode_manifest rx (rm_manifest m) = Some mf \<and>
           prepare_channel_recap_context k \<lparr>vm_digest = rn_manifest_digest r, vm_manifest = mf\<rparr> policy = Inr (ck_context chk)"
    using assms(1) unfolding checks_run_def by blast
  obtain r' where r': "r' \<in> set (recap_runs t')" "recap_later r (children_of t (rn_id r)) r' (children_of t' (rn_id r))"
    by (rule recap_after_run [OF assms(2) r(1)])
  have ident: "run_identity_columns r' = run_identity_columns r" using r'(2) by (simp add: recap_later_def)
  have "m \<in> set (kid_manifests (children_of t' run))" using r'(2) m r(2) by (auto simp: recap_later_def)
  then show ?thesis
    unfolding checks_run_def
    by (intro bexI [of _ r'] conjI bexI [of _ m]) (use identity_columns [OF ident] r r' c p in simp_all)
qed

definition validated_by :: "recap_check \<Rightarrow> channel_digest_recap \<Rightarrow> bool" where
  "validated_by chk r = (\<exists>j. validate_channel_recap_model_output j (ck_context chk) (ck_digest chk) (ck_language chk) = Inr r)"

lemma validate_response_Inr: "validate_response env chk content = Inr r \<Longrightarrow> validated_by chk r"
  by (auto simp: validate_response_def validated_by_def split: option.splits sum.splits)

section \<open>Persisting\<close>

definition recap_row :: "recap_codecs \<Rightarrow> uuid \<Rightarrow> uuid \<Rightarrow> channel_digest_recap \<Rightarrow> recap_result_row" where
  "recap_row k i run r = \<lparr>rs_id = i, rs_run = run, rs_result = encode_recap r,
     rs_digest = rk_sha k (rk_bytes k (encode_recap r)), rs_coverage = encode_coverage (cr_coverage r)\<rparr>"

lemma checked_result_grounded:
  assumes "recap_inv rx k t" and "checks_run rx k run chk t" and "validated_by chk recap"
    and "r \<in> set (recap_runs t)" "rn_id r = run"
  shows "grounded_result rx k r (kid_manifests (children_of t run)) (recap_row k i run recap)"
proof -
  obtain r' m mf policy where r': "r' \<in> set (recap_runs t)" "rn_id r' = run" and c: "ck_digest chk = rn_manifest_digest r'"
      "recap_output_language (ck_language chk) = rn_language r'"
    and m: "m \<in> set (kid_manifests (children_of t run))" "rx_decode_manifest rx (rm_manifest m) = Some mf"
      "prepare_channel_recap_context k \<lparr>vm_digest = rn_manifest_digest r', vm_manifest = mf\<rparr> policy = Inr (ck_context chk)"
    using assms(2) unfolding checks_run_def by blast
  have "r' = r" using recap_inv_unique [OF assms(1,4) r'(1)] r'(2) assms(5) by simp
  then show ?thesis
    using m c assms(3) unfolding grounded_result_def validated_by_def recap_row_def
    by (intro bexI [OF _ m(1)] exI [of _ mf] exI [of _ policy] exI [of _ "ck_context chk"])
      (auto intro!: exI [of _ "ck_language chk"])
qed

lemma insert_result_Inr:
  "insert_result x w = (Inr u, w') \<Longrightarrow> tables w' = (tables w)\<lparr>recap_results := recap_results (tables w) @ [x]\<rparr>"
  unfolding insert_result_def by (drule sql_Inr) (auto simp: Let_def split: if_splits)

lemma result_children:
  assumes "answers_kept p f" and "\<And>a. p a \<Longrightarrow> ra_run a = run" and "rs_run x = run"
  shows "children_of (t\<lparr>recap_results := recap_results t @ [x], recap_attempts := update_where p f (recap_attempts t),
      recap_runs := u\<rparr>) i =
    (if i = run then (children_of t run)\<lparr>kid_attempts := update_where p f (kid_attempts (children_of t run)),
       kid_results := kid_results (children_of t run) @ [x]\<rparr>
     else children_of t i)"
proof -
  have "children_of (t\<lparr>recap_results := recap_results t @ [x], recap_attempts := update_where p f (recap_attempts t),
      recap_runs := u\<rparr>) i =
    (children_of (t\<lparr>recap_runs := u, recap_attempts := update_where p f (recap_attempts t)\<rparr>) i)
      \<lparr>kid_results := kid_results (children_of t i) @ (if i = run then [x] else [])\<rparr>"
    using assms(3) by (simp add: children_of_def select_where_def)
  then show ?thesis by (simp add: update_children [OF assms(1,2)])
qed

lemma persist_recap_body_sound:
  assumes inv: "recap_inv rx (rv_codecs env) (tables w)" and chk: "checks_run rx (rv_codecs env) run chk (tables w)"
    and valid: "validated_by chk recap" and body: "persist_recap_body env run ordinal recap w = (Inr u, w')"
  shows "recap_inv rx (rv_codecs env) (tables w') \<and> recap_after (tables w) (tables w')"
proof -
  let ?k = "rv_codecs env" and ?t = "tables w" and ?ch = "children_of (tables w) run"
  let ?q = "attempt_is run ordinal AttemptResponseReceived" and ?g = "\<lambda>a. a\<lparr>ra_outcome := AttemptAccepted\<rparr>"
  let ?p = "in_state run RecapSchemaValidated" and ?f = "\<lambda>r. r\<lparr>rn_state := RecapPersisted\<rparr>"
  obtain i w1 w2 n w3 n' w4 where nu: "(new_uuid :: (world, recap_error, uuid) exec) w = (Inr i, w1)"
    and ins: "insert_result (recap_row ?k i run recap) w1 = (Inr (), w2)"
    and ua: "update_recap_attempt ?q ?g w2 = (Inr n, w3)"
    and ur: "update_recap_run recap_query ?p ?f w3 = (Inr n', w4)" and g: "exec_guard (n' = 1) RecapState w4 = (Inr u, w')"
    using body unfolding persist_recap_body_def recap_row_def by (elim exec_bind_InrE) simp
  let ?x = "recap_row ?k i run recap"
  have xr: "rs_run ?x = run" by (simp add: recap_row_def)
  from new_uuid_Inr [OF nu] insert_result_Inr [OF ins] update_recap_attempt_Inr [OF ua] update_recap_run_Inr [OF ur] g
  have t': "tables w' = ?t\<lparr>recap_results := recap_results ?t @ [?x], recap_attempts := update_where ?q ?g (recap_attempts ?t),
      recap_runs := update_where ?p ?f (recap_runs ?t)\<rparr>"
    and one: "count_where ?p (recap_runs ?t) = 1"
    and ok: "list_all (\<lambda>a. ?q a \<longrightarrow> recap_attempt_ok (?g a)) (recap_attempts ?t)"
      "list_all (\<lambda>r. ?p r \<longrightarrow> recap_run_ok (?f r)) (recap_runs ?t)"
    by (auto simp: exec_guard_Inr)
  obtain r where r: "r \<in> set (recap_runs ?t)" "?p r" using one count_where_0 [of ?p "recap_runs ?t"] by force
  have rid: "rn_id r = run" "rn_state r = RecapSchemaValidated" using r(2) by (simp_all add: in_state_def)
  have kept: "answers_kept ?q ?g" by (simp add: answers_kept_def attempt_is_def answered_attempt_def)
  have ch: "children_of (tables w') i = (if i = run then ?ch\<lparr>kid_attempts := update_where ?q ?g (kid_attempts ?ch),
      kid_results := kid_results ?ch @ [?x]\<rparr> else children_of ?t i)" for i
    unfolding t' by (rule result_children [OF kept _ xr]) (simp add: attempt_is_def)
  have inv_r: "run_inv rx ?k (recap_inbox ?t) r ?ch" using recap_inv_run [OF inv r(1)] rid by simp
  have none: "kid_results ?ch = []" using inv_r rid by (simp add: run_inv_def results_inv_def)
  have "list_all (\<lambda>a. ?q a \<longrightarrow> recap_attempt_ok (?g a)) (kid_attempts ?ch)"
    using ok(1) by (simp add: list_all_iff children_of_def set_select_where)
  then have att: "attempts_inv r (update_where ?q ?g (kid_attempts ?ch))"
    by (intro attempts_inv_update [OF _ kept]) (use inv_r in \<open>simp_all add: run_inv_def\<close>)
  then have att': "attempts_inv (?f r) (update_where ?q ?g (kid_attempts ?ch))"
    by (simp add: attempts_inv_def)
  have ground: "grounded_result rx ?k r (kid_manifests ?ch) ?x"
    by (rule checked_result_grounded [OF inv chk valid r(1) rid(1)])
  show ?thesis
  proof (rule run_step [OF inv r(1), where p = ?p and f = ?f])
    have "recap_edge\<^sup>*\<^sup>* (rn_state r) RecapPersisted"
      by (intro r_into_rtranclp) (simp add: recap_edge_def rid)
    then show "recap_later r (children_of ?t (rn_id r)) (?f r) (children_of (tables w') (rn_id r))"
      using rid by (auto simp: recap_later_def ch)
    have "recap_run_ok (?f r)" using ok r by (simp add: list_all_iff)
    then show "run_inv rx ?k (recap_inbox ?t) (?f r) (children_of (tables w') (rn_id r))"
      using inv_r att' rid none ground same_identity_parts [of "?f r" r]
      by (simp add: run_inv_def ch results_inv_def facts_inv_def)
    show "children_of (tables w') i = children_of ?t i" if "i \<noteq> rn_id r" for i
      using that rid by (simp add: ch)
  qed (use r rid in \<open>auto simp: t' in_state_def\<close>)
qed

section \<open>Admission\<close>

lemma insert_command_Inr:
  "insert_command x w = (Inr b, w') \<Longrightarrow>
     (if b then tables w' = (tables w)\<lparr>recap_inbox := recap_inbox (tables w) @ [x]\<rparr> \<and>
        (\<forall>y \<in> set (recap_inbox (tables w)). ci_command y \<noteq> ci_command x) else tables w' = tables w)"
  unfolding insert_command_def by (drule sql_Inr) (auto simp: exists_where_iff split: if_splits)

lemma insert_recap_run_Inr:
  "insert_recap_run x w = (Inr u, w') \<Longrightarrow>
     tables w' = (tables w)\<lparr>recap_runs := recap_runs (tables w) @ [x]\<rparr> \<and> recap_run_ok x \<and> recap_fk (tables w') \<and>
     (\<forall>y \<in> set (recap_runs (tables w)). rn_id y \<noteq> rn_id x)"
  unfolding insert_recap_run_def by (drule sql_Inr) (auto simp: Let_def exists_where_iff split: if_splits)

lemma fresh_run_inv:
  assumes "rn_state r = RecapReceived" and "rn_attempts r = 0" and "recap_run_ok r" and "list_ex (command_of_row rx r) cs"
  shows "run_inv rx k cs r \<lparr>kid_manifests = [], kid_attempts = [], kid_results = [], kid_facts = []\<rparr>"
  using assms by (simp add: run_inv_def attempts_inv_def results_inv_def facts_inv_def)

lemma accept_command_body_sound:
  assumes inv: "recap_inv rx k (tables w)" and enc: "rx_encode_request rx request = Some payload"
    and body: "accept_command_body cmd request payload w = (Inr x, w')"
  shows "recap_inv rx k (tables w') \<and> recap_after (tables w) (tables w')"
proof -
  let ?row = "inbox_row_of cmd request payload" and ?t = "tables w"
  obtain b w1 where ins: "insert_command ?row w = (Inr b, w1)"
    and rest: "(if b
      then exec_bind new_uuid (\<lambda>ident.
           exec_bind (insert_recap_run (recap_run_of ident cmd request)) (\<lambda>_. exec_return RecapAccepted))
      else exec_bind (query (CommandPersistence Query) (\<lambda>t.
             exists_where (\<lambda>y. (ci_command y = ce_command cmd \<or> semantic_key y = semantic_key ?row) \<and>
               semantic_key y = semantic_key ?row) (recap_inbox t))) (\<lambda>exact.
           if \<not> exact then exec_fail IdentityConflict else exec_return RecapDuplicate)) w1 = (Inr x, w')"
    using body unfolding accept_command_body_def Let_def by (elim exec_bind_InrE)
  note row = insert_command_Inr [OF ins]
  show ?thesis
  proof (cases b)
    case False
    then have "tables w' = ?t"
      using rest row by (auto elim!: exec_bind_InrE simp: exec_fail_def exec_return_def split: if_splits dest!: query_Inr)
    then show ?thesis using inv by simp
  next
    case True
    obtain i w2 w3 where nu: "(new_uuid :: (world, recap_inbox_error, uuid) exec) w1 = (Inr i, w2)"
      and insr: "insert_recap_run (recap_run_of i cmd request) w2 = (Inr (), w3)" and w3: "w' = w3"
      using rest True by (auto elim!: exec_bind_InrE simp: exec_return_def)
    let ?r = "recap_run_of i cmd request"
    from row True new_uuid_Inr [OF nu] insert_recap_run_Inr [OF insr] w3
    have t': "tables w' = ?t\<lparr>recap_inbox := recap_inbox ?t @ [?row], recap_runs := recap_runs ?t @ [?r]\<rparr>"
      and ok: "recap_run_ok ?r" "recap_fk (tables w')" and new: "\<forall>y \<in> set (recap_runs ?t). rn_id y \<noteq> i"
        "\<forall>y \<in> set (recap_inbox ?t). ci_command y \<noteq> ci_command ?row"
      by (auto simp: recap_run_of_def)
    have ch: "children_of (tables w') j = children_of ?t j" for j unfolding t' by (simp add: children_of_def)
    have none: "children_of ?t i = \<lparr>kid_manifests = [], kid_attempts = [], kid_results = [], kid_facts = []\<rparr>"
      using inv new by (intro children_Nil) (auto simp: recap_inv_def)
    have "command_of_row rx ?r ?row"
      using enc by (auto simp: command_of_row_def recap_run_of_def inbox_row_of_def)
    then have fresh: "run_inv rx k (recap_inbox (tables w')) ?r (children_of (tables w') i)"
      unfolding ch none by (intro fresh_run_inv ok) (simp_all add: t' recap_run_of_def)
    have old: "run_inv rx k (recap_inbox (tables w')) r (children_of (tables w') (rn_id r))" if "r \<in> set (recap_runs ?t)" for r
      using recap_inv_run [OF inv that] unfolding ch by (simp add: run_inv_def t')
    have "key_unique rn_id (recap_runs (tables w'))" "key_unique ci_command (recap_inbox (tables w'))"
      using inv new by (auto simp: recap_inv_def key_unique_def t' recap_run_of_def)
    then have "recap_inv rx k (tables w')"
      using ok(2) old fresh by (auto simp: recap_inv_def list_all_iff t' recap_run_of_def)
    moreover have "recap_after ?t (tables w')"
      unfolding recap_after_def ch by (auto simp: t' intro: recap_later_refl)
    ultimately show ?thesis by simp
  qed
qed

lemma accept_recap_command_sound:
  "evolves (recap_inv rx k) recap_after (accept_recap_command rx cmd)"
proof (cases "admit_channel_digest_recap rx cmd")
  case (Inr request)
  show ?thesis
  proof (cases "rx_encode_request rx request")
    case (Some payload)
    then show ?thesis
      using Inr unfolding accept_recap_command_def
      by simp (rule recaps.transaction, rule accept_command_body_sound)
  qed (simp add: Inr accept_recap_command_def recaps.basic)
qed (simp add: accept_recap_command_def recaps.basic)

end
