(* ===== verification/Recap_Execution.thy ===== *)
theory Recap_Execution
  imports Recap_Persist Driver_Correct
begin

text \<open>
  An execution of a run, and what the worker does with one delivery, keep the invariant of the recap
  tables; every provider call has its own row of \<open>channel_recap_attempts\<close>.
\<close>

section \<open>What the other components leave alone\<close>

definition same_recaps :: "db \<Rightarrow> db \<Rightarrow> bool" where
  "same_recaps t t' =
     (recap_inbox t' = recap_inbox t \<and> recap_runs t' = recap_runs t \<and> recap_manifests t' = recap_manifests t \<and>
      recap_attempts t' = recap_attempts t \<and> recap_results t' = recap_results t \<and> recap_outbox t' = recap_outbox t)"

lemma same_recaps_children: "same_recaps t t' \<Longrightarrow> children_of t' i = children_of t i"
  by (simp add: same_recaps_def children_of_def)

lemma same_recaps_step:
  assumes "same_recaps t t'" and "recap_inv rx k t"
  shows "recap_inv rx k t' \<and> recap_after t t'"
  using assms same_recaps_children [OF assms(1)]
  by (auto simp: recap_inv_def recap_after_def recap_fk_def same_recaps_def intro: recap_later_refl)

text \<open>
  The contract of a provider: a call touches no recap table and is counted at most once. The article and
  spend-controlled providers meet it.
\<close>

definition recap_provider :: "(generation_request \<Rightarrow> world \<Rightarrow> (nat \<times> provider_reply) \<times> world) \<Rightarrow> bool" where
  "recap_provider gen = (\<forall>request w. let w' = snd (gen request w) in
     same_recaps (tables w) (tables w') \<and> provider_calls w' \<le> provider_calls w + 1)"

section \<open>Handlers that make no call\<close>

text \<open>
  A handler is \<open>frugal\<close> when it keeps the invariant, moves the tables forward and makes at most as many
  calls as it adds attempts.
\<close>

definition frugal :: "(db \<Rightarrow> bool) \<Rightarrow> (world, 'e, 'a) exec \<Rightarrow> bool" where
  "frugal ok m = (\<forall>w. let w' = snd (m w) in ok (tables w) \<longrightarrow>
     ok (tables w') \<and> recap_after (tables w) (tables w') \<and>
     provider_calls w' + length (recap_attempts (tables w)) \<le> provider_calls w + length (recap_attempts (tables w')))"

lemma frugalI:
  "(\<And>w r w'. ok (tables w) \<Longrightarrow> m w = (r, w') \<Longrightarrow> ok (tables w') \<and> recap_after (tables w) (tables w') \<and>
     provider_calls w' + length (recap_attempts (tables w)) \<le> provider_calls w + length (recap_attempts (tables w'))) \<Longrightarrow>
   frugal ok m"
  unfolding frugal_def Let_def by (metis prod.collapse)

lemma frugalD:
  "frugal ok m \<Longrightarrow> ok (tables w) \<Longrightarrow> m w = (r, w') \<Longrightarrow> ok (tables w') \<and> recap_after (tables w) (tables w') \<and>
     provider_calls w' + length (recap_attempts (tables w)) \<le> provider_calls w + length (recap_attempts (tables w'))"
  unfolding frugal_def Let_def by (metis snd_conv)

lemma frugal_no_calls:
  assumes "evolves ok recap_after m" and "no_calls m"
  shows "frugal ok m"
proof (rule frugalI)
  fix w r w' assume w: "ok (tables w)" and m: "m w = (r, w')"
  show "ok (tables w') \<and> recap_after (tables w) (tables w') \<and>
     provider_calls w' + length (recap_attempts (tables w)) \<le> provider_calls w + length (recap_attempts (tables w'))"
    using evolvesD [OF assms(1) w m] unchangedD [OF assms(2) m] by (simp add: recap_after_def)
qed

lemma frugal_bind:
  assumes "frugal ok m" and "\<And>x. frugal ok (f x)"
  shows "frugal ok (exec_bind m f)"
proof (rule frugalI)
  fix w r w' assume w: "ok (tables w)" and run: "exec_bind m f w = (r, w')"
  obtain r1 w1 where m: "m w = (r1, w1)" by fastforce
  note 1 = frugalD [OF assms(1) w m]
  show "ok (tables w') \<and> recap_after (tables w) (tables w') \<and>
     provider_calls w' + length (recap_attempts (tables w)) \<le> provider_calls w + length (recap_attempts (tables w'))"
  proof (cases r1)
    case (Inl e)
    then show ?thesis using run m 1 by (simp add: exec_bind_def)
  next
    case (Inr x)
    then have f: "f x w1 = (r, w')" using run m by (simp add: exec_bind_def)
    show ?thesis using frugalD [OF assms(2) _ f] 1 recap_after_trans by fastforce
  qed
qed

lemma frugal_carry:
  "frugal (recap_inv rx k) m \<Longrightarrow> frugal (\<lambda>t. recap_inv rx k t \<and> checks_run rx k run chk t) m"
  unfolding frugal_def Let_def using checks_run_stable by blast

lemma frugal_basic:
  "frugal ok (exec_return x)" "frugal ok (exec_fail e)" "frugal ok (exec_guard b e)"
  "frugal ok (query e f)" "frugal ok get_now"
  by (intro frugal_no_calls evolution.rules [OF recap_evolution] unchanged_rules database_free_parts)+

lemma frugal_map_err: "frugal ok m \<Longrightarrow> frugal ok (exec_map_err h m)"
  by (simp add: frugal_def snd_map_err)

section \<open>Calls of the statements\<close>

lemma no_calls_statements [unchanged_rules]:
  "no_calls (update_recap_run e p f)" "no_calls (update_recap_attempt q g)" "no_calls (move_recap run a b)"
  "no_calls (record_attempt_failure run ordinal transient failure duration)"
  unfolding update_recap_run_def update_recap_attempt_def move_recap_def record_attempt_failure_def
  by (intro unchanged_rules database_free_parts)+

lemma no_calls_settle_body [unchanged_rules]: "no_calls (settle_body run expected s)"
  unfolding settle_body_def settlement_result_exists_def insert_recap_outbox_def update_recap_run_def
  by (intro unchanged_rules database_free_parts)

lemma no_calls_settle [unchanged_rules]: "no_calls (settle run expected s)"
  unfolding settle_def by (intro unchanged_rules database_free_parts)

lemma no_calls_settle_terminal [unchanged_rules]:
  "no_calls (settle_failed rx run expected fct)" "no_calls (settle_completed rx run expected fct')"
  unfolding settle_failed_def settle_completed_def by (intro unchanged_rules database_free_parts)+

lemma no_calls_rows [unchanged_rules]: "no_calls (one_row row)" "no_calls (or_recap_encode x)"
  unfolding one_row_def or_recap_encode_def by (intro unchanged_rules)+

lemma no_calls_settle_code [unchanged_rules]:
  "no_calls (settle_failure env run expected code)"
  "no_calls (settle_manifest_failure rx run expected request code)"
  unfolding settle_failure_def settle_manifest_failure_def Let_def
  by (intro unchanged_rules database_free_parts)+

lemma no_calls_pair [unchanged_rules]: "(\<And>a b. unchanged g (f a b)) \<Longrightarrow> unchanged g (case x of (a, b) \<Rightarrow> f a b)"
  by (cases x) simp

lemma no_calls_settle_completion [unchanged_rules]: "no_calls (settle_completion env run)"
  unfolding settle_completion_def Let_def by (intro unchanged_rules database_free_parts)

lemma no_calls_transactions [unchanged_rules]:
  "no_calls (insert_recap_attempt env run ordinal reason)"
  "no_calls (record_raw_response env run ordinal response duration)" "no_calls (persist_result env run ordinal recap)"
  "no_calls (accept_validated env run ordinal recap)" "no_calls (handle_invalid_attempt env run ordinal code)"
  unfolding insert_recap_attempt_def insert_attempt_body_def insert_attempt_row_def record_raw_response_def
    raw_response_body_def persist_result_def persist_recap_body_def insert_result_def accept_validated_def
    handle_invalid_attempt_def Let_def
  by (intro unchanged_rules database_free_parts)+

section \<open>The parts of an execution\<close>

lemma frugal_settle:
  "expected \<noteq> RecapPersisted \<Longrightarrow> frugal (recap_inv rx k) (settle_failure env run expected code)"
  "frugal (recap_inv (rv_contracts env) k) (settle_completion env run)"
  "frugal (recap_inv rx k) (record_attempt_failure run ordinal transient failure duration)"
  "frugal (recap_inv rx k) (handle_invalid_attempt env run ordinal code')"
  by (rule frugal_no_calls; intro settle_failure_sound settle_completion_sound record_attempt_failure_sound
      handle_invalid_attempt_sound unchanged_rules; assumption?)+

abbreviation checked :: "recap_env \<Rightarrow> uuid \<Rightarrow> recap_check \<Rightarrow> db \<Rightarrow> bool" where
  "checked env run chk t \<equiv> recap_inv (rv_contracts env) (rv_codecs env) t \<and>
     checks_run (rv_contracts env) (rv_codecs env) run chk t"

lemma frugal_bind_result:
  assumes "frugal ok m" and "\<And>w x w'. m w = (Inr x, w') \<Longrightarrow> Q x" and "\<And>x. Q x \<Longrightarrow> frugal ok (f x)"
  shows "frugal ok (exec_bind m f)"
proof -
  have "exec_bind m f = exec_bind m (\<lambda>x. if Q x then f x else exec_fail undefined)"
    using assms(2) by (auto simp: exec_bind_def fun_eq_iff split: prod.splits sum.splits)
  moreover have "frugal ok \<dots>" using assms by (intro frugal_bind) (auto intro: frugal_basic)
  ultimately show ?thesis by simp
qed

lemma frugal_move:
  "plain_move a b \<Longrightarrow> a \<noteq> RecapReceived \<Longrightarrow> frugal (recap_inv rx k) (move_recap run a b)"
  by (intro frugal_no_calls move_recap_sound unchanged_rules)

lemma frugal_persist:
  assumes "validated_by chk recap"
  shows "frugal (checked env run chk) (persist_result env run ordinal recap)"
proof (rule frugal_no_calls)
  show "evolves (checked env run chk) recap_after (persist_result env run ordinal recap)"
    unfolding persist_result_def
    by (rule evolution.transaction [OF recap_evolution]) (use persist_recap_body_sound assms checks_run_stable in blast)
qed (intro unchanged_rules)

lemma frugal_accept_validated:
  "validated_by chk recap \<Longrightarrow> frugal (checked env run chk) (accept_validated env run ordinal recap)"
  unfolding accept_validated_def
  by (intro frugal_bind frugal_persist frugal_carry frugal_move frugal_settle) (simp_all add: plain_move_def)

lemma frugal_resume: "frugal (recap_inv (rv_contracts env) k) (resume_result env run)"
  unfolding resume_result_def resume_def or_recap_encode_def
  by (intro frugal_bind; (simp split: option.split prod.split, intro allI impI conjI)?;
      (intro frugal_bind frugal_basic frugal_settle)?)

lemma frugal_recover_requested:
  "frugal (recap_inv rx k) (recover_model_requested env run attempts request)"
proof -
  have interrupted: "frugal (recap_inv rx k) (update_recap_attempt (attempt_is run n AttemptRequested)
      (\<lambda>a. a\<lparr>ra_outcome := AttemptInterrupted\<rparr>))" for n
    by (intro frugal_no_calls update_recap_attempt_sound [where run = run] unchanged_rules)
      (auto simp: answers_kept_def attempt_is_def answered_attempt_def)
  show ?thesis
    unfolding recover_model_requested_def Let_def
    by (intro frugal_bind frugal_basic; (simp split: option.split, intro allI impI conjI)?;
        (intro frugal_bind frugal_basic frugal_settle interrupted)?; simp?)
qed

lemma stored_verdict_valid:
  "stored_verdict env chk a w = (Inr (Inr recap), w') \<Longrightarrow> validated_by chk recap"
  by (auto simp: stored_verdict_def exec_return_def exec_fail_def exec_bind_def
      split: if_splits option.splits sum.splits prod.splits dest: validate_response_Inr)

lemma frugal_stored_verdict: "frugal ok (stored_verdict env chk a)"
proof (rule frugalI)
  fix w r w' assume ok: "ok (tables w)" and run: "stored_verdict env chk a w = (r, w')"
  have calls: "no_calls (stored_verdict env chk a)" unfolding stored_verdict_def by (intro unchanged_rules)
  have "tables w' = tables w"
    using run by (auto simp: stored_verdict_def exec_return_def exec_fail_def exec_bind_def exec_map_err_def
        split: if_splits option.splits sum.splits prod.splits dest!: blob_read_result)
  then show "ok (tables w') \<and> recap_after (tables w) (tables w') \<and>
     provider_calls w' + length (recap_attempts (tables w)) \<le> provider_calls w + length (recap_attempts (tables w'))"
    using ok unchangedD [OF calls run] by simp
qed

lemma frugal_recover_stored:
  assumes "state \<noteq> RecapPersisted"
  shows "frugal (checked env run chk) (recover_stored_response env chk run ordinal state request)"
proof -
  have verdict: "frugal (checked env run chk) (exec_bind (stored_verdict env chk a) f)"
    if "\<And>recap. validated_by chk recap \<Longrightarrow> frugal (checked env run chk) (f (Inr recap))"
      "\<And>code. frugal (checked env run chk) (f (Inl code))" for a f
    by (rule frugal_bind_result [where Q = "\<lambda>v. case v of Inr recap \<Rightarrow> validated_by chk recap | Inl _ \<Rightarrow> True",
          OF frugal_stored_verdict])
      (auto simp: that split: sum.splits dest: stored_verdict_valid)
  show ?thesis
    unfolding recover_stored_response_def
    by (intro frugal_bind frugal_basic; (simp split: option.split, intro allI impI conjI)?;
        (intro verdict frugal_basic)?; (simp split: if_split, intro allI impI conjI)?;
        (intro frugal_bind frugal_basic frugal_accept_validated frugal_persist frugal_carry frugal_settle)?;
        (simp add: frugal_basic)?)
qed

lemma frugal_recover: "frugal (checked env run chk) (recover env chk run request)"
  unfolding recover_def
  by (intro frugal_bind frugal_basic; (simp split: option.split recap_state.split, intro allI impI conjI)?;
      (intro frugal_bind frugal_basic frugal_carry frugal_recover_requested frugal_recover_stored frugal_move)?;
      (simp add: plain_move_def)?)

end
