(* ===== verification/Recap_Worker_Sound.thy ===== *)
theory Recap_Worker_Sound
  imports Recap_Execution
begin

text \<open>
  The rounds of an execution and the deliveries of the worker keep the invariant of the recap tables.
\<close>

section \<open>Rounds\<close>

lemma insert_recap_attempt_Inr:
  assumes "insert_recap_attempt env run ordinal reason w = (Inr u, w')" and "recap_inv rx k (tables w)"
  shows "recap_inv rx k (tables w') \<and> recap_after (tables w) (tables w') \<and> provider_calls w' = provider_calls w \<and>
    (\<forall>r \<in> set (recap_runs (tables w')). rn_id r = run \<longrightarrow> rn_attempts r = ordinal) \<and>
    length (recap_attempts (tables w')) = length (recap_attempts (tables w)) + 1"
proof -
  obtain x v where body: "insert_attempt_body env run ordinal reason (tick w) = (Inr x, v)" and t: "tables w' = tables v"
    using transact_tables [OF assms(1) [unfolded insert_recap_attempt_def]] by blast
  have "no_calls (insert_recap_attempt env run ordinal reason)" by (rule no_calls_transactions)
  from unchangedD [OF this assms(1)] show ?thesis
    using insert_attempt_body_sound [OF _ body] assms(2) by (simp add: t)
qed

lemma frugal_reply:
  assumes ok: "checked env run chk (tables w)"
    and spent: "\<And>r. r \<in> set (recap_runs (tables w)) \<Longrightarrow> rn_id r = run \<Longrightarrow> rn_attempts r = ordinal"
    and run: "exec_bind (record_raw_response env run ordinal response duration) (\<lambda>_.
         case validate_response env chk (resp_bytes response) of
           Inl code \<Rightarrow>
             exec_bind (handle_invalid_attempt env run ordinal code) (\<lambda>again.
             if again then exec_return (RecapContinue ReasonRepair (push_recap_repair request))
             else exec_fail RecapInvalid)
         | Inr r \<Rightarrow>
             exec_bind (accept_validated env run ordinal r) (\<lambda>_. exec_return (RecapDone r))) w = (r, w')"
  shows "checked env run chk (tables w') \<and> recap_after (tables w) (tables w') \<and>
     provider_calls w' + length (recap_attempts (tables w)) \<le> provider_calls w + length (recap_attempts (tables w'))"
proof -
  let ?rest = "case validate_response env chk (resp_bytes response) of
           Inl code \<Rightarrow>
             exec_bind (handle_invalid_attempt env run ordinal code) (\<lambda>again.
             if again then exec_return (RecapContinue ReasonRepair (push_recap_repair request))
             else exec_fail RecapInvalid)
         | Inr r \<Rightarrow>
             exec_bind (accept_validated env run ordinal r) (\<lambda>_. exec_return (RecapDone r))"
  obtain r1 w1 where raw: "record_raw_response env run ordinal response duration w = (r1, w1)" by fastforce
  have "recap_inv (rv_contracts env) (rv_codecs env) (tables w1) \<and> recap_after (tables w) (tables w1)"
    using record_raw_response_sound [OF _ raw] ok spent by blast
  moreover have "provider_calls w1 = provider_calls w"
    using raw by (rule unchangedD [rotated]) (rule no_calls_transactions)
  ultimately have 1: "checked env run chk (tables w1) \<and> recap_after (tables w) (tables w1) \<and>
      provider_calls w1 + length (recap_attempts (tables w)) \<le> provider_calls w + length (recap_attempts (tables w1))"
    using ok checks_run_stable by (auto simp: recap_after_def)
  have rest: "frugal (checked env run chk) ?rest"
    by (simp split: sum.split)
      (auto intro!: frugal_bind frugal_basic frugal_settle(4) [THEN frugal_carry] frugal_accept_validated dest: validate_response_Inr)
  show ?thesis
  proof (cases r1)
    case (Inl e)
    then show ?thesis using run raw 1 by (simp add: exec_bind_def)
  next
    case (Inr u)
    then have "?rest w1 = (r, w')" using run raw by (simp add: exec_bind_def)
    then show ?thesis using frugalD [OF rest, of w1] 1 recap_after_trans by fastforce
  qed
qed

lemma frugal_round:
  assumes provider: "recap_provider (dv_generate (rv_driver env))"
  shows "frugal (checked env run chk) (recap_round env chk run ordinal request reason)"
proof (rule frugalI)
  fix w r w' assume ok: "checked env run chk (tables w)" and run: "recap_round env chk run ordinal request reason w = (r, w')"
  obtain r1 w1 where ins: "insert_recap_attempt env run ordinal reason w = (r1, w1)" by fastforce
  show "checked env run chk (tables w') \<and> recap_after (tables w) (tables w') \<and>
     provider_calls w' + length (recap_attempts (tables w)) \<le> provider_calls w + length (recap_attempts (tables w'))"
  proof (cases r1)
    case (Inl e)
    have "frugal (checked env run chk) (insert_recap_attempt env run ordinal reason)"
      by (intro frugal_carry frugal_no_calls insert_recap_attempt_sound no_calls_transactions)
    from frugalD [OF this ok ins] show ?thesis using run ins Inl by (simp add: recap_round_def exec_bind_def)
  next
    case (Inr u)
    note 1 = insert_recap_attempt_Inr [OF ins [unfolded Inr] conjunct1 [OF ok]]
    obtain ms reply w2 where gen: "dv_generate (rv_driver env) (recap_generation_request (rv_codecs env) request) w1 = ((ms, reply), w2)"
      by (metis prod.exhaust)
    have frame: "same_recaps (tables w1) (tables w2)" "provider_calls w2 \<le> provider_calls w1 + 1"
      using provider gen unfolding recap_provider_def Let_def by (metis snd_conv)+
    have step: "recap_inv (rv_contracts env) (rv_codecs env) (tables w2) \<and> recap_after (tables w1) (tables w2)"
      using same_recaps_step [OF frame(1)] 1 by blast
    have after: "recap_after (tables w) (tables w2)" using 1 step recap_after_trans by blast
    have ok2: "checked env run chk (tables w2)" using step checks_run_stable [OF conjunct2 [OF ok] after] by blast
    have spent: "rn_attempts r = ordinal" if "r \<in> set (recap_runs (tables w2))" "rn_id r = run" for r
      using that 1 frame(1) by (auto simp: same_recaps_def)
    have count: "provider_calls w2 + length (recap_attempts (tables w)) \<le> provider_calls w + length (recap_attempts (tables w2))"
      using 1 frame by (simp add: same_recaps_def)
    have rest: "checked env run chk (tables w') \<and> recap_after (tables w2) (tables w') \<and>
       provider_calls w' + length (recap_attempts (tables w2)) \<le> provider_calls w2 + length (recap_attempts (tables w'))"
    proof (cases reply)
      case (Responded response)
      show ?thesis
        by (rule frugal_reply [OF ok2 spent])
          (use run ins Inr gen Responded in \<open>simp_all add: recap_round_def exec_bind_def recap_generate_def Let_def\<close>)
    next
      case TimedOut
      have "frugal (checked env run chk)
          (exec_bind (record_attempt_failure run ordinal True ClassTimeout (min ms (2 ^ 31 - 1))) (\<lambda>_.
         if ordinal = 1 then exec_return (RecapContinue ReasonRetry request)
         else exec_bind (settle_failure env run RecapModelRequested CodeProviderTimeout) (\<lambda>_. exec_fail RecapTimeout)))"
        by (simp split: if_split) (auto intro!: frugal_bind frugal_basic frugal_carry frugal_settle)
      from frugalD [OF this ok2] show ?thesis
        using run ins Inr gen TimedOut by (simp add: recap_round_def exec_bind_def recap_generate_def Let_def)
    next
      case (FailedCall failure)
      have "frugal (checked env run chk)
         (exec_bind (record_attempt_failure run ordinal (is_transient failure) (pf_class failure) (min ms (2 ^ 31 - 1))) (\<lambda>_.
         if is_transient failure \<and> ordinal = 1 then exec_return (RecapContinue ReasonRetry request)
         else exec_bind (settle_failure env run RecapModelRequested CodeProviderUnavailable) (\<lambda>_.
              exec_fail (RecapProvider (pf_error failure)))))"
        by (simp split: if_split) (auto intro!: frugal_bind frugal_basic frugal_carry frugal_settle)
      from frugalD [OF this ok2] show ?thesis
        using run ins Inr gen FailedCall by (simp add: recap_round_def exec_bind_def recap_generate_def Let_def)
    qed
    then show ?thesis using after count recap_after_trans by fastforce
  qed
qed

lemma frugal_rounds:
  assumes "recap_provider (dv_generate (rv_driver env))"
  shows "frugal (checked env run chk) (recap_rounds env chk run ordinals request reason)"
proof (induction ordinals arbitrary: request reason)
  case (Cons ordinal ordinals)
  then show ?case
    by (auto intro!: frugal_bind frugal_round [OF assms] frugal_basic split: recap_flow.split)
qed (simp add: frugal_basic)

section \<open>An execution\<close>

lemma frugal_locked:
  assumes "recap_provider (dv_generate (rv_driver env))"
  shows "frugal (checked env run chk) (execute_recap_locked env chk run request)"
  unfolding execute_recap_locked_def
  by (intro frugal_bind frugal_resume [THEN frugal_carry]; simp split: option.split;
      auto intro!: frugal_basic frugal_bind frugal_recover frugal_rounds [OF assms] split: recovery.split)

lemma frugal_execute:
  assumes "recap_provider (dv_generate (rv_driver env))"
  shows "frugal (checked env run chk) (execute_recap env chk run request)"
proof (rule frugalI)
  fix w r w' assume ok: "checked env run chk (tables w)" and run: "execute_recap env chk run request w = (r, w')"
  obtain a w1 where acq: "exec_map_err RecapPersistence (run_lock_acquire run) w = (a, w1)" by fastforce
  have same: "tables w1 = tables w" "provider_calls w1 = provider_calls w"
    using acq by (auto simp: exec_map_err_def run_lock_acquire_def split: if_splits)
  show "checked env run chk (tables w') \<and> recap_after (tables w) (tables w') \<and>
     provider_calls w' + length (recap_attempts (tables w)) \<le> provider_calls w + length (recap_attempts (tables w'))"
  proof (cases "a = Inr True")
    case False
    then have "w' = w1" using run acq by (auto simp: execute_recap_def split: sum.splits if_splits)
    then show ?thesis using ok same by simp
  next
    case True
    obtain o' w2 where ex: "execute_recap_locked env chk run request w1 = (o', w2)" by fastforce
    have "tables w' = tables w2" "provider_calls w' = provider_calls w2"
      using run acq ex True by (auto simp: execute_recap_def run_lock_release_def)
    then show ?thesis using frugalD [OF frugal_locked [OF assms] _ ex] ok same by simp
  qed
qed

section \<open>A delivery\<close>

text \<open>What the dependencies of the worker promise: one contract crate, one codec, a provider.\<close>

definition worker_contract :: "recap_worker \<Rightarrow> bool" where
  "worker_contract wk = (\<forall>c. rv_contracts (wk_env wk c) = wk_contracts wk \<and> rv_codecs (wk_env wk c) = wk_codecs wk \<and>
     recap_provider (dv_generate (rv_driver (wk_env wk c))))"

abbreviation worker_inv :: "recap_worker \<Rightarrow> db \<Rightarrow> bool" where
  "worker_inv wk \<equiv> recap_inv (wk_contracts wk) (wk_codecs wk)"

lemma frugal_option:
  "frugal ok m \<Longrightarrow> (\<And>x. frugal ok (f x)) \<Longrightarrow> frugal ok (case o' of None \<Rightarrow> m | Some x \<Rightarrow> f x)"
  by (cases o') auto

lemma no_calls_sum [unchanged_rules]:
  "(\<And>e. unchanged g (f e)) \<Longrightarrow> (\<And>x. unchanged g (h x)) \<Longrightarrow> unchanged g (case r of Inl e \<Rightarrow> f e | Inr x \<Rightarrow> h x)"
  by (cases r) auto

lemma no_calls_manifest [unchanged_rules]:
  "no_calls (accept_verified_manifest rx run expected v)" "no_calls (schedule_manifest_retry run expected attempts delay)"
  "no_calls (accept_recap_command rx cmd)" "no_calls (recap_transition run a b)" "no_calls (manifest_status run)"
  "no_calls (load_run request)" "no_calls (load_manifest rx run)"
  unfolding accept_verified_manifest_def accept_manifest_body_def insert_manifest_def schedule_manifest_retry_def
    accept_recap_command_def accept_command_body_def insert_command_def insert_recap_run_def recap_transition_def
    manifest_status_def load_run_def load_manifest_def Let_def
  by (intro unchanged_rules database_free_parts)+

lemma frugal_manifest:
  "frugal (recap_inv rx k) (accept_verified_manifest rx' run expected v)"
  "expected \<in> {RecapReceived, RecapManifestRetry} \<Longrightarrow> frugal (recap_inv rx k) (schedule_manifest_retry run expected attempts delay)"
  "frugal (recap_inv rx k) (accept_recap_command rx cmd)"
  "expected \<noteq> RecapPersisted \<Longrightarrow> frugal (recap_inv rx k) (settle_manifest_failure rx' run expected request code)"
  "expected \<noteq> RecapPersisted \<Longrightarrow> frugal (recap_inv rx k) (settle_failed rx' run expected fct)"
  "next \<noteq> RecapResponseReceived \<Longrightarrow> next \<noteq> RecapPersisted \<Longrightarrow>
     frugal (recap_inv rx k) (recap_transition run expected next)"
  "frugal (recap_inv rx k) (manifest_status run)"
proof -
  show "frugal (recap_inv rx k) (accept_verified_manifest rx' run expected v)"
    by (intro frugal_no_calls accept_verified_manifest_sound unchanged_rules)
  show "frugal (recap_inv rx k) (accept_recap_command rx cmd)"
    by (intro frugal_no_calls accept_recap_command_sound unchanged_rules)
  show "expected \<in> {RecapReceived, RecapManifestRetry} \<Longrightarrow> frugal (recap_inv rx k) (schedule_manifest_retry run expected attempts delay)"
    by (intro frugal_no_calls schedule_manifest_retry_sound unchanged_rules)
  show "expected \<noteq> RecapPersisted \<Longrightarrow> frugal (recap_inv rx k) (settle_manifest_failure rx' run expected request code)"
    by (intro frugal_no_calls settle_manifest_failure_sound unchanged_rules)
  show "expected \<noteq> RecapPersisted \<Longrightarrow> frugal (recap_inv rx k) (settle_failed rx' run expected fct)"
    by (intro frugal_no_calls settle_failed_sound unchanged_rules)
  show "next \<noteq> RecapResponseReceived \<Longrightarrow> next \<noteq> RecapPersisted \<Longrightarrow> frugal (recap_inv rx k) (recap_transition run expected next)"
    by (intro frugal_no_calls recap_transition_sound unchanged_rules)
  show "frugal (recap_inv rx k) (manifest_status run)"
    unfolding manifest_status_def by (intro frugal_bind frugal_basic frugal_option)
qed

lemma frugal_attempt_manifest: "frugal (recap_inv rx k) (attempt_digest_manifest wk run request)"
proof -
  have fail: "frugal (recap_inv rx k) (exec_bind (settle_manifest_failure (wk_contracts wk) run (mx_state status) request code)
      (\<lambda>_. exec_return ManifestFailed))"
    if "mx_state status \<in> {RecapReceived, RecapManifestRetry}" for status code
    using that by (intro frugal_bind frugal_manifest frugal_basic) auto
  have retry: "frugal (recap_inv rx k) (exec_bind (schedule_manifest_retry run (mx_state status) n d)
      (\<lambda>_. exec_return ManifestRetryScheduled))"
    if "mx_state status \<in> {RecapReceived, RecapManifestRetry}" for status n d
    using that by (intro frugal_bind frugal_manifest frugal_basic)
  show ?thesis
    unfolding attempt_digest_manifest_def Let_def
    by (rule frugal_bind [OF frugal_manifest(7)])
      (auto simp del: insert_iff split: sum.split intro!: frugal_basic fail retry frugal_bind frugal_manifest(1))
qed

section \<open>One command\<close>

text \<open>Facts about the tables that later tables keep, and that a handler may rely on.\<close>

lemma frugal_and:
  "frugal ok m \<Longrightarrow> (\<And>t t'. P t \<Longrightarrow> recap_after t t' \<Longrightarrow> P t') \<Longrightarrow> frugal (\<lambda>t. ok t \<and> P t) m"
  unfolding frugal_def Let_def by blast

lemma frugal_bind_state:
  assumes "frugal ok m" and "\<And>w x w'. ok (tables w) \<Longrightarrow> m w = (Inr x, w') \<Longrightarrow> Q x (tables w')"
    and "\<And>x. frugal (\<lambda>t. ok t \<and> Q x t) (f x)"
  shows "frugal ok (exec_bind m f)"
proof (rule frugalI)
  fix w r w' assume w: "ok (tables w)" and run: "exec_bind m f w = (r, w')"
  obtain r1 w1 where m: "m w = (r1, w1)" by fastforce
  note 1 = frugalD [OF assms(1) w m]
  show "ok (tables w') \<and> recap_after (tables w) (tables w') \<and>
     provider_calls w' + length (recap_attempts (tables w)) \<le> provider_calls w + length (recap_attempts (tables w'))"
  proof (cases r1)
    case (Inl e)
    then show ?thesis using run m 1 by (simp add: exec_bind_def)
  next
    case (Inr x)
    then have f: "f x w1 = (r, w')" using run m by (simp add: exec_bind_def)
    have "ok (tables w1) \<and> Q x (tables w1)" using 1 assms(2) [OF w] m Inr by blast
    then show ?thesis using frugalD [OF assms(3) _ f] 1 recap_after_trans by fastforce
  qed
qed

lemma snd_attempted: "snd (attempted m w) = snd (m w)"
  by (simp add: attempted_def split: prod.split sum.split)

lemma frugal_attempted:
  assumes "frugal ok m"
  shows "frugal ok (attempted m)"
  using assms by (simp add: frugal_def snd_attempted)

definition request_run :: "recap_request \<Rightarrow> uuid \<Rightarrow> db \<Rightarrow> bool" where
  "request_run request run t = (\<exists>r \<in> set (recap_runs t). rn_id r = run \<and> run_of_request request r)"

definition stored_manifest :: "recap_contracts \<Rightarrow> uuid \<Rightarrow> verified_manifest \<Rightarrow> db \<Rightarrow> bool" where
  "stored_manifest rx run v t = (\<exists>m \<in> set (kid_manifests (children_of t run)).
     rm_digest m = vm_digest v \<and> rx_decode_manifest rx (rm_manifest m) = Some (vm_manifest v))"

text \<open>A run that exists later has the children it has now.\<close>

lemma request_run_stable:
  assumes "request_run request run t" and "recap_after t t'"
  shows "request_run request run t'"
proof -
  obtain r where r: "r \<in> set (recap_runs t)" "rn_id r = run" "run_of_request request r"
    using assms(1) by (auto simp: request_run_def)
  obtain r' where r': "r' \<in> set (recap_runs t')" "recap_later r (children_of t (rn_id r)) r' (children_of t' (rn_id r))"
    by (rule recap_after_run [OF assms(2) r(1)])
  have "run_identity_columns r' = run_identity_columns r" using r'(2) by (simp add: recap_later_def)
  from identity_columns [OF this] show ?thesis
    unfolding request_run_def using r r' by (intro bexI [of _ r']) (simp_all add: run_of_request_def)
qed

lemma run_manifests_stable:
  assumes "request_run request run t" and "recap_after t t'" and "stored_manifest rx run v t"
  shows "stored_manifest rx run v t'"
proof -
  obtain r where r: "r \<in> set (recap_runs t)" "rn_id r = run" using assms(1) by (auto simp: request_run_def)
  obtain r' where "recap_later r (children_of t (rn_id r)) r' (children_of t' (rn_id r))"
    by (rule recap_after_run [OF assms(2) r(1)])
  then show ?thesis using assms(3) r(2) unfolding stored_manifest_def recap_later_def by blast
qed

lemma prepared_checks_run:
  assumes "recap_inv rx k t" and "request_run request run t" and "stored_manifest rx run v t"
    and "prepare_channel_recap_context k v policy = Inr c"
  shows "checks_run rx k run \<lparr>ck_context = c, ck_digest = vm_digest v, ck_language = kq_language request\<rparr> t"
proof -
  obtain r where r: "r \<in> set (recap_runs t)" "rn_id r = run" "run_of_request request r"
    using assms(2) by (auto simp: request_run_def)
  obtain m where m: "m \<in> set (kid_manifests (children_of t run))" "rm_digest m = vm_digest v"
      "rx_decode_manifest rx (rm_manifest m) = Some (vm_manifest v)"
    using assms(3) by (auto simp: stored_manifest_def)
  have d: "vm_digest v = rn_manifest_digest r"
    using recap_inv_run [OF assms(1) r(1)] m r(2) by (auto simp: run_inv_def list_all_iff manifest_of_row_def)
  then have v: "\<lparr>vm_digest = rn_manifest_digest r, vm_manifest = vm_manifest v\<rparr> = v" by (cases v) simp
  have "rn_language r = recap_output_language (kq_language request)" using r(3) by (simp add: run_of_request_def)
  then show ?thesis
    unfolding checks_run_def using r m d assms(4)
    by (intro bexI [OF _ r(1)] conjI bexI [OF _ m(1)] exI [of _ "vm_manifest v"] exI [of _ policy]) (simp_all add: v)
qed

lemma frugal_settle_context: "frugal (recap_inv rx k) (settle_context_failure rx' run request)"
  unfolding settle_context_failure_def Let_def or_dispose_def
  by (intro frugal_bind frugal_basic frugal_map_err frugal_manifest) simp

lemma frugal_run_prepared:
  assumes wk: "worker_contract wk"
  shows "frugal (\<lambda>t. (worker_inv wk t \<and> request_run request run t) \<and> stored_manifest (wk_contracts wk) run v t)
    (run_prepared wk run request v)"
proof -
  let ?ok = "\<lambda>t. (worker_inv wk t \<and> request_run request run t) \<and> stored_manifest (wk_contracts wk) run v t"
  have lift: "frugal ?ok m" if "\<And>w r w'. ?ok (tables w) \<Longrightarrow> m w = (r, w') \<Longrightarrow> worker_inv wk (tables w') \<and>
      recap_after (tables w) (tables w') \<and>
      provider_calls w' + length (recap_attempts (tables w)) \<le> provider_calls w + length (recap_attempts (tables w'))"
    for m :: "(world, disposition, disposition) exec"
    by (rule frugalI) (use that request_run_stable run_manifests_stable in blast)
  show ?thesis
  proof (cases "prepare_channel_recap_context (wk_codecs wk) v (worker_policy wk)")
    case (Inl e)
    then have "frugal (worker_inv wk) (run_prepared wk run request v)"
      by (cases e) (simp_all add: run_prepared_def frugal_basic frugal_settle_context)
    from frugalD [OF this] show ?thesis by (intro lift) blast
  next
    case (Inr c)
    show ?thesis
    proof (cases "build_channel_recap_provider_request (wk_texts wk) c (kq_language request) (wk_max_output_tokens wk)")
      case (Inl e)
      then show ?thesis using Inr by (simp add: run_prepared_def frugal_basic)
    next
      case (Inr pr)
      let ?chk = "\<lparr>ck_context = c, ck_digest = vm_digest v, ck_language = kq_language request\<rparr>" and ?env = "wk_env wk c"
      have env: "rv_contracts ?env = wk_contracts wk" "rv_codecs ?env = wk_codecs wk"
          "recap_provider (dv_generate (rv_driver ?env))"
        using wk by (simp_all add: worker_contract_def)
      have ex: "frugal (checked ?env run ?chk) (exec_bind (or_dispose DispositionNak (execute_recap ?env ?chk run pr))
          (\<lambda>_. exec_return DispositionAck))"
        unfolding or_dispose_def by (intro frugal_bind frugal_basic frugal_map_err frugal_execute env)
      show ?thesis
      proof (rule lift)
        fix w r w' assume ok: "?ok (tables w)" and run: "run_prepared wk run request v w = (r, w')"
        have "checked ?env run ?chk (tables w)"
          unfolding env using ok prepared_checks_run \<open>prepare_channel_recap_context _ _ _ = Inr c\<close> by blast
        from frugalD [OF ex this] show "worker_inv wk (tables w') \<and> recap_after (tables w) (tables w') \<and>
            provider_calls w' + length (recap_attempts (tables w)) \<le> provider_calls w + length (recap_attempts (tables w'))"
          using run Inr \<open>prepare_channel_recap_context _ _ _ = Inr c\<close> by (simp add: run_prepared_def env)
      qed
    qed
  qed
qed

lemma load_run_Inr:
  "load_run request w = (Inr (run, state), w') \<Longrightarrow> request_run request run (tables w')"
  unfolding load_run_def request_run_def
  by (auto simp: exec_fail_def exec_return_def split: option.splits elim!: exec_bind_InrE dest!: query_Inr find_where_SomeD)

lemma load_manifest_Inr:
  "load_manifest rx run w = (Inr v, w') \<Longrightarrow> stored_manifest rx run v (tables w')"
  unfolding load_manifest_def stored_manifest_def
  by (auto simp: exec_fail_def exec_return_def children_of_def set_select_where split: option.splits
      elim!: exec_bind_InrE dest!: query_Inr find_where_SomeD) blast

lemma frugal_loads: "frugal ok (load_run request)" "frugal ok (load_manifest rx run)"
  unfolding load_run_def load_manifest_def by (intro frugal_bind frugal_basic frugal_option)+

lemma or_dispose_Inr: "or_dispose d m w = (Inr x, w') \<Longrightarrow> m w = (Inr x, w')"
  by (auto simp: or_dispose_def exec_map_err_def split: prod.splits sum.splits)

lemma frugal_run_accepted:
  assumes wk: "worker_contract wk"
  shows "frugal (\<lambda>t. worker_inv wk t \<and> request_run request run t) (run_accepted wk run request)"
  unfolding run_accepted_def
proof (rule frugal_bind_state [where Q = "stored_manifest (wk_contracts wk) run"])
  fix v
  have "frugal (worker_inv wk) (or_dispose DispositionNak (recap_transition run RecapManifestVerified RecapContextPrepared))"
    unfolding or_dispose_def by (intro frugal_map_err frugal_manifest) simp_all
  then have "frugal (\<lambda>t. (worker_inv wk t \<and> request_run request run t) \<and> stored_manifest (wk_contracts wk) run v t)
      (or_dispose DispositionNak (recap_transition run RecapManifestVerified RecapContextPrepared))"
    unfolding frugal_def Let_def using request_run_stable run_manifests_stable by blast
  then show "frugal (\<lambda>t. (worker_inv wk t \<and> request_run request run t) \<and> stored_manifest (wk_contracts wk) run v t)
      (exec_bind (attempted (load_run request)) (\<lambda>again.
       exec_bind (if map_option snd again = Some RecapManifestVerified
         then or_dispose DispositionNak (recap_transition run RecapManifestVerified RecapContextPrepared)
         else exec_return ()) (\<lambda>_. run_prepared wk run request v)))"
    by (intro frugal_bind frugal_attempted frugal_loads frugal_run_prepared [OF wk]) (simp add: frugal_basic)
qed (auto simp: or_dispose_def frugal_map_err frugal_loads dest!: or_dispose_Inr [unfolded or_dispose_def] load_manifest_Inr)

lemma frugal_process_request:
  assumes wk: "worker_contract wk"
  shows "frugal (worker_inv wk) (process_request wk cmd request)"
  unfolding process_request_def
proof (rule frugal_bind [OF _ frugal_bind_state [where Q = "\<lambda>x. request_run request (fst x)"]])
  fix x :: "uuid \<times> recap_state"
  have "frugal (\<lambda>t. worker_inv wk t \<and> request_run request (fst x) t)
      (or_dispose DispositionNak (attempt_digest_manifest wk (fst x) request))"
    unfolding or_dispose_def by (rule frugal_and [OF frugal_map_err [OF frugal_attempt_manifest] request_run_stable])
  then show "frugal (\<lambda>t. worker_inv wk t \<and> request_run request (fst x) t) (case x of (run, state) \<Rightarrow>
     if state \<in> {RecapCompleted, RecapFailed} then exec_return DispositionAck
     else exec_bind (or_dispose DispositionNak (attempt_digest_manifest wk run request)) (\<lambda>outcome.
       case outcome of
         ManifestRetryScheduled \<Rightarrow> exec_return DispositionNak
       | ManifestFailed \<Rightarrow> exec_return DispositionAck
       | ManifestAccepted \<Rightarrow> run_accepted wk run request))"
    by (cases x) (auto intro!: frugal_basic frugal_bind frugal_run_accepted [OF wk] split: manifest_outcome.split)
qed (auto simp: or_dispose_def frugal_map_err frugal_loads frugal_manifest
    dest!: or_dispose_Inr [unfolded or_dispose_def] load_run_Inr)

end
