(* ===== verification/Recap_History.thy ===== *)
theory Recap_History
  imports Recap_Worker_Sound
begin

text \<open>
  Histories of the recap worker: deliveries of any messages, under any faults, interleaved with anything
  that leaves the recap tables alone.
\<close>

section \<open>Publishing marks, and nothing else\<close>

definition marks_only :: "db \<Rightarrow> db \<Rightarrow> bool" where
  "marks_only t t' =
     (recap_inbox t' = recap_inbox t \<and> recap_runs t' = recap_runs t \<and> recap_manifests t' = recap_manifests t \<and>
      recap_attempts t' = recap_attempts t \<and> recap_results t' = recap_results t \<and>
      map (\<lambda>x. x\<lparr>ro_published := None\<rparr>) (recap_outbox t') = map (\<lambda>x. x\<lparr>ro_published := None\<rparr>) (recap_outbox t))"

lemma marks_children:
  assumes "marks_only t t'"
  shows "children_of t' i = children_of t i" and "map ro_run (recap_outbox t') = map ro_run (recap_outbox t)"
proof -
  let ?n = "\<lambda>x. x\<lparr>ro_published := None\<rparr>"
  have "map fact_core (select_where (\<lambda>x. ro_run x = i) xs) =
      map fact_core (select_where (\<lambda>x. ro_run x = i) (map ?n xs))" for xs
    by (induction xs) (simp_all add: select_where_def fact_core_def)
  then show "children_of t' i = children_of t i"
    using assms by (simp add: children_of_def marks_only_def) (metis (no_types, lifting))
  have "map ro_run xs = map ro_run (map ?n xs)" for xs by simp
  then show "map ro_run (recap_outbox t') = map ro_run (recap_outbox t)"
    using assms unfolding marks_only_def by metis
qed

lemma marks_only_step:
  assumes "marks_only t t'" and "recap_inv rx k t"
  shows "recap_inv rx k t' \<and> recap_after t t'"
proof -
  have "ro_run ` set (recap_outbox t') = ro_run ` set (recap_outbox t)"
    using arg_cong [OF marks_children(2) [OF assms(1)], of set] by simp
  moreover have "ro_run ` set (recap_outbox t) \<subseteq> rn_id ` set (recap_runs t)"
    using assms(2) by (auto simp: recap_inv_def recap_fk_def refers_def list_all_iff)
  ultimately have "refers ro_run (recap_outbox t') rn_id (recap_runs t')"
    using assms(1) by (auto simp: refers_def list_all_iff marks_only_def)
  then have "recap_fk t'"
    using assms by (simp add: recap_inv_def recap_fk_def marks_only_def)
  then show ?thesis
    using assms marks_children(1) [OF assms(1)]
    by (auto simp: recap_inv_def recap_after_def marks_only_def intro: recap_later_refl)
qed

lemma marks_only_refl: "marks_only t t" by (simp add: marks_only_def)

lemma marks_only_trans: "marks_only t t' \<Longrightarrow> marks_only t' t'' \<Longrightarrow> marks_only t t''" by (simp add: marks_only_def)

lemma mark_recap_published_step:
  "mark_recap_published i w = (r, w') \<Longrightarrow> marks_only (tables w) (tables w') \<and> provider_calls w' = provider_calls w"
  unfolding mark_recap_published_def exec_bind_def get_now_def execute_def sql_def marks_only_def
  by (auto simp: update_where_def split: if_splits)

lemma publish_rows_step:
  "publish_recap_rows k rows (w, stream) = (r, (w', stream')) \<Longrightarrow>
     marks_only (tables w) (tables w') \<and> provider_calls w' = provider_calls w \<and>
     (\<exists>new. stream' = stream @ new \<and> (\<forall>m \<in> set new. \<exists>row \<in> set rows. \<exists>at. m = fact_message k at row))"
proof (induction rows arbitrary: w stream)
  case Nil
  then show ?case by (simp add: exec_return_def marks_only_refl)
next
  case (Cons row rows)
  let ?m = "fact_message k (now w) row"
  obtain s1 w1 stream1 where sent: "send ?m (w, stream) = (s1, (w1, stream1))" by (metis prod.exhaust)
  have w1: "tables w1 = tables w" "provider_calls w1 = provider_calls w" "stream1 = stream \<or> stream1 = stream @ [?m]"
    using sent by (auto simp: send_def split: if_splits)
  show ?case
  proof (cases s1)
    case (Inl e)
    then have "w' = w1" "stream' = stream1"
      using Cons.prems sent by (simp_all add: exec_bind_def on_world_def exec_map_err_def get_now_def)
    then show ?thesis using w1 by (auto simp: marks_only_refl)
  next
    case (Inr u)
    obtain r2 w2 where mark: "mark_recap_published (rf_id row) w1 = (r2, w2)" by fastforce
    note 2 = mark_recap_published_step [OF mark]
    show ?thesis
    proof (cases r2)
      case (Inl e)
      then have "w' = w2" "stream' = stream1"
        using Cons.prems sent Inr mark by (simp_all add: exec_bind_def on_world_def exec_map_err_def get_now_def)
      then show ?thesis using w1 2 by auto
    next
      case (Inr u2)
      then have "publish_recap_rows k rows (w2, stream1) = (r, (w', stream'))"
        using Cons.prems sent \<open>s1 = Inr u\<close> mark by (simp add: exec_bind_def on_world_def exec_map_err_def get_now_def)
      from Cons.IH [OF this] obtain new where "marks_only (tables w2) (tables w')" "provider_calls w' = provider_calls w2"
        and new: "stream' = stream1 @ new" "\<forall>m \<in> set new. \<exists>row \<in> set rows. \<exists>at. m = fact_message k at row" by blast
      moreover have "marks_only (tables w) (tables w2)" using 2 w1 by simp
      ultimately show ?thesis
        using w1 2 by (auto intro: marks_only_trans)
    qed
  qed
qed

text \<open>A message names a committed fact of a run.\<close>

definition fact_sent :: "db \<Rightarrow> message \<Rightarrow> bool" where
  "fact_sent t m = (\<exists>r \<in> set (recap_runs t). \<exists>i subject payload.
     (i, subject, payload) \<in> set (kid_facts (children_of t (rn_id r))) \<and>
     ms_id m = uuid_text i \<and> ms_subject m = ''evt.'' @ subject)"

lemma fact_sent_stable:
  assumes "fact_sent t m" and "recap_after t t'"
  shows "fact_sent t' m"
proof -
  obtain r i subject payload where r: "r \<in> set (recap_runs t)"
    and f: "(i, subject, payload) \<in> set (kid_facts (children_of t (rn_id r)))"
      "ms_id m = uuid_text i" "ms_subject m = ''evt.'' @ subject"
    using assms(1) unfolding fact_sent_def by blast
  obtain r' where r': "r' \<in> set (recap_runs t')" "rn_id r' = rn_id r"
      "recap_later r (children_of t (rn_id r)) r' (children_of t' (rn_id r))"
    by (rule recap_after_run [OF assms(2) r])
  have "(i, subject, payload) \<in> set (kid_facts (children_of t' (rn_id r')))"
    using f(1) r'(3) unfolding r'(2) recap_later_def by blast
  then show ?thesis unfolding fact_sent_def using r'(1) f(2,3) by blast
qed

lemma joined_fact_sent:
  assumes "row \<in> set (unpublished_recap_facts t)"
  shows "fact_sent t (fact_message k at row)"
proof -
  obtain x where x: "x \<in> set (recap_outbox t)" "joined_fact t x = Some row"
    using assms by (auto simp: unpublished_recap_facts_def map_filter_def select_where_def dest!: in_set_takeD)
  then obtain r where r: "recap_run_at (ro_run x) t = Some r" and row: "rf_id row = ro_id x" "rf_subject row = ro_subject x"
    by (auto simp: joined_fact_def split: option.splits)
  have "r \<in> set (recap_runs t)" "rn_id r = ro_run x"
    using find_where_SomeD [OF r [unfolded recap_run_at_def]] by simp_all
  then show ?thesis
    unfolding fact_sent_def using x row
    by (intro bexI [of _ r] exI [of _ "ro_id x"] exI [of _ "ro_subject x"] exI [of _ "ro_payload x"])
      (auto simp: children_of_def set_select_where fact_core_def fact_message_def)
qed

section \<open>Histories\<close>

inductive recap_step :: "recap_worker \<Rightarrow> world \<times> message list \<Rightarrow> world \<times> message list \<Rightarrow> bool" for wk where
  step_delivery: "handle_recap_delivery wk delivered content s = (r, s') \<Longrightarrow> recap_step wk s s'"
| step_elsewhere: "same_recaps (tables w) (tables w') \<Longrightarrow> provider_calls w' = provider_calls w \<Longrightarrow>
    recap_step wk (w, stream) (w', stream)"

lemma delivery_step:
  assumes wk: "worker_contract wk" and inv: "worker_inv wk (tables w)"
    and run: "handle_recap_delivery wk delivered content (w, stream) = (r, (w', stream'))"
  shows "worker_inv wk (tables w') \<and> recap_after (tables w) (tables w') \<and>
    provider_calls w' + length (recap_attempts (tables w)) \<le> provider_calls w + length (recap_attempts (tables w')) \<and>
    (\<exists>new. stream' = stream @ new \<and> (\<forall>m \<in> set new. fact_sent (tables w') m))"
proof -
  obtain d w1 where p: "process_message wk content w = (d, w1)" by fastforce
  have 1: "worker_inv wk (tables w1) \<and> recap_after (tables w) (tables w1) \<and>
    provider_calls w1 + length (recap_attempts (tables w)) \<le> provider_calls w + length (recap_attempts (tables w1))"
  proof -
    have "w1 = w \<or> (\<exists>cmd request r. process_request wk cmd request w = (r, w1))"
      using p by (auto simp: process_message_def split: option.splits if_splits sum.splits prod.splits)
    then show ?thesis using inv frugalD [OF frugal_process_request [OF wk]] by auto
  qed
  obtain q w2 where q: "query WorkerWork unpublished_recap_facts w1 = (q, w2)" by fastforce
  have w2: "tables w2 = tables w1" "provider_calls w2 = provider_calls w1"
    using query_cases [OF q] by auto
  show ?thesis
  proof (cases q)
    case (Inl e)
    then have "w' = w2" "stream' = stream"
      using run p q by (simp_all add: handle_recap_delivery_def publish_recap_outbox_def exec_bind_def on_world_def exec_map_err_def)
    then show ?thesis using 1 w2 by simp
  next
    case (Inr rows)
    obtain r3 where rows: "publish_recap_rows (wk_codecs wk) rows (w2, stream) = (r3, (w', stream'))"
      using run p q Inr by (auto simp: handle_recap_delivery_def publish_recap_outbox_def exec_bind_def on_world_def
          exec_map_err_def exec_return_def split: prod.splits sum.splits)
    from publish_rows_step [OF rows] obtain new where marks: "marks_only (tables w1) (tables w')"
        and calls: "provider_calls w' = provider_calls w1"
        and new: "stream' = stream @ new" "\<forall>m \<in> set new. \<exists>row \<in> set rows. \<exists>at. m = fact_message (wk_codecs wk) at row"
      unfolding w2 by blast
    have 2: "worker_inv wk (tables w') \<and> recap_after (tables w1) (tables w')"
      using marks_only_step [OF marks] 1 by blast
    have rows_eq: "rows = unpublished_recap_facts (tables w1)" using query_cases [OF q] Inr by simp
    have "fact_sent (tables w') m" if m: "m \<in> set new" for m
    proof -
      obtain row at where row: "row \<in> set rows" "m = fact_message (wk_codecs wk) at row" using new(2) m by blast
      have "fact_sent (tables w1) m" unfolding row(2) by (rule joined_fact_sent [OF row(1) [unfolded rows_eq]])
      then show ?thesis using fact_sent_stable 2 by blast
    qed
    then show ?thesis
      using 1 2 calls new(1) recap_after_trans marks by (auto simp: marks_only_def)
  qed
qed

lemma history_step:
  assumes "recap_step wk s s'" and "worker_contract wk" and "worker_inv wk (tables (fst s))"
  shows "worker_inv wk (tables (fst s')) \<and> recap_after (tables (fst s)) (tables (fst s')) \<and>
    provider_calls (fst s') + length (recap_attempts (tables (fst s))) \<le>
      provider_calls (fst s) + length (recap_attempts (tables (fst s'))) \<and>
    (\<exists>new. snd s' = snd s @ new \<and> (\<forall>m \<in> set new. fact_sent (tables (fst s')) m))"
  using assms
proof (induction rule: recap_step.induct)
  case (step_delivery delivered content s r s')
  obtain w stream w' stream' where s: "s = (w, stream)" "s' = (w', stream')" by (cases s; cases s') simp
  show ?case
    using delivery_step [OF step_delivery(2) _ step_delivery(1) [unfolded s]] step_delivery(3) unfolding s by simp
next
  case (step_elsewhere w w' stream)
  then show ?case using same_recaps_step [OF step_elsewhere(1)] by (simp add: same_recaps_def)
qed

lemma history:
  assumes "(recap_step wk)\<^sup>*\<^sup>* (w, stream) s'" and "worker_contract wk" and "worker_inv wk (tables w)"
    and "\<And>m. m \<in> set stream \<Longrightarrow> fact_sent (tables w) m"
  shows "worker_inv wk (tables (fst s')) \<and> recap_after (tables w) (tables (fst s')) \<and>
    provider_calls (fst s') + length (recap_attempts (tables w)) \<le> provider_calls w + length (recap_attempts (tables (fst s'))) \<and>
    (\<forall>m \<in> set (snd s'). fact_sent (tables (fst s')) m)"
  using assms(1)
proof (induction rule: rtranclp_induct)
  case base
  then show ?case using assms(3,4) by simp
next
  case (step s s')
  note 1 = history_step [OF step(2) assms(2)]
  have after: "recap_after (tables (fst s)) (tables (fst s'))" using 1 step.IH by blast
  have "recap_after (tables w) (tables (fst s'))" using step.IH after recap_after_trans by blast
  moreover have "\<forall>m \<in> set (snd s'). fact_sent (tables (fst s')) m"
    using 1 step.IH fact_sent_stable [OF _ after] by fastforce
  ultimately show ?case using 1 step.IH by fastforce
qed

end
