(* ===== verification/Recap_Correct.thy ===== *)
theory Recap_Correct
  imports Recap_History Pipeline_Correct
begin

text \<open>
  What every history of the recap worker guarantees: its published facts are true, a settled run is final,
  and calls are bounded. The sample worker receives one command whose manifest is gone.
\<close>

section \<open>A sample worker\<close>

definition sample_recap_request :: recap_request where
  "sample_recap_request =
     \<lparr>kq_owner = ''user:'' @ replicate 36 (CHR ''0''), kq_user = 0, kq_operation = 3, kq_digest_run = 4,
      kq_manifest_ref = ''channel-digest-manifest:'' @ replicate 36 (CHR ''0''), kq_digest_is_sha256 = True,
      kq_manifest_digest = replicate 64 (CHR ''0''), kq_start = 0, kq_end = 1, kq_sources = 1, kq_channels = 1,
      kq_language = En\<rparr>"

definition linked_payload :: "string \<Rightarrow> uuid \<Rightarrow> string \<Rightarrow> json" where
  "linked_payload owner run digest = JObj [(''owner'', JStr owner), (''digest_run_id'', JStr (uuid_text run)),
     (''manifest_digest'', JObj [(''hex'', JStr digest)])]"

definition sample_contracts :: recap_contracts where
  "sample_contracts =
     \<lparr>rx_payload = (\<lambda>_. Inr sample_recap_request), rx_encode_request = (\<lambda>_. Some (JObj [])),
      rx_decode_request = (\<lambda>_. Some sample_recap_request), rx_encode_manifest = (\<lambda>_. None),
      rx_decode_manifest = (\<lambda>_. None), rx_failed_reads = (\<lambda>_. True), rx_failed_valid = (\<lambda>_. True),
      rx_encode_failed = (\<lambda>f. Some (linked_payload (ff_owner f) (ff_digest_run f) (ff_manifest_digest f))),
      rx_encode_code = (\<lambda>_. Some (JStr ''manifest_unavailable'')), rx_completed_reads = (\<lambda>_. True),
      rx_completed_valid = (\<lambda>_. True),
      rx_encode_completed = (\<lambda>f. Some (linked_payload (cf_owner f) (cf_digest_run f) (cf_manifest_digest f)))\<rparr>"

definition sample_codecs :: recap_codecs where
  "sample_codecs = \<lparr>rk_text = (\<lambda>_. []), rk_bytes = (\<lambda>_. []), rk_sha = (\<lambda>_. replicate 64 (CHR ''0'')), rk_wire = (\<lambda>_. [])\<rparr>"

definition gone_source :: digest_source where
  "gone_source = \<lparr>ds_parses = (\<lambda>_. True), ds_joins = (\<lambda>_. True),
     ds_get = (\<lambda>_. Some \<lparr>ha_status = 410, ha_length = None, ha_chunks = []\<rparr>), ds_in_time = (\<lambda>_. True),
     ds_byte_cap = 10, ds_retry_delay_ms = 0\<rparr>"

definition sample_command :: command where
  "sample_command = \<lparr>ce_command = 1, ce_type = ''recap'', ce_producer = recap_producer,
     ce_tenant = Some (kq_owner sample_recap_request), ce_payload = JNull\<rparr>"

definition sample_worker :: "digest_source \<Rightarrow> recap_worker" where
  "sample_worker source =
     \<lparr>wk_contracts = sample_contracts, wk_codecs = sample_codecs, wk_source = source,
      wk_manifest_sha = (\<lambda>_. replicate 64 (CHR ''0'')), wk_parse_manifest = (\<lambda>_. Inl ContractOther),
      wk_parse_command = (\<lambda>_. Some sample_command), wk_texts = \<lparr>rt_system = [], rt_task = [], rt_schema = JNull\<rparr>,
      wk_context_characters = 1000, wk_max_output_tokens = 100, wk_subject = ''cmd.recap'',
      wk_env = (\<lambda>_. \<lparr>rv_driver = \<lparr>dv_store = sample_store, dv_identity = offline_identity,
          dv_generate = offline_provider (\<lambda>_. []) (\<lambda>_. None), dv_policy = []\<rparr>,
        rv_contracts = sample_contracts, rv_codecs = sample_codecs, rv_parse = (\<lambda>_. None)\<rparr>)\<rparr>"

definition sample_run :: recap_run_row where
  "sample_run = recap_run_of 1 sample_command sample_recap_request"

definition admitted_world :: world where
  "admitted_world = empty_world\<lparr>fresh := 2, tables := empty_db\<lparr>
     recap_inbox := [inbox_row_of sample_command sample_recap_request (JObj [])], recap_runs := [sample_run]\<rparr>\<rparr>"

lemma sample_admission:
  "accept_recap_command sample_contracts sample_command empty_world = (Inr RecapAccepted, admitted_world)"
proof -
  have "recap_inbox_ok (inbox_row_of sample_command sample_recap_request (JObj []))"
    by (simp add: recap_inbox_ok_def inbox_row_of_def sample_recap_request_def matches_ref_def is_digest_hex_def
        week_def list_all_iff is_hex_digit_def)
  moreover have "recap_run_ok sample_run" by (simp add: sample_run_def recap_run_of_def recap_run_ok_def)
  moreover have "recap_fk (empty_db\<lparr>recap_inbox := [inbox_row_of sample_command sample_recap_request (JObj [])], recap_runs := [sample_run]\<rparr>)"
    by (simp add: recap_fk_def refers_def empty_db_def sample_run_def recap_run_of_def inbox_row_of_def)
  moreover have "recap_inbox empty_db = []" "recap_runs empty_db = []" by (simp_all add: empty_db_def)
  ultimately have "accept_command_body sample_command sample_recap_request (JObj []) empty_world = (Inr RecapAccepted, admitted_world)"
    unfolding admitted_world_def sample_run_def
    by (simp add: accept_command_body_def Let_def exec_bind_def insert_command_def sql_works exists_where_def new_uuid_def
        insert_recap_run_def exec_return_def)
  then have "transact (CommandPersistence Query) (accept_command_body sample_command sample_recap_request (JObj []))
      empty_world = (Inr RecapAccepted, admitted_world)"
    by (rule transact_works [rotated]) (simp_all add: admitted_world_def)
  then show ?thesis
    by (simp add: accept_recap_command_def admit_channel_digest_recap_def sample_contracts_def)
      (simp add: sample_command_def)
qed

definition failed_world :: world where
  "failed_world = admitted_world\<lparr>fresh := 3, tables := (tables admitted_world)\<lparr>
     recap_runs := [sample_run\<lparr>rn_state := RecapFailed, rn_failure := Some ''manifest_unavailable'', rn_manifest_attempts := 1\<rparr>],
     recap_outbox := [\<lparr>ro_id = 2, ro_run = 1, ro_subject = failed_subject,
       ro_payload = linked_payload (kq_owner sample_recap_request) 4 (kq_manifest_digest sample_recap_request),
       ro_created = 0, ro_published = None\<rparr>]\<rparr>\<rparr>"

lemma admitted_calm: "no_faults admitted_world" "now admitted_world = 0"
  by (simp_all add: admitted_world_def)

lemma sample_linked:
  "settlement_matches_linkage \<lparr>tl_terminal = s, tl_subject = j, tl_payload = linked_payload o' d h, tl_failure = f, tl_result = r\<rparr>
     o' (uuid_text d) h"
  by (simp add: settlement_matches_linkage_def linked_payload_def)

lemma sample_tables [simp]:
  "recap_runs (tables admitted_world) = [sample_run]" "recap_outbox (tables admitted_world) = []"
  "recap_inbox (tables admitted_world) = [inbox_row_of sample_command sample_recap_request (JObj [])]"
  by (simp_all add: admitted_world_def empty_db_def)

lemma sample_run_columns [simp]:
  "rn_id sample_run = 1" "rn_state sample_run = RecapReceived" "rn_owner sample_run = kq_owner sample_recap_request"
  "rn_digest_run sample_run = 4" "rn_manifest_digest sample_run = kq_manifest_digest sample_recap_request"
  "rn_failure sample_run = None" "rn_manifest_attempts sample_run = 0" "rn_retry_not_before sample_run = None"
  "rn_attempts sample_run = 0" "rn_command sample_run = 1"
  by (simp_all add: sample_run_def recap_run_of_def sample_recap_request_def sample_command_def)

lemma sample_status:
  "manifest_status 1 admitted_world = (Inr \<lparr>mx_state = RecapReceived, mx_attempts = 0, mx_ready = True\<rparr>, admitted_world)"
  by (simp add: manifest_status_def get_now_def exec_bind_def query_works admitted_calm recap_run_at_def find_where_def
      exec_return_def del: recap_state_as_str.simps)

definition sample_settlement :: terminal_settlement where
  "sample_settlement = \<lparr>tl_terminal = RecapFailed, tl_subject = failed_subject,
     tl_payload = linked_payload (kq_owner sample_recap_request) 4 (kq_manifest_digest sample_recap_request),
     tl_failure = Some ''manifest_unavailable'', tl_result = None\<rparr>"

lemma sample_settled_row:
  "settled_row sample_settlement sample_run =
     sample_run\<lparr>rn_state := RecapFailed, rn_failure := Some ''manifest_unavailable'', rn_manifest_attempts := 1\<rparr>"
  by (simp add: settled_row_def sample_settlement_def is_manifest_failure_def sample_run_def recap_run_of_def)

lemma sample_terminal [simp]: "tl_terminal sample_settlement = RecapFailed"
  by (simp add: sample_settlement_def)

lemma sample_update:
  "update_recap_run run_query (\<lambda>r. in_state 1 RecapReceived r \<and> rn_state r \<noteq> RecapCompleted \<and> rn_state r \<noteq> RecapFailed)
     (settled_row sample_settlement) admitted_world =
   (Inr 1, admitted_world\<lparr>tables := (tables admitted_world)\<lparr>recap_runs :=
     [sample_run\<lparr>rn_state := RecapFailed, rn_failure := Some ''manifest_unavailable'', rn_manifest_attempts := 1\<rparr>]\<rparr>\<rparr>)"
  by (simp add: update_recap_run_def sql_works admitted_calm in_state_def sample_settled_row recap_run_ok_def count_where_def
      update_where_def)

lemma sample_fk: "recap_fk (tables failed_world)"
  by (simp add: failed_world_def recap_fk_def refers_def inbox_row_of_def sample_command_def)
    (simp add: admitted_world_def empty_db_def)

lemma sample_body: "settle_body 1 RecapReceived sample_settlement admitted_world = (Inr (), failed_world)"
proof -
  let ?w = "admitted_world\<lparr>tables := (tables admitted_world)\<lparr>recap_runs :=
     [sample_run\<lparr>rn_state := RecapFailed, rn_failure := Some ''manifest_unavailable'', rn_manifest_attempts := 1\<rparr>]\<rparr>\<rparr>"
  let ?x = "\<lparr>ro_id = 2, ro_run = 1, ro_subject = tl_subject sample_settlement, ro_payload = tl_payload sample_settlement,
           ro_created = 0, ro_published = None\<rparr>"
  have "insert_recap_outbox ?x (?w\<lparr>fresh := 3\<rparr>) = (Inr (), failed_world)"
    using sample_fk unfolding failed_world_def
    by (simp add: insert_recap_outbox_def sql_works admitted_calm Let_def exists_where_def sample_settlement_def linked_payload_def)
  moreover have "recap_in_state 1 RecapReceived (tables admitted_world) = Some sample_run"
    by (simp add: recap_in_state_def find_where_def in_state_def)
  moreover have "settlement_matches_linkage sample_settlement (rn_owner sample_run) (uuid_text (rn_digest_run sample_run))
      (rn_manifest_digest sample_run)"
    by (simp add: sample_settlement_def sample_linked)
  moreover have "tl_result sample_settlement = None" "fresh ?w = 2" "now ?w = 0"
    by (simp_all add: sample_settlement_def admitted_world_def)
  ultimately show ?thesis
    by (simp add: settle_body_def exec_bind_def query_works admitted_calm exec_guard_apply exec_return_def sample_update
        new_uuid_def get_now_def del: One_nat_def)
qed

lemma sample_settle:
  "settle_manifest_failure sample_contracts 1 RecapReceived sample_recap_request CodeManifestUnavailable admitted_world =
     (Inr (), failed_world)"
proof -
  have "transact run_query (settle_body 1 RecapReceived sample_settlement) admitted_world = (Inr (), failed_world)"
    using sample_body transact_works [of admitted_world "settle_body 1 RecapReceived sample_settlement" "()" failed_world run_query]
    by (simp add: failed_world_def admitted_calm)
  moreover have "kq_digest_run sample_recap_request = 4" by (simp add: sample_recap_request_def)
  ultimately show ?thesis
    by (simp add: settle_manifest_failure_def Let_def failed_fact_of_def sample_contracts_def exec_bind_def
      get_now_def exec_guard_apply settle_failed_def settle_def sample_settlement_def)
qed

lemma sample_fetch: "fetch_manifest gone_source (authority_of sample_recap_request) = Inl SourceGone"
  by (simp add: authority_of_def sample_recap_request_def is_digest_hex_def is_hex_digit_def list_all_iff
      fetch_manifest_def fetch_manifest_once_def gone_source_def classify_answer_def)

lemma sample_attempt:
  "attempt_digest_manifest (sample_worker gone_source) 1 sample_recap_request admitted_world = (Inr ManifestFailed, failed_world)"
  by (simp add: attempt_digest_manifest_def exec_bind_def sample_status Let_def sample_fetch sample_worker_def sample_settle
      exec_return_def del: One_nat_def)

lemma sample_process: "process_message (sample_worker gone_source) [] empty_world = (DispositionAck, failed_world)"
proof -
  have "load_run sample_recap_request admitted_world = (Inr (1, RecapReceived), admitted_world)"
    by (simp add: load_run_def exec_bind_def query_works admitted_calm find_where_def run_of_request_def exec_return_def)
      (simp add: sample_run_def recap_run_of_def sample_recap_request_def)
  moreover have "wk_contracts (sample_worker gone_source) = sample_contracts" by (simp add: sample_worker_def)
  ultimately have "process_request (sample_worker gone_source) sample_command sample_recap_request empty_world =
      (Inr DispositionAck, failed_world)"
    using sample_admission sample_attempt
    by (simp add: process_request_def exec_bind_def or_dispose_def exec_map_err_def exec_return_def del: One_nat_def)
  then show ?thesis
    by (simp add: process_message_def sample_worker_def sample_contracts_def expected_type_def sample_command_def)
qed

definition sample_row :: recap_fact_row where
  "sample_row = \<lparr>rf_id = 2, rf_subject = failed_subject, rf_payload = tl_payload sample_settlement, rf_digest_run = 4,
     rf_owner = kq_owner sample_recap_request, rf_operation = 3, rf_command = 1, rf_created = 0\<rparr>"

lemma sample_unpublished: "unpublished_recap_facts (tables failed_world) = [sample_row]"
proof -
  have "joined_fact (tables failed_world) \<lparr>ro_id = 2, ro_run = 1, ro_subject = failed_subject,
       ro_payload = tl_payload sample_settlement, ro_created = 0, ro_published = None\<rparr> = Some sample_row"
    by (simp add: joined_fact_def recap_run_at_def command_of_run_def failed_world_def find_where_def sample_row_def
        inbox_row_of_def sample_command_def)
      (simp add: sample_recap_request_def)
  then show ?thesis
    by (simp add: unpublished_recap_facts_def failed_world_def select_where_def map_filter_simps sample_settlement_def)
qed

lemma sample_delivery:
  "\<exists>w'. handle_recap_delivery (sample_worker gone_source) 1 [] (empty_world, []) =
     (Inr AckDelivery, (w', [fact_message sample_codecs 0 sample_row])) \<and>
     recap_runs (tables w') = recap_runs (tables failed_world)"
proof -
  have calm: "no_faults failed_world" "now failed_world = 0" by (simp_all add: failed_world_def admitted_calm)
  have codecs: "wk_codecs (sample_worker gone_source) = sample_codecs" by (simp add: sample_worker_def)
  show ?thesis
    by (simp add: handle_recap_delivery_def exec_bind_def sample_process publish_recap_outbox_def on_world_def exec_map_err_def
        query_works calm sample_unpublished codecs get_now_def send_def mark_recap_published_def execute_works exec_return_def)
qed

lemma sample_contract: "worker_contract (sample_worker source)"
  by (simp add: worker_contract_def sample_worker_def recap_provider_def offline_provider_def same_recaps_def)

section \<open>Histories that start without recaps\<close>

lemma no_recaps_inv: "same_recaps empty_db t \<Longrightarrow> recap_inv rx k t"
  by (simp add: recap_inv_def same_recaps_def empty_db_def recap_fk_def refers_def key_unique_def)

lemma recap_histories:
  assumes "worker_contract wk" and "(recap_step wk)\<^sup>*\<^sup>* (w, []) (w', stream)" and "same_recaps empty_db (tables w)"
  shows "worker_inv wk (tables w')" and "m \<in> set stream \<Longrightarrow> fact_sent (tables w') m"
    and "provider_calls w' \<le> provider_calls w + length (recap_attempts (tables w'))"
  using history [OF assms(2,1) no_recaps_inv [OF assms(3)]] assms(3) by (auto simp: same_recaps_def empty_db_def)

lemma sample_history: "\<exists>w'. (recap_step (sample_worker gone_source))\<^sup>*\<^sup>* (empty_world, [])
    (w', [fact_message sample_codecs 0 sample_row]) \<and> recap_runs (tables w') = recap_runs (tables failed_world)"
  using sample_delivery step_delivery [of "sample_worker gone_source" 1 "[]" "(empty_world, [])"] by blast

lemma same_recaps_empty: "same_recaps empty_db (tables empty_world)"
  by (simp add: same_recaps_def)

text \<open>
  C2: whatever is delivered to the recap worker, in any order and any number of times, whatever the
  provider answers and whichever statements fail or are lost, every message it has published names the
  only fact of a settled run: a completed fact announces the only result of its run, by its id, digest and
  coverage, and that result is a recap that validation accepted for a context prepared from the stored
  manifest of the run, under the digest and in the language of its command; a failed fact belongs to a
  failed run.
\<close>

theorem published_recap_facts_true:
  assumes "worker_contract wk" and "(recap_step wk)\<^sup>*\<^sup>* (w, []) (w', stream)" and "same_recaps empty_db (tables w)"
    and "m \<in> set stream"
  shows "\<exists>r i subject payload. r \<in> set (recap_runs (tables w')) \<and>
    ms_id m = uuid_text i \<and> ms_subject m = ''evt.'' @ subject \<and> payload_linked r payload \<and>
    kid_facts (children_of (tables w') (rn_id r)) = [(i, subject, payload)] \<and>
    (rn_state r = RecapFailed \<and> subject = failed_subject \<or>
     rn_state r = RecapCompleted \<and> subject = completed_subject \<and>
       (\<exists>o'. kid_results (children_of (tables w') (rn_id r)) = [o'] \<and> announces (wk_contracts wk) payload o' \<and>
          grounded_result (wk_contracts wk) (wk_codecs wk) r (kid_manifests (children_of (tables w') (rn_id r))) o'))"
proof -
  note inv = recap_histories(1) [OF assms(1-3)]
  obtain r i subject payload where r: "r \<in> set (recap_runs (tables w'))"
    and fct: "(i, subject, payload) \<in> set (kid_facts (children_of (tables w') (rn_id r)))"
    and m: "ms_id m = uuid_text i" "ms_subject m = ''evt.'' @ subject"
    using recap_histories(2) [OF assms] unfolding fact_sent_def by blast
  have "run_inv (wk_contracts wk) (wk_codecs wk) (recap_inbox (tables w')) r (children_of (tables w') (rn_id r))"
    by (rule recap_inv_run [OF inv r])
  then have facts: "facts_inv (wk_contracts wk) r (children_of (tables w') (rn_id r))"
    and results: "results_inv (wk_contracts wk) (wk_codecs wk) r (children_of (tables w') (rn_id r))"
    by (simp_all add: run_inv_def)
  show ?thesis
    using facts results fct by (intro exI [of _ r] exI [of _ i] exI [of _ subject] exI [of _ payload])
      (auto simp: facts_inv_def results_inv_def r m split: if_splits)
qed

theorem published_recap_facts_true_witness:
  "\<exists>w' r. (recap_step (sample_worker gone_source))\<^sup>*\<^sup>* (empty_world, [])
     (w', [fact_message sample_codecs 0 sample_row]) \<and> r \<in> set (recap_runs (tables w')) \<and> rn_state r = RecapFailed"
proof -
  obtain w' where h: "(recap_step (sample_worker gone_source))\<^sup>*\<^sup>* (empty_world, [])
      (w', [fact_message sample_codecs 0 sample_row])" using sample_history by blast
  have "\<exists>r. r \<in> set (recap_runs (tables w')) \<and> rn_state r = RecapFailed"
    using published_recap_facts_true [OF sample_contract h same_recaps_empty]
    by (auto simp: fact_message_def sample_row_def failed_subject_def completed_subject_def)
  then show ?thesis using h by blast
qed

text \<open>
  C3: in such a history a run keeps its identity (its command, owner, digest run, manifest digest and
  language) and moves only along the edges of its life cycle, and a settled run is final: its row, its fact and
  its result never change again, however often its command is delivered.
\<close>

theorem settled_recap_is_final:
  assumes "worker_contract wk" and "same_recaps empty_db (tables w)" and "(recap_step wk)\<^sup>*\<^sup>* (w, []) (w1, s1)"
    and "(recap_step wk)\<^sup>*\<^sup>* (w1, s1) (w2, s2)" and "r \<in> set (recap_runs (tables w1))"
  shows "\<exists>r' \<in> set (recap_runs (tables w2)). run_identity_columns r' = run_identity_columns r \<and>
    recap_edge\<^sup>*\<^sup>* (rn_state r) (rn_state r') \<and>
    (recap_is_terminal (rn_state r) \<longrightarrow> r' = r \<and>
       kid_facts (children_of (tables w2) (rn_id r)) = kid_facts (children_of (tables w1) (rn_id r)) \<and>
       kid_results (children_of (tables w2) (rn_id r)) = kid_results (children_of (tables w1) (rn_id r)))"
proof -
  let ?ch1 = "children_of (tables w1) (rn_id r)" and ?ch2 = "children_of (tables w2) (rn_id r)"
  note inv1 = recap_histories(1) [OF assms(1,3,2)]
  have inv2: "worker_inv wk (tables w2)" and after: "recap_after (tables w1) (tables w2)"
    using history [OF assms(4,1) inv1] recap_histories(2) [OF assms(1,3,2)] by auto
  obtain r' where r': "r' \<in> set (recap_runs (tables w2))" "rn_id r' = rn_id r" and later: "recap_later r ?ch1 r' ?ch2"
    by (rule recap_after_run [OF after assms(5)])
  have 1: "run_inv (wk_contracts wk) (wk_codecs wk) (recap_inbox (tables w1)) r ?ch1" by (rule recap_inv_run [OF inv1 assms(5)])
  have 2: "run_inv (wk_contracts wk) (wk_codecs wk) (recap_inbox (tables w2)) r' ?ch2"
    using recap_inv_run [OF inv2 r'(1)] by (simp add: r'(2))
  have "kid_facts ?ch2 = kid_facts ?ch1 \<and> kid_results ?ch2 = kid_results ?ch1" if t: "recap_is_terminal (rn_state r)"
  proof -
    have same: "r' = r" using later t unfolding recap_later_def by blast
    have sub: "set (kid_facts ?ch1) \<subseteq> set (kid_facts ?ch2)" "set (kid_results ?ch1) \<subseteq> set (kid_results ?ch2)"
      using later by (simp_all add: recap_later_def)
    show ?thesis
      using 1 2 t sub unfolding same by (auto simp: run_inv_def facts_inv_def results_inv_def split: if_splits)
  qed
  then show ?thesis using r'(1) later unfolding recap_later_def by blast
qed

theorem settled_recap_is_final_witness:
  "\<exists>w1 s1 w2 s2. (recap_step (sample_worker gone_source))\<^sup>*\<^sup>* (empty_world, []) (w1, s1) \<and>
     recap_step (sample_worker gone_source) (w1, s1) (w2, s2) \<and>
     (\<exists>r. r \<in> set (recap_runs (tables w1)) \<and> rn_state r = RecapFailed \<and> r \<in> set (recap_runs (tables w2)))"
proof -
  obtain w1 s1 where h: "(recap_step (sample_worker gone_source))\<^sup>*\<^sup>* (empty_world, []) (w1, s1)"
    and runs: "recap_runs (tables w1) = recap_runs (tables failed_world)" using sample_history by blast
  obtain a w2 s2 where "handle_recap_delivery (sample_worker gone_source) 2 [] (w1, s1) = (a, (w2, s2))" by (metis prod.exhaust)
  then have step: "recap_step (sample_worker gone_source) (w1, s1) (w2, s2)" by (rule step_delivery)
  obtain r where r: "r \<in> set (recap_runs (tables w1))" "rn_state r = RecapFailed" by (simp add: runs failed_world_def)
  have "r \<in> set (recap_runs (tables w2))"
    using settled_recap_is_final [OF sample_contract same_recaps_empty h _ r(1)] step r(2) by auto
  then show ?thesis using h step r by blast
qed

section \<open>Calls\<close>

lemma length_by_key:
  assumes "finite S" and "f ` set xs \<subseteq> S"
  shows "length xs = (\<Sum>i\<in>S. length (filter (\<lambda>x. f x = i) xs))"
  using assms(2)
proof (induction xs)
  case (Cons x xs)
  have "(\<Sum>i\<in>S. length (filter (\<lambda>y. f y = i) (x # xs))) = (\<Sum>i\<in>S. (if f x = i then 1 else 0) + length (filter (\<lambda>y. f y = i) xs))"
    by (rule sum.cong) auto
  also have "\<dots> = 1 + (\<Sum>i\<in>S. length (filter (\<lambda>y. f y = i) xs))"
    using assms(1) Cons.prems by (simp add: sum.distrib sum.delta)
  finally show ?case using Cons by simp
qed simp

lemma two_attempts:
  assumes "attempts_inv r as"
  shows "length as \<le> 2"
proof -
  have "set (map ra_ordinal as) \<subseteq> {1, 2}"
    using assms by (auto simp: attempts_inv_def recap_attempt_ok_def list_all_iff)
  then have "card (set (map ra_ordinal as)) \<le> card {1 :: nat, 2}" by (rule card_mono [rotated]) simp
  then show ?thesis using assms distinct_card [of "map ra_ordinal as"] by (simp add: attempts_inv_def)
qed

text \<open>
  C4: the provider is called at most once per recorded attempt, and at most twice over the whole life of a
  run: no pattern of redeliveries, timeouts, lost statements or stops makes the worker spend more.
\<close>

theorem recap_calls_bounded:
  assumes "worker_contract wk" and "(recap_step wk)\<^sup>*\<^sup>* (w, []) (w', stream)" and "same_recaps empty_db (tables w)"
  shows "provider_calls w' \<le> provider_calls w + length (recap_attempts (tables w')) \<and>
    length (recap_attempts (tables w')) \<le> 2 * length (recap_runs (tables w'))"
proof -
  note inv = recap_histories(1) [OF assms]
  let ?t = "tables w'" and ?ids = "rn_id ` set (recap_runs (tables w'))"
  have "length (filter (\<lambda>a. ra_run a = i) (recap_attempts ?t)) \<le> 2" if i: "i \<in> ?ids" for i
  proof -
    obtain r where r: "r \<in> set (recap_runs ?t)" "i = rn_id r" using i by blast
    then have "attempts_inv r (kid_attempts (children_of ?t i))"
      using recap_inv_run [OF inv r(1)] by (simp add: run_inv_def)
    then show ?thesis using two_attempts by (simp add: children_of_def select_where_def)
  qed
  then have "(\<Sum>i\<in>?ids. length (filter (\<lambda>a. ra_run a = i) (recap_attempts ?t))) \<le> (\<Sum>i\<in>?ids. 2)" by (rule sum_mono)
  moreover have "ra_run ` set (recap_attempts ?t) \<subseteq> ?ids"
    using inv by (auto simp: recap_inv_def recap_fk_def refers_def list_all_iff)
  moreover have "card ?ids \<le> length (recap_runs ?t)"
    by (rule order.trans [OF card_image_le card_length]) simp
  ultimately have "length (recap_attempts ?t) \<le> 2 * length (recap_runs ?t)"
    using length_by_key [of ?ids ra_run "recap_attempts ?t"] by simp
  then show ?thesis using recap_histories(3) [OF assms] by simp
qed

theorem recap_calls_bounded_witness:
  "\<exists>w' stream. (recap_step (sample_worker gone_source))\<^sup>*\<^sup>* (empty_world, []) (w', stream) \<and> stream \<noteq> [] \<and>
     provider_calls w' \<le> 2"
proof -
  obtain w' where h: "(recap_step (sample_worker gone_source))\<^sup>*\<^sup>* (empty_world, [])
      (w', [fact_message sample_codecs 0 sample_row])" and runs: "recap_runs (tables w') = recap_runs (tables failed_world)"
    using sample_history by blast
  have "provider_calls w' \<le> 2"
    using recap_calls_bounded [OF sample_contract h same_recaps_empty] by (simp add: runs failed_world_def empty_world_def)
  then show ?thesis using h by blast
qed

end
