(* ===== verification/Transport.thy ===== *)
theory Transport
  imports Vocabulary
begin

text \<open>
  The transport discipline both provider adapters share (\<open>openrouter.rs\<close>, \<open>embeddings.rs\<close>): the
  classification of a failed response, the byte cap on a streamed body, the jittered backoff and the
  retry loop around one try. The network, the randomness of the hasher and the clock are parameters
  over a state of any type, so nothing is assumed of what they answer.
\<close>

section \<open>The network\<close>

text \<open>
  One request: no response in time, no response at all, or a status with a body that arrives in
  chunks until it ends, stalls or breaks.
\<close>

datatype body_event = BodyChunk bytes | BodyTimeout | BodyBroken

datatype sent = SendTimeout | SendBroken | Reply "16 word" "body_event list"

text \<open>
  \<open>net_draw\<close> is the value of the randomly keyed hasher that \<open>jittered_backoff\<close> reads and
  \<open>net_sleep\<close> the wait in milliseconds.
\<close>

record 'w network =
  net_post :: "bytes \<Rightarrow> 'w \<Rightarrow> sent \<times> 'w"
  net_draw :: "32 word \<Rightarrow> 'w \<Rightarrow> 64 word \<times> 'w"
  net_sleep :: "64 word \<Rightarrow> 'w \<Rightarrow> 'w"

section \<open>Failures\<close>

definition classify_error :: "16 word \<Rightarrow> provider_failure" where
  "classify_error status =
     (let (error, class) =
        (if status = 408 then (Transient, ClassTimeout)
         else if status = 429 then (Transient, ClassRateLimited)
         else if 500 \<le> status \<and> status \<le> 599 then (Transient, ClassServerError)
         else if status = 401 \<or> status = 403 then (OperatorAction, ClassAuthError)
         else if status = 402 then (OperatorAction, ClassPaymentRequired)
         else if status = 404 then (OperatorAction, ClassModelUnavailable)
         else (Permanent, ClassRequestInvalid))
      in \<lparr>pf_error = error, pf_class = class, pf_http_status = Some status\<rparr>)"

definition network_failure :: provider_failure where
  "network_failure = \<lparr>pf_error = Transient, pf_class = ClassNetwork, pf_http_status = None\<rparr>"

definition timeout_failure :: provider_failure where
  "timeout_failure = \<lparr>pf_error = Transient, pf_class = ClassTimeout, pf_http_status = None\<rparr>"

definition request_invalid :: "16 word option \<Rightarrow> provider_failure" where
  "request_invalid status = \<lparr>pf_error = Permanent, pf_class = ClassRequestInvalid, pf_http_status = status\<rparr>"

definition size_failure :: provider_failure where
  "size_failure = \<lparr>pf_error = Permanent, pf_class = ClassSizeLimit, pf_http_status = None\<rparr>"

section \<open>One try\<close>

fun read_capped :: "nat \<Rightarrow> body_event list \<Rightarrow> bytes \<Rightarrow> provider_failure + bytes" where
  "read_capped byte_cap [] so_far = Inr so_far"
| "read_capped byte_cap (BodyChunk chunk # events) so_far =
     (if length so_far + length chunk > byte_cap then Inl size_failure
      else read_capped byte_cap events (so_far @ chunk))"
| "read_capped byte_cap (BodyTimeout # events) so_far = Inl timeout_failure"
| "read_capped byte_cap (BodyBroken # events) so_far = Inl network_failure"

definition status_is_success :: "16 word \<Rightarrow> bool" where
  "status_is_success status = (200 \<le> status \<and> status \<le> 299)"

text \<open>
  \<open>try_once\<close> of both adapters: encode the body, send it, and read what comes bk; \<open>parse\<close> is the
  adapter's own reading of a success envelope, whose every failure is an invalid request.
\<close>

definition settle_sent :: "nat \<Rightarrow> (bytes \<Rightarrow> 'e + 'a) \<Rightarrow> sent \<Rightarrow> provider_failure + 'a" where
  "settle_sent byte_cap parse answer =
     (case answer of
        SendTimeout \<Rightarrow> Inl timeout_failure
      | SendBroken \<Rightarrow> Inl network_failure
      | Reply status events \<Rightarrow>
          if \<not> status_is_success status then Inl (classify_error status)
          else case read_capped byte_cap events [] of
                 Inl failure \<Rightarrow> Inl failure
               | Inr body \<Rightarrow> (case parse body of
                     Inl _ \<Rightarrow> Inl (request_invalid (Some status))
                   | Inr x \<Rightarrow> Inr x))"

definition try_once ::
  "'w network \<Rightarrow> (json \<Rightarrow> bytes option) \<Rightarrow> nat \<Rightarrow> (bytes \<Rightarrow> 'e + 'a) \<Rightarrow> json \<Rightarrow> 'w \<Rightarrow> (provider_failure + 'a) \<times> 'w" where
  "try_once net encode byte_cap parse body w =
     (case encode body of
        None \<Rightarrow> (Inl (request_invalid None), w)
      | Some payload \<Rightarrow> (case net_post net payload w of (answer, w') \<Rightarrow> (settle_sent byte_cap parse answer, w')))"

section \<open>Backoff and retry\<close>

record retry_policy =
  max_tries :: "32 word"
  base_delay_ms :: "64 word"
  max_delay_ms :: "64 word"

definition backoff_ceiling :: "retry_policy \<Rightarrow> 32 word \<Rightarrow> 64 word" where
  "backoff_ceiling policy try_index =
     min (sat_mul (base_delay_ms policy) (push_bit (unat (min try_index 16)) 1))
         (max (max_delay_ms policy) (base_delay_ms policy))"

text \<open>
  \<open>ceiling + 1\<close> overflows for a ceiling of \<open>u64::MAX\<close>: the addition panics in a checked build and the
  remainder by zero panics in a release build. \<open>None\<close> is that panic.
\<close>

definition jittered_backoff :: "'w network \<Rightarrow> retry_policy \<Rightarrow> 32 word \<Rightarrow> 'w \<Rightarrow> 64 word option \<times> 'w" where
  "jittered_backoff net policy try_index w =
     (if base_delay_ms policy = 0 then (Some 0, w)
      else case net_draw net try_index w of (draw, w') \<Rightarrow>
        (let ceiling = backoff_ceiling policy try_index in
         (if ceiling = - 1 then None else Some (draw mod (ceiling + 1)), w')))"

definition retryable :: "provider_failure \<Rightarrow> bool" where
  "retryable failure = (pf_class failure \<in> {ClassNetwork, ClassRateLimited, ClassServerError})"

datatype 'a call_result = Answered 'a | CallFailed provider_failure | CallPanicked

text \<open>The \<open>loop\<close> of \<open>generate_json\<close> and \<open>embed\<close>; a call that never returned would be \<open>None\<close>.\<close>

partial_function (option) retry_loop ::
  "'w network \<Rightarrow> retry_policy \<Rightarrow> ('w \<Rightarrow> (provider_failure + 'a) \<times> 'w) \<Rightarrow> 32 word \<Rightarrow> 'w \<Rightarrow> ('a call_result \<times> 'w) option" where
  "retry_loop net policy attempt try_index w =
     (case attempt w of
        (Inr response, w1) \<Rightarrow> Some (Answered response, w1)
      | (Inl failure, w1) \<Rightarrow>
          if \<not> retryable failure \<or> try_index + 1 \<ge> max_tries policy then Some (CallFailed failure, w1)
          else case jittered_backoff net policy try_index w1 of
                 (None, w2) \<Rightarrow> Some (CallPanicked, w2)
               | (Some delay, w2) \<Rightarrow>
                   retry_loop net policy attempt (try_index + 1)
                     (if delay = 0 then w2 else net_sleep net delay w2))"

section \<open>The loop ends\<close>

text \<open>
  A network that also keeps the number of requests and the waits between them, to state how much of
  either a call can use.
\<close>

definition counting :: "'w network \<Rightarrow> ('w \<times> nat \<times> 64 word list) network" where
  "counting net = \<lparr>
     net_post = (\<lambda>payload (w, n, ds). case net_post net payload w of (r, w') \<Rightarrow> (r, (w', n + 1, ds))),
     net_draw = (\<lambda>i (w, n, ds). case net_draw net i w of (r, w') \<Rightarrow> (r, (w', n, ds))),
     net_sleep = (\<lambda>d (w, n, ds). (net_sleep net d w, n, ds @ [d]))\<rparr>"

abbreviation tally :: "'w \<times> nat \<times> 64 word list \<Rightarrow> nat \<times> 64 word list" where
  "tally s \<equiv> snd s"

lemma counting_sleep: "tally (net_sleep (counting net) d s) = (fst (tally s), snd (tally s) @ [d])"
  by (cases s) (simp add: counting_def)

lemma backoff_ceiling_le: "backoff_ceiling policy i \<le> max (max_delay_ms policy) (base_delay_ms policy)"
  by (simp add: backoff_ceiling_def)

lemma jittered_backoff_counting:
  assumes "jittered_backoff (counting net) policy i s = (r, s')"
  shows "tally s' = tally s \<and>
    (case r of None \<Rightarrow> max (max_delay_ms policy) (base_delay_ms policy) = - 1
     | Some d \<Rightarrow> d \<le> max (max_delay_ms policy) (base_delay_ms policy))"
proof -
  have top: "max (max_delay_ms policy) (base_delay_ms policy) = - 1" if "backoff_ceiling policy i = - 1"
    using backoff_ceiling_le [of policy i] that by (simp add: word_order.extremum_unique)
  have le: "draw mod (backoff_ceiling policy i + 1) \<le> max (max_delay_ms policy) (base_delay_ms policy)"
    if "backoff_ceiling policy i \<noteq> - 1" for draw
  proof -
    have "backoff_ceiling policy i + 1 \<noteq> 0" using that by (metis add_eq_0_iff2)
    then have "draw mod (backoff_ceiling policy i + 1) < backoff_ceiling policy i + 1"
      by (simp add: word_mod_less_divisor word_gt_0)
    moreover have "unat (backoff_ceiling policy i + 1) \<le> unat (backoff_ceiling policy i) + 1"
      by (simp add: unat_word_ariths)
    ultimately have "draw mod (backoff_ceiling policy i + 1) \<le> backoff_ceiling policy i"
      by (simp add: word_less_nat_alt word_le_nat_alt)
    then show ?thesis using backoff_ceiling_le order_trans by blast
  qed
  show ?thesis using assms top le
    by (cases s) (auto simp: jittered_backoff_def counting_def Let_def split: if_splits prod.splits)
qed

text \<open>What one call may use: its requests, and its waits, each within the larger of the two delays.\<close>

definition within_policy ::
  "retry_policy \<Rightarrow> nat \<Rightarrow> 'a call_result \<Rightarrow> nat \<times> 64 word list \<Rightarrow> nat \<times> 64 word list \<Rightarrow> bool" where
  "within_policy policy tries r before after =
     (fst after \<le> fst before + tries \<and>
      (\<exists>ds. snd after = snd before @ ds \<and> length ds < tries \<and>
         list_all (\<lambda>d. d \<le> max (max_delay_ms policy) (base_delay_ms policy)) ds) \<and>
      (r = CallPanicked \<longrightarrow> max (max_delay_ms policy) (base_delay_ms policy) = - 1))"

definition posts_once :: "('w \<times> nat \<times> 64 word list \<Rightarrow> 'r \<times> ('w \<times> nat \<times> 64 word list)) \<Rightarrow> bool" where
  "posts_once attempt = (\<forall>s. case attempt s of (_, s') \<Rightarrow>
     fst (tally s') \<le> fst (tally s) + 1 \<and> snd (tally s') = snd (tally s))"

lemma try_once_posts_once: "posts_once (try_once (counting net) encode byte_cap parse body)"
  by (auto simp: posts_once_def try_once_def counting_def split: option.splits prod.splits)

lemma within_policy_now:
  "fst after \<le> fst before + 1 \<Longrightarrow> snd after = snd before \<Longrightarrow> 0 < k \<Longrightarrow>
     (r = CallPanicked \<longrightarrow> max (max_delay_ms policy) (base_delay_ms policy) = - 1) \<Longrightarrow>
     within_policy policy k r before after"
  unfolding within_policy_def by simp

lemma within_policy_later:
  assumes "within_policy policy k r mid after" and "fst mid \<le> fst before + 1"
    and "snd mid = snd before @ (if d = 0 then [] else [d])"
    and "d \<le> max (max_delay_ms policy) (base_delay_ms policy)"
  shows "within_policy policy (Suc k) r before after"
  using assms unfolding within_policy_def by (cases "d = 0") auto

lemma next_try:
  fixes i :: "32 word"
  assumes more: "\<not> i + 1 \<ge> max_tries policy" and k: "unat i + Suc k = max 1 (unat (max_tries policy))"
  shows "unat (i + 1) = unat i + 1 \<and> 0 < k \<and> unat (i + 1) + k = max 1 (unat (max_tries policy))"
proof -
  have lt: "unat (i + 1) < unat (max_tries policy)" using more by (simp add: word_less_nat_alt not_le)
  then have top: "unat i + Suc k = unat (max_tries policy)" using k by simp
  moreover have "unat (max_tries policy) < 2 ^ LENGTH(32)" by (rule unsigned_less)
  ultimately have "unat i + 1 < 2 ^ 32" by simp
  then have "unat (i + 1) = unat i + 1" by (simp add: unat_word_ariths)
  then show ?thesis using lt top k by simp
qed

lemma retry_loop_returns:
  fixes attempt :: "'w \<times> nat \<times> 64 word list \<Rightarrow> (provider_failure + 'a) \<times> ('w \<times> nat \<times> 64 word list)"
  assumes once: "posts_once attempt"
    and k: "unat i + k = max 1 (unat (max_tries policy))" and pos: "0 < k"
  shows "\<exists>r s'. retry_loop (counting net) policy attempt i s = Some (r, s') \<and>
    within_policy policy k r (tally s) (tally s')"
  using k pos
proof (induction k arbitrary: i s)
  case (Suc k)
  obtain r1 s1 where a: "attempt s = (r1, s1)" by (cases "attempt s")
  have one: "fst (tally s1) \<le> fst (tally s) + 1" "snd (tally s1) = snd (tally s)"
    using once [unfolded posts_once_def, THEN spec, of s] a by simp_all
  show ?case
  proof (cases "\<exists>failure. r1 = Inl failure \<and> retryable failure \<and> \<not> i + 1 \<ge> max_tries policy")
    case False
    then have "\<exists>r. retry_loop (counting net) policy attempt i s = Some (r, s1) \<and> r \<noteq> CallPanicked"
      using a by (cases r1) (auto simp: retry_loop.simps)
    then show ?thesis using within_policy_now [OF one] by blast
  next
    case True
    then obtain failure where f: "r1 = Inl failure" "retryable failure" "\<not> i + 1 \<ge> max_tries policy" by blast
    obtain d s2 where b: "jittered_backoff (counting net) policy i s1 = (d, s2)"
      by (cases "jittered_backoff (counting net) policy i s1")
    note bk = jittered_backoff_counting [OF b]
    show ?thesis
    proof (cases d)
      case None
      then have "retry_loop (counting net) policy attempt i s = Some (CallPanicked, s2)"
        using a f b by (simp add: retry_loop.simps)
      moreover have "within_policy policy (Suc k) CallPanicked (tally s) (tally s2)"
        using one bk None by (intro within_policy_now) simp_all
      ultimately show ?thesis by blast
    next
      case (Some delay)
      let ?s3 = "if delay = 0 then s2 else net_sleep (counting net) delay s2"
      have loop: "retry_loop (counting net) policy attempt i s = retry_loop (counting net) policy attempt (i + 1) ?s3"
        using a f b Some by (subst retry_loop.simps) simp
      note lt = next_try [OF f(3) Suc.prems(1)]
      have t3: "fst (tally ?s3) \<le> fst (tally s) + 1"
        "snd (tally ?s3) = snd (tally s) @ (if delay = 0 then [] else [delay])"
        using one conjunct1 [OF bk] by (simp_all add: counting_sleep)
      obtain r s' where r: "retry_loop (counting net) policy attempt (i + 1) ?s3 = Some (r, s')"
        and w: "within_policy policy k r (tally ?s3) (tally s')" using Suc.IH [of "i + 1" ?s3] lt by (elim conjE) blast
      have "within_policy policy (Suc k) r (tally s) (tally s')"
        using within_policy_later [OF w t3] bk Some by simp
      then show ?thesis using loop r by metis
    qed
  qed
qed simp

corollary retried_call_returns:
  "\<exists>r s' n waits. retry_loop (counting net) policy (try_once (counting net) encode byte_cap parse body) 0 (s, 0, []) =
       Some (r, s', n, waits) \<and>
     n \<le> max 1 (unat (max_tries policy)) \<and> length waits < max 1 (unat (max_tries policy)) \<and>
     list_all (\<lambda>d. d \<le> max (max_delay_ms policy) (base_delay_ms policy)) waits \<and>
     (case r of CallPanicked \<Rightarrow> max (max_delay_ms policy) (base_delay_ms policy) = - 1 | _ \<Rightarrow> True)"
proof -
  have "unat (0 :: 32 word) + max 1 (unat (max_tries policy)) = max 1 (unat (max_tries policy))"
    "0 < max 1 (unat (max_tries policy))" by simp_all
  from retry_loop_returns [where net = net and attempt = "try_once (counting net) encode byte_cap parse body"
      and s = "(s, 0, [])", OF try_once_posts_once this]
  obtain r s' where r: "retry_loop (counting net) policy (try_once (counting net) encode byte_cap parse body) 0 (s, 0, []) =
      Some (r, s')" and w: "within_policy policy (max 1 (unat (max_tries policy))) r (0, []) (tally s')"
    by (elim exE conjE) (simp only: snd_conv)
  show ?thesis
    using r w by (cases s') (auto simp: within_policy_def split: call_result.splits)
qed

text \<open>On any network the loop returns, and keeps what its parts keep.\<close>

lemma retry_loop_total:
  assumes "unat i + k = max 1 (unat (max_tries policy))" and "0 < k"
  shows "\<exists>r. retry_loop net policy attempt i w = Some r"
  using assms
proof (induction k arbitrary: i w)
  case (Suc k)
  obtain r1 w1 where a: "attempt w = (r1, w1)" by fastforce
  obtain d w2 where b: "jittered_backoff net policy i w1 = (d, w2)" by fastforce
  have "\<exists>r. retry_loop net policy attempt (i + 1) w3 = Some r" if "\<not> i + 1 \<ge> max_tries policy" for w3
    using Suc.IH [of "i + 1" w3] next_try [OF that Suc.prems(1)] by blast
  then show ?case
    using a b by (subst retry_loop.simps) (auto split: sum.split option.split)
qed simp

lemma retry_loop_keeps:
  assumes ret: "retry_loop net policy attempt i w = Some r"
    and attempt: "\<And>w. I w \<Longrightarrow> I (snd (attempt w))"
    and draw: "\<And>i w. I w \<Longrightarrow> I (snd (net_draw net i w))"
    and sleep: "\<And>d w. I w \<Longrightarrow> I (net_sleep net d w)" and "I w"
  shows "I (snd r)"
proof -
  have back_off: "I (snd (jittered_backoff net policy i w))" if "I w" for i w
    using draw [OF that, of i] that by (auto simp: jittered_backoff_def Let_def split: prod.split)
  let ?P = "\<lambda>n p a i w r. n = net \<longrightarrow> p = policy \<longrightarrow> a = attempt \<longrightarrow> I w \<longrightarrow> I (snd r)"
  have "?P net policy attempt i w r"
  proof (rule retry_loop.raw_induct [where P = ?P, OF _ ret], intro impI)
    fix loop n p a i w r
    show "I (snd r)" if IH: "\<And>n p a i w r. loop n p a i w = Some r \<Longrightarrow> ?P n p a i w r"
      and step: "(case a w of (Inl failure, w1) \<Rightarrow>
          if \<not> retryable failure \<or> max_tries p \<le> i + 1 then Some (CallFailed failure, w1)
          else case jittered_backoff n p i w1 of (None, w2) \<Rightarrow> Some (CallPanicked, w2)
            | (Some delay, w2) \<Rightarrow> loop n p a (i + 1) (if delay = 0 then w2 else net_sleep n delay w2)
        | (Inr response, w1) \<Rightarrow> Some (Answered response, w1)) = Some r"
      and eq: "n = net" "p = policy" "a = attempt" and w: "I w"
    proof -
      obtain r1 w1 where a: "attempt w = (r1, w1)" by fastforce
      obtain d w2 where b: "jittered_backoff net policy i w1 = (d, w2)" by fastforce
      have w1: "I w1" using attempt [OF w] a by simp
      have w2: "I w2" using back_off [OF w1, of i] b by simp
      then show ?thesis
        using step a b eq w1 sleep [OF w2] IH by (auto split: sum.splits if_splits option.splits)
    qed
  qed
  then show ?thesis using \<open>I w\<close> by simp
qed

end
