(* ===== verification/Embeddings.thy ===== *)
theory Embeddings
  imports Transport Openrouter Budget
begin

text \<open>
  The embeddings seam (\<open>embeddings.rs\<close>): identity and response, the adapter with its envelope checks
  and retries, and the wrapper that checks the budget before a call and records its usage after it.
  A vector element is the bit pattern of an \<open>f32\<close>.
\<close>

section \<open>Identity and response\<close>

record embedding_identity =
  ei_provider :: string
  ei_model :: string
  ei_dimensions :: "16 word"
  ei_prompt :: string

record embedding_response =
  er_vectors :: "32 word list list"
  er_tokens :: "64 word"

datatype embeddings_wire_error =
  EmbedEnvelopeShape | EmbedUsageMissing | EmbedBaseUrlInvalid | EmbedTransportInit

definition embeddings_request_body :: "string \<Rightarrow> string list \<Rightarrow> embeddings_wire_error + json" where
  "embeddings_request_body model inputs =
     Inr (JObj [(''model'', JStr model), (''input'', JArr (map JStr inputs))])"

text \<open>What \<open>serde\<close> decodes a success envelope to; the decoder is a parameter.\<close>

record embedding_entry =
  ee_index :: nat
  ee_embedding :: "32 word list"

record embeddings_envelope =
  en_data :: "embedding_entry list"
  en_prompt_tokens :: "64 word"

fun collect_vectors :: "16 word \<Rightarrow> nat \<Rightarrow> embedding_entry list \<Rightarrow> embeddings_wire_error + 32 word list list" where
  "collect_vectors dims position [] = Inr []"
| "collect_vectors dims position (entry # entries) =
     (if ee_index entry \<noteq> position \<or> length (ee_embedding entry) \<noteq> unat dims then Inl EmbedEnvelopeShape
      else case collect_vectors dims (position + 1) entries of
             Inl e \<Rightarrow> Inl e
           | Inr vectors \<Rightarrow> Inr (ee_embedding entry # vectors))"

definition parse_embeddings_envelope ::
  "(bytes \<Rightarrow> embeddings_envelope option) \<Rightarrow> bytes \<Rightarrow> nat \<Rightarrow> 16 word \<Rightarrow> embeddings_wire_error + embedding_response" where
  "parse_embeddings_envelope decode body expected_vectors expected_dimensions =
     (case decode body of
        None \<Rightarrow> Inl EmbedEnvelopeShape
      | Some cmd \<Rightarrow>
          if length (en_data cmd) \<noteq> expected_vectors then Inl EmbedEnvelopeShape
          else case collect_vectors expected_dimensions 0 (en_data cmd) of
                 Inl e \<Rightarrow> Inl e
               | Inr vectors \<Rightarrow> Inr \<lparr>er_vectors = vectors, er_tokens = en_prompt_tokens cmd\<rparr>)"

section \<open>The adapter\<close>

record embeddings_settings =
  es_base_url :: string
  es_model :: string
  es_dimensions :: "16 word"
  es_prompt :: string
  es_max_input :: nat
  es_byte_cap :: nat
  es_retry :: retry_policy

record embeddings_adapter =
  ea_endpoint :: string
  ea_model :: string
  ea_dimensions :: "16 word"
  ea_prompt :: string
  ea_max_input :: nat
  ea_byte_cap :: nat
  ea_retry :: retry_policy

definition embeddings_new ::
  "(string \<Rightarrow> (string \<times> string option) option) \<Rightarrow> bool \<Rightarrow> embeddings_settings \<Rightarrow>
   embeddings_wire_error + embeddings_adapter" where
  "embeddings_new parse_url client_built settings =
     (case parse_url (es_base_url settings) of
        None \<Rightarrow> Inl EmbedBaseUrlInvalid
      | Some parsed \<Rightarrow>
          if \<not> base_url_allowed parsed then Inl EmbedBaseUrlInvalid
          else if \<not> client_built then Inl EmbedTransportInit
          else Inr \<lparr>ea_endpoint = trim_end_slashes (es_base_url settings) @ ''/embeddings'',
                    ea_model = es_model settings, ea_dimensions = es_dimensions settings,
                    ea_prompt = es_prompt settings, ea_max_input = es_max_input settings,
                    ea_byte_cap = es_byte_cap settings, ea_retry = es_retry settings\<rparr>)"

definition embeddings_identity :: "embeddings_adapter \<Rightarrow> embedding_identity" where
  "embeddings_identity a = \<lparr>ei_provider = ''openai-compatible'', ei_model = ea_model a,
     ei_dimensions = ea_dimensions a, ei_prompt = ea_prompt a\<rparr>"

record embeddings_codec =
  ek_bytes :: "json \<Rightarrow> bytes option"
  ek_decode :: "bytes \<Rightarrow> embeddings_envelope option"

definition embed_try ::
  "'w network \<Rightarrow> embeddings_codec \<Rightarrow> embeddings_adapter \<Rightarrow> nat \<Rightarrow> json \<Rightarrow> 'w \<Rightarrow>
   (provider_failure + embedding_response) \<times> 'w" where
  "embed_try net codec a expected body =
     try_once net (ek_bytes codec) (ea_byte_cap a)
       (\<lambda>body. parse_embeddings_envelope (ek_decode codec) body expected (ea_dimensions a)) body"

definition embed ::
  "'w network \<Rightarrow> embeddings_codec \<Rightarrow> embeddings_adapter \<Rightarrow> string list \<Rightarrow> 'w \<Rightarrow>
   (embedding_response call_result \<times> 'w) option" where
  "embed net codec a inputs w =
     (if list_ex (\<lambda>input. length input > ea_max_input a) inputs then Some (CallFailed (request_invalid None), w)
      else case embeddings_request_body (ea_model a) inputs of
             Inl _ \<Rightarrow> Some (CallFailed (request_invalid None), w)
           | Inr body \<Rightarrow> retry_loop net (ea_retry a) (embed_try net codec a (length inputs) body) 0 w)"

lemma collect_vectors_Inr:
  "collect_vectors dims position entries = Inr vectors \<Longrightarrow>
     vectors = map ee_embedding entries \<and> list_all (\<lambda>v. length v = unat dims) vectors"
proof (induction dims position entries arbitrary: vectors rule: collect_vectors.induct)
  case (2 dims position entry entries)
  then show ?case
    by (auto split: if_splits sum.splits)
qed simp

lemma parse_embeddings_envelope_Inr:
  assumes "parse_embeddings_envelope decode body n dims = Inr r"
  shows "length (er_vectors r) = n \<and> list_all (\<lambda>v. length v = unat dims) (er_vectors r)"
  using assms
  by (auto simp: parse_embeddings_envelope_def dest!: collect_vectors_Inr split: option.splits if_splits sum.splits)

section \<open>Spend control\<close>

text \<open>
  The network over the world: a request counts as a provider call and takes milliseconds of clock time,
  a wait takes its own time, and neither reads or writes a table or a file. \<open>el_post\<close> and \<open>el_draw\<close>
  are any functions of the payload and the moment.
\<close>

record embedding_link =
  el_post :: "bytes \<Rightarrow> world \<Rightarrow> sent \<times> nat"
  el_draw :: "32 word \<Rightarrow> world \<Rightarrow> 64 word"

definition elapse :: "nat \<Rightarrow> world \<Rightarrow> world" where
  "elapse ms w = w\<lparr>now := now w + 1000 * int ms\<rparr>"

definition link_network :: "embedding_link \<Rightarrow> world network" where
  "link_network link = \<lparr>
     net_post = (\<lambda>payload w. case el_post link payload w of
       (answer, ms) \<Rightarrow> (answer, elapse ms (w\<lparr>provider_calls := provider_calls w + 1\<rparr>))),
     net_draw = (\<lambda>i w. (el_draw link i w, w)),
     net_sleep = (\<lambda>d w. elapse (unat d) w)\<rparr>"

type_synonym embedding_provider = "string list \<Rightarrow> world \<Rightarrow> embedding_response call_result \<times> world"

text \<open>The adapter as a provider of the world; \<open>None\<close> does not occur (\<open>embed_returns\<close>).\<close>

definition adapter_provider :: "embedding_link \<Rightarrow> embeddings_codec \<Rightarrow> embeddings_adapter \<Rightarrow> embedding_provider" where
  "adapter_provider link codec a inputs w =
     (case embed (link_network link) codec a inputs w of None \<Rightarrow> (CallPanicked, w) | Some r \<Rightarrow> r)"

definition embedding_input_tokens :: "string list \<Rightarrow> 64 word" where
  "embedding_input_tokens inputs =
     word_div_ceil (foldl (\<lambda>total input. sat_add total (of_nat (length input))) 0 inputs) 4"

record embedding_controls =
  em_limits :: budget_limits
  em_prices :: token_prices

definition record_embedding_usage ::
  "embedding_identity \<Rightarrow> token_prices \<Rightarrow> embedding_response call_result \<Rightarrow> world \<Rightarrow> world" where
  "record_embedding_usage ident prices outcome w =
     (case outcome of
        Answered response \<Rightarrow>
          (case estimate_cost_micro_usd prices (er_tokens response) 0 of
             None \<Rightarrow> w
           | Some cost \<Rightarrow> snd (record_usage (ei_provider ident) (ei_model ident)
               \<lparr>input_tokens = er_tokens response, output_tokens = 0\<rparr> cost w))
      | _ \<Rightarrow> w)"

text \<open>\<open>ControlledEmbeddings::embed\<close> after its admission.\<close>

definition controlled_embeddings ::
  "windows \<Rightarrow> embedding_controls \<Rightarrow> embedding_identity \<Rightarrow> embedding_provider \<Rightarrow> embedding_provider" where
  "controlled_embeddings ws controls ident inner inputs w =
     (case ensure_within_budget ws (ei_provider ident) (embedding_input_tokens inputs) 0
             (em_prices controls) (em_limits controls) w of
        (Inl e, w') \<Rightarrow> (CallFailed (budget_failure e), w')
      | (Inr _, w') \<Rightarrow>
          (case inner inputs w' of (outcome, w'') \<Rightarrow>
             (outcome, record_embedding_usage ident (em_prices controls) outcome w'')))"

end
