(* ===== verification/Indexer.thy ===== *)
theory Indexer
  imports Embeddings Chunking Blob_Store
begin

text \<open>
  The background indexer (\<open>indexer.rs\<close>): the choice of pending runs, the grouping of their chunks into
  calls, the transaction that stores a source's vectors and moves its run to \<open>indexed\<close>, the failure
  rows, one pass over a batch, and the loop of passes of the service (\<open>run_indexing_pass\<close>). The digest
  of the chunker and the embedding provider are parameters.
\<close>

section \<open>Identity, targets and limits\<close>

definition chunking_version :: string where
  "chunking_version = ''article-chunks.v1''"

definition storage_dimensions :: nat where
  "storage_dimensions = 1536"

record indexing_identity =
  ii_provider :: string
  ii_model :: string
  ii_prompt :: string

record indexing_target =
  it_run :: uuid
  it_source_ref :: uuid
  it_output_id :: uuid
  it_tenant_ref :: string
  it_owner_context :: string
  it_document :: uuid

record embedding_write =
  ew_ordinal :: nat
  ew_text :: string
  ew_digest :: string
  ew_vector :: "32 word list"

record pending_source =
  ps_run :: uuid
  ps_source :: uuid
  ps_output :: uuid
  ps_document :: uuid
  ps_owner :: string
  ps_tenant :: string
  ps_title :: string
  ps_lead :: string
  ps_body :: string
  ps_has_projection :: bool

record indexer_limits =
  il_batch :: nat
  il_max_input :: nat
  il_max_attempts :: int

record indexing_outcome =
  io_indexed :: nat
  io_skipped :: nat
  io_failed :: nat
  io_bound :: nat

section \<open>The pending batch\<close>

text \<open>
  Persisted runs, oldest first, with each of their outputs and the search document that shows it; an
  output no document shows has the default values of the columns.
\<close>

definition pending_rows :: "db \<Rightarrow> run_row \<Rightarrow> output_row \<Rightarrow> pending_source list" where
  "pending_rows t r out =
     (case select_where (\<lambda>s. sd_output s = ao_id out) (search_documents t) of
        [] \<Rightarrow> [\<lparr>ps_run = ar_id r, ps_source = ar_source r, ps_output = ao_id out, ps_document = 0,
                 ps_owner = [], ps_tenant = [], ps_title = [], ps_lead = [], ps_body = [],
                 ps_has_projection = False\<rparr>]
      | documents \<Rightarrow> map (\<lambda>s. \<lparr>ps_run = ar_id r, ps_source = ar_source r, ps_output = ao_id out,
                 ps_document = sd_document s, ps_owner = sd_owner s, ps_tenant = sd_tenant s,
                 ps_title = sd_title s, ps_lead = sd_lead s, ps_body = sd_body s,
                 ps_has_projection = True\<rparr>) documents)"

definition pending_of :: "db \<Rightarrow> pending_source list" where
  "pending_of t =
     concat (map (\<lambda>r. concat (map (pending_rows t r)
         (select_where (\<lambda>out. ao_run out = ar_id r) (analysis_outputs t))))
       (sort_key (\<lambda>r. (ar_updated r, ar_id r)) (select_where (\<lambda>r. ar_state r = Persisted) (analysis_runs t))))"

definition pending_indexing_batch :: "nat \<Rightarrow> (world, persistence_error, pending_source list) exec" where
  "pending_indexing_batch limit = query Query (\<lambda>t. take limit (pending_of t))"

section \<open>Storing vectors\<close>

definition identity_ok :: "string \<Rightarrow> string \<Rightarrow> string \<Rightarrow> bool" where
  "identity_ok provider model prompt =
     (usage_row_ok provider model \<and> 1 \<le> length prompt \<and> length prompt \<le> 64)"

text \<open>
  The vector column holds 1536 finite elements: an \<open>f32\<close> whose exponent bits are all set is an
  infinity or no number, which the type of the column rejects.
\<close>

definition finite_f32 :: "32 word \<Rightarrow> bool" where
  "finite_f32 x = (take_bit 8 (drop_bit 23 x) \<noteq> 255)"

definition chunk_row_ok :: "chunk_row \<Rightarrow> bool" where
  "chunk_row_ok r =
     (ec_ordinal r < 2 ^ 31 \<and> is_digest_hex (ec_digest r) \<and>
      identity_ok (ec_provider r) (ec_model r) (ec_prompt r) \<and>
      length (ec_vector r) = storage_dimensions \<and> list_all finite_f32 (ec_vector r))"

definition active_chunk :: "indexing_identity \<Rightarrow> chunk_row \<Rightarrow> bool" where
  "active_chunk ident c =
     (ec_chunking c = chunking_version \<and> ec_provider c = ii_provider ident \<and>
      ec_model c = ii_model ident \<and> ec_prompt c = ii_prompt ident)"

definition same_chunk :: "chunk_row \<Rightarrow> chunk_row \<Rightarrow> bool" where
  "same_chunk r x =
     (ec_source x = ec_source r \<and> ec_chunking x = ec_chunking r \<and> ec_provider x = ec_provider r \<and>
      ec_model x = ec_model r \<and> ec_prompt x = ec_prompt r \<and> ec_ordinal x = ec_ordinal r)"

definition put_chunk :: "chunk_row \<Rightarrow> db \<Rightarrow> persistence_error + (unit \<times> db)" where
  "put_chunk r t =
     (if chunk_row_ok r \<and> exists_where (\<lambda>out. ao_id out = ec_output r) (analysis_outputs t) \<and>
         (exists_where (same_chunk r) (embedding_chunks t) \<or>
          exists_where (\<lambda>s. sr_id s = ec_source r) (source_refs t))
      then Inr ((), t\<lparr>embedding_chunks :=
             upsert (same_chunk r) (\<lambda>_. True) (\<lambda>x. r\<lparr>ec_id := ec_id x\<rparr>) r (embedding_chunks t)\<rparr>)
      else Inl Query)"

definition chunk_row_of :: "indexing_identity \<Rightarrow> indexing_target \<Rightarrow> uuid \<Rightarrow> embedding_write \<Rightarrow> chunk_row" where
  "chunk_row_of ident target fresh_id x =
     \<lparr>ec_id = fresh_id, ec_source = it_source_ref target, ec_output = it_output_id target,
      ec_tenant = it_tenant_ref target, ec_owner = it_owner_context target,
      ec_document = it_document target, ec_ordinal = ew_ordinal x, ec_text = ew_text x,
      ec_digest = ew_digest x, ec_chunking = chunking_version, ec_provider = ii_provider ident,
      ec_model = ii_model ident, ec_dimensions = storage_dimensions, ec_prompt = ii_prompt ident,
      ec_vector = ew_vector x\<rparr>"

definition same_failure :: "indexing_identity \<Rightarrow> uuid \<Rightarrow> failure_row \<Rightarrow> bool" where
  "same_failure ident source f =
     (ef_source f = source \<and> ef_chunking f = chunking_version \<and> ef_provider f = ii_provider ident \<and>
      ef_model f = ii_model ident \<and> ef_prompt f = ii_prompt ident)"

definition store_embeddings ::
  "indexing_identity \<Rightarrow> indexing_target \<Rightarrow> embedding_write list \<Rightarrow> (world, persistence_error, unit) exec" where
  "store_embeddings ident target writes =
     exec_bind (exec_each (\<lambda>x. exec_bind new_uuid (\<lambda>fresh_id.
         sql Query (put_chunk (chunk_row_of ident target fresh_id x)))) writes) (\<lambda>_.
     exec_bind (execute Query (embedding_chunks_update (delete_where (\<lambda>c.
         ec_source c = it_source_ref target \<and> active_chunk ident c \<and>
         ec_ordinal c \<ge> min (length writes) (2 ^ 31 - 1))))) (\<lambda>_.
     execute Query (embedding_failures_update (delete_where (same_failure ident (it_source_ref target))))))"

section \<open>Failure rows\<close>

definition attempts_at :: "indexing_identity \<Rightarrow> uuid \<Rightarrow> db \<Rightarrow> nat" where
  "attempts_at ident source t =
     (case find_where (same_failure ident source) (embedding_failures t) of None \<Rightarrow> 0 | Some f \<Rightarrow> ef_attempt f)"

definition failure_attempt_count :: "indexing_identity \<Rightarrow> uuid \<Rightarrow> (world, persistence_error, nat) exec" where
  "failure_attempt_count ident source = query Query (attempts_at ident source)"

text \<open>The attempt count is a 32-bit integer; a row must name a stored source.\<close>

definition put_failure :: "indexing_identity \<Rightarrow> indexing_target \<Rightarrow> failure_class \<Rightarrow> uuid \<Rightarrow> db \<Rightarrow> persistence_error + (nat \<times> db)" where
  "put_failure ident target cls fresh_id t =
     (let source = it_source_ref target; n = attempts_at ident source t + 1 in
      if \<not> identity_ok (ii_provider ident) (ii_model ident) (ii_prompt ident) \<or> n \<ge> 2 ^ 31 \<or>
         \<not> (exists_where (same_failure ident source) (embedding_failures t) \<or>
             exists_where (\<lambda>s. sr_id s = source) (source_refs t))
      then Inl Query
      else Inr (n, t\<lparr>embedding_failures :=
        upsert (same_failure ident source) (\<lambda>_. True)
          (\<lambda>f. f\<lparr>ef_class := cls, ef_output := it_output_id target, ef_attempt := ef_attempt f + 1\<rparr>)
          \<lparr>ef_id = fresh_id, ef_source = source, ef_output = it_output_id target, ef_tenant = it_tenant_ref target,
           ef_chunking = chunking_version, ef_provider = ii_provider ident, ef_model = ii_model ident,
           ef_prompt = ii_prompt ident, ef_class = cls, ef_attempt = 1, ef_detail = None\<rparr>
          (embedding_failures t)\<rparr>))"

definition record_indexing_failure ::
  "indexing_identity \<Rightarrow> indexing_target \<Rightarrow> failure_class \<Rightarrow> (world, persistence_error, nat) exec" where
  "record_indexing_failure ident target cls =
     exec_bind new_uuid (\<lambda>fresh_id. sql Query (put_failure ident target cls fresh_id))"

section \<open>Embedding one source\<close>

fun group_loop :: "nat \<Rightarrow> string list \<Rightarrow> string list list \<Rightarrow> string list \<Rightarrow> nat \<Rightarrow> string list list" where
  "group_loop n [] groups current current_chars = (if current \<noteq> [] then groups @ [current] else groups)"
| "group_loop n (input # inputs) groups current current_chars =
     (let chars = length input;
          full = current \<noteq> [] \<and> current_chars + chars > n;
          groups = (if full then groups @ [current] else groups);
          current_chars = (if full then 0 else current_chars);
          current = (if full then [] else current)
      in group_loop n inputs groups (current @ [input]) (current_chars + chars))"

definition input_groups :: "string list \<Rightarrow> nat \<Rightarrow> string list list" where
  "input_groups inputs max_characters = group_loop max_characters inputs [] [] 0"

fun embed_groups ::
  "embedding_provider \<Rightarrow> string list list \<Rightarrow> 32 word list list \<Rightarrow> world \<Rightarrow> 32 word list list call_result \<times> world" where
  "embed_groups provider [] vectors w = (Answered vectors, w)"
| "embed_groups provider (g # groups) vectors w =
     (case provider g w of
        (Answered response, w') \<Rightarrow> embed_groups provider groups (vectors @ er_vectors response) w'
      | (CallFailed failure, w') \<Rightarrow> (CallFailed failure, w')
      | (CallPanicked, w') \<Rightarrow> (CallPanicked, w'))"

definition vectors_fit :: "chunk list \<Rightarrow> 32 word list list \<Rightarrow> bool" where
  "vectors_fit chunks vectors =
     (length vectors = length chunks \<and> \<not> list_ex (\<lambda>v. length v \<noteq> storage_dimensions) vectors)"

definition writes_of :: "chunk list \<Rightarrow> 32 word list list \<Rightarrow> embedding_write list" where
  "writes_of chunks vectors = map (\<lambda>(c, v).
     \<lparr>ew_ordinal = ch_ordinal c, ew_text = ch_text c, ew_digest = ch_digest_hex c, ew_vector = v\<rparr>) (zip chunks vectors)"

text \<open>A panic ends the task; everything else is a persistence error.\<close>

datatype index_error = IndexPersistence persistence_error | IndexPanic

record indexer =
  ix_sha :: "string \<Rightarrow> string"
  ix_provider :: embedding_provider
  ix_identity :: embedding_identity
  ix_policy :: chunk_policy
  ix_limits :: indexer_limits

definition stored_failure :: "indexing_identity \<Rightarrow> indexing_target \<Rightarrow> failure_class \<Rightarrow> (world, index_error, unit) exec" where
  "stored_failure ident target cls =
     exec_map_err IndexPersistence (transact Query
       (exec_bind (record_indexing_failure ident target cls) (\<lambda>_. exec_return ())))"

definition index_transaction ::
  "indexing_identity \<Rightarrow> indexing_target \<Rightarrow> embedding_write list \<Rightarrow> (world, persistence_error, unit) exec" where
  "index_transaction ident target writes =
     exec_bind (store_embeddings ident target writes) (\<lambda>_.
     exec_bind get_now (\<lambda>at.
     exec_bind (affect Query
         (\<lambda>t. count_where (\<lambda>r. ar_id r = it_run target \<and> ar_state r = Persisted) (analysis_runs t))
         (analysis_runs_update (update_where (\<lambda>r. ar_id r = it_run target \<and> ar_state r = Persisted)
            (\<lambda>r. r\<lparr>ar_state := Indexed, ar_updated := at\<rparr>)))) (\<lambda>transitioned.
     exec_guard (transitioned = 1) Query)))"

definition index_source ::
  "indexer \<Rightarrow> pending_source \<Rightarrow> indexing_target \<Rightarrow> indexing_identity \<Rightarrow> (world, index_error, bool) exec" where
  "index_source ix source target ident = (\<lambda>w.
     (let chunks = chunk_article (ix_sha ix) (ps_title source) (ps_lead source) (ps_body source) (ix_policy ix) in
      if chunks = [] then (Inr False, w)
      else case embed_groups (ix_provider ix)
                 (input_groups (map ch_text chunks) (il_max_input (ix_limits ix))) [] w of
        (CallPanicked, w') \<Rightarrow> (Inl IndexPanic, w')
      | (CallFailed failure, w') \<Rightarrow>
          exec_bind (stored_failure ident target (pf_class failure)) (\<lambda>_. exec_return False) w'
      | (Answered vectors, w') \<Rightarrow>
          (if \<not> vectors_fit chunks vectors
           then exec_bind (stored_failure ident target ClassRequestInvalid) (\<lambda>_. exec_return False) w'
           else exec_bind (exec_map_err IndexPersistence
                  (transact Query (index_transaction ident target (writes_of chunks vectors))))
                  (\<lambda>_. exec_return True) w')))"

section \<open>One pass and the loop of passes\<close>

definition identity_of :: "embedding_identity \<Rightarrow> indexing_identity" where
  "identity_of ei = \<lparr>ii_provider = ei_provider ei, ii_model = ei_model ei, ii_prompt = ei_prompt ei\<rparr>"

definition pending_target :: "pending_source \<Rightarrow> indexing_target" where
  "pending_target s = \<lparr>it_run = ps_run s, it_source_ref = ps_source s, it_output_id = ps_output s,
     it_tenant_ref = ps_tenant s, it_owner_context = ps_owner s, it_document = ps_document s\<rparr>"

fun process_sources ::
  "indexer \<Rightarrow> pending_source list \<Rightarrow> indexing_outcome \<Rightarrow> (world, index_error, indexing_outcome) exec" where
  "process_sources ix [] outcome = exec_return outcome"
| "process_sources ix (source # sources) outcome =
     (let ident = identity_of (ix_identity ix) in
      if \<not> ps_has_projection source
      then process_sources ix sources (outcome\<lparr>io_skipped := io_skipped outcome + 1\<rparr>)
      else exec_bind (exec_map_err IndexPersistence (failure_attempt_count ident (ps_source source))) (\<lambda>attempts.
        if int attempts \<ge> il_max_attempts (ix_limits ix)
        then process_sources ix sources (outcome\<lparr>io_bound := io_bound outcome + 1\<rparr>)
        else exec_bind (index_source ix source (pending_target source) ident) (\<lambda>indexed.
          if indexed then process_sources ix sources (outcome\<lparr>io_indexed := io_indexed outcome + 1\<rparr>)
          else process_sources ix sources (outcome\<lparr>io_failed := io_failed outcome + 1\<rparr>))))"

definition nothing_yet :: indexing_outcome where
  "nothing_yet = \<lparr>io_indexed = 0, io_skipped = 0, io_failed = 0, io_bound = 0\<rparr>"

definition process_pending :: "indexer \<Rightarrow> (world, index_error, indexing_outcome) exec" where
  "process_pending ix =
     exec_bind (exec_map_err IndexPersistence
       (pending_indexing_batch (min (il_batch (ix_limits ix)) (2 ^ 63 - 1)))) (\<lambda>batch.
     process_sources ix batch nothing_yet)"

text \<open>\<open>run_indexing_pass\<close> of the service: passes until one makes no progress or fails.\<close>

partial_function (option) run_indexing_pass :: "indexer \<Rightarrow> world \<Rightarrow> world option" where
  "run_indexing_pass ix w =
     (case process_pending ix w of
        (Inl _, w') \<Rightarrow> Some w'
      | (Inr outcome, w') \<Rightarrow>
          (if io_indexed outcome = 0 \<and> io_failed outcome = 0 then Some w' else run_indexing_pass ix w'))"

section \<open>The worker of the service\<close>

text \<open>
  \<open>build_indexing_worker\<close> with the embedding stack: the controlled adapter of the configured settings
  and the validated chunk policy; the counts of the configuration are clamped to the types of the
  limits.
\<close>

record indexing_config =
  ic_settings :: embeddings_settings
  ic_controls :: embedding_controls
  ic_target :: nat
  ic_overlap :: nat
  ic_batch :: nat
  ic_max_input :: nat
  ic_max_attempts :: nat

datatype indexing_worker_error = WorkerPolicy chunk_policy_error | WorkerTransport embeddings_wire_error

definition build_indexing_worker ::
  "(string \<Rightarrow> (string \<times> string option) option) \<Rightarrow> bool \<Rightarrow> (string \<Rightarrow> string) \<Rightarrow> windows \<Rightarrow> embedding_link \<Rightarrow>
   embeddings_codec \<Rightarrow> indexing_config \<Rightarrow> indexing_worker_error + indexer" where
  "build_indexing_worker parse_url client_built sha ws link codec config =
     (case chunk_policy_new (ic_target config) (ic_overlap config) of
        Inl e \<Rightarrow> Inl (WorkerPolicy e)
      | Inr policy \<Rightarrow>
     (case embeddings_new parse_url client_built (ic_settings config) of
        Inl e \<Rightarrow> Inl (WorkerTransport e)
      | Inr a \<Rightarrow> Inr \<lparr>ix_sha = sha,
          ix_provider = controlled_embeddings ws (ic_controls config) (embeddings_identity a)
            (adapter_provider link codec a),
          ix_identity = embeddings_identity a, ix_policy = policy,
          ix_limits = \<lparr>il_batch = ic_batch config, il_max_input = ic_max_input config,
            il_max_attempts = int (min (ic_max_attempts config) (2 ^ 31 - 1))\<rparr>\<rparr>))"

end
