(* ===== verification/Reindex.thy ===== *)
theory Reindex
  imports Indexer Search_Projection
begin

text \<open>
  The two regeneration jobs (\<open>reindex.rs\<close>): the embeddings of every source in scope whose vectors are
  not all of the active identity, and the search documents from their stored projection inputs. The
  progress callback is an observer and has no counterpart here.
\<close>

section \<open>Scopes\<close>

record reindex_scope =
  rs_tenant :: "string option"
  rs_owner :: "string option"
  rs_document :: "string option"

definition scope_unrestricted :: reindex_scope where
  "scope_unrestricted = \<lparr>rs_tenant = None, rs_owner = None, rs_document = None\<rparr>"

definition scope_for_tenant :: "string \<Rightarrow> reindex_scope" where
  "scope_for_tenant tenant = scope_unrestricted\<lparr>rs_tenant := Some tenant\<rparr>"

definition scope_for_source :: "string \<Rightarrow> string \<Rightarrow> string \<Rightarrow> reindex_scope" where
  "scope_for_source tenant owner document =
     \<lparr>rs_tenant = Some tenant, rs_owner = Some owner, rs_document = Some document\<rparr>"

text \<open>\<open>$n is null or column = $n\<close>.\<close>

definition admits :: "string option \<Rightarrow> string \<Rightarrow> bool" where
  "admits restriction column = (case restriction of None \<Rightarrow> True | Some x \<Rightarrow> column = x)"

definition admits_source :: "reindex_scope \<Rightarrow> uuid \<Rightarrow> source_ref_row \<Rightarrow> bool" where
  "admits_source scope source r =
     (sr_id r = source \<and> admits (rs_owner scope) (sr_owner r) \<and> admits (rs_document scope) (sr_document r))"

record reindex_summary =
  rx_processed :: nat
  rx_failures :: nat
  rx_skipped :: nat

definition no_reindex :: reindex_summary where
  "no_reindex = \<lparr>rx_processed = 0, rx_failures = 0, rx_skipped = 0\<rparr>"

section \<open>Search documents\<close>

definition count_sources_without_inputs :: "reindex_scope \<Rightarrow> (world, persistence_error, nat) exec" where
  "count_sources_without_inputs scope = query Query (\<lambda>t.
     count_where (\<lambda>s. admits (rs_tenant scope) (sr_tenant s) \<and> admits (rs_owner scope) (sr_owner s) \<and>
       admits (rs_document scope) (sr_document s) \<and>
       \<not> exists_where (\<lambda>i. pi_source i = sr_id s) (projection_inputs t)) (source_refs t))"

definition planned_search_projections :: "reindex_scope \<Rightarrow> (world, persistence_error, search_projection list) exec" where
  "planned_search_projections scope = query Query (\<lambda>t.
     map (\<lambda>i. \<lparr>pj_source = pi_source i, pj_output = pi_output i, pj_tenant = pi_tenant i, pj_owner = pi_owner i,
         pj_document = pi_document i,
         pj_text = \<lparr>st_title = pi_title i, st_lead = pi_lead i, st_body = pi_body i\<rparr>\<rparr>)
       (sort_key pi_source (select_where (\<lambda>i. admits (rs_tenant scope) (pi_tenant i) \<and>
          exists_where (admits_source scope (pi_source i)) (source_refs t)) (projection_inputs t))))"

fun rebuild_each :: "search_projection list \<Rightarrow> reindex_summary \<Rightarrow> (world, persistence_error, reindex_summary) exec" where
  "rebuild_each [] summary = exec_return summary"
| "rebuild_each (p # ps) summary =
     exec_bind (transact Query (record_search_document p)) (\<lambda>changed.
     rebuild_each ps (if changed > 0 then summary\<lparr>rx_processed := rx_processed summary + 1\<rparr> else summary))"

definition rebuild_search_documents :: "reindex_scope \<Rightarrow> (world, persistence_error, reindex_summary) exec" where
  "rebuild_search_documents scope =
     exec_bind (planned_search_projections scope) (\<lambda>projections.
     exec_bind (count_sources_without_inputs scope) (\<lambda>skipped.
     rebuild_each projections (no_reindex\<lparr>rx_skipped := skipped\<rparr>)))"

section \<open>Embeddings\<close>

definition plan_of :: "indexing_identity \<Rightarrow> reindex_scope \<Rightarrow> db \<Rightarrow> uuid list" where
  "plan_of ident scope t =
     sort (remdups (map sd_source (select_where (\<lambda>s.
       admits (rs_tenant scope) (sd_tenant s) \<and>
       exists_where (admits_source scope (sd_source s)) (source_refs t) \<and>
       (\<not> exists_where (\<lambda>c. ec_source c = sd_source s \<and> active_chunk ident c) (embedding_chunks t) \<or>
        exists_where (\<lambda>c. ec_source c = sd_source s \<and> \<not> active_chunk ident c) (embedding_chunks t)))
       (search_documents t))))"

definition plan_reindex :: "indexing_identity \<Rightarrow> reindex_scope \<Rightarrow> (world, persistence_error, uuid list) exec" where
  "plan_reindex ident scope = query Query (plan_of ident scope)"

text \<open>The projection of a source with the run and output it shows; the joins keep stored rows only.\<close>

definition reindex_source_of :: "uuid \<Rightarrow> db \<Rightarrow> pending_source option" where
  "reindex_source_of source t =
     list_first (concat (map (\<lambda>s.
       concat (map (\<lambda>out. map (\<lambda>r. \<lparr>ps_run = ar_id r, ps_source = source, ps_output = ao_id out,
           ps_document = sd_document s, ps_owner = sd_owner s, ps_tenant = sd_tenant s, ps_title = sd_title s,
           ps_lead = sd_lead s, ps_body = sd_body s, ps_has_projection = True\<rparr>)
         (select_where (\<lambda>r. ar_id r = ao_run out) (analysis_runs t)))
       (select_where (\<lambda>out. ao_id out = sd_output s) (analysis_outputs t))))
     (select_where (\<lambda>s. sd_source s = source \<and> exists_where (\<lambda>sr. sr_id sr = sd_source s) (source_refs t))
       (search_documents t))))"

definition load_reindex_source :: "uuid \<Rightarrow> (world, persistence_error, pending_source option) exec" where
  "load_reindex_source source = query Query (reindex_source_of source)"

datatype reindex_source_outcome = Rebuilt nat | RebuildFailed

definition reindex_transaction ::
  "indexing_identity \<Rightarrow> indexing_target \<Rightarrow> embedding_write list \<Rightarrow> (world, persistence_error, unit) exec" where
  "reindex_transaction ident target writes =
     exec_bind (store_embeddings ident target writes) (\<lambda>_.
     exec_bind (execute Query (embedding_chunks_update (delete_where (\<lambda>c.
         ec_source c = it_source_ref target \<and> \<not> active_chunk ident c)))) (\<lambda>_.
     execute Query (embedding_failures_update (delete_where (\<lambda>f. ef_source f = it_source_ref target)))))"

text \<open>The arguments of a job beside its scope; \<open>ix_limits\<close> gives the characters of one call.\<close>

definition regenerate_source ::
  "indexer \<Rightarrow> indexing_identity \<Rightarrow> indexing_target \<Rightarrow> pending_source \<Rightarrow> (world, index_error, reindex_source_outcome) exec" where
  "regenerate_source ix ident target source = (\<lambda>w.
     (let chunks = chunk_article (ix_sha ix) (ps_title source) (ps_lead source) (ps_body source) (ix_policy ix) in
      if chunks = [] then (Inr RebuildFailed, w)
      else case embed_groups (ix_provider ix)
                 (input_groups (map ch_text chunks) (il_max_input (ix_limits ix))) [] w of
        (CallPanicked, w') \<Rightarrow> (Inl IndexPanic, w')
      | (CallFailed failure, w') \<Rightarrow>
          exec_bind (stored_failure ident target (pf_class failure)) (\<lambda>_. exec_return RebuildFailed) w'
      | (Answered vectors, w') \<Rightarrow>
          (if \<not> vectors_fit chunks vectors
           then exec_bind (stored_failure ident target ClassRequestInvalid) (\<lambda>_. exec_return RebuildFailed) w'
           else exec_bind (exec_map_err IndexPersistence
                  (transact Query (reindex_transaction ident target (writes_of chunks vectors))))
                  (\<lambda>_. exec_return (Rebuilt (length (writes_of chunks vectors)))) w')))"

fun reindex_each ::
  "indexer \<Rightarrow> indexing_identity \<Rightarrow> uuid list \<Rightarrow> reindex_summary \<Rightarrow> (world, index_error, reindex_summary) exec" where
  "reindex_each ix ident [] summary = exec_return summary"
| "reindex_each ix ident (source # sources) summary =
     exec_bind (exec_map_err IndexPersistence (load_reindex_source source)) (\<lambda>loaded.
     case loaded of
       None \<Rightarrow> reindex_each ix ident sources (summary\<lparr>rx_failures := rx_failures summary + 1\<rparr>)
     | Some s \<Rightarrow>
         exec_bind (regenerate_source ix ident (pending_target s) s) (\<lambda>outcome.
         case outcome of
           Rebuilt _ \<Rightarrow> reindex_each ix ident sources (summary\<lparr>rx_processed := rx_processed summary + 1\<rparr>)
         | RebuildFailed \<Rightarrow> reindex_each ix ident sources (summary\<lparr>rx_failures := rx_failures summary + 1\<rparr>)))"

definition execute_reindex :: "indexer \<Rightarrow> reindex_scope \<Rightarrow> (world, index_error, reindex_summary) exec" where
  "execute_reindex ix scope =
     (let ident = identity_of (ix_identity ix) in
      exec_bind (exec_map_err IndexPersistence (plan_reindex ident scope)) (\<lambda>planned.
      reindex_each ix ident planned no_reindex))"

end
