(* ===== verification/Embedding_Service.thy ===== *)
theory Embedding_Service
  imports Indexer
begin

text \<open>
  What the indexer and the reindex job rely on of an embedding provider: whatever it answers, it
  writes nothing but usage rows. The controlled adapter over any network keeps that contract.
\<close>

definition beside_ledger :: "world \<Rightarrow> world \<Rightarrow> bool" where
  "beside_ledger w w' = (\<exists>rows. tables w' = (tables w)\<lparr>provider_usage_rows := rows\<rparr>)"

lemma beside_ledger_refl [simp]: "beside_ledger w w"
  unfolding beside_ledger_def by (rule exI [of _ "provider_usage_rows (tables w)"]) simp

lemma beside_ledger_trans: "beside_ledger w w' \<Longrightarrow> beside_ledger w' w'' \<Longrightarrow> beside_ledger w w''"
  by (auto simp: beside_ledger_def)

lemma beside_ledger_same: "tables w' = tables w \<Longrightarrow> beside_ledger w w'"
  unfolding beside_ledger_def by (rule exI [of _ "provider_usage_rows (tables w)"]) simp

locale embedding_service =
  fixes provider :: embedding_provider
  assumes ledger_only: "provider inputs w = (r, w') \<Longrightarrow> beside_ledger w w'"
begin

lemma groups_ledger_only: "embed_groups provider groups vectors w = (r, w') \<Longrightarrow> beside_ledger w w'"
proof (induction groups arbitrary: vectors w)
  case (Cons g gs)
  obtain r1 w1 where 1: "provider g w = (r1, w1)" by fastforce
  from Cons.prems 1 Cons.IH show ?case
    using ledger_only [OF 1] beside_ledger_trans by (cases r1) auto
qed simp

end

section \<open>The controlled adapter\<close>

lemma embed_returns: "\<exists>r. embed net codec a inputs w = Some r"
proof -
  have "unat (0 :: 32 word) + max 1 (unat (max_tries (ea_retry a))) = max 1 (unat (max_tries (ea_retry a)))"
    "0 < max 1 (unat (max_tries (ea_retry a)))" by simp_all
  note returns = retry_loop_total [OF this]
  show ?thesis
    unfolding embed_def embeddings_request_body_def sum.case by (cases "list_ex (\<lambda>input. length input > ea_max_input a) inputs")
      (simp_all only: if_True if_False not_True_eq_False not_False_eq_True returns option.inject ex_simps simp_thms)
qed

lemma link_network_tables:
  "tables (snd (net_post (link_network link) payload w)) = tables w"
  "tables (snd (net_draw (link_network link) i w)) = tables w"
  "tables (net_sleep (link_network link) d w) = tables w"
  by (simp_all add: link_network_def elapse_def split: prod.split)

lemma adapter_tables:
  assumes "adapter_provider link codec a inputs w = (r, w')"
  shows "tables w' = tables w"
proof -
  let ?net = "link_network link"
  have once: "tables (snd (embed_try ?net codec a n body v)) = tables w" if "tables v = tables w" for n body v
    using that link_network_tables(1) [of link _ v]
    by (auto simp: embed_try_def try_once_def split: option.split prod.split) (metis snd_conv)+
  have "tables (snd p) = tables w" if "embed ?net codec a inputs w = Some p" for p
  proof (cases "list_ex (\<lambda>input. length input > ea_max_input a) inputs")
    case False
    then have loop: "retry_loop ?net (ea_retry a) (embed_try ?net codec a (length inputs)
        (JObj [(''model'', JStr (ea_model a)), (''input'', JArr (map JStr inputs))])) 0 w = Some p"
      using that by (simp add: embed_def embeddings_request_body_def)
    show ?thesis
      by (rule retry_loop_keeps [where I = "\<lambda>v. tables v = tables w", OF loop once])
        (simp_all add: link_network_tables)
  qed (use that in \<open>auto simp: embed_def\<close>)
  then show ?thesis
    using assms embed_returns [of ?net codec a inputs w] by (auto simp: adapter_provider_def)
qed

lemma ensure_within_budget_tables:
  "tables (snd (ensure_within_budget ws provider i k prices limits w)) = tables w"
proof -
  have "keeps (on_state (\<lambda>t d. t = tables w)) (window_totals ws provider window)" for window
    unfolding window_totals_def
    by (intro keeps_rules keeps_sql) (auto simp: totals_query_def Let_def split: if_splits)
  then have "keeps (on_state (\<lambda>t d. t = tables w)) (ensure_within_budget ws provider i k prices limits)"
    unfolding ensure_within_budget_def Let_def by (cases "estimate_cost_micro_usd prices i k") (auto intro!: keeps_rules)
  then show ?thesis by (simp add: keeps_def on_state_def)
qed

lemma record_embedding_usage_ledger: "beside_ledger w (record_embedding_usage ident prices outcome w)"
proof -
  have "beside_ledger w (snd (record_usage p m u c w))" for p m u c
    using record_usage_result [of p m u c w] by (auto simp: beside_ledger_def intro: beside_ledger_same)
      (auto intro: exI [of _ "provider_usage_rows (tables w)"])
  then show ?thesis by (simp add: record_embedding_usage_def split: call_result.split option.split)
qed

interpretation controlled_adapter: embedding_service
  "controlled_embeddings ws controls ident (adapter_provider link codec a)" for ws controls ident link codec a
proof
  fix inputs w r w' assume run: "controlled_embeddings ws controls ident (adapter_provider link codec a) inputs w = (r, w')"
  obtain b w1 where 1: "ensure_within_budget ws (ei_provider ident) (embedding_input_tokens inputs) 0
      (em_prices controls) (em_limits controls) w = (b, w1)" by fastforce
  obtain o2 w2 where 2: "adapter_provider link codec a inputs w1 = (o2, w2)" by fastforce
  have "tables w1 = tables w" using ensure_within_budget_tables 1 by (metis snd_conv)
  moreover have "tables w2 = tables w1" using 2 by (rule adapter_tables)
  ultimately have "beside_ledger w w1" "beside_ledger w w2" by (simp_all add: beside_ledger_same)
  then show "beside_ledger w w'"
    using run 1 2 record_embedding_usage_ledger beside_ledger_trans
    by (auto simp: controlled_embeddings_def split: sum.splits)
qed

end
