(* ===== verification/Indexer_Correct.thy ===== *)
theory Indexer_Correct
  imports Embedding_Service Latest_Wins
begin

text \<open>
  What an indexing attempt leaves in the tables: the complete set of a source's vectors with its run
  moved on, or one failure row, or what it found; and that the loop of passes always ends.
\<close>

section \<open>A complete set of vectors\<close>

definition mine :: "indexing_identity \<Rightarrow> uuid \<Rightarrow> chunk_row \<Rightarrow> bool" where
  "mine ident source c = (ec_source c = source \<and> active_chunk ident c)"

definition carries :: "indexing_target \<Rightarrow> embedding_write \<Rightarrow> chunk_row \<Rightarrow> bool" where
  "carries target x c =
     (ec_output c = it_output_id target \<and> ec_tenant c = it_tenant_ref target \<and>
      ec_owner c = it_owner_context target \<and> ec_document c = it_document target \<and>
      ec_text c = ew_text x \<and> ec_digest c = ew_digest x \<and> ec_vector c = ew_vector x)"

text \<open>Of a source and an identity: one row for each of the first \<open>n\<close> writes, each with its content.\<close>

definition covered_to :: "nat \<Rightarrow> indexing_identity \<Rightarrow> indexing_target \<Rightarrow> embedding_write list \<Rightarrow> chunk_row list \<Rightarrow> bool" where
  "covered_to n ident target writes cs =
     ((\<forall>i < n. \<exists>c \<in> set cs. mine ident (it_source_ref target) c \<and> ec_ordinal c = i) \<and>
      (\<forall>c \<in> set cs. mine ident (it_source_ref target) c \<longrightarrow> ec_ordinal c < n \<longrightarrow>
         carries target (writes ! ec_ordinal c) c))"

definition covered :: "indexing_identity \<Rightarrow> indexing_target \<Rightarrow> embedding_write list \<Rightarrow> chunk_row list \<Rightarrow> bool" where
  "covered ident target writes cs =
     (covered_to (length writes) ident target writes cs \<and>
      (\<forall>c \<in> set cs. mine ident (it_source_ref target) c \<longrightarrow> ec_ordinal c < length writes))"

abbreviation foreign :: "indexing_identity \<Rightarrow> indexing_target \<Rightarrow> chunk_row list \<Rightarrow> chunk_row list" where
  "foreign ident target \<equiv> select_where (\<lambda>c. \<not> mine ident (it_source_ref target) c)"

lemma row_mine: "mine ident (it_source_ref target) (chunk_row_of ident target k x)"
  by (simp add: mine_def active_chunk_def chunk_row_of_def)

lemma same_chunk_mine:
  "same_chunk (chunk_row_of ident target k x) c \<longleftrightarrow> mine ident (it_source_ref target) c \<and> ec_ordinal c = ew_ordinal x"
  by (auto simp: same_chunk_def mine_def active_chunk_def chunk_row_of_def)

lemma put_chunk_effect:
  assumes "put_chunk (chunk_row_of ident target k x) t = Inr ((), t')"
  shows "\<exists>cs. t' = t\<lparr>embedding_chunks := cs\<rparr> \<and> foreign ident target cs = foreign ident target (embedding_chunks t) \<and>
    ew_ordinal x < 2 ^ 31 \<and>
    (covered_to (ew_ordinal x) ident target writes (embedding_chunks t) \<longrightarrow>
       writes ! ew_ordinal x = x \<longrightarrow> covered_to (Suc (ew_ordinal x)) ident target writes cs)"
proof -
  let ?r = "chunk_row_of ident target k x"
  let ?cs = "upsert (same_chunk ?r) (\<lambda>_. True) (\<lambda>c. ?r\<lparr>ec_id := ec_id c\<rparr>) ?r (embedding_chunks t)"
  have t': "t' = t\<lparr>embedding_chunks := ?cs\<rparr>" and n: "ew_ordinal x < 2 ^ 31"
    using assms by (auto simp: put_chunk_def chunk_row_ok_def chunk_row_of_def split: if_splits)
  have new: "mine ident (it_source_ref target) (?r\<lparr>ec_id := i\<rparr>)" "carries target x (?r\<lparr>ec_id := i\<rparr>)"
    "ec_ordinal (?r\<lparr>ec_id := i\<rparr>) = ew_ordinal x" for i
    by (simp_all add: mine_def active_chunk_def chunk_row_of_def carries_def)
  have "foreign ident target ?cs = foreign ident target (embedding_chunks t)"
  proof (cases "exists_where (same_chunk ?r) (embedding_chunks t)")
    case True
    then show ?thesis
      unfolding upsert_def if_P [OF True] by (intro select_update_disjoint) (auto simp: same_chunk_mine new(1))
  qed (simp add: upsert_def select_where_def row_mine)
  moreover have "covered_to (Suc (ew_ordinal x)) ident target writes ?cs"
    if prev: "covered_to (ew_ordinal x) ident target writes (embedding_chunks t)" and x: "writes ! ew_ordinal x = x"
  proof -
    have mem: "c \<in> set ?cs \<Longrightarrow> (c \<in> set (embedding_chunks t) \<and> \<not> same_chunk ?r c) \<or> (\<exists>i. c = ?r\<lparr>ec_id := i\<rparr>)" for c
      by (auto simp: upsert_def table_simps split: if_splits intro: exI [of _ "ec_id ?r"])
    have kept: "c \<in> set (embedding_chunks t) \<Longrightarrow> \<not> same_chunk ?r c \<Longrightarrow> c \<in> set ?cs" for c
      by (auto simp: upsert_def table_simps)
    have there: "\<exists>i. ?r\<lparr>ec_id := i\<rparr> \<in> set ?cs"
      by (auto simp: upsert_def table_simps intro: exI [of _ "ec_id ?r"])
    show ?thesis
      unfolding covered_to_def
    proof (intro conjI allI impI ballI)
      fix i assume "i < Suc (ew_ordinal x)"
      then consider "i = ew_ordinal x" | "i < ew_ordinal x" by linarith
      then show "\<exists>c \<in> set ?cs. mine ident (it_source_ref target) c \<and> ec_ordinal c = i"
      proof cases
        case 1
        then show ?thesis using there new by blast
      next
        case 2
        then obtain c where "c \<in> set (embedding_chunks t)" "mine ident (it_source_ref target) c" "ec_ordinal c = i"
          using prev by (auto simp: covered_to_def)
        then show ?thesis using 2 kept [of c] by (auto simp: same_chunk_mine)
      qed
    next
      fix c assume c: "c \<in> set ?cs" and m: "mine ident (it_source_ref target) c" and lt: "ec_ordinal c < Suc (ew_ordinal x)"
      from mem [OF c] show "carries target (writes ! ec_ordinal c) c"
      proof
        assume "c \<in> set (embedding_chunks t) \<and> \<not> same_chunk ?r c"
        then show ?thesis using prev m lt by (auto simp: covered_to_def same_chunk_mine)
      next
        assume "\<exists>i. c = ?r\<lparr>ec_id := i\<rparr>"
        then show ?thesis using new x by auto
      qed
    qed
  qed
  ultimately show ?thesis using t' n by blast
qed

abbreviation numbered :: "embedding_write list \<Rightarrow> bool" where
  "numbered writes \<equiv> map ew_ordinal writes = [0..<length writes]"

definition put_one :: "indexing_identity \<Rightarrow> indexing_target \<Rightarrow> embedding_write \<Rightarrow> (world, persistence_error, unit) exec" where
  "put_one ident target x =
     exec_bind new_uuid (\<lambda>fresh_id. sql Query (put_chunk (chunk_row_of ident target fresh_id x)))"

lemma put_all_effect:
  assumes "exec_each (put_one ident target) xs w = (Inr (), w')" and "numbered (ys @ xs)"
    and "covered_to (length ys) ident target (ys @ xs) (embedding_chunks (tables w))"
  shows "\<exists>cs. tables w' = (tables w)\<lparr>embedding_chunks := cs\<rparr> \<and>
    foreign ident target cs = foreign ident target (embedding_chunks (tables w)) \<and>
    covered_to (length (ys @ xs)) ident target (ys @ xs) cs"
  using assms
proof (induction xs arbitrary: ys w)
  case Nil
  then show ?case
    by (intro exI [of _ "embedding_chunks (tables w)"]) (simp add: exec_return_def)
next
  case (Cons x xs)
  have "map ew_ordinal (ys @ x # xs) ! length ys = [0..<length (ys @ x # xs)] ! length ys"
    using Cons.prems(2) by simp
  then have at: "ew_ordinal x = length ys" by (simp add: nth_append)
  obtain w1 where 1: "put_one ident target x w = (Inr (), w1)"
    and 2: "exec_each (put_one ident target) xs w1 = (Inr (), w')"
    using Cons.prems(1) by (auto elim: exec_bind_InrE)
  obtain k where "put_chunk (chunk_row_of ident target k x) (tables w) = Inr ((), tables w1)"
    using 1 by (auto simp: put_one_def exec_bind_def new_uuid_def dest!: sql_Inr split: sum.splits)
  from put_chunk_effect [OF this, of "ys @ x # xs"] obtain cs where
    cs: "tables w1 = (tables w)\<lparr>embedding_chunks := cs\<rparr>"
      "foreign ident target cs = foreign ident target (embedding_chunks (tables w))"
      "covered_to (Suc (length ys)) ident target (ys @ x # xs) cs"
    using Cons.prems(3) unfolding at by (auto simp: nth_append)
  show ?case
    using Cons.IH [OF 2, of "ys @ [x]"] Cons.prems(2) cs by auto
qed

section \<open>The transaction\<close>

definition others :: "db \<Rightarrow> db" where
  "others t = t\<lparr>embedding_chunks := [], embedding_failures := [], analysis_runs := []\<rparr>"

text \<open>Ordinals are 32-bit integers: \<open>2 ^ 31\<close> chunks of one source are the bound of the table.\<close>

definition stored_for :: "indexing_identity \<Rightarrow> indexing_target \<Rightarrow> embedding_write list \<Rightarrow> db \<Rightarrow> db \<Rightarrow> bool" where
  "stored_for ident target writes t t' =
     ((length writes < 2 ^ 31 \<longrightarrow> covered ident target writes (embedding_chunks t')) \<and>
      (writes = [] \<or> (\<exists>c \<in> set (embedding_chunks t'). mine ident (it_source_ref target) c)) \<and>
      foreign ident target (embedding_chunks t') = foreign ident target (embedding_chunks t) \<and>
      embedding_failures t' = delete_where (same_failure ident (it_source_ref target)) (embedding_failures t))"

definition moved_on :: "indexing_identity \<Rightarrow> indexing_target \<Rightarrow> embedding_write list \<Rightarrow> db \<Rightarrow> db \<Rightarrow> bool" where
  "moved_on ident target writes t t' =
     (stored_for ident target writes t t' \<and> others t' = others t \<and>
      count_where (\<lambda>r. ar_id r = it_run target \<and> ar_state r = Persisted) (analysis_runs t) = 1 \<and>
      (\<exists>at. analysis_runs t' = update_where (\<lambda>r. ar_id r = it_run target \<and> ar_state r = Persisted)
         (\<lambda>r. r\<lparr>ar_state := Indexed, ar_updated := at\<rparr>) (analysis_runs t)))"

lemma covered_to_none: "covered_to 0 ident target writes cs"
  by (simp add: covered_to_def)

lemma prune_covered:
  assumes "covered_to (length writes) ident target writes cs" and "length writes < 2 ^ 31"
  shows "covered ident target writes (delete_where (\<lambda>c. ec_source c = it_source_ref target \<and>
    active_chunk ident c \<and> ec_ordinal c \<ge> min (length writes) (2 ^ 31 - 1)) cs)"
  using assms by (fastforce simp: covered_def covered_to_def mine_def table_simps)

lemma prune_nonempty:
  assumes "covered_to (length writes) ident target writes cs" and "writes \<noteq> []"
  shows "\<exists>c \<in> set (delete_where (\<lambda>c. ec_source c = it_source_ref target \<and>
    active_chunk ident c \<and> ec_ordinal c \<ge> min (length writes) (2 ^ 31 - 1)) cs). mine ident (it_source_ref target) c"
proof -
  obtain c where "c \<in> set cs" "mine ident (it_source_ref target) c" "ec_ordinal c = 0"
    using assms by (auto simp: covered_to_def)
  then show ?thesis using assms(2) by (intro bexI [of _ c]) (auto simp: table_simps)
qed

lemma execute_effect: "execute e f w = (Inr x, w') \<Longrightarrow> tables w' = f (tables w)"
  by (auto simp: execute_def dest!: sql_Inr)

lemma prune_foreign:
  "foreign ident target (delete_where (\<lambda>c. ec_source c = it_source_ref target \<and>
    active_chunk ident c \<and> n \<le> ec_ordinal c) cs) = foreign ident target cs"
  unfolding select_where_def delete_where_def mine_def by (induction cs) auto

lemma store_embeddings_effect:
  assumes "store_embeddings ident target writes w = (Inr (), w')" and "numbered writes"
  shows "stored_for ident target writes (tables w) (tables w') \<and> others (tables w') = others (tables w) \<and>
    analysis_runs (tables w') = analysis_runs (tables w)"
proof -
  have put: "(\<lambda>x. exec_bind new_uuid (\<lambda>fresh_id. sql Query (put_chunk (chunk_row_of ident target fresh_id x)))) =
      put_one ident target"
    by (rule ext) (simp add: put_one_def)
  let ?prune = "embedding_chunks_update (delete_where (\<lambda>c. ec_source c = it_source_ref target \<and>
      active_chunk ident c \<and> ec_ordinal c \<ge> min (length writes) (2 ^ 31 - 1)))"
  obtain u w1 where 1: "exec_each (put_one ident target) writes w = (Inr u, w1)"
    and rest: "exec_bind (execute Query ?prune) (\<lambda>_. execute Query (embedding_failures_update
      (delete_where (same_failure ident (it_source_ref target))))) w1 = (Inr (), w')"
    using assms(1) unfolding store_embeddings_def put by (rule exec_bind_InrE)
  obtain u2 w2 where e2: "execute Query ?prune w1 = (Inr u2, w2)"
    and e3: "execute Query (embedding_failures_update
      (delete_where (same_failure ident (it_source_ref target)))) w2 = (Inr (), w')"
    using rest by (rule exec_bind_InrE)
  note 2 = execute_effect [OF e2] and 3 = execute_effect [OF e3]
  from put_all_effect [OF 1 [unfolded unit_eq [of u]], of "[]"] obtain cs where
    cs: "tables w1 = (tables w)\<lparr>embedding_chunks := cs\<rparr>"
      "foreign ident target cs = foreign ident target (embedding_chunks (tables w))"
      "covered_to (length writes) ident target writes cs"
    using assms(2) covered_to_none by auto
  define pruned where "pruned = delete_where (\<lambda>c. ec_source c = it_source_ref target \<and> active_chunk ident c \<and>
    ec_ordinal c \<ge> min (length writes) (2 ^ 31 - 1)) cs"
  have "length writes < 2 ^ 31 \<longrightarrow> covered ident target writes pruned"
    "writes = [] \<or> (\<exists>c \<in> set pruned. mine ident (it_source_ref target) c)"
    "foreign ident target pruned = foreign ident target cs"
    unfolding pruned_def using prune_covered [OF cs(3)] prune_nonempty [OF cs(3)] prune_foreign by blast+
  moreover have "tables w' = (tables w)\<lparr>embedding_chunks := pruned,
      embedding_failures := delete_where (same_failure ident (it_source_ref target)) (embedding_failures (tables w))\<rparr>"
    by (simp add: pruned_def 2 3 cs(1))
  ultimately show ?thesis
    by (simp add: stored_for_def others_def cs(2))
qed

lemma index_transaction_effect:
  assumes "index_transaction ident target writes w = (Inr (), w')" and "numbered writes"
  shows "moved_on ident target writes (tables w) (tables w')"
proof -
  let ?p = "\<lambda>r. ar_id r = it_run target \<and> ar_state r = Persisted"
  obtain w1 where 1: "store_embeddings ident target writes w = (Inr (), w1)"
    and n: "count_where ?p (analysis_runs (tables w1)) = 1"
    and t: "tables w' = analysis_runs_update (update_where ?p (\<lambda>r. r\<lparr>ar_state := Indexed, ar_updated := now w1\<rparr>)) (tables w1)"
    using assms(1) unfolding index_transaction_def
    by (auto simp: get_now_def exec_guard_apply elim!: exec_bind_InrE dest!: affect_Inr split: if_splits)
  show ?thesis
    using store_embeddings_effect [OF 1 assms(2)] n
    by (auto simp: moved_on_def stored_for_def others_def t)
qed

section \<open>One source\<close>

definition noted :: "indexing_identity \<Rightarrow> indexing_target \<Rightarrow> db \<Rightarrow> db \<Rightarrow> bool" where
  "noted ident target t t' = (\<exists>cls fresh_id n. put_failure ident target cls fresh_id t = Inr (n, t'))"

lemma notedI: "put_failure ident target cls fresh_id t = Inr (n, t') \<Longrightarrow> noted ident target t t'"
  unfolding noted_def by blast

text \<open>What an attempt to index leaves: nothing new, a failure row, or the whole of the source.\<close>

definition settled_source ::
  "indexing_identity \<Rightarrow> indexing_target \<Rightarrow> chunk list \<Rightarrow> db \<Rightarrow> index_error + bool \<Rightarrow> db \<Rightarrow> bool" where
  "settled_source ident target chunks t r t' =
     (t' = t \<and> (\<exists>e. r = Inl e) \<or>
      noted ident target t t' \<and> ((\<exists>e. r = Inl e) \<or> r = Inr False) \<or>
      (\<exists>vectors. vectors_fit chunks vectors \<and> moved_on ident target (writes_of chunks vectors) t t') \<and>
        ((\<exists>e. r = Inl e) \<or> r = Inr True))"

lemma stored_failure_cases:
  assumes "stored_failure ident target cls w = (r, w')"
  shows "(tables w' = tables w \<and> (\<exists>e. r = Inl e)) \<or> noted ident target (tables w) (tables w')"
proof -
  let ?m = "exec_bind (record_indexing_failure ident target cls) (\<lambda>_. exec_return ())"
  obtain r1 where 1: "transact Query ?m w = (r1, w')" and r: "r = map_sum IndexPersistence id r1"
    using assms by (auto simp: stored_failure_def exec_map_err_def split: prod.splits sum.splits)
  have noted: "noted ident target (tables w) (tables w1)" if "?m (tick w) = (Inr u, w1)" for u w1
    using that by (auto simp: record_indexing_failure_def new_uuid_def exec_return_def exec_bind_def
        intro!: notedI dest!: sql_Inr split: prod.splits sum.splits)
  from transact_tables [OF 1] noted show ?thesis unfolding r by auto
qed

lemma stored_failure_outcome:
  assumes "exec_bind (stored_failure ident target cls) (\<lambda>_. exec_return False) w = (r, w')"
  shows "settled_source ident target chunks (tables w) r (tables w')"
proof -
  obtain r1 where 1: "stored_failure ident target cls w = (r1, w')"
    and r: "r = (case r1 of Inl e \<Rightarrow> Inl e | Inr _ \<Rightarrow> Inr False)"
    using assms by (auto simp: exec_bind_def exec_return_def split: prod.splits sum.splits)
  from stored_failure_cases [OF 1] show ?thesis
    unfolding r settled_source_def by (auto split: sum.splits)
qed

lemma writes_of_fitting:
  assumes "vectors_fit chunks vectors" and "map ch_ordinal chunks = [0..<length chunks]"
  shows "numbered (writes_of chunks vectors)" and "length (writes_of chunks vectors) = length chunks"
proof -
  have len: "length vectors = length chunks" using assms(1) by (simp add: vectors_fit_def)
  then show "length (writes_of chunks vectors) = length chunks" by (simp add: writes_of_def)
  have "map ew_ordinal (writes_of chunks vectors) = map ch_ordinal (map fst (zip chunks vectors))"
    by (simp add: writes_of_def case_prod_beta comp_def)
  then show "numbered (writes_of chunks vectors)" using len assms(2) by (simp add: writes_of_def)
qed

lemma stored_vectors_outcome:
  assumes "exec_bind (exec_map_err IndexPersistence (transact Query
      (index_transaction ident target (writes_of chunks vectors)))) (\<lambda>_. exec_return True) w = (r, w')"
    and fit: "vectors_fit chunks vectors" and ordinals: "map ch_ordinal chunks = [0..<length chunks]"
  shows "settled_source ident target chunks (tables w) r (tables w')"
proof -
  let ?m = "index_transaction ident target (writes_of chunks vectors)"
  obtain r1 where 1: "transact Query ?m w = (r1, w')"
    and r: "r = (case r1 of Inl e \<Rightarrow> Inl (IndexPersistence e) | Inr _ \<Rightarrow> Inr True)"
    using assms(1) by (auto simp: exec_bind_def exec_map_err_def exec_return_def split: prod.splits sum.splits)
  have "moved_on ident target (writes_of chunks vectors) (tables w) (tables w1)" if "?m (tick w) = (Inr u, w1)" for u w1
    using index_transaction_effect [of ident target "writes_of chunks vectors" "tick w" w1]
      that writes_of_fitting [OF fit ordinals] by simp
  then show ?thesis
    using transact_tables [OF 1] fit unfolding r settled_source_def by (auto split: sum.splits)
qed

definition chunks_of :: "indexer \<Rightarrow> pending_source \<Rightarrow> chunk list" where
  "chunks_of ix s = chunk_article (ix_sha ix) (ps_title s) (ps_lead s) (ps_body s) (ix_policy ix)"

lemma chunks_of_policy:
  assumes "chunk_policy_new target overlap = Inr (ix_policy ix)"
  shows "chunks_of ix s \<noteq> []" and "map ch_ordinal (chunks_of ix s) = [0..<length (chunks_of ix s)]"
proof -
  note b = chunk_policy_new_bounds [OF assms]
  show ord: "map ch_ordinal (chunks_of ix s) = [0..<length (chunks_of ix s)]"
    unfolding chunks_of_def chunk_article_def
    by (rule nth_equalityI) (simp_all add: chunk_loop_nth Let_def)
  show "chunks_of ix s \<noteq> []"
    using chunk_windows_nonempty [of "ix_policy ix" "ps_lead s" "ps_body s"] b
    by (auto simp: chunks_of_def chunk_article_def neq_Nil_conv Let_def)
qed

context embedding_service
begin

lemma index_source_outcome:
  assumes run: "index_source (ix\<lparr>ix_provider := provider\<rparr>) s target ident w = (r, w')"
    and policy: "chunk_policy_new n k = Inr (ix_policy ix)"
  shows "\<exists>v. beside_ledger w v \<and> settled_source ident target (chunks_of ix s) (tables v) r (tables w')"
proof -
  let ?chunks = "chunks_of ix s"
  obtain vs w1 where 1: "embed_groups provider
      (input_groups (map ch_text ?chunks) (il_max_input (ix_limits ix))) [] w = (vs, w1)" by fastforce
  have same: "chunk_article (ix_sha (ix\<lparr>ix_provider := provider\<rparr>)) (ps_title s) (ps_lead s) (ps_body s)
      (ix_policy (ix\<lparr>ix_provider := provider\<rparr>)) = ?chunks" by (simp add: chunks_of_def)
  have settled: "settled_source ident target ?chunks (tables w1) r (tables w')"
  proof (cases vs)
    case (Answered vectors)
    then show ?thesis
      using run 1 chunks_of_policy(1) [OF policy] stored_failure_outcome
        stored_vectors_outcome [OF _ _ chunks_of_policy(2) [OF policy]]
      unfolding index_source_def Let_def same by (auto split: if_splits)
  next
    case (CallFailed failure)
    then show ?thesis
      using run 1 chunks_of_policy(1) [OF policy] stored_failure_outcome
      unfolding index_source_def Let_def same by auto
  next
    case CallPanicked
    then show ?thesis
      using run 1 chunks_of_policy(1) [OF policy]
      unfolding index_source_def Let_def same settled_source_def by auto
  qed
  then show ?thesis using groups_ledger_only [OF 1] by blast
qed

end

section \<open>The loop of passes ends\<close>

definition persisted_runs :: "db \<Rightarrow> nat" where
  "persisted_runs t = count_where (\<lambda>r. ar_state r = Persisted) (analysis_runs t)"

definition failure_sources :: "db \<Rightarrow> uuid set" where
  "failure_sources t = sr_id ` set (source_refs t) \<union> ef_source ` set (embedding_failures t)"

definition failure_room :: "indexing_identity \<Rightarrow> int \<Rightarrow> db \<Rightarrow> nat" where
  "failure_room ident bound t = (\<Sum>s \<in> failure_sources t. nat (bound - int (attempts_at ident s t)))"

definition failure_key :: "failure_row \<Rightarrow> uuid \<times> string \<times> string \<times> string \<times> string" where
  "failure_key f = (ef_source f, ef_chunking f, ef_provider f, ef_model f, ef_prompt f)"

lemma same_failure_key:
  "same_failure ident s = (\<lambda>f. failure_key f = (s, chunking_version, ii_provider ident, ii_model ident, ii_prompt ident))"
  by (auto simp: fun_eq_iff same_failure_def failure_key_def)

lemma put_failure_attempts:
  assumes "put_failure ident target cls k t = Inr (n, t')"
  shows "attempts_at ident s t' = attempts_at ident s t + (if s = it_source_ref target then 1 else 0)"
    and "failure_sources t' = failure_sources t" and "it_source_ref target \<in> failure_sources t"
    and "analysis_runs t' = analysis_runs t"
proof -
  let ?new = "\<lparr>ef_id = k, ef_source = it_source_ref target, ef_output = it_output_id target,
    ef_tenant = it_tenant_ref target, ef_chunking = chunking_version, ef_provider = ii_provider ident,
    ef_model = ii_model ident, ef_prompt = ii_prompt ident, ef_class = cls, ef_attempt = 1, ef_detail = None\<rparr>"
  let ?upd = "\<lambda>f. f\<lparr>ef_class := cls, ef_output := it_output_id target, ef_attempt := ef_attempt f + 1\<rparr>"
  let ?same = "same_failure ident (it_source_ref target)"
  have t': "t' = t\<lparr>embedding_failures := upsert ?same (\<lambda>_. True) ?upd ?new (embedding_failures t)\<rparr>"
    and known: "exists_where ?same (embedding_failures t) \<or>
      exists_where (\<lambda>s. sr_id s = it_source_ref target) (source_refs t)"
    using assms by (auto simp: put_failure_def Let_def split: if_splits)
  show "analysis_runs t' = analysis_runs t" by (simp add: t')
  show here: "it_source_ref target \<in> failure_sources t"
    using known unfolding failure_sources_def same_failure_def exists_where_iff by (elim disjE bexE) force+
  show "failure_sources t' = failure_sources t"
  proof (cases "exists_where ?same (embedding_failures t)")
    case True
    have "map ef_source (update_where (\<lambda>f. ?same f \<and> True) ?upd (embedding_failures t)) = map ef_source (embedding_failures t)"
      by (rule map_update_where) simp
    then have "ef_source ` set (update_where (\<lambda>f. ?same f \<and> True) ?upd (embedding_failures t)) = ef_source ` set (embedding_failures t)"
      by (metis set_map)
    then show ?thesis using True by (simp add: failure_sources_def t' upsert_def)
  qed (use here in \<open>auto simp: failure_sources_def t' upsert_def\<close>)
  have key: "failure_key ?new = (it_source_ref target, chunking_version, ii_provider ident, ii_model ident, ii_prompt ident)"
    by (simp add: failure_key_def)
  show "attempts_at ident s t' = attempts_at ident s t + (if s = it_source_ref target then 1 else 0)"
    using find_upsert [where key = failure_key and r = ?new and upd = ?upd and guard = "\<lambda>_. True"
        and t = "embedding_failures t" and k = "(s, chunking_version, ii_provider ident, ii_model ident, ii_prompt ident)"]
    unfolding attempts_at_def t' same_failure_key key
    by (auto simp: failure_key_def split: option.splits)
qed

lemma noted_room:
  assumes "noted ident target t t'" and "int (attempts_at ident (it_source_ref target) t) < bound"
  shows "persisted_runs t' = persisted_runs t \<and> failure_room ident bound t' < failure_room ident bound t"
proof -
  obtain cls k n where put: "put_failure ident target cls k t = Inr (n, t')"
    using assms(1) by (auto simp: noted_def)
  note at = put_failure_attempts [OF put]
  have "failure_room ident bound t' < failure_room ident bound t"
    unfolding failure_room_def at(2)
  proof (rule sum_strict_mono_ex1)
    show "\<exists>s \<in> failure_sources t. nat (bound - int (attempts_at ident s t')) < nat (bound - int (attempts_at ident s t))"
      using at(1,3) assms(2) by (intro bexI [of _ "it_source_ref target"]) auto
  qed (auto simp: at(1) failure_sources_def)
  then show ?thesis by (simp add: persisted_runs_def at(4))
qed

lemma count_indexed:
  "count_where (\<lambda>r. ar_state r = Persisted) (update_where (\<lambda>r. q r \<and> ar_state r = Persisted)
     (\<lambda>r. r\<lparr>ar_state := Indexed, ar_updated := at\<rparr>) rs) + count_where (\<lambda>r. q r \<and> ar_state r = Persisted) rs =
   count_where (\<lambda>r. ar_state r = Persisted) rs"
  unfolding count_where_def update_where_def by (induction rs) auto

lemma moved_on_persisted:
  assumes "moved_on ident target writes t t'"
  shows "persisted_runs t' < persisted_runs t"
proof -
  let ?q = "\<lambda>r. ar_id r = it_run target"
  obtain at where runs: "analysis_runs t' = update_where (\<lambda>r. ?q r \<and> ar_state r = Persisted)
      (\<lambda>r. r\<lparr>ar_state := Indexed, ar_updated := at\<rparr>) (analysis_runs t)"
    and one: "count_where (\<lambda>r. ?q r \<and> ar_state r = Persisted) (analysis_runs t) = 1"
    using assms by (auto simp: moved_on_def)
  show ?thesis
    using count_indexed [of ?q at "analysis_runs t"] unfolding persisted_runs_def runs one by linarith
qed

definition pass_measure :: "indexing_identity \<Rightarrow> int \<Rightarrow> world rel" where
  "pass_measure ident bound =
     measures [\<lambda>w. persisted_runs (tables w), \<lambda>w. failure_room ident bound (tables w)]"

lemma beside_ledger_measure:
  assumes "beside_ledger w w'"
  shows "persisted_runs (tables w') = persisted_runs (tables w)"
    and "failure_room ident bound (tables w') = failure_room ident bound (tables w)"
    and "attempts_at ident s (tables w') = attempts_at ident s (tables w)"
  using assms
  by (auto simp: beside_ledger_def persisted_runs_def failure_room_def failure_sources_def attempts_at_def)

definition unmoved :: "indexing_identity \<Rightarrow> int \<Rightarrow> world \<Rightarrow> world \<Rightarrow> bool" where
  "unmoved ident bound w w' =
     (persisted_runs (tables w') = persisted_runs (tables w) \<and>
      failure_room ident bound (tables w') = failure_room ident bound (tables w))"

lemma pass_measure_wf: "wf (pass_measure ident bound)"
  by (simp add: pass_measure_def)

lemma pass_measure_trans:
  "(w1, w) \<in> pass_measure ident bound \<Longrightarrow> (w2, w1) \<in> pass_measure ident bound \<Longrightarrow> (w2, w) \<in> pass_measure ident bound"
  "(w1, w) \<in> pass_measure ident bound \<Longrightarrow> unmoved ident bound w1 w2 \<Longrightarrow> (w2, w) \<in> pass_measure ident bound"
  "unmoved ident bound w w1 \<Longrightarrow> (w2, w1) \<in> pass_measure ident bound \<Longrightarrow> (w2, w) \<in> pass_measure ident bound"
  "unmoved ident bound w w1 \<Longrightarrow> unmoved ident bound w1 w2 \<Longrightarrow> unmoved ident bound w w2"
  by (auto simp: pass_measure_def unmoved_def)

lemma settled_source_measure:
  assumes "beside_ledger w v" and "settled_source ident target chunks (tables v) (Inr b) (tables w')"
    and "int (attempts_at ident (it_source_ref target) (tables w)) < bound"
  shows "(w', w) \<in> pass_measure ident bound"
proof -
  note same = beside_ledger_measure [OF assms(1)]
  consider "noted ident target (tables v) (tables w')"
    | vectors where "moved_on ident target (writes_of chunks vectors) (tables v) (tables w')"
    using assms(2) unfolding settled_source_def by auto
  then show ?thesis
  proof cases
    case 1
    then show ?thesis using noted_room [of ident target "tables v" "tables w'" bound] assms(3) same
      by (simp add: pass_measure_def)
  next
    case 2
    then show ?thesis using moved_on_persisted same by (fastforce simp: pass_measure_def)
  qed
qed

context embedding_service
begin

lemma process_sources_measure:
  assumes policy: "chunk_policy_new n k = Inr (ix_policy ix)"
    and run: "process_sources (ix\<lparr>ix_provider := provider\<rparr>) ss out w = (Inr out', w')"
  defines "ident \<equiv> identity_of (ix_identity ix)" and "bound \<equiv> il_max_attempts (ix_limits ix)"
  shows "(unmoved ident bound w w' \<and> io_indexed out' = io_indexed out \<and> io_failed out' = io_failed out) \<or>
    (w', w) \<in> pass_measure ident bound"
  using run
proof (induction ss arbitrary: out w)
  case Nil
  then show ?case by (simp add: exec_return_def unmoved_def)
next
  case (Cons s ss)
  show ?case
  proof (cases "ps_has_projection s")
    case False
    then show ?thesis using Cons.prems Cons.IH [of "out\<lparr>io_skipped := io_skipped out + 1\<rparr>" w] by simp
  next
    case True
    then obtain a w1 where 1: "failure_attempt_count ident (ps_source s) w = (Inr a, w1)"
      and rest: "(if int a \<ge> bound
        then process_sources (ix\<lparr>ix_provider := provider\<rparr>) ss (out\<lparr>io_bound := io_bound out + 1\<rparr>)
        else exec_bind (index_source (ix\<lparr>ix_provider := provider\<rparr>) s (pending_target s) ident) (\<lambda>indexed.
          if indexed then process_sources (ix\<lparr>ix_provider := provider\<rparr>) ss (out\<lparr>io_indexed := io_indexed out + 1\<rparr>)
          else process_sources (ix\<lparr>ix_provider := provider\<rparr>) ss (out\<lparr>io_failed := io_failed out + 1\<rparr>))) w1 = (Inr out', w')"
      using Cons.prems by (auto simp: ident_def [symmetric] bound_def [symmetric] Let_def exec_map_err_Inr elim!: exec_bind_InrE)
    have a: "a = attempts_at ident (ps_source s) (tables w)" and t1: "tables w1 = tables w"
      using 1 unfolding failure_attempt_count_def by (auto dest: query_Inr)
    have u1: "unmoved ident bound w w1" using t1 by (simp add: unmoved_def)
    show ?thesis
    proof (cases "int a \<ge> bound")
      case True
      then show ?thesis
        using rest Cons.IH [of "out\<lparr>io_bound := io_bound out + 1\<rparr>" w1] pass_measure_trans(3,4) [OF u1] by auto
    next
      case False
      then obtain b w2 out1 where 2: "index_source (ix\<lparr>ix_provider := provider\<rparr>) s (pending_target s) ident w1 = (Inr b, w2)"
        and rest2: "process_sources (ix\<lparr>ix_provider := provider\<rparr>) ss out1 w2 = (Inr out', w')"
        using rest by (auto elim!: exec_bind_InrE split: if_splits)
      obtain v where "beside_ledger w1 v" "settled_source ident (pending_target s) (chunks_of ix s) (tables v) (Inr b) (tables w2)"
        using index_source_outcome [OF 2 policy] by blast
      then have m: "(w2, w1) \<in> pass_measure ident bound"
        by (rule settled_source_measure) (use False a t1 in \<open>simp add: pending_target_def\<close>)
      from Cons.IH [OF rest2] show ?thesis
        using pass_measure_trans(1,2) [OF m] pass_measure_trans(3) [OF u1] by blast
    qed
  qed
qed

lemma passes_end:
  assumes policy: "chunk_policy_new n k = Inr (ix_policy ix)"
  shows "\<exists>w'. run_indexing_pass (ix\<lparr>ix_provider := provider\<rparr>) w = Some w'"
proof (induction w rule: wf_induct [OF pass_measure_wf [of "identity_of (ix_identity ix)" "il_max_attempts (ix_limits ix)"]])
  case (1 w)
  obtain r w1 where run: "process_pending (ix\<lparr>ix_provider := provider\<rparr>) w = (r, w1)" by fastforce
  show ?case
  proof (cases "\<exists>out. r = Inr out \<and> \<not> (io_indexed out = 0 \<and> io_failed out = 0)")
    case False
    then have "run_indexing_pass (ix\<lparr>ix_provider := provider\<rparr>) w = Some w1"
      using run by (subst run_indexing_pass.simps) (cases r; simp)
    then show ?thesis ..
  next
    case True
    then obtain out where out: "r = Inr out" "\<not> (io_indexed out = 0 \<and> io_failed out = 0)" by blast
    obtain ss w0 where 0: "pending_indexing_batch (min (il_batch (ix_limits ix)) (2 ^ 63 - 1)) w = (Inr ss, w0)"
      and 2: "process_sources (ix\<lparr>ix_provider := provider\<rparr>) ss nothing_yet w0 = (Inr out, w1)"
      using run out(1) by (auto simp: process_pending_def exec_map_err_Inr elim: exec_bind_InrE)
    have "tables w0 = tables w" using 0 unfolding pending_indexing_batch_def by (auto dest: query_Inr)
    then have "(w1, w) \<in> pass_measure (identity_of (ix_identity ix)) (il_max_attempts (ix_limits ix))"
      using process_sources_measure [OF policy 2] out(2)
      by (auto simp: nothing_yet_def pass_measure_def)
    with 1 obtain w' where "run_indexing_pass (ix\<lparr>ix_provider := provider\<rparr>) w1 = Some w'" by blast
    then have "run_indexing_pass (ix\<lparr>ix_provider := provider\<rparr>) w = Some w'"
      using run out(1) by (subst run_indexing_pass.simps) (simp only: prod.case sum.case if_not_P [OF out(2)])
    then show ?thesis ..
  qed
qed

end

end
