(* ===== verification/Indexer_Claims.thy ===== *)
theory Indexer_Claims
  imports Indexer_Correct
begin

text \<open>
  The indexer of the service (\<open>build_indexing_worker\<close>): every pass loop ends, an attempt settles a
  source wholly or leaves a failure row, and a batch of runs that nothing shows blocks all others.
\<close>

lemma built_worker:
  assumes "build_indexing_worker parse_url client_built sha ws link codec config = Inr ix"
  obtains a where "chunk_policy_new (ic_target config) (ic_overlap config) = Inr (ix_policy ix)"
    and "ix = ix\<lparr>ix_provider := controlled_embeddings ws (ic_controls config) (embeddings_identity a)
          (adapter_provider link codec a)\<rparr>"
  using assms by (auto simp: build_indexing_worker_def split: sum.splits)

text \<open>
  C6: whatever the network, the budget ledger and the database do, the loop of passes of the indexing
  worker returns: a pass that indexes a source or records a failure uses up a persisted run or one of
  the attempts a source is allowed.
\<close>

theorem indexing_passes_end:
  assumes "build_indexing_worker parse_url client_built sha ws link codec config = Inr ix"
  shows "\<exists>w'. run_indexing_pass ix w = Some w'"
proof -
  obtain a where policy: "chunk_policy_new (ic_target config) (ic_overlap config) = Inr (ix_policy ix)"
    and ix: "ix = ix\<lparr>ix_provider := controlled_embeddings ws (ic_controls config) (embeddings_identity a)
      (adapter_provider link codec a)\<rparr>"
    using assms by (rule built_worker)
  show ?thesis by (subst ix) (rule controlled_adapter.passes_end [OF policy])
qed

text \<open>
  C5: under every pattern of faults and answers, an attempt to index a source changes, beside the usage
  ledger, one of three things: nothing, and it reports an error; the failure row of the source, and it
  never reports success; or everything at once: the run moves from \<open>persisted\<close> to \<open>indexed\<close>, the
  source has exactly one row per chunk with the chunk's text, digest and vector, stale rows of the
  identity and its failure row are gone, and all other rows are as before.
\<close>

theorem index_source_all_or_nothing:
  assumes "build_indexing_worker parse_url client_built sha ws link codec config = Inr ix"
    and "index_source ix s target ident w = (r, w')"
  shows "\<exists>v. beside_ledger w v \<and> settled_source ident target (chunks_of ix s) (tables v) r (tables w')"
proof -
  obtain a where policy: "chunk_policy_new (ic_target config) (ic_overlap config) = Inr (ix_policy ix)"
    and ix: "ix = ix\<lparr>ix_provider := controlled_embeddings ws (ic_controls config) (embeddings_identity a)
      (adapter_provider link codec a)\<rparr>"
    using assms(1) by (rule built_worker)
  have "index_source (ix\<lparr>ix_provider := controlled_embeddings ws (ic_controls config) (embeddings_identity a)
      (adapter_provider link codec a)\<rparr>) s target ident w = (r, w')"
    using assms(2) unfolding ix [symmetric] .
  then show ?thesis by (rule controlled_adapter.index_source_outcome [OF _ policy])
qed

section \<open>Runs that nothing shows\<close>

lemma unprojected_sources_skipped:
  assumes "list_all (\<lambda>s. \<not> ps_has_projection s) ss"
  shows "process_sources ix ss out w = (Inr (out\<lparr>io_skipped := io_skipped out + length ss\<rparr>), w)"
  using assms by (induction ss arbitrary: out) (simp_all add: exec_return_def)

text \<open>
  C12: when the oldest persisted runs that fill a batch have no search document (their revision was
  superseded before it was indexed, for one), no pass does anything, now or later: the worker stops
  after a pass that indexed nothing, without a call, and the tables are what they were, whatever other
  runs wait behind them.
\<close>

theorem unprojected_batch_blocks_indexing:
  assumes "list_all (\<lambda>s. \<not> ps_has_projection s) (take (il_batch (ix_limits ix)) (pending_of (tables w)))"
  shows "\<exists>w'. run_indexing_pass ix w = Some w' \<and> tables w' = tables w \<and> provider_calls w' = provider_calls w"
proof -
  let ?n = "min (il_batch (ix_limits ix)) (2 ^ 63 - 1)"
  obtain b w1 where 1: "pending_indexing_batch ?n w = (b, w1)" by fastforce
  have w1: "w1 = tick w" and b: "b = Inr (take ?n (pending_of (tables w))) \<or> b = Inl Query"
    using query_cases [OF 1 [unfolded pending_indexing_batch_def]] by auto
  have none: "list_all (\<lambda>s. \<not> ps_has_projection s) (take ?n (pending_of (tables w)))"
    using assms unfolding list_all_iff by (meson in_mono min.cobounded1 set_take_subset_set_take)
  have "fst (process_pending ix w) \<in> {Inl (IndexPersistence Query)} \<union>
      {Inr out |out. io_indexed out = 0 \<and> io_failed out = 0} \<and> snd (process_pending ix w) = w1"
    using b 1 unprojected_sources_skipped [OF none, of ix]
    by (auto simp: process_pending_def exec_bind_def exec_map_err_def nothing_yet_def)
  then have "run_indexing_pass ix w = Some w1"
    by (subst run_indexing_pass.simps) (auto split: prod.splits)
  then show ?thesis by (simp add: w1)
qed

section \<open>Concrete instances\<close>

definition sample_indexing_config :: indexing_config where
  "sample_indexing_config = \<lparr>
     ic_settings = \<lparr>es_base_url = ''https://e'', es_model = ''m'', es_dimensions = 1536, es_prompt = ''p'',
       es_max_input = 100, es_byte_cap = 1000, es_retry = \<lparr>max_tries = 3, base_delay_ms = 200, max_delay_ms = 2000\<rparr>\<rparr>,
     ic_controls = \<lparr>em_limits = \<lparr>bl_daily_tokens = 9, bl_monthly_tokens = 9, bl_daily_cost = 9, bl_monthly_cost = 9\<rparr>,
       em_prices = \<lparr>tp_input = 1, tp_output = 0\<rparr>\<rparr>,
     ic_target = 10, ic_overlap = 2, ic_batch = 1, ic_max_input = 100, ic_max_attempts = 3\<rparr>"

definition dead_link :: embedding_link where
  "dead_link = \<lparr>el_post = (\<lambda>_ _. (SendBroken, 0)), el_draw = (\<lambda>_ _. 0)\<rparr>"

definition dead_codec :: embeddings_codec where
  "dead_codec = \<lparr>ek_bytes = (\<lambda>_. Some []), ek_decode = (\<lambda>_. None)\<rparr>"

definition calendar :: windows where
  "calendar = \<lparr>day_start = (\<lambda>t. t), month_start = (\<lambda>t. t)\<rparr>"

definition sample_worker_config :: "indexing_worker_error + indexer" where
  "sample_worker_config = build_indexing_worker (\<lambda>_. Some (''https'', None)) True (\<lambda>s. s) calendar dead_link dead_codec
     sample_indexing_config"

definition sample_indexer :: indexer where
  "sample_indexer = (case sample_worker_config of Inr ix \<Rightarrow> ix)"

lemma sample_worker_built: "sample_worker_config = Inr sample_indexer"
  by (simp add: sample_indexer_def sample_worker_config_def build_indexing_worker_def sample_indexing_config_def
      chunk_policy_new_def embeddings_new_def base_url_allowed_def)

text \<open>Two persisted runs: nothing shows the older one's output; the newer one's has a document.\<close>

definition sample_pending_db :: db where
  "sample_pending_db = empty_db\<lparr>
     analysis_runs := [
       \<lparr>ar_id = 1, ar_source = 3, ar_contract = ''c'', ar_prompt = ''p'', ar_context = ''x'', ar_policy = ''m'',
        ar_state = Persisted, ar_created = 0, ar_updated = 0\<rparr>,
       \<lparr>ar_id = 2, ar_source = 4, ar_contract = ''c'', ar_prompt = ''p'', ar_context = ''x'', ar_policy = ''m'',
        ar_state = Persisted, ar_created = 0, ar_updated = 5\<rparr>],
     analysis_outputs := [
       \<lparr>ao_id = 11, ao_run = 1, ao_result = JNull,
        ao_raw = \<lparr>br_owner = ''k'', br_digest = ''e'', br_media = ''m'', br_length = 1\<rparr>, ao_accepted = True, ao_created = 0\<rparr>,
       \<lparr>ao_id = 12, ao_run = 2, ao_result = JNull,
        ao_raw = \<lparr>br_owner = ''k'', br_digest = ''e'', br_media = ''m'', br_length = 1\<rparr>, ao_accepted = True, ao_created = 5\<rparr>],
     search_documents := [
       \<lparr>sd_id = 21, sd_source = 4, sd_output = 12, sd_tenant = ''t'', sd_owner = ''o'', sd_document = 31,
        sd_title = ''x'', sd_lead = ''y'', sd_body = ''z'', sd_updated = 5\<rparr>]\<rparr>"

lemma sample_pending:
  "map (\<lambda>s. (ps_run s, ps_has_projection s)) (pending_of sample_pending_db) = [(1, False), (2, True)]"
  by (simp add: pending_of_def pending_rows_def sample_pending_db_def empty_db_def select_where_def)

theorem indexing_passes_end_witness:
  "\<exists>w'. run_indexing_pass sample_indexer (empty_world\<lparr>tables := sample_pending_db\<rparr>) = Some w'"
  using indexing_passes_end [OF sample_worker_built [unfolded sample_worker_config_def]] .

theorem index_source_all_or_nothing_witness:
  "case pending_of sample_pending_db of [a, s] \<Rightarrow>
     (case index_source sample_indexer s (pending_target s) (identity_of (ix_identity sample_indexer))
         (empty_world\<lparr>tables := sample_pending_db\<rparr>) of (r, w') \<Rightarrow>
       \<exists>v. beside_ledger (empty_world\<lparr>tables := sample_pending_db\<rparr>) v \<and>
         settled_source (identity_of (ix_identity sample_indexer)) (pending_target s) (chunks_of sample_indexer s)
           (tables v) r (tables w'))"
proof -
  have "\<exists>v. beside_ledger w v \<and> settled_source ident target (chunks_of sample_indexer s) (tables v)
      (fst (index_source sample_indexer s target ident w)) (tables (snd (index_source sample_indexer s target ident w)))"
    for w s target ident
    by (rule index_source_all_or_nothing [OF sample_worker_built [unfolded sample_worker_config_def]]) simp
  moreover obtain a s where "pending_of sample_pending_db = [a, s]"
    using sample_pending by (auto simp: map_eq_Cons_conv)
  ultimately show ?thesis by (simp add: case_prod_beta)
qed

theorem unprojected_batch_blocks_indexing_witness:
  "\<exists>w'. run_indexing_pass sample_indexer (empty_world\<lparr>tables := sample_pending_db\<rparr>) = Some w' \<and>
     tables w' = sample_pending_db \<and>
     map (\<lambda>s. (ps_run s, ps_has_projection s)) (pending_of (tables w')) = [(1, False), (2, True)]"
proof -
  have "il_batch (ix_limits sample_indexer) = 1"
    by (simp add: sample_indexer_def sample_worker_config_def build_indexing_worker_def sample_indexing_config_def
        chunk_policy_new_def embeddings_new_def base_url_allowed_def)
  moreover obtain a s where "pending_of sample_pending_db = [a, s]" "\<not> ps_has_projection a"
    using sample_pending by (auto simp: map_eq_Cons_conv)
  ultimately have "list_all (\<lambda>s. \<not> ps_has_projection s) (take (il_batch (ix_limits sample_indexer))
      (pending_of (tables (empty_world\<lparr>tables := sample_pending_db\<rparr>))))" by simp
  from unprojected_batch_blocks_indexing [OF this] show ?thesis using sample_pending by auto
qed

end
