(* ===== verification/Reindex_Correct.thy ===== *)
theory Reindex_Correct
  imports Reindex Indexer_Claims
begin

text \<open>
  What the regeneration of embeddings leaves: results, runs and documents as they were, each source
  with its old vectors or with the complete new set alone, and after a run without failures nothing to
  plan for.
\<close>

definition kept_by_reindex :: "db \<Rightarrow> db" where
  "kept_by_reindex t = t\<lparr>embedding_chunks := [], embedding_failures := [], provider_usage_rows := []\<rparr>"

text \<open>All vectors of the source are of the active identity, and there are some.\<close>

definition converged :: "indexing_identity \<Rightarrow> uuid \<Rightarrow> db \<Rightarrow> bool" where
  "converged ident source t =
     ((\<exists>c \<in> set (embedding_chunks t). ec_source c = source \<and> active_chunk ident c) \<and>
      (\<forall>c \<in> set (embedding_chunks t). ec_source c = source \<longrightarrow> active_chunk ident c))"

definition source_chunks :: "uuid \<Rightarrow> db \<Rightarrow> chunk_row list" where
  "source_chunks source t = select_where (\<lambda>c. ec_source c = source) (embedding_chunks t)"

lemma converged_cong: "source_chunks source t' = source_chunks source t \<Longrightarrow> converged ident source t' = converged ident source t"
proof -
  have "converged ident source t = ((\<exists>c \<in> set (source_chunks source t). active_chunk ident c) \<and>
      (\<forall>c \<in> set (source_chunks source t). active_chunk ident c))" for t
    by (auto simp: converged_def source_chunks_def table_simps)
  then show "source_chunks source t' = source_chunks source t \<Longrightarrow> ?thesis" by simp
qed

lemma plan_of_iff:
  "source \<in> set (plan_of ident scope t) \<longleftrightarrow>
     (\<exists>s \<in> set (search_documents t). sd_source s = source \<and> admits (rs_tenant scope) (sd_tenant s) \<and>
        (\<exists>r \<in> set (source_refs t). admits_source scope source r)) \<and> \<not> converged ident source t"
  by (auto simp: plan_of_def converged_def table_simps)

text \<open>What the regeneration of one source does to the tables.\<close>

definition rebuilt :: "indexing_identity \<Rightarrow> indexing_target \<Rightarrow> embedding_write list \<Rightarrow> db \<Rightarrow> db \<Rightarrow> bool" where
  "rebuilt ident target writes t t' =
     ((length writes < 2 ^ 31 \<longrightarrow> covered ident target writes (source_chunks (it_source_ref target) t')) \<and>
      (writes = [] \<or> converged ident (it_source_ref target) t') \<and>
      (\<forall>other. other \<noteq> it_source_ref target \<longrightarrow> source_chunks other t' = source_chunks other t) \<and>
      embedding_failures t' = delete_where (\<lambda>f. ef_source f = it_source_ref target) (embedding_failures t) \<and>
      kept_by_reindex t' = kept_by_reindex t)"

definition left_or_rebuilt :: "indexing_identity \<Rightarrow> indexing_target \<Rightarrow> chunk list \<Rightarrow> db \<Rightarrow> index_error + reindex_source_outcome \<Rightarrow> db \<Rightarrow> bool" where
  "left_or_rebuilt ident target chunks t r t' =
     (t' = t \<and> (\<exists>e. r = Inl e) \<or>
      noted ident target t t' \<and> ((\<exists>e. r = Inl e) \<or> r = Inr RebuildFailed) \<or>
      (\<exists>vectors. vectors_fit chunks vectors \<and> rebuilt ident target (writes_of chunks vectors) t t') \<and>
        ((\<exists>e. r = Inl e) \<or> r = Inr (Rebuilt (length chunks))))"

lemma select_where_twice: "select_where p (select_where q xs) = select_where (\<lambda>x. q x \<and> p x) xs"
  by (simp add: select_where_def conj_commute)

lemma reindex_transaction_effect:
  assumes "reindex_transaction ident target writes w = (Inr (), w')" and "numbered writes"
  shows "rebuilt ident target writes (tables w) (tables w')"
proof -
  let ?s = "it_source_ref target"
  let ?prune = "embedding_chunks_update (delete_where (\<lambda>c. ec_source c = ?s \<and> \<not> active_chunk ident c))"
  let ?clear = "embedding_failures_update (delete_where (\<lambda>f. ef_source f = ?s))"
  obtain u w1 where 1: "store_embeddings ident target writes w = (Inr u, w1)"
    and rest: "exec_bind (execute Query ?prune) (\<lambda>_. execute Query ?clear) w1 = (Inr (), w')"
    using assms(1) unfolding reindex_transaction_def by (rule exec_bind_InrE)
  obtain u2 w2 where e2: "execute Query ?prune w1 = (Inr u2, w2)" and e3: "execute Query ?clear w2 = (Inr (), w')"
    using rest by (rule exec_bind_InrE)
  have t': "tables w' = ?clear (?prune (tables w1))" using execute_effect [OF e2] execute_effect [OF e3] by simp
  note stored = store_embeddings_effect [OF 1 [unfolded unit_eq [of u]] assms(2)]
  let ?cs = "embedding_chunks (tables w1)"
  let ?cs' = "delete_where (\<lambda>c. ec_source c = ?s \<and> \<not> active_chunk ident c) ?cs"
  have chunks: "embedding_chunks (tables w') = ?cs'" by (simp add: t')
  have here: "source_chunks ?s (tables w') = select_where (mine ident ?s) ?cs"
    unfolding source_chunks_def chunks by (auto simp: select_where_def delete_where_def mine_def intro: filter_cong)
  have cover: "covered ident target writes (select_where (mine ident ?s) cs)" if "covered ident target writes cs" for cs
    using that by (auto simp: covered_def covered_to_def table_simps)
  have other: "source_chunks other (tables w') = source_chunks other (tables w)" if "other \<noteq> ?s" for other
  proof -
    have "source_chunks other (tables w') = select_where (\<lambda>c. ec_source c = other) (foreign ident target ?cs)"
      unfolding source_chunks_def chunks using that
      by (auto simp: select_where_def delete_where_def mine_def intro: filter_cong)
    also have "\<dots> = select_where (\<lambda>c. ec_source c = other) (foreign ident target (embedding_chunks (tables w)))"
      using stored by (simp add: stored_for_def)
    also have "\<dots> = source_chunks other (tables w)"
      unfolding source_chunks_def using that by (auto simp: select_where_def mine_def intro: filter_cong)
    finally show ?thesis .
  qed
  have conv: "converged ident ?s (tables w')" if "\<exists>c \<in> set ?cs. mine ident ?s c"
    using that unfolding converged_def chunks by (auto simp: table_simps mine_def)
  have fails: "embedding_failures (tables w') = delete_where (\<lambda>f. ef_source f = ?s) (embedding_failures (tables w))"
  proof -
    have "embedding_failures (tables w1) = delete_where (same_failure ident ?s) (embedding_failures (tables w))"
      using stored by (simp add: stored_for_def)
    then show ?thesis
      by (auto simp: t' delete_where_def same_failure_def intro: filter_cong)
  qed
  have "kept_by_reindex (tables w') = kept_by_reindex (others (tables w1)\<lparr>analysis_runs := analysis_runs (tables w1)\<rparr>)"
    by (simp add: kept_by_reindex_def others_def t')
  also have "\<dots> = kept_by_reindex (tables w)" using stored by (simp add: kept_by_reindex_def others_def)
  finally show ?thesis
    using stored other conv fails cover unfolding rebuilt_def here stored_for_def by blast
qed

lemma reindex_failure_outcome:
  assumes "exec_bind (stored_failure ident target cls) (\<lambda>_. exec_return RebuildFailed) w = (r, w')"
  shows "left_or_rebuilt ident target chunks (tables w) r (tables w')"
proof -
  obtain r1 where 1: "stored_failure ident target cls w = (r1, w')"
    and r: "r = (case r1 of Inl e \<Rightarrow> Inl e | Inr _ \<Rightarrow> Inr RebuildFailed)"
    using assms by (auto simp: exec_bind_def exec_return_def split: prod.splits sum.splits)
  from stored_failure_cases [OF 1] show ?thesis
    unfolding r left_or_rebuilt_def by (auto split: sum.splits)
qed

lemma reindex_stored_outcome:
  assumes "exec_bind (exec_map_err IndexPersistence (transact Query
      (reindex_transaction ident target (writes_of chunks vectors))))
      (\<lambda>_. exec_return (Rebuilt (length (writes_of chunks vectors)))) w = (r, w')"
    and fit: "vectors_fit chunks vectors" and ordinals: "map ch_ordinal chunks = [0..<length chunks]"
  shows "left_or_rebuilt ident target chunks (tables w) r (tables w')"
proof -
  let ?m = "reindex_transaction ident target (writes_of chunks vectors)"
  note writes = writes_of_fitting [OF fit ordinals]
  obtain r1 where 1: "transact Query ?m w = (r1, w')"
    and r: "r = (case r1 of Inl e \<Rightarrow> Inl (IndexPersistence e) | Inr _ \<Rightarrow> Inr (Rebuilt (length chunks)))"
    using assms(1) unfolding writes(2)
    by (auto simp: exec_bind_def exec_map_err_def exec_return_def split: prod.splits sum.splits)
  have "rebuilt ident target (writes_of chunks vectors) (tables w) (tables w1)" if "?m (tick w) = (Inr u, w1)" for u w1
    using reindex_transaction_effect [of ident target "writes_of chunks vectors" "tick w" w1] that writes(1) by simp
  then show ?thesis
    using transact_tables [OF 1] fit unfolding r left_or_rebuilt_def by (auto split: sum.splits)
qed

text \<open>Of a whole job: what is kept, and that no source is left between its old and its new vectors.\<close>

definition reindexed :: "indexing_identity \<Rightarrow> db \<Rightarrow> db \<Rightarrow> bool" where
  "reindexed ident t t' =
     (kept_by_reindex t' = kept_by_reindex t \<and>
      (\<forall>source. source_chunks source t' = source_chunks source t \<or> converged ident source t'))"

lemma reindexed_refl: "reindexed ident t t"
  by (simp add: reindexed_def)

lemma reindexed_trans: "reindexed ident t t1 \<Longrightarrow> reindexed ident t1 t2 \<Longrightarrow> reindexed ident t t2"
  unfolding reindexed_def using converged_cong by metis

lemma beside_ledger_reindexed:
  "beside_ledger w w' \<Longrightarrow> kept_by_reindex (tables w') = kept_by_reindex (tables w) \<and>
     source_chunks source (tables w') = source_chunks source (tables w)"
  by (auto simp: beside_ledger_def kept_by_reindex_def source_chunks_def)

lemma noted_keeps:
  "noted ident target t t' \<Longrightarrow> kept_by_reindex t' = kept_by_reindex t \<and> source_chunks source t' = source_chunks source t"
  by (auto simp: noted_def put_failure_def Let_def kept_by_reindex_def source_chunks_def split: if_splits)

lemma left_or_rebuilt_reindexed:
  assumes "left_or_rebuilt ident target chunks t r t'" and "chunks \<noteq> []" and "map ch_ordinal chunks = [0..<length chunks]"
  shows "reindexed ident t t'" and "r = Inr (Rebuilt n) \<Longrightarrow> converged ident (it_source_ref target) t'"
    and "source \<noteq> it_source_ref target \<Longrightarrow> source_chunks source t' = source_chunks source t"
proof -
  have ne: "writes_of chunks vectors \<noteq> []" if "vectors_fit chunks vectors" for vectors
    using writes_of_fitting(2) [OF that assms(3)] assms(2) by (metis length_0_conv)
  show "reindexed ident t t'"
    using assms(1) ne noted_keeps unfolding left_or_rebuilt_def reindexed_def rebuilt_def by (elim disjE conjE exE) metis+
  show "r = Inr (Rebuilt n) \<Longrightarrow> converged ident (it_source_ref target) t'"
    using assms(1) ne unfolding left_or_rebuilt_def rebuilt_def by auto
  show "source \<noteq> it_source_ref target \<Longrightarrow> source_chunks source t' = source_chunks source t"
    using assms(1) noted_keeps unfolding left_or_rebuilt_def rebuilt_def by (elim disjE conjE exE) metis+
qed

context embedding_service
begin

lemma regenerate_source_outcome:
  assumes run: "regenerate_source (ix\<lparr>ix_provider := provider\<rparr>) ident target s w = (r, w')"
    and policy: "chunk_policy_new n k = Inr (ix_policy ix)"
  shows "\<exists>v. beside_ledger w v \<and> left_or_rebuilt ident target (chunks_of ix s) (tables v) r (tables w')"
proof -
  let ?chunks = "chunks_of ix s"
  obtain vs w1 where 1: "embed_groups provider
      (input_groups (map ch_text ?chunks) (il_max_input (ix_limits ix))) [] w = (vs, w1)" by fastforce
  have same: "chunk_article (ix_sha (ix\<lparr>ix_provider := provider\<rparr>)) (ps_title s) (ps_lead s) (ps_body s)
      (ix_policy (ix\<lparr>ix_provider := provider\<rparr>)) = ?chunks" by (simp add: chunks_of_def)
  have "left_or_rebuilt ident target ?chunks (tables w1) r (tables w')"
  proof (cases vs)
    case (Answered vectors)
    then show ?thesis
      using run 1 chunks_of_policy(1) [OF policy] reindex_failure_outcome
        reindex_stored_outcome [OF _ _ chunks_of_policy(2) [OF policy]]
      unfolding regenerate_source_def Let_def same by (auto split: if_splits)
  next
    case (CallFailed failure)
    then show ?thesis
      using run 1 chunks_of_policy(1) [OF policy] reindex_failure_outcome
      unfolding regenerate_source_def Let_def same by auto
  next
    case CallPanicked
    then show ?thesis
      using run 1 chunks_of_policy(1) [OF policy]
      unfolding regenerate_source_def Let_def same left_or_rebuilt_def by auto
  qed
  then show ?thesis using groups_ledger_only [OF 1] by blast
qed

lemma regenerate_source_reindexed:
  assumes run: "regenerate_source (ix\<lparr>ix_provider := provider\<rparr>) ident target s w = (r, w')"
    and policy: "chunk_policy_new n k = Inr (ix_policy ix)"
  shows "reindexed ident (tables w) (tables w')"
    and "r = Inr (Rebuilt m) \<Longrightarrow> converged ident (it_source_ref target) (tables w')"
    and "source \<noteq> it_source_ref target \<Longrightarrow> source_chunks source (tables w') = source_chunks source (tables w)"
proof -
  obtain v where v: "beside_ledger w v" "left_or_rebuilt ident target (chunks_of ix s) (tables v) r (tables w')"
    using regenerate_source_outcome [OF run policy] by blast
  note r = left_or_rebuilt_reindexed [OF v(2) chunks_of_policy [OF policy]]
  have "reindexed ident (tables w) (tables v)" using beside_ledger_reindexed [OF v(1)] by (simp add: reindexed_def)
  then show "reindexed ident (tables w) (tables w')" using r(1) by (rule reindexed_trans)
  show "r = Inr (Rebuilt m) \<Longrightarrow> converged ident (it_source_ref target) (tables w')" by (rule r(2))
  show "source \<noteq> it_source_ref target \<Longrightarrow> source_chunks source (tables w') = source_chunks source (tables w)"
    using r(3) beside_ledger_reindexed [OF v(1)] by simp
qed

end

lemma reindexed_converged: "reindexed ident t t' \<Longrightarrow> converged ident source t \<Longrightarrow> converged ident source t'"
  unfolding reindexed_def using converged_cong by metis

lemma loaded_source:
  assumes "load_reindex_source source w = (Inr loaded, w')"
  shows "tables w' = tables w" and "loaded = Some s \<Longrightarrow> it_source_ref (pending_target s) = source"
proof -
  have l: "loaded = reindex_source_of source (tables w) \<and> tables w' = tables w"
    using assms unfolding load_reindex_source_def by (rule query_Inr)
  then show "tables w' = tables w" by blast
  have first: "list_first xs = Some x \<Longrightarrow> x \<in> set xs" for xs :: "pending_source list" and x
    by (cases xs) auto
  show "loaded = Some s \<Longrightarrow> it_source_ref (pending_target s) = source"
    using l by (auto simp: reindex_source_of_def pending_target_def dest!: first)
qed

lemma kept_parts:
  assumes "kept_by_reindex t' = kept_by_reindex t"
  shows "search_documents t' = search_documents t" and "source_refs t' = source_refs t"
  using arg_cong [OF assms, of search_documents] arg_cong [OF assms, of source_refs]
  by (simp_all add: kept_by_reindex_def)

lemma load_fails_quietly: "load_reindex_source source w = (r, w') \<Longrightarrow> tables w' = tables w"
  unfolding load_reindex_source_def by (drule query_cases) simp

context embedding_service
begin

lemma reindex_each_sound:
  assumes policy: "chunk_policy_new n k = Inr (ix_policy ix)"
    and run: "reindex_each (ix\<lparr>ix_provider := provider\<rparr>) ident sources summary w = (r, w')"
  shows "reindexed ident (tables w) (tables w') \<and>
    (\<forall>summary'. r = Inr summary' \<longrightarrow> rx_failures summary \<le> rx_failures summary' \<and>
       (rx_failures summary' = rx_failures summary \<longrightarrow> (\<forall>source \<in> set sources. converged ident source (tables w'))))"
  using run
proof (induction sources arbitrary: summary w)
  case Nil
  then show ?case by (auto simp: exec_return_def reindexed_refl)
next
  case (Cons source sources)
  let ?ix = "ix\<lparr>ix_provider := provider\<rparr>"
  obtain l w1 where 1: "load_reindex_source source w = (l, w1)" by fastforce
  have t1: "tables w1 = tables w" using 1 by (rule load_fails_quietly)
  show ?case
  proof (cases l)
    case (Inl e)
    then show ?thesis using Cons.prems 1 t1 by (auto simp: exec_bind_def exec_map_err_def reindexed_refl)
  next
    case (Inr loaded)
    show ?thesis
    proof (cases loaded)
      case None
      then show ?thesis
        using Cons.prems Cons.IH [of "summary\<lparr>rx_failures := rx_failures summary + 1\<rparr>" w1] 1 Inr t1
        by (auto simp: exec_bind_def exec_map_err_def dest: Suc_leD)
    next
      case (Some s)
      obtain r2 w2 where 2: "regenerate_source ?ix ident (pending_target s) s w1 = (r2, w2)" by fastforce
      note step = regenerate_source_reindexed [OF 2 policy]
      have at: "it_source_ref (pending_target s) = source" using loaded_source(2) 1 Inr Some by blast
      have first: "reindexed ident (tables w) (tables w2)" using step(1) t1 by simp
      consider e where "r2 = Inl e" | m where "r2 = Inr (Rebuilt m)" | "r2 = Inr RebuildFailed"
        by (metis reindex_source_outcome.exhaust sum.exhaust)
      then show ?thesis
      proof cases
        case 1
        then show ?thesis
          using Cons.prems \<open>load_reindex_source source w = (l, w1)\<close> Inr Some 2 first
          by (auto simp: exec_bind_def exec_map_err_def)
      next
        case m: (2 m)
        have rest: "reindex_each ?ix ident sources (summary\<lparr>rx_processed := rx_processed summary + 1\<rparr>) w2 = (r, w')"
          using Cons.prems \<open>load_reindex_source source w = (l, w1)\<close> Inr Some 2 m
          by (simp add: exec_bind_def exec_map_err_def)
        note later = Cons.IH [OF rest]
        have "converged ident source (tables w')"
          using step(2) [OF m] at later reindexed_converged by blast
        then show ?thesis using later reindexed_trans [OF first] by auto
      next
        case 3
        have rest: "reindex_each ?ix ident sources (summary\<lparr>rx_failures := rx_failures summary + 1\<rparr>) w2 = (r, w')"
          using Cons.prems \<open>load_reindex_source source w = (l, w1)\<close> Inr Some 2 3
          by (simp add: exec_bind_def exec_map_err_def)
        show ?thesis using Cons.IH [OF rest] reindexed_trans [OF first] by (auto dest: Suc_leD)
      qed
    qed
  qed
qed

lemma execute_reindex_sound:
  assumes policy: "chunk_policy_new n k = Inr (ix_policy ix)"
    and run: "execute_reindex (ix\<lparr>ix_provider := provider\<rparr>) scope w = (r, w')"
  defines "ident \<equiv> identity_of (ix_identity ix)"
  shows "reindexed ident (tables w) (tables w') \<and>
    (\<forall>summary. r = Inr summary \<longrightarrow> rx_failures summary = 0 \<longrightarrow> plan_of ident scope (tables w') = [])"
proof -
  obtain p w1 where 1: "plan_reindex ident scope w = (p, w1)" by fastforce
  have t1: "tables w1 = tables w" and p: "p = Inr (plan_of ident scope (tables w)) \<or> p = Inl Query"
    using query_cases [OF 1 [unfolded plan_reindex_def]] by auto
  show ?thesis
  proof (cases p)
    case (Inl e)
    then show ?thesis
      using run 1 t1 by (auto simp: execute_reindex_def Let_def ident_def exec_bind_def exec_map_err_def reindexed_refl)
  next
    case (Inr planned)
    then have rest: "reindex_each (ix\<lparr>ix_provider := provider\<rparr>) ident planned no_reindex w1 = (r, w')"
      and planned: "planned = plan_of ident scope (tables w)"
      using run 1 p by (auto simp: execute_reindex_def Let_def ident_def exec_bind_def exec_map_err_def)
    note each = reindex_each_sound [OF policy rest]
    have same: "search_documents (tables w') = search_documents (tables w)" "source_refs (tables w') = source_refs (tables w)"
      using kept_parts [of "tables w'" "tables w"] each t1 by (simp_all add: reindexed_def)
    have "source \<notin> set (plan_of ident scope (tables w'))" if "r = Inr summary" "rx_failures summary = 0" for source summary
      using each that reindexed_converged t1 unfolding plan_of_iff same planned [symmetric]
      by (metis no_reindex_def planned plan_of_iff reindex_summary.select_convs(2))
    then show ?thesis using each t1 by (metis list.set_intros(1) neq_Nil_conv)
  qed
qed

end

section \<open>The job of the service\<close>

text \<open>
  C11: wherever a regeneration of embeddings stops, under every pattern of faults and answers, runs,
  results, search documents and all other tables beside the usage ledger and the failure rows are as
  before, and each source has either the vectors it had or only vectors of the active identity, never
  a mixture.
\<close>

theorem reindex_never_half_done:
  assumes "build_indexing_worker parse_url client_built sha ws link codec config = Inr ix"
    and "execute_reindex ix scope w = (r, w')"
  shows "kept_by_reindex (tables w') = kept_by_reindex (tables w) \<and>
    (\<forall>source. source_chunks source (tables w') = source_chunks source (tables w) \<or>
       converged (identity_of (ix_identity ix)) source (tables w'))"
proof -
  obtain a where policy: "chunk_policy_new (ic_target config) (ic_overlap config) = Inr (ix_policy ix)"
    and ix: "ix = ix\<lparr>ix_provider := controlled_embeddings ws (ic_controls config) (embeddings_identity a)
      (adapter_provider link codec a)\<rparr>"
    using assms(1) by (rule built_worker)
  have "execute_reindex (ix\<lparr>ix_provider := controlled_embeddings ws (ic_controls config) (embeddings_identity a)
      (adapter_provider link codec a)\<rparr>) scope w = (r, w')"
    using assms(2) unfolding ix [symmetric] .
  from controlled_adapter.execute_reindex_sound [OF policy this] show ?thesis by (simp add: reindexed_def)
qed

lemma reindex_nothing_planned:
  assumes "plan_of (identity_of (ix_identity ix)) scope (tables w) = []"
  shows "\<exists>r. execute_reindex ix scope w = (r, tick w) \<and> (\<forall>summary. r = Inr summary \<longrightarrow> summary = no_reindex)"
proof -
  obtain p w1 where 1: "plan_reindex (identity_of (ix_identity ix)) scope w = (p, w1)" by fastforce
  have "w1 = tick w \<and> (p = Inr [] \<or> p = Inl Query)"
    using query_cases [OF 1 [unfolded plan_reindex_def]] assms by simp
  then show ?thesis
    using 1 by (auto simp: execute_reindex_def Let_def exec_bind_def exec_map_err_def exec_return_def)
qed

text \<open>
  C10: a regeneration that reports no failure converges: nothing in its scope is left to plan, and
  running it again, whenever the tables are still the same, makes no provider call and changes nothing.
\<close>

theorem reindex_converges:
  assumes "build_indexing_worker parse_url client_built sha ws link codec config = Inr ix"
    and "execute_reindex ix scope w = (Inr summary, w')" and "rx_failures summary = 0"
    and "tables later = tables w'"
  shows "plan_of (identity_of (ix_identity ix)) scope (tables w') = [] \<and>
    (\<exists>r w2. execute_reindex ix scope later = (r, w2) \<and> tables w2 = tables w' \<and>
       provider_calls w2 = provider_calls later \<and> (\<forall>again. r = Inr again \<longrightarrow> again = no_reindex))"
proof -
  obtain a where policy: "chunk_policy_new (ic_target config) (ic_overlap config) = Inr (ix_policy ix)"
    and ix: "ix = ix\<lparr>ix_provider := controlled_embeddings ws (ic_controls config) (embeddings_identity a)
      (adapter_provider link codec a)\<rparr>"
    using assms(1) by (rule built_worker)
  have run: "execute_reindex (ix\<lparr>ix_provider := controlled_embeddings ws (ic_controls config) (embeddings_identity a)
      (adapter_provider link codec a)\<rparr>) scope w = (Inr summary, w')"
    using assms(2) unfolding ix [symmetric] .
  have plan: "plan_of (identity_of (ix_identity ix)) scope (tables w') = []"
    using controlled_adapter.execute_reindex_sound [OF policy run] assms(3) by simp
  then show ?thesis
    using reindex_nothing_planned [of ix scope later] assms(4) by auto
qed

section \<open>A concrete job\<close>

text \<open>A network that answers every request with one vector of zeros.\<close>

definition zero_vector :: "32 word list" where
  "zero_vector = replicate 1536 0"

definition live_link :: embedding_link where
  "live_link = \<lparr>el_post = (\<lambda>_ _. (Reply 200 [], 5)), el_draw = (\<lambda>_ _. 0)\<rparr>"

definition live_codec :: embeddings_codec where
  "live_codec = \<lparr>ek_bytes = (\<lambda>_. Some []),
     ek_decode = (\<lambda>_. Some \<lparr>en_data = [\<lparr>ee_index = 0, ee_embedding = zero_vector\<rparr>], en_prompt_tokens = 1\<rparr>)\<rparr>"

definition some_digest :: string where
  "some_digest = replicate 64 (CHR ''a'')"

definition live_indexer :: indexer where
  "live_indexer = (case build_indexing_worker (\<lambda>_. Some (''https'', None)) True (\<lambda>_. some_digest) calendar live_link
     live_codec sample_indexing_config of Inr ix \<Rightarrow> ix)"

lemma live_indexer_built:
  "build_indexing_worker (\<lambda>_. Some (''https'', None)) True (\<lambda>_. some_digest) calendar live_link live_codec
     sample_indexing_config = Inr live_indexer"
  by (simp add: live_indexer_def build_indexing_worker_def sample_indexing_config_def
      chunk_policy_new_def embeddings_new_def base_url_allowed_def)

definition live_world :: world where
  "live_world = empty_world\<lparr>tables := sample_pending_db\<lparr>source_refs := [
     \<lparr>sr_id = 4, sr_tenant = ''t'', sr_owner = ''o'', sr_archive = [], sr_document = ''d'', sr_digest = ''e'',
      sr_blob = \<lparr>br_owner = ''o'', br_digest = ''e'', br_media = ''m'', br_length = 1\<rparr>, sr_created = 0\<rparr>]\<rparr>\<rparr>"

theorem reindex_never_half_done_witness:
  "case execute_reindex live_indexer scope_unrestricted live_world of (r, w') \<Rightarrow>
     kept_by_reindex (tables w') = kept_by_reindex (tables live_world)"
proof -
  obtain r w' where run: "execute_reindex live_indexer scope_unrestricted live_world = (r, w')" by fastforce
  from reindex_never_half_done [OF live_indexer_built this] run show ?thesis by simp
qed

lemma live_chunks:
  "chunk_article (\<lambda>_. some_digest) ''x'' ''y'' ''z'' \<lparr>target_chars = 10, overlap_chars = 2\<rparr> =
     [\<lparr>ch_ordinal = 0, ch_text = [CHR ''x'', CHR 0x0A, CHR 0x0A, CHR ''z''], ch_digest_hex = some_digest\<rparr>]"
  by (simp add: chunk_article_def chunk_windows_def Let_def paragraphs_of_def trim_def is_whitespace_def
      pack_windows_def paragraph_separator_def)

lemma live_vector: "length zero_vector = 1536" "list_all finite_f32 zero_vector" "is_digest_hex some_digest"
  by (simp_all add: zero_vector_def list_all_iff finite_f32_def some_digest_def is_digest_hex_def is_hex_digit_def)

abbreviation live_adapter :: embeddings_adapter where
  "live_adapter \<equiv> \<lparr>ea_endpoint = ''https://e/embeddings'', ea_model = ''m'', ea_dimensions = 1536, ea_prompt = ''p'',
     ea_max_input = 100, ea_byte_cap = 1000, ea_retry = \<lparr>max_tries = 3, base_delay_ms = 200, max_delay_ms = 2000\<rparr>\<rparr>"

abbreviation live_provider :: embedding_provider where
  "live_provider \<equiv> controlled_embeddings calendar (ic_controls sample_indexing_config) (embeddings_identity live_adapter)
     (adapter_provider live_link live_codec live_adapter)"

lemma live_indexer_eq:
  "live_indexer = \<lparr>ix_sha = (\<lambda>_. some_digest), ix_provider = live_provider,
     ix_identity = embeddings_identity live_adapter, ix_policy = \<lparr>target_chars = 10, overlap_chars = 2\<rparr>,
     ix_limits = \<lparr>il_batch = 1, il_max_input = 100, il_max_attempts = 3\<rparr>\<rparr>"
  by (simp add: live_indexer_def build_indexing_worker_def sample_indexing_config_def
      chunk_policy_new_def embeddings_new_def base_url_allowed_def trim_end_slashes_def)

lemma live_call:
  assumes "no_faults w" and "provider_usage_rows (tables w) = []" and "length input = 4"
  shows "\<exists>w'. live_provider [input] w = (Answered \<lparr>er_vectors = [zero_vector], er_tokens = 1\<rparr>, w') \<and> no_faults w'"
proof -
  have "adapter_provider live_link live_codec live_adapter [input] v =
      (Answered \<lparr>er_vectors = [zero_vector], er_tokens = 1\<rparr>, elapse 5 (v\<lparr>provider_calls := provider_calls v + 1\<rparr>))" for v
    using assms(3) by (simp add: adapter_provider_def embed_def embeddings_request_body_def retry_loop.simps embed_try_def
        try_once_def settle_sent_def link_network_def live_link_def live_codec_def status_is_success_def
        parse_embeddings_envelope_def live_vector)
  moreover have "ensure_within_budget calendar ''openai-compatible'' 1 0 (em_prices (ic_controls sample_indexing_config))
      (em_limits (ic_controls sample_indexing_config)) w = (Inr (), w)"
    using assms(1,2) by (simp add: ensure_within_budget_def estimate_cost_micro_usd_def sample_indexing_config_def
        window_totals_def exec_bind_def get_now_def sql_works totals_query_def usage_since_def select_where_def
        tokens_of_def cost_of_def exec_guard_apply sat_add_def sat_mul_def word_div_ceil_def Let_def)
  moreover have "embedding_input_tokens [input] = 1"
    using assms(3) by (simp add: embedding_input_tokens_def sat_add_def word_div_ceil_def)
  moreover have "no_faults (record_embedding_usage ident prices outcome v)" if "no_faults v" for ident prices outcome v
    using that record_usage_frame(1) [unfolded stays_calm_def]
    by (simp add: record_embedding_usage_def split: call_result.split option.split)
  ultimately show ?thesis
    using assms(1) by (simp add: controlled_embeddings_def embeddings_identity_def elapse_def no_faults_def)
qed

abbreviation live_source :: pending_source where
  "live_source \<equiv> \<lparr>ps_run = 2, ps_source = 4, ps_output = 12, ps_document = 31, ps_owner = ''o'', ps_tenant = ''t'',
     ps_title = ''x'', ps_lead = ''y'', ps_body = ''z'', ps_has_projection = True\<rparr>"

lemma live_plan:
  "plan_of ident scope_unrestricted (tables live_world) = [4]"
  "reindex_source_of 4 (tables live_world) = Some live_source"
  by (simp_all add: plan_of_def reindex_source_of_def live_world_def sample_pending_db_def empty_db_def
      scope_unrestricted_def admits_def admits_source_def select_where_def exists_where_def)

lemma live_store:
  assumes "no_faults w" and "tables w = (tables live_world)\<lparr>provider_usage_rows := rows\<rparr>"
    and "ew_ordinal x = 0" and "ew_digest x = some_digest" and "ew_vector x = zero_vector"
  shows "\<exists>w'. transact Query (reindex_transaction (identity_of (embeddings_identity live_adapter)) (pending_target live_source) [x]) w =
    (Inr (), w') \<and> no_faults w'"
proof -
  let ?ident = "identity_of (embeddings_identity live_adapter)" and ?target = "pending_target live_source"
  have "chunk_row_ok (chunk_row_of ?ident ?target k x)" for k
    using assms(3-5) live_vector
    by (simp add: chunk_row_ok_def chunk_row_of_def identity_ok_def identity_of_def embeddings_identity_def
        usage_row_ok_def is_lower_def is_digit_def storage_dimensions_def)
  then have "\<exists>t'. put_chunk (chunk_row_of ?ident ?target k x) (tables w) = Inr ((), t')" for k
    by (simp add: put_chunk_def assms(2) live_world_def sample_pending_db_def empty_db_def exists_where_def
        chunk_row_of_def pending_target_def)
  then obtain t' where "put_chunk (chunk_row_of ?ident ?target (fresh w) x) (tables w) = Inr ((), t')" by blast
  then obtain w' where run: "reindex_transaction ?ident ?target [x] w = (Inr (), w')" and calm: "no_faults w'"
    using assms(1) by (simp add: reindex_transaction_def store_embeddings_def exec_bind_def new_uuid_def sql_works
        execute_works exec_return_def)
  have "transact Query (reindex_transaction ?ident ?target [x]) w = (Inr (), w')"
    using assms(1) run calm by (simp add: transact_def)
  then show ?thesis using calm by (intro exI conjI)
qed

lemma live_job: "\<exists>w'. execute_reindex live_indexer scope_unrestricted live_world = (Inr \<lparr>rx_processed = 1, rx_failures = 0, rx_skipped = 0\<rparr>, w')"
proof -
  have calm: "no_faults live_world" by (simp add: live_world_def)
  have no_rows: "provider_usage_rows (tables live_world) = []"
    by (simp add: live_world_def sample_pending_db_def empty_db_def)
  let ?text = "[CHR ''x'', CHR 0x0A, CHR 0x0A, CHR ''z'']"
  obtain w1 where 1: "live_provider [?text] live_world = (Answered \<lparr>er_vectors = [zero_vector], er_tokens = 1\<rparr>, w1)"
    and c1: "no_faults w1" using live_call [OF calm no_rows, of ?text] by auto
  from controlled_adapter.ledger_only [OF 1] obtain rows
    where t1: "tables w1 = (tables live_world)\<lparr>provider_usage_rows := rows\<rparr>" by (auto simp: beside_ledger_def)
  let ?x = "\<lparr>ew_ordinal = 0, ew_text = ?text, ew_digest = some_digest, ew_vector = zero_vector\<rparr>"
  obtain w2 where 2: "transact Query (reindex_transaction (identity_of (embeddings_identity live_adapter))
      (pending_target live_source) [?x]) w1 = (Inr (), w2)"
    using live_store [OF c1 t1, of ?x] by auto
  have "regenerate_source live_indexer (identity_of (embeddings_identity live_adapter)) (pending_target live_source) live_source
      live_world = (Inr (Rebuilt 1), w2)"
    using 1 2 by (simp add: regenerate_source_def live_indexer_eq live_chunks input_groups_def vectors_fit_def writes_of_def
        live_vector storage_dimensions_def exec_bind_def exec_map_err_def exec_return_def)
  then show ?thesis
    using calm by (simp add: execute_reindex_def Let_def live_indexer_eq plan_reindex_def load_reindex_source_def query_works live_plan
        exec_bind_def exec_map_err_def exec_return_def no_reindex_def)
qed

theorem reindex_converges_witness:
  "\<exists>w'. execute_reindex live_indexer scope_unrestricted live_world =
       (Inr \<lparr>rx_processed = 1, rx_failures = 0, rx_skipped = 0\<rparr>, w') \<and>
     plan_of (identity_of (ix_identity live_indexer)) scope_unrestricted (tables live_world) = [4] \<and>
     plan_of (identity_of (ix_identity live_indexer)) scope_unrestricted (tables w') = []"
proof -
  obtain w' where run: "execute_reindex live_indexer scope_unrestricted live_world =
      (Inr \<lparr>rx_processed = 1, rx_failures = 0, rx_skipped = 0\<rparr>, w')" using live_job by blast
  from reindex_converges [OF live_indexer_built run, of w'] run live_plan show ?thesis by simp
qed

end
