(* ===== verification/Notes_Inbox.thy ===== *)
theory Notes_Inbox
  imports Inbox_Correct Pipeline
begin

text \<open>
  The inbox of note file changes (\<open>notes_inbox.rs\<close>): the guard that orders the changes of a file, the
  record of removed connections, and the removal of what was derived from a file. An advisory lock
  is a statement that may fail; transactions of the model do not overlap.
\<close>

section \<open>Changes and guards\<close>

datatype note_admission = NoteCurrent | NoteStale

record note_change =
  nc_tenant :: string
  nc_connection :: uuid
  nc_file :: uuid
  nc_sequence :: "64 word"

definition note_scope :: "string \<Rightarrow> uuid \<Rightarrow> deletion_scope" where
  "note_scope tn file = ScopeSource tn notes_owner (uuid_text file)"

datatype note_lock = LockShared | LockExclusive

definition lock_connection :: "string \<Rightarrow> uuid \<Rightarrow> note_lock \<Rightarrow> (world, source_inbox_error, unit) exec" where
  "lock_connection tn connection lock = query inbox_query (\<lambda>_. ())"

definition lock_change :: "note_change \<Rightarrow> (world, source_inbox_error, unit) exec" where
  "lock_change c = lock_connection (nc_tenant c) (nc_connection c) LockShared"

definition removed_connection :: "string \<Rightarrow> uuid \<Rightarrow> db \<Rightarrow> bool" where
  "removed_connection tn connection t =
     exists_where (\<lambda>r. nd_tenant r = tn \<and> nd_connection r = connection) (notes_disconnections t)"

definition connection_removed :: "note_change \<Rightarrow> (world, source_inbox_error, bool) exec" where
  "connection_removed c = query inbox_query (removed_connection (nc_tenant c) (nc_connection c))"

text \<open>\<open>remove_file\<close>: a file with no source revision writes no deletion record.\<close>

definition note_sources :: "string \<Rightarrow> uuid \<Rightarrow> db \<Rightarrow> source_ref_row list" where
  "note_sources tn file t = select_where (source_in_scope (note_scope tn file)) (source_refs t)"

definition remove_file :: "string \<Rightarrow> uuid \<Rightarrow> (world, source_inbox_error, unit) exec" where
  "remove_file tn file =
     exec_bind (query inbox_query (\<lambda>t. note_sources tn file t \<noteq> [])) (\<lambda>derived.
     if \<not> derived then exec_return () else delete_derived (note_scope tn file))"

section \<open>Claiming a change\<close>

definition note_key :: "notes_file_row \<Rightarrow> string \<times> uuid" where
  "note_key r = (nf_tenant r, nf_file r)"

definition put_note :: "notes_file_row \<Rightarrow> db \<Rightarrow> db" where
  "put_note r t = t\<lparr>notes_files := upsert (\<lambda>x. note_key x = note_key r) (\<lambda>x. nf_sequence r > nf_sequence x)
     (\<lambda>x. x\<lparr>nf_connection := nf_connection r, nf_sequence := nf_sequence r, nf_deleted := nf_deleted r\<rparr>) r
     (notes_files t)\<rparr>"

definition note_at :: "string \<times> uuid \<Rightarrow> db \<Rightarrow> notes_file_row option" where
  "note_at k t = find_where (\<lambda>x. note_key x = k) (notes_files t)"

definition note_row :: "note_change \<Rightarrow> nat \<Rightarrow> bool \<Rightarrow> notes_file_row" where
  "note_row c n deleted =
     \<lparr>nf_tenant = nc_tenant c, nf_file = nc_file c, nf_connection = nc_connection c, nf_sequence = n, nf_deleted = deleted\<rparr>"

text \<open>The check constraint \<open>notes_files_sequence_check\<close>: a sequence is at least 1.\<close>

definition write_note :: "notes_file_row \<Rightarrow> (world, source_inbox_error, unit) exec" where
  "write_note r = sql inbox_query (\<lambda>t. if nf_sequence r \<ge> 1 then Inr ((), put_note r t) else Inl inbox_query)"

definition applied_note :: "string \<times> uuid \<Rightarrow> (world, source_inbox_error, nat \<times> bool) exec" where
  "applied_note k = sql inbox_query (\<lambda>t. case note_at k t of
     None \<Rightarrow> Inl inbox_query | Some r \<Rightarrow> Inr ((nf_sequence r, nf_deleted r), t))"

definition apply_note :: "note_change \<Rightarrow> bool \<Rightarrow> nat \<Rightarrow> (world, source_inbox_error, note_admission) exec" where
  "apply_note c deleted n =
     exec_bind (write_note (note_row c n deleted)) (\<lambda>_.
     exec_bind (applied_note (nc_tenant c, nc_file c)) (\<lambda>applied.
     exec_return (if applied = (n, deleted) then NoteCurrent else NoteStale)))"

definition claim_note :: "note_change \<Rightarrow> bool \<Rightarrow> (world, source_inbox_error, note_admission) exec" where
  "claim_note c deleted =
     exec_bind (lock_change c) (\<lambda>_.
     exec_bind (connection_removed c) (\<lambda>removed.
     if removed then exec_bind (remove_file (nc_tenant c) (nc_file c)) (\<lambda>_. exec_return NoteStale)
     else exec_bind (exec_map_err InboxPersistence (exec_result (i64_of (nc_sequence c)))) (apply_note c deleted)))"

section \<open>The operations\<close>

definition accept_change :: "note_change \<Rightarrow> (world, source_inbox_error, note_admission) exec" where
  "accept_change c = transact inbox_query (claim_note c False)"

definition accept_deletion :: "note_change \<Rightarrow> (world, source_inbox_error, note_admission) exec" where
  "accept_deletion c = transact inbox_query
     (exec_bind (claim_note c True) (\<lambda>admission.
      exec_bind (if admission = NoteCurrent then remove_file (nc_tenant c) (nc_file c) else exec_return ()) (\<lambda>_.
      exec_return admission)))"

definition note_disconnection :: "string \<Rightarrow> uuid \<Rightarrow> db \<Rightarrow> db" where
  "note_disconnection tn connection t = t\<lparr>notes_disconnections :=
     insert_nothing (\<lambda>r. nd_tenant r = tn \<and> nd_connection r = connection)
       \<lparr>nd_tenant = tn, nd_connection = connection\<rparr> (notes_disconnections t)\<rparr>"

definition of_connection :: "string \<Rightarrow> uuid \<Rightarrow> notes_file_row \<Rightarrow> bool" where
  "of_connection tn connection r = (nf_tenant r = tn \<and> nf_connection r = connection)"

definition delete_guards :: "string \<Rightarrow> uuid \<Rightarrow> (world, source_inbox_error, uuid list) exec" where
  "delete_guards tn connection = sql inbox_query (\<lambda>t. Inr
     (map nf_file (select_where (of_connection tn connection) (notes_files t)),
      t\<lparr>notes_files := delete_where (of_connection tn connection) (notes_files t)\<rparr>))"

definition accept_disconnection :: "string \<Rightarrow> uuid \<Rightarrow> (world, source_inbox_error, unit) exec" where
  "accept_disconnection tn connection = transact inbox_query
     (exec_bind (lock_connection tn connection LockExclusive) (\<lambda>_.
      exec_bind (execute inbox_query (note_disconnection tn connection)) (\<lambda>_.
      exec_bind (delete_guards tn connection) (exec_each (remove_file tn)))))"

definition remove_derived :: "note_change \<Rightarrow> (world, source_inbox_error, unit) exec" where
  "remove_derived c = transact inbox_query
     (exec_bind (lock_change c) (\<lambda>_. remove_file (nc_tenant c) (nc_file c)))"

definition settle_after_analysis :: "note_change \<Rightarrow> (world, source_inbox_error, note_admission) exec" where
  "settle_after_analysis c = transact inbox_query
     (exec_bind (lock_change c) (\<lambda>_.
      exec_bind (connection_removed c) (\<lambda>removed.
      if removed then exec_bind (remove_file (nc_tenant c) (nc_file c)) (\<lambda>_. exec_return NoteStale)
      else exec_return NoteCurrent)))"

section \<open>The guard is latest-wins\<close>

definition notes_unique :: "db \<Rightarrow> bool" where
  "notes_unique t = key_unique note_key (notes_files t)"

lemma note_update_key: "note_key (x\<lparr>nf_connection := a, nf_sequence := b, nf_deleted := d\<rparr>) = note_key x"
  by (simp add: note_key_def)

lemma note_update_same:
  "note_key x = note_key r \<Longrightarrow>
     x\<lparr>nf_connection := nf_connection r, nf_sequence := nf_sequence r, nf_deleted := nf_deleted r\<rparr> = r"
  for x r :: notes_file_row
  by (cases x; cases r) (simp add: note_key_def)

interpretation note_guard: latest_wins put_note note_at note_key "\<lambda>r. r" nf_sequence
  "\<lambda>old new. nf_sequence new > nf_sequence old" notes_unique
proof
  fix t :: db and r k assume "notes_unique t"
  then show "notes_unique (put_note r t)"
    unfolding notes_unique_def put_note_def by (simp add: key_unique_upsert note_update_key)
  have eq: "notes_files (put_note r t) = upsert (\<lambda>x. note_key x = note_key r) (\<lambda>x. nf_sequence r > nf_sequence x)
      (\<lambda>x. x\<lparr>nf_connection := nf_connection r, nf_sequence := nf_sequence r, nf_deleted := nf_deleted r\<rparr>) r (notes_files t)"
    by (simp add: put_note_def)
  show "note_at k (put_note r t) = (if k = note_key r \<and>
      (case note_at k t of None \<Rightarrow> True | Some c \<Rightarrow> nf_sequence r > nf_sequence c) then Some r else note_at k t)"
    unfolding note_at_def eq
    by (subst find_upsert) (auto simp: note_update_key note_update_same split: option.splits dest: find_where_SomeD)
qed auto

end
