(* ===== verification/Fresh_Ids.thy ===== *)
theory Fresh_Ids
  imports Deletion_Correct Pipeline
begin

text \<open>
  Identifiers come from a counter that only grows. The rules reduce a handler to its statements; a
  transaction keeps what was drawn inside it, whether it commits or not.
\<close>

definition fresh_grows :: "(world, 'e, 'a) exec \<Rightarrow> bool" where
  "fresh_grows m = (\<forall>w. fresh w \<le> fresh (snd (m w)))"

named_theorems fresh_rules \<open>handlers that only draw identifiers\<close>

lemma fresh_growsD: "fresh_grows m \<Longrightarrow> m w = (r, w') \<Longrightarrow> fresh w \<le> fresh w'"
  unfolding fresh_grows_def by (metis snd_conv)

lemma fresh_grows_sql [fresh_rules]: "fresh_grows (sql e f)"
  by (auto simp: fresh_grows_def sql_def split: sum.splits prod.splits)

lemma fresh_grows_statement [fresh_rules]:
  "fresh_grows (query e f)" "fresh_grows (execute e g)" "fresh_grows (affect e n g)"
  "fresh_grows (delete_rows e get upd cascade p)"
  unfolding query_def execute_def affect_def delete_rows_def by (rule fresh_grows_sql)+

lemma fresh_grows_basic [fresh_rules]:
  "fresh_grows new_uuid" "fresh_grows get_now" "fresh_grows (exec_return x)" "fresh_grows (exec_fail e)"
  "fresh_grows (exec_result r)" "fresh_grows (exec_guard b e)"
  by (auto simp: fresh_grows_def new_uuid_def get_now_def exec_return_def exec_fail_def exec_result_def exec_guard_def)

lemma fresh_grows_bind [fresh_rules]:
  assumes "fresh_grows m" and "\<And>x. fresh_grows (f x)"
  shows "fresh_grows (exec_bind m f)"
  unfolding fresh_grows_def
proof
  fix w
  obtain r w1 where m: "m w = (r, w1)" by fastforce
  show "fresh w \<le> fresh (snd (exec_bind m f w))"
    using fresh_growsD [OF assms(1) m] assms(2) m
    by (cases r) (auto simp: exec_bind_def fresh_grows_def intro: order_trans)
qed

lemma fresh_grows_if [fresh_rules]: "fresh_grows m \<Longrightarrow> fresh_grows n \<Longrightarrow> fresh_grows (if b then m else n)"
  by simp

lemma fresh_grows_option [fresh_rules]:
  "fresh_grows m \<Longrightarrow> (\<And>x. fresh_grows (f x)) \<Longrightarrow> fresh_grows (case v of None \<Rightarrow> m | Some x \<Rightarrow> f x)"
  by (cases v) auto

lemma fresh_grows_map_err [fresh_rules]: "fresh_grows m \<Longrightarrow> fresh_grows (exec_map_err h m)"
  unfolding fresh_grows_def exec_map_err_def by (auto split: prod.splits sum.splits) (metis snd_conv)+

lemma fresh_grows_each [fresh_rules]: "(\<And>x. fresh_grows (f x)) \<Longrightarrow> fresh_grows (exec_each f xs)"
  by (induction xs) (auto intro: fresh_rules)

lemma transact_world:
  assumes "transact e m w = (r, w')"
  shows "(\<exists>e'. r = Inl e' \<and> tables w' = tables w \<and> (fresh w' = fresh w \<or> fresh w' = fresh (snd (m (tick w))))) \<or>
    (\<exists>x w1. m (tick w) = (Inr x, w1) \<and> tables w' = tables w1 \<and> fresh w' = fresh w1 \<and> (r = Inr x \<or> r = Inl e))"
  using assms by (auto simp: transact_def split: if_splits sum.splits prod.splits)

lemma transact_cases:
  assumes "transact e m w = (r, w')"
  obtains e' where "r = Inl e'" and "tables w' = tables w"
  | x w1 where "m (tick w) = (Inr x, w1)" and "tables w' = tables w1" and "fresh w' = fresh w1" and "r = Inr x \<or> r = Inl e"
  using transact_world [OF assms] by blast

lemma fresh_grows_transact [fresh_rules]:
  assumes "fresh_grows m"
  shows "fresh_grows (transact e m)"
  unfolding fresh_grows_def
proof
  fix w
  obtain r w' where run: "transact e m w = (r, w')" by fastforce
  have "fresh w \<le> fresh (snd (m (tick w)))" using assms unfolding fresh_grows_def by (metis tick_simps(4))
  then show "fresh w \<le> fresh (snd (transact e m w))" using transact_world [OF run] run by auto
qed

section \<open>Deletions\<close>

lemma fresh_grows_deletion [fresh_rules]: "fresh_grows (run_child_first_deletion scope)"
proof -
  have "fresh_grows (enqueue_digests d f)" for d f
    unfolding enqueue_digests_def by (intro fresh_rules)
  note enqueue = this
  have "fresh_grows (queue_scope_blobs ids d)" for ids d
    unfolding queue_scope_blobs_def by (intro fresh_rules enqueue)
  moreover have "fresh_grows (delete_user_content scope ids)" for ids
    unfolding delete_user_content_def delete_collection_items_def delete_collections_def delete_tags_def
    by (cases scope) (simp_all, (intro fresh_rules)+)
  moreover have "fresh_grows (delete_inbox_state scope)"
    unfolding delete_inbox_state_def delete_tenant_state_def delete_source_state_def delete_archive_state_def
    by (cases scope) (simp_all, (intro fresh_rules)+)
  moreover have "fresh_grows (delete_recap_state scope d)" for d
    unfolding delete_recap_state_def delete_recap_rows_def
    by (cases scope) (simp_all, (intro fresh_rules enqueue)+)
  moreover have "fresh_grows (insert_audit_row d scope counts)" for d counts
    unfolding insert_audit_row_def by (intro fresh_rules)
  ultimately show ?thesis
    unfolding run_child_first_deletion_def scope_source_ids_def delete_by_scope_def delete_analysis_rows_def Let_def
    by (intro fresh_rules)
qed

section \<open>Runs and sources\<close>

text \<open>Identifiers are in use below the counter only, once each.\<close>

definition ids_ok :: "world \<Rightarrow> bool" where
  "ids_ok w = (key_unique ar_id (analysis_runs (tables w)) \<and> key_unique sr_id (source_refs (tables w)) \<and>
     (\<forall>r \<in> set (analysis_runs (tables w)). ar_id r < fresh w) \<and> (\<forall>s \<in> set (source_refs (tables w)). sr_id s < fresh w))"

definition run_sources :: "db \<Rightarrow> (uuid \<times> uuid) set" where
  "run_sources t = (\<lambda>r. (ar_id r, ar_source r)) ` set (analysis_runs t)"

text \<open>A later world: no run or source with an identifier in use before is new or another one.\<close>

definition later :: "world \<Rightarrow> world \<Rightarrow> bool" where
  "later w w' = (fresh w \<le> fresh w' \<and>
     (\<forall>p \<in> run_sources (tables w'). fst p < fresh w \<longrightarrow> p \<in> run_sources (tables w)) \<and>
     (\<forall>s \<in> set (source_refs (tables w')). sr_id s < fresh w \<longrightarrow> s \<in> set (source_refs (tables w))))"

lemma later_refl: "later w w"
  by (simp add: later_def)

lemma later_trans: "later w w' \<Longrightarrow> later w' w'' \<Longrightarrow> later w w''"
  unfolding later_def by (meson order_less_le_trans order_trans)

end
