(* ===== verification/Drive_Frame.thy ===== *)
theory Drive_Frame
  imports Fresh_Ids
begin

text \<open>
  What a drive leaves alone. A part of the tables that neither the states of runs nor the attempts belong
  to changes only where the provider runs, in whose place anything may happen that a relation on
  worlds admits, and in the persistence of the accepted answer, which is the last thing a drive does:
  a drive that fails for good has persisted nothing.
\<close>

section \<open>Handlers that leave a part of the tables alone\<close>

definition leaves_alone :: "(db \<Rightarrow> 'v) \<Rightarrow> (world, 'e, 'a) exec \<Rightarrow> bool" where
  "leaves_alone view m = (\<forall>w. view (tables (snd (m w))) = view (tables w) \<and> fresh w \<le> fresh (snd (m w)))"

named_theorems still_rules \<open>handlers that leave a part of the tables alone\<close>

lemma stillI: "(\<And>w r w'. m w = (r, w') \<Longrightarrow> view (tables w') = view (tables w) \<and> fresh w \<le> fresh w') \<Longrightarrow> leaves_alone view m"
  unfolding leaves_alone_def by (metis prod.collapse)

lemma stillD: "leaves_alone view m \<Longrightarrow> m w = (r, w') \<Longrightarrow> view (tables w') = view (tables w) \<and> fresh w \<le> fresh w'"
  unfolding leaves_alone_def by (metis snd_conv)

lemma still_sql:
  assumes "\<And>t x t'. f t = Inr (x, t') \<Longrightarrow> view t' = view t"
  shows "leaves_alone view (sql e f)"
proof (rule stillI)
  fix w r w' assume run: "sql e f w = (r, w')"
  have "view (tables w') = view (tables w)" using sql_result [OF run] assms by auto
  then show "view (tables w') = view (tables w) \<and> fresh w \<le> fresh w'"
    using fresh_growsD [OF fresh_grows_sql run] by simp
qed

lemma still_query [still_rules]: "leaves_alone view (query e f)"
  unfolding query_def by (rule still_sql) auto

lemma still_execute: "(\<And>t. view (f t) = view t) \<Longrightarrow> leaves_alone view (execute e f)"
  unfolding execute_def by (rule still_sql) auto

lemma still_affect: "(\<And>t. view (f t) = view t) \<Longrightarrow> leaves_alone view (affect e n f)"
  unfolding affect_def by (rule still_sql) auto

lemma still_basic [still_rules]:
  "leaves_alone view new_uuid" "leaves_alone view get_now" "leaves_alone view (exec_return x)" "leaves_alone view (exec_fail e)"
  "leaves_alone view (exec_result r)" "leaves_alone view (exec_guard b e)"
  "leaves_alone view (file_read g)" "leaves_alone view (file_write digest c)"
  by (auto simp: leaves_alone_def new_uuid_def get_now_def exec_return_def exec_fail_def exec_result_def exec_guard_def
      file_read_def file_write_def)

lemma still_bind [still_rules]:
  assumes "leaves_alone view m" and "\<And>x. leaves_alone view (f x)"
  shows "leaves_alone view (exec_bind m f)"
  unfolding leaves_alone_def
proof
  fix w
  obtain r w1 where m: "m w = (r, w1)" by fastforce
  show "view (tables (snd (exec_bind m f w))) = view (tables w) \<and> fresh w \<le> fresh (snd (exec_bind m f w))"
  proof (cases r)
    case (Inl e)
    then show ?thesis using stillD [OF assms(1) m] m by (simp add: exec_bind_def)
  next
    case (Inr x)
    obtain r2 w2 where f: "f x w1 = (r2, w2)" by fastforce
    then show ?thesis using stillD [OF assms(1) m] stillD [OF assms(2) f] m Inr by (simp add: exec_bind_def)
  qed
qed

lemma still_if [still_rules]: "leaves_alone view m \<Longrightarrow> leaves_alone view n \<Longrightarrow> leaves_alone view (if b then m else n)"
  by simp

lemma still_option [still_rules]:
  "leaves_alone view m \<Longrightarrow> (\<And>x. leaves_alone view (f x)) \<Longrightarrow> leaves_alone view (case v of None \<Rightarrow> m | Some x \<Rightarrow> f x)"
  by (cases v) auto

lemma still_map_err [still_rules]: "leaves_alone view m \<Longrightarrow> leaves_alone view (exec_map_err h m)"
  unfolding leaves_alone_def exec_map_err_def by (auto split: prod.splits sum.splits) (metis snd_conv)+

lemma still_catch [still_rules]:
  assumes "leaves_alone view m" and "\<And>e. leaves_alone view (h e)"
  shows "leaves_alone view (exec_catch m h)"
  unfolding leaves_alone_def
proof
  fix w
  obtain r w1 where m: "m w = (r, w1)" by fastforce
  show "view (tables (snd (exec_catch m h w))) = view (tables w) \<and> fresh w \<le> fresh (snd (exec_catch m h w))"
  proof (cases r)
    case (Inr x)
    then show ?thesis using stillD [OF assms(1) m] m by (simp add: exec_catch_def)
  next
    case (Inl e)
    obtain r2 w2 where f: "h e w1 = (r2, w2)" by fastforce
    then show ?thesis using stillD [OF assms(1) m] stillD [OF assms(2) f] m Inl by (simp add: exec_catch_def)
  qed
qed

lemma still_each [still_rules]: "(\<And>x. leaves_alone view (f x)) \<Longrightarrow> leaves_alone view (exec_each f xs)"
  by (induction xs) (auto intro: still_rules)

lemma still_transact [still_rules]:
  assumes "leaves_alone view m"
  shows "leaves_alone view (transact e m)"
proof (rule stillI)
  fix w r w' assume run: "transact e m w = (r, w')"
  obtain r1 w1 where m: "m (tick w) = (r1, w1)" by fastforce
  show "view (tables w') = view (tables w) \<and> fresh w \<le> fresh w'"
    using transact_world [OF run] stillD [OF assms m] m by auto
qed

lemma still_blobs [still_rules]:
  "leaves_alone view (store_raw store c)" "leaves_alone view (blob_read store ref)" "leaves_alone view (lock_and_verify store ref held_bytes)"
  unfolding store_raw_def blob_read_def lock_and_verify_def blob_exists_def blob_path_exists_def
  by (intro still_rules)+

section \<open>Drives\<close>

locale drive_frame =
  fixes R :: "world \<Rightarrow> world \<Rightarrow> bool" and view :: "db \<Rightarrow> 'v"
  assumes R_refl: "R w w"
    and R_trans: "R w w' \<Longrightarrow> R w' w'' \<Longrightarrow> R w w''"
    and R_still: "view (tables w') = view (tables w) \<Longrightarrow> fresh w \<le> fresh w' \<Longrightarrow> R w w'"
    and view_state: "view (set_run_state p s t) = view t"
    and view_attempts: "view (t\<lparr>analysis_attempts := as\<rparr>) = view t"
begin

definition steps :: "(world, 'e, 'a) exec \<Rightarrow> bool" where
  "steps m = (\<forall>w. R w (snd (m w)))"

lemma stepsD: "steps m \<Longrightarrow> m w = (r, w') \<Longrightarrow> R w w'"
  unfolding steps_def by (metis snd_conv)

lemma still_steps: "leaves_alone view m \<Longrightarrow> steps m"
  by (simp add: steps_def leaves_alone_def R_still)

lemma steps_bind:
  assumes "steps m" and "\<And>x. steps (f x)"
  shows "steps (exec_bind m f)"
  unfolding steps_def
proof
  fix w
  obtain r w1 where m: "m w = (r, w1)" by fastforce
  show "R w (snd (exec_bind m f w))"
  proof (cases r)
    case (Inl e)
    then show ?thesis using stepsD [OF assms(1) m] m by (simp add: exec_bind_def)
  next
    case (Inr x)
    obtain r2 w2 where f: "f x w1 = (r2, w2)" by fastforce
    then show ?thesis using R_trans [OF stepsD [OF assms(1) m] stepsD [OF assms(2) f]] m Inr by (simp add: exec_bind_def)
  qed
qed

lemma still_state: "leaves_alone view (transition_run run a b)" "leaves_alone view (reopen_failed_run run)"
  unfolding transition_run_def reopen_failed_run_def by (intro still_rules still_affect view_state)+

lemma still_attempts: "leaves_alone view (execute e (update_attempts p f))" "leaves_alone view (affect e n (update_attempts p f))"
  "leaves_alone view (execute e (insert_attempt a))"
  by (intro still_execute still_affect; simp add: update_attempts_def insert_attempt_def view_attempts)+

lemma still_one_attempt: "leaves_alone view (update_one_attempt run n f)"
  unfolding update_one_attempt_def by (intro still_rules still_attempts)

lemmas attempt_rules = still_rules still_state still_attempts still_one_attempt

lemma still_failure: "leaves_alone view (update_attempt_failure run n o' c s d)"
  unfolding update_attempt_failure_def by (intro attempt_rules)

lemma still_update: "leaves_alone view (update_attempt store run n u)"
  unfolding update_attempt_def by (intro attempt_rules)

lemma still_outcome: "leaves_alone view (set_attempt_outcome run n o' c)"
  unfolding set_attempt_outcome_def by (intro attempt_rules)

lemma still_record: "leaves_alone view (record_attempt run input)"
  unfolding record_attempt_def record_attempt_body_def insert_next_attempt_def by (intro attempt_rules)

lemma still_transition: "leaves_alone view (transition run a b)"
  unfolding transition_def durably_def by (intro attempt_rules)

lemma still_snapshot: "leaves_alone view (snapshot run)"
  unfolding snapshot_def durably_def by (intro attempt_rules)

lemma still_accepted: "leaves_alone view (accepted_output run)"
  unfolding accepted_output_def durably_def by (intro attempt_rules)

lemmas run_rules = attempt_rules still_failure still_update still_outcome still_record still_transition still_snapshot
  still_accepted

lemma still_pieces:
  "leaves_alone view (fail_requested run)" "leaves_alone view (begin_repair run)" "leaves_alone view (enter_model_requested run s)"
  "leaves_alone view (mark_requested_attempts_interrupted run)"
  unfolding fail_requested_def begin_repair_def enter_model_requested_def mark_requested_attempts_interrupted_def
  by (intro run_rules)+

lemma still_reopen: "leaves_alone view (reopen run s)"
  unfolding reopen_def durably_def by (intro run_rules) (auto split: attempt_outcome.split intro!: run_rules)

lemma still_in_flight: "leaves_alone view (settle_in_flight run s request)"
  unfolding settle_in_flight_def durably_def
  by (intro run_rules) (auto split: attempt_outcome.split intro!: run_rules still_pieces)

lemma still_settle_state: "leaves_alone view (settle_state run s)"
  unfolding settle_state_def by (intro run_rules still_reopen)

lemma still_start: "leaves_alone view (start_attempt dv run reason)"
  unfolding start_attempt_def by (intro run_rules still_pieces)

lemma still_settle_call: "leaves_alone view (settle_call call reply)"
proof (cases reply)
  case (Responded response)
  then show ?thesis by (simp add: settle_call_def still_rules)
next
  case TimedOut
  show ?thesis unfolding TimedOut settle_call_def Let_def provider_reply.case prod.case durably_def
    by (intro run_rules still_failure still_pieces)
next
  case (FailedCall f)
  show ?thesis unfolding FailedCall settle_call_def Let_def provider_reply.case prod.case durably_def
    by (intro run_rules still_failure still_pieces)
qed

lemma still_store_response: "leaves_alone view (store_response dv call response)"
  unfolding store_response_def durably_def by (intro run_rules still_failure still_pieces)

lemma still_record_response: "leaves_alone view (record_response dv call raw response o' code)"
  unfolding record_response_def durably_def by (intro run_rules)

lemma still_recover: "leaves_alone view (recover_stored dv validate run s request)"
proof (cases "sn_newest s")
  case None
  then show ?thesis by (simp add: recover_stored_def still_rules)
next
  case (Some newest)
  show ?thesis
  proof (cases "at_raw newest")
    case None
    then show ?thesis using Some by (simp add: recover_stored_def still_rules)
  next
    case (Some raw)
    let ?rest = "\<lambda>c. let validated = (sn_state s = SchemaValidated) in
       case validate c of
         Inr v \<Rightarrow> exec_bind (if validated then exec_return ()
             else exec_bind (durably (set_attempt_outcome run (at_ordinal newest) AttemptAccepted None))
               (\<lambda>_. transition run ResponseReceived SchemaValidated)) (\<lambda>_. exec_return (StoredAccepted v raw))
       | Inl code \<Rightarrow>
           if validated then exec_bind (transition run SchemaValidated Failed) (\<lambda>_. exec_fail DriveInvalid)
           else exec_bind (durably (set_attempt_outcome run (at_ordinal newest) AttemptInvalid (Some code))) (\<lambda>_.
             if at_reason newest = ReasonRepair
             then exec_bind (transition run ResponseReceived Failed) (\<lambda>_. exec_fail DriveInvalid)
             else exec_bind (begin_repair run) (\<lambda>_. exec_return (StoredRepair (push_repair request code))))"
    have rest: "leaves_alone view (?rest c)" for c
      by (cases "validate c") (simp_all add: Let_def durably_def, (intro run_rules still_pieces conjI impI)+)
    have "recover_stored dv validate run s request = exec_bind (exec_map_err DriveBlob (blob_read (dv_store dv) raw)) ?rest"
      using \<open>sn_newest s = Some newest\<close> Some by (simp add: recover_stored_def)
    then show ?thesis using rest by (simp add: still_bind still_map_err still_blobs)
  qed
qed

end

locale drive_persists = drive_frame R view
  for R :: "world \<Rightarrow> world \<Rightarrow> bool" and view :: "db \<Rightarrow> 'v" +
  fixes W :: "world \<Rightarrow> world \<Rightarrow> bool" and dv :: driver and validate :: validator and persist :: persister
    and good :: "json \<Rightarrow> bool"
  assumes R_W: "R w w' \<Longrightarrow> W w w'"
    and R_W_trans: "R w w1 \<Longrightarrow> W w1 w' \<Longrightarrow> W w w'"
    and W_R_trans: "W w w1 \<Longrightarrow> R w1 w' \<Longrightarrow> W w w'"
    and persist_W: "persist v raw w = (r, w') \<Longrightarrow> W w w'"
    and persist_R: "persist v raw w = (Inl e, w') \<Longrightarrow> pipeline_error_is_permanent e \<Longrightarrow> R w w'"
    and provider_R: "R w (snd (dv_generate dv request w))"
    and validate_good: "validate c = Inr v \<Longrightarrow> good v"
begin

definition writes :: "(world, drive_failure, 'a) exec \<Rightarrow> bool" where
  "writes m = (\<forall>w r w'. m w = (r, w') \<longrightarrow>
     W w w' \<and> (\<forall>e. r = Inl e \<and> pipeline_error_is_permanent e \<longrightarrow> R w w'))"

lemma writesI:
  "(\<And>w r w'. m w = (r, w') \<Longrightarrow> W w w') \<Longrightarrow>
   (\<And>w e w'. m w = (Inl e, w') \<Longrightarrow> pipeline_error_is_permanent e \<Longrightarrow> R w w') \<Longrightarrow> writes m"
  unfolding writes_def by blast

lemma writesD: "writes m \<Longrightarrow> m w = (r, w') \<Longrightarrow> W w w'"
  "writes m \<Longrightarrow> m w = (Inl e, w') \<Longrightarrow> pipeline_error_is_permanent e \<Longrightarrow> R w w'"
  unfolding writes_def by blast+

lemma steps_writes: "steps m \<Longrightarrow> writes m"
  by (rule writesI) (auto dest: stepsD R_W)

lemma writes_after:
  assumes "steps m" and "\<And>x. writes (f x)"
  shows "writes (exec_bind m f)"
proof (rule writesI)
  fix w r w' assume run: "exec_bind m f w = (r, w')"
  obtain r1 w1 where m: "m w = (r1, w1)" by fastforce
  show "W w w'"
  proof (cases r1)
    case (Inl e)
    then show ?thesis using run m stepsD [OF assms(1) m] R_W by (simp add: exec_bind_def)
  next
    case (Inr x)
    then have "f x w1 = (r, w')" using run m by (simp add: exec_bind_def)
    then show ?thesis using R_W_trans [OF stepsD [OF assms(1) m] writesD(1) [OF assms(2)]] by blast
  qed
next
  fix w e w' assume "exec_bind m f w = (Inl e, w')" and e: "pipeline_error_is_permanent e"
  then show "R w w'"
  proof (elim exec_bind_InlE)
    assume "m w = (Inl e, w')"
    then show ?thesis by (rule stepsD [OF assms(1)])
  next
    fix x w1 assume m: "m w = (Inr x, w1)" and f: "f x w1 = (Inl e, w')"
    show ?thesis using R_trans [OF stepsD [OF assms(1) m] writesD(2) [OF assms(2) f e]] .
  qed
qed

lemma writes_persist: "writes (persist v raw)"
  by (rule writesI) (auto dest: persist_W persist_R)

lemma steps_generate: "steps (generate dv request)"
  using provider_R [of _ request] by (auto simp: steps_def generate_def split: prod.split) (metis snd_conv)

text \<open>A value that does not satisfy \<open>ok\<close> was returned without persisting.\<close>

definition ends :: "('a \<Rightarrow> bool) \<Rightarrow> (world, drive_failure, 'a) exec \<Rightarrow> bool" where
  "ends ok m = (writes m \<and> (\<forall>w x w'. m w = (Inr x, w') \<longrightarrow> R w w' \<or> ok x))"

lemma endsD: "ends ok m \<Longrightarrow> writes m" "ends ok m \<Longrightarrow> m w = (Inr x, w') \<Longrightarrow> R w w' \<or> ok x"
  unfolding ends_def by blast+

lemma steps_ends: "steps m \<Longrightarrow> ends ok m"
  by (auto simp: ends_def steps_writes dest: stepsD)

lemma ends_after:
  assumes "steps m" and "\<And>x. ends ok (f x)"
  shows "ends ok (exec_bind m f)"
  unfolding ends_def
proof (intro conjI allI impI)
  show "writes (exec_bind m f)" using assms endsD(1) by (auto intro: writes_after)
  fix w x w' assume "exec_bind m f w = (Inr x, w')"
  then obtain y w1 where m: "m w = (Inr y, w1)" and f: "f y w1 = (Inr x, w')" by (rule exec_bind_InrE)
  show "R w w' \<or> ok x"
    using endsD(2) [OF assms(2) f] R_trans [OF stepsD [OF assms(1) m]] by blast
qed

lemma ends_if: "ends ok m \<Longrightarrow> ends ok n \<Longrightarrow> ends ok (if b then m else n)"
  by simp

text \<open>What follows a handler: the value decides when it persisted.\<close>

lemma ends_bind:
  assumes m: "ends ok m" and f: "\<And>x. ends ok' (f x)"
    and stop: "\<And>x w r w'. ok x \<Longrightarrow> f x w = (r, w') \<Longrightarrow> w' = w \<and> (\<exists>y. r = Inr y \<and> ok' y)"
  shows "ends ok' (exec_bind m f)"
  unfolding ends_def
proof (intro conjI allI impI)
  have first: "R w w1 \<or> (ok x \<and> w' = w1 \<and> (\<exists>y. r = Inr y \<and> ok' y))"
    if "m w = (Inr x, w1)" "f x w1 = (r, w')" for w x w1 r w'
    using endsD(2) [OF m that(1)] stop [OF _ that(2)] by blast
  show "writes (exec_bind m f)"
  proof (rule writesI)
    fix w r w' assume run: "exec_bind m f w = (r, w')"
    obtain r1 w1 where 1: "m w = (r1, w1)" by fastforce
    note W1 = writesD(1) [OF endsD(1) [OF m] 1]
    show "W w w'"
    proof (cases r1)
      case (Inl e)
      then show ?thesis using run 1 W1 by (simp add: exec_bind_def)
    next
      case (Inr x)
      then have 2: "f x w1 = (r, w')" using run 1 by (simp add: exec_bind_def)
      from first [OF 1 [unfolded Inr] 2] show ?thesis
        using W1 R_W_trans writesD(1) [OF endsD(1) [OF f] 2] by blast
    qed
  next
    fix w e w' assume "exec_bind m f w = (Inl e, w')" and e: "pipeline_error_is_permanent e"
    then show "R w w'"
    proof (elim exec_bind_InlE)
      assume "m w = (Inl e, w')"
      then show ?thesis using writesD(2) [OF endsD(1) [OF m]] e by blast
    next
      fix x w1 assume 1: "m w = (Inr x, w1)" and 2: "f x w1 = (Inl e, w')"
      then have "R w w1" using first by blast
      then show ?thesis using R_trans writesD(2) [OF endsD(1) [OF f] 2 e] by blast
    qed
  qed
next
  fix w x w' assume "exec_bind m f w = (Inr x, w')"
  then obtain y w1 where 1: "m w = (Inr y, w1)" and 2: "f y w1 = (Inr x, w')" by (rule exec_bind_InrE)
  show "R w w' \<or> ok' x"
    using endsD(2) [OF m 1] stop [OF _ 2] endsD(2) [OF f 2] R_trans [of w w1 w'] by blast
qed

lemma ends_persist: "good v \<Longrightarrow> ends good (exec_bind (persist v raw) (\<lambda>_. exec_return v))"
  "good v \<Longrightarrow> ends (\<lambda>x. \<exists>u. x = FlowDone u \<and> good u) (exec_bind (persist v raw) (\<lambda>_. exec_return (FlowDone v)))"
proof -
  have w: "writes (exec_bind (persist v raw) (\<lambda>_. exec_return y))" for y :: 'c
    using writes_persist unfolding writes_def exec_bind_def exec_return_def by (auto split: prod.splits sum.splits)
  show "good v \<Longrightarrow> ends good (exec_bind (persist v raw) (\<lambda>_. exec_return v))"
    using w by (auto simp: ends_def exec_return_Inr elim!: exec_bind_InrE)
  have w2: "writes (exec_bind (persist v raw) (\<lambda>_. exec_return (FlowDone v)))"
    using writes_persist unfolding writes_def exec_bind_def exec_return_def by (auto split: prod.splits sum.splits)
  show "good v \<Longrightarrow> ends (\<lambda>x. \<exists>u. x = FlowDone u \<and> good u) (exec_bind (persist v raw) (\<lambda>_. exec_return (FlowDone v)))"
    using w2 by (auto simp: ends_def exec_return_Inr elim!: exec_bind_InrE)
qed

abbreviation finished :: "flow \<Rightarrow> bool" where
  "finished x \<equiv> \<exists>u. x = FlowDone u \<and> good u"

lemma ends_accept: "ends finished (accept_response dv validate persist call response)"
proof -
  have inner: "ends finished (case validate (resp_bytes response) of
       Inr v \<Rightarrow>
         exec_bind (record_response dv call raw response AttemptAccepted None) (\<lambda>_.
         exec_bind (transition (cl_run call) ResponseReceived SchemaValidated) (\<lambda>_.
         exec_bind (persist v raw) (\<lambda>_. exec_return (FlowDone v))))
     | Inl code \<Rightarrow>
         exec_bind (record_response dv call raw response AttemptInvalid (Some code)) (\<lambda>_.
         if cl_last call \<or> cl_reason call = ReasonRepair
         then exec_bind (transition (cl_run call) ResponseReceived Failed) (\<lambda>_. exec_fail DriveInvalid)
         else exec_bind (begin_repair (cl_run call)) (\<lambda>_. exec_return (FlowRepair code))))" for raw
  proof (cases "validate (resp_bytes response)")
    case (Inl code)
    show ?thesis unfolding Inl sum.case
      by (intro steps_ends still_steps run_rules still_record_response still_pieces)
  next
    case (Inr v)
    show ?thesis unfolding Inr sum.case
      by (intro ends_after ends_persist validate_good [OF Inr] still_steps still_record_response still_transition)
  qed
  show ?thesis
    unfolding accept_response_def
    by (intro ends_after inner still_steps still_store_response still_record_response still_transition)
qed

lemma ends_attempt: "ends finished (attempt dv validate persist run request reason l)"
proof -
  have rest: "ends finished (exec_bind (settle_call call reply) (\<lambda>called. case called of
       CalledRetry \<Rightarrow> exec_return FlowRetry
     | CalledResponse response \<Rightarrow> accept_response dv validate persist call response))" for call reply
  proof (rule ends_after [OF still_steps [OF still_settle_call]])
    fix called
    show "ends finished (case called of CalledRetry \<Rightarrow> exec_return FlowRetry
        | CalledResponse response \<Rightarrow> accept_response dv validate persist call response)"
      by (cases called) (simp_all add: ends_accept steps_ends still_steps still_rules)
  qed
  show ?thesis
    unfolding attempt_def
    by (intro ends_after still_steps [OF still_start] steps_generate)
      (auto simp: Let_def intro!: rest split: prod.split)
qed

lemma ends_calls: "ends good (drive_calls dv validate persist run n request reason)"
proof (induction n arbitrary: request reason)
  case 0
  show ?case by (simp add: steps_ends still_steps still_rules)
next
  case (Suc n)
  have "ends good (case flow of FlowDone v \<Rightarrow> exec_return v
     | FlowRetry \<Rightarrow> drive_calls dv validate persist run n request ReasonRetry
     | FlowRepair code \<Rightarrow> drive_calls dv validate persist run n (push_repair request code) ReasonRepair)" for flow
    by (cases flow) (simp_all add: Suc.IH steps_ends still_steps still_rules)
  then show ?case unfolding drive_calls.simps
    by (rule ends_bind [OF ends_attempt]) (auto simp: exec_return_def)
qed

lemma recovered_good:
  "recover_stored dv validate run s request w = (Inr (StoredAccepted v raw), w') \<Longrightarrow> good v"
  by (auto simp: recover_stored_def Let_def exec_return_Inr exec_fail_def validate_good
      elim!: exec_bind_InrE split: option.splits sum.splits if_splits)

lemma ends_continue: "ends good (continue_run dv validate persist run request s)"
proof -
  let ?rest = "\<lambda>stored. case stored of StoredAccepted v raw \<Rightarrow> exec_bind (persist v raw) (\<lambda>_. exec_return v)
      | StoredRepair request \<Rightarrow> drive_calls dv validate persist run calls_per_drive request ReasonRepair"
  let ?recover = "recover_stored dv validate run s request"
  have stored: "ends good (?rest x)" if "?recover w = (Inr x, w')" for x w w'
    using that recovered_good by (cases x) (auto intro: ends_calls ends_persist)
  have recover: "ends good (exec_bind ?recover ?rest)"
  proof -
    have eq: "exec_bind ?recover ?rest =
        exec_bind ?recover (\<lambda>x. if \<exists>w w'. ?recover w = (Inr x, w') then ?rest x else exec_fail DriveInvalid)"
      by (rule ext) (auto simp: exec_bind_def split: sum.split prod.split)
    have branch: "ends good (if \<exists>w w'. ?recover w = (Inr x, w') then ?rest x else exec_fail DriveInvalid)" for x
    proof (cases "\<exists>w w'. ?recover w = (Inr x, w')")
      case True
      then obtain w w' where "?recover w = (Inr x, w')" by blast
      then show ?thesis using stored by auto
    next
      case False
      then show ?thesis by (simp add: steps_ends still_steps still_rules)
    qed
    show ?thesis by (subst eq) (intro ends_after still_steps still_recover branch)
  qed
  have calls: "ends good (case p of (reason, request) \<Rightarrow> drive_calls dv validate persist run calls_per_drive request reason)" for p
    by (cases p) (simp add: ends_calls)
  show ?thesis
    unfolding continue_run_def
    by (intro ends_if recover ends_after still_steps calls still_pieces still_in_flight steps_ends still_rules)
qed

lemma ends_locked: "ends good (drive_locked dv validate persist run request)"
  unfolding drive_locked_def
  by (intro ends_after ends_if ends_continue steps_ends still_steps still_snapshot still_accepted still_settle_state)

text \<open>
  A drive moves along \<open>W\<close>; when it fails for good, or returns a value that no validation produced, only
  along \<open>R\<close>.
\<close>

lemma ends_drive: "ends good (drive dv validate persist run request)"
proof -
  have acquire: "leaves_alone view (durably (run_lock_acquire run))" for run
    unfolding durably_def by (intro still_rules) (auto simp: leaves_alone_def run_lock_acquire_def)
  have release: "R w (run_lock_release run w)" for w
    by (rule R_still) (simp_all add: run_lock_release_def)
  have result: "W w w' \<and> (\<forall>e. r = Inl e \<and> pipeline_error_is_permanent e \<longrightarrow> R w w') \<and> (\<forall>v. r = Inr v \<longrightarrow> R w w' \<or> good v)"
    if drive: "drive dv validate persist run request w = (r, w')" for w r w'
  proof -
    obtain a w1 where a: "durably (run_lock_acquire run) w = (a, w1)" by fastforce
    note first = stepsD [OF still_steps [OF acquire] a]
    have "R w w' \<or> (\<exists>w2. drive_locked dv validate persist run request w1 = (r, w2) \<and> w' = run_lock_release run w2)"
      using drive a first by (auto simp: drive_def split: sum.splits prod.splits if_splits)
    then consider "R w w'" | w2 where "drive_locked dv validate persist run request w1 = (r, w2)" "w' = run_lock_release run w2"
      by blast
    then show ?thesis
    proof cases
      case 1
      then show ?thesis by (simp add: R_W)
    next
      case 2
      note locked = endsD(1) [OF ends_locked]
      have "W w w'" using R_W_trans [OF first W_R_trans [OF writesD(1) [OF locked 2(1)] release]] 2(2) by simp
      moreover have "R w w'" if "R w1 w2" using R_trans [OF first R_trans [OF that release]] 2(2) by simp
      ultimately show ?thesis using writesD(2) [OF locked] endsD(2) [OF ends_locked] 2(1) by blast
    qed
  qed
  have "writes (drive dv validate persist run request)"
    by (rule writesI) (use result in blast)+
  then show ?thesis unfolding ends_def using result by blast
qed

end

end
