(* ===== verification/Notes_Correct.thy ===== *)
theory Notes_Correct
  imports Notes_Inbox Drive_Frame
begin

text \<open>
  What the notes inbox keeps: a searchable note has a live guard, and no guard belongs to a removed
  connection. \<open>conn\<close> is the connection of a file; an analysis that a removal of its connection overtook is
  in the set of files still to be settled.
\<close>

section \<open>The invariant\<close>

definition live_note :: "db \<Rightarrow> string \<times> uuid \<Rightarrow> bool" where
  "live_note t k = (\<exists>r \<in> set (notes_files t). note_key r = k \<and> \<not> nf_deleted r)"

definition cut_off :: "(string \<Rightarrow> uuid \<Rightarrow> uuid) \<Rightarrow> db \<Rightarrow> string \<times> uuid \<Rightarrow> bool" where
  "cut_off conn t k = removed_connection (fst k) (conn (fst k) (snd k)) t"

definition note_documents :: "db \<Rightarrow> (uuid \<times> string \<times> uuid) set" where
  "note_documents t = (\<lambda>d. (sd_source d, sd_tenant d, sd_document d)) `
     {d \<in> set (search_documents t). sd_owner d = notes_owner}"

definition guards_ok :: "(string \<Rightarrow> uuid \<Rightarrow> uuid) \<Rightarrow> db \<Rightarrow> bool" where
  "guards_ok conn t = (notes_unique t \<and>
     (\<forall>r \<in> set (notes_files t). nf_connection r = conn (nf_tenant r) (nf_file r) \<and> \<not> cut_off conn t (note_key r)))"

text \<open>A note document belongs to a stored source of the notes, whose document is the file.\<close>

definition documents_ok :: "db \<Rightarrow> bool" where
  "documents_ok t = (\<forall>(source, tn, file) \<in> note_documents t. \<exists>s \<in> set (source_refs t).
     sr_id s = source \<and> sr_tenant s = tn \<and> sr_owner s = notes_owner \<and> sr_document s = uuid_text file)"

definition guarded_notes :: "(string \<Rightarrow> uuid \<Rightarrow> uuid) \<Rightarrow> (string \<times> uuid) set \<Rightarrow> (string \<times> uuid) set \<Rightarrow> db \<Rightarrow> bool" where
  "guarded_notes conn P X t = (\<forall>(source, k) \<in> note_documents t. k \<in> X \<or> live_note t k \<or> k \<in> P \<and> cut_off conn t k)"

definition notes_inv :: "(string \<Rightarrow> uuid \<Rightarrow> uuid) \<Rightarrow> (string \<times> uuid) set \<Rightarrow> (string \<times> uuid) set \<Rightarrow> world \<Rightarrow> bool" where
  "notes_inv conn P X w =
     (ids_ok w \<and> guards_ok conn (tables w) \<and> documents_ok (tables w) \<and> guarded_notes conn P X (tables w))"

lemma notes_invD:
  assumes "notes_inv conn P X w"
  shows "ids_ok w" and "guards_ok conn (tables w)" and "documents_ok (tables w)" and "guarded_notes conn P X (tables w)"
  using assms by (auto simp: notes_inv_def)

lemma coveredI:
  "(\<And>source k. (source, k) \<in> note_documents t \<Longrightarrow> k \<notin> X \<Longrightarrow> \<not> live_note t k \<Longrightarrow> k \<in> P \<and> cut_off conn t k) \<Longrightarrow>
   guarded_notes conn P X t"
  unfolding guarded_notes_def by blast

lemma coveredD:
  "guarded_notes conn P X t \<Longrightarrow> (source, k) \<in> note_documents t \<Longrightarrow> k \<in> X \<or> live_note t k \<or> k \<in> P \<and> cut_off conn t k"
  unfolding guarded_notes_def by blast

lemma covered_mono: "guarded_notes conn P X t \<Longrightarrow> P \<subseteq> P' \<Longrightarrow> X \<subseteq> X' \<Longrightarrow> guarded_notes conn P' X' t"
  unfolding guarded_notes_def by blast

lemma notes_inv_mono: "notes_inv conn P X w \<Longrightarrow> P \<subseteq> P' \<Longrightarrow> X \<subseteq> X' \<Longrightarrow> notes_inv conn P' X' w"
  using covered_mono unfolding notes_inv_def by blast

text \<open>The part of the tables the invariant looks at.\<close>

definition note_view :: "db \<Rightarrow> (uuid \<times> uuid) list \<times> source_ref_row list \<times> (uuid \<times> string \<times> uuid) set \<times>
    notes_file_row list \<times> notes_disconnection_row list" where
  "note_view t = (map (\<lambda>r. (ar_id r, ar_source r)) (analysis_runs t), source_refs t, note_documents t,
     notes_files t, notes_disconnections t)"

lemma note_viewD:
  assumes "note_view t' = note_view t"
  shows "map (\<lambda>r. (ar_id r, ar_source r)) (analysis_runs t') = map (\<lambda>r. (ar_id r, ar_source r)) (analysis_runs t)"
    and "source_refs t' = source_refs t" and "note_documents t' = note_documents t"
    and "notes_files t' = notes_files t" and "notes_disconnections t' = notes_disconnections t"
  using assms by (simp_all add: note_view_def)

lemma run_sources_map: "run_sources t = set (map (\<lambda>r. (ar_id r, ar_source r)) (analysis_runs t))"
  by (simp add: run_sources_def)

lemma key_unique_map: "key_unique ar_id (analysis_runs t) \<longleftrightarrow> distinct (map fst (map (\<lambda>r. (ar_id r, ar_source r)) (analysis_runs t)))"
  by (simp add: key_unique_def comp_def)

lemma ids_below_map: "(\<forall>r \<in> set (analysis_runs t). ar_id r < n) \<longleftrightarrow>
    (\<forall>p \<in> set (map (\<lambda>r. (ar_id r, ar_source r)) (analysis_runs t)). fst p < n)"
  by simp

lemma note_view_parts:
  assumes "note_view (tables w') = note_view (tables w)" and "fresh w \<le> fresh w'"
  shows "ids_ok w \<Longrightarrow> ids_ok w'" and "run_sources (tables w') = run_sources (tables w)"
    and "live_note (tables w') = live_note (tables w)" and "cut_off conn (tables w') = cut_off conn (tables w)"
    and "guards_ok conn (tables w') = guards_ok conn (tables w)"
    and "documents_ok (tables w') = documents_ok (tables w)"
    and "guarded_notes conn P X (tables w') = guarded_notes conn P X (tables w)"
proof -
  note v = note_viewD [OF assms(1)]
  show "ids_ok w \<Longrightarrow> ids_ok w'"
    using assms(2) unfolding ids_ok_def key_unique_map ids_below_map v(1,2) by (auto intro: less_le_trans)
  show "run_sources (tables w') = run_sources (tables w)" unfolding run_sources_map v(1) ..
  show live: "live_note (tables w') = live_note (tables w)" by (simp add: live_note_def v fun_eq_iff)
  show cut: "cut_off conn (tables w') = cut_off conn (tables w)" for conn
    by (simp add: cut_off_def removed_connection_def v fun_eq_iff)
  show "guards_ok conn (tables w') = guards_ok conn (tables w)"
    by (simp add: guards_ok_def notes_unique_def v cut)
  show "documents_ok (tables w') = documents_ok (tables w)" by (simp add: documents_ok_def v)
  show "guarded_notes conn P X (tables w') = guarded_notes conn P X (tables w)" by (simp add: guarded_notes_def v live cut)
qed

lemma notes_inv_view:
  "note_view (tables w') = note_view (tables w) \<Longrightarrow> fresh w \<le> fresh w' \<Longrightarrow> notes_inv conn P X w \<Longrightarrow> notes_inv conn P X w'"
  using note_view_parts [of w' w] unfolding notes_inv_def by blast

section \<open>Removing a file\<close>

text \<open>What a removal of derived data does to these tables.\<close>

definition trimmed :: "db \<Rightarrow> db \<Rightarrow> bool" where
  "trimmed t t' = ((\<exists>p. analysis_runs t' = delete_where p (analysis_runs t)) \<and>
     (\<exists>q. source_refs t' = delete_where q (source_refs t)) \<and> note_documents t' \<subseteq> note_documents t \<and>
     notes_files t' = notes_files t \<and> notes_disconnections t' = notes_disconnections t)"

lemma trimmed_refl: "trimmed t t"
proof -
  have "delete_where (\<lambda>_. False) xs = xs" for xs :: "'a list" by (simp add: delete_where_def)
  then show ?thesis unfolding trimmed_def by (metis order_refl)
qed

lemma trimmed_trans: "trimmed t u \<Longrightarrow> trimmed u v \<Longrightarrow> trimmed t v"
  unfolding trimmed_def by (metis delete_where_delete_where subset_trans)

lemma note_purge:
  "analysis_runs (purge (note_scope tn file) t) =
     delete_where (\<lambda>r. ar_source r \<in> set (scope_ids (note_scope tn file) t)) (analysis_runs t)"
  "source_refs (purge (note_scope tn file) t) =
     delete_where (\<lambda>s. sr_id s \<in> set (scope_ids (note_scope tn file) t)) (source_refs t)"
  "search_documents (purge (note_scope tn file) t) =
     delete_where (\<lambda>d. sd_source d \<in> set (scope_ids (note_scope tn file) t)) (search_documents t)"
  "notes_files (purge (note_scope tn file) t) = notes_files t"
  "notes_disconnections (purge (note_scope tn file) t) = notes_disconnections t"
  by (simp_all add: purge_def purge_analysis_def purge_recaps_def purge_inbox_def purge_content_def Let_def
      note_scope_def direct_def scope_ids_def delete_where_none)

lemma note_scope_in: "source_in_scope (note_scope tn file) s =
    (sr_tenant s = tn \<and> sr_owner s = notes_owner \<and> sr_document s = uuid_text file)"
  by (simp add: note_scope_def)

lemma purged_note:
  assumes "documents_ok t"
  shows "trimmed t (purge (note_scope tn file) t) \<and> documents_ok (purge (note_scope tn file) t) \<and>
    (\<forall>source. (source, tn, file) \<notin> note_documents (purge (note_scope tn file) t))"
proof -
  let ?t = "purge (note_scope tn file) t" and ?ids = "set (scope_ids (note_scope tn file) t)"
  have docs: "x \<in> note_documents ?t \<longleftrightarrow> x \<in> note_documents t \<and> fst x \<notin> ?ids" for x
    by (force simp: note_documents_def note_purge table_simps)
  have ids: "sr_id s \<in> ?ids" if "s \<in> set (source_refs t)" "source_in_scope (note_scope tn file) s" for s
    using that by (auto simp: scope_ids_def table_simps)
  have "trimmed t ?t" using docs unfolding trimmed_def note_purge by blast
  moreover have "documents_ok ?t"
    unfolding documents_ok_def
  proof (clarify)
    fix source u f assume d: "(source, u, f) \<in> note_documents ?t"
    then have "(source, u, f) \<in> note_documents t" "source \<notin> ?ids" using docs by auto
    then obtain s where "s \<in> set (source_refs t)" "sr_id s = source" "sr_tenant s = u" "sr_owner s = notes_owner"
      "sr_document s = uuid_text f" using assms unfolding documents_ok_def by blast
    then show "\<exists>s \<in> set (source_refs ?t). sr_id s = source \<and> sr_tenant s = u \<and> sr_owner s = notes_owner \<and>
        sr_document s = uuid_text f"
      using \<open>source \<notin> ?ids\<close> by (auto simp: note_purge table_simps)
  qed
  moreover have "(source, tn, file) \<notin> note_documents ?t" for source
  proof
    assume "(source, tn, file) \<in> note_documents ?t"
    then have d: "(source, tn, file) \<in> note_documents t" "source \<notin> ?ids" using docs by auto
    then obtain s where "s \<in> set (source_refs t)" "sr_id s = source" "source_in_scope (note_scope tn file) s"
      using assms unfolding documents_ok_def note_scope_in by blast
    then show False using ids d(2) by blast
  qed
  ultimately show ?thesis by blast
qed

lemma same_content_notes:
  assumes "same_content t t'"
  shows "analysis_runs t' = analysis_runs t" "source_refs t' = source_refs t" "search_documents t' = search_documents t"
    "notes_files t' = notes_files t" "notes_disconnections t' = notes_disconnections t"
  using arg_cong [OF assms [unfolded same_content_def], of analysis_runs]
    arg_cong [OF assms [unfolded same_content_def], of source_refs]
    arg_cong [OF assms [unfolded same_content_def], of search_documents]
    arg_cong [OF assms [unfolded same_content_def], of notes_files]
    arg_cong [OF assms [unfolded same_content_def], of notes_disconnections] by simp_all

lemma fresh_grows_remove_file [fresh_rules]: "fresh_grows (remove_file tn file)"
  unfolding remove_file_def delete_derived_def execute_deletion_def by (intro fresh_rules)

lemma remove_file_Inr:
  assumes "remove_file tn file w = (Inr u, w')" and "documents_ok (tables w)"
  shows "trimmed (tables w) (tables w') \<and> documents_ok (tables w') \<and> fresh w \<le> fresh w' \<and>
    (\<forall>source. (source, tn, file) \<notin> note_documents (tables w'))"
proof -
  obtain derived w1 where q: "query inbox_query (\<lambda>t. note_sources tn file t \<noteq> []) w = (Inr derived, w1)"
    and rest: "(if \<not> derived then exec_return () else delete_derived (note_scope tn file)) w1 = (Inr u, w')"
    using assms(1) unfolding remove_file_def by (elim exec_bind_InrE) (rule that; assumption)
  have w1: "derived = (note_sources tn file (tables w) \<noteq> [])" "tables w1 = tables w" using query_Inr [OF q] by auto
  have fresh: "fresh w \<le> fresh w'" using fresh_growsD [OF fresh_grows_remove_file assms(1)] .
  show ?thesis
  proof (cases derived)
    case False
    then have same: "tables w' = tables w" using rest w1 by (simp add: exec_return_Inr)
    have none: "\<not> source_in_scope (note_scope tn file) s" if "s \<in> set (source_refs (tables w))" for s
      using False w1(1) that by (auto simp: note_sources_def select_where_def filter_empty_conv)
    show ?thesis
      using same fresh assms(2) none trimmed_refl unfolding documents_ok_def note_scope_in by fastforce
  next
    case True
    then obtain c where "run_child_first_deletion (note_scope tn file) w1 = (Inr c, w')"
      using rest by (auto simp: delete_derived_def execute_deletion_def exec_map_err_Inr exec_return_Inr elim!: exec_bind_InrE)
    then have same: "same_content (purge (note_scope tn file) (tables w)) (tables w')"
      using run_child_first_deletion_Inr w1(2) by metis
    note eq = same_content_notes [OF same]
    have docs: "note_documents (tables w') = note_documents (purge (note_scope tn file) (tables w))"
      by (simp add: note_documents_def eq)
    have "trimmed (tables w) (tables w') = trimmed (tables w) (purge (note_scope tn file) (tables w))"
      unfolding trimmed_def docs eq ..
    moreover have "documents_ok (tables w') = documents_ok (purge (note_scope tn file) (tables w))"
      by (simp add: documents_ok_def docs eq)
    ultimately show ?thesis using purged_note [OF assms(2)] docs fresh by simp
  qed
qed

lemma trimmed_ids:
  assumes "trimmed (tables w) (tables w')" and "fresh w \<le> fresh w'"
  shows "later w w'" and "ids_ok w \<Longrightarrow> ids_ok w'"
proof -
  obtain p q where eq: "analysis_runs (tables w') = delete_where p (analysis_runs (tables w))"
    "source_refs (tables w') = delete_where q (source_refs (tables w))" using assms(1) unfolding trimmed_def by blast
  show "later w w'" using assms(2) unfolding later_def run_sources_def eq by (auto simp: table_simps)
  show "ids_ok w'" if ok: "ids_ok w"
  proof -
    have "key_unique ar_id (analysis_runs (tables w'))" "key_unique sr_id (source_refs (tables w'))"
      using ok unfolding ids_ok_def eq by (auto intro: key_unique_delete)
    then show ?thesis using ok assms(2) less_le_trans unfolding ids_ok_def eq by (simp add: table_simps) blast
  qed
qed

lemma trimmed_guards:
  assumes "trimmed t t'"
  shows "live_note t' = live_note t" and "cut_off conn t' = cut_off conn t" and "guards_ok conn t' = guards_ok conn t"
proof -
  have eq: "notes_files t' = notes_files t" "notes_disconnections t' = notes_disconnections t"
    using assms by (simp_all add: trimmed_def)
  show "live_note t' = live_note t" by (simp add: live_note_def eq fun_eq_iff)
  show cut: "cut_off conn t' = cut_off conn t" by (simp add: cut_off_def removed_connection_def eq fun_eq_iff)
  show "guards_ok conn t' = guards_ok conn t" by (simp add: guards_ok_def notes_unique_def eq cut)
qed

text \<open>Once its documents are gone, a file needs no excuse.\<close>

lemma trimmed_inv:
  assumes "notes_inv conn P X w" and "trimmed (tables w) (tables w')" and "documents_ok (tables w')"
    and "fresh w \<le> fresh w'" and "\<forall>source. (source, k) \<notin> note_documents (tables w')"
  shows "notes_inv conn (P - {k}) (X - {k}) w'"
proof -
  note g = trimmed_guards [OF assms(2)]
  have sub: "note_documents (tables w') \<subseteq> note_documents (tables w)" using assms(2) by (simp add: trimmed_def)
  have "guarded_notes conn (P - {k}) (X - {k}) (tables w')"
  proof (rule coveredI)
    fix source j assume d: "(source, j) \<in> note_documents (tables w')" and n: "j \<notin> X - {k}" "\<not> live_note (tables w') j"
    have "j \<noteq> k" using d assms(5) by blast
    then show "j \<in> P - {k} \<and> cut_off conn (tables w') j"
      using d sub n coveredD [OF notes_invD(4) [OF assms(1)], of source j] unfolding g by blast
  qed
  then show ?thesis
    using assms(3) notes_invD(1,2) [OF assms(1)] trimmed_ids(2) [OF assms(2,4)] g(3) unfolding notes_inv_def by simp
qed

lemma remove_file_inv:
  assumes "notes_inv conn P X w" and "remove_file tn file w = (Inr u, w')"
  shows "notes_inv conn (P - {(tn, file)}) (X - {(tn, file)}) w' \<and> trimmed (tables w) (tables w') \<and> fresh w \<le> fresh w'"
  using remove_file_Inr [OF assms(2) notes_invD(3) [OF assms(1)]] trimmed_inv [OF assms(1), of w' "(tn, file)"] by simp

lemma remove_files_inv:
  assumes "exec_each (remove_file tn) files w = (Inr u, w')" and "notes_inv conn P (X \<union> {tn} \<times> set files) w"
  shows "notes_inv conn P X w' \<and> trimmed (tables w) (tables w') \<and> fresh w \<le> fresh w'"
  using assms
proof (induction files arbitrary: w)
  case Nil
  then show ?case by (simp add: exec_return_Inr trimmed_refl)
next
  case (Cons f fs)
  obtain v w1 where 1: "remove_file tn f w = (Inr v, w1)" and 2: "exec_each (remove_file tn) fs w1 = (Inr u, w')"
    using Cons.prems(1) by (auto elim: exec_bind_InrE)
  note first = remove_file_inv [OF Cons.prems(2) 1]
  have "notes_inv conn P (X \<union> {tn} \<times> set fs) w1"
    by (rule notes_inv_mono [OF first [THEN conjunct1]]) auto
  from Cons.IH [OF 2 this] show ?case using first trimmed_trans by (meson order_trans)
qed

lemma remove_file_trimmed:
  assumes "remove_file tn file w = (Inr u, w')"
  shows "trimmed (tables w) (tables w')"
proof -
  obtain derived w1 where q: "query inbox_query (\<lambda>t. note_sources tn file t \<noteq> []) w = (Inr derived, w1)"
    and rest: "(if \<not> derived then exec_return () else delete_derived (note_scope tn file)) w1 = (Inr u, w')"
    using assms(1) unfolding remove_file_def by (elim exec_bind_InrE) (rule that; assumption)
  have w1: "tables w1 = tables w" using query_Inr [OF q] by simp
  show ?thesis
  proof (cases derived)
    case True
    then obtain c where "run_child_first_deletion (note_scope tn file) w1 = (Inr c, w')"
      using rest by (auto simp: delete_derived_def execute_deletion_def exec_map_err_Inr exec_return_Inr elim!: exec_bind_InrE)
    then have "same_content (purge (note_scope tn file) (tables w)) (tables w')"
      using run_child_first_deletion_Inr w1 by metis
    note eq = same_content_notes [OF this]
    have "note_documents (tables w') = note_documents (purge (note_scope tn file) (tables w))"
      by (simp add: note_documents_def eq)
    moreover have "note_documents (purge (note_scope tn file) (tables w)) \<subseteq> note_documents (tables w)"
      by (force simp: note_documents_def note_purge table_simps)
    ultimately show ?thesis unfolding trimmed_def eq note_purge by blast
  qed (use rest w1 trimmed_refl in \<open>simp add: exec_return_Inr\<close>)
qed

lemma remove_files_trimmed: "exec_each (remove_file tn) files w = (Inr u, w') \<Longrightarrow> trimmed (tables w) (tables w')"
  by (induction files arbitrary: w)
    (auto simp: exec_return_Inr trimmed_refl elim!: exec_bind_InrE dest!: remove_file_trimmed intro: trimmed_trans)

section \<open>Steps\<close>

text \<open>
  A step that may happen at any time: it keeps the invariant for every set of unsettled files, leaves no
  file unclaimed that was claimed (its guard is live, or its connection was removed), and reuses no identifier.
\<close>

definition claimed :: "(string \<Rightarrow> uuid \<Rightarrow> uuid) \<Rightarrow> db \<Rightarrow> string \<times> uuid \<Rightarrow> bool" where
  "claimed conn t k = (cut_off conn t k \<or> live_note t k)"

definition note_step :: "(string \<Rightarrow> uuid \<Rightarrow> uuid) \<Rightarrow> world \<Rightarrow> world \<Rightarrow> bool" where
  "note_step conn w w' = (later w w' \<and>
     (\<forall>P. notes_inv conn P {} w \<longrightarrow> notes_inv conn P {} w' \<and>
       (\<forall>k. claimed conn (tables w) k \<longrightarrow> claimed conn (tables w') k)))"

lemma note_stepD:
  assumes "note_step conn w w'"
  shows "later w w'" and "notes_inv conn P {} w \<Longrightarrow> notes_inv conn P {} w'"
    and "notes_inv conn P {} w \<Longrightarrow> claimed conn (tables w) k \<Longrightarrow> claimed conn (tables w') k"
  using assms unfolding note_step_def by blast+

lemma note_step_refl: "note_step conn w w"
  by (simp add: note_step_def later_refl)

lemma note_step_trans: "note_step conn w w' \<Longrightarrow> note_step conn w' w'' \<Longrightarrow> note_step conn w w''"
  unfolding note_step_def using later_trans by blast

lemma note_step_still:
  assumes "note_view (tables w') = note_view (tables w)" and "fresh w \<le> fresh w'"
  shows "note_step conn w w'"
proof -
  have "later w w'"
    using assms(2) note_view_parts(2) [OF assms] note_viewD(2) [OF assms(1)] by (simp add: later_def)
  then show ?thesis
    using notes_inv_view [OF assms] note_view_parts(3,4) [OF assms] by (simp add: note_step_def claimed_def)
qed

interpretation note_frame: drive_frame "note_step conn" note_view for conn
proof
  show "note_step conn w w" for w by (rule note_step_refl)
  show "note_step conn w w' \<Longrightarrow> note_step conn w' w'' \<Longrightarrow> note_step conn w w''" for w w' w'' by (rule note_step_trans)
  show "note_view (tables w') = note_view (tables w) \<Longrightarrow> fresh w \<le> fresh w' \<Longrightarrow> note_step conn w w'" for w w'
    by (rule note_step_still)
  show "note_view (set_run_state p s t) = note_view t" for p s t
    by (simp add: note_view_def set_run_state_def note_documents_def update_where_def comp_def if_distrib cong: if_cong)
  show "note_view (t\<lparr>analysis_attempts := as\<rparr>) = note_view t" for t as
    by (simp add: note_view_def note_documents_def)
qed

section \<open>The operations\<close>

lemma fresh_grows_lock [fresh_rules]: "fresh_grows (lock_connection tn c l)" "fresh_grows (lock_change change)"
  "fresh_grows (connection_removed change)"
  unfolding lock_change_def lock_connection_def connection_removed_def by (intro fresh_rules)+

lemma lock_Inr:
  "lock_connection tn c l w = (Inr u, w') \<Longrightarrow> tables w' = tables w"
  "lock_change change w = (Inr u, w') \<Longrightarrow> tables w' = tables w"
  "connection_removed change w = (Inr b, w') \<Longrightarrow>
     tables w' = tables w \<and> b = removed_connection (nc_tenant change) (nc_connection change) (tables w)"
  by (auto simp: lock_change_def lock_connection_def connection_removed_def dest!: query_Inr)

text \<open>Only the guards and the removed connections change before the files of a connection are removed.\<close>

definition cut_connection :: "string \<Rightarrow> uuid \<Rightarrow> db \<Rightarrow> db" where
  "cut_connection tn c t = (note_disconnection tn c t)\<lparr>notes_files := delete_where (of_connection tn c) (notes_files t)\<rparr>"

lemma removed_after: "removed_connection u d (cut_connection tn c t) \<longleftrightarrow> removed_connection u d t \<or> u = tn \<and> d = c"
  by (auto simp: removed_connection_def cut_connection_def note_disconnection_def insert_nothing_def table_simps)

lemma cut_connection_inv:
  assumes "guards_ok conn t" and "guarded_notes conn P {} t" and "files = map nf_file (select_where (of_connection tn c) (notes_files t))"
  shows "guards_ok conn (cut_connection tn c t) \<and> guarded_notes conn P ({tn} \<times> set files) (cut_connection tn c t) \<and>
    (\<forall>k. claimed conn t k \<longrightarrow> claimed conn (cut_connection tn c t) k)"
proof -
  let ?t = "cut_connection tn c t"
  have files: "notes_files ?t = delete_where (of_connection tn c) (notes_files t)" by (simp add: cut_connection_def)
  have conn: "nf_connection r = conn (nf_tenant r) (nf_file r)" "\<not> cut_off conn t (note_key r)" if "r \<in> set (notes_files t)" for r
    using that assms(1) unfolding guards_ok_def by blast+
  have cut: "cut_off conn ?t k \<longleftrightarrow> cut_off conn t k \<or> fst k = tn \<and> conn (fst k) (snd k) = c" for k
    by (auto simp: cut_off_def removed_after)
  have live: "live_note ?t k \<or> k \<in> {tn} \<times> set files \<and> cut_off conn ?t k" if l: "live_note t k" for k
  proof -
    obtain r where r: "r \<in> set (notes_files t)" "note_key r = k" "\<not> nf_deleted r" using l unfolding live_note_def by blast
    show ?thesis
    proof (cases "of_connection tn c r")
      case True
      then have "k \<in> {tn} \<times> set files" using r assms(3) by (auto simp: of_connection_def note_key_def table_simps)
      moreover have "cut_off conn ?t k" using True r conn(1) [OF r(1)] by (auto simp: cut of_connection_def note_key_def)
      ultimately show ?thesis by blast
    next
      case False
      then show ?thesis using r unfolding live_note_def files by (auto simp: table_simps)
    qed
  qed
  have "notes_unique ?t"
    using assms(1) unfolding guards_ok_def notes_unique_def files by (blast intro: key_unique_delete)
  moreover have "nf_connection r = conn (nf_tenant r) (nf_file r) \<and> \<not> cut_off conn ?t (note_key r)" if "r \<in> set (notes_files ?t)" for r
  proof -
    have "r \<in> set (notes_files t)" "\<not> of_connection tn c r" using that unfolding files by (simp_all add: table_simps)
    then show ?thesis using conn [of r] unfolding cut by (auto simp: of_connection_def note_key_def)
  qed
  ultimately have "guards_ok conn ?t" unfolding guards_ok_def by blast
  moreover have "guarded_notes conn P ({tn} \<times> set files) ?t"
  proof (rule coveredI)
    fix source k assume "(source, k) \<in> note_documents ?t" and k: "k \<notin> {tn} \<times> set files" "\<not> live_note ?t k"
    then have "(source, k) \<in> note_documents t"
      by (simp add: note_documents_def cut_connection_def note_disconnection_def)
    from coveredD [OF assms(2) this] show "k \<in> P \<and> cut_off conn ?t k" using live [of k] k unfolding cut by blast
  qed
  moreover have "claimed conn ?t k" if "claimed conn t k" for k
    using that live [of k] unfolding claimed_def cut by blast
  ultimately show ?thesis by blast
qed

lemma trimmed_claimed: "trimmed t t' \<Longrightarrow> claimed conn t' k = claimed conn t k"
  using trimmed_guards [of t t'] by (simp add: claimed_def)

lemma later_trimmed: "trimmed (tables w) (tables w') \<Longrightarrow> fresh w \<le> fresh w' \<Longrightarrow> later w w'"
  by (rule trimmed_ids(1))

lemma notes_inv_cong:
  "tables w' = tables w \<Longrightarrow> fresh w \<le> fresh w' \<Longrightarrow> notes_inv conn P X w \<Longrightarrow> notes_inv conn P X w'"
  by (rule notes_inv_view) simp_all

lemma disconnection_step: "note_step conn w (snd (accept_disconnection tn c w))"
proof -
  let ?body = "exec_bind (lock_connection tn c LockExclusive) (\<lambda>_.
      exec_bind (execute inbox_query (note_disconnection tn c)) (\<lambda>_.
      exec_bind (delete_guards tn c) (exec_each (remove_file tn))))"
  have grows: "fresh_grows ?body"
    unfolding delete_guards_def by (intro fresh_rules)
  obtain r w' where run: "transact inbox_query ?body w = (r, w')" by fastforce
  have fresh: "fresh w \<le> fresh w'" using fresh_growsD [OF fresh_grows_transact [OF grows] run] .
  from run have "note_step conn w w'"
  proof (cases rule: transact_cases)
    case 1
    then show ?thesis using fresh by (intro note_step_still) simp_all
  next
    case (2 u w1)
    note body = 2(1) and w' = 2(2,3)
    obtain a v1 b v2 files v3 where 1: "lock_connection tn c LockExclusive (tick w) = (Inr a, v1)"
      and 2: "execute inbox_query (note_disconnection tn c) v1 = (Inr b, v2)"
      and 3: "delete_guards tn c v2 = (Inr files, v3)" and 4: "exec_each (remove_file tn) files v3 = (Inr u, w1)"
      using body by (elim exec_bind_InrE) (rule that; assumption)
    have v2: "tables v2 = note_disconnection tn c (tables w)"
      using lock_Inr(1) [OF 1] 2 by (auto simp: execute_def dest!: sql_Inr)
    have v3: "files = map nf_file (select_where (of_connection tn c) (notes_files (tables v2)))"
      "tables v3 = (tables v2)\<lparr>notes_files := delete_where (of_connection tn c) (notes_files (tables v2))\<rparr>"
      using 3 by (auto simp: delete_guards_def dest!: sql_Inr)
    have t3: "tables v3 = cut_connection tn c (tables w)"
      and files: "files = map nf_file (select_where (of_connection tn c) (notes_files (tables w)))"
      using v2 v3 by (simp_all add: cut_connection_def note_disconnection_def)
    have "fresh_grows (exec_bind (lock_connection tn c LockExclusive) (\<lambda>_.
        exec_bind (execute inbox_query (note_disconnection tn c)) (\<lambda>_. delete_guards tn c)))"
      unfolding delete_guards_def by (intro fresh_rules)
    moreover have "exec_bind (lock_connection tn c LockExclusive) (\<lambda>_.
        exec_bind (execute inbox_query (note_disconnection tn c)) (\<lambda>_. delete_guards tn c)) (tick w) = (Inr files, v3)"
      using 1 2 3 by (simp add: exec_bind_def)
    ultimately have f3: "fresh w \<le> fresh v3" using fresh_growsD by fastforce
    have same: "analysis_runs (tables v3) = analysis_runs (tables w)" "source_refs (tables v3) = source_refs (tables w)"
      "search_documents (tables v3) = search_documents (tables w)"
      by (simp_all add: t3 cut_connection_def note_disconnection_def)
    have trim: "trimmed (tables v3) (tables w1) \<and> fresh v3 \<le> fresh w1 \<and> notes_inv conn P {} w1 \<and>
        (\<forall>k. claimed conn (tables w) k \<longrightarrow> claimed conn (tables w1) k)" if inv: "notes_inv conn P {} w" for P
    proof -
      note i = notes_invD [OF inv]
      note cut = cut_connection_inv [OF i(2,4) files]
      have "ids_ok v3" using i(1) f3 unfolding ids_ok_def same by (auto intro: less_le_trans)
      moreover have "documents_ok (tables v3)" using i(3) by (simp add: documents_ok_def note_documents_def same)
      ultimately have "notes_inv conn P ({} \<union> {tn} \<times> set files) v3" using cut unfolding notes_inv_def t3 by simp
      from remove_files_inv [OF 4 this] show ?thesis using cut trimmed_claimed unfolding t3 by blast
    qed
    have "later w w'"
    proof -
      have "trimmed (tables v3) (tables w1) \<and> fresh v3 \<le> fresh w1"
      proof -
        have "fresh v3 \<le> fresh w1"
          using fresh_growsD [OF fresh_grows_each 4] fresh_grows_remove_file by blast
        moreover have "trimmed (tables v3) (tables w1)"
          using 4 by (rule remove_files_trimmed)
        ultimately show ?thesis by blast
      qed
      then have "later v3 w1" by (blast intro: later_trimmed)
      then show ?thesis using f3 unfolding later_def run_sources_def w' same by (meson order_less_le_trans order_trans)
    qed
    then show ?thesis
      using trim notes_inv_cong [of w' w1] w' unfolding note_step_def by simp
  qed
  then show ?thesis using run unfolding accept_disconnection_def by simp
qed

section \<open>Claims\<close>

abbreviation change_key :: "note_change \<Rightarrow> string \<times> uuid" where
  "change_key c \<equiv> (nc_tenant c, nc_file c)"

lemma live_note_at:
  assumes "notes_unique t"
  shows "live_note t k \<longleftrightarrow> (\<exists>r. note_at k t = Some r \<and> \<not> nf_deleted r)"
proof
  assume "live_note t k"
  then obtain r where r: "r \<in> set (notes_files t)" "note_key r = k" "\<not> nf_deleted r" unfolding live_note_def by blast
  have "note_at (note_key r) t = Some r"
    using assms r(1) unfolding note_at_def notes_unique_def by (rule key_unique_find)
  then show "\<exists>r. note_at k t = Some r \<and> \<not> nf_deleted r" using r by blast
next
  assume "\<exists>r. note_at k t = Some r \<and> \<not> nf_deleted r"
  then show "live_note t k" unfolding live_note_def note_at_def by (blast dest: find_where_SomeD)
qed

lemma put_note_others [simp]:
  "note_documents (put_note r t) = note_documents t" "source_refs (put_note r t) = source_refs t"
  "analysis_runs (put_note r t) = analysis_runs t" "notes_disconnections (put_note r t) = notes_disconnections t"
  "removed_connection tn c (put_note r t) = removed_connection tn c t" "cut_off conn (put_note r t) = cut_off conn t"
  by (simp_all add: put_note_def note_documents_def removed_connection_def cut_off_def fun_eq_iff)

lemma put_note_guards:
  assumes "guards_ok conn t" and "nf_connection r = conn (nf_tenant r) (nf_file r)" and "\<not> cut_off conn t (note_key r)"
  shows "guards_ok conn (put_note r t)"
proof -
  have "notes_unique (put_note r t)" using assms(1) note_guard.put_ok unfolding guards_ok_def by blast
  moreover have "x \<in> set (notes_files t) \<or> x = r" if "x \<in> set (notes_files (put_note r t))" for x
    using that by (auto simp: put_note_def note_update_same dest!: set_upsert)
  ultimately show ?thesis using assms unfolding guards_ok_def by auto
qed

lemma put_note_live:
  assumes "notes_unique t"
  shows "live_note (put_note r t) j \<longleftrightarrow>
    (if j = note_key r \<and> (case note_at j t of None \<Rightarrow> True | Some c \<Rightarrow> nf_sequence c < nf_sequence r)
     then \<not> nf_deleted r else live_note t j)"
  unfolding live_note_at [OF note_guard.put_ok [OF assms]] live_note_at [OF assms] note_guard.put_look [OF assms]
  by (cases "j = note_key r") auto

lemma note_row_simps [simp]:
  "note_key (note_row c n d) = change_key c" "nf_sequence (note_row c n d) = n" "nf_deleted (note_row c n d) = d"
  "nf_connection (note_row c n d) = nc_connection c" "nf_tenant (note_row c n d) = nc_tenant c" "nf_file (note_row c n d) = nc_file c"
  by (simp_all add: note_row_def note_key_def)

lemma fresh_grows_claim [fresh_rules]: "fresh_grows (apply_note c deleted n)" "fresh_grows (claim_note c deleted)"
proof -
  show applying: "fresh_grows (apply_note c deleted n)" for n
    unfolding apply_note_def write_note_def applied_note_def by (intro fresh_rules)
  show "fresh_grows (claim_note c deleted)" unfolding claim_note_def by (intro fresh_rules applying)
qed

lemma apply_note_Inr:
  assumes "apply_note c deleted n w = (Inr adm, w')"
  shows "tables w' = put_note (note_row c n deleted) (tables w) \<and>
    (\<exists>r. note_at (change_key c) (tables w') = Some r \<and> (adm = NoteCurrent \<longleftrightarrow> nf_sequence r = n \<and> nf_deleted r = deleted))"
  using assms unfolding apply_note_def
  by (auto simp: write_note_def applied_note_def exec_return_Inr elim!: exec_bind_InrE dest!: sql_Inr
      split: if_splits option.splits)

lemma claim_note_inv:
  assumes inv: "notes_inv conn P {} w" and conn: "nc_connection c = conn (nc_tenant c) (nc_file c)"
    and run: "claim_note c deleted w = (Inr adm, w')"
  shows "(adm = NoteStale \<longrightarrow> notes_inv conn (P - {change_key c}) {} w') \<and>
    (adm = NoteCurrent \<longrightarrow> notes_inv conn (P - {change_key c}) (if deleted then {change_key c} else {}) w' \<and>
       (deleted \<or> claimed conn (tables w') (change_key c)))"
proof -
  let ?k = "change_key c"
  obtain a w1 removed w2 where 1: "lock_change c w = (Inr a, w1)" and 2: "connection_removed c w1 = (Inr removed, w2)"
    and 3: "(if removed then exec_bind (remove_file (nc_tenant c) (nc_file c)) (\<lambda>_. exec_return NoteStale)
      else exec_bind (exec_map_err InboxPersistence (exec_result (i64_of (nc_sequence c)))) (apply_note c deleted)) w2 = (Inr adm, w')"
    using run unfolding claim_note_def by (elim exec_bind_InrE) (rule that; assumption)
  have t2: "tables w2 = tables w" "removed = cut_off conn (tables w) ?k"
    using lock_Inr(2) [OF 1] lock_Inr(3) [OF 2] conn by (simp_all add: cut_off_def)
  have f2: "fresh w \<le> fresh w2"
    using fresh_growsD [OF fresh_grows_lock(2) 1] fresh_growsD [OF fresh_grows_lock(3) 2] by simp
  have inv2: "notes_inv conn P {} w2" by (rule notes_inv_cong [OF t2(1) f2 inv])
  show ?thesis
  proof (cases removed)
    case True
    then obtain u where "remove_file (nc_tenant c) (nc_file c) w2 = (Inr u, w')" "adm = NoteStale"
      using 3 by (auto simp: exec_return_Inr elim!: exec_bind_InrE)
    then show ?thesis using remove_file_inv [OF inv2] by simp
  next
    case False
    then obtain n where 4: "apply_note c deleted n w2 = (Inr adm, w')"
      using 3 by (auto simp: exec_map_err_Inr exec_result_def elim!: exec_bind_InrE)
    have fresh: "fresh w2 \<le> fresh w'"
      by (rule fresh_growsD [OF fresh_grows_claim(1) 4])
    let ?r = "note_row c n deleted" and ?t = "tables w2"
    obtain r where t': "tables w' = put_note ?r ?t" and r: "note_at ?k (tables w') = Some r"
      and adm: "adm = NoteCurrent \<longleftrightarrow> nf_sequence r = n \<and> nf_deleted r = deleted" using apply_note_Inr [OF 4] by blast
    note i = notes_invD [OF inv2]
    have unique: "notes_unique ?t" using i(2) by (simp add: guards_ok_def)
    have cut: "\<not> cut_off conn ?t ?k" using False t2 by simp
    have guards: "guards_ok conn (tables w')" unfolding t' by (rule put_note_guards) (use i(2) conn cut in simp_all)
    have ids: "ids_ok w'" using i(1) fresh unfolding ids_ok_def t' by (auto intro: less_le_trans)
    have docs: "documents_ok (tables w')" using i(3) by (simp add: documents_ok_def t')
    have was: "live_note ?t ?k" if "(source, ?k) \<in> note_documents ?t" for source
      using coveredD [OF i(4) that] cut by blast
    have lost: "live_note (tables w') ?k \<longleftrightarrow> live_note ?t ?k" if "\<not> (nf_sequence r = n \<and> nf_deleted r = deleted)"
      using that r unfolding t' put_note_live [OF unique] note_guard.put_look [OF unique] by (auto split: if_splits)
    have others: "live_note (tables w') j \<longleftrightarrow> live_note ?t j" if "j \<noteq> ?k" for j
      using that unfolding t' put_note_live [OF unique] by simp
    have keeps: "live_note (tables w') ?k" if "\<not> deleted" "live_note ?t ?k"
      using that unfolding t' put_note_live [OF unique] by simp
    have cov: "guarded_notes conn (P - {?k}) X (tables w')" if X: "X = {?k} \<or> X = {} \<and> (deleted \<longrightarrow> adm = NoteStale)" for X
    proof (rule coveredI)
      fix source j assume d: "(source, j) \<in> note_documents (tables w')" and n: "j \<notin> X" "\<not> live_note (tables w') j"
      have d2: "(source, j) \<in> note_documents ?t" using d by (simp add: t')
      show "j \<in> P - {?k} \<and> cut_off conn (tables w') j"
      proof (cases "j = ?k")
        case True
        then have "live_note ?t ?k" using was d2 by simp
        moreover have "X = {}" using X n(1) True by blast
        ultimately have "live_note (tables w') ?k" using X adm lost keeps by (cases deleted) auto
        then show ?thesis using n(2) True by simp
      next
        case False
        then show ?thesis using coveredD [OF i(4) d2] n(2) others by (auto simp: t')
      qed
    qed
    have "adm = NoteCurrent \<Longrightarrow> \<not> deleted \<Longrightarrow> live_note (tables w') ?k"
      using adm r guards live_note_at [of "tables w'" ?k] by (simp add: guards_ok_def)
    then show ?thesis using guards ids docs cov unfolding notes_inv_def claimed_def by auto
  qed
qed

end
