(* ===== verification/Family_Analysis.thy ===== *)
theory Family_Analysis
  imports Source_Inbox Pipeline
begin

text \<open>
  The analysis families (\<open>family_analysis.rs\<close>, \<open>note_analysis.rs\<close>): the evidence each sends to the model,
  its request, and the validation of an answer against its schema and its source. The prompts and the
  generated schemas are parameters; what a schema admits is read from the attributes of the structs.
\<close>

section \<open>Families and their requests\<close>

datatype family = FamRepository | FamSocial | FamArchive | FamProject | FamNote

fun family_prompt_version :: "family \<Rightarrow> string" where
  "family_prompt_version FamRepository = ''repository_prompt_v1''"
| "family_prompt_version FamSocial = ''social_prompt_v1''"
| "family_prompt_version FamArchive = ''archive_prompt_v1''"
| "family_prompt_version FamProject = ''archive_project_prompt_v1''"
| "family_prompt_version FamNote = ''note_prompt_v1''"

text \<open>The prompt files and \<open>serde_json::to_value(schema_for!(..))\<close>.\<close>

record family_texts =
  fx_system :: "family \<Rightarrow> string"
  fx_task :: "family \<Rightarrow> string"
  fx_schema :: "family \<Rightarrow> json option"

definition family_request :: "family_texts \<Rightarrow> family \<Rightarrow> string \<Rightarrow> generation_request option" where
  "family_request tx f evidence =
     (case fx_schema tx f of
        None \<Rightarrow> None
      | Some schema \<Rightarrow> Some \<lparr>prompt_version = family_prompt_version f, system_policy = fx_system tx f,
          task_instruction = fx_task tx f, output_schema = schema, source_content = evidence\<rparr>)"

section \<open>Evidence\<close>

definition or_empty :: "string option \<Rightarrow> string" where
  "or_empty s = (case s of None \<Rightarrow> [] | Some t \<Rightarrow> t)"

abbreviation line :: "string \<Rightarrow> string \<Rightarrow> string" where
  "line label x \<equiv> label @ x @ [newline]"

definition social_context :: "social_snapshot \<Rightarrow> string" where
  "social_context s = line ''family: '' ''social'' @ line ''platform: '' (ss_platform s) @
     line ''source_id: '' (ss_source s) @ line ''post_text: '' (or_empty (ss_text s))"

fun role_text :: "author_role \<Rightarrow> string" where
  "role_text RoleUser = ''user''"
| "role_text RoleAssistant = ''assistant''"
| "role_text RoleSystem = ''system''"
| "role_text RoleTool = ''tool''"
| "role_text RoleOther = ''unknown''"

fun part_line :: "content_part \<Rightarrow> string" where
  "part_line (PartText t) = line ''text: '' t"
| "part_line (PartMarkdown t) = line ''markdown: '' t"
| "part_line PartOther = []"

definition message_lines :: "ai_message \<Rightarrow> string" where
  "message_lines m = line ''message_id: '' (am_id m) @ line ''role: '' (role_text (am_role m)) @
     concat (map part_line (am_parts m))"

definition archive_context :: "ai_conversation \<Rightarrow> string" where
  "archive_context c = line ''family: '' ''ai_archive'' @ line ''conversation_id: '' (cv_id c) @
     concat (map message_lines (cv_messages c))"

definition archive_lead_characters :: nat where
  "archive_lead_characters = 280"

fun part_text :: "content_part \<Rightarrow> string option" where
  "part_text (PartText t) = Some t"
| "part_text (PartMarkdown t) = Some t"
| "part_text PartOther = None"

text \<open>\<open>join\<close> of the strings with newlines between them.\<close>

fun join_lines :: "string list \<Rightarrow> string" where
  "join_lines [] = []"
| "join_lines [s] = s"
| "join_lines (s # ss) = s @ [newline] @ join_lines ss"

definition message_text :: "ai_message \<Rightarrow> string" where
  "message_text m = join_lines (List.map_filter part_text (am_parts m))"

definition archive_search_text :: "ai_conversation \<Rightarrow> string \<times> string" where
  "archive_search_text c =
     (let texts = filter (\<lambda>t. t \<noteq> []) (map message_text (cv_messages c)) in
      (case texts of [] \<Rightarrow> [] | t # _ \<Rightarrow> take archive_lead_characters t, join_lines texts))"

definition archive_project_context :: "ai_project \<Rightarrow> string" where
  "archive_project_context p = line ''family: '' ''ai_archive_project'' @ line ''project_id: '' (pr_id p) @
     line ''title: '' (pr_title p) @ line ''description: '' (or_empty (pr_description p)) @
     line ''instructions: '' (or_empty (pr_instructions p))"

text \<open>
  A repository analysis request of the GitHub contract: its identifiers as text, the metadata, the
  README reference of its source revision, and the rest of the request.
\<close>

datatype readme_revision = ReadmePresent blob_ref | ReadmeAbsent | ReadmeOther

record repository_request =
  gr_owner :: string
  gr_repository :: string
  gr_numeric :: "64 word"
  gr_request :: string
  gr_readme :: readme_revision
  gr_revision_rest :: json
  gr_full_name :: string
  gr_description :: "string option"
  gr_language :: "string option"
  gr_idempotency :: string

definition repository_context :: "repository_request \<Rightarrow> string option \<Rightarrow> string" where
  "repository_context r readme = line ''family: '' ''repository'' @ line ''repository_id: '' (gr_repository r) @
     line ''full_name: '' (gr_full_name r) @ line ''description: '' (or_empty (gr_description r)) @
     line ''primary_language: '' (or_empty (gr_language r)) @ line ''README_BEGIN'' [] @
     line (or_empty readme) [] @ line ''README_END'' []"

section \<open>Notes\<close>

definition note_context_characters :: nat where
  "note_context_characters = 32000"

definition note_lead_characters :: nat where
  "note_lead_characters = 280"

record note_revision =
  nr_tenant :: string
  nr_file :: uuid
  nr_path :: string
  nr_blob :: blob_ref
  nr_text :: string

text \<open>\<open>rsplit('/').next()\<close>: what follows the last slash.\<close>

definition after_last_slash :: "string \<Rightarrow> string" where
  "after_last_slash s = rev (takeWhile (\<lambda>c. c \<noteq> CHR ''/'') (rev s))"

definition strip_end :: "string \<Rightarrow> string \<Rightarrow> string option" where
  "strip_end suffix s =
     (if length suffix \<le> length s \<and> drop (length s - length suffix) s = suffix
      then Some (take (length s - length suffix) s) else None)"

definition note_title :: "note_revision \<Rightarrow> string" where
  "note_title n = (let name = after_last_slash (nr_path n) in
     case strip_end ''.md'' name of None \<Rightarrow> name | Some s \<Rightarrow> s)"

definition note_lead :: "note_revision \<Rightarrow> string" where
  "note_lead n = take note_lead_characters (nr_text n)"

definition ascii_lower :: "char \<Rightarrow> char" where
  "ascii_lower c = (let n = of_char c :: nat in if 65 \<le> n \<and> n \<le> 90 then char_of (n + 32) else c)"

definition is_markdown :: "string \<Rightarrow> bool" where
  "is_markdown media =
     (map ascii_lower (trim (takeWhile (\<lambda>c. c \<noteq> CHR '';'') media)) = ''text/markdown'')"

definition note_context_version :: string where
  "note_context_version = ''note_context_v1-max-characters-32000''"

text \<open>\<open>to_text\<close> is the rendering of a JSON value; the object's keys are in alphabetical order.\<close>

definition note_context :: "(json \<Rightarrow> string) \<Rightarrow> note_revision \<Rightarrow> string" where
  "note_context to_text n = to_text (JObj [(''family'', JStr ''note''), (''note_text'', JStr (nr_text n)),
     (''title'', JStr (note_title n))])"

section \<open>Answers\<close>

text \<open>The answers of four families share their first three fields.\<close>

record grounded_analysis =
  ga_summary :: string
  ga_topics :: "string list"
  ga_excerpt :: string

type_synonym note_analysis = grounded_analysis
type_synonym archive_project_analysis = grounded_analysis

datatype social_confidence = Grounded | Limited
datatype readme_evidence = EvidencePresent | EvidenceAbsent

record social_analysis = grounded_analysis +
  sa_confidence :: social_confidence

record repository_analysis = grounded_analysis +
  pa_evidence :: readme_evidence

record archive_decision =
  de_text :: string
  de_message :: string

record archive_analysis =
  ca_summary :: string
  ca_message_ids :: "string list"
  ca_decisions :: "archive_decision list"

datatype family_validation_error = FamSchema | FamStructural | FamDecode | FamCitation | FamEvidence

section \<open>Schemas\<close>

fun is_string :: "json \<Rightarrow> bool" where
  "is_string (JStr _) = True"
| "is_string _ = False"

fun string_one_of :: "string list \<Rightarrow> json \<Rightarrow> bool" where
  "string_one_of vs (JStr s) = (s \<in> set vs)"
| "string_one_of vs _ = False"

fun array_at_most :: "nat \<Rightarrow> (json \<Rightarrow> bool) \<Rightarrow> json \<Rightarrow> bool" where
  "array_at_most hi item (JArr xs) = (length xs \<le> hi \<and> list_all item xs)"
| "array_at_most hi item _ = False"

definition grounded_fields :: "(string \<times> (json \<Rightarrow> bool)) list" where
  "grounded_fields = [(''summary'', string_between 1 2000), (''topics'', array_at_most 12 is_string),
     (''evidence_excerpt'', string_between 1 500)]"

definition decision_schema :: "json \<Rightarrow> bool" where
  "decision_schema = exact_object [(''text'', string_between 1 500), (''message_id'', string_between 1 256)]"

fun family_schema :: "family \<Rightarrow> json \<Rightarrow> bool" where
  "family_schema FamRepository = exact_object (grounded_fields @ [(''readme_evidence'', string_one_of [''present'', ''absent''])])"
| "family_schema FamSocial = exact_object (grounded_fields @ [(''confidence'', string_one_of [''grounded'', ''limited''])])"
| "family_schema FamArchive = exact_object [(''summary'', string_between 1 2000),
     (''summary_message_ids'', array_between 1 20 is_string), (''decisions'', array_at_most 20 decision_schema)]"
| "family_schema FamProject = exact_object grounded_fields"
| "family_schema FamNote = exact_object grounded_fields"

section \<open>Decoding and encoding\<close>

definition json_strings :: "json \<Rightarrow> string list option" where
  "json_strings j = Option.bind (json_array j) (decode_all json_str)"

definition decode_grounded :: "json \<Rightarrow> grounded_analysis option" where
  "decode_grounded j =
     (case (Option.bind (json_get j ''summary'') json_str, Option.bind (json_get j ''topics'') json_strings,
            Option.bind (json_get j ''evidence_excerpt'') json_str) of
        (Some s, Some ts, Some e) \<Rightarrow> Some \<lparr>ga_summary = s, ga_topics = ts, ga_excerpt = e\<rparr>
      | _ \<Rightarrow> None)"

definition grounded_members :: "string \<Rightarrow> string list \<Rightarrow> string \<Rightarrow> (string \<times> json) list" where
  "grounded_members s ts e =
     [(''summary'', JStr s), (''topics'', JArr (map JStr ts)), (''evidence_excerpt'', JStr e)]"

definition grounded_json :: "grounded_analysis \<Rightarrow> json" where
  "grounded_json a = JObj (grounded_members (ga_summary a) (ga_topics a) (ga_excerpt a))"

fun confidence_text :: "social_confidence \<Rightarrow> string" where
  "confidence_text Grounded = ''grounded''"
| "confidence_text Limited = ''limited''"

fun evidence_text :: "readme_evidence \<Rightarrow> string" where
  "evidence_text EvidencePresent = ''present''"
| "evidence_text EvidenceAbsent = ''absent''"

definition parse_confidence :: "string \<Rightarrow> social_confidence option" where
  "parse_confidence s = find (\<lambda>c. confidence_text c = s) [Grounded, Limited]"

definition parse_evidence :: "string \<Rightarrow> readme_evidence option" where
  "parse_evidence s = find (\<lambda>c. evidence_text c = s) [EvidencePresent, EvidenceAbsent]"

definition decode_social :: "json \<Rightarrow> social_analysis option" where
  "decode_social j =
     (case (decode_grounded j, Option.bind (Option.bind (json_get j ''confidence'') json_str) parse_confidence) of
        (Some a, Some c) \<Rightarrow> Some \<lparr>ga_summary = ga_summary a, ga_topics = ga_topics a, ga_excerpt = ga_excerpt a,
          sa_confidence = c\<rparr>
      | _ \<Rightarrow> None)"

definition social_json :: "social_analysis \<Rightarrow> json" where
  "social_json a = JObj (grounded_members (ga_summary a) (ga_topics a) (ga_excerpt a) @
     [(''confidence'', JStr (confidence_text (sa_confidence a)))])"

definition decode_repository :: "json \<Rightarrow> repository_analysis option" where
  "decode_repository j =
     (case (decode_grounded j, Option.bind (Option.bind (json_get j ''readme_evidence'') json_str) parse_evidence) of
        (Some a, Some c) \<Rightarrow> Some \<lparr>ga_summary = ga_summary a, ga_topics = ga_topics a, ga_excerpt = ga_excerpt a,
          pa_evidence = c\<rparr>
      | _ \<Rightarrow> None)"

definition repository_json :: "repository_analysis \<Rightarrow> json" where
  "repository_json a = JObj (grounded_members (ga_summary a) (ga_topics a) (ga_excerpt a) @
     [(''readme_evidence'', JStr (evidence_text (pa_evidence a)))])"

definition decode_decision :: "json \<Rightarrow> archive_decision option" where
  "decode_decision j =
     (case (Option.bind (json_get j ''text'') json_str, Option.bind (json_get j ''message_id'') json_str) of
        (Some t, Some m) \<Rightarrow> Some \<lparr>de_text = t, de_message = m\<rparr>
      | _ \<Rightarrow> None)"

definition decision_json :: "archive_decision \<Rightarrow> json" where
  "decision_json d = JObj [(''text'', JStr (de_text d)), (''message_id'', JStr (de_message d))]"

definition decode_archive :: "json \<Rightarrow> archive_analysis option" where
  "decode_archive j =
     (case (Option.bind (json_get j ''summary'') json_str, Option.bind (json_get j ''summary_message_ids'') json_strings,
            Option.bind (Option.bind (json_get j ''decisions'') json_array) (decode_all decode_decision)) of
        (Some s, Some ids, Some ds) \<Rightarrow> Some \<lparr>ca_summary = s, ca_message_ids = ids, ca_decisions = ds\<rparr>
      | _ \<Rightarrow> None)"

definition archive_json :: "archive_analysis \<Rightarrow> json" where
  "archive_json a = JObj [(''summary'', JStr (ca_summary a)),
     (''summary_message_ids'', JArr (map JStr (ca_message_ids a))),
     (''decisions'', JArr (map decision_json (ca_decisions a)))]"

section \<open>Validation\<close>

text \<open>\<open>str::contains\<close>.\<close>

definition text_contains :: "string \<Rightarrow> string \<Rightarrow> bool" where
  "text_contains hay needle = list_ex (\<lambda>i. take (length needle) (drop i hay) = needle) [0..<Suc (length hay)]"

definition decoded_family ::
  "family_texts \<Rightarrow> family \<Rightarrow> (json \<Rightarrow> 'a option) \<Rightarrow> json \<Rightarrow> family_validation_error + 'a" where
  "decoded_family tx f decode v =
     (if fx_schema tx f = None then Inl FamSchema
      else if \<not> family_schema f v then Inl FamStructural
      else case decode v of None \<Rightarrow> Inl FamDecode | Some a \<Rightarrow> Inr a)"

definition checked_family :: "bool \<Rightarrow> 'e \<Rightarrow> 'a \<Rightarrow> 'e + 'a" where
  "checked_family b e a = (if b then Inr a else Inl e)"

definition validate_social_analysis ::
  "family_texts \<Rightarrow> json \<Rightarrow> social_snapshot \<Rightarrow> family_validation_error + social_analysis" where
  "validate_social_analysis tx v s =
     (case decoded_family tx FamSocial decode_social v of
        Inl e \<Rightarrow> Inl e
      | Inr a \<Rightarrow> checked_family (case ss_text s of None \<Rightarrow> False | Some t \<Rightarrow> text_contains t (ga_excerpt a)) FamCitation a)"

definition validate_note_analysis ::
  "family_texts \<Rightarrow> json \<Rightarrow> string \<Rightarrow> family_validation_error + note_analysis" where
  "validate_note_analysis tx v t =
     (case decoded_family tx FamNote decode_grounded v of
        Inl e \<Rightarrow> Inl e
      | Inr a \<Rightarrow> checked_family (text_contains t (ga_excerpt a)) FamCitation a)"

definition validate_archive_project_analysis ::
  "family_texts \<Rightarrow> json \<Rightarrow> ai_project \<Rightarrow> family_validation_error + archive_project_analysis" where
  "validate_archive_project_analysis tx v p =
     (case decoded_family tx FamProject decode_grounded v of
        Inl e \<Rightarrow> Inl e
      | Inr a \<Rightarrow> checked_family (list_ex (\<lambda>t. text_contains t (ga_excerpt a))
          [pr_title p, or_empty (pr_description p), or_empty (pr_instructions p)]) FamCitation a)"

definition cites_message :: "ai_conversation \<Rightarrow> string \<Rightarrow> bool" where
  "cites_message c ident = list_ex (\<lambda>m. am_id m = ident) (cv_messages c)"

definition validate_archive_analysis ::
  "family_texts \<Rightarrow> json \<Rightarrow> ai_conversation \<Rightarrow> family_validation_error + archive_analysis" where
  "validate_archive_analysis tx v c =
     (case decoded_family tx FamArchive decode_archive v of
        Inl e \<Rightarrow> Inl e
      | Inr a \<Rightarrow>
          if list_ex (\<lambda>d. \<not> cites_message c (de_message d)) (ca_decisions a) then Inl FamCitation
          else if list_ex (\<lambda>i. \<not> cites_message c i) (ca_message_ids a) then Inl FamCitation
          else Inr a)"

definition metadata_matches :: "repository_request \<Rightarrow> string \<Rightarrow> bool" where
  "metadata_matches r excerpt = list_ex (\<lambda>t. t \<noteq> [] \<and> text_contains t excerpt)
     [gr_full_name r, or_empty (gr_description r), or_empty (gr_language r)]"

definition validate_repository_analysis ::
  "family_texts \<Rightarrow> json \<Rightarrow> repository_request \<Rightarrow> string option \<Rightarrow> family_validation_error + repository_analysis" where
  "validate_repository_analysis tx v r readme =
     (case decoded_family tx FamRepository decode_repository v of
        Inl e \<Rightarrow> Inl e
      | Inr a \<Rightarrow>
          if pa_evidence a \<noteq> (if readme = None then EvidenceAbsent else EvidencePresent) then Inl FamEvidence
          else if \<not> (case readme of None \<Rightarrow> False | Some t \<Rightarrow> text_contains t (ga_excerpt a)) \<and>
                  \<not> metadata_matches r (ga_excerpt a) then Inl FamCitation
          else Inr a)"

end
