(* ===== verification/Family_Pipeline.thy ===== *)
theory Family_Pipeline
  imports Family_Answers
begin

text \<open>
  The executions of the families (\<open>family_pipeline.rs\<close>): register the source revision, create its run,
  drive it to an accepted answer and decode that. What the code takes from the contract crates is in
  a record of parameters.
\<close>

section \<open>Failures\<close>

datatype readme_error = ReadmeUnavailable | ReadmeIntegrity

datatype family_pipeline_error =
  FpPersistence persistence_error | FpBlob blob_error | FpProvider provider_error | FpInvalid | FpTimeout
| FpContract | FpInbox source_inbox_error | FpRepositorySource readme_error | FpSource | FpConflict

fun family_error_is_permanent :: "family_pipeline_error \<Rightarrow> bool" where
  "family_error_is_permanent (FpPersistence e) = persistence_error_is_permanent e"
| "family_error_is_permanent (FpBlob e) = blob_error_is_permanent e"
| "family_error_is_permanent (FpProvider e) = provider_error_is_permanent e"
| "family_error_is_permanent (FpInbox e) = source_inbox_error_is_permanent e"
| "family_error_is_permanent FpInvalid = True"
| "family_error_is_permanent FpContract = True"
| "family_error_is_permanent FpSource = True"
| "family_error_is_permanent (FpRepositorySource e) = (e = ReadmeIntegrity)"
| "family_error_is_permanent FpTimeout = False"
| "family_error_is_permanent FpConflict = False"

fun family_error_needs_operator :: "family_pipeline_error \<Rightarrow> bool" where
  "family_error_needs_operator (FpProvider e) = provider_error_needs_operator e"
| "family_error_needs_operator _ = False"

fun of_drive_failure :: "drive_failure \<Rightarrow> family_pipeline_error" where
  "of_drive_failure (DrivePersistence e) = FpPersistence e"
| "of_drive_failure (DriveBlob e) = FpBlob e"
| "of_drive_failure (DriveProvider e) = FpProvider e"
| "of_drive_failure DriveInvalid = FpInvalid"
| "of_drive_failure DriveTimeout = FpTimeout"
| "of_drive_failure DriveConflict = FpConflict"

type_synonym 'a family_exec = "(world, family_pipeline_error, 'a) exec"

definition or_contract :: "'a option \<Rightarrow> 'a family_exec" where
  "or_contract x = (case x of None \<Rightarrow> exec_fail FpContract | Some y \<Rightarrow> exec_return y)"

definition or_source :: "'a option \<Rightarrow> 'a family_exec" where
  "or_source x = (case x of None \<Rightarrow> exec_fail FpSource | Some y \<Rightarrow> exec_return y)"

section \<open>Sources and runs\<close>

text \<open>
  The worker: its blob store and provider; \<open>serde_json::from_slice\<close>, \<open>Uuid::parse_str\<close>,
  \<open>DocumentId::parse\<close> with its text, the check of owner spellings, the prompts, the rendering of JSON,
  and the encodings and decodings of the contract types.
\<close>

record family_worker =
  fw_store :: blob_store
  fw_identity :: provider_identity
  fw_generate :: "generation_request \<Rightarrow> world \<Rightarrow> (nat \<times> provider_reply) \<times> world"
  fw_parse :: "bytes \<Rightarrow> json option"
  fw_uuid :: "string \<Rightarrow> uuid option"
  fw_document :: "string \<Rightarrow> string option"
  fw_owner :: "string \<Rightarrow> bool"
  fw_texts :: family_texts
  fw_to_text :: "json \<Rightarrow> string"
  fw_social_bytes :: "social_snapshot \<Rightarrow> bytes option"
  fw_conversation_bytes :: "ai_conversation \<Rightarrow> bytes option"
  fw_project_bytes :: "ai_project \<Rightarrow> bytes option"
  fw_request_bytes :: "repository_request \<Rightarrow> bytes option"
  fw_decode_social :: "json \<Rightarrow> social_snapshot option"
  fw_decode_conversation :: "json \<Rightarrow> archive_conversation_source option"
  fw_decode_project :: "json \<Rightarrow> archive_project_source option"

definition snapshot_source ::
  "family_worker \<Rightarrow> string \<Rightarrow> string \<Rightarrow> string \<Rightarrow> bytes option \<Rightarrow> string \<Rightarrow> uuid family_exec" where
  "snapshot_source fw tn source_id digest encoding archive =
     exec_bind (or_contract encoding) (\<lambda>content.
     exec_bind (exec_map_err FpBlob (store_raw (fw_store fw) content)) (\<lambda>blob.
     exec_bind (or_source (fw_document fw source_id)) (\<lambda>document.
     exec_map_err FpPersistence (register_snapshot_source (fw_owner fw)
       \<lparr>sf_tenant = tn, sf_owner = ''ratatoskr-knowledge'', sf_archive = archive, sf_document = document,
        sf_digest = digest, sf_blob = blob\<rparr> (fw_store fw) content))))"

definition register_family_source ::
  "family_worker \<Rightarrow> string \<Rightarrow> string \<Rightarrow> string \<Rightarrow> string \<Rightarrow> string \<Rightarrow> blob_ref \<Rightarrow> uuid family_exec" where
  "register_family_source fw tn source_id digest owner archive blob =
     exec_bind (or_source (fw_document fw source_id)) (\<lambda>document.
     exec_map_err FpPersistence (register_source (fw_owner fw)
       \<lparr>sf_tenant = tn, sf_owner = owner, sf_archive = archive, sf_document = document,
        sf_digest = digest, sf_blob = blob\<rparr>))"

definition external_source :: "family_worker \<Rightarrow> string \<Rightarrow> string \<Rightarrow> string \<Rightarrow> blob_ref \<Rightarrow> uuid family_exec" where
  "external_source fw tn source_id digest blob =
     register_family_source fw tn source_id digest (br_owner blob) [] blob"

definition create_family_run :: "uuid \<Rightarrow> string \<Rightarrow> string \<Rightarrow> string \<Rightarrow> uuid family_exec" where
  "create_family_run source contract prompt builder =
     exec_map_err FpPersistence (create_run \<lparr>an_source = source, an_contract = contract, an_prompt = prompt,
       an_context = builder, an_policy = ''family_default_v1''\<rparr>)"

text \<open>The request of the source's evidence, driven to an accepted answer.\<close>

definition family_value ::
  "family_worker \<Rightarrow> uuid \<Rightarrow> family_source \<Rightarrow> string \<Rightarrow> search_text \<Rightarrow> json family_exec" where
  "family_value fw run src evidence texts =
     exec_bind (or_contract (family_request (fw_texts fw) (source_family src) evidence)) (\<lambda>request.
     exec_map_err of_drive_failure (execute_value (fw_parse fw) (fw_uuid fw) (fw_store fw) (fw_identity fw)
       (fw_generate fw) run request texts (family_check (fw_texts fw) src)))"

section \<open>Social sources\<close>

definition social_texts :: "social_snapshot \<Rightarrow> search_text" where
  "social_texts s = \<lparr>st_title = ss_platform s @ '' post'', st_lead = or_empty (ss_text s), st_body = or_empty (ss_text s)\<rparr>"

definition execute_social :: "family_worker \<Rightarrow> social_snapshot \<Rightarrow> social_analysis family_exec" where
  "execute_social fw s =
     exec_bind (snapshot_source fw (ss_owner s) (ss_source s) (ss_digest s) (fw_social_bytes fw s) []) (\<lambda>source.
     exec_bind (create_family_run source ''social_analysis_v1'' ''social_prompt_v1'' ''social_context_v1'') (\<lambda>run.
     exec_bind (family_value fw run (SourceSocial s) (social_context s) (social_texts s)) (\<lambda>v.
     or_contract (decode_social v))))"

definition execute_social_event :: "family_worker \<Rightarrow> uuid \<Rightarrow> social_analysis family_exec" where
  "execute_social_event fw event =
     exec_bind (exec_map_err FpInbox (stored_snapshot (fw_decode_social fw) event ''social'')) (execute_social fw)"

section \<open>Archive conversations and projects\<close>

definition conversation_texts :: "ai_conversation \<Rightarrow> search_text" where
  "conversation_texts c = (let (lead, body) = archive_search_text c in
     \<lparr>st_title = (case cv_title c of None \<Rightarrow> ''AI conversation'' | Some t \<Rightarrow> t), st_lead = lead, st_body = body\<rparr>)"

definition execute_archive_with_provenance ::
  "family_worker \<Rightarrow> ai_conversation \<Rightarrow> string \<Rightarrow> archive_analysis family_exec" where
  "execute_archive_with_provenance fw c archive =
     exec_bind (snapshot_source fw (cv_owner c) (cv_id c) (cv_digest c) (fw_conversation_bytes fw c) archive) (\<lambda>source.
     exec_bind (create_family_run source ''archive_analysis_v1'' ''archive_prompt_v1'' ''archive_context_v1'') (\<lambda>run.
     exec_bind (family_value fw run (SourceArchive c) (archive_context c) (conversation_texts c)) (\<lambda>v.
     or_contract (decode_archive v))))"

definition execute_archive :: "family_worker \<Rightarrow> ai_conversation \<Rightarrow> archive_analysis family_exec" where
  "execute_archive fw c = execute_archive_with_provenance fw c []"

record archive_completion =
  ac_archive :: string
  ac_owner :: string
  ac_conversation :: string
  ac_digest :: string
  ac_completed :: instant

definition execute_archive_event :: "family_worker \<Rightarrow> uuid \<Rightarrow> (archive_analysis \<times> archive_completion) family_exec" where
  "execute_archive_event fw event =
     exec_bind (exec_map_err FpInbox (stored_snapshot (fw_decode_conversation fw) event ''ai_archive'')) (\<lambda>source.
     let c = acs_conversation source; archive = pv_archive (acs_provenance source) in
     exec_bind (execute_archive_with_provenance fw c archive) (\<lambda>analysis.
     exec_bind get_now (\<lambda>at.
     exec_return (analysis, \<lparr>ac_archive = archive, ac_owner = cv_owner c, ac_conversation = cv_id c,
       ac_digest = cv_digest c, ac_completed = at\<rparr>))))"

definition project_texts :: "ai_project \<Rightarrow> search_text" where
  "project_texts p = \<lparr>st_title = pr_title p, st_lead = or_empty (pr_description p),
     st_body = (case pr_instructions p of None \<Rightarrow> or_empty (pr_description p) | Some t \<Rightarrow> t)\<rparr>"

definition execute_archive_project_event :: "family_worker \<Rightarrow> uuid \<Rightarrow> archive_project_analysis family_exec" where
  "execute_archive_project_event fw event =
     exec_bind (exec_map_err FpInbox (stored_snapshot (fw_decode_project fw) event ''ai_archive'')) (\<lambda>source.
     let p = aps_project source; provenance = aps_provenance source in
     exec_bind (snapshot_source fw (pv_owner provenance) (pr_id p) (aps_digest source) (fw_project_bytes fw p)
       (pv_archive provenance)) (\<lambda>source_ref.
     exec_bind (create_family_run source_ref ''archive_project_analysis_v1'' ''archive_project_prompt_v1''
       ''archive_project_context_v1'') (\<lambda>run.
     exec_bind (family_value fw run (SourceProject p) (archive_project_context p) (project_texts p)) (\<lambda>v.
     or_contract (decode_grounded v)))))"

section \<open>Notes\<close>

definition note_texts :: "note_revision \<Rightarrow> search_text" where
  "note_texts n = \<lparr>st_title = note_title n, st_lead = note_lead n, st_body = nr_text n\<rparr>"

text \<open>The title of a source's projections follows the latest change: two statements.\<close>

definition retitle_documents :: "uuid \<Rightarrow> string \<Rightarrow> db \<Rightarrow> db" where
  "retitle_documents source title t = t\<lparr>search_documents :=
     update_where (\<lambda>r. sd_source r = source \<and> sd_title r \<noteq> title) (\<lambda>r. r\<lparr>sd_title := title\<rparr>) (search_documents t)\<rparr>"

definition retitle_inputs :: "uuid \<Rightarrow> string \<Rightarrow> db \<Rightarrow> db" where
  "retitle_inputs source title t = t\<lparr>projection_inputs :=
     update_where (\<lambda>r. pi_source r = source \<and> pi_title r \<noteq> title) (\<lambda>r. r\<lparr>pi_title := title\<rparr>) (projection_inputs t)\<rparr>"

definition retitle :: "uuid \<Rightarrow> string \<Rightarrow> unit family_exec" where
  "retitle source title =
     exec_bind (execute (FpPersistence Query) (retitle_documents source title)) (\<lambda>_.
     execute (FpPersistence Query) (retitle_inputs source title))"

definition execute_note :: "family_worker \<Rightarrow> note_revision \<Rightarrow> note_analysis family_exec" where
  "execute_note fw n =
     exec_bind (external_source fw (nr_tenant n) (uuid_text (nr_file n)) (br_digest (nr_blob n)) (nr_blob n)) (\<lambda>source.
     exec_bind (create_family_run source ''note_analysis_v1'' ''note_prompt_v1'' note_context_version) (\<lambda>run.
     exec_bind (family_value fw run (SourceNote (nr_text n)) (note_context (fw_to_text fw) n) (note_texts n)) (\<lambda>v.
     exec_bind (retitle source (note_title n)) (\<lambda>_.
     or_contract (decode_grounded v)))))"

end
