(* ===== verification/Ingest.thy ===== *)
theory Ingest
  imports Family_Pipeline Event_Outbox Redelivery
begin

text \<open>
  The shared part of the ingest worker (\<open>ingest.rs\<close>, \<open>ingest_handlers.rs\<close>): the six families, what a
  handler decides about a delivery and the broker disposition of it, the decoding of an envelope, the
  classes of failures, and the readiness of the worker.
\<close>

section \<open>Families\<close>

datatype ingest_family = Documents | Social | AiArchive | Repository | NotesFiles | NotesVaults

definition ingest_families :: "ingest_family list" where
  "ingest_families = [Documents, Social, AiArchive, Repository, NotesFiles, NotesVaults]"

fun durable :: "ingest_family \<Rightarrow> string" where
  "durable Documents = ''ratatoskr_knowledge_documents''"
| "durable Social = ''ratatoskr_knowledge_social_sources''"
| "durable AiArchive = ''ratatoskr_knowledge_ai_archive''"
| "durable Repository = ''ratatoskr_knowledge_repository_requests''"
| "durable NotesFiles = ''ratatoskr_knowledge_notes_files''"
| "durable NotesVaults = ''ratatoskr_knowledge_notes_vaults''"

fun filter_subject :: "ingest_family \<Rightarrow> string" where
  "filter_subject Documents = ''evt.content.document.extracted.v1''"
| "filter_subject Social = ''evt.social.source.>''"
| "filter_subject AiArchive = ''evt.ai_archive.>''"
| "filter_subject Repository = ''evt.knowledge.repository_analysis.requested.v1''"
| "filter_subject NotesFiles = ''evt.notes.file.changed.v1''"
| "filter_subject NotesVaults = ''evt.notes.vault.>''"

fun family_label :: "ingest_family \<Rightarrow> string" where
  "family_label Documents = ''documents''"
| "family_label Social = ''social''"
| "family_label AiArchive = ''ai_archive''"
| "family_label Repository = ''repository''"
| "family_label NotesFiles = ''notes_files''"
| "family_label NotesVaults = ''notes_vaults''"

fun family_index :: "ingest_family \<Rightarrow> nat" where
  "family_index Documents = 0"
| "family_index Social = 1"
| "family_index AiArchive = 2"
| "family_index Repository = 3"
| "family_index NotesFiles = 4"
| "family_index NotesVaults = 5"

section \<open>Outcomes\<close>

datatype outcome = Done | Reject string | Retry string

definition operator_action :: string where
  "operator_action = ''provider_operator_action''"

datatype ack_kind = Ack | Term | Nak "nat option"

fun ack_kind_of :: "outcome \<Rightarrow> int \<Rightarrow> redelivery_schedule \<Rightarrow> ack_kind" where
  "ack_kind_of Done delivered schedule = Ack"
| "ack_kind_of (Reject _) delivered schedule = Term"
| "ack_kind_of (Retry _) delivered schedule = Nak (Some (redelivery_delay schedule delivered))"

text \<open>\<open>disposition\<close>: a redelivery is also counted; the log lines are left out.\<close>

definition ingest_disposition :: "redelivery_schedule \<Rightarrow> outcome \<Rightarrow> int \<Rightarrow> nat \<Rightarrow> ack_kind \<times> nat" where
  "ingest_disposition schedule out delivered redeliveries =
     (ack_kind_of out delivered schedule, case out of Retry _ \<Rightarrow> redeliveries + 1 | _ \<Rightarrow> redeliveries)"

text \<open>
  A handler ends in an outcome; an early return is the error of the monad.
\<close>

type_synonym handler = "(world, outcome, outcome) exec"

definition handled :: "handler \<Rightarrow> world \<Rightarrow> outcome \<times> world" where
  "handled h w = (case h w of (Inl out, w') \<Rightarrow> (out, w') | (Inr out, w') \<Rightarrow> (out, w'))"

section \<open>Envelopes\<close>

record event_envelope =
  env_event :: uuid
  env_type :: string
  env_producer :: string
  env_tenant :: "string option"
  env_correlation :: string
  env_occurred :: instant
  env_payload :: json

text \<open>\<open>from_json\<close> stands for \<open>EventEnvelope::from_json\<close>.\<close>

definition decode_delivery ::
  "(bytes \<Rightarrow> event_envelope option) \<Rightarrow> bytes \<Rightarrow> string list \<Rightarrow> outcome + (event_envelope \<times> string)" where
  "decode_delivery from_json message producers =
     (case from_json message of
        None \<Rightarrow> Inl (Reject ''undecodable'')
      | Some env \<Rightarrow>
          if env_producer env \<notin> set producers then Inl (Reject ''producer'')
          else case env_tenant env of None \<Rightarrow> Inl (Reject ''tenant'') | Some tn \<Rightarrow> Inr (env, tn))"

definition cause_of :: "event_envelope \<Rightarrow> event_cause" where
  "cause_of env = \<lparr>ca_event = env_event env, ca_correlation = env_correlation env\<rparr>"

definition or_reject :: "string \<Rightarrow> 'a option \<Rightarrow> (world, outcome, 'a) exec" where
  "or_reject reason x = (case x of None \<Rightarrow> exec_fail (Reject reason) | Some y \<Rightarrow> exec_return y)"

section \<open>Failures\<close>

definition queue_failure :: "event_outbox_error \<Rightarrow> string \<Rightarrow> outcome" where
  "queue_failure e retry_class =
     (if event_outbox_error_is_permanent e then Reject ''unqueueable'' else Retry retry_class)"

definition inbox_failure :: "source_inbox_error \<Rightarrow> string \<Rightarrow> outcome" where
  "inbox_failure e retry_class =
     (if source_inbox_error_is_permanent e then Reject ''inbox_invalid'' else Retry retry_class)"

definition analysis_failure :: "family_pipeline_error \<Rightarrow> string \<Rightarrow> outcome" where
  "analysis_failure e retry_class =
     (if family_error_is_permanent e then Reject ''unanalysable''
      else if family_error_needs_operator e then Retry operator_action
      else Retry retry_class)"

text \<open>The erasure queue is drained; \<open>reason\<close> is the class of a redelivery.\<close>

definition erase_blobs :: "string \<Rightarrow> handler" where
  "erase_blobs reason =
     exec_bind (exec_map_err (\<lambda>e. if deletion_error_is_permanent e then Reject ''unprocessable'' else Retry reason)
       collect_pending_blobs) (\<lambda>_. exec_return Done)"

section \<open>Readiness\<close>

text \<open>\<open>PublishHealth\<close>: how long the completion publisher has been failing; instants are natural numbers.\<close>

definition publish_record :: "bool \<Rightarrow> nat \<Rightarrow> nat option \<Rightarrow> nat option" where
  "publish_record succeeded at failing_since =
     (if succeeded then None else if failing_since = None then Some at else failing_since)"

definition publish_healthy :: "nat option \<Rightarrow> nat \<Rightarrow> nat \<Rightarrow> bool" where
  "publish_healthy failing_since now_at grace =
     (case failing_since of None \<Rightarrow> True | Some since \<Rightarrow> now_at - since \<le> grace)"

definition publish_readiness_grace :: nat where
  "publish_readiness_grace = 30 * 10 ^ 9"

record ingest_health =
  ih_families :: "bool list"
  ih_publisher :: bool
  ih_failed :: bool
  ih_ready :: bool

definition ingest_health_new :: ingest_health where
  "ingest_health_new = \<lparr>ih_families = replicate 6 False, ih_publisher = True, ih_failed = False, ih_ready = False\<rparr>"

definition refresh_health :: "ingest_health \<Rightarrow> ingest_health" where
  "refresh_health h = h\<lparr>ih_ready := \<not> ih_failed h \<and> ih_publisher h \<and> list_all (\<lambda>b. b) (ih_families h)\<rparr>"

definition set_family_ready :: "ingest_family \<Rightarrow> bool \<Rightarrow> ingest_health \<Rightarrow> ingest_health" where
  "set_family_ready f ready h = refresh_health (h\<lparr>ih_families := (ih_families h)[family_index f := ready]\<rparr>)"

definition set_publisher_healthy :: "bool \<Rightarrow> ingest_health \<Rightarrow> ingest_health" where
  "set_publisher_healthy healthy h = refresh_health (h\<lparr>ih_publisher := healthy\<rparr>)"

definition fail_health :: "ingest_health \<Rightarrow> ingest_health" where
  "fail_health h = refresh_health (h\<lparr>ih_failed := True\<rparr>)"

text \<open>One turn of \<open>publish_loop\<close> after its publication succeeded or failed at an instant.\<close>

definition publish_turn :: "bool \<Rightarrow> nat \<Rightarrow> nat option \<times> ingest_health \<Rightarrow> nat option \<times> ingest_health" where
  "publish_turn succeeded at = (\<lambda>(since, h).
     let since' = publish_record succeeded at since in
     (since', set_publisher_healthy (publish_healthy since' at publish_readiness_grace) h))"

end
