(* ===== verification/Ingest_Notes.thy ===== *)
theory Ingest_Notes
  imports Ingest Notes_Inbox
begin

text \<open>
  The handlers of the two notes durables (\<open>ingest_notes.rs\<close>) and the reader of the notes blob root
  (\<open>note_analysis.rs\<close>). The files of that root belong to another service: opening one is a parameter
  that runs in a world, so anything may happen meanwhile.
\<close>

section \<open>Reading a note\<close>

datatype note_blob_error = NoteUnavailable | NoteTooLarge | NoteNotUtf8 | NoteTooLong

fun note_blob_error_is_permanent :: "note_blob_error \<Rightarrow> bool" where
  "note_blob_error_is_permanent e = (e \<in> {NoteTooLarge, NoteNotUtf8, NoteTooLong})"

text \<open>
  The configured root and the ceiling of a blob, the digest, the test of a reference's algorithm, UTF-8
  decoding, and opening a file by its path and reading at most so many bytes.
\<close>

record note_reader =
  nt_root :: "string option"
  nt_ceiling :: nat
  nt_sha :: "bytes \<Rightarrow> string"
  nt_sha256 :: "blob_ref \<Rightarrow> bool"
  nt_utf8 :: "bytes \<Rightarrow> string option"
  nt_open :: "string list \<Rightarrow> nat \<Rightarrow> world \<Rightarrow> bytes option \<times> world"

definition open_note :: "note_reader \<Rightarrow> string list \<Rightarrow> nat \<Rightarrow> (world, note_blob_error, bytes) exec" where
  "open_note rd path limit = (\<lambda>w. case nt_open rd path limit w of
     (None, w') \<Rightarrow> (Inl NoteUnavailable, w') | (Some b, w') \<Rightarrow> (Inr b, w'))"

definition read_note_blob :: "note_reader \<Rightarrow> string \<Rightarrow> blob_ref \<Rightarrow> (world, note_blob_error, bytes) exec" where
  "read_note_blob rd root blob =
     (if br_length blob > nt_ceiling rd then exec_fail NoteTooLarge
      else if br_owner blob \<noteq> notes_owner \<or> \<not> nt_sha256 rd blob then exec_fail NoteUnavailable
      else if length (br_digest blob) < 2 then exec_fail NoteUnavailable
      else exec_bind (open_note rd [root, ''sha256'', take 2 (br_digest blob), drop 2 (br_digest blob)]
             (min (br_length blob + 1) (2 ^ 64 - 1))) (\<lambda>b.
        if length b \<noteq> br_length blob \<or> nt_sha rd b \<noteq> br_digest blob then exec_fail NoteUnavailable
        else exec_return b))"

definition read_note_text :: "note_reader \<Rightarrow> string \<Rightarrow> blob_ref \<Rightarrow> (world, note_blob_error, string) exec" where
  "read_note_text rd root blob =
     exec_bind (read_note_blob rd root blob) (\<lambda>b.
     case nt_utf8 rd b of
       None \<Rightarrow> exec_fail NoteNotUtf8
     | Some t \<Rightarrow> if length t > note_context_characters then exec_fail NoteTooLong else exec_return t)"

section \<open>The facts\<close>

datatype file_change_kind = FileCreated | FileUpdated | FileRenamed | FileDeleted | FileOther

record file_changed =
  fc_connection :: uuid
  fc_file :: uuid
  fc_sequence :: "64 word"
  fc_kind :: file_change_kind
  fc_media :: string
  fc_path :: string
  fc_blob :: "blob_ref option"

text \<open>What the contract crates decode, each with the check of the envelope's type.\<close>

record notes_contracts =
  nk_envelope :: "bytes \<Rightarrow> event_envelope option"
  nk_changed :: "event_envelope \<Rightarrow> file_changed option"
  nk_connected :: "event_envelope \<Rightarrow> unit option"
  nk_disconnected :: "event_envelope \<Rightarrow> uuid option"

record notes_worker =
  nw_family :: family_worker
  nw_reader :: note_reader
  nw_contracts :: notes_contracts

definition notes_producers :: "string list" where
  "notes_producers = [''ratatoskr-notes'']"

definition blob_unavailable :: string where
  "blob_unavailable = ''notes_blob''"

definition removal :: string where
  "removal = ''notes_removal''"

definition erase_removed_blobs :: handler where
  "erase_removed_blobs = erase_blobs removal"

definition on_inbox :: "string \<Rightarrow> (world, source_inbox_error, 'a) exec \<Rightarrow> (world, outcome, 'a) exec" where
  "on_inbox reason m = exec_map_err (\<lambda>e. inbox_failure e reason) m"

section \<open>File changes\<close>

definition guard_of :: "string \<Rightarrow> file_changed \<Rightarrow> note_change" where
  "guard_of tn change =
     \<lparr>nc_tenant = tn, nc_connection = fc_connection change, nc_file = fc_file change, nc_sequence = fc_sequence change\<rparr>"

definition reject_revision :: "note_change \<Rightarrow> string \<Rightarrow> handler" where
  "reject_revision guard reason =
     exec_bind (on_inbox removal (remove_derived guard)) (\<lambda>_.
     exec_bind erase_removed_blobs (\<lambda>out. exec_return (if out = Done then Reject reason else out)))"

definition analyse_text :: "notes_worker \<Rightarrow> string \<Rightarrow> file_changed \<Rightarrow> blob_ref \<Rightarrow> string \<Rightarrow> handler" where
  "analyse_text nw tn change blob text =
     exec_bind (exec_map_err (\<lambda>e. analysis_failure e ''note_analysis'') (execute_note (nw_family nw)
       \<lparr>nr_tenant = tn, nr_file = fc_file change, nr_path = fc_path change, nr_blob = blob, nr_text = text\<rparr>))
     (\<lambda>_. exec_return Done)"

definition analyse :: "notes_worker \<Rightarrow> string \<Rightarrow> file_changed \<Rightarrow> note_change \<Rightarrow> handler" where
  "analyse nw tn change guard =
     (case fc_blob change of
        None \<Rightarrow> exec_return (Reject ''payload'')
      | Some blob \<Rightarrow>
          (case nt_root (nw_reader nw) of
             None \<Rightarrow> exec_return (Retry blob_unavailable)
           | Some root \<Rightarrow> (\<lambda>w.
               case read_note_text (nw_reader nw) root blob w of
                 (Inr text, w') \<Rightarrow> analyse_text nw tn change blob text w'
               | (Inl NoteTooLarge, w') \<Rightarrow> reject_revision guard ''note_too_large'' w'
               | (Inl NoteNotUtf8, w') \<Rightarrow> reject_revision guard ''note_encoding'' w'
               | (Inl NoteTooLong, w') \<Rightarrow> reject_revision guard ''note_too_long'' w'
               | (Inl NoteUnavailable, w') \<Rightarrow> exec_return (Retry blob_unavailable) w')))"

text \<open>An analysis that ends in an error is its outcome: it is compared like any other.\<close>

definition settled_outcome :: "handler \<Rightarrow> handler" where
  "settled_outcome h = (\<lambda>w. case handled h w of (out, w') \<Rightarrow> (Inr out, w'))"

definition analyse_current :: "notes_worker \<Rightarrow> string \<Rightarrow> file_changed \<Rightarrow> note_change \<Rightarrow> handler" where
  "analyse_current nw tn change guard =
     exec_bind (settled_outcome (analyse nw tn change guard)) (\<lambda>out.
     if out \<noteq> Done then exec_return out
     else exec_bind (on_inbox removal (settle_after_analysis guard)) (\<lambda>admission.
       case admission of NoteCurrent \<Rightarrow> exec_return Done | NoteStale \<Rightarrow> erase_removed_blobs))"

definition change_file :: "notes_worker \<Rightarrow> string \<Rightarrow> file_changed \<Rightarrow> note_change \<Rightarrow> handler" where
  "change_file nw tn change guard =
     exec_bind (on_inbox ''notes_inbox'' (accept_change guard)) (\<lambda>admission.
     case admission of
       NoteStale \<Rightarrow> erase_removed_blobs
     | NoteCurrent \<Rightarrow>
         if \<not> is_markdown (fc_media change)
         then exec_bind (on_inbox removal (remove_derived guard)) (\<lambda>_. erase_removed_blobs)
         else analyse_current nw tn change guard)"

definition apply_file_change :: "notes_worker \<Rightarrow> string \<Rightarrow> file_changed \<Rightarrow> handler" where
  "apply_file_change nw tn change =
     (let guard = guard_of tn change in
      case fc_kind change of
        FileDeleted \<Rightarrow> exec_bind (on_inbox removal (accept_deletion guard)) (\<lambda>_. erase_removed_blobs)
      | FileOther \<Rightarrow> exec_return (Reject ''change_kind'')
      | _ \<Rightarrow> change_file nw tn change guard)"

definition file_changed_type :: string where
  "file_changed_type = ''notes.file.changed.v1''"

definition notes_files_handler :: "notes_worker \<Rightarrow> bytes \<Rightarrow> handler" where
  "notes_files_handler nw message =
     exec_bind (exec_result (decode_delivery (nk_envelope (nw_contracts nw)) message notes_producers)) (\<lambda>(env, tn).
     if env_type env \<noteq> file_changed_type then exec_return (Reject ''type'')
     else exec_bind (or_reject ''payload'' (nk_changed (nw_contracts nw) env)) (apply_file_change nw tn))"

section \<open>Vaults\<close>

definition vault_connected_type :: string where
  "vault_connected_type = ''notes.vault.connected.v1''"

definition vault_disconnected_type :: string where
  "vault_disconnected_type = ''notes.vault.disconnected.v1''"

definition disconnected :: "notes_worker \<Rightarrow> event_envelope \<Rightarrow> string \<Rightarrow> handler" where
  "disconnected nw env tn =
     exec_bind (or_reject ''payload'' (nk_disconnected (nw_contracts nw) env)) (\<lambda>connection.
     exec_bind (on_inbox removal (accept_disconnection tn connection)) (\<lambda>_. erase_removed_blobs))"

definition notes_vaults_handler :: "notes_worker \<Rightarrow> bytes \<Rightarrow> handler" where
  "notes_vaults_handler nw message =
     exec_bind (exec_result (decode_delivery (nk_envelope (nw_contracts nw)) message notes_producers)) (\<lambda>(env, tn).
     if env_type env = vault_connected_type
     then exec_bind (or_reject ''payload'' (nk_connected (nw_contracts nw) env)) (\<lambda>_. exec_return Done)
     else if env_type env = vault_disconnected_type then disconnected nw env tn
     else exec_return (Reject ''type''))"

end
