(* ===== verification/Notes_Steps.thy ===== *)
theory Notes_Steps
  imports Notes_Correct Ingest_Notes Pipeline_Correct
begin

text \<open>
  The transactions of the notes inbox and the analysis of a note, over the invariant of the notes.
\<close>

section \<open>Transactions of the inbox\<close>

lemma transact_inv:
  assumes run: "transact e m w = (r, w')" and grows: "fresh_grows m" and inv: "notes_inv conn P {} w"
    and body: "\<And>x w1. m (tick w) = (Inr x, w1) \<Longrightarrow> notes_inv conn P {} w1 \<and> Q x w1"
    and cong: "\<And>x w1 w2. Q x w1 \<Longrightarrow> tables w2 = tables w1 \<Longrightarrow> fresh w1 \<le> fresh w2 \<Longrightarrow> Q x w2"
  shows "notes_inv conn P {} w' \<and> (\<forall>x. r = Inr x \<longrightarrow> Q x w')"
  using run
proof (cases rule: transact_cases)
  case 1
  have "fresh w \<le> fresh w'" by (rule fresh_growsD [OF fresh_grows_transact [OF grows] run])
  then show ?thesis using 1 notes_inv_cong inv by simp
next
  case (2 x w1)
  then show ?thesis using body [OF 2(1)] cong [of x w1 w'] notes_inv_cong [of w' w1] by auto
qed

lemma notes_inv_tick: "notes_inv conn P X w \<Longrightarrow> notes_inv conn P X (tick w)"
  by (rule notes_inv_cong) simp_all

lemma accept_change_inv:
  assumes inv: "notes_inv conn P {} w" and conn: "nc_connection c = conn (nc_tenant c) (nc_file c)"
    and run: "accept_change c w = (r, w')"
  shows "notes_inv conn P {} w' \<and> (\<forall>adm. r = Inr adm \<longrightarrow> notes_inv conn (P - {change_key c}) {} w' \<and>
    (adm = NoteCurrent \<longrightarrow> claimed conn (tables w') (change_key c)))"
proof (rule transact_inv [OF run [unfolded accept_change_def] fresh_grows_claim(2) inv])
  fix adm w1 assume m: "claim_note c False (tick w) = (Inr adm, w1)"
  note * = claim_note_inv [OF notes_inv_tick [OF inv] conn m]
  then have "notes_inv conn (P - {change_key c}) {} w1 \<and> (adm = NoteCurrent \<longrightarrow> claimed conn (tables w1) (change_key c))"
    by (cases adm) auto
  then show "notes_inv conn P {} w1 \<and> notes_inv conn (P - {change_key c}) {} w1 \<and>
      (adm = NoteCurrent \<longrightarrow> claimed conn (tables w1) (change_key c))"
    using notes_inv_mono by blast
qed (use notes_inv_cong in auto)

lemma accept_deletion_inv:
  assumes inv: "notes_inv conn P {} w" and conn: "nc_connection c = conn (nc_tenant c) (nc_file c)"
    and run: "accept_deletion c w = (r, w')"
  shows "notes_inv conn P {} w' \<and> (\<forall>adm. r = Inr adm \<longrightarrow> notes_inv conn (P - {change_key c}) {} w')"
proof (rule transact_inv [OF run [unfolded accept_deletion_def] _ inv])
  show "fresh_grows (exec_bind (claim_note c True) (\<lambda>admission.
      exec_bind (if admission = NoteCurrent then remove_file (nc_tenant c) (nc_file c) else exec_return ()) (\<lambda>_.
      exec_return admission)))" by (intro fresh_rules)
  fix adm w1
  assume "exec_bind (claim_note c True) (\<lambda>admission.
      exec_bind (if admission = NoteCurrent then remove_file (nc_tenant c) (nc_file c) else exec_return ()) (\<lambda>_.
      exec_return admission)) (tick w) = (Inr adm, w1)"
  then obtain v u where m: "claim_note c True (tick w) = (Inr adm, v)"
    and rest: "(if adm = NoteCurrent then remove_file (nc_tenant c) (nc_file c) else exec_return ()) v = (Inr u, w1)"
    by (auto simp: exec_return_Inr elim!: exec_bind_InrE)
  note * = claim_note_inv [OF notes_inv_tick [OF inv] conn m]
  have "notes_inv conn (P - {change_key c}) {} w1"
  proof (cases adm)
    case NoteStale
    then show ?thesis using * rest by (simp add: exec_return_Inr)
  next
    case NoteCurrent
    then have "notes_inv conn (P - {change_key c}) {change_key c} v" using * by simp
    from remove_file_inv [OF this] show ?thesis using rest NoteCurrent by force
  qed
  then show "notes_inv conn P {} w1 \<and> notes_inv conn (P - {change_key c}) {} w1" using notes_inv_mono by blast
qed (use notes_inv_cong in auto)

lemma remove_derived_inv:
  assumes inv: "notes_inv conn P {} w" and run: "remove_derived c w = (r, w')"
  shows "notes_inv conn P {} w' \<and> (\<forall>u. r = Inr u \<longrightarrow> notes_inv conn (P - {change_key c}) {} w')"
proof (rule transact_inv [OF run [unfolded remove_derived_def] _ inv])
  show "fresh_grows (exec_bind (lock_change c) (\<lambda>_. remove_file (nc_tenant c) (nc_file c)))" by (intro fresh_rules)
  fix u w1 assume "exec_bind (lock_change c) (\<lambda>_. remove_file (nc_tenant c) (nc_file c)) (tick w) = (Inr u, w1)"
  then obtain a v where l: "lock_change c (tick w) = (Inr a, v)" and m: "remove_file (nc_tenant c) (nc_file c) v = (Inr u, w1)"
    by (rule exec_bind_InrE)
  have "notes_inv conn P {} v"
    using notes_inv_cong [OF lock_Inr(2) [OF l] fresh_growsD [OF fresh_grows_lock(2) l] notes_inv_tick [OF inv]] .
  from remove_file_inv [OF this m] show "notes_inv conn P {} w1 \<and> notes_inv conn (P - {change_key c}) {} w1"
    using notes_inv_mono by auto
qed (use notes_inv_cong in auto)

lemma settle_inv:
  assumes inv: "notes_inv conn (insert (change_key c) P) {} w" and conn: "nc_connection c = conn (nc_tenant c) (nc_file c)"
    and run: "settle_after_analysis c w = (r, w')"
  shows "notes_inv conn (insert (change_key c) P) {} w' \<and> (\<forall>adm. r = Inr adm \<longrightarrow> notes_inv conn P {} w')"
proof (rule transact_inv [OF run [unfolded settle_after_analysis_def] _ inv])
  let ?body = "exec_bind (lock_change c) (\<lambda>_. exec_bind (connection_removed c) (\<lambda>removed.
      if removed then exec_bind (remove_file (nc_tenant c) (nc_file c)) (\<lambda>_. exec_return NoteStale)
      else exec_return NoteCurrent))"
  show "fresh_grows ?body" by (intro fresh_rules)
  fix adm w1 assume "?body (tick w) = (Inr adm, w1)"
  then obtain a v removed v2 where 1: "lock_change c (tick w) = (Inr a, v)" and 2: "connection_removed c v = (Inr removed, v2)"
    and 3: "(if removed then exec_bind (remove_file (nc_tenant c) (nc_file c)) (\<lambda>_. exec_return NoteStale)
      else exec_return NoteCurrent) v2 = (Inr adm, w1)"
    by (elim exec_bind_InrE) (rule that; assumption)
  have t: "tables v2 = tables (tick w)" "removed = cut_off conn (tables v2) (change_key c)"
    using lock_Inr(2) [OF 1] lock_Inr(3) [OF 2] conn by (simp_all add: cut_off_def)
  have "fresh (tick w) \<le> fresh v2"
    using fresh_growsD [OF fresh_grows_lock(2) 1] fresh_growsD [OF fresh_grows_lock(3) 2] by simp
  then have inv2: "notes_inv conn (insert (change_key c) P) {} v2" using notes_inv_cong [OF t(1)] notes_inv_tick [OF inv] by blast
  have "notes_inv conn P {} w1"
  proof (cases removed)
    case True
    then obtain u where "remove_file (nc_tenant c) (nc_file c) v2 = (Inr u, w1)" using 3 by (auto simp: exec_return_Inr elim!: exec_bind_InrE)
    from remove_file_inv [OF inv2 this] show ?thesis by (blast intro: notes_inv_mono)
  next
    case False
    then have w1: "w1 = v2" using 3 by (simp add: exec_return_Inr)
    have "guarded_notes conn P {} (tables v2)"
    proof (rule coveredI)
      fix source k assume "(source, k) \<in> note_documents (tables v2)" "k \<notin> {}" "\<not> live_note (tables v2) k"
      then show "k \<in> P \<and> cut_off conn (tables v2) k"
        using coveredD [OF notes_invD(4) [OF inv2]] False t(2) by blast
    qed
    then show ?thesis using inv2 w1 by (simp add: notes_inv_def)
  qed
  then show "notes_inv conn (insert (change_key c) P) {} w1 \<and> notes_inv conn P {} w1" using notes_inv_mono by blast
qed (use notes_inv_cong in auto)

section \<open>The runs of a note\<close>

text \<open>
  A run whose source is a revision of the file: stored rows keep their identifiers. An identifier is a
  128-bit number.
\<close>

definition points :: "uuid \<Rightarrow> string \<times> uuid \<Rightarrow> world \<Rightarrow> bool" where
  "points run k w = (snd k < 2 ^ 128 \<and> (\<exists>source. run < fresh w \<and> source < fresh w \<and>
     (\<forall>p \<in> run_sources (tables w). fst p = run \<longrightarrow> snd p = source) \<and>
     (\<forall>s \<in> set (source_refs (tables w)). sr_id s = source \<longrightarrow>
        sr_tenant s = fst k \<and> sr_owner s = notes_owner \<and> sr_document s = uuid_text (snd k))))"

lemma points_later:
  assumes "points run k w" and "later w w'"
  shows "points run k w'"
proof -
  obtain source where "snd k < 2 ^ 128" "run < fresh w" "source < fresh w" "\<forall>p \<in> run_sources (tables w). fst p = run \<longrightarrow> snd p = source"
    "\<forall>s \<in> set (source_refs (tables w)). sr_id s = source \<longrightarrow>
        sr_tenant s = fst k \<and> sr_owner s = notes_owner \<and> sr_document s = uuid_text (snd k)"
    using assms(1) unfolding points_def by blast
  with assms(2) show ?thesis unfolding points_def later_def by (intro conjI exI [of _ source]) auto
qed

definition note_write :: "(string \<Rightarrow> uuid \<Rightarrow> uuid) \<Rightarrow> uuid \<Rightarrow> string \<times> uuid \<Rightarrow> world \<Rightarrow> world \<Rightarrow> bool" where
  "note_write conn run k w w' = (later w w' \<and> (points run k w \<longrightarrow>
     (\<forall>P. notes_inv conn P {} w \<longrightarrow> claimed conn (tables w) k \<longrightarrow> notes_inv conn (insert k P) {} w' \<and>
        claimed conn (tables w') k)))"

lemma note_writeD:
  assumes "note_write conn run k w w'"
  shows "later w w'"
    and "points run k w \<Longrightarrow> notes_inv conn P {} w \<Longrightarrow> claimed conn (tables w) k \<Longrightarrow>
      notes_inv conn (insert k P) {} w' \<and> claimed conn (tables w') k"
  using assms unfolding note_write_def by blast+

lemma note_step_write:
  assumes "note_step conn w w'"
  shows "note_write conn run k w w'"
  unfolding note_write_def
proof (intro conjI impI allI)
  show "later w w'" by (rule note_stepD(1) [OF assms])
  fix P assume inv: "notes_inv conn P {} w" and c: "claimed conn (tables w) k"
  show "notes_inv conn (insert k P) {} w'" by (rule notes_inv_mono [OF note_stepD(2) [OF assms inv]]) auto
  show "claimed conn (tables w') k" by (rule note_stepD(3) [OF assms inv c])
qed

lemma note_step_write_trans:
  assumes "note_step conn w w1" and "note_write conn run k w1 w'"
  shows "note_write conn run k w w'"
  unfolding note_write_def
proof (rule conjI)
  note l = note_stepD(1) [OF assms(1)]
  show "later w w'" by (rule later_trans [OF l note_writeD(1) [OF assms(2)]])
  show "points run k w \<longrightarrow> (\<forall>P. notes_inv conn P {} w \<longrightarrow> claimed conn (tables w) k \<longrightarrow>
      notes_inv conn (insert k P) {} w' \<and> claimed conn (tables w') k)"
    using note_stepD(2,3) [OF assms(1)] note_writeD(2) [OF assms(2)] points_later [OF _ l] by blast
qed

lemma note_write_step_trans:
  assumes "note_write conn run k w w1" and "note_step conn w1 w'"
  shows "note_write conn run k w w'"
  unfolding note_write_def
proof (rule conjI)
  show "later w w'" by (rule later_trans [OF note_writeD(1) [OF assms(1)] note_stepD(1) [OF assms(2)]])
  show "points run k w \<longrightarrow> (\<forall>P. notes_inv conn P {} w \<longrightarrow> claimed conn (tables w) k \<longrightarrow>
      notes_inv conn (insert k P) {} w' \<and> claimed conn (tables w') k)"
    using note_stepD(2,3) [OF assms(2)] note_writeD(2) [OF assms(1)] by blast
qed

section \<open>The persistence of a note\<close>

lemma fresh_grows_durably [fresh_rules]: "fresh_grows m \<Longrightarrow> fresh_grows (durably m)"
  unfolding durably_def by (rule fresh_grows_map_err)

lemma fresh_grows_persist: "fresh_grows (family_persist parse_uuid store run texts v raw)"
proof -
  have blobs: "fresh_grows (lock_and_verify store ref held_bytes)" for ref held_bytes
    using still_blobs(3) [of "\<lambda>_. ()" store ref held_bytes] by (simp add: leaves_alone_def fresh_grows_def)
  have project: "fresh_grows (project_family parse_uuid texts oid s)" for oid s
    unfolding project_family_def record_projections_def record_search_projection_input_def record_search_document_def
      retire_superseded_projections_def delete_inputs_def delete_documents_def
    by (intro fresh_rules)
  show ?thesis
    unfolding family_persist_def persist_body_def store_output_def fetch_source_of_run_def
    by (intro fresh_rules blobs project)
qed

text \<open>Only one document is new, that of the run's source.\<close>

lemma put_search_documents:
  assumes "x \<in> set (put_search_document d ds)"
  shows "x \<in> set ds \<or> (\<exists>n. x = d\<lparr>sd_id := n\<rparr>)"
  using assms unfolding put_search_document_def by (auto dest!: set_upsert) (metis search_row.surjective search_row.update_convs(1))

lemma persisted_documents:
  assumes "t' = retire p (projected_tables i d (stored_tables r t))"
  shows "note_documents t' \<subseteq> note_documents t \<union>
      (if sd_owner d = notes_owner then {(sd_source d, sd_tenant d, sd_document d)} else {})"
    and "source_refs t' = source_refs t" and "notes_files t' = notes_files t"
    and "notes_disconnections t' = notes_disconnections t"
    and "map (\<lambda>r. (ar_id r, ar_source r)) (analysis_runs t') = map (\<lambda>r. (ar_id r, ar_source r)) (analysis_runs t)"
proof -
  have docs: "search_documents t' = delete_where (\<lambda>x. superseded (projected_tables i d (stored_tables r t)) p (sd_source x))
      (put_search_document d (search_documents t))"
    unfolding assms by (simp add: retire_def projected_tables_def stored_tables_def set_run_state_def)
  show "note_documents t' \<subseteq> note_documents t \<union>
      (if sd_owner d = notes_owner then {(sd_source d, sd_tenant d, sd_document d)} else {})"
    unfolding note_documents_def docs by (auto simp: table_simps dest!: put_search_documents)
  show "source_refs t' = source_refs t" "notes_files t' = notes_files t" "notes_disconnections t' = notes_disconnections t"
    unfolding assms by (simp_all add: retire_def projected_tables_def stored_tables_def set_run_state_def)
  show "map (\<lambda>r. (ar_id r, ar_source r)) (analysis_runs t') = map (\<lambda>r. (ar_id r, ar_source r)) (analysis_runs t)"
    unfolding assms
    by (simp add: retire_def projected_tables_def stored_tables_def set_run_state_def update_where_def comp_def
        if_distrib cong: if_cong)
qed

end
