(* ===== verification/Notes_Drive.thy ===== *)
theory Notes_Drive
  imports Notes_Steps
begin

text \<open>
  The analysis of a note: its persistence adds one searchable document, that of the run's file, and its
  drive moves along the relations of \<open>Notes_Steps\<close>. What is assumed of the worker is in \<open>worker_ok\<close>.
\<close>

section \<open>Persisting\<close>

lemma persisted_note:
  assumes reads: "\<And>f. f < 2 ^ 128 \<Longrightarrow> parse_uuid (uuid_text f) = Some f"
    and t: "tables w' = retire (sr_id s) (projected_tables i d (stored_tables r (tables w)))"
    and s: "source_of_run run (stored_tables r (tables w)) = Some s"
    and doc: "parse_uuid (sr_document s) = Some document" "sd_source d = sr_id s"
      "search_content d = projection_content (family_projection document texts oid s)"
    and points: "points run k w" and claimed: "claimed conn (tables w) k" and inv: "notes_inv conn P {} w"
    and fresh: "fresh w \<le> fresh w'"
  shows "notes_inv conn (insert k P) {} w' \<and> claimed conn (tables w') k"
proof -
  note t' = persisted_documents [OF t]
  note i = notes_invD [OF inv]
  have ids: "ids_ok w'"
    using i(1) fresh t'(2) unfolding ids_ok_def key_unique_map ids_below_map t'(5) by (auto intro: less_le_trans)
  have "run_sources (stored_tables r (tables w)) = run_sources (tables w)"
    unfolding run_sources_map
    by (simp add: stored_tables_def set_run_state_def update_where_def comp_def if_distrib cong: if_cong)
  moreover obtain x where x: "x \<in> set (analysis_runs (stored_tables r (tables w)))" "ar_id x = run"
    "s \<in> set (source_refs (stored_tables r (tables w)))" "sr_id s = ar_source x"
    using s by (auto simp: source_of_run_def dest!: find_where_SomeD split: bind_splits)
  ultimately have "(run, sr_id s) \<in> run_sources (tables w)" unfolding run_sources_def by force
  moreover have s_in: "s \<in> set (source_refs (tables w))"
    using x(3) by (simp add: stored_tables_def set_run_state_def)
  ultimately have s': "sr_tenant s = fst k" "sr_owner s = notes_owner" "sr_document s = uuid_text (snd k)"
    using points unfolding points_def by fastforce+
  have "snd k < 2 ^ 128" using points by (simp add: points_def)
  then have d: "sd_tenant d = fst k" "sd_document d = snd k"
    using doc(3) s' doc(1) reads by (simp_all add: search_content_def projection_content_def family_projection_def
        search_row_of_def Let_def)
  have docs: "note_documents (tables w') \<subseteq> insert (sr_id s, k) (note_documents (tables w))"
    using t'(1) doc(2) d by (auto split: if_splits)
  have live: "live_note (tables w') = live_note (tables w)" by (simp add: live_note_def t' fun_eq_iff)
  have cut: "cut_off conn (tables w') = cut_off conn (tables w)" by (simp add: cut_off_def removed_connection_def t' fun_eq_iff)
  have "guards_ok conn (tables w')" using i(2) by (simp add: guards_ok_def notes_unique_def t' cut)
  moreover have "documents_ok (tables w')"
    unfolding documents_ok_def t'(2)
  proof (clarify)
    fix source tn f assume "(source, tn, f) \<in> note_documents (tables w')"
    then consider "source = sr_id s" "(tn, f) = k" | "(source, tn, f) \<in> note_documents (tables w)" using docs by blast
    then show "\<exists>x \<in> set (source_refs (tables w)). sr_id x = source \<and> sr_tenant x = tn \<and> sr_owner x = notes_owner \<and>
        sr_document x = uuid_text f"
    proof cases
      case 1
      then show ?thesis using s_in s' by (intro bexI [of _ s]) auto
    next
      case 2
      then show ?thesis using i(3) unfolding documents_ok_def by blast
    qed
  qed
  moreover have "guarded_notes conn (insert k P) {} (tables w')"
  proof (rule coveredI)
    fix source j assume j: "(source, j) \<in> note_documents (tables w')" "\<not> live_note (tables w') j"
    show "j \<in> insert k P \<and> cut_off conn (tables w') j"
    proof (cases "j = k")
      case True
      then show ?thesis using claimed j(2) unfolding claimed_def live cut by simp
    next
      case False
      then have "(source, j) \<in> note_documents (tables w)" using j(1) docs by blast
      then show ?thesis using coveredD [OF i(4)] j(2) unfolding live cut by blast
    qed
  qed
  ultimately show ?thesis using ids claimed unfolding notes_inv_def claimed_def live cut by blast
qed

lemma later_persisted:
  assumes "tables w' = retire p (projected_tables i d (stored_tables r (tables w)))" and "fresh w \<le> fresh w'"
  shows "later w w'"
  using persisted_documents [OF assms(1)] assms(2) by (simp add: later_def run_sources_map)

lemma persist_write:
  assumes reads: "\<And>f. f < 2 ^ 128 \<Longrightarrow> parse_uuid (uuid_text f) = Some f"
    and run: "family_persist parse_uuid store run texts v raw w = (r, w')"
  shows "note_write conn run k w w'"
proof -
  have fresh: "fresh w \<le> fresh w'" using fresh_growsD [OF fresh_grows_persist run] .
  from run [unfolded family_persist_def] show ?thesis
  proof (cases rule: transact_cases)
    case 1
    then show ?thesis using fresh by (intro note_step_write note_step_still) simp_all
  next
    case (2 u w1)
    obtain out s i d document where s: "source_of_run run (stored_tables out (tables (tick w))) = Some s"
      "parse_uuid (sr_document s) = Some document" "sd_source d = sr_id s"
      "search_content d = projection_content (family_projection document texts (ao_id out) s)"
      and t: "tables w1 = retire (sr_id s) (projected_tables i d (stored_tables out (tables (tick w))))"
      using family_body_tables [of store run v raw parse_uuid texts "tick w" w1] 2(1) by auto
    have t': "tables w' = retire (sr_id s) (projected_tables i d (stored_tables out (tables w)))" using t 2(2) by simp
    note s' = s(1) [unfolded tick_simps] s(2-4)
    show ?thesis
      unfolding note_write_def
      using later_persisted [OF t' fresh] persisted_note [OF reads t' s' _ _ _ fresh] by blast
  qed
qed

lemma persist_rejected:
  assumes "family_persist parse_uuid store run texts v raw w = (Inl e, w')" and "pipeline_error_is_permanent e"
  shows "note_step conn w w'"
proof -
  have fresh: "fresh w \<le> fresh w'" using fresh_growsD [OF fresh_grows_persist assms(1)] .
  from assms(1) [unfolded family_persist_def] show ?thesis
  proof (cases rule: transact_cases)
    case 1
    then show ?thesis using fresh by (intro note_step_still) simp_all
  next
    case 2
    then show ?thesis using assms(2) by simp
  qed
qed

section \<open>The worker\<close>

text \<open>
  What is assumed of the parameters: the identifier of a file is read back from its text, a document
  identity keeps that text, and while the provider or the reader of a note runs, other handlers change
  the database only by steps that keep the invariant.
\<close>

definition worker_ok :: "(string \<Rightarrow> uuid \<Rightarrow> uuid) \<Rightarrow> family_worker \<Rightarrow> bool" where
  "worker_ok conn fw = ((\<forall>f < 2 ^ 128. fw_uuid fw (uuid_text f) = Some f) \<and>
     (\<forall>f. fw_document fw (uuid_text f) = Some (uuid_text f)) \<and>
     (\<forall>request w. note_step conn w (snd (fw_generate fw request w))))"

definition worker_step :: "(string \<Rightarrow> uuid \<Rightarrow> uuid) \<Rightarrow> family_worker \<Rightarrow> world \<Rightarrow> world \<Rightarrow> bool" where
  "worker_step conn fw w w' = (worker_ok conn fw \<longrightarrow> note_step conn w w')"

definition worker_write ::
  "(string \<Rightarrow> uuid \<Rightarrow> uuid) \<Rightarrow> family_worker \<Rightarrow> uuid \<Rightarrow> string \<times> uuid \<Rightarrow> world \<Rightarrow> world \<Rightarrow> bool" where
  "worker_write conn fw run k w w' = (worker_ok conn fw \<longrightarrow> note_write conn run k w w')"

lemma note_answer_decodes:
  assumes "validate_family parse (family_check tx (SourceNote t)) c = Inr v"
  shows "decode_grounded v \<noteq> None"
  using assms by (auto simp: validate_family_def encoded_Some decode_grounded_json split: option.splits bind_splits)

interpretation note_drive: drive_persists "worker_step conn fw" note_view "worker_write conn fw run k"
  "family_driver (fw_store fw) (fw_identity fw) (fw_generate fw)"
  "validate_family (fw_parse fw) (family_check (fw_texts fw) (SourceNote n))"
  "family_persist (fw_uuid fw) (fw_store fw) run texts" "\<lambda>v. decode_grounded v \<noteq> None" for conn fw run k n texts
proof
  fix w w' w'' :: world
  show "worker_step conn fw w w" by (simp add: worker_step_def note_step_refl)
  show "worker_step conn fw w w' \<Longrightarrow> worker_step conn fw w' w'' \<Longrightarrow> worker_step conn fw w w''"
    unfolding worker_step_def using note_step_trans by blast
  show "note_view (tables w') = note_view (tables w) \<Longrightarrow> fresh w \<le> fresh w' \<Longrightarrow> worker_step conn fw w w'"
    using note_step_still by (simp add: worker_step_def)
  show "note_view (set_run_state p s t) = note_view t" "note_view (t\<lparr>analysis_attempts := as\<rparr>) = note_view t" for p s t as
    by (rule note_frame.view_state note_frame.view_attempts)+
  show "worker_step conn fw w w' \<Longrightarrow> worker_write conn fw run k w w'"
    using note_step_write by (simp add: worker_step_def worker_write_def)
  show "worker_step conn fw w w' \<Longrightarrow> worker_write conn fw run k w' w'' \<Longrightarrow> worker_write conn fw run k w w''"
    unfolding worker_step_def worker_write_def using note_step_write_trans by blast
  show "worker_write conn fw run k w w' \<Longrightarrow> worker_step conn fw w' w'' \<Longrightarrow> worker_write conn fw run k w w''"
    unfolding worker_step_def worker_write_def using note_write_step_trans by blast
  show "worker_write conn fw run k w w'" if "family_persist (fw_uuid fw) (fw_store fw) run texts v raw w = (r, w')" for v raw r
    using persist_write [OF _ that] by (simp add: worker_write_def worker_ok_def)
  show "worker_step conn fw w w'"
    if "family_persist (fw_uuid fw) (fw_store fw) run texts v raw w = (Inl e, w')" "pipeline_error_is_permanent e" for v raw e
    using persist_rejected [OF that] by (simp add: worker_step_def)
  show "worker_step conn fw w (snd (dv_generate (family_driver (fw_store fw) (fw_identity fw) (fw_generate fw)) request w))" for request
    by (simp add: worker_step_def worker_ok_def family_driver_def)
  show "decode_grounded v \<noteq> None"
    if "validate_family (fw_parse fw) (family_check (fw_texts fw) (SourceNote n)) c = Inr v" for c v
    using note_answer_decodes [OF that] .
qed

section \<open>Registering the revision and its run\<close>

lemma of_drive_failure_permanent: "family_error_is_permanent (of_drive_failure e) = pipeline_error_is_permanent e"
  by (cases e) simp_all

lemma note_value_ends:
  assumes ok: "worker_ok conn fw" and run: "family_value fw run (SourceNote n) evidence texts w = (r, w')"
  shows "note_write conn run k w w'"
    and "r = Inl e \<Longrightarrow> family_error_is_permanent e \<Longrightarrow> note_step conn w w'"
    and "r = Inr v \<Longrightarrow> note_step conn w w' \<or> decode_grounded v \<noteq> None"
proof -
  have "note_write conn run k w w' \<and> (\<forall>e. r = Inl e \<and> family_error_is_permanent e \<longrightarrow> note_step conn w w') \<and>
      (\<forall>v. r = Inr v \<longrightarrow> note_step conn w w' \<or> decode_grounded v \<noteq> None)"
  proof (cases "family_request (fw_texts fw) FamNote evidence")
    case None
    then have "w' = w" using run by (auto simp: family_value_def or_contract_def exec_bind_def exec_fail_def)
    then show ?thesis using note_step_refl note_step_write by blast
  next
    case (Some request)
    then obtain r0 where d: "drive (family_driver (fw_store fw) (fw_identity fw) (fw_generate fw))
        (validate_family (fw_parse fw) (family_check (fw_texts fw) (SourceNote n)))
        (family_persist (fw_uuid fw) (fw_store fw) run texts) run request w = (r0, w')"
      and r: "r = (case r0 of Inl e \<Rightarrow> Inl (of_drive_failure e) | Inr v \<Rightarrow> Inr v)"
      using run by (auto simp: family_value_def or_contract_def exec_bind_def exec_return_def execute_value_def
          exec_map_err_def split: prod.splits sum.splits)
    note ends = note_drive.ends_drive [where fw = fw and conn = conn and run = run and n = n and texts = texts and request = request and k = k]
    have "note_write conn run k w w'"
      using note_drive.writesD(1) [OF note_drive.endsD(1) [OF ends] d] ok by (simp add: worker_write_def)
    moreover have "note_step conn w w'" if "r0 = Inl e" "pipeline_error_is_permanent e" for e
      using note_drive.writesD(2) [OF note_drive.endsD(1) [OF ends] d [unfolded that(1)] that(2)] ok by (simp add: worker_step_def)
    moreover have "note_step conn w w' \<or> decode_grounded v \<noteq> None" if "r0 = Inr v" for v
      using note_drive.endsD(2) [OF ends d [unfolded that]] ok by (simp add: worker_step_def)
    ultimately show ?thesis using r by (cases r0) (auto simp: of_drive_failure_permanent)
  qed
  then show "note_write conn run k w w'"
    and "r = Inl e \<Longrightarrow> family_error_is_permanent e \<Longrightarrow> note_step conn w w'"
    and "r = Inr v \<Longrightarrow> note_step conn w w' \<or> decode_grounded v \<noteq> None" by blast+
qed

text \<open>New rows with new identifiers.\<close>

lemma grown_step:
  assumes runs: "analysis_runs (tables w') = analysis_runs (tables w) @ rs" and refs: "source_refs (tables w') = source_refs (tables w) @ ss"
    and rest: "note_documents (tables w') = note_documents (tables w)" "notes_files (tables w') = notes_files (tables w)"
      "notes_disconnections (tables w') = notes_disconnections (tables w)"
    and new: "\<forall>r \<in> set rs. fresh w \<le> ar_id r \<and> ar_id r < fresh w'" "\<forall>s \<in> set ss. fresh w \<le> sr_id s \<and> sr_id s < fresh w'"
    and single: "length rs \<le> 1" "length ss \<le> 1" and fresh: "fresh w \<le> fresh w'"
  shows "note_step conn w w'"
proof -
  have one: "xs = [] \<or> (\<exists>x. xs = [x])" if "length xs \<le> 1" for xs :: "'a list"
    using that by (cases xs) auto
  have later: "later w w'" using new fresh unfolding later_def run_sources_def runs refs by auto
  have live: "live_note (tables w') = live_note (tables w)" by (simp add: live_note_def rest fun_eq_iff)
  have cut: "cut_off conn (tables w') = cut_off conn (tables w)" by (simp add: cut_off_def removed_connection_def rest fun_eq_iff)
  have "notes_inv conn P {} w'" if inv: "notes_inv conn P {} w" for P
  proof -
    note i = notes_invD [OF inv]
    have "key_unique ar_id (analysis_runs (tables w'))"
      using i(1) new(1) one [OF single(1)] unfolding ids_ok_def key_unique_def runs by fastforce
    moreover have "key_unique sr_id (source_refs (tables w'))"
      using i(1) new(2) one [OF single(2)] unfolding ids_ok_def key_unique_def refs by fastforce
    ultimately have "ids_ok w'" using i(1) new fresh unfolding ids_ok_def runs refs by (auto intro: less_le_trans)
    moreover have "guards_ok conn (tables w')" using i(2) by (simp add: guards_ok_def notes_unique_def rest cut)
    moreover have "documents_ok (tables w')" using i(3) by (fastforce simp: documents_ok_def rest refs)
    moreover have "guarded_notes conn P {} (tables w')" using i(4) by (simp add: guarded_notes_def rest live cut)
    ultimately show ?thesis by (simp add: notes_inv_def)
  qed
  then show ?thesis using later unfolding note_step_def claimed_def live cut by blast
qed

definition revision_of :: "uuid \<Rightarrow> source_reference \<Rightarrow> world \<Rightarrow> bool" where
  "revision_of source s w = (\<exists>r \<in> set (source_refs (tables w)). sr_id r = source \<and> sr_tenant r = sf_tenant s \<and>
     sr_owner r = sf_owner s \<and> sr_document r = sf_document s)"

lemma insert_source_step:
  assumes run: "insert_source_body s w = (r, w')"
  shows "note_step conn w w'"
    and "r = Inr source \<Longrightarrow> sf_owner s \<noteq> extractor_owner \<Longrightarrow> revision_of source s w'"
proof -
  have fresh: "fresh w \<le> fresh w'"
  proof -
    have "fresh_grows (insert_source_body s)" unfolding insert_source_body_def by (intro fresh_rules)
    then show ?thesis using fresh_growsD run by blast
  qed
  have "(\<exists>ss. source_refs (tables w') = source_refs (tables w) @ ss \<and> length ss \<le> 1 \<and>
      (\<forall>x \<in> set ss. sr_id x = fresh w \<and> sr_id x < fresh w') \<and> tables w' = (tables w)\<lparr>source_refs := source_refs (tables w) @ ss\<rparr>) \<and>
    (r = Inr source \<longrightarrow> sf_owner s \<noteq> extractor_owner \<longrightarrow> revision_of source s w')" for source
  proof -
    define w1 where "w1 = w\<lparr>fresh := fresh w + 1\<rparr>"
    have w1: "tables w1 = tables w" by (simp add: w1_def)
    obtain q w2 where q: "sql Query (source_insert (fresh w) (now w) s) w1 = (q, w2)" by fastforce
    have f2: "fresh w2 = fresh w + 1"
      using q by (auto simp: sql_def w1_def split: if_splits sum.splits prod.splits)
    have "tables w2 = tables w \<or> tables w2 = (tables w)\<lparr>source_refs := source_refs (tables w) @ [source_row (fresh w) (now w) s]\<rparr>"
      using sql_result [OF q] by (auto simp: source_insert_def w1 split: if_splits)
    then have t2: "\<exists>ss. tables w2 = (tables w)\<lparr>source_refs := source_refs (tables w) @ ss\<rparr> \<and>
        (ss = [] \<or> ss = [source_row (fresh w) (now w) s])"
      by (elim disjE) (intro exI [of _ "[]"] exI [of _ "[source_row (fresh w) (now w) s]"]; simp)+
    have rest: "insert_source_body s w = (case q of Inl e \<Rightarrow> (Inl e, w2) | Inr inserted \<Rightarrow>
        (case inserted of Some stored \<Rightarrow> exec_return stored
          | None \<Rightarrow> exec_bind (query Query (existing_source s)) (\<lambda>stored. case stored of None \<Rightarrow> exec_fail Query
              | Some ident \<Rightarrow> exec_return ident)) w2)"
      using q by (auto simp: insert_source_body_def exec_bind_def new_uuid_def get_now_def w1_def split: sum.splits)
    show ?thesis
    proof (cases q)
      case (Inl e)
      then show ?thesis using rest run t2 f2 by (auto simp: source_row_def)
    next
      case (Inr inserted)
      show ?thesis
      proof (cases inserted)
        case (Some stored)
        have "tables w2 = (tables w)\<lparr>source_refs := source_refs (tables w) @ [source_row (fresh w) (now w) s]\<rparr> \<and> stored = fresh w"
          using sql_Inr [OF q [unfolded Inr Some]] unfolding w1 by (auto simp: source_insert_def split: if_splits)
        then show ?thesis using rest run f2 Inr Some
          by (auto simp: exec_return_def revision_of_def source_row_def intro!: exI [of _ "[source_row (fresh w) (now w) s]"])
      next
        case None
        have t: "tables w2 = tables w" using sql_Inr [OF q [unfolded Inr None]] unfolding w1 by (auto simp: source_insert_def split: if_splits)
        obtain st w3 where qq: "query Query (existing_source s) w2 = (st, w3)" by fastforce
        have w3: "tables w3 = tables w" "fresh w3 = fresh w2" using qq t by (auto simp: query_def sql_def split: if_splits)
        have w': "w' = w3" "r = Inr source \<longrightarrow> st = Inr (Some source)"
          using rest run Inr None qq by (auto simp: exec_bind_def exec_return_def exec_fail_def split: sum.splits option.splits)
        have "revision_of source s w3" if "st = Inr (Some source)" "sf_owner s \<noteq> extractor_owner"
        proof -
          have "existing_source s (tables w) = Some source" using query_Inr [OF qq [unfolded that(1)]] t by simp
          then show ?thesis using that(2) w3(1)
            by (auto simp: existing_source_def revision_of_def dest!: find_where_SomeD)
        qed
        then show ?thesis using w3 w' by (auto intro!: exI [of _ "[]"])
      qed
    qed
  qed
  then obtain ss where ss: "length ss \<le> 1" "\<forall>x \<in> set ss. sr_id x = fresh w \<and> sr_id x < fresh w'"
    "tables w' = (tables w)\<lparr>source_refs := source_refs (tables w) @ ss\<rparr>"
    and rev: "r = Inr source \<Longrightarrow> sf_owner s \<noteq> extractor_owner \<Longrightarrow> revision_of source s w'" for source by blast
  show "note_step conn w w'"
    by (rule grown_step [where rs = "[]" and ss = ss]) (use ss fresh in \<open>auto simp: note_documents_def\<close>)
  show "r = Inr source \<Longrightarrow> sf_owner s \<noteq> extractor_owner \<Longrightarrow> revision_of source s w'" by (rule rev)
qed

lemma step_map_err: "note_step conn w (snd (exec_map_err h m w)) = note_step conn w (snd (m w))"
  by (auto simp: exec_map_err_def split: prod.split sum.split)

lemma transact_step:
  assumes body: "\<And>r w1. m (tick w) = (r, w1) \<Longrightarrow> note_step conn (tick w) w1"
    and grows: "fresh_grows m" and run: "transact e m w = (r, w')"
  shows "note_step conn w w'"
proof -
  have fresh: "fresh w \<le> fresh w'" using fresh_growsD [OF fresh_grows_transact [OF grows] run] .
  from run show ?thesis
  proof (cases rule: transact_cases)
    case 1
    then show ?thesis using fresh by (intro note_step_still) simp_all
  next
    case (2 x w1)
    have "note_step conn w (tick w)" by (rule note_step_still) simp_all
    moreover have "note_step conn w1 w'" using 2(2,3) by (intro note_step_still) simp_all
    ultimately show ?thesis using body [OF 2(1)] note_step_trans by blast
  qed
qed

lemma register_step:
  assumes run: "register_source owner_parses s w = (r, w')"
  shows "note_step conn w w'"
    and "r = Inr source \<Longrightarrow> sf_owner s \<noteq> extractor_owner \<Longrightarrow> revision_of source s w'"
proof -
  have grows: "fresh_grows (insert_source_body s)" unfolding insert_source_body_def by (intro fresh_rules)
  consider "w' = w" "\<exists>e. r = Inl e" | "transact Query (insert_source_body s) w = (r, w')"
    using run by (auto simp: register_source_def insert_source_def exec_fail_def split: if_splits)
  then have "note_step conn w w' \<and> (r = Inr source \<longrightarrow> sf_owner s \<noteq> extractor_owner \<longrightarrow> revision_of source s w')" for source
  proof cases
    case 1
    then show ?thesis using note_step_refl by auto
  next
    case 2
    have "revision_of source s w'" if "r = Inr source" "sf_owner s \<noteq> extractor_owner"
      using 2
    proof (cases rule: transact_cases)
      case 1
      then show ?thesis using that(1) by simp
    next
      case (2 x w1)
      then have "revision_of x s w1" using insert_source_step(2) that by blast
      then show ?thesis using 2 that(1) by (auto simp: revision_of_def)
    qed
    moreover have "note_step conn w w'" by (rule transact_step [OF _ grows 2]) (rule insert_source_step(1))
    ultimately show ?thesis by blast
  qed
  then show "note_step conn w w'"
    and "r = Inr source \<Longrightarrow> sf_owner s \<noteq> extractor_owner \<Longrightarrow> revision_of source s w'" by blast+
qed

lemma create_run_step:
  assumes run: "create_run i w = (r, w')"
  shows "note_step conn w w'"
    and "r = Inr x \<Longrightarrow> \<exists>p \<in> set (analysis_runs (tables w')). ar_id p = x \<and> ar_source p = an_source i"
    and "source_refs (tables w') = source_refs (tables w)"
proof -
  let ?each = "exec_each (\<lambda>v. exec_result (validate_version v)) [an_contract i, an_prompt i, an_context i, an_policy i]"
  have pure: "\<exists>r. exec_each (\<lambda>v. exec_result (validate_version v)) vs w = (r, w)" for vs
    by (induction vs) (auto simp: exec_return_def exec_bind_def exec_result_def split: sum.splits)
  obtain c where c: "?each w = (c, w)" using pure by blast
  have "note_step conn w w' \<and> source_refs (tables w') = source_refs (tables w) \<and> (\<forall>x. r = Inr x \<longrightarrow>
      (\<exists>p \<in> set (analysis_runs (tables w')). ar_id p = x \<and> ar_source p = an_source i))"
  proof (cases c)
    case (Inl e)
    then have "r = Inl e" "w' = w" using run c by (simp_all add: create_run_def exec_bind_def)
    then show ?thesis using note_step_refl by simp
  next
    case (Inr u)
    define w1 where "w1 = w\<lparr>fresh := fresh w + 1\<rparr>"
    have w1: "tables w1 = tables w" "fresh w1 = fresh w + 1" by (simp_all add: w1_def)
    have q: "sql Query (insert_run (fresh w) (now w) i) w1 = (r, w')"
      using run c Inr by (simp add: create_run_def exec_bind_def new_uuid_def get_now_def w1_def)
    let ?new = "\<lparr>ar_id = fresh w, ar_source = an_source i, ar_contract = an_contract i, ar_prompt = an_prompt i,
              ar_context = an_context i, ar_policy = an_policy i, ar_state = Queued, ar_created = now w, ar_updated = now w\<rparr>"
    have f: "fresh w' = fresh w + 1" using sql_result [OF q] w1(2) by auto
    have t: "(tables w' = tables w \<or> tables w' = (tables w)\<lparr>analysis_runs := analysis_runs (tables w) @ [?new]\<rparr>) \<and>
        (\<forall>x. r = Inr x \<longrightarrow> (\<exists>p \<in> set (analysis_runs (tables w')). ar_id p = x \<and> ar_source p = an_source i))"
      using sql_result [OF q] w1(1)
      by (auto simp: insert_run_def same_identity_def dest!: find_where_SomeD split: option.splits if_splits)
    have "note_step conn w w'"
    proof (cases "tables w' = tables w")
      case True
      then show ?thesis using f by (intro note_step_still) simp_all
    next
      case False
      then have "tables w' = (tables w)\<lparr>analysis_runs := analysis_runs (tables w) @ [?new]\<rparr>" using t by blast
      then show ?thesis
        by (intro grown_step [where rs = "[?new]" and ss = "[]"]) (simp_all add: note_documents_def f)
    qed
    then show ?thesis using t by auto
  qed
  then show "note_step conn w w'"
    and "r = Inr x \<Longrightarrow> \<exists>p \<in> set (analysis_runs (tables w')). ar_id p = x \<and> ar_source p = an_source i"
    and "source_refs (tables w') = source_refs (tables w)" by blast+
qed

text \<open>The two steps before the drive make the run point at the file.\<close>

lemma points_run:
  assumes inv: "notes_inv conn P {} w'" and rev: "revision_of source s w'"
    and k: "snd k < 2 ^ 128"
    and s: "sf_tenant s = fst k" "sf_owner s = notes_owner" "sf_document s = uuid_text (snd k)"
    and p: "p \<in> set (analysis_runs (tables w'))" "ar_id p = run" "ar_source p = source"
  shows "points run k w'"
proof -
  note ids = notes_invD(1) [OF inv]
  obtain x where x: "x \<in> set (source_refs (tables w'))" "sr_id x = source" "sr_tenant x = fst k" "sr_owner x = notes_owner"
    "sr_document x = uuid_text (snd k)" using rev s unfolding revision_of_def by auto
  have runs: "snd q = source" if q: "q \<in> run_sources (tables w')" "fst q = run" for q
  proof -
    obtain y where y: "y \<in> set (analysis_runs (tables w'))" "ar_id y = run" "snd q = ar_source y"
      using q unfolding run_sources_def by auto
    then have "y = p" using p ids unfolding ids_ok_def by (intro key_unique_same [of ar_id "analysis_runs (tables w')" y p]) simp_all
    then show ?thesis using y p by simp
  qed
  have refs: "y = x" if "y \<in> set (source_refs (tables w'))" "sr_id y = source" for y
    using that x ids unfolding ids_ok_def by (intro key_unique_same [of sr_id "source_refs (tables w')" y x]) simp_all
  have "run < fresh w'" "source < fresh w'" using ids p(1,2) x(1,2) unfolding ids_ok_def by blast+
  moreover have "sr_tenant y = fst k \<and> sr_owner y = notes_owner \<and> sr_document y = uuid_text (snd k)"
    if "y \<in> set (source_refs (tables w'))" "sr_id y = source" for y
    unfolding refs [OF that] using x(3-5) by blast
  ultimately show ?thesis using runs k unfolding points_def by blast
qed

lemma retitle_step:
  assumes "retitle source title w = (r, w')"
  shows "note_step conn w w'"
proof -
  have docs: "note_documents t = snd ` {q \<in> set (map (\<lambda>d. (sd_owner d, sd_source d, sd_tenant d, sd_document d)) (search_documents t)).
      fst q = notes_owner}" for t by (force simp: note_documents_def)
  have "map (\<lambda>d. (sd_owner d, sd_source d, sd_tenant d, sd_document d)) (search_documents (retitle_documents source title t)) =
      map (\<lambda>d. (sd_owner d, sd_source d, sd_tenant d, sd_document d)) (search_documents t)" for t
    by (simp add: retitle_documents_def update_where_def)
  then have "note_documents (retitle_documents source title t) = note_documents t" for t unfolding docs by simp
  then have "note_view (retitle_documents source title t) = note_view t" "note_view (retitle_inputs source title t) = note_view t" for t
    by (simp_all add: note_view_def retitle_inputs_def retitle_documents_def note_documents_def)
  then have "leaves_alone note_view (retitle source title)"
    unfolding retitle_def by (intro still_rules still_execute)
  from note_frame.stepsD [OF note_frame.still_steps [OF this] assms] show ?thesis .
qed

lemma execute_note_inv:
  assumes ok: "worker_ok conn fw" and blob: "br_owner (nr_blob n) = notes_owner" and width: "nr_file n < 2 ^ 128"
    and inv: "notes_inv conn P {} w" and claimed: "claimed conn (tables w) (nr_tenant n, nr_file n)"
    and run: "execute_note fw n w = (r, w')"
  shows "notes_inv conn (insert (nr_tenant n, nr_file n) P) {} w'"
    and "r = Inl e \<Longrightarrow> family_error_is_permanent e \<Longrightarrow> notes_inv conn P {} w'"
proof -
  let ?k = "(nr_tenant n, nr_file n)"
  let ?s = "\<lparr>sf_tenant = nr_tenant n, sf_owner = br_owner (nr_blob n), sf_archive = [], sf_document = uuid_text (nr_file n),
      sf_digest = br_digest (nr_blob n), sf_blob = nr_blob n\<rparr>"
  have goal: "notes_inv conn (insert ?k P) {} w' \<and> (\<forall>e. r = Inl e \<and> family_error_is_permanent e \<longrightarrow> notes_inv conn P {} w')"
    if "note_step conn w w'"
    using note_stepD(2) [OF that inv] notes_inv_mono [of conn P "{}" w' "insert ?k P" "{}"] by blast
  let ?drive = "\<lambda>run. family_value fw run (SourceNote (nr_text n)) (note_context (fw_to_text fw) n) (note_texts n)"
  let ?finish = "\<lambda>source v. exec_bind (retitle source (note_title n)) (\<lambda>_. or_contract (decode_grounded v))"
  have doc: "fw_document fw (uuid_text (nr_file n)) = Some (uuid_text (nr_file n))" using ok by (simp add: worker_ok_def)
  have ext: "external_source fw (nr_tenant n) (uuid_text (nr_file n)) (br_digest (nr_blob n)) (nr_blob n) =
      exec_map_err FpPersistence (register_source (fw_owner fw) ?s)"
    unfolding external_source_def register_family_source_def or_source_def doc option.case by (rule ext) (simp add: exec_bind_def exec_return_def)
  obtain r1 w1 where 1: "register_source (fw_owner fw) ?s w = (r1, w1)" by fastforce
  note step1 = register_step(1) [OF 1, of conn]
  have "notes_inv conn (insert ?k P) {} w' \<and> (\<forall>e. r = Inl e \<and> family_error_is_permanent e \<longrightarrow> notes_inv conn P {} w')"
  proof (cases r1)
    case (Inl e)
    then have "w' = w1" using run 1 unfolding execute_note_def ext by (simp add: exec_bind_def exec_map_err_def)
    then show ?thesis using goal step1 by blast
  next
    case (Inr source)
    let ?i = "\<lparr>an_source = source, an_contract = ''note_analysis_v1'', an_prompt = ''note_prompt_v1'',
        an_context = note_context_version, an_policy = ''family_default_v1''\<rparr>"
    obtain r2 w2 where 2: "create_run ?i w1 = (r2, w2)" by fastforce
    note step2 = note_step_trans [OF step1 create_run_step(1) [OF 2]]
    show ?thesis
    proof (cases r2)
      case r2: (Inl e)
      then have "w' = w2" using run 1 2 Inr unfolding execute_note_def ext
        by (simp add: exec_bind_def exec_map_err_def create_family_run_def)
      then show ?thesis using goal step2 by blast
    next
      case r2: (Inr x)
      have rest: "exec_bind (?drive x) (?finish source) w2 = (r, w')"
        using run 1 2 Inr r2 unfolding execute_note_def ext by (simp add: exec_bind_def exec_map_err_def create_family_run_def)
      have inv2: "notes_inv conn P {} w2" and claimed2: "claimed conn (tables w2) ?k"
        using note_stepD(2,3) [OF step2 inv] claimed by blast+
      have "revision_of source ?s w1" using register_step(2) [OF 1 Inr] blob by (simp add: notes_owner_def extractor_owner_def)
      then have "revision_of source ?s w2" using create_run_step(3) [OF 2] by (simp add: revision_of_def)
      moreover obtain p where "p \<in> set (analysis_runs (tables w2))" "ar_id p = x" "ar_source p = source"
        using create_run_step(2) [OF 2 r2] by auto
      ultimately have points: "points x ?k w2" using points_run [OF inv2] blob width by fastforce
      obtain r3 w3 where 3: "?drive x w2 = (r3, w3)" by fastforce
      note ends = note_value_ends [OF ok 3]
      have inv3: "notes_inv conn (insert ?k P) {} w3" using note_writeD(2) [OF ends(1) [of ?k] points inv2 claimed2] by blast
      show ?thesis
      proof (cases r3)
        case (Inl e)
        then have w': "w' = w3" "r = Inl e" using rest 3 by (simp_all add: exec_bind_def)
        then show ?thesis using inv3 ends(2) [OF Inl] note_stepD(2) [OF _ inv2] by blast
      next
        case (Inr v)
        obtain r4 w4 where 4: "retitle source (note_title n) w3 = (r4, w4)" by fastforce
        note step4 = retitle_step [OF 4, of conn]
        have w': "w' = w4" "r = (case r4 of Inl e \<Rightarrow> Inl e | Inr _ \<Rightarrow> fst (or_contract (decode_grounded v) w4))"
          using rest 3 4 Inr by (auto simp: exec_bind_def or_contract_def exec_fail_def exec_return_def split: sum.splits option.splits)
        have "notes_inv conn P {} w'" if "r = Inl e" "family_error_is_permanent e" for e
        proof -
          have "r4 \<noteq> Inl e"
            using 4 that(2) by (auto simp: retitle_def execute_def dest!: sql_Inl elim!: exec_bind_InlE)
          then have "decode_grounded v = None"
            using that(1) w'(2) by (auto simp: or_contract_def exec_return_def split: sum.splits option.splits)
          then have "note_step conn w2 w3" using ends(3) [OF Inr] by simp
          then show ?thesis using note_stepD(2) [OF note_step_trans [OF _ step4] inv2] w'(1) by simp
        qed
        then show ?thesis using note_stepD(2) [OF step4 inv3] w'(1) by blast
      qed
    qed
  qed
  then show "notes_inv conn (insert ?k P) {} w'"
    and "r = Inl e \<Longrightarrow> family_error_is_permanent e \<Longrightarrow> notes_inv conn P {} w'" by blast+
qed

end
