(* ===== verification/Notes_History.thy ===== *)
theory Notes_History
  imports Notes_Drive
begin

text \<open>
  The handlers of the notes over any history: deliveries of the files' durable one after another, each in
  any state of the database and with any fault, with deliveries of the vaults' durable and the work of the
  other handlers before, between and, while a note is read or the provider answers, during them.
\<close>

section \<open>What happens meanwhile\<close>

lemma note_view_content: "note_view (t\<lparr>erasure_queue := q, deletion_records := d\<rparr>) = note_view t"
  by (simp add: note_view_def note_documents_def)

lemma fresh_grows_drain [fresh_rules]: "fresh_grows collect_pending_blobs"
proof -
  have remove: "fresh_grows (blob_remove d)" for d
    by (auto simp: fresh_grows_def blob_remove_def blob_path_exists_def file_read_def file_write_def exec_bind_def
        exec_fail_def exec_return_def)
  have "fresh_grows (drain_one d)" for d
    unfolding drain_one_def drain_body_def by (intro fresh_rules remove)
  then have "fresh_grows (drain_loop queued removed)" for queued removed
    by (induction queued arbitrary: removed) (simp_all add: fresh_grows_basic fresh_grows_bind)
  then show ?thesis unfolding collect_pending_blobs_def drain_queue_def by (intro fresh_rules)
qed

lemma collect_step: "note_step conn w (snd (collect_pending_blobs w))"
proof -
  have "keeps_content collect_pending_blobs" unfolding collect_pending_blobs_def by (intro unchanged_rules)
  then have "content (tables (snd (collect_pending_blobs w))) = content (tables w)" unfolding unchanged_def by blast
  then have "note_view (tables (snd (collect_pending_blobs w))) = note_view (tables w)"
    by (metis content_def note_view_content)
  then show ?thesis using fresh_grows_drain by (simp add: note_step_still fresh_grows_def)
qed

lemma erase_step: "erase_blobs reason w = (r, w') \<Longrightarrow> note_step conn w w'"
  using collect_step [of conn w]
  by (auto simp: erase_blobs_def exec_bind_def exec_map_err_def exec_return_def split: prod.splits sum.splits)

section \<open>One delivery\<close>

text \<open>An outcome after which nothing of the file is pending: the delivery was applied or refused for good.\<close>

definition settles_file :: "outcome \<Rightarrow> bool" where
  "settles_file out = (out = Done \<or> (\<exists>reason. out = Reject reason \<and> reason \<noteq> ''inbox_invalid''))"

definition pending_after :: "string \<times> uuid \<Rightarrow> outcome \<Rightarrow> (string \<times> uuid) set \<Rightarrow> (string \<times> uuid) set" where
  "pending_after k out P = (if settles_file out then P - {k} else insert k P)"

definition result_of :: "outcome + outcome \<Rightarrow> outcome" where
  "result_of r = (case r of Inl out \<Rightarrow> out | Inr out \<Rightarrow> out)"

lemma handled_iff: "handled h w = (out, w') \<longleftrightarrow> (\<exists>r. h w = (r, w') \<and> out = result_of r)"
  by (auto simp: handled_def result_of_def split: prod.splits sum.splits)

text \<open>What a handler of the file \<open>k\<close> ends in, when nothing of it was pending.\<close>

definition tends :: "(string \<Rightarrow> uuid \<Rightarrow> uuid) \<Rightarrow> string \<times> uuid \<Rightarrow> (string \<times> uuid) set \<Rightarrow> outcome + outcome \<Rightarrow> world \<Rightarrow> bool" where
  "tends conn k Q r w' = notes_inv conn (pending_after k (result_of r) Q) {} w'"

lemma tends_kept: "k \<notin> Q \<Longrightarrow> notes_inv conn Q {} w' \<Longrightarrow> tends conn k Q r w'"
  unfolding tends_def pending_after_def by (auto intro: notes_inv_mono)

lemma tends_unsettled: "\<not> settles_file (result_of r) \<Longrightarrow> notes_inv conn (insert k Q) {} w' \<Longrightarrow> tends conn k Q r w'"
  unfolding tends_def pending_after_def by simp

lemma inbox_failure_unsettled: "\<not> settles_file (inbox_failure e reason)"
  by (simp add: settles_file_def inbox_failure_def)

lemma erase_tends:
  assumes "k \<notin> Q" and "notes_inv conn Q {} w" and "erase_removed_blobs w = (r, w')"
  shows "tends conn k Q r w'"
proof -
  have "note_step conn w w'" using erase_step assms(3) unfolding erase_removed_blobs_def by blast
  from note_stepD(2) [OF this assms(2)] show ?thesis by (rule tends_kept [OF assms(1)])
qed

lemma on_inbox_cases:
  assumes "exec_bind (on_inbox reason m) f w = (r, w')"
  obtains (failed) e where "m w = (Inl e, w')" and "result_of r = inbox_failure e reason"
  | (went_on) x w1 where "m w = (Inr x, w1)" and "f x w1 = (r, w')"
  using assms by (auto simp: on_inbox_def exec_bind_def exec_map_err_def result_of_def split: sum.splits prod.splits)

lemma guard_of_simps [simp]: "nc_tenant (guard_of tn c) = tn" "nc_file (guard_of tn c) = fc_file c"
  "nc_connection (guard_of tn c) = fc_connection c"
  by (simp_all add: guard_of_def)

lemma removal_tends:
  assumes k: "k = change_key g" "k \<notin> Q" and inv: "notes_inv conn Q {} w"
    and run: "exec_bind (on_inbox removal (remove_derived g)) (\<lambda>_. h) w = (r, w')"
    and h: "\<And>w1. notes_inv conn Q {} w1 \<Longrightarrow> h w1 = (r, w') \<Longrightarrow> tends conn k Q r w'"
  shows "tends conn k Q r w'"
  using run
proof (cases rule: on_inbox_cases)
  case (failed e)
  then show ?thesis using remove_derived_inv [OF inv failed(1)] tends_kept k(2) by blast
next
  case (went_on x w1)
  then show ?thesis using remove_derived_inv [OF inv went_on(1)] h by blast
qed

lemma reject_revision_tends:
  assumes k: "k = change_key g" "k \<notin> Q" and inv: "notes_inv conn Q {} w" and run: "reject_revision g reason w = (r, w')"
  shows "tends conn k Q r w'"
proof (rule removal_tends [OF k inv run [unfolded reject_revision_def]])
  fix w1 assume inv1: "notes_inv conn Q {} w1"
    and "exec_bind erase_removed_blobs (\<lambda>out. exec_return (if out = Done then Reject reason else out)) w1 = (r, w')"
  then obtain r1 where e: "erase_removed_blobs w1 = (r1, w')"
    by (auto simp: exec_bind_def exec_return_def split: sum.splits prod.splits)
  have "note_step conn w1 w'" using erase_step e unfolding erase_removed_blobs_def by blast
  from note_stepD(2) [OF this inv1] show "tends conn k Q r w'" by (rule tends_kept [OF k(2)])
qed

text \<open>What is assumed of a worker of the notes for one map of files to connections.\<close>

definition notes_worker_steps :: "(string \<Rightarrow> uuid \<Rightarrow> uuid) \<Rightarrow> notes_worker \<Rightarrow> bool" where
  "notes_worker_steps conn nw = (worker_ok conn (nw_family nw) \<and>
     (\<forall>path limit w. note_step conn w (snd (nt_open (nw_reader nw) path limit w))))"

lemma read_note_steps:
  assumes ok: "notes_worker_steps conn nw" and run: "read_note_text (nw_reader nw) root blob w = (r, w')"
  shows "note_step conn w w'" and "r = Inr x \<Longrightarrow> br_owner blob = notes_owner"
proof -
  have "note_step conn w (snd (open_note (nw_reader nw) path limit w))" for path limit w
    using ok unfolding notes_worker_steps_def open_note_def by (auto split: prod.splits option.splits) (metis snd_conv)+
  then have opens: "note_frame.steps conn (open_note (nw_reader nw) path limit)" for path limit
    by (simp add: note_frame.steps_def)
  have branches: "note_frame.steps conn (if b then m else n)" if "note_frame.steps conn m" "note_frame.steps conn n"
    for b and m n :: "(world, note_blob_error, 'a) exec" using that by simp
  have "note_frame.steps conn (read_note_text (nw_reader nw) root blob)"
    unfolding read_note_text_def read_note_blob_def
    by (intro note_frame.steps_bind branches opens) (intro note_frame.still_steps still_rules)+
  then show "note_step conn w w'" using run by (rule note_frame.stepsD)
  show "r = Inr x \<Longrightarrow> br_owner blob = notes_owner"
    using run by (auto simp: read_note_text_def read_note_blob_def exec_fail_def elim!: exec_bind_InrE split: if_splits)
qed

lemma analyse_tends:
  assumes ok: "notes_worker_steps conn nw" and k: "k = (tn, fc_file c)" "k \<notin> Q" and width: "fc_file c < 2 ^ 128"
    and inv: "notes_inv conn Q {} w" and claimed: "claimed conn (tables w) k"
    and run: "analyse nw tn c (guard_of tn c) w = (r, w')"
  shows "if result_of r = Done then notes_inv conn (insert k Q) {} w' else tends conn k Q r w'"
proof -
  have kept: ?thesis if "notes_inv conn Q {} w'"
    using tends_kept [OF k(2) that] notes_inv_mono [OF that, of "insert k Q" "{}"] by auto
  show ?thesis
  proof (cases "fc_blob c = None \<or> nt_root (nw_reader nw) = None")
    case True
    then have "w' = w" using run by (auto simp: analyse_def exec_return_def split: option.splits)
    then show ?thesis using kept inv by simp
  next
    case False
    then obtain blob root where b: "fc_blob c = Some blob" "nt_root (nw_reader nw) = Some root" by auto
    obtain r1 w1 where 1: "read_note_text (nw_reader nw) root blob w = (r1, w1)" by fastforce
    note step = read_note_steps [OF ok 1]
    have inv1: "notes_inv conn Q {} w1" and claimed1: "claimed conn (tables w1) k"
      using note_stepD(2,3) [OF step(1) inv] claimed by blast+
    show ?thesis
    proof (cases r1)
      case (Inl e)
      then consider "w' = w1" | reason where "reject_revision (guard_of tn c) reason w1 = (r, w')"
        using run b 1 by (cases e) (auto simp: analyse_def exec_return_def)
      then show ?thesis
      proof cases
        case 1
        then show ?thesis using kept inv1 by simp
      next
        case 2
        have "result_of r \<noteq> Done"
          using 2 by (auto simp: reject_revision_def result_of_def exec_return_def on_inbox_def erase_removed_blobs_def
              erase_blobs_def inbox_failure_def exec_bind_def exec_map_err_def split: sum.splits prod.splits if_splits)
        then show ?thesis using reject_revision_tends [OF _ k(2) inv1 2] k(1) by simp
      qed
    next
      case (Inr body)
      let ?n = "\<lparr>nr_tenant = tn, nr_file = fc_file c, nr_path = fc_path c, nr_blob = blob, nr_text = body\<rparr>"
      obtain r2 where 2: "execute_note (nw_family nw) ?n w1 = (r2, w')"
        and r: "result_of r = (case r2 of Inl e \<Rightarrow> analysis_failure e ''note_analysis'' | Inr _ \<Rightarrow> Done)"
        using run b 1 Inr
        by (auto simp: analyse_def analyse_text_def exec_bind_def exec_map_err_def exec_return_def result_of_def
            split: sum.splits prod.splits)
      have ok': "worker_ok conn (nw_family nw)" using ok by (simp add: notes_worker_steps_def)
      note exec = execute_note_inv [OF ok' _ _ inv1 _ 2, unfolded note_revision.simps, folded k(1), OF step(2) [OF Inr] width claimed1]
      show ?thesis
      proof (cases r2)
        case (Inr a)
        then show ?thesis using r exec(1) by simp
      next
        case (Inl e)
        show ?thesis
        proof (cases "family_error_is_permanent e")
          case True
          then show ?thesis using kept exec(2) [OF Inl] by simp
        next
          case False
          then have "\<not> settles_file (result_of r)" using r Inl by (simp add: analysis_failure_def settles_file_def)
          then show ?thesis using tends_unsettled exec(1) by (auto simp: settles_file_def)
        qed
      qed
    qed
  qed
qed

lemma analyse_current_tends:
  assumes ok: "notes_worker_steps conn nw" and k: "k = (tn, fc_file c)" "k \<notin> Q"
    and c: "fc_connection c = conn tn (fc_file c)" and width: "fc_file c < 2 ^ 128"
    and inv: "notes_inv conn Q {} w" and claimed: "claimed conn (tables w) k"
    and run: "analyse_current nw tn c (guard_of tn c) w = (r, w')"
  shows "tends conn k Q r w'"
proof -
  let ?g = "guard_of tn c"
  obtain r1 w1 where 1: "analyse nw tn c ?g w = (r1, w1)" by fastforce
  note first = analyse_tends [OF ok k width inv claimed 1]
  have rest: "(if result_of r1 \<noteq> Done then exec_return (result_of r1)
     else exec_bind (on_inbox removal (settle_after_analysis ?g)) (\<lambda>admission.
       case admission of NoteCurrent \<Rightarrow> exec_return Done | NoteStale \<Rightarrow> erase_removed_blobs)) w1 = (r, w')"
  proof -
    have "settled_outcome (analyse nw tn c ?g) w = (Inr (result_of r1), w1)"
      using 1 by (simp add: settled_outcome_def handled_def result_of_def split: sum.split)
    then have "exec_bind (settled_outcome (analyse nw tn c ?g)) f w = f (result_of r1) w1" for f :: "outcome \<Rightarrow> handler"
      by (simp add: exec_bind_def)
    from run [unfolded analyse_current_def this] show ?thesis .
  qed
  show ?thesis
  proof (cases "result_of r1 = Done")
    case False
    then have "r = Inr (result_of r1)" "w' = w1" using rest by (simp_all add: exec_return_def)
    moreover have "result_of (Inr (result_of r1)) = result_of r1" by (simp add: result_of_def)
    ultimately show ?thesis using first False by (simp add: tends_def)
  next
    case True
    then have inv1: "notes_inv conn (insert (change_key ?g) Q) {} w1" using first k(1) by simp
    have conn: "nc_connection ?g = conn (nc_tenant ?g) (nc_file ?g)" using c by simp
    have rest': "exec_bind (on_inbox removal (settle_after_analysis ?g)) (\<lambda>admission.
       case admission of NoteCurrent \<Rightarrow> exec_return Done | NoteStale \<Rightarrow> erase_removed_blobs) w1 = (r, w')"
      using rest True by simp
    from rest' show ?thesis
    proof (cases rule: on_inbox_cases)
      case (failed e)
      then show ?thesis using settle_inv [OF inv1 conn failed(1)] inbox_failure_unsettled [of e removal] k(1)
        by (intro tends_unsettled) simp_all
    next
      case (went_on adm w2)
      have inv2: "notes_inv conn Q {} w2" using settle_inv [OF inv1 conn went_on(1)] by blast
      show ?thesis
      proof (cases adm)
        case NoteCurrent
        then show ?thesis using went_on(2) inv2 tends_kept [OF k(2)] by (simp add: exec_return_def)
      next
        case NoteStale
        then show ?thesis using went_on(2) erase_tends [OF k(2) inv2] by simp
      qed
    qed
  qed
qed

lemma tends_again: "tends conn k (P - {k}) r w' \<Longrightarrow> notes_inv conn (pending_after k (result_of r) P) {} w'"
  by (simp add: tends_def pending_after_def split: if_splits)

lemma change_file_tends:
  assumes ok: "notes_worker_steps conn nw" and k: "k = (tn, fc_file c)" and c: "fc_connection c = conn tn (fc_file c)"
    and width: "fc_file c < 2 ^ 128" and inv: "notes_inv conn P {} w" and run: "change_file nw tn c (guard_of tn c) w = (r, w')"
  shows "notes_inv conn (pending_after k (result_of r) P) {} w'"
proof -
  let ?g = "guard_of tn c"
  have conn: "nc_connection ?g = conn (nc_tenant ?g) (nc_file ?g)" using c by simp
  have key: "change_key ?g = k" using k by simp
  from run [unfolded change_file_def] show ?thesis
  proof (cases rule: on_inbox_cases)
    case (failed e)
    have "notes_inv conn P {} w'" using accept_change_inv [OF inv conn failed(1)] by blast
    then have "notes_inv conn (insert k P) {} w'" using notes_inv_mono by blast
    then show ?thesis using failed(2) inbox_failure_unsettled by (simp add: pending_after_def)
  next
    case (went_on adm w1)
    note accepted = accept_change_inv [OF inv conn went_on(1), unfolded key]
    have inv1: "notes_inv conn (P - {k}) {} w1" and claimed: "adm = NoteCurrent \<Longrightarrow> claimed conn (tables w1) k"
      using accepted by blast+
    have "tends conn k (P - {k}) r w'"
    proof (cases adm)
      case NoteStale
      then show ?thesis using went_on(2) erase_tends [OF _ inv1] by simp
    next
      case NoteCurrent
      show ?thesis
      proof (cases "is_markdown (fc_media c)")
        case True
        then show ?thesis using went_on(2) NoteCurrent analyse_current_tends [OF ok k _ c width inv1 claimed] by simp
      next
        case False
        then have removing: "exec_bind (on_inbox removal (remove_derived ?g)) (\<lambda>_. erase_removed_blobs) w1 = (r, w')"
          using went_on(2) NoteCurrent by simp
        show ?thesis by (rule removal_tends [OF key [symmetric] _ inv1 removing]) (auto intro: erase_tends)
      qed
    qed
    then show ?thesis by (rule tends_again)
  qed
qed

lemma deletion_tends:
  assumes k: "k = (tn, fc_file c)" and c: "fc_connection c = conn tn (fc_file c)" and inv: "notes_inv conn P {} w"
    and run: "exec_bind (on_inbox removal (accept_deletion (guard_of tn c))) (\<lambda>_. erase_removed_blobs) w = (r, w')"
  shows "notes_inv conn (pending_after k (result_of r) P) {} w'"
proof -
  let ?g = "guard_of tn c"
  have conn: "nc_connection ?g = conn (nc_tenant ?g) (nc_file ?g)" using c by simp
  have key: "change_key ?g = k" using k by simp
  from run show ?thesis
  proof (cases rule: on_inbox_cases)
    case (failed e)
    have "notes_inv conn P {} w'" using accept_deletion_inv [OF inv conn failed(1)] by blast
    then have "notes_inv conn (insert k P) {} w'" using notes_inv_mono by blast
    then show ?thesis using failed(2) inbox_failure_unsettled by (simp add: pending_after_def)
  next
    case (went_on adm w1)
    have "notes_inv conn (P - {k}) {} w1" using accept_deletion_inv [OF inv conn went_on(1), unfolded key] by blast
    then show ?thesis by (intro tends_again erase_tends) (use went_on(2) in simp_all)
  qed
qed

text \<open>The file a message is about, when it is one that the handler applies.\<close>

definition file_of_message :: "notes_contracts \<Rightarrow> bytes \<Rightarrow> (string \<times> uuid) option" where
  "file_of_message nk message =
     (case decode_delivery (nk_envelope nk) message notes_producers of
        Inl _ \<Rightarrow> None
      | Inr (env, tn) \<Rightarrow>
          (if env_type env \<noteq> file_changed_type then None
           else case nk_changed nk env of
             None \<Rightarrow> None
           | Some c \<Rightarrow> if fc_kind c = FileOther then None else Some (tn, fc_file c)))"

definition pending_files :: "notes_contracts \<Rightarrow> bytes \<Rightarrow> outcome \<Rightarrow> (string \<times> uuid) set \<Rightarrow> (string \<times> uuid) set" where
  "pending_files nk message out P = (case file_of_message nk message of None \<Rightarrow> P | Some k \<Rightarrow> pending_after k out P)"

text \<open>A file stays in its vault: every fact about it names the same connection, and a 128-bit identifier.\<close>

definition one_connection :: "(string \<Rightarrow> uuid \<Rightarrow> uuid) \<Rightarrow> notes_contracts \<Rightarrow> bool" where
  "one_connection conn nk = (\<forall>env tn c. env_tenant env = Some tn \<and> nk_changed nk env = Some c \<longrightarrow>
     fc_connection c = conn tn (fc_file c) \<and> fc_file c < 2 ^ 128)"

lemma files_delivery_inv:
  assumes ok: "notes_worker_steps conn nw" and one: "one_connection conn (nw_contracts nw)"
    and inv: "notes_inv conn P {} w" and run: "handled (notes_files_handler nw message) w = (out, w')"
  shows "notes_inv conn (pending_files (nw_contracts nw) message out P) {} w'"
proof -
  let ?nk = "nw_contracts nw"
  obtain r where r: "notes_files_handler nw message w = (r, w')" "out = result_of r" using run unfolding handled_iff by blast
  show ?thesis
  proof (cases "file_of_message ?nk message")
    case None
    then have "w' = w"
      using r(1) by (auto simp: file_of_message_def notes_files_handler_def exec_bind_def exec_result_def exec_return_def
          or_reject_def exec_fail_def apply_file_change_def Let_def split: sum.splits prod.splits option.splits if_splits
          file_change_kind.splits)
    then show ?thesis using None inv by (simp add: pending_files_def)
  next
    case (Some k)
    obtain env tn c where d: "decode_delivery (nk_envelope ?nk) message notes_producers = Inr (env, tn)"
      "env_type env = file_changed_type" "nk_changed ?nk env = Some c" "fc_kind c \<noteq> FileOther" "k = (tn, fc_file c)"
      using Some by (auto simp: file_of_message_def split: sum.splits prod.splits option.splits if_splits)
    have "env_tenant env = Some tn" using d(1) by (auto simp: decode_delivery_def split: option.splits if_splits)
    then have conn: "fc_connection c = conn tn (fc_file c)" "fc_file c < 2 ^ 128" using one d(3) unfolding one_connection_def by blast+
    have "apply_file_change nw tn c w = (r, w')"
      using r(1) d by (simp add: notes_files_handler_def exec_bind_def exec_result_def or_reject_def exec_return_def)
    then have "notes_inv conn (pending_after k (result_of r) P) {} w'"
      using change_file_tends [where r = r, OF ok d(5) conn inv] deletion_tends [where r = r, OF d(5) conn(1) inv] d(4)
      by (cases "fc_kind c") (simp_all add: apply_file_change_def Let_def)
    then show ?thesis using Some r(2) by (simp add: pending_files_def)
  qed
qed

lemma vaults_delivery_step:
  assumes run: "handled (notes_vaults_handler nw message) w = (out, w')"
  shows "note_step conn w w'"
proof -
  have disconnect: "note_step conn w w'" if run: "disconnected nw env tn w = (r, w')" for env tn r
  proof (cases "nk_disconnected (nw_contracts nw) env")
    case None
    then show ?thesis using run note_step_refl by (simp add: disconnected_def or_reject_def exec_bind_def exec_fail_def)
  next
    case (Some c)
    then have "exec_bind (on_inbox removal (accept_disconnection tn c)) (\<lambda>_. erase_removed_blobs) w = (r, w')"
      using run by (simp add: disconnected_def or_reject_def exec_bind_def exec_return_def)
    then show ?thesis
    proof (cases rule: on_inbox_cases)
      case (failed e)
      then show ?thesis using disconnection_step [of conn w tn c] by simp
    next
      case (went_on x w1)
      have "note_step conn w1 w'" using erase_step went_on(2) unfolding erase_removed_blobs_def by blast
      then show ?thesis using note_step_trans disconnection_step [of conn w tn c] went_on(1) by auto
    qed
  qed
  obtain r where "notes_vaults_handler nw message w = (r, w')" using run unfolding handled_iff by blast
  then show ?thesis
    by (auto simp: notes_vaults_handler_def exec_bind_def exec_result_def exec_return_def or_reject_def exec_fail_def
        note_step_refl split: sum.splits prod.splits option.splits if_splits intro: disconnect)
qed

section \<open>Histories\<close>

text \<open>
  The work of the other handlers, as far as the notes can see it: they write no note document, no guard and
  no removed connection, they keep the revisions of notes, and they reuse no identifier.
\<close>

definition elsewhere :: "world \<Rightarrow> world \<Rightarrow> bool" where
  "elsewhere w w' = (later w w' \<and> (ids_ok w \<longrightarrow> ids_ok w') \<and>
     note_documents (tables w') = note_documents (tables w) \<and> notes_files (tables w') = notes_files (tables w) \<and>
     notes_disconnections (tables w') = notes_disconnections (tables w) \<and>
     {s \<in> set (source_refs (tables w)). sr_owner s = notes_owner} \<subseteq> set (source_refs (tables w')))"

lemma elsewhere_step:
  assumes "elsewhere w w'"
  shows "note_step conn w w'"
proof -
  note e = assms [unfolded elsewhere_def]
  have live: "live_note (tables w') = live_note (tables w)" using e by (simp add: live_note_def fun_eq_iff)
  have cut: "cut_off conn (tables w') = cut_off conn (tables w)" using e by (simp add: cut_off_def removed_connection_def fun_eq_iff)
  have "notes_inv conn P {} w'" if inv: "notes_inv conn P {} w" for P
  proof -
    note i = notes_invD [OF inv]
    have "guards_ok conn (tables w')" using i(2) e cut by (simp add: guards_ok_def notes_unique_def)
    moreover have "documents_ok (tables w')"
      unfolding documents_ok_def
    proof (clarify)
      fix source tn f assume "(source, tn, f) \<in> note_documents (tables w')"
      then have "(source, tn, f) \<in> note_documents (tables w)" using e by simp
      then obtain s where "s \<in> set (source_refs (tables w))" "sr_id s = source" "sr_tenant s = tn" "sr_owner s = notes_owner"
        "sr_document s = uuid_text f" using i(3) unfolding documents_ok_def by blast
      then show "\<exists>s \<in> set (source_refs (tables w')). sr_id s = source \<and> sr_tenant s = tn \<and> sr_owner s = notes_owner \<and>
          sr_document s = uuid_text f" using e by blast
    qed
    moreover have "guarded_notes conn P {} (tables w')" using i(4) e live cut by (simp add: guarded_notes_def)
    moreover have "ids_ok w'" using i(1) e by blast
    ultimately show ?thesis by (simp add: notes_inv_def)
  qed
  then show ?thesis using e unfolding note_step_def claimed_def live cut by blast
qed

text \<open>What may happen while a note is read or the provider answers: also deliveries of the vaults' durable.\<close>

inductive meanwhile :: "notes_worker \<Rightarrow> world \<Rightarrow> world \<Rightarrow> bool" for nw :: notes_worker where
  idle: "meanwhile nw w w"
| other_work: "meanwhile nw w w1 \<Longrightarrow> elsewhere w1 w' \<Longrightarrow> meanwhile nw w w'"
| vault_fact: "meanwhile nw w w1 \<Longrightarrow> handled (notes_vaults_handler nw message) w1 = (out, w') \<Longrightarrow> meanwhile nw w w'"

lemma meanwhile_step: "meanwhile nw w w' \<Longrightarrow> note_step conn w w'"
  by (induction rule: meanwhile.induct)
    (blast intro: note_step_refl note_step_trans elsewhere_step vaults_delivery_step)+

definition notes_worker_ok :: "notes_worker \<Rightarrow> bool" where
  "notes_worker_ok nw = ((\<forall>f < 2 ^ 128. fw_uuid (nw_family nw) (uuid_text f) = Some f) \<and>
     (\<forall>f. fw_document (nw_family nw) (uuid_text f) = Some (uuid_text f)) \<and>
     (\<forall>request w. meanwhile nw w (snd (fw_generate (nw_family nw) request w))) \<and>
     (\<forall>path limit w. meanwhile nw w (snd (nt_open (nw_reader nw) path limit w))))"

lemma notes_worker_ok_steps: "notes_worker_ok nw \<Longrightarrow> notes_worker_steps conn nw"
  using meanwhile_step unfolding notes_worker_ok_def notes_worker_steps_def worker_ok_def by blast

text \<open>
  A history, from a database that has no note: deliveries of both durables and other work. The second
  component holds the files whose last delivery did not settle.
\<close>

definition no_notes :: "world \<Rightarrow> bool" where
  "no_notes w = (ids_ok w \<and> note_documents (tables w) = {} \<and> notes_files (tables w) = [])"

inductive notes_history :: "notes_worker \<Rightarrow> world \<Rightarrow> (string \<times> uuid) set \<Rightarrow> bool" for nw :: notes_worker where
  history_start: "no_notes w \<Longrightarrow> notes_history nw w {}"
| history_file: "notes_history nw w P \<Longrightarrow> handled (notes_files_handler nw message) w = (out, w') \<Longrightarrow>
    notes_history nw w' (pending_files (nw_contracts nw) message out P)"
| history_vault: "notes_history nw w P \<Longrightarrow> handled (notes_vaults_handler nw message) w = (out, w') \<Longrightarrow>
    notes_history nw w' P"
| history_other: "notes_history nw w P \<Longrightarrow> elsewhere w w' \<Longrightarrow> notes_history nw w' P"

lemma history_inv:
  assumes "notes_history nw w P" and "notes_worker_ok nw" and "one_connection conn (nw_contracts nw)"
  shows "notes_inv conn P {} w"
  using assms(1)
proof (induction rule: notes_history.induct)
  case (history_start w)
  then show ?case
    by (simp add: no_notes_def notes_inv_def guards_ok_def notes_unique_def key_unique_def documents_ok_def guarded_notes_def)
next
  case (history_file w P message out w')
  show ?case by (rule files_delivery_inv [OF notes_worker_ok_steps [OF assms(2)] assms(3) history_file(3,2)])
next
  case (history_vault w P message out w')
  show ?case by (rule note_stepD(2) [OF vaults_delivery_step [OF history_vault(2)] history_vault(3)])
next
  case (history_other w P w')
  show ?case by (rule note_stepD(2) [OF elsewhere_step [OF history_other(2)] history_other(3)])
qed


section \<open>A concrete history\<close>

definition hex_value :: "string \<Rightarrow> nat" where
  "hex_value s = foldl (\<lambda>n c. 16 * n + (if is_digit c then of_char c - 48 else of_char c - 87)) 0 s"

lemma hex_value_char: "d < 16 \<Longrightarrow> (if is_digit (hex_char d) then of_char (hex_char d) - 48 else of_char (hex_char d) - 87) = (d::nat)"
  by (auto simp: hex_char_def is_digit_def Let_def)

lemma hex_value_digits: "hex_value (hex_digits k n) = n mod 16 ^ k"
proof (induction k arbitrary: n)
  case 0
  then show ?case by (simp add: hex_value_def)
next
  case (Suc k)
  have "hex_value (hex_digits (Suc k) n) = 16 * (n div 16 mod 16 ^ k) + n mod 16"
    using Suc.IH [of "n div 16"] hex_value_char [of "n mod 16"] by (simp add: hex_value_def)
  then show ?case using mod_mult2_eq [of n 16 "16 ^ k"] by simp
qed

definition parse_hex :: "string \<Rightarrow> uuid option" where
  "parse_hex s = Some (hex_value (filter (\<lambda>c. c \<noteq> CHR ''-'') s))"

lemma parse_hex_text: "n < 2 ^ 128 \<Longrightarrow> parse_hex (uuid_text n) = Some n"
proof -
  assume "n < 2 ^ 128"
  moreover have "(2::nat) ^ 128 = 16 ^ 32" by simp
  ultimately have "n mod 16 ^ 32 = n" by (metis mod_less)
  then show "parse_hex (uuid_text n) = Some n" unfolding parse_hex_def uuid_text_strip hex_value_digits by simp
qed

text \<open>File 5 of connection 3, a PDF, with sequence 1.\<close>

definition sample_file_change :: file_changed where
  "sample_file_change = \<lparr>fc_connection = 3, fc_file = 5, fc_sequence = 1, fc_kind = FileCreated,
     fc_media = ''application/pdf'', fc_path = ''a.pdf'', fc_blob = None\<rparr>"

definition sample_notes_worker :: notes_worker where
  "sample_notes_worker = \<lparr>
     nw_family = \<lparr>fw_store = sample_store, fw_identity = offline_identity, fw_generate = (\<lambda>_ w. ((0, TimedOut), w)),
       fw_parse = (\<lambda>_. None), fw_uuid = parse_hex, fw_document = Some, fw_owner = (\<lambda>_. True), fw_texts = sample_texts,
       fw_to_text = (\<lambda>_. []), fw_social_bytes = (\<lambda>_. None), fw_conversation_bytes = (\<lambda>_. None),
       fw_project_bytes = (\<lambda>_. None), fw_request_bytes = (\<lambda>_. None), fw_decode_social = (\<lambda>_. None),
       fw_decode_conversation = (\<lambda>_. None), fw_decode_project = (\<lambda>_. None)\<rparr>,
     nw_reader = \<lparr>nt_root = None, nt_ceiling = 1000, nt_sha = (\<lambda>_. sample_digest), nt_sha256 = (\<lambda>_. True),
       nt_utf8 = (\<lambda>_. None), nt_open = (\<lambda>_ _ w. (None, w))\<rparr>,
     nw_contracts = \<lparr>nk_envelope = (\<lambda>_. Some \<lparr>env_event = 1, env_type = file_changed_type,
         env_producer = ''ratatoskr-notes'', env_tenant = Some ''user:1'', env_correlation = [], env_occurred = 0,
         env_payload = JNull\<rparr>),
       nk_changed = (\<lambda>_. Some sample_file_change),
       nk_connected = (\<lambda>_. None), nk_disconnected = (\<lambda>_. None)\<rparr>\<rparr>"

lemma sample_notes_worker_ok: "notes_worker_ok sample_notes_worker" "one_connection (\<lambda>_ _. 3) (nw_contracts sample_notes_worker)"
  by (simp_all add: notes_worker_ok_def sample_notes_worker_def one_connection_def parse_hex_text meanwhile.idle
      sample_file_change_def)

definition guarded_world :: world where
  "guarded_world = empty_world\<lparr>tables := empty_db\<lparr>notes_files :=
     [\<lparr>nf_tenant = ''user:1'', nf_file = 5, nf_connection = 3, nf_sequence = 1, nf_deleted = False\<rparr>]\<rparr>\<rparr>"

lemma sample_accept: "accept_change (guard_of ''user:1'' sample_file_change) empty_world = (Inr NoteCurrent, guarded_world)"
  by (simp add: accept_change_def transact_works claim_note_def lock_change_def lock_connection_def connection_removed_def
      removed_connection_def guard_of_def exec_bind_def query_works exec_return_def exec_map_err_def exec_result_def
      i64_of_def apply_note_def write_note_def applied_note_def sql_works note_row_def put_note_def note_at_def
      note_key_def guarded_world_def empty_db_def exists_where_def upsert_def find_where_def
      sample_file_change_def)

lemma sample_remove: "remove_derived c guarded_world = (Inr (), guarded_world)"
  by (simp add: remove_derived_def transact_works lock_change_def lock_connection_def exec_bind_def query_works
      remove_file_def note_sources_def guarded_world_def empty_db_def select_where_def exec_return_def)

lemma sample_erase: "erase_removed_blobs guarded_world = (Inr Done, guarded_world)"
  by (simp add: erase_removed_blobs_def erase_blobs_def collect_pending_blobs_def drain_queue_def exec_bind_def query_works
      exec_map_err_def exec_return_def queued_digests_def guarded_world_def empty_db_def)

lemma sample_change_file:
  "change_file nw ''user:1'' sample_file_change (guard_of ''user:1'' sample_file_change) empty_world = (Inr Done, guarded_world)"
proof -
  have "\<not> is_markdown (fc_media sample_file_change)"
    by (simp add: is_markdown_def sample_file_change_def trim_def is_whitespace_def ascii_lower_def)
  then show ?thesis
    by (simp add: change_file_def on_inbox_def exec_bind_def exec_map_err_def sample_accept sample_remove sample_erase)
qed

lemma sample_handler: "notes_files_handler sample_notes_worker [] =
    change_file sample_notes_worker ''user:1'' sample_file_change (guard_of ''user:1'' sample_file_change)"
  by (rule ext) (simp add: notes_files_handler_def decode_delivery_def sample_notes_worker_def notes_producers_def
      exec_bind_def exec_result_def or_reject_def exec_return_def apply_file_change_def Let_def,
      simp add: sample_file_change_def)

lemma sample_file_delivery: "handled (notes_files_handler sample_notes_worker []) empty_world = (Done, guarded_world)"
  by (simp add: handled_def sample_handler sample_change_file)


end
