(* ===== verification/Spec2Isabelle.thy ===== *)
theory Spec2Isabelle
  imports Pipeline_Correct Budget Outbox_Correct Redelivery Deletion_Isolation Inbox_Correct
    User_Content_Correct Recap_Correct Recap_Context_Correct Recap_Result_Correct Reindex_Correct
    Notes_History
begin

text \<open>
  A verification library of ratatoskr-knowledge, the service that turns captured documents into
  analyses and searchable text. Paths below are relative to \<open>src/crates/knowledge/src\<close>, or to
  \<open>src/services/knowledge/src\<close> where a path begins with \<open>services:\<close>.

  \<^bold>\<open>The program.\<close> Deliveries from other services arrive at an inbox, which registers a revision of
  a source and a run that analyses it. A run driver claims the run, prepares a bounded context, calls
  a language model through a budgeted provider, stores the raw answer as a blob before it looks at
  it, validates it, repairs it at most once, and persists the accepted output together with its
  search projection and a completion fact in an outbox. A publisher drains the outbox; user content
  (tags, collections, read states) hangs off the outputs; a second pipeline turns the manifest of a
  channel digest into a recap and announces it; a deletion removes a scope of it all,
  children first, and queues the blobs it no longer references for collection. Everything the
  components share is in one Postgres schema and one directory of blobs.

  \<^bold>\<open>The world.\<close> \<open>Schema\<close> has one record per table of \<open>schema.sql\<close>, the record \<open>db\<close> of all tables
  as lists of rows, and the record \<open>world\<close>: tables, blob directory, clock, source of identifiers,
  advisory locks held, provider calls made, and the list of \<open>faults\<close>. Every statement, transaction
  boundary and file operation consumes one fault: it works, is refused without effect, or takes
  effect while its acknowledgement is lost. A property of all worlds therefore holds for every
  pattern of outages and for a stop at any point. A handler is a function of type \<open>exec\<close> from a world
  to an error or a value and a world; the constraints of the schema (keys, checks, foreign keys) are
  part of the statements that can violate them.

  \<^bold>\<open>Theories.\<close>

    \<^item> \<open>Prelude\<close>: scalar types, saturating integers, SQL statements on lists of rows, the handler
      monad and its rules (\<open>exec_simps\<close>, \<open>table_simps\<close>, \<open>keeps_rules\<close>). \<open>Vocabulary\<close>: the closed enums
      and their spellings. \<open>Schema\<close>, \<open>Foreign_Keys\<close>: tables, world, foreign keys. \<open>Effects\<close>: what a
      statement or a transaction can do to a world, preservation of invariants and triples.
    \<^item> \<open>Chunking\<close> (\<open>chunking.rs\<close>), \<open>Context\<close> (\<open>context.rs\<close>, \<open>article.rs\<close>, \<open>deterministic_provider.rs\<close>):
      the pure functions; packing is the greedy grouping and loses no text, the context is the
      longest prefix of blocks that fits, citations are accepted exactly when distinct and in context.
    \<^item> \<open>Blob_Store\<close> (\<open>blob_store.rs\<close>, \<open>blob_registry.rs\<close>, \<open>deletion_blobs.rs\<close>): no committed row
      references a missing blob, a stored response is read back byte for byte, a drain collects the
      unreferenced queued blobs and nothing else.
    \<^item> \<open>Runs\<close> (\<open>runs.rs\<close>, \<open>run_lock.rs\<close>), \<open>Run_View\<close>, \<open>Run_Driver\<close> (\<open>run_driver.rs\<close>), \<open>Driver_Correct\<close>,
      \<open>Pipeline\<close> (\<open>pipeline.rs\<close>, \<open>family_pipeline.rs\<close>), \<open>Pipeline_Correct\<close>: the state machine of a run.
      The invariant \<open>run_ok\<close> relates state, attempts and accepted output; every execution keeps it and
      makes a bounded number of provider calls whatever fails. The locale \<open>driving\<close> is the contract of
      a provider that only answers; the offline and the controlled provider interpret it.
    \<^item> \<open>Search_Projection\<close> (\<open>search.rs\<close>, \<open>search/\<close>): text bounds and the latest-wins tables.
      \<open>Latest_Wins\<close>, \<open>First_Wins\<close>: the locales of the two kinds of deduplicating tables, interpreted on
      projections, heads, receipts, events and taggings.
    \<^item> \<open>Budget\<close> (\<open>budget.rs\<close>, \<open>controlled.rs\<close>, \<open>rate_limit.rs\<close>): spend stays below the ceilings, a refusal
      is exact, admitted calls are spaced.
    \<^item> \<open>Event_Outbox\<close>, \<open>Outbox_Correct\<close> (\<open>event_outbox.rs\<close>, \<open>services:ingest_publish.rs\<close>): publication is
      in order and at least once, and drains the outbox. \<open>Redelivery\<close> (\<open>services:redelivery.rs\<close>).
    \<^item> \<open>Deletion\<close>, \<open>Deletion_Correct\<close>, \<open>Deletion_Isolation\<close> (\<open>deletion*.rs\<close>): the child-first statements
      implement one specification of what belongs to a scope, all or nothing, and no other tenant can
      see a difference.
    \<^item> \<open>Source_Inbox\<close>, \<open>Inbox_Correct\<close> (\<open>source_inbox.rs\<close>): the head of a source is its latest delivery
      whatever the order, and a removed source stays removed.
    \<^item> \<open>User_Content\<close>, \<open>User_Content_Correct\<close> (\<open>user_content.rs\<close>): collections refine lists.
    \<^item> Channel recaps (\<open>channel_digest_recap*.rs\<close>, \<open>services:channel_recap.rs\<close>), a pipeline of its own:
      \<open>Recap_Manifest\<close> (commands, manifests, their fetch and verification), \<open>Recap_Context\<close> and
      \<open>Recap_Context_Correct\<close> (which sources a prompt holds, and why the others are omitted),
      \<open>Recap_Result\<close> and \<open>Recap_Result_Correct\<close> (the schema, the validation and the composition of a
      recap), \<open>Recap_Store\<close> (inbox, run states, terminal outbox), \<open>Recap_Pipeline\<close> (attempts, stored
      responses, recovery, settling), \<open>Recap_Worker\<close> (what the service does with one delivery).
      \<open>Recap_Invariant\<close> states what the recap tables say about a run, and how they may change;
      \<open>Evolution\<close> has the locale of histories of tables, interpreted in \<open>Recap_Steps\<close>; \<open>Recap_Sound\<close>,
      \<open>Recap_Transactions\<close> and \<open>Recap_Persist\<close> prove every statement and transaction sound,
      \<open>Recap_Execution\<close>, \<open>Recap_Worker_Sound\<close> and \<open>Recap_History\<close> compose them to executions, deliveries
      and histories, and \<open>Recap_Correct\<close> states what follows: published facts are true, a settled run is
      final, and a run makes at most two provider calls.

    \<^item> \<open>Transport\<close>, \<open>Openrouter\<close>, \<open>Embeddings\<close> (\<open>openrouter.rs\<close>, \<open>embeddings.rs\<close>): one try over a network
      that is a parameter, the classification of failures, the byte cap, the backoff and the retry loop
      (both files have the same private helpers, modelled once), which returns whatever is answered.
    \<^item> \<open>Indexer\<close>, \<open>Embedding_Service\<close>, \<open>Indexer_Correct\<close>, \<open>Indexer_Claims\<close> (\<open>indexer.rs\<close>, the indexing worker of
      \<open>services:main.rs\<close>): the locale \<open>embedding_service\<close> is the contract of a provider that writes
      nothing but usage rows, interpreted on the controlled adapter; a source is indexed wholly or not
      at all, and the loop of passes ends. \<open>Reindex\<close>, \<open>Reindex_Correct\<close> (\<open>reindex.rs\<close>): regeneration
      never mixes identities, and converges.

    \<^item> \<open>Family_Analysis\<close>, \<open>Family_Answers\<close> (\<open>family_analysis.rs\<close>, \<open>note_analysis.rs\<close>): the evidence shown to the
      model, the schema and the check of each family's answer; an accepted answer decodes to itself and
      quotes its source. \<open>Family_Pipeline\<close> (\<open>family_pipeline.rs\<close>): registration, run, drive and decoding.
    \<^item> \<open>Ingest\<close> (\<open>services:ingest.rs\<close>, \<open>services:ingest_handlers.rs\<close>): outcomes, dispositions, failure
      classes and readiness. \<open>Notes_Inbox\<close> (\<open>notes_inbox.rs\<close>), \<open>Ingest_Notes\<close> (\<open>services:ingest_notes.rs\<close>):
      the guard of a note, removed connections, and the handlers of both durables.
    \<^item> \<open>Fresh_Ids\<close>, \<open>Drive_Frame\<close> (what a drive leaves alone: the locales \<open>drive_frame\<close> and \<open>drive_persists\<close>),
      \<open>Notes_Correct\<close>, \<open>Notes_Steps\<close>, \<open>Notes_Drive\<close> and \<open>Notes_History\<close>: the invariant of the notes, its
      preservation by every transaction, by the drive of a note and by both handlers, and histories with
      vault removals during a delivery: no note of a removed vault or of a deleted file stays searchable.

  \<^bold>\<open>Bounds and fuel.\<close> Loops of the code are recursions on the list they
  consume, or on the number of calls left where the code has \<open>for call in 0..CALLS_PER_DRIVE\<close>; no
  function has fuel that is not a number of the code. The two loops whose end depends on answers from
  outside (\<open>retry_loop\<close>, \<open>run_indexing_pass\<close>) are partial functions into an option, with a theorem that
  they return. Integers keep their width where the code
  saturates, checks or casts; table columns are naturals whose checks are written out.

  \<^bold>\<open>Parameters.\<close> SHA-256, JSON text encoding, the contract crates of the neighbouring services,
  Unicode lower-casing, the calendar of the database server and the language model are arguments of
  the definitions that use them.

  \<^bold>\<open>Not modelled.\<close> The parsing of settings, the intake of documents, the execution of repository requests, the
  consumers of document, social and archive facts around the inbox; the inside of the HTTP client, routes, bus connections, metrics, tracing, start-up, connection
  pools, and the evaluation and test code; full-text ranking and vector search are Postgres
  functions.
\<close>

end
